(* ===== verification/Prelude.thy ===== *)
theory Prelude
  imports Main "HOL-Library.Word" "HOL-Library.List_Lexorder"
begin

text \<open>
  What every component shares: the names of the machine types, results as sums with their
  combinators, big-endian byte fields, signed 64-bit wrap-around, and the generic lemmas on
  lists and byte strings that carry the component proofs.
  Strings are \<^typ>\<open>string\<close>, one character per UTF-8 byte, so \<^const>\<open>length\<close> counts what
  \<open>str::len\<close> counts.
\<close>

section \<open>Machine types and results\<close>

type_synonym byte = "8 word"
type_synonym bytes = "byte list"
type_synonym u32 = "32 word"
type_synonym u64 = "64 word"

named_theorems result_simps \<open>unfolding of the result combinators\<close>
named_theorems wf_intros \<open>well-formedness of constructed values\<close>

definition rbind :: "'e + 'a \<Rightarrow> ('a \<Rightarrow> 'e + 'b) \<Rightarrow> 'e + 'b" where
  "rbind m f = (case m of Inl e \<Rightarrow> Inl e | Inr a \<Rightarrow> f a)"

definition ok_or :: "'a option \<Rightarrow> 'e \<Rightarrow> 'e + 'a" where
  "ok_or x e = (case x of None \<Rightarrow> Inl e | Some a \<Rightarrow> Inr a)"

definition map_err :: "('e \<Rightarrow> 'f) \<Rightarrow> 'e + 'a \<Rightarrow> 'f + 'a" where
  "map_err f m = (case m of Inl e \<Rightarrow> Inl (f e) | Inr a \<Rightarrow> Inr a)"

definition is_ok :: "'e + 'a \<Rightarrow> bool" where
  "is_ok m = (case m of Inl _ \<Rightarrow> False | Inr _ \<Rightarrow> True)"

text \<open>\<open>Iterator::map(f).collect::<Result<Vec<_>, _>>()\<close>: the first error wins.\<close>

fun collect_results :: "('a \<Rightarrow> 'e + 'b) \<Rightarrow> 'a list \<Rightarrow> 'e + 'b list" where
  "collect_results f [] = Inr []"
| "collect_results f (x # xs) =
     rbind (f x) (\<lambda>y. rbind (collect_results f xs) (\<lambda>ys. Inr (y # ys)))"

lemma rbind_simps [simp]: "rbind (Inl e) f = Inl e" "rbind (Inr a) f = f a"
  by (simp_all add: rbind_def)

lemma rbind_eq_Inr: "rbind m f = Inr b \<longleftrightarrow> (\<exists>a. m = Inr a \<and> f a = Inr b)"
  by (cases m) auto

lemma rbind_eq_Inl: "rbind m f = Inl e \<longleftrightarrow> m = Inl e \<or> (\<exists>a. m = Inr a \<and> f a = Inl e)"
  by (cases m) auto

lemma ok_or_simps [simp]: "ok_or None e = Inl e" "ok_or (Some a) e = Inr a"
  by (simp_all add: ok_or_def)

lemma ok_or_eq_Inr [simp]: "ok_or x e = Inr a \<longleftrightarrow> x = Some a"
  by (cases x) auto

lemma map_err_simps [simp]: "map_err f (Inl e) = Inl (f e)" "map_err f (Inr a) = Inr a"
  by (simp_all add: map_err_def)

lemma map_err_eq_Inr [simp]: "map_err f m = Inr a \<longleftrightarrow> m = Inr a"
  by (cases m) auto

lemma is_ok_simps [simp]: "is_ok (Inl e) = False" "is_ok (Inr a) = True"
  by (simp_all add: is_ok_def)

lemma is_ok_iff: "is_ok m \<longleftrightarrow> (\<exists>a. m = Inr a)"
  by (cases m) auto

lemmas result_iffs = rbind_eq_Inr rbind_eq_Inl is_ok_iff

lemma collect_results_Inr:
  "collect_results f xs = Inr ys \<longleftrightarrow> list_all2 (\<lambda>x y. f x = Inr y) xs ys"
proof (induction xs arbitrary: ys)
  case Nil
  show ?case by auto
next
  case (Cons x xs)
  show ?case by (cases ys) (auto simp: rbind_eq_Inr Cons.IH)
qed

lemma collect_results_map:
  assumes "\<And>y. y \<in> set ys \<Longrightarrow> f (g y) = Inr y"
  shows "collect_results f (map g ys) = Inr ys"
  using assms by (induction ys) auto

section \<open>Big-endian byte fields\<close>

text \<open>\<open>to_be_bytes\<close> and \<open>from_be_bytes\<close> of an unsigned integer of \<open>k\<close> bytes.\<close>

fun be_bytes :: "nat \<Rightarrow> nat \<Rightarrow> bytes" where
  "be_bytes 0 n = []"
| "be_bytes (Suc k) n = be_bytes k (n div 256) @ [of_nat (n mod 256)]"

definition of_be :: "bytes \<Rightarrow> nat" where
  "of_be bs = foldl (\<lambda>a b. a * 256 + unat b) 0 bs"

lemma unat_of_nat_byte: "unat (of_nat (n mod 256) :: byte) = n mod 256"
  by (simp add: unat_of_nat)

lemma of_be_Nil [simp]: "of_be [] = 0"
  by (simp add: of_be_def)

lemma of_be_snoc [simp]: "of_be (bs @ [b]) = of_be bs * 256 + unat b"
  by (simp add: of_be_def)

lemma foldl_be_shift:
  "foldl (\<lambda>a b. a * 256 + unat b) n (bs :: bytes) = n * 256 ^ length bs + of_be bs"
proof (induction bs rule: rev_induct)
  case Nil
  show ?case by simp
next
  case (snoc b bs)
  then show ?case by (simp add: algebra_simps)
qed

lemma of_be_Cons: "of_be (b # bs) = unat b * 256 ^ length bs + of_be bs"
  using foldl_be_shift [of "unat b" bs] by (simp add: of_be_def)

lemma of_be_zeros [simp]: "of_be (replicate n 0) = 0"
  by (induction n) (auto simp: of_be_Cons)

lemma unat_byte_less: "unat (b :: byte) < 256"
proof -
  have "unat b < 2 ^ LENGTH(8)" by (rule unsigned_less)
  then show ?thesis by simp
qed

lemma of_be_less: "of_be bs < 256 ^ length bs"
proof (induction bs rule: rev_induct)
  case Nil
  show ?case by simp
next
  case (snoc b bs)
  have "of_be bs * 256 + unat b < of_be bs * 256 + 256"
    using unat_byte_less [of b] by simp
  also have "\<dots> \<le> 256 ^ length bs * 256"
    using snoc by (metis Suc_leI add.commute mult_Suc mult_le_mono1)
  finally show ?case by simp
qed

lemma length_be_bytes [simp]: "length (be_bytes k n) = k"
  by (induction k arbitrary: n) auto

lemma of_be_be_bytes: "of_be (be_bytes k n) = n mod 256 ^ k"
proof (induction k arbitrary: n)
  case 0
  show ?case by simp
next
  case (Suc k)
  have "of_be (be_bytes (Suc k) n) = n div 256 mod 256 ^ k * 256 + n mod 256"
    by (simp add: Suc unat_of_nat_byte)
  also have "\<dots> = n mod (256 * 256 ^ k)"
    by (simp add: mod_mult2_eq)
  finally show ?case by simp
qed

lemma of_be_be_bytes_small: "n < 256 ^ k \<Longrightarrow> of_be (be_bytes k n) = n"
  by (simp add: of_be_be_bytes)

lemma be_bytes_of_be: "be_bytes (length bs) (of_be bs) = bs"
proof (induction bs rule: rev_induct)
  case Nil
  show ?case by simp
next
  case (snoc b bs)
  have "(of_be bs * 256 + unat b) div 256 = of_be bs"
    and "(of_be bs * 256 + unat b) mod 256 = unat b"
    using unat_byte_less [of b] by auto
  with snoc show ?case by simp
qed

lemma be_bytes_inject:
  "m < 256 ^ k \<Longrightarrow> n < 256 ^ k \<Longrightarrow> be_bytes k m = be_bytes k n \<longleftrightarrow> m = n"
  by (metis of_be_be_bytes_small)

lemma of_be_inject: "length as = length bs \<Longrightarrow> of_be as = of_be bs \<longleftrightarrow> as = bs"
  by (metis be_bytes_of_be)

section \<open>Signed 64-bit arithmetic\<close>

text \<open>
  A release build wraps on \<open>i64\<close> overflow. An \<open>i64\<close> is an \<^typ>\<open>int\<close> in range, and
  arithmetic on values a caller supplies goes through \<open>i64_wrap\<close>.
\<close>

definition i64_min :: int where "i64_min = - (2 ^ 63)"
definition i64_max :: int where "i64_max = 2 ^ 63 - 1"

definition i64_range :: "int \<Rightarrow> bool" where
  "i64_range x \<longleftrightarrow> i64_min \<le> x \<and> x \<le> i64_max"

definition i64_wrap :: "int \<Rightarrow> int" where
  "i64_wrap x = (x + 2 ^ 63) mod 2 ^ 64 - 2 ^ 63"

definition i64_sub :: "int \<Rightarrow> int \<Rightarrow> int" where
  "i64_sub a b = i64_wrap (a - b)"

definition i64_abs :: "int \<Rightarrow> int" where
  "i64_abs a = i64_wrap \<bar>a\<bar>"

definition i64_be :: "int \<Rightarrow> bytes" where
  "i64_be x = be_bytes 8 (nat (x mod 2 ^ 64))"

definition i64_of_be :: "bytes \<Rightarrow> int" where
  "i64_of_be bs = i64_wrap (int (of_be bs))"

lemma i64_wrap_range: "i64_range (i64_wrap x)"
proof -
  have "0 \<le> (x + 2 ^ 63) mod 2 ^ 64" "(x + 2 ^ 63) mod 2 ^ 64 < 2 ^ 64"
    by simp_all
  then show ?thesis by (simp add: i64_range_def i64_wrap_def i64_min_def i64_max_def)
qed

lemma i64_wrap_id: "i64_range x \<Longrightarrow> i64_wrap x = x"
  by (simp add: i64_range_def i64_wrap_def i64_min_def i64_max_def)

lemma i64_wrap_mod: "i64_wrap (x mod 2 ^ 64) = i64_wrap x"
  by (simp add: i64_wrap_def mod_simps)

lemma length_i64_be [simp]: "length (i64_be x) = 8"
  by (simp add: i64_be_def)

lemma i64_of_be_i64_be: "i64_range x \<Longrightarrow> i64_of_be (i64_be x) = x"
proof -
  assume r: "i64_range x"
  have "nat (x mod 2 ^ 64) < 256 ^ 8"
    by (simp add: nat_less_iff)
  then have "i64_of_be (i64_be x) = i64_wrap (x mod 2 ^ 64)"
    by (simp add: i64_of_be_def i64_be_def of_be_be_bytes_small)
  with r show ?thesis by (simp only: i64_wrap_mod i64_wrap_id)
qed

lemma i64_be_of_be: "length bs = 8 \<Longrightarrow> i64_be (i64_of_be bs) = bs"
proof -
  assume l: "length bs = 8"
  have lt: "int (of_be bs) < 2 ^ 64"
    using of_be_less [of bs] l by simp
  have "(i64_wrap (int (of_be bs))) mod 2 ^ 64 = int (of_be bs) mod 2 ^ 64"
    by (simp add: i64_wrap_def mod_simps)
  also have "\<dots> = int (of_be bs)"
    using lt by simp
  finally have "nat (i64_of_be bs mod 2 ^ 64) = of_be bs"
    by (simp add: i64_of_be_def)
  then show ?thesis
    using be_bytes_of_be [of bs] l by (simp add: i64_be_def)
qed

section \<open>Lists\<close>

lemma find_map_fst_distinct:
  assumes "distinct (map f xs)" and "x \<in> set xs"
  shows "find (\<lambda>y. f y = f x) xs = Some x"
  using assms by (induction xs) auto

lemma find_Some_set: "find P xs = Some x \<Longrightarrow> x \<in> set xs \<and> P x"
  by (auto simp: find_Some_iff)

lemma find_None_all: "find P xs = None \<longleftrightarrow> (\<forall>x \<in> set xs. \<not> P x)"
  by (auto simp: find_None_iff)

lemma distinct_map_filterI: "distinct (map f xs) \<Longrightarrow> distinct (map f (filter P xs))"
  by (induction xs) auto

lemma append_eq_length_left:
  "length as = length cs \<Longrightarrow> as @ bs = cs @ ds \<longleftrightarrow> as = cs \<and> bs = ds"
  by simp

text \<open>Splitting at the first separator: what \<open>split_once\<close> and a NUL-free label rely on.\<close>

lemma sep_split_unique:
  assumes "as @ s # bs = cs @ s # ds" and "s \<notin> set as" and "s \<notin> set cs"
  shows "as = cs \<and> bs = ds"
  using assms
proof (induction as arbitrary: cs)
  case Nil
  then show ?case by (cases cs) auto
next
  case (Cons a as)
  then obtain c cs' where "cs = c # cs'" by (cases cs) auto
  with Cons show ?case by auto
qed

lemma sum_list_filter_split:
  "sum_list (map f (filter P xs)) + sum_list (map f (filter (\<lambda>x. \<not> P x) xs))
   = (sum_list (map f xs) :: nat)"
  by (induction xs) auto

lemma sum_list_member_le: "x \<in> set xs \<Longrightarrow> f x \<le> (sum_list (map f xs) :: nat)"
  by (induction xs) auto


section \<open>Strings\<close>

text \<open>
  \<open>str::trim\<close> removes Unicode white space at both ends. A white-space character is one, two
  or three UTF-8 bytes; \<open>ws1\<close>, \<open>ws2\<close> and \<open>ws3\<close> are the encodings of each length.
\<close>

definition ws1 :: "char \<Rightarrow> bool" where
  "ws1 a \<longleftrightarrow> (let n = of_char a :: nat in 9 \<le> n \<and> n \<le> 13 \<or> n = 32)"

definition ws2 :: "char \<Rightarrow> char \<Rightarrow> bool" where
  "ws2 a b \<longleftrightarrow> (of_char a :: nat) = 194 \<and> (of_char b :: nat) \<in> {133, 160}"

definition ws3 :: "char \<Rightarrow> char \<Rightarrow> char \<Rightarrow> bool" where
  "ws3 a b d \<longleftrightarrow> (let x = of_char a :: nat; y = of_char b :: nat; z = of_char d :: nat in
     x = 225 \<and> y = 154 \<and> z = 128
   \<or> x = 226 \<and> y = 128 \<and> (128 \<le> z \<and> z \<le> 138 \<or> z = 168 \<or> z = 169 \<or> z = 175)
   \<or> x = 226 \<and> y = 129 \<and> z = 159
   \<or> x = 227 \<and> y = 128 \<and> z = 128)"

fun trim_start :: "string \<Rightarrow> string" where
  "trim_start (a # b # d # s) =
     (if ws1 a then trim_start (b # d # s)
      else if ws2 a b then trim_start (d # s)
      else if ws3 a b d then trim_start s
      else a # b # d # s)"
| "trim_start [a, b] = (if ws1 a then trim_start [b] else if ws2 a b then [] else [a, b])"
| "trim_start [a] = (if ws1 a then [] else [a])"
| "trim_start [] = []"

text \<open>The same from the other end, on the reversed bytes.\<close>

fun trim_rev :: "string \<Rightarrow> string" where
  "trim_rev (d # b # a # s) =
     (if ws1 d then trim_rev (b # a # s)
      else if ws2 b d then trim_rev (a # s)
      else if ws3 a b d then trim_rev s
      else d # b # a # s)"
| "trim_rev [b, a] = (if ws1 b then trim_rev [a] else if ws2 a b then [] else [b, a])"
| "trim_rev [a] = (if ws1 a then [] else [a])"
| "trim_rev [] = []"

definition trim :: "string \<Rightarrow> string" where
  "trim s = rev (trim_rev (rev (trim_start s)))"

definition ascii_printing :: "char \<Rightarrow> bool" where
  "ascii_printing a \<longleftrightarrow> (33 :: nat) \<le> of_char a \<and> of_char a \<le> (126 :: nat)"

lemma trim_start_id: "ascii_printing a \<Longrightarrow> trim_start (a # s) = a # s"
  by (cases "a # s" rule: trim_start.cases)
    (auto simp: ascii_printing_def ws1_def ws2_def ws3_def Let_def)

lemma trim_rev_id: "ascii_printing a \<Longrightarrow> trim_rev (a # s) = a # s"
  by (cases "a # s" rule: trim_rev.cases)
    (auto simp: ascii_printing_def ws1_def ws2_def ws3_def Let_def)

lemma trim_id:
  assumes "s \<noteq> []" and "ascii_printing (hd s)" and "ascii_printing (last s)"
  shows "trim s = s"
proof -
  from assms(1,2) have 1: "trim_start s = s" by (cases s) (simp_all add: trim_start_id)
  from assms(1) obtain t x where s: "s = t @ [x]" by (cases s rule: rev_cases) auto
  with assms(3) have "trim_rev (rev s) = rev s" by (simp add: trim_rev_id)
  with 1 show ?thesis by (simp add: trim_def)
qed

text \<open>\<open>strip_prefix\<close>, \<open>split_once\<close> on one character, and \<open>split\<close> on one character.\<close>

fun strip_prefix :: "string \<Rightarrow> string \<Rightarrow> string option" where
  "strip_prefix [] s = Some s"
| "strip_prefix (p # ps) (c # cs) = (if p = c then strip_prefix ps cs else None)"
| "strip_prefix (p # ps) [] = None"

fun split_once :: "char \<Rightarrow> string \<Rightarrow> (string \<times> string) option" where
  "split_once d [] = None"
| "split_once d (c # cs) =
     (if c = d then Some ([], cs)
      else map_option (\<lambda>(a, b). (c # a, b)) (split_once d cs))"

fun split_on :: "char \<Rightarrow> string \<Rightarrow> string list" where
  "split_on d [] = [[]]"
| "split_on d (c # cs) =
     (if c = d then [] # split_on d cs
      else (case split_on d cs of [] \<Rightarrow> [[c]] | w # ws \<Rightarrow> (c # w) # ws))"

fun join_with :: "char \<Rightarrow> string list \<Rightarrow> string" where
  "join_with d [] = []"
| "join_with d [w] = w"
| "join_with d (w # v # ws) = w @ d # join_with d (v # ws)"

lemma strip_prefix_append [simp]: "strip_prefix p (p @ s) = Some s"
  by (induction p) auto

lemma strip_prefix_Some: "strip_prefix p s = Some r \<longleftrightarrow> s = p @ r"
  by (induction p s rule: strip_prefix.induct) auto

lemma split_once_append: "d \<notin> set a \<Longrightarrow> split_once d (a @ d # b) = Some (a, b)"
  by (induction a) auto

lemma split_on_not_Nil [simp]: "split_on d s \<noteq> []"
  by (induction s) (auto split: list.splits)

lemma split_on_none: "d \<notin> set w \<Longrightarrow> split_on d w = [w]"
  by (induction w) auto

lemma split_on_append: "d \<notin> set w \<Longrightarrow> split_on d (w @ d # s) = w # split_on d s"
  by (induction w) auto

lemma split_on_join:
  "ws \<noteq> [] \<Longrightarrow> \<forall>w \<in> set ws. d \<notin> set w \<Longrightarrow> split_on d (join_with d ws) = ws"
  by (induction d ws rule: join_with.induct) (auto simp: split_on_none split_on_append)

lemma join_split_on: "join_with d (split_on d s) = s"
proof (induction s)
  case Nil
  show ?case by simp
next
  case (Cons c s)
  then obtain w ws where sp: "split_on d s = w # ws" by (cases "split_on d s") auto
  with Cons show ?case by (cases ws) auto
qed

lemma split_on_no_sep: "w \<in> set (split_on d s) \<Longrightarrow> d \<notin> set w"
  by (induction s arbitrary: w) (auto split: list.splits if_splits)

section \<open>UTF-8\<close>

text \<open>\<open>String::from_utf8\<close>: the well-formed byte sequences of the Unicode standard.\<close>

definition in_range :: "nat \<Rightarrow> nat \<Rightarrow> char \<Rightarrow> bool" where
  "in_range lo hi a \<longleftrightarrow> lo \<le> of_char a \<and> of_char a \<le> hi"

definition utf8_second :: "char \<Rightarrow> char \<Rightarrow> bool" where
  "utf8_second a b =
     (let n = of_char a :: nat in
      if n = 224 then in_range 160 191 b
      else if n = 237 then in_range 128 159 b
      else if n = 240 then in_range 144 191 b
      else if n = 244 then in_range 128 143 b
      else in_range 128 191 b)"

fun utf8_valid :: "string \<Rightarrow> bool" where
  "utf8_valid [] = True"
| "utf8_valid (a # s) =
     (if in_range 0 127 a then utf8_valid s
      else if in_range 194 223 a then
        (case s of b # rest \<Rightarrow> utf8_second a b \<and> utf8_valid rest | _ \<Rightarrow> False)
      else if in_range 224 239 a then
        (case s of b # c # rest \<Rightarrow> utf8_second a b \<and> in_range 128 191 c \<and> utf8_valid rest | _ \<Rightarrow> False)
      else if in_range 240 244 a then
        (case s of b # c # d # rest \<Rightarrow>
           utf8_second a b \<and> in_range 128 191 c \<and> in_range 128 191 d \<and> utf8_valid rest
         | _ \<Rightarrow> False)
      else False)"

section \<open>Decimal numbers\<close>

text \<open>\<open>to_string\<close> and \<open>str::parse\<close> of the integer types: one optional sign, then at least one
  digit, and the value must fit.\<close>

definition digit_char :: "nat \<Rightarrow> char" where
  "digit_char d = char_of (48 + d)"

fun show_nat :: "nat \<Rightarrow> string" where
  "show_nat n = (if n < 10 then [digit_char n] else show_nat (n div 10) @ [digit_char (n mod 10)])"

declare show_nat.simps [simp del]

definition show_int :: "int \<Rightarrow> string" where
  "show_int i = (if i < 0 then CHR ''-'' # show_nat (nat (- i)) else show_nat (nat i))"

definition dec_digit :: "char \<Rightarrow> nat option" where
  "dec_digit a = (let n = of_char a :: nat in if 48 \<le> n \<and> n \<le> 57 then Some (n - 48) else None)"

fun parse_digits :: "nat \<Rightarrow> string \<Rightarrow> nat option" where
  "parse_digits acc [] = Some acc"
| "parse_digits acc (a # s) =
     (case dec_digit a of None \<Rightarrow> None | Some d \<Rightarrow> parse_digits (acc * 10 + d) s)"

definition parse_unsigned :: "string \<Rightarrow> nat option" where
  "parse_unsigned s = (if s = [] then None else parse_digits 0 s)"

definition parse_u64 :: "string \<Rightarrow> nat option" where
  "parse_u64 s =
     (case parse_unsigned (if s \<noteq> [] \<and> hd s = CHR ''+'' then tl s else s) of
        None \<Rightarrow> None
      | Some n \<Rightarrow> if n < 2 ^ 64 then Some n else None)"

definition parse_i64 :: "string \<Rightarrow> int option" where
  "parse_i64 s =
     (if s \<noteq> [] \<and> hd s = CHR ''-'' then
        (case parse_unsigned (tl s) of
           None \<Rightarrow> None
         | Some n \<Rightarrow> if n \<le> 2 ^ 63 then Some (- int n) else None)
      else
        (case parse_unsigned (if s \<noteq> [] \<and> hd s = CHR ''+'' then tl s else s) of
           None \<Rightarrow> None
         | Some n \<Rightarrow> if n < 2 ^ 63 then Some (int n) else None))"

lemma of_digit_char: "d < 10 \<Longrightarrow> of_char (digit_char d) = 48 + d"
  by (simp add: digit_char_def)

lemma dec_digit_char: "d < 10 \<Longrightarrow> dec_digit (digit_char d) = Some d"
  by (simp add: dec_digit_def of_digit_char)

lemma parse_digits_append:
  "parse_digits acc (s @ t) = Option.bind (parse_digits acc s) (\<lambda>a. parse_digits a t)"
  by (induction s arbitrary: acc) (auto split: option.splits)

lemma parse_digits_show: "parse_digits 0 (show_nat n) = Some n"
proof (induction n rule: show_nat.induct)
  case (1 n)
  then show ?case
    by (subst show_nat.simps) (auto simp: parse_digits_append dec_digit_char)
qed

lemma show_nat_not_Nil [simp]: "show_nat n \<noteq> []"
  by (subst show_nat.simps) simp

lemma show_nat_digit: "a \<in> set (show_nat n) \<Longrightarrow> 48 \<le> (of_char a :: nat) \<and> of_char a \<le> (57 :: nat)"
proof (induction n rule: show_nat.induct)
  case (1 n)
  show ?case
  proof (cases "n < 10")
    case True
    with 1(2) have "a = digit_char n" by (subst (asm) show_nat.simps) simp
    with True show ?thesis by (simp add: of_digit_char)
  next
    case False
    with 1(2) have "a \<in> set (show_nat (n div 10)) \<or> a = digit_char (n mod 10)"
      by (subst (asm) show_nat.simps) auto
    with 1(1) False show ?thesis by (auto simp: of_digit_char)
  qed
qed

lemma show_nat_hd: "hd (show_nat n) \<noteq> CHR ''+''" "hd (show_nat n) \<noteq> CHR ''-''"
  using show_nat_digit [of "hd (show_nat n)" n] by auto

lemma parse_u64_show: "n < 2 ^ 64 \<Longrightarrow> parse_u64 (show_nat n) = Some n"
  by (simp add: parse_u64_def parse_unsigned_def parse_digits_show show_nat_hd)

lemma parse_i64_show: "i64_range i \<Longrightarrow> parse_i64 (show_int i) = Some i"
  by (auto simp: parse_i64_def show_int_def parse_unsigned_def parse_digits_show show_nat_hd
      i64_range_def i64_min_def i64_max_def)

lemma parse_u64_bound: "parse_u64 s = Some n \<Longrightarrow> n < 2 ^ 64"
  by (auto simp: parse_u64_def split: option.splits if_splits)

lemma parse_i64_range: "parse_i64 s = Some i \<Longrightarrow> i64_range i"
  by (auto simp: parse_i64_def i64_range_def i64_min_def i64_max_def split: option.splits if_splits)

text \<open>\<open>Option::filter\<close>.\<close>

definition filter_option :: "('a \<Rightarrow> bool) \<Rightarrow> 'a option \<Rightarrow> 'a option" where
  "filter_option P x = (case x of None \<Rightarrow> None | Some a \<Rightarrow> if P a then Some a else None)"

lemma filter_option_Some [simp]: "filter_option P x = Some a \<longleftrightarrow> x = Some a \<and> P a"
  by (auto simp: filter_option_def split: option.splits)

end
