(* ===== verification/Ids.thy ===== *)
theory Ids
  imports Prelude
begin

text \<open>
  Identifiers and byte fields (\<open>proto/ids.rs\<close>), the framing convention and its labels
  (\<open>proto/frame.rs\<close>), the format errors, and the code outside the repository that the
  protocol calls: SHA-256, blake3, Ed25519, CRC-32, hexadecimal and base64url text. Those
  functions are the fields of \<open>crypto\<close>, an argument of every definition that uses one.
\<close>

section \<open>Code outside the repository\<close>

record crypto =
  sha256 :: "bytes \<Rightarrow> bytes"
  blake3_derive :: "string \<Rightarrow> bytes \<Rightarrow> bytes"
  ed25519_verify :: "bytes \<Rightarrow> bytes \<Rightarrow> bytes \<Rightarrow> bool"
  crc32 :: "string \<Rightarrow> u32"
  hex_encode :: "bytes \<Rightarrow> string"
  hex_decode :: "string \<Rightarrow> bytes option"
  b64_encode :: "bytes \<Rightarrow> string"
  b64_decode :: "string \<Rightarrow> bytes option"

datatype FormatError =
    WrongPrefix string
  | UnknownVersion char
  | WrongLength nat nat
  | BadCharacter nat
  | Checksum
  | Overflow
  | Hex nat
  | Base64

section \<open>Identifiers\<close>

datatype VaultId = VaultId (vid: bytes)
datatype TokenId = TokenId (tid: bytes)
datatype NameHmac = NameHmac (nhm: bytes)
datatype Hash32 = Hash32 (h32: bytes)
datatype Key32 = Key32 (k32: bytes)
datatype Sig64 = Sig64 (s64: bytes)
datatype B64 = B64 (b64: bytes)

text \<open>The fixed array lengths of the source's types.\<close>

definition wf_vault_id :: "VaultId \<Rightarrow> bool" where "wf_vault_id x \<longleftrightarrow> length (vid x) = 16"
definition wf_token_id :: "TokenId \<Rightarrow> bool" where "wf_token_id x \<longleftrightarrow> length (tid x) = 16"
definition wf_name_hmac :: "NameHmac \<Rightarrow> bool" where "wf_name_hmac x \<longleftrightarrow> length (nhm x) = 32"
definition wf_hash32 :: "Hash32 \<Rightarrow> bool" where "wf_hash32 x \<longleftrightarrow> length (h32 x) = 32"
definition wf_key32 :: "Key32 \<Rightarrow> bool" where "wf_key32 x \<longleftrightarrow> length (k32 x) = 32"

lemmas wf_id_defs = wf_vault_id_def wf_token_id_def wf_name_hmac_def wf_hash32_def wf_key32_def

text \<open>\<open>NameHmac\<close> derives \<open>Ord\<close>: byte by byte, as SQLite compares blobs.\<close>

instantiation NameHmac :: linorder
begin

definition less_eq_NameHmac :: "NameHmac \<Rightarrow> NameHmac \<Rightarrow> bool" where
  "less_eq_NameHmac a b \<longleftrightarrow> nhm a \<le> nhm b"

definition less_NameHmac :: "NameHmac \<Rightarrow> NameHmac \<Rightarrow> bool" where
  "less_NameHmac a b \<longleftrightarrow> nhm a < nhm b"

instance
  by standard
    (auto simp: less_eq_NameHmac_def less_NameHmac_def NameHmac.expand)

end

instantiation TokenId :: linorder
begin

definition less_eq_TokenId :: "TokenId \<Rightarrow> TokenId \<Rightarrow> bool" where
  "less_eq_TokenId a b \<longleftrightarrow> tid a \<le> tid b"

definition less_TokenId :: "TokenId \<Rightarrow> TokenId \<Rightarrow> bool" where
  "less_TokenId a b \<longleftrightarrow> tid a < tid b"

instance
  by standard
    (auto simp: less_eq_TokenId_def less_TokenId_def TokenId.expand)

end

definition hash_sha256 :: "crypto \<Rightarrow> bytes \<Rightarrow> Hash32" where
  "hash_sha256 c data = Hash32 (sha256 c data)"

text \<open>\<open>to_hex\<close> and \<open>from_hex\<close> of the \<open>hex_bytes!\<close> types: \<open>decode_to_slice\<close> wants exactly
  \<open>2 * n\<close> hexadecimal characters.\<close>

definition from_hex :: "crypto \<Rightarrow> nat \<Rightarrow> string \<Rightarrow> FormatError + bytes" where
  "from_hex c n s = (case hex_decode c s of
     None \<Rightarrow> Inl (Hex (n * 2))
   | Some bs \<Rightarrow> if length bs = n then Inr bs else Inl (Hex (n * 2)))"

definition vault_id_to_hex :: "crypto \<Rightarrow> VaultId \<Rightarrow> string" where
  "vault_id_to_hex c v = hex_encode c (vid v)"

definition vault_id_from_hex :: "crypto \<Rightarrow> string \<Rightarrow> FormatError + VaultId" where
  "vault_id_from_hex c s = rbind (from_hex c 16 s) (\<lambda>bs. Inr (VaultId bs))"

definition token_id_to_hex :: "crypto \<Rightarrow> TokenId \<Rightarrow> string" where
  "token_id_to_hex c v = hex_encode c (tid v)"

definition token_id_from_hex :: "crypto \<Rightarrow> string \<Rightarrow> FormatError + TokenId" where
  "token_id_from_hex c s = rbind (from_hex c 16 s) (\<lambda>bs. Inr (TokenId bs))"

definition name_hmac_from_hex :: "crypto \<Rightarrow> string \<Rightarrow> FormatError + NameHmac" where
  "name_hmac_from_hex c s = rbind (from_hex c 32 s) (\<lambda>bs. Inr (NameHmac bs))"

definition b64_encode_str :: "crypto \<Rightarrow> bytes \<Rightarrow> string" where
  "b64_encode_str c bs = b64_encode c bs"

definition b64_decode_str :: "crypto \<Rightarrow> string \<Rightarrow> FormatError + bytes" where
  "b64_decode_str c s = ok_or (b64_decode c s) Base64"

lemma name_hmac_from_hex_wf: "name_hmac_from_hex c s = Inr n \<Longrightarrow> wf_name_hmac n"
  by (auto simp: name_hmac_from_hex_def from_hex_def wf_name_hmac_def rbind_eq_Inr
      split: option.splits if_splits)

lemma token_id_from_hex_wf: "token_id_from_hex c s = Inr n \<Longrightarrow> wf_token_id n"
  by (auto simp: token_id_from_hex_def from_hex_def wf_token_id_def rbind_eq_Inr
      split: option.splits if_splits)

section \<open>Labels and frames\<close>

definition str_bytes :: "string \<Rightarrow> bytes" where
  "str_bytes s = map of_char s"

lemma str_bytes_append [simp]: "str_bytes (a @ b) = str_bytes a @ str_bytes b"
  by (simp add: str_bytes_def)

lemma unat_of_char: "unat (of_char x :: byte) = of_char x"
proof -
  have "unat (of_nat (of_char x) :: byte) = of_char x"
    by (simp add: unat_of_nat)
  then show ?thesis by (simp add: of_nat_of_char)
qed

lemma of_char_byte_inject: "(of_char a :: byte) = of_char b \<longleftrightarrow> a = b"
  by (metis unat_of_char of_char_eq_iff)

lemma str_bytes_inject [simp]: "str_bytes a = str_bytes b \<longleftrightarrow> a = b"
  unfolding str_bytes_def by (rule inj_map_eq_map) (simp add: inj_def of_char_byte_inject)

definition LABEL_CHILD :: string where "LABEL_CHILD = ''gv/v1/child''"
definition LABEL_OWNER_SIGN :: string where "LABEL_OWNER_SIGN = ''gv/v1/owner-sign''"
definition LABEL_OWNER_BOX :: string where "LABEL_OWNER_BOX = ''gv/v1/owner-box''"
definition LABEL_TOKEN_AUTH :: string where "LABEL_TOKEN_AUTH = ''gv/v1/token-auth''"
definition LABEL_TOKEN_BOX :: string where "LABEL_TOKEN_BOX = ''gv/v1/token-box''"
definition LABEL_NAME_INDEX :: string where "LABEL_NAME_INDEX = ''gv/v1/name-index''"
definition LABEL_NAME_ENC :: string where "LABEL_NAME_ENC = ''gv/v1/name-enc''"
definition LABEL_NAME_AAD :: string where "LABEL_NAME_AAD = ''gv/v1/name''"
definition LABEL_VAULT_ID :: string where "LABEL_VAULT_ID = ''gv/v1/vault-id''"
definition LABEL_DESCRIPTOR :: string where "LABEL_DESCRIPTOR = ''gv/v1/descriptor''"
definition LABEL_BUNDLE :: string where "LABEL_BUNDLE = ''gv/v1/bundle''"
definition LABEL_RECORD :: string where "LABEL_RECORD = ''gv/v1/record''"
definition LABEL_CHILDREN :: string where "LABEL_CHILDREN = ''gv/v1/children''"
definition LABEL_REPORT :: string where "LABEL_REPORT = ''gv/v1/report''"
definition LABEL_SIG :: string where "LABEL_SIG = ''gv/v1/sig''"

lemmas label_defs = LABEL_CHILD_def LABEL_OWNER_SIGN_def LABEL_OWNER_BOX_def LABEL_TOKEN_AUTH_def
  LABEL_TOKEN_BOX_def LABEL_NAME_INDEX_def LABEL_NAME_ENC_def LABEL_NAME_AAD_def LABEL_VAULT_ID_def
  LABEL_DESCRIPTOR_def LABEL_BUNDLE_def LABEL_RECORD_def LABEL_CHILDREN_def LABEL_REPORT_def
  LABEL_SIG_def

definition LABELS :: "string list" where
  "LABELS = [LABEL_CHILD, LABEL_OWNER_SIGN, LABEL_OWNER_BOX, LABEL_TOKEN_AUTH, LABEL_TOKEN_BOX,
     LABEL_NAME_INDEX, LABEL_NAME_ENC, LABEL_NAME_AAD, LABEL_VAULT_ID, LABEL_DESCRIPTOR,
     LABEL_BUNDLE, LABEL_RECORD, LABEL_CHILDREN, LABEL_REPORT, LABEL_SIG]"

definition frame :: "string \<Rightarrow> bytes list \<Rightarrow> bytes" where
  "frame label parts = str_bytes label @ [0] @ concat parts"

definition nul_free :: "string \<Rightarrow> bool" where
  "nul_free s \<longleftrightarrow> (0 :: byte) \<notin> set (str_bytes s)"

lemma labels_distinct: "distinct LABELS"
  by (simp add: LABELS_def label_defs)

lemma labels_nul_free: "l \<in> set LABELS \<Longrightarrow> nul_free l"
  by (auto simp: LABELS_def label_defs nul_free_def str_bytes_def)

lemma frame_eq_iff:
  assumes "nul_free l" and "nul_free l'"
  shows "frame l ps = frame l' ps' \<longleftrightarrow> l = l' \<and> concat ps = concat ps'"
proof
  assume "frame l ps = frame l' ps'"
  then have "str_bytes l @ 0 # concat ps = str_bytes l' @ 0 # concat ps'"
    by (simp add: frame_def)
  then have "str_bytes l = str_bytes l' \<and> concat ps = concat ps'"
    using assms by (intro sep_split_unique) (auto simp: nul_free_def)
  then show "l = l' \<and> concat ps = concat ps'" by simp
qed (simp add: frame_def)

text \<open>Fields of equal widths: the concatenation determines every field.\<close>

lemma concat_fields_inject:
  "list_all2 (\<lambda>a b. length a = length b) ps qs \<Longrightarrow> concat ps = concat qs \<longleftrightarrow> ps = qs"
  by (induction rule: list_all2_induct) auto

definition from_owner_sign_pub :: "crypto \<Rightarrow> Key32 \<Rightarrow> VaultId" where
  "from_owner_sign_pub c k = VaultId (take 16 (sha256 c (frame LABEL_VAULT_ID [k32 k])))"

section \<open>A concrete instance\<close>

text \<open>A setting in which the parameters compute, for concrete evaluations: byte sums for the
  checksum, a constant hash, and a signature that repeats the key.\<close>

definition sum_crc :: "string \<Rightarrow> u32" where
  "sum_crc s = sum_list (map of_char s)"

definition hex_digit :: "nat \<Rightarrow> char" where
  "hex_digit n = (if n < 10 then char_of (48 + n) else char_of (87 + n))"

definition hex_value :: "char \<Rightarrow> nat option" where
  "hex_value a = (let n = of_char a :: nat in
     if 48 \<le> n \<and> n \<le> 57 then Some (n - 48)
     else if 97 \<le> n \<and> n \<le> 102 then Some (n - 87) else None)"

fun ref_hex_encode :: "bytes \<Rightarrow> string" where
  "ref_hex_encode [] = []"
| "ref_hex_encode (b # bs) = hex_digit (unat b div 16) # hex_digit (unat b mod 16) # ref_hex_encode bs"

fun ref_hex_decode :: "string \<Rightarrow> bytes option" where
  "ref_hex_decode [] = Some []"
| "ref_hex_decode [a] = None"
| "ref_hex_decode (a # b # s) = (case (hex_value a, hex_value b, ref_hex_decode s) of
     (Some x, Some y, Some bs) \<Rightarrow> Some (of_nat (16 * x + y) # bs)
   | _ \<Rightarrow> None)"

definition null_crypto :: crypto where
  "null_crypto = \<lparr>sha256 = (\<lambda>d. replicate 32 0), blake3_derive = (\<lambda>l d. replicate 32 0),
     ed25519_verify = (\<lambda>k m s. s = k @ k), crc32 = sum_crc,
     hex_encode = ref_hex_encode, hex_decode = ref_hex_decode,
     b64_encode = ref_hex_encode, b64_decode = ref_hex_decode\<rparr>"

lemma of_hex_digit: "n < 16 \<Longrightarrow> of_char (hex_digit n) = (if n < 10 then 48 + n else 87 + n)"
  by (simp add: hex_digit_def)

lemma hex_value_digit: "n < 16 \<Longrightarrow> hex_value (hex_digit n) = Some n"
  by (simp add: hex_value_def of_hex_digit Let_def)

lemma nibbles_less: "unat (b :: byte) div 16 < 16" "unat b mod 16 < 16"
  using unat_byte_less [of b] by auto

lemma ref_hex_decode_encode: "ref_hex_decode (ref_hex_encode bs) = Some bs"
  by (induction bs) (simp_all add: hex_value_digit nibbles_less)

text \<open>The documented text forms: hexadecimal and unpadded base64url decode what they encode, and
  use letters, digits, \<open>-\<close> and \<open>_\<close> only.\<close>

definition text_char :: "char \<Rightarrow> bool" where
  "text_char a \<longleftrightarrow> (let n = of_char a :: nat in
     48 \<le> n \<and> n \<le> 57 \<or> 65 \<le> n \<and> n \<le> 90 \<or> 97 \<le> n \<and> n \<le> 122 \<or> n = 45 \<or> n = 95)"

definition text_codecs :: "crypto \<Rightarrow> bool" where
  "text_codecs c \<longleftrightarrow>
     (\<forall>bs. hex_decode c (hex_encode c bs) = Some bs \<and> list_all text_char (hex_encode c bs))
   \<and> (\<forall>bs. b64_decode c (b64_encode c bs) = Some bs \<and> list_all text_char (b64_encode c bs))"

lemma text_char_hex_digit: "n < 16 \<Longrightarrow> text_char (hex_digit n)"
  by (simp add: text_char_def of_hex_digit Let_def)

lemma null_text_codecs: "text_codecs null_crypto"
proof -
  have "list_all text_char (ref_hex_encode bs)" for bs
    by (induction bs) (simp_all add: text_char_hex_digit nibbles_less)
  then show ?thesis by (simp add: text_codecs_def null_crypto_def ref_hex_decode_encode)
qed

end
