(* ===== verification/Codec.thy ===== *)
theory Codec
  imports Ids
begin

text \<open>
  Fixed-width base62 and the checksummed key and token strings
  (\<open>proto/codec.rs\<close>). The two conversion loops are modelled as they run: schoolbook
  division and multiplication over the big-endian bytes, in 32-bit words. The CRC-32 of the
  checksum is the crate \<open>crc32fast\<close>, a parameter.
\<close>

section \<open>Definitions\<close>

definition ALPHABET :: string where
  "ALPHABET = ''0123456789ABCDEFGHIJKLMNOPQRSTUVWXYZabcdefghijklmnopqrstuvwxyz''"

definition CHECKSUM_WIDTH :: nat where "CHECKSUM_WIDTH = 6"
definition KEY_PREFIX :: string where "KEY_PREFIX = ''gvk1_''"
definition TOKEN_PREFIX :: string where "TOKEN_PREFIX = ''gvt1_''"
definition KEY_LEN :: nat where "KEY_LEN = 32"
definition TOKEN_SECRET_LEN :: nat where "TOKEN_SECRET_LEN = 32"
definition TOKEN_LEN :: nat where "TOKEN_LEN = 16 + 16 + TOKEN_SECRET_LEN"

text \<open>\<open>(n * 8 * 1_000_000_000).div_ceil(5_954_196_310)\<close>.\<close>

definition width_for :: "nat \<Rightarrow> nat" where
  "width_for n_bytes = (n_bytes * 8 * 1000000000 + 5954196310 - 1) div 5954196310"

text \<open>The inner loop of \<open>encode_fixed\<close>: divide the number in place by 62.\<close>

fun encode_pass :: "u32 \<Rightarrow> bytes \<Rightarrow> u32 \<times> bytes" where
  "encode_pass rem [] = (rem, [])"
| "encode_pass rem (b # bs) =
     (let acc = or (push_bit 8 rem) (ucast b);
          (rem', bs') = encode_pass (acc mod 62) bs
      in (rem', ucast (acc div 62) # bs'))"

text \<open>The outer loop fills the slots from the last to the first.\<close>

fun encode_loop :: "nat \<Rightarrow> bytes \<Rightarrow> string \<Rightarrow> string" where
  "encode_loop 0 num out = out"
| "encode_loop (Suc w) num out =
     (let (rem, num') = encode_pass 0 num
      in encode_loop w num' (ALPHABET ! unat rem # out))"

definition encode_fixed :: "bytes \<Rightarrow> string" where
  "encode_fixed bs = encode_loop (width_for (length bs)) bs []"

definition digit :: "char \<Rightarrow> u32 option" where
  "digit c = (let n = of_char c :: nat in
     if 48 \<le> n \<and> n \<le> 57 then Some (of_nat (n - 48))
     else if 65 \<le> n \<and> n \<le> 90 then Some (of_nat (n - 65) + 10)
     else if 97 \<le> n \<and> n \<le> 122 then Some (of_nat (n - 97) + 36)
     else None)"

text \<open>The inner loop of \<open>decode_fixed\<close>: multiply by 62 and add, from the last byte.\<close>

fun decode_pass :: "bytes \<Rightarrow> u32 \<Rightarrow> bytes \<times> u32" where
  "decode_pass [] carry = ([], carry)"
| "decode_pass (b # bs) carry =
     (let (bs', carry') = decode_pass bs carry;
          acc = ucast b * 62 + carry'
      in (ucast (and acc 255) # bs', drop_bit 8 acc))"

fun decode_loop :: "nat \<Rightarrow> string \<Rightarrow> bytes \<Rightarrow> FormatError + bytes" where
  "decode_loop position [] num = Inr num"
| "decode_loop position (c # cs) num =
     (case digit c of
        None \<Rightarrow> Inl (BadCharacter position)
      | Some d \<Rightarrow>
          (let (num', carry) = decode_pass num d
           in if carry \<noteq> 0 then Inl Overflow else decode_loop (Suc position) cs num'))"

definition decode_fixed :: "string \<Rightarrow> nat \<Rightarrow> FormatError + bytes" where
  "decode_fixed s n_bytes =
     (let width = width_for n_bytes in
      if length s \<noteq> width then Inl (WrongLength width (length s))
      else decode_loop 0 s (replicate n_bytes 0))"

section \<open>The division loop computes the base-62 digits\<close>

lemma unat_acc:
  assumes "unat (rem :: u32) < 62"
  shows "unat (or (push_bit 8 rem) (ucast (b :: byte))) = unat rem * 256 + unat b"
proof -
  have b: "unat (ucast b :: u32) = unat b"
    using unat_byte_less [of b] by (simp add: unsigned_ucast_eq take_bit_nat_eq_self)
  have disj: "and (push_bit 8 rem) (ucast b) = (0 :: u32)"
    by (rule bit_word_eqI) (auto simp: bit_simps dest: bit_imp_le_length)
  have "or (push_bit 8 rem) (ucast b) = push_bit 8 rem + (ucast b :: u32)"
    using disj by (simp add: disjunctive_add_eq_or)
  also have "\<dots> = rem * 256 + ucast b"
    by (simp add: push_bit_eq_mult)
  finally have eq: "or (push_bit 8 rem) (ucast b) = rem * 256 + (ucast b :: u32)" .
  have "unat rem * 256 + unat b < 2 ^ 32"
    using assms unat_byte_less [of b] by simp
  then show ?thesis
    by (simp add: eq unat_word_ariths b)
qed

lemma encode_pass_correct:
  assumes "unat rem < 62" and "encode_pass rem bs = (rem', bs')"
  shows "length bs' = length bs
    \<and> of_be bs' = (unat rem * 256 ^ length bs + of_be bs) div 62
    \<and> unat rem' = (unat rem * 256 ^ length bs + of_be bs) mod 62"
  using assms
proof (induction bs arbitrary: rem rem' bs')
  case Nil
  then show ?case by auto
next
  case (Cons b bs)
  define acc :: u32 where "acc = or (push_bit 8 rem) (ucast b)"
  define A where "A = unat rem * 256 + unat b"
  have acc: "unat acc = A" using unat_acc [OF Cons.prems(1)] by (simp add: acc_def A_def)
  have r62: "unat (acc mod 62) = A mod 62" by (simp add: unat_mod acc)
  have A_lt: "A div 62 < 256"
    using Cons.prems(1) unat_byte_less [of b] by (simp add: A_def div_less_iff_less_mult)
  have q: "unat (ucast (acc div 62) :: byte) = A div 62"
    using A_lt by (simp add: unsigned_ucast_eq unat_div acc take_bit_nat_eq_self)
  obtain r2 bs2 where p: "encode_pass (acc mod 62) bs = (r2, bs2)" by fastforce
  with Cons.prems(2) have rem': "rem' = r2" and bs': "bs' = ucast (acc div 62) # bs2"
    by (simp_all add: acc_def Let_def)
  let ?k = "256 ^ length bs :: nat"
  have ih: "length bs2 = length bs" "of_be bs2 = (A mod 62 * ?k + of_be bs) div 62"
    "unat r2 = (A mod 62 * ?k + of_be bs) mod 62"
    using Cons.IH [OF _ p] r62 by simp_all
  have "unat rem * 256 ^ length (b # bs) + of_be (b # bs) = A * ?k + of_be bs"
    by (simp add: of_be_Cons A_def algebra_simps)
  also have "\<dots> = 62 * (A div 62 * ?k) + (A mod 62 * ?k + of_be bs)"
    by (metis (no_types, lifting) add.assoc add_mult_distrib mult.assoc mult_div_mod_eq)
  finally have n: "unat rem * 256 ^ length (b # bs) + of_be (b # bs)
    = 62 * (A div 62 * ?k) + (A mod 62 * ?k + of_be bs)" .
  show ?case
    unfolding n rem' bs' using ih q by (simp add: of_be_Cons)
qed

text \<open>The reference conversion: \<open>w\<close> base-62 digits of a number, most significant first.\<close>

fun digits62 :: "nat \<Rightarrow> nat \<Rightarrow> nat list" where
  "digits62 0 n = []"
| "digits62 (Suc w) n = digits62 w (n div 62) @ [n mod 62]"

definition value62 :: "nat list \<Rightarrow> nat" where
  "value62 ds = foldl (\<lambda>a d. a * 62 + d) 0 ds"

lemma encode_loop_digits:
  "encode_loop w bs out = map ((!) ALPHABET) (digits62 w (of_be bs)) @ out"
proof (induction w arbitrary: bs out)
  case 0
  show ?case by simp
next
  case (Suc w)
  obtain r bs' where p: "encode_pass 0 bs = (r, bs')" by fastforce
  have "of_be bs' = of_be bs div 62" "unat r = of_be bs mod 62"
    using encode_pass_correct [OF _ p] by simp_all
  with Suc p show ?case by simp
qed

lemma encode_fixed_digits:
  "encode_fixed bs = map ((!) ALPHABET) (digits62 (width_for (length bs)) (of_be bs))"
  by (simp add: encode_fixed_def encode_loop_digits)

lemma length_digits62 [simp]: "length (digits62 w n) = w"
  by (induction w arbitrary: n) auto

lemma digits62_less: "d \<in> set (digits62 w n) \<Longrightarrow> d < 62"
  by (induction w arbitrary: n) auto

lemma value62_snoc [simp]: "value62 (ds @ [d]) = value62 ds * 62 + d"
  by (simp add: value62_def)

lemma value62_Nil [simp]: "value62 [] = 0"
  by (simp add: value62_def)

lemma value62_digits62: "n < 62 ^ w \<Longrightarrow> value62 (digits62 w n) = n"
proof (induction w arbitrary: n)
  case 0
  then show ?case by simp
next
  case (Suc w)
  then have "n div 62 < 62 ^ w" by (simp add: div_less_iff_less_mult mult.commute)
  with Suc show ?case by simp
qed

lemma digits62_value62:
  assumes "\<forall>d \<in> set ds. d < 62"
  shows "digits62 (length ds) (value62 ds) = ds"
  using assms
proof (induction ds rule: rev_induct)
  case Nil
  show ?case by simp
next
  case (snoc d ds)
  then have "(value62 ds * 62 + d) div 62 = value62 ds" "(value62 ds * 62 + d) mod 62 = d"
    by auto
  with snoc show ?case by simp
qed


section \<open>Characters and digits\<close>

definition code62 :: "nat \<Rightarrow> nat" where
  "code62 k = (if k < 10 then k + 48 else if k < 36 then k + 55 else k + 61)"

lemma ALPHABET_code: "k < 62 \<Longrightarrow> of_char (ALPHABET ! k) = code62 k"
proof -
  assume k: "k < 62"
  have e: "map of_char ALPHABET = map code62 [0..<62]"
    by (simp add: ALPHABET_def code62_def upt_rec)
  have l: "length ALPHABET = 62" by (simp add: ALPHABET_def)
  have "of_char (ALPHABET ! k) = map of_char ALPHABET ! k"
    using k l by simp
  also have "\<dots> = map code62 [0..<62] ! k" by (simp only: e)
  also have "\<dots> = code62 (0 + k)"
    by (rule nth_map_upt) (use k in simp)
  finally show ?thesis by simp
qed

lemma digit_ALPHABET: "k < 62 \<Longrightarrow> digit (ALPHABET ! k) = Some (of_nat k)"
  by (auto simp: ALPHABET_code digit_def Let_def code62_def not_less)

lemma digit_cases:
  assumes "digit c = Some d"
  obtains k where "k < 62" and "d = of_nat k" and "of_char c = code62 k"
proof -
  define n :: nat where "n = of_char c"
  have "(48 \<le> n \<and> n \<le> 57 \<and> d = of_nat (n - 48))
    \<or> (65 \<le> n \<and> n \<le> 90 \<and> d = of_nat (n - 55)) \<or> (97 \<le> n \<and> n \<le> 122 \<and> d = of_nat (n - 61))"
    using assms by (auto simp: digit_def n_def [symmetric] Let_def split: if_splits)
  then have "\<exists>k < 62. d = of_nat k \<and> n = code62 k"
  proof (elim disjE conjE)
    assume "48 \<le> n" "n \<le> 57" "d = of_nat (n - 48)"
    then show ?thesis by (intro exI [of _ "n - 48"]) (auto simp: code62_def)
  next
    assume "65 \<le> n" "n \<le> 90" "d = of_nat (n - 55)"
    then show ?thesis by (intro exI [of _ "n - 55"]) (auto simp: code62_def)
  next
    assume "97 \<le> n" "n \<le> 122" "d = of_nat (n - 61)"
    then show ?thesis by (intro exI [of _ "n - 61"]) (auto simp: code62_def)
  qed
  then show thesis using that unfolding n_def by blast
qed

lemma digit_Some:
  assumes "digit c = Some d"
  shows "unat d < 62 \<and> ALPHABET ! unat d = c"
proof -
  from assms obtain k where k: "k < 62" "d = of_nat k" "of_char c = code62 k"
    by (rule digit_cases)
  then have "unat d = k" by (simp add: unat_of_nat)
  moreover have "(of_char (ALPHABET ! k) :: nat) = of_char c"
    using k by (simp add: ALPHABET_code)
  ultimately show ?thesis using k(1) by simp
qed

lemma decode_pass_correct:
  assumes "unat carry < 62" and "decode_pass bs carry = (bs', carry')"
  shows "length bs' = length bs \<and> unat carry' < 62
    \<and> unat carry' * 256 ^ length bs + of_be bs' = of_be bs * 62 + unat carry"
  using assms
proof (induction bs arbitrary: bs' carry')
  case Nil
  then show ?case by auto
next
  case (Cons b bs)
  obtain bs1 c1 where p: "decode_pass bs carry = (bs1, c1)" by fastforce
  define acc :: u32 where "acc = ucast b * 62 + c1"
  define A where "A = unat b * 62 + unat c1"
  have bs': "bs' = ucast (and acc 255) # bs1" and c': "carry' = drop_bit 8 acc"
    using Cons.prems(2) p by (simp_all add: acc_def Let_def)
  have ih: "length bs1 = length bs" "unat c1 < 62"
    "unat c1 * 256 ^ length bs + of_be bs1 = of_be bs * 62 + unat carry"
    using Cons.IH [OF Cons.prems(1) p] by simp_all
  have b: "unat (ucast b :: u32) = unat b"
    using unat_byte_less [of b] by (simp add: unsigned_ucast_eq take_bit_nat_eq_self)
  have A_lt: "A < 256 * 62" using unat_byte_less [of b] ih(2) by (simp add: A_def)
  have acc: "unat acc = A"
    using A_lt by (simp add: acc_def A_def unat_word_ariths b)
  have low: "unat (ucast (and acc 255) :: byte) = A mod 256"
  proof -
    have "and acc 255 = take_bit 8 acc"
      by (simp add: take_bit_eq_mask mask_eq_decr_exp)
    then have "unat (and acc 255) = A mod 256"
      by (simp add: take_bit_eq_mod unat_mod acc)
    then show ?thesis by (simp add: unsigned_ucast_eq take_bit_nat_eq_self)
  qed
  have high: "unat (drop_bit 8 acc) = A div 256"
    by (simp add: drop_bit_eq_div unat_div acc)
  have "A div 256 * 256 + A mod 256 = A" by simp
  then have e: "A div 256 * 256 ^ length (b # bs) + A mod 256 * 256 ^ length bs = A * 256 ^ length bs"
    by (metis add_mult_distrib mult.assoc power_Suc length_Cons)
  show ?case
    unfolding bs' c' high
    using ih A_lt e by (simp add: of_be_Cons low A_def algebra_simps)
qed

text \<open>The digits of a string, when every character is one.\<close>

definition digits_of :: "string \<Rightarrow> nat list option" where
  "digits_of s = (if \<forall>c \<in> set s. digit c \<noteq> None
     then Some (map (\<lambda>c. unat (the (digit c))) s) else None)"

abbreviation horner :: "nat \<Rightarrow> nat list \<Rightarrow> nat" where
  "horner v ds \<equiv> foldl (\<lambda>a d. a * 62 + d) v ds"

lemma horner_mono: "v \<le> horner v ds"
proof (induction ds arbitrary: v)
  case Nil
  show ?case by simp
next
  case (Cons d ds)
  have "v \<le> v * 62 + d" by simp
  also have "\<dots> \<le> horner (v * 62 + d) ds" by (rule Cons.IH)
  finally show ?case by simp
qed

lemma digit_small: "digit c = Some d \<Longrightarrow> unat d < 62"
  using digit_Some by blast

lemma decode_loop_sound:
  assumes "decode_loop p s num = Inr out"
  shows "\<exists>ds. digits_of s = Some ds \<and> length out = length num \<and> of_be out = horner (of_be num) ds"
  using assms
proof (induction s arbitrary: p num)
  case Nil
  then show ?case by (simp add: digits_of_def)
next
  case (Cons c s)
  then obtain d where d: "digit c = Some d" by (cases "digit c") auto
  obtain num' carry where p: "decode_pass num d = (num', carry)" by fastforce
  with Cons.prems d have c0: "carry = 0" and r: "decode_loop (Suc p) s num' = Inr out"
    by (auto split: if_splits)
  have n: "length num' = length num" "of_be num' = of_be num * 62 + unat d"
    using decode_pass_correct [OF digit_small [OF d] p] c0 by simp_all
  from Cons.IH [OF r] obtain ds where
    "digits_of s = Some ds" "length out = length num'" "of_be out = horner (of_be num') ds"
    by blast
  with n d show ?case by (auto simp: digits_of_def split: if_splits)
qed

lemma decode_loop_complete:
  assumes "digits_of s = Some ds" and "horner (of_be num) ds < 256 ^ length num"
  shows "decode_loop p s num = Inr (be_bytes (length num) (horner (of_be num) ds))"
  using assms
proof (induction s arbitrary: p num ds)
  case Nil
  then show ?case by (simp add: digits_of_def be_bytes_of_be)
next
  case (Cons c s)
  then obtain d where d: "digit c = Some d"
    by (cases "digit c") (auto simp: digits_of_def)
  with Cons.prems obtain ds' where ds: "ds = unat d # ds'" and s: "digits_of s = Some ds'"
    by (auto simp: digits_of_def split: if_splits)
  obtain num' carry where p: "decode_pass num d = (num', carry)" by fastforce
  have n: "length num' = length num"
    "unat carry * 256 ^ length num + of_be num' = of_be num * 62 + unat d"
    using decode_pass_correct [OF digit_small [OF d] p] by simp_all
  have "of_be num * 62 + unat d < 256 ^ length num"
    using horner_mono [of "of_be num * 62 + unat d" ds'] Cons.prems(2) ds by simp
  with n(2) have "unat carry = 0" by (cases "unat carry") auto
  then have c0: "carry = 0" by (simp add: unat_eq_zero)
  with n have v: "of_be num' = of_be num * 62 + unat d" by simp
  show ?case
    using Cons.IH [OF s, of num'] Cons.prems(2) d p c0 n(1) v ds by simp
qed

lemma digits_of_encoded:
  "\<forall>d \<in> set ds. d < 62 \<Longrightarrow> digits_of (map ((!) ALPHABET) ds) = Some ds"
  by (induction ds) (auto simp: digits_of_def digit_ALPHABET unat_of_nat)

lemma encode_digits_of: "digits_of s = Some ds \<Longrightarrow> map ((!) ALPHABET) ds = s \<and> (\<forall>d \<in> set ds. d < 62)"
proof (induction s arbitrary: ds)
  case Nil
  then show ?case by (simp add: digits_of_def)
next
  case (Cons c s)
  then show ?case
    using digit_Some [of c] by (fastforce simp: digits_of_def split: if_splits)
qed

text \<open>
  The width is enough for every length the formats use: a checksum is 4 bytes, a key 32, a
  token 64 (16 and 48 are the other lengths the source's tests name).
\<close>

lemma width_for_enough: "n \<in> {4, 16, 32, 48, 64} \<Longrightarrow> 256 ^ n \<le> (62 :: nat) ^ width_for n"
  by (auto simp: width_for_def)

lemma decode_encode_fixed:
  assumes "length bs \<in> {4, 16, 32, 48, 64}"
  shows "decode_fixed (encode_fixed bs) (length bs) = Inr bs"
proof -
  let ?w = "width_for (length bs)"
  let ?ds = "digits62 ?w (of_be bs)"
  have v: "value62 ?ds = of_be bs"
    using of_be_less [of bs] width_for_enough [OF assms] by (intro value62_digits62) simp
  have "digits_of (encode_fixed bs) = Some ?ds"
    by (simp add: encode_fixed_digits digits_of_encoded digits62_less)
  then have "decode_loop 0 (encode_fixed bs) (replicate (length bs) 0)
    = Inr (be_bytes (length bs) (of_be bs))"
    using decode_loop_complete [of "encode_fixed bs" ?ds "replicate (length bs) 0" 0] v
      of_be_less [of bs] by (simp add: value62_def)
  then show ?thesis
    by (simp add: decode_fixed_def encode_fixed_digits be_bytes_of_be)
qed

lemma encode_decode_fixed:
  assumes "decode_fixed s n = Inr bs"
  shows "encode_fixed bs = s \<and> length bs = n"
proof -
  from assms have l: "length s = width_for n"
    and d: "decode_loop 0 s (replicate n 0) = Inr bs"
    by (auto simp: decode_fixed_def Let_def split: if_splits)
  from decode_loop_sound [OF d] obtain ds where
    ds: "digits_of s = Some ds" "length bs = n" "of_be bs = value62 ds"
    by (auto simp: value62_def)
  from encode_digits_of [OF ds(1)] have e: "map ((!) ALPHABET) ds = s" "\<forall>d \<in> set ds. d < 62"
    by auto
  then have "length ds = width_for n" using l by (metis length_map)
  then have "digits62 (width_for n) (of_be bs) = ds"
    using digits62_value62 [OF e(2)] ds(3) by simp
  with e(1) ds(2) show ?thesis by (simp add: encode_fixed_digits)
qed


section \<open>Checked strings\<close>

definition is_ascii :: "string \<Rightarrow> bool" where
  "is_ascii s \<longleftrightarrow> list_all (\<lambda>a. of_char a < (128 :: nat)) s"

text \<open>\<open>chars().count()\<close>: the bytes that are not UTF-8 continuation bytes.\<close>

definition char_count :: "string \<Rightarrow> nat" where
  "char_count s = length (filter (\<lambda>a. \<not> (128 \<le> (of_char a :: nat) \<and> of_char a < (192 :: nat))) s)"

definition is_ascii_digit :: "char \<Rightarrow> bool" where
  "is_ascii_digit a \<longleftrightarrow> 48 \<le> (of_char a :: nat) \<and> of_char a \<le> (57 :: nat)"

definition other_version :: "string \<Rightarrow> string \<Rightarrow> FormatError option" where
  "other_version expected s =
     (let kind = take (length expected - 2) expected; dig = drop (length expected - 2) expected in
      case strip_prefix kind s of
        Some (found # u # rest) \<Rightarrow>
          if is_ascii_digit found \<and> u = CHR ''_'' \<and> [found] \<noteq> take 1 dig
          then Some (UnknownVersion found) else None
      | _ \<Rightarrow> None)"

definition checksum :: "crypto \<Rightarrow> string \<Rightarrow> string \<Rightarrow> string" where
  "checksum c prefix body = encode_fixed (be_bytes 4 (unat (crc32 c (prefix @ body))))"

definition encode_checked :: "crypto \<Rightarrow> string \<Rightarrow> bytes \<Rightarrow> string" where
  "encode_checked c prefix bs =
     (let body = encode_fixed bs in prefix @ body @ checksum c prefix body)"

fun bad_digit_at :: "nat \<Rightarrow> string \<Rightarrow> nat option" where
  "bad_digit_at i [] = None"
| "bad_digit_at i (a # s) = (if digit a = None then Some i else bad_digit_at (Suc i) s)"

definition decode_checked :: "crypto \<Rightarrow> string \<Rightarrow> string \<Rightarrow> nat \<Rightarrow> FormatError + bytes" where
  "decode_checked c prefix s n_bytes =
     (case strip_prefix prefix s of
        None \<Rightarrow> Inl (case other_version prefix s of None \<Rightarrow> WrongPrefix prefix | Some e \<Rightarrow> e)
      | Some rest \<Rightarrow>
          (let width = width_for n_bytes in
           if length rest \<noteq> width + CHECKSUM_WIDTH \<or> \<not> is_ascii rest
           then Inl (WrongLength (width + CHECKSUM_WIDTH) (char_count rest))
           else
             (let body = take width rest; sum = drop width rest in
              case bad_digit_at 0 sum of
                Some position \<Rightarrow> Inl (BadCharacter (width + position))
              | None \<Rightarrow>
                  if checksum c prefix body \<noteq> sum then Inl Checksum
                  else decode_fixed body n_bytes)))"

definition encode_node_key :: "crypto \<Rightarrow> bytes \<Rightarrow> string" where
  "encode_node_key c key = encode_checked c KEY_PREFIX key"

definition decode_node_key :: "crypto \<Rightarrow> string \<Rightarrow> FormatError + bytes" where
  "decode_node_key c s = decode_checked c KEY_PREFIX (trim s) KEY_LEN"

record TokenString =
  ts_id :: TokenId
  ts_vault_id :: VaultId
  ts_secret :: bytes

definition token_encode :: "crypto \<Rightarrow> TokenId \<Rightarrow> VaultId \<Rightarrow> bytes \<Rightarrow> string" where
  "token_encode c i v secret = encode_checked c TOKEN_PREFIX (tid i @ vid v @ secret)"

definition token_parse :: "crypto \<Rightarrow> string \<Rightarrow> FormatError + TokenString" where
  "token_parse c s =
     rbind (decode_checked c TOKEN_PREFIX (trim s) TOKEN_LEN) (\<lambda>raw.
       Inr \<lparr>ts_id = TokenId (take 16 raw), ts_vault_id = VaultId (take 16 (drop 16 raw)),
            ts_secret = drop 32 raw\<rparr>)"

lemma length_encode_fixed [simp]: "length (encode_fixed bs) = width_for (length bs)"
  by (simp add: encode_fixed_digits)

lemma width_for_values: "width_for 4 = 6" "width_for 32 = 43" "width_for 64 = 86"
  by (simp_all add: width_for_def)

lemma length_checksum [simp]: "length (checksum c p b) = 6"
  by (simp add: checksum_def width_for_values)

lemma code62_printing: "k < 62 \<Longrightarrow> 48 \<le> code62 k \<and> code62 k \<le> 122"
  by (auto simp: code62_def)

lemma encoded_char:
  assumes "a \<in> set (encode_fixed bs)"
  shows "digit a \<noteq> None" "ascii_printing a" "of_char a < (128 :: nat)"
proof -
  from assms obtain k where k: "k < 62" "a = ALPHABET ! k"
    by (auto simp: encode_fixed_digits dest: digits62_less)
  then have "of_char a = code62 k" by (simp add: ALPHABET_code)
  with code62_printing [OF k(1)] show "ascii_printing a" "of_char a < (128 :: nat)"
    by (simp_all add: ascii_printing_def)
  from k show "digit a \<noteq> None" by (simp add: digit_ALPHABET)
qed

lemma checksum_char: "a \<in> set (checksum c p b) \<Longrightarrow> digit a \<noteq> None"
  "a \<in> set (checksum c p b) \<Longrightarrow> ascii_printing a"
  "a \<in> set (checksum c p b) \<Longrightarrow> of_char a < (128 :: nat)"
  using encoded_char unfolding checksum_def by blast+

lemma bad_digit_at_None: "bad_digit_at i s = None \<longleftrightarrow> (\<forall>a \<in> set s. digit a \<noteq> None)"
  by (induction s arbitrary: i) auto

lemma decode_encode_checked:
  assumes "length bs \<in> {4, 16, 32, 48, 64}"
  shows "decode_checked c p (encode_checked c p bs) (length bs) = Inr bs"
proof -
  have "is_ascii (encode_fixed bs @ checksum c p (encode_fixed bs))"
    by (auto simp: is_ascii_def list_all_iff dest: encoded_char(3) checksum_char(3))
  moreover have "bad_digit_at 0 (checksum c p (encode_fixed bs)) = None"
    by (simp add: bad_digit_at_None checksum_char(1))
  ultimately show ?thesis
    using decode_encode_fixed [OF assms]
    by (simp add: decode_checked_def encode_checked_def CHECKSUM_WIDTH_def Let_def)
qed

lemma trim_encode_checked:
  assumes "p \<noteq> []" and "ascii_printing (hd p)"
  shows "trim (encode_checked c p bs) = encode_checked c p bs"
proof (rule trim_id)
  let ?sum = "checksum c p (encode_fixed bs)"
  have ne: "?sum \<noteq> []" using length_checksum [of c p "encode_fixed bs"] by force
  then have "last (encode_checked c p bs) = last ?sum"
    by (simp add: encode_checked_def Let_def)
  then show "ascii_printing (last (encode_checked c p bs))"
    using checksum_char(2) last_in_set [OF ne] by metis
qed (use assms in \<open>simp_all add: encode_checked_def Let_def\<close>)

lemma encode_decode_checked:
  assumes "decode_checked c p s n = Inr bs"
  shows "encode_checked c p bs = s \<and> length bs = n"
proof -
  from assms obtain rest where s: "s = p @ rest"
    and cs: "checksum c p (take (width_for n) rest) = drop (width_for n) rest"
    and d: "decode_fixed (take (width_for n) rest) n = Inr bs"
    by (auto simp: decode_checked_def Let_def strip_prefix_Some
        split: option.splits if_splits)
  from encode_decode_fixed [OF d] have "encode_fixed bs = take (width_for n) rest" "length bs = n"
    by auto
  with s cs show ?thesis by (simp add: encode_checked_def Let_def)
qed

text \<open>A token string parses back to the id, the vault id and the secret it was built
  from.\<close>

theorem token_roundtrip:
  assumes "wf_token_id i" and "wf_vault_id v" and "length secret = 32"
  shows "token_parse c (token_encode c i v secret)
    = Inr \<lparr>ts_id = i, ts_vault_id = v, ts_secret = secret\<rparr>"
proof -
  let ?raw = "tid i @ vid v @ secret"
  have l: "length ?raw = 64" using assms by (simp add: wf_id_defs)
  have "trim (encode_checked c TOKEN_PREFIX ?raw) = encode_checked c TOKEN_PREFIX ?raw"
    by (rule trim_encode_checked) (simp_all add: TOKEN_PREFIX_def ascii_printing_def)
  moreover have "decode_checked c TOKEN_PREFIX (encode_checked c TOKEN_PREFIX ?raw) 64 = Inr ?raw"
    using decode_encode_checked [of ?raw c TOKEN_PREFIX] l by simp
  ultimately show ?thesis
    using assms
    by (simp add: token_parse_def token_encode_def TOKEN_LEN_def TOKEN_SECRET_LEN_def wf_id_defs)
qed

text \<open>
  CRC-32 detects every burst error of up to 32 bits, so inputs of equal length that differ in
  one character have different checksums.
\<close>

definition crc_detects_single :: "crypto \<Rightarrow> bool" where
  "crc_detects_single c \<longleftrightarrow>
     (\<forall>s i a. i < length s \<longrightarrow> a \<noteq> s ! i \<longrightarrow> crc32 c (s[i := a]) \<noteq> crc32 c s)"

lemma checksum_inject: "checksum c p b = checksum c p b' \<longleftrightarrow> crc32 c (p @ b) = crc32 c (p @ b')"
proof
  assume "checksum c p b = checksum c p b'"
  then have "decode_fixed (checksum c p b) 4 = decode_fixed (checksum c p b') 4" by simp
  then have "be_bytes 4 (unat (crc32 c (p @ b))) = be_bytes 4 (unat (crc32 c (p @ b')))"
    using decode_encode_fixed [of "be_bytes 4 (unat (crc32 c (p @ b)))"]
      decode_encode_fixed [of "be_bytes 4 (unat (crc32 c (p @ b')))"]
    by (simp add: checksum_def)
  moreover have "unat (x :: u32) < 256 ^ 4" for x
  proof -
    have "unat x < 2 ^ LENGTH(32)" by (rule unsigned_less)
    then show ?thesis by simp
  qed
  ultimately show "crc32 c (p @ b) = crc32 c (p @ b')"
    by (simp add: be_bytes_inject word_unat_eq_iff)
qed (simp add: checksum_def)

text \<open>One changed character anywhere after the prefix is always refused: no single-character
  typo turns a valid key or token into another valid one.\<close>

theorem typo_detected:
  assumes crc: "crc_detects_single c" and ok: "decode_checked c p s n = Inr bs"
    and i: "length p \<le> i" "i < length s" and a: "a \<noteq> s ! i"
  shows "\<not> is_ok (decode_checked c p (s[i := a]) n)"
proof
  assume "is_ok (decode_checked c p (s[i := a]) n)"
  then obtain bs' where ok': "decode_checked c p (s[i := a]) n = Inr bs'" by (auto simp: is_ok_iff)
  let ?b = "encode_fixed bs" and ?b' = "encode_fixed bs'"
  from encode_decode_checked [OF ok] encode_decode_checked [OF ok']
  have s: "s = p @ ?b @ checksum c p ?b" and s': "s[i := a] = p @ ?b' @ checksum c p ?b'"
    and l: "length ?b = length ?b'"
    by (auto simp: encode_checked_def Let_def)
  define j where "j = i - length p"
  have upd: "(?b @ checksum c p ?b)[j := a] = ?b' @ checksum c p ?b'"
    using s s' i(1) by (metis j_def list_update_append not_le same_append_eq)
  show False
  proof (cases "j < length ?b")
    case True
    then have "?b[j := a] = ?b'" "checksum c p ?b = checksum c p ?b'"
      using upd l by (simp_all add: list_update_append)
    moreover have "crc32 c ((p @ ?b)[i := a]) \<noteq> crc32 c (p @ ?b)"
    proof -
      have "i < length (p @ ?b)" "a \<noteq> (p @ ?b) ! i"
        using True i a s by (auto simp: j_def nth_append)
      with crc show ?thesis unfolding crc_detects_single_def by blast
    qed
    moreover have "(p @ ?b)[i := a] = p @ ?b[j := a]"
      using i(1) by (simp add: list_update_append j_def)
    ultimately show False by (simp add: checksum_inject)
  next
    case False
    then have "?b @ (checksum c p ?b)[j - length ?b := a] = ?b' @ checksum c p ?b'"
      using upd by (simp only: list_update_append if_False)
    then have "?b = ?b'" "(checksum c p ?b)[j - length ?b := a] = checksum c p ?b'"
      using l append_eq_append_conv by blast+
    then have "(checksum c p ?b)[j - length ?b := a] = checksum c p ?b" by metis
    moreover have "j - length ?b < length (checksum c p ?b)" "a \<noteq> checksum c p ?b ! (j - length ?b)"
    proof -
      have j: "j < length (?b @ checksum c p ?b)"
        using i s by (metis add_diff_inverse_nat j_def length_append nat_add_left_cancel_less not_less)
      then show "j - length ?b < length (checksum c p ?b)" using False by auto
      have "s ! i = (?b @ checksum c p ?b) ! j"
        using s i(1) by (metis j_def not_less nth_append)
      then show "a \<noteq> checksum c p ?b ! (j - length ?b)"
        using a False by (simp add: nth_append)
    qed
    ultimately show False by (metis nth_list_update_eq)
  qed
qed

lemma sum_crc_detects: "crc_detects_single null_crypto"
proof -
  have "sum_crc (s[i := a]) \<noteq> sum_crc s" if "i < length s" "a \<noteq> s ! i" for s i a
  proof
    assume eq: "sum_crc (s[i := a]) = sum_crc s"
    have split: "sum_crc (s[i := x]) = sum_crc (take i s) + of_char x + sum_crc (drop (Suc i) s)" for x
      using that(1) by (simp add: sum_crc_def upd_conv_take_nth_drop ac_simps)
    from eq split [of a] split [of "s ! i"] have "(of_char a :: u32) = of_char (s ! i)" by simp
    then have "unat (of_char a :: u32) = unat (of_char (s ! i) :: u32)" by simp
    moreover have "unat (of_char x :: u32) = of_char x" for x :: char
    proof -
      have "of_char x < (2 ^ 32 :: nat)"
        by (rule less_trans [OF nat_of_char_less_256]) simp
      then have "unat (of_nat (of_char x) :: u32) = of_char x"
        by (simp add: unat_of_nat)
      then show ?thesis by (simp add: of_nat_of_char)
    qed
    ultimately show False using that(2) by simp
  qed
  then show ?thesis by (simp add: crc_detects_single_def null_crypto_def)
qed

theorem token_roundtrip_witness:
  "token_parse null_crypto (token_encode null_crypto (TokenId (replicate 16 7))
     (VaultId (replicate 16 9)) (replicate 32 3))
   = Inr \<lparr>ts_id = TokenId (replicate 16 7), ts_vault_id = VaultId (replicate 16 9),
          ts_secret = replicate 32 3\<rparr>"
  by (rule token_roundtrip) (simp_all add: wf_id_defs)

theorem typo_detected_witness:
  "\<not> is_ok (decode_checked null_crypto KEY_PREFIX
     ((encode_checked null_crypto KEY_PREFIX (replicate 32 7))[5 :=
        (if encode_checked null_crypto KEY_PREFIX (replicate 32 7) ! 5 = CHR ''A''
         then CHR ''B'' else CHR ''A'')]) 32)"
proof (rule typo_detected)
  show "crc_detects_single null_crypto" by (rule sum_crc_detects)
  show "decode_checked null_crypto KEY_PREFIX (encode_checked null_crypto KEY_PREFIX (replicate 32 7)) 32
      = Inr (replicate 32 7)"
    using decode_encode_checked [of "replicate 32 7" null_crypto KEY_PREFIX] by simp
qed (simp_all add: KEY_PREFIX_def encode_checked_def Let_def)

end
