(* ===== verification/Vocab.thy ===== *)
theory Vocab
  imports Ids
begin

text \<open>
  The closed vocabularies of the protocol: scopes, error codes, retry classes and record
  kinds (\<open>proto/api.rs\<close>, \<open>proto/record.rs\<close>). The locale \<open>vocabulary\<close> is the contract they
  share: a list of every value, a wire name for each, and \<open>parse\<close> as the search through the
  list. The round trips are proved once there.
\<close>

section \<open>The contract of a vocabulary\<close>

locale vocabulary =
  fixes all :: "'a list" and as_str :: "'a \<Rightarrow> string" and parse :: "string \<Rightarrow> 'a option"
  assumes all_listed: "x \<in> set all"
    and names_distinct: "distinct (map as_str all)"
    and parse_search: "parse s = find (\<lambda>x. as_str x = s) all"
begin

lemma parse_as_str: "parse (as_str x) = Some x"
  unfolding parse_search using names_distinct all_listed by (rule find_map_fst_distinct)

lemma parse_Some_iff: "parse s = Some x \<longleftrightarrow> s = as_str x"
proof
  assume "parse s = Some x"
  then show "s = as_str x" unfolding parse_search by (auto dest: find_Some_set)
qed (simp add: parse_as_str)

lemma as_str_inject: "as_str x = as_str y \<longleftrightarrow> x = y"
  by (metis parse_as_str option.inject)

lemma parse_None_iff: "parse s = None \<longleftrightarrow> s \<notin> range as_str"
  by (cases "parse s") (auto simp: parse_as_str parse_Some_iff)

end

text \<open>The vocabularies that also have a byte code.\<close>

locale coded =
  fixes code :: "'a \<Rightarrow> byte" and from_code :: "byte \<Rightarrow> 'a option"
  assumes from_code_code: "from_code (code x) = Some x"
    and code_from_code: "from_code b = Some x \<Longrightarrow> code x = b"
begin

lemma code_inject: "code x = code y \<longleftrightarrow> x = y"
  by (metis from_code_code option.inject)

lemma from_code_Some_iff: "from_code b = Some x \<longleftrightarrow> b = code x"
  using code_from_code from_code_code by blast

end

section \<open>Values a newer peer may send\<close>

text \<open>\<open>proto/tolerant.rs\<close>: a response value this build knows, or the name of one it does not.
  \<open>tolerant_read\<close> is the decision of its \<open>Deserialize\<close>, given what parsing as the known type
  and reading the wire name gave.\<close>

datatype 'a Tolerant = Known 'a | Unknown string

definition tolerant_known :: "'a Tolerant \<Rightarrow> 'a option" where
  "tolerant_known t = (case t of Known a \<Rightarrow> Some a | Unknown _ \<Rightarrow> None)"

definition is_known :: "'a Tolerant \<Rightarrow> bool" where
  "is_known t = (case t of Known _ \<Rightarrow> True | Unknown _ \<Rightarrow> False)"

definition tolerant_unknown :: "'a Tolerant \<Rightarrow> string option" where
  "tolerant_unknown t = (case t of Known _ \<Rightarrow> None | Unknown name \<Rightarrow> Some name)"

definition tolerant_eq :: "'a Tolerant \<Rightarrow> 'a \<Rightarrow> bool" where
  "tolerant_eq t x = (case t of Known a \<Rightarrow> a = x | Unknown _ \<Rightarrow> False)"

definition tolerant_read :: "(string \<Rightarrow> bool) \<Rightarrow> 'e + 'a \<Rightarrow> string option \<Rightarrow> 'e + 'a Tolerant" where
  "tolerant_read knows parsed name = (case (parsed, name) of
     (Inr t, _) \<Rightarrow> Inr (Known t)
   | (Inl e, Some n) \<Rightarrow> if \<not> knows n then Inr (Unknown n) else Inl e
   | (Inl e, None) \<Rightarrow> Inl e)"

section \<open>Scopes\<close>

datatype Scope = Meta | Append | Read | Admin | Config | ConfigWrite

definition Scope_ALL :: "Scope list" where
  "Scope_ALL = [Scope.Meta, Scope.Append, Scope.Read, Scope.Admin, Scope.Config, Scope.ConfigWrite]"

definition can_read_values :: "Scope \<Rightarrow> bool" where
  "can_read_values s \<longleftrightarrow> s \<in> {Scope.Read, Scope.Admin}"

definition can_write_values :: "Scope \<Rightarrow> bool" where
  "can_write_values s \<longleftrightarrow> s \<in> {Scope.Append, Scope.Admin}"

definition can_read_configs :: "Scope \<Rightarrow> bool" where
  "can_read_configs s \<longleftrightarrow> s \<in> {Scope.Read, Scope.Admin, Scope.Config, Scope.ConfigWrite}"

definition can_write_configs :: "Scope \<Rightarrow> bool" where
  "can_write_configs s \<longleftrightarrow> s \<in> {Scope.Append, Scope.Admin, Scope.ConfigWrite}"

definition can_manage :: "Scope \<Rightarrow> bool" where
  "can_manage s \<longleftrightarrow> s = Scope.Admin"

definition can_read_audit :: "Scope \<Rightarrow> bool" where
  "can_read_audit s \<longleftrightarrow> True"

definition bundle_holds_vault_key :: "Scope \<Rightarrow> bool" where
  "bundle_holds_vault_key s \<longleftrightarrow> s \<in> {Scope.Read, Scope.Admin}"

definition bundle_holds_config_key :: "Scope \<Rightarrow> bool" where
  "bundle_holds_config_key s \<longleftrightarrow> s \<in> {Scope.Read, Scope.Admin, Scope.Config, Scope.ConfigWrite}"

definition bundle_holds_secret_writer :: "Scope \<Rightarrow> bool" where
  "bundle_holds_secret_writer s \<longleftrightarrow> s \<in> {Scope.Append, Scope.Admin}"

definition bundle_holds_config_writer :: "Scope \<Rightarrow> bool" where
  "bundle_holds_config_writer s \<longleftrightarrow> s \<in> {Scope.Append, Scope.Admin, Scope.ConfigWrite}"

lemmas scope_defs = can_read_values_def can_write_values_def can_read_configs_def
  can_write_configs_def can_manage_def can_read_audit_def bundle_holds_vault_key_def
  bundle_holds_config_key_def bundle_holds_secret_writer_def bundle_holds_config_writer_def

fun scope_code :: "Scope \<Rightarrow> byte" where
  "scope_code Scope.Meta = 1"
| "scope_code Scope.Append = 2"
| "scope_code Scope.Read = 3"
| "scope_code Scope.Admin = 4"
| "scope_code Scope.Config = 5"
| "scope_code Scope.ConfigWrite = 6"

definition DAY :: nat where "DAY = 86400"

fun default_ttl_secs :: "Scope \<Rightarrow> nat" where
  "default_ttl_secs s = (if s = Scope.Admin then DAY else 90 * DAY)"

fun max_ttl_secs :: "Scope \<Rightarrow> nat" where
  "max_ttl_secs s = (if s = Scope.Admin then 30 * DAY else 365 * DAY)"

fun scope_as_str :: "Scope \<Rightarrow> string" where
  "scope_as_str Scope.Meta = ''meta''"
| "scope_as_str Scope.Append = ''append''"
| "scope_as_str Scope.Read = ''read''"
| "scope_as_str Scope.Admin = ''admin''"
| "scope_as_str Scope.Config = ''config''"
| "scope_as_str Scope.ConfigWrite = ''config-write''"

definition scope_parse :: "string \<Rightarrow> Scope option" where
  "scope_parse s = find (\<lambda>x. scope_as_str x = s) Scope_ALL"

interpretation scopes: vocabulary Scope_ALL scope_as_str scope_parse
proof unfold_locales
  show "x \<in> set Scope_ALL" for x by (cases x) (simp_all add: Scope_ALL_def)
qed (simp_all add: Scope_ALL_def scope_parse_def)

definition OWNER_SCOPE_CODE :: byte where "OWNER_SCOPE_CODE = 0"
definition OWNER_TOKEN_ID :: TokenId where "OWNER_TOKEN_ID = TokenId (replicate 16 0)"

lemma scope_code_inject [simp]: "scope_code a = scope_code b \<longleftrightarrow> a = b"
  by (cases a; cases b) simp_all

lemma scope_code_not_owner [simp]: "scope_code s \<noteq> OWNER_SCOPE_CODE"
  by (cases s) (simp_all add: OWNER_SCOPE_CODE_def)

section \<open>Record kinds\<close>

datatype RecordKind = Secret | Config

fun kind_code :: "RecordKind \<Rightarrow> byte" where
  "kind_code RecordKind.Secret = 1"
| "kind_code RecordKind.Config = 2"

definition kind_from_code :: "byte \<Rightarrow> RecordKind option" where
  "kind_from_code b =
     (if b = 1 then Some RecordKind.Secret else if b = 2 then Some RecordKind.Config else None)"

fun kind_as_str :: "RecordKind \<Rightarrow> string" where
  "kind_as_str RecordKind.Secret = ''secret''"
| "kind_as_str RecordKind.Config = ''config''"

interpretation kinds: coded kind_code kind_from_code
proof unfold_locales
  show "kind_from_code (kind_code x) = Some x" for x
    by (cases x) (simp_all add: kind_from_code_def)
  show "kind_from_code b = Some x \<Longrightarrow> kind_code x = b" for b x
    by (auto simp: kind_from_code_def split: if_splits)
qed

section \<open>Error codes\<close>

datatype ErrorCode =
    Unauthorized | TokenExpired | Forbidden | NotFound | Conflict | StaleGeneration
  | ChallengeReused | PreconditionFailed | ValueTooLarge | InvalidRequest | CredentialInQuery
  | ChallengeExpired | InvalidProofOfWork | VaultIdMismatch | NotAgeCiphertext
  | IncompleteRotation | TtlTooLong | VaultQuotaExceeded | NameQuotaExceeded
  | TokenQuotaExceeded | ConfigTooLarge | ConfigQuotaExceeded | PreconditionRequired
  | RateLimited | Unavailable | Internal | BadSignature | VersionMismatch | KeyMismatch
  | VersionRollback | GenerationRollback

datatype Retry = Yes | Refresh | No

fun retry_as_str :: "Retry \<Rightarrow> string" where
  "retry_as_str Retry.Yes = ''yes''"
| "retry_as_str Retry.Refresh = ''refresh''"
| "retry_as_str Retry.No = ''no''"

definition ErrorCode_ALL :: "ErrorCode list" where
  "ErrorCode_ALL =
     [Unauthorized, TokenExpired, Forbidden, NotFound, Conflict, StaleGeneration,
      ChallengeReused, PreconditionFailed, ValueTooLarge, InvalidRequest, CredentialInQuery,
      ChallengeExpired, InvalidProofOfWork, VaultIdMismatch, NotAgeCiphertext,
      IncompleteRotation, TtlTooLong, VaultQuotaExceeded, NameQuotaExceeded,
      TokenQuotaExceeded, ConfigTooLarge, ConfigQuotaExceeded, PreconditionRequired,
      RateLimited, Unavailable, Internal, BadSignature, VersionMismatch, KeyMismatch,
      VersionRollback, GenerationRollback]"

definition error_status :: "ErrorCode \<Rightarrow> nat" where
  "error_status e = (case e of
     InvalidRequest \<Rightarrow> 400 | CredentialInQuery \<Rightarrow> 400 | ChallengeExpired \<Rightarrow> 400
   | InvalidProofOfWork \<Rightarrow> 400
   | Unauthorized \<Rightarrow> 401 | TokenExpired \<Rightarrow> 401
   | Forbidden \<Rightarrow> 403
   | NotFound \<Rightarrow> 404
   | Conflict \<Rightarrow> 409 | StaleGeneration \<Rightarrow> 409 | ChallengeReused \<Rightarrow> 409 | VersionMismatch \<Rightarrow> 409
   | VersionRollback \<Rightarrow> 409 | GenerationRollback \<Rightarrow> 409
   | PreconditionFailed \<Rightarrow> 412
   | ValueTooLarge \<Rightarrow> 413 | ConfigTooLarge \<Rightarrow> 413
   | VaultIdMismatch \<Rightarrow> 422 | NotAgeCiphertext \<Rightarrow> 422 | IncompleteRotation \<Rightarrow> 422
   | TtlTooLong \<Rightarrow> 422 | VaultQuotaExceeded \<Rightarrow> 422 | NameQuotaExceeded \<Rightarrow> 422
   | TokenQuotaExceeded \<Rightarrow> 422 | ConfigQuotaExceeded \<Rightarrow> 422 | BadSignature \<Rightarrow> 422
   | KeyMismatch \<Rightarrow> 422
   | PreconditionRequired \<Rightarrow> 428
   | RateLimited \<Rightarrow> 429
   | Internal \<Rightarrow> 500
   | Unavailable \<Rightarrow> 503)"

definition error_retry :: "ErrorCode \<Rightarrow> Retry" where
  "error_retry e =
     (if e \<in> {RateLimited, Unavailable, Internal} then Retry.Yes
      else if e \<in> {Conflict, StaleGeneration, ChallengeReused, ChallengeExpired,
                   PreconditionFailed, VersionMismatch} then Retry.Refresh
      else Retry.No)"

definition error_as_str :: "ErrorCode \<Rightarrow> string" where
  "error_as_str e = (case e of
     Unauthorized \<Rightarrow> ''unauthorized''
   | TokenExpired \<Rightarrow> ''token_expired''
   | Forbidden \<Rightarrow> ''forbidden''
   | NotFound \<Rightarrow> ''not_found''
   | Conflict \<Rightarrow> ''conflict''
   | StaleGeneration \<Rightarrow> ''stale_generation''
   | ChallengeReused \<Rightarrow> ''challenge_reused''
   | PreconditionFailed \<Rightarrow> ''precondition_failed''
   | ValueTooLarge \<Rightarrow> ''value_too_large''
   | InvalidRequest \<Rightarrow> ''invalid_request''
   | CredentialInQuery \<Rightarrow> ''credential_in_query''
   | ChallengeExpired \<Rightarrow> ''challenge_expired''
   | InvalidProofOfWork \<Rightarrow> ''invalid_proof_of_work''
   | VaultIdMismatch \<Rightarrow> ''vault_id_mismatch''
   | NotAgeCiphertext \<Rightarrow> ''not_age_ciphertext''
   | IncompleteRotation \<Rightarrow> ''incomplete_rotation''
   | TtlTooLong \<Rightarrow> ''ttl_too_long''
   | VaultQuotaExceeded \<Rightarrow> ''vault_quota_exceeded''
   | NameQuotaExceeded \<Rightarrow> ''name_quota_exceeded''
   | TokenQuotaExceeded \<Rightarrow> ''token_quota_exceeded''
   | ConfigTooLarge \<Rightarrow> ''config_too_large''
   | ConfigQuotaExceeded \<Rightarrow> ''config_quota_exceeded''
   | PreconditionRequired \<Rightarrow> ''precondition_required''
   | RateLimited \<Rightarrow> ''rate_limited''
   | Unavailable \<Rightarrow> ''unavailable''
   | Internal \<Rightarrow> ''internal''
   | BadSignature \<Rightarrow> ''bad_signature''
   | VersionMismatch \<Rightarrow> ''version_mismatch''
   | KeyMismatch \<Rightarrow> ''key_mismatch''
   | VersionRollback \<Rightarrow> ''version_rollback''
   | GenerationRollback \<Rightarrow> ''generation_rollback'')"

definition error_parse :: "string \<Rightarrow> ErrorCode option" where
  "error_parse s = find (\<lambda>e. error_as_str e = s) ErrorCode_ALL"

interpretation errors: vocabulary ErrorCode_ALL error_as_str error_parse
proof unfold_locales
  show "x \<in> set ErrorCode_ALL" for x by (cases x) (simp_all add: ErrorCode_ALL_def)
  show "distinct (map error_as_str ErrorCode_ALL)"
    by (simp add: ErrorCode_ALL_def error_as_str_def)
qed (simp add: error_parse_def)

end
