(* ===== verification/Signed.thy ===== *)
theory Signed
  imports Vocab
begin

text \<open>
  The signed objects: the generation descriptor (\<open>proto/descriptor.rs\<close>), the record context
  (\<open>proto/record.rs\<close>), bundles and leak reports (\<open>proto/api.rs\<close>), the children blob
  (\<open>proto/children.rs\<close>) and the check they share (\<open>proto/integrity.rs\<close>). The locale
  \<open>signed_format\<close> states what makes a signing input unambiguous; every object interprets it.
\<close>

section \<open>Integrity errors and the signature check\<close>

datatype IntegrityError =
    BadSignature string
  | KeyMismatch string
  | BindingMismatch string
  | VersionRollback nat nat
  | GenerationRollback u32 u32
  | Malformed string

definition verify_ed25519 :: "crypto \<Rightarrow> Key32 \<Rightarrow> bytes \<Rightarrow> Sig64 \<Rightarrow> string \<Rightarrow> IntegrityError + unit" where
  "verify_ed25519 c public message sig what =
     (if ed25519_verify c (k32 public) message (s64 sig) then Inr ()
      else Inl (IntegrityError.BadSignature what))"

lemma verify_ed25519_ok [simp]:
  "verify_ed25519 c k m s w = Inr u \<longleftrightarrow> ed25519_verify c (k32 k) m (s64 s)"
  by (simp add: verify_ed25519_def)

section \<open>Unambiguous signing inputs\<close>

definition u32_be :: "u32 \<Rightarrow> bytes" where
  "u32_be g = be_bytes 4 (unat g)"

definition u64_be :: "nat \<Rightarrow> bytes" where
  "u64_be n = be_bytes 8 n"

lemma u32_less: "unat (g :: u32) < 256 ^ 4"
proof -
  have "unat g < 2 ^ LENGTH(32)" by (rule unsigned_less)
  then show ?thesis by simp
qed

lemma length_u32_be [simp]: "length (u32_be g) = 4"
  by (simp add: u32_be_def)

lemma length_u64_be [simp]: "length (u64_be n) = 8"
  by (simp add: u64_be_def)

lemma u32_be_inject [simp]: "u32_be a = u32_be b \<longleftrightarrow> a = b"
  unfolding u32_be_def be_bytes_inject [OF u32_less u32_less] by (simp add: word_unat_eq_iff)

lemma u64_be_inject: "m < 2 ^ 64 \<Longrightarrow> n < 2 ^ 64 \<Longrightarrow> u64_be m = u64_be n \<longleftrightarrow> m = n"
  by (simp add: u64_be_def be_bytes_inject)

lemma i64_be_inject: "i64_range x \<Longrightarrow> i64_range y \<Longrightarrow> i64_be x = i64_be y \<longleftrightarrow> x = y"
  by (metis i64_of_be_i64_be)

text \<open>
  \<open>input x\<close> is the frame of fixed-width parts, and the parts determine \<open>key x\<close>, what the
  signature is meant to bind.
\<close>

locale signed_format =
  fixes label :: string and parts :: "'a \<Rightarrow> bytes list" and wf :: "'a \<Rightarrow> bool"
    and input :: "'a \<Rightarrow> bytes" and key :: "'a \<Rightarrow> 'k"
  assumes label_listed: "label \<in> set LABELS"
    and input_frame: "input x = frame label (parts x)"
    and parts_widths: "wf x \<Longrightarrow> wf y \<Longrightarrow> list_all2 (\<lambda>a b. length a = length b) (parts x) (parts y)"
    and parts_key: "wf x \<Longrightarrow> wf y \<Longrightarrow> parts x = parts y \<Longrightarrow> key x = key y"
begin

lemma input_binds:
  assumes "wf x" and "wf y" and "input x = input y"
  shows "key x = key y"
proof -
  have "concat (parts x) = concat (parts y)"
    using assms(3) label_listed
    by (simp add: input_frame frame_eq_iff labels_nul_free)
  then have "parts x = parts y"
    using concat_fields_inject [OF parts_widths [OF assms(1,2)]] by simp
  then show ?thesis by (rule parts_key [OF assms(1,2)])
qed

text \<open>Domain separation: a frame under another label is never an input of this format.\<close>

lemma input_separated:
  assumes "l \<in> set LABELS" and "l \<noteq> label"
  shows "input x \<noteq> frame l ps"
  using assms label_listed by (simp add: input_frame frame_eq_iff labels_nul_free)

end

section \<open>Generation descriptors\<close>

definition DESCRIPTOR_VERSION :: byte where "DESCRIPTOR_VERSION = 1"
definition DESCRIPTOR_LEN :: nat where "DESCRIPTOR_LEN = 1 + 16 + 4 + 32 * 4 + 32 + 8"
definition MALFORMED_VERSION :: string where "MALFORMED_VERSION = ''descriptor version''"
definition MALFORMED_LENGTH :: string where "MALFORMED_LENGTH = ''descriptor length''"

record Descriptor =
  d_vault_id :: VaultId
  d_generation :: u32
  vault_pub :: Key32
  config_pub :: Key32
  secret_writer_pub :: Key32
  config_writer_pub :: Key32
  prev_hash :: Hash32
  d_created_at :: int

definition wf_descriptor :: "Descriptor \<Rightarrow> bool" where
  "wf_descriptor d \<longleftrightarrow> wf_vault_id (d_vault_id d) \<and> wf_key32 (vault_pub d) \<and> wf_key32 (config_pub d)
     \<and> wf_key32 (secret_writer_pub d) \<and> wf_key32 (config_writer_pub d) \<and> wf_hash32 (prev_hash d)
     \<and> i64_range (d_created_at d)"

text \<open>\<open>take::<N>\<close>: the next \<open>N\<close> bytes, and the rest.\<close>

definition take_n :: "nat \<Rightarrow> bytes \<Rightarrow> IntegrityError + (bytes \<times> bytes)" where
  "take_n n rest = (if n \<le> length rest then Inr (take n rest, drop n rest)
     else Inl (IntegrityError.Malformed MALFORMED_LENGTH))"

definition descriptor_encode :: "Descriptor \<Rightarrow> bytes" where
  "descriptor_encode d = [DESCRIPTOR_VERSION] @ vid (d_vault_id d) @ u32_be (d_generation d)
     @ concat (map k32 [vault_pub d, config_pub d, secret_writer_pub d, config_writer_pub d])
     @ h32 (prev_hash d) @ i64_be (d_created_at d)"

definition descriptor_decode :: "bytes \<Rightarrow> IntegrityError + Descriptor" where
  "descriptor_decode bs =
     (case bs of
        [] \<Rightarrow> Inl (IntegrityError.Malformed MALFORMED_LENGTH)
      | b # rest \<Rightarrow>
          if b \<noteq> DESCRIPTOR_VERSION then Inl (IntegrityError.Malformed MALFORMED_VERSION)
          else if length bs \<noteq> DESCRIPTOR_LEN then Inl (IntegrityError.Malformed MALFORMED_LENGTH)
          else
            rbind (take_n 16 rest) (\<lambda>(v, r). rbind (take_n 4 r) (\<lambda>(g, r).
            rbind (take_n 32 r) (\<lambda>(vp, r). rbind (take_n 32 r) (\<lambda>(cp, r).
            rbind (take_n 32 r) (\<lambda>(sw, r). rbind (take_n 32 r) (\<lambda>(cw, r).
            rbind (take_n 32 r) (\<lambda>(ph, r). rbind (take_n 8 r) (\<lambda>(at, r).
              Inr \<lparr>d_vault_id = VaultId v, d_generation = of_nat (of_be g), vault_pub = Key32 vp,
                   config_pub = Key32 cp, secret_writer_pub = Key32 sw,
                   config_writer_pub = Key32 cw, prev_hash = Hash32 ph,
                   d_created_at = i64_of_be at\<rparr>)))))))))"

definition descriptor_hash :: "crypto \<Rightarrow> Descriptor \<Rightarrow> Hash32" where
  "descriptor_hash c d = hash_sha256 c (descriptor_encode d)"

definition descriptor_signing_input :: "Descriptor \<Rightarrow> bytes" where
  "descriptor_signing_input d = frame LABEL_DESCRIPTOR [descriptor_encode d]"

definition checked_add_u32 :: "u32 \<Rightarrow> u32 option" where
  "checked_add_u32 g = (if unat g + 1 < 2 ^ 32 then Some (g + 1) else None)"

definition check_follows :: "crypto \<Rightarrow> Descriptor \<Rightarrow> Descriptor \<Rightarrow> IntegrityError + unit" where
  "check_follows c d prev =
     (if d_vault_id d \<noteq> d_vault_id prev
      then Inl (IntegrityError.BindingMismatch ''descriptor's vault id'')
      else if Some (d_generation d) \<noteq> checked_add_u32 (d_generation prev)
      then Inl (IntegrityError.BindingMismatch ''descriptor's generation'')
      else if prev_hash d \<noteq> descriptor_hash c prev
      then Inl (IntegrityError.BindingMismatch ''previous descriptor hash'')
      else Inr ())"

definition follows :: "crypto \<Rightarrow> Descriptor \<Rightarrow> Descriptor \<Rightarrow> bool" where
  "follows c d prev \<longleftrightarrow> is_ok (check_follows c d prev)"

definition is_first :: "Descriptor \<Rightarrow> bool" where
  "is_first d \<longleftrightarrow> d_generation d = 1 \<and> prev_hash d = Hash32 (replicate 32 0)"

record SignedDescriptor =
  sd_descriptor :: B64
  sd_sig :: Sig64

definition signed_descriptor :: "Descriptor \<Rightarrow> Sig64 \<Rightarrow> SignedDescriptor" where
  "signed_descriptor d sig = \<lparr>sd_descriptor = B64 (descriptor_encode d), sd_sig = sig\<rparr>"

definition decode_unverified :: "SignedDescriptor \<Rightarrow> IntegrityError + Descriptor" where
  "decode_unverified sd = descriptor_decode (b64 (sd_descriptor sd))"

definition signed_descriptor_verify ::
    "crypto \<Rightarrow> SignedDescriptor \<Rightarrow> Key32 \<Rightarrow> IntegrityError + Descriptor" where
  "signed_descriptor_verify c sd owner =
     rbind (descriptor_decode (b64 (sd_descriptor sd))) (\<lambda>d.
     rbind (verify_ed25519 c owner (descriptor_signing_input d) (sd_sig sd) ''descriptor'') (\<lambda>_.
       Inr d))"

definition verify_for ::
    "crypto \<Rightarrow> SignedDescriptor \<Rightarrow> VaultId \<Rightarrow> Key32 \<Rightarrow> IntegrityError + Descriptor" where
  "verify_for c sd v owner =
     (if from_owner_sign_pub c owner \<noteq> v
      then Inl (IntegrityError.KeyMismatch ''owner signing key'')
      else rbind (signed_descriptor_verify c sd owner) (\<lambda>d.
        if d_vault_id d \<noteq> v then Inl (IntegrityError.KeyMismatch ''descriptor's vault id'')
        else Inr d))"

section \<open>Record contexts\<close>

record RecordContext =
  rc_vault_id :: VaultId
  rc_generation :: u32
  rc_kind :: RecordKind
  name_index :: NameHmac
  rc_version :: nat
  rc_written_at :: int
  rc_tombstone :: bool
  value_ct_hash :: Hash32
  name_ct_hash :: Hash32

definition record_context :: "crypto \<Rightarrow> VaultId \<Rightarrow> u32 \<Rightarrow> RecordKind \<Rightarrow> NameHmac \<Rightarrow> nat \<Rightarrow> int
    \<Rightarrow> bytes \<Rightarrow> bytes option \<Rightarrow> RecordContext" where
  "record_context c v g k n version written_at name_ct value_ct =
     \<lparr>rc_vault_id = v, rc_generation = g, rc_kind = k, name_index = n, rc_version = version,
      rc_written_at = written_at, rc_tombstone = (value_ct = None),
      value_ct_hash = hash_sha256 c (case value_ct of None \<Rightarrow> [] | Some ct \<Rightarrow> ct),
      name_ct_hash = hash_sha256 c name_ct\<rparr>"

definition record_parts :: "RecordContext \<Rightarrow> bytes list" where
  "record_parts r =
     [vid (rc_vault_id r), u32_be (rc_generation r), [kind_code (rc_kind r)], nhm (name_index r),
      u64_be (rc_version r), i64_be (rc_written_at r), [if rc_tombstone r then 1 else 0],
      h32 (value_ct_hash r), h32 (name_ct_hash r)]"

definition record_signing_input :: "RecordContext \<Rightarrow> bytes" where
  "record_signing_input r = frame LABEL_RECORD (record_parts r)"

definition record_verify :: "crypto \<Rightarrow> RecordContext \<Rightarrow> Key32 \<Rightarrow> Sig64 \<Rightarrow> IntegrityError + unit" where
  "record_verify c r writer sig = verify_ed25519 c writer (record_signing_input r) sig ''record''"

definition wf_record_context :: "RecordContext \<Rightarrow> bool" where
  "wf_record_context r \<longleftrightarrow> wf_vault_id (rc_vault_id r) \<and> wf_name_hmac (name_index r)
     \<and> rc_version r < 2 ^ 64 \<and> i64_range (rc_written_at r)
     \<and> wf_hash32 (value_ct_hash r) \<and> wf_hash32 (name_ct_hash r)"

section \<open>Bundles, children blobs and leak reports\<close>

record SignedBundle =
  sealed :: B64
  sb_sig :: Sig64

definition bundle_signing_input :: "crypto \<Rightarrow> VaultId \<Rightarrow> TokenId \<Rightarrow> byte \<Rightarrow> u32 \<Rightarrow> bytes \<Rightarrow> bytes" where
  "bundle_signing_input c v t scope generation ct = frame LABEL_BUNDLE
     [vid v, tid t, [scope], u32_be generation, h32 (hash_sha256 c ct)]"

definition bundle_verify ::
    "crypto \<Rightarrow> SignedBundle \<Rightarrow> Key32 \<Rightarrow> VaultId \<Rightarrow> TokenId \<Rightarrow> byte \<Rightarrow> u32 \<Rightarrow> IntegrityError + unit" where
  "bundle_verify c b owner v t scope generation =
     verify_ed25519 c owner (bundle_signing_input c v t scope generation (b64 (sealed b)))
       (sb_sig b) ''bundle''"

record ChildrenBlob =
  cb_version :: nat
  cb_ct :: B64
  cb_sig :: Sig64

definition children_signing_input :: "crypto \<Rightarrow> VaultId \<Rightarrow> nat \<Rightarrow> bytes \<Rightarrow> bytes" where
  "children_signing_input c v version ct = frame LABEL_CHILDREN
     [vid v, u64_be version, h32 (hash_sha256 c ct)]"

definition children_blob_verify ::
    "crypto \<Rightarrow> ChildrenBlob \<Rightarrow> VaultId \<Rightarrow> Key32 \<Rightarrow> IntegrityError + unit" where
  "children_blob_verify c b v owner =
     verify_ed25519 c owner (children_signing_input c v (cb_version b) (b64 (cb_ct b)))
       (cb_sig b) ''children record''"

definition report_signing_input :: "TokenId \<Rightarrow> int \<Rightarrow> bytes" where
  "report_signing_input t ts = frame LABEL_REPORT [tid t, i64_be ts]"

section \<open>Descriptors round trip\<close>

lemma split_length:
  assumes "length bs = n + m"
  obtains a b where "bs = a @ b" "length a = n" "length b = m"
proof
  show "bs = take n bs @ drop n bs" by simp
qed (use assms in simp_all)

lemma i64_of_be_range: "i64_range (i64_of_be bs)"
  by (simp add: i64_of_be_def i64_wrap_range)

lemma take_n_append [simp]: "length a = n \<Longrightarrow> take_n n (a @ b) = Inr (a, b)"
  by (auto simp: take_n_def)

lemma take_n_exact [simp]: "length a = n \<Longrightarrow> take_n n a = Inr (a, [])"
  by (auto simp: take_n_def)

lemma take_n_ok: "n \<le> length bs \<Longrightarrow> take_n n bs = Inr (take n bs, drop n bs)"
  by (simp add: take_n_def)

lemma of_be_u32_be: "of_nat (of_be (u32_be g)) = g"
  using of_be_be_bytes_small [OF u32_less [of g]] by (simp add: u32_be_def)

lemma length_descriptor_encode: "wf_descriptor d \<Longrightarrow> length (descriptor_encode d) = DESCRIPTOR_LEN"
  by (simp add: descriptor_encode_def wf_descriptor_def wf_id_defs DESCRIPTOR_LEN_def)

lemma descriptor_decode_encode:
  assumes "wf_descriptor d"
  shows "descriptor_decode (descriptor_encode d) = Inr d"
proof -
  from assms have "length (descriptor_encode d) = DESCRIPTOR_LEN" by (rule length_descriptor_encode)
  with assms show ?thesis
    by (simp add: descriptor_decode_def descriptor_encode_def wf_descriptor_def wf_id_defs
        of_be_u32_be i64_of_be_i64_be)
qed

lemma u32_be_of_be: "length bs = 4 \<Longrightarrow> u32_be (of_nat (of_be bs)) = bs"
proof -
  assume l: "length bs = 4"
  then have "of_be bs < 2 ^ 32" using of_be_less [of bs] by simp
  then have "unat (of_nat (of_be bs) :: u32) = of_be bs" by (simp add: unat_of_nat)
  then show ?thesis using be_bytes_of_be [of bs] l by (simp add: u32_be_def)
qed

lemma descriptor_decode_Inr:
  assumes "descriptor_decode bs = Inr d"
  shows "wf_descriptor d \<and> descriptor_encode d = bs"
proof -
  from assms obtain rest where bs: "bs = DESCRIPTOR_VERSION # rest" and l: "length rest = 188"
    by (auto simp: descriptor_decode_def DESCRIPTOR_LEN_def split: list.splits if_splits)
  obtain v r1 where 1: "rest = v @ r1" "length v = 16" "length r1 = 172" using l split_length [of rest 16 172] by auto
  obtain g r2 where 2: "r1 = g @ r2" "length g = 4" "length r2 = 168" using 1 split_length [of r1 4 168] by auto
  obtain vp r3 where 3: "r2 = vp @ r3" "length vp = 32" "length r3 = 136" using 2 split_length [of r2 32 136] by auto
  obtain cp r4 where 4: "r3 = cp @ r4" "length cp = 32" "length r4 = 104" using 3 split_length [of r3 32 104] by auto
  obtain sw r5 where 5: "r4 = sw @ r5" "length sw = 32" "length r5 = 72" using 4 split_length [of r4 32 72] by auto
  obtain cw r6 where 6: "r5 = cw @ r6" "length cw = 32" "length r6 = 40" using 5 split_length [of r5 32 40] by auto
  obtain ph at where 7: "r6 = ph @ at" "length ph = 32" "length at = 8" using 6 split_length [of r6 32 8] by auto
  have "d = \<lparr>d_vault_id = VaultId v, d_generation = of_nat (of_be g), vault_pub = Key32 vp,
      config_pub = Key32 cp, secret_writer_pub = Key32 sw, config_writer_pub = Key32 cw,
      prev_hash = Hash32 ph, d_created_at = i64_of_be at\<rparr>"
    using assms 1 2 3 4 5 6 7 by (simp add: bs descriptor_decode_def DESCRIPTOR_LEN_def)
  with 1 2 3 4 5 6 7 show ?thesis
    by (simp add: bs wf_descriptor_def wf_id_defs descriptor_encode_def u32_be_of_be i64_be_of_be
        i64_of_be_range)
qed

text \<open>Decoding accepts exactly the encodings of well-formed descriptors: encode and decode are
  inverse, so a descriptor has one signed byte form.\<close>

theorem descriptor_codec:
  "descriptor_decode bs = Inr d \<longleftrightarrow> wf_descriptor d \<and> bs = descriptor_encode d"
  using descriptor_decode_Inr descriptor_decode_encode by blast

section \<open>What a signature binds\<close>

interpretation descriptors: signed_format LABEL_DESCRIPTOR "\<lambda>d. [descriptor_encode d]" wf_descriptor
    descriptor_signing_input "\<lambda>d. d"
proof unfold_locales
  show "LABEL_DESCRIPTOR \<in> set LABELS" by (simp add: LABELS_def)
  show "descriptor_signing_input x = frame LABEL_DESCRIPTOR [descriptor_encode x]" for x
    by (rule descriptor_signing_input_def)
  show "list_all2 (\<lambda>a b. length a = length b) [descriptor_encode x] [descriptor_encode y]"
    if "wf_descriptor x" "wf_descriptor y" for x y
    using that by (simp add: length_descriptor_encode)
  show "x = y" if "wf_descriptor x" "wf_descriptor y" "[descriptor_encode x] = [descriptor_encode y]" for x y
    using that by (metis descriptor_decode_encode list.inject sum.inject(2))
qed

interpretation records: signed_format LABEL_RECORD record_parts wf_record_context
    record_signing_input "\<lambda>r. r"
proof unfold_locales
  show "LABEL_RECORD \<in> set LABELS" by (simp add: LABELS_def)
  show "x = y" if "wf_record_context x" "wf_record_context y" "record_parts x = record_parts y" for x y
  proof (rule RecordContext.equality)
    show "rc_vault_id x = rc_vault_id y" "name_index x = name_index y"
      "value_ct_hash x = value_ct_hash y" "name_ct_hash x = name_ct_hash y"
      using that(3) by (simp_all add: record_parts_def VaultId.expand NameHmac.expand Hash32.expand)
    show "rc_generation x = rc_generation y" "rc_kind x = rc_kind y"
      "rc_tombstone x = rc_tombstone y"
      using that(3) by (simp_all add: record_parts_def kinds.code_inject split: if_splits)
    show "rc_version x = rc_version y" "rc_written_at x = rc_written_at y"
      using that by (simp_all add: record_parts_def wf_record_context_def u64_be_inject i64_be_inject)
  qed simp
qed (simp_all add: record_signing_input_def record_parts_def wf_record_context_def wf_id_defs)

text \<open>What identifies a bundle: its vault, holder, scope, generation and sealed bytes.\<close>

type_synonym bundle_binding = "VaultId \<times> TokenId \<times> byte \<times> u32 \<times> bytes"

definition wf_bundle_binding :: "crypto \<Rightarrow> bundle_binding \<Rightarrow> bool" where
  "wf_bundle_binding c x \<longleftrightarrow> (case x of (v, t, s, g, ct) \<Rightarrow>
     wf_vault_id v \<and> wf_token_id t \<and> length (sha256 c ct) = 32)"

interpretation bundles: signed_format LABEL_BUNDLE
    "\<lambda>(v, t, s, g, ct). [vid v, tid t, [s], u32_be g, h32 (hash_sha256 c ct)]"
    "wf_bundle_binding c" "\<lambda>(v, t, s, g, ct). bundle_signing_input c v t s g ct"
    "\<lambda>(v, t, s, g, ct). (v, t, s, g, sha256 c ct)"
  for c
proof unfold_locales
  show "LABEL_BUNDLE \<in> set LABELS" by (simp add: LABELS_def)
qed (auto simp: bundle_signing_input_def wf_bundle_binding_def wf_id_defs hash_sha256_def
    VaultId.expand TokenId.expand)

interpretation children: signed_format LABEL_CHILDREN
    "\<lambda>(v, n, ct). [vid v, u64_be n, h32 (hash_sha256 c ct)]"
    "\<lambda>(v, n, ct). wf_vault_id v \<and> n < 2 ^ 64 \<and> length (sha256 c ct) = 32"
    "\<lambda>(v, n, ct). children_signing_input c v n ct" "\<lambda>(v, n, ct). (v, n, sha256 c ct)"
  for c
proof unfold_locales
  show "LABEL_CHILDREN \<in> set LABELS" by (simp add: LABELS_def)
qed (auto simp: children_signing_input_def wf_id_defs hash_sha256_def VaultId.expand u64_be_inject)

interpretation reports: signed_format LABEL_REPORT "\<lambda>(t, ts). [tid t, i64_be ts]"
    "\<lambda>(t, ts). wf_token_id t \<and> i64_range ts" "\<lambda>(t, ts). report_signing_input t ts" "\<lambda>x. x"
proof unfold_locales
  show "LABEL_REPORT \<in> set LABELS" by (simp add: LABELS_def)
qed (auto simp: report_signing_input_def wf_id_defs TokenId.expand i64_be_inject)

text \<open>A record signature binds the vault, generation, kind, name, version, write time,
  tombstone flag and both ciphertext hashes: two well-formed contexts with one signing input are
  the same context.\<close>

theorem record_signature_binds:
  assumes "wf_record_context r" and "wf_record_context r'"
    and "record_signing_input r = record_signing_input r'"
  shows "r = r'"
  using assms by (rule records.input_binds)

definition ex_rc :: RecordContext where
  "ex_rc = \<lparr>rc_vault_id = VaultId (replicate 16 1), rc_generation = 1, rc_kind = RecordKind.Secret,
     name_index = NameHmac (replicate 32 2), rc_version = 1, rc_written_at = 1757500000,
     rc_tombstone = False, value_ct_hash = Hash32 (replicate 32 3),
     name_ct_hash = Hash32 (replicate 32 4)\<rparr>"

theorem record_signature_binds_witness:
  "record_signing_input ex_rc \<noteq> record_signing_input (ex_rc\<lparr>rc_version := 2\<rparr>)
   \<and> record_signing_input ex_rc \<noteq> record_signing_input (ex_rc\<lparr>rc_kind := RecordKind.Config\<rparr>)"
  using record_signature_binds [of ex_rc "ex_rc\<lparr>rc_version := 2\<rparr>"]
    record_signature_binds [of ex_rc "ex_rc\<lparr>rc_kind := RecordKind.Config\<rparr>"]
  by (auto simp: ex_rc_def wf_record_context_def wf_id_defs i64_range_def i64_min_def i64_max_def)

text \<open>A bundle signature binds the vault, the token, the scope byte and the generation, and the
  hash of the sealed bytes; the owner's own bundle is never confused with a token's.\<close>

theorem bundle_signature_binds:
  assumes "wf_vault_id v" "wf_vault_id v'" "wf_token_id t" "wf_token_id t'"
    and "\<forall>d. length (sha256 c d) = 32"
    and "bundle_signing_input c v t s g ct = bundle_signing_input c v' t' s' g' ct'"
  shows "v = v' \<and> t = t' \<and> s = s' \<and> g = g' \<and> sha256 c ct = sha256 c ct'"
  using bundles.input_binds [of c "(v, t, s, g, ct)" "(v', t', s', g', ct')"] assms
  by (simp add: wf_bundle_binding_def)

theorem bundle_signature_binds_witness:
  "bundle_signing_input null_crypto (VaultId (replicate 16 1)) (TokenId (replicate 16 0))
     (scope_code Scope.Read) 1 [7]
   \<noteq> bundle_signing_input null_crypto (VaultId (replicate 16 1)) OWNER_TOKEN_ID
       OWNER_SCOPE_CODE 1 [7]"
  using bundle_signature_binds [of "VaultId (replicate 16 1)" "VaultId (replicate 16 1)"
      "TokenId (replicate 16 0)" OWNER_TOKEN_ID null_crypto "scope_code Scope.Read" 1 "[7]"
      OWNER_SCOPE_CODE 1 "[7]"] scope_code_not_owner [of Scope.Read]
  by (auto simp: wf_id_defs null_crypto_def OWNER_TOKEN_ID_def)

section \<open>The descriptor chain\<close>

lemma check_follows_ok:
  "check_follows c d prev = Inr u \<longleftrightarrow> d_vault_id d = d_vault_id prev
   \<and> unat (d_generation d) = unat (d_generation prev) + 1 \<and> prev_hash d = descriptor_hash c prev"
proof -
  have "Some (d_generation d) = checked_add_u32 (d_generation prev)
      \<longleftrightarrow> unat (d_generation d) = unat (d_generation prev) + 1"
    using u32_less [of "d_generation d"]
    by (auto simp: checked_add_u32_def word_unat_eq_iff unat_word_ariths)
  then show ?thesis by (auto simp: check_follows_def)
qed

text \<open>A chain, newest descriptor first: each follows the next, the last is a first generation.\<close>

fun descriptor_chain :: "crypto \<Rightarrow> Descriptor list \<Rightarrow> bool" where
  "descriptor_chain c [] \<longleftrightarrow> False"
| "descriptor_chain c [d] \<longleftrightarrow> is_first d"
| "descriptor_chain c (d # p # ds) \<longleftrightarrow> follows c d p \<and> descriptor_chain c (p # ds)"

lemma follows_iff:
  "follows c d prev \<longleftrightarrow> d_vault_id d = d_vault_id prev
   \<and> unat (d_generation d) = unat (d_generation prev) + 1 \<and> prev_hash d = descriptor_hash c prev"
  by (simp add: follows_def is_ok_iff check_follows_ok)

lemma chain_generation_pos: "descriptor_chain c (d # ds) \<Longrightarrow> 0 < unat (d_generation d)"
  by (cases ds) (auto simp: is_first_def follows_iff)

text \<open>Along a chain of \<open>follows\<close> steps from a first generation the generations count 1, 2, 3
  and so on with no wrap-around, and every descriptor names the same vault.\<close>

theorem descriptor_chain_numbered:
  "descriptor_chain c (d # ds) \<Longrightarrow> unat (d_generation d) = length (d # ds)
   \<and> (\<forall>x \<in> set ds. d_vault_id x = d_vault_id d)"
  by (induction c "d # ds" arbitrary: d ds rule: descriptor_chain.induct)
    (auto simp: is_first_def follows_iff)

definition ex_d1 :: Descriptor where
  "ex_d1 = \<lparr>d_vault_id = VaultId (replicate 16 1), d_generation = 1, vault_pub = Key32 (replicate 32 2),
     config_pub = Key32 (replicate 32 3), secret_writer_pub = Key32 (replicate 32 4),
     config_writer_pub = Key32 (replicate 32 5), prev_hash = Hash32 (replicate 32 0),
     d_created_at = 1757500000\<rparr>"

definition ex_d2 :: Descriptor where
  "ex_d2 = ex_d1\<lparr>d_generation := 2, vault_pub := Key32 (replicate 32 6)\<rparr>"

lemma example_chain: "descriptor_chain null_crypto [ex_d2, ex_d1]"
  "descriptor_chain null_crypto [ex_d2, ex_d1\<lparr>d_created_at := 0\<rparr>]"
  by (simp_all add: ex_d1_def ex_d2_def is_first_def follows_iff descriptor_hash_def hash_sha256_def
      null_crypto_def)

theorem descriptor_chain_numbered_witness:
  "unat (d_generation ex_d2) = length [ex_d2, ex_d1] \<and> d_vault_id ex_d1 = d_vault_id ex_d2"
  using descriptor_chain_numbered [OF example_chain(1)] by simp



end
