(* ===== verification/Audit_Chain.thy ===== *)
theory Audit_Chain
  imports Signed
begin

text \<open>
  The audit chain (\<open>proto/audit.rs\<close>): actors, actions and results with their codes, events
  and rows, the row encoding and its hash, and the two verifiers. Row positions are 64-bit
  words, because a served \<open>seq\<close> is untrusted and the verifier's \<open>checked_add\<close> matters. The
  JSON of a served page is read through \<open>row_reader\<close>, a parameter for \<open>serde_json\<close>.
\<close>

section \<open>Actors, actions, results\<close>

definition GENESIS :: Hash32 where "GENESIS = Hash32 (replicate 32 0)"
definition ROW_CONTEXT :: string where "ROW_CONTEXT = ''galata-vault v1 audit row''"
definition ROW_FORMAT :: byte where "ROW_FORMAT = 1"
definition ROW_FORMATS :: "byte list" where "ROW_FORMATS = [ROW_FORMAT]"

datatype Actor = Owner | Token TokenId

definition actor_knows :: "string \<Rightarrow> bool" where
  "actor_knows name \<longleftrightarrow> name = ''owner'' \<or> name = ''token''"

datatype AuditAction =
    VaultCreate | VaultRotate | VaultDelete | VaultExpire | ChildrenWrite
  | TokenMint | TokenRevoke | TokenReport | TokenList
  | SecretPut | SecretDelete | SecretRead | ConfigWrite | ConfigDelete | ConfigRead

fun action_code :: "AuditAction \<Rightarrow> 16 word" where
  "action_code AuditAction.VaultCreate = 1"
| "action_code AuditAction.VaultRotate = 2"
| "action_code AuditAction.VaultDelete = 4"
| "action_code AuditAction.VaultExpire = 5"
| "action_code AuditAction.ChildrenWrite = 6"
| "action_code AuditAction.TokenMint = 10"
| "action_code AuditAction.TokenRevoke = 11"
| "action_code AuditAction.TokenReport = 12"
| "action_code AuditAction.TokenList = 13"
| "action_code AuditAction.SecretPut = 20"
| "action_code AuditAction.SecretDelete = 21"
| "action_code AuditAction.SecretRead = 22"
| "action_code AuditAction.ConfigWrite = 30"
| "action_code AuditAction.ConfigDelete = 31"
| "action_code AuditAction.ConfigRead = 32"

definition AuditAction_ALL :: "AuditAction list" where
  "AuditAction_ALL =
     [AuditAction.VaultCreate, AuditAction.VaultRotate, AuditAction.VaultDelete,
      AuditAction.VaultExpire, AuditAction.ChildrenWrite, AuditAction.TokenMint,
      AuditAction.TokenRevoke, AuditAction.TokenReport, AuditAction.TokenList,
      AuditAction.SecretPut, AuditAction.SecretDelete, AuditAction.SecretRead,
      AuditAction.ConfigWrite, AuditAction.ConfigDelete, AuditAction.ConfigRead]"

definition action_from_code :: "16 word \<Rightarrow> AuditAction option" where
  "action_from_code code = find (\<lambda>a. action_code a = code) AuditAction_ALL"

fun action_as_str :: "AuditAction \<Rightarrow> string" where
  "action_as_str AuditAction.VaultCreate = ''vault_create''"
| "action_as_str AuditAction.VaultRotate = ''vault_rotate''"
| "action_as_str AuditAction.VaultDelete = ''vault_delete''"
| "action_as_str AuditAction.VaultExpire = ''vault_expire''"
| "action_as_str AuditAction.ChildrenWrite = ''children_write''"
| "action_as_str AuditAction.TokenMint = ''token_mint''"
| "action_as_str AuditAction.TokenRevoke = ''token_revoke''"
| "action_as_str AuditAction.TokenReport = ''token_report''"
| "action_as_str AuditAction.TokenList = ''token_list''"
| "action_as_str AuditAction.SecretPut = ''secret_put''"
| "action_as_str AuditAction.SecretDelete = ''secret_delete''"
| "action_as_str AuditAction.SecretRead = ''secret_read''"
| "action_as_str AuditAction.ConfigWrite = ''config_write''"
| "action_as_str AuditAction.ConfigDelete = ''config_delete''"
| "action_as_str AuditAction.ConfigRead = ''config_read''"

definition action_parse :: "string \<Rightarrow> AuditAction option" where
  "action_parse s = find (\<lambda>a. action_as_str a = s) AuditAction_ALL"

definition action_knows :: "string \<Rightarrow> bool" where
  "action_knows name \<longleftrightarrow> action_parse name \<noteq> None"

interpretation actions: vocabulary AuditAction_ALL action_as_str action_parse
proof unfold_locales
  show "x \<in> set AuditAction_ALL" for x by (cases x) (simp_all add: AuditAction_ALL_def)
qed (simp_all add: AuditAction_ALL_def action_parse_def)

lemma action_from_code_code: "action_from_code (action_code a) = Some a"
proof -
  have "distinct (map action_code AuditAction_ALL)" by (simp add: AuditAction_ALL_def)
  then show ?thesis
    unfolding action_from_code_def by (rule find_map_fst_distinct) (rule actions.all_listed)
qed

lemma action_code_inject [simp]: "action_code a = action_code b \<longleftrightarrow> a = b"
  by (metis action_from_code_code option.inject)

datatype AuditResult = Ok | Refused

fun result_code :: "AuditResult \<Rightarrow> byte" where
  "result_code AuditResult.Ok = 0"
| "result_code AuditResult.Refused = 1"

definition result_from_code :: "byte \<Rightarrow> AuditResult option" where
  "result_from_code b =
     (if b = 0 then Some AuditResult.Ok else if b = 1 then Some AuditResult.Refused else None)"

interpretation results: coded result_code result_from_code
proof unfold_locales
  show "result_from_code (result_code x) = Some x" for x
    by (cases x) (simp_all add: result_from_code_def)
  show "result_from_code b = Some x \<Longrightarrow> result_code x = b" for b x
    by (auto simp: result_from_code_def split: if_splits)
qed

section \<open>Events and rows\<close>

record AuditEvent =
  ev_actor :: Actor
  ev_action :: AuditAction
  ev_name_hmac :: "NameHmac option"
  ev_subject :: "TokenId option"
  ev_result :: AuditResult
  ev_version :: nat
  ev_ct_hash :: "Hash32 option"

definition simple :: "Actor \<Rightarrow> AuditAction \<Rightarrow> NameHmac option \<Rightarrow> AuditResult \<Rightarrow> AuditEvent" where
  "simple actor action name_hmac result =
     \<lparr>ev_actor = actor, ev_action = action, ev_name_hmac = name_hmac, ev_subject = None,
      ev_result = result, ev_version = 0, ev_ct_hash = None\<rparr>"

record AuditRow =
  row_v :: byte
  row_seq :: u64
  row_ts :: int
  row_actor :: Actor
  row_action :: AuditAction
  row_name_hmac :: "NameHmac option"
  row_subject :: "TokenId option"
  row_result :: AuditResult
  row_version :: nat
  row_ct_hash :: "Hash32 option"
  row_prev :: Hash32
  row_hash :: Hash32

record ChainHead =
  ch_seq :: u64
  ch_hash :: Hash32

datatype RowStop =
    NewerFormat "u64 option" u64
  | UnknownValue "u64 option" string string

datatype ChainError =
    Gap u64 u64
  | BrokenLink u64
  | BadHash u64
  | Rollback u64 u64
  | Fork u64
  | HeadMismatch
  | UnknownFormat u64 byte
  | UnknownRowValue "u64 option" string string

definition hash_row :: "crypto \<Rightarrow> bytes \<Rightarrow> Hash32" where
  "hash_row c input = Hash32 (blake3_derive c ROW_CONTEXT input)"

fun opt_field :: "bytes option \<Rightarrow> bytes" where
  "opt_field None = [0]"
| "opt_field (Some b) = 1 # b"

definition hash_fields :: "AuditRow \<Rightarrow> bytes" where
  "hash_fields r =
     be_bytes 8 (unat (row_seq r)) @ i64_be (row_ts r)
     @ (case row_actor r of Actor.Owner \<Rightarrow> opt_field None | Actor.Token t \<Rightarrow> opt_field (Some (tid t)))
     @ be_bytes 2 (unat (action_code (row_action r)))
     @ opt_field (map_option nhm (row_name_hmac r))
     @ [result_code (row_result r)]
     @ opt_field (map_option tid (row_subject r))
     @ u64_be (row_version r)
     @ opt_field (map_option h32 (row_ct_hash r))
     @ h32 (row_prev r)"

definition hash_input :: "AuditRow \<Rightarrow> bytes option" where
  "hash_input r = (if row_v r = ROW_FORMAT then Some (ROW_FORMAT # hash_fields r) else None)"

definition expected_hash :: "crypto \<Rightarrow> AuditRow \<Rightarrow> Hash32 option" where
  "expected_hash c r = map_option (hash_row c) (hash_input r)"

definition stored :: "byte \<Rightarrow> u64 \<Rightarrow> int \<Rightarrow> Hash32 \<Rightarrow> Hash32 \<Rightarrow> AuditEvent \<Rightarrow> AuditRow" where
  "stored v seq ts prev hash e =
     \<lparr>row_v = v, row_seq = seq, row_ts = ts, row_actor = ev_actor e, row_action = ev_action e,
      row_name_hmac = ev_name_hmac e, row_subject = ev_subject e, row_result = ev_result e,
      row_version = ev_version e, row_ct_hash = ev_ct_hash e, row_prev = prev, row_hash = hash\<rparr>"

definition from_event :: "crypto \<Rightarrow> u64 \<Rightarrow> int \<Rightarrow> Hash32 \<Rightarrow> AuditEvent \<Rightarrow> AuditRow" where
  "from_event c seq ts prev e =
     (let row = stored ROW_FORMAT seq ts prev GENESIS e in
      row\<lparr>row_hash := hash_row c (ROW_FORMAT # hash_fields row)\<rparr>)"

definition row_event :: "AuditRow \<Rightarrow> AuditEvent" where
  "row_event r =
     \<lparr>ev_actor = row_actor r, ev_action = row_action r, ev_name_hmac = row_name_hmac r,
      ev_subject = row_subject r, ev_result = row_result r, ev_version = row_version r,
      ev_ct_hash = row_ct_hash r\<rparr>"

definition row_head :: "AuditRow \<Rightarrow> ChainHead" where
  "row_head r = \<lparr>ch_seq = row_seq r, ch_hash = row_hash r\<rparr>"

section \<open>Reading and verifying\<close>

text \<open>How \<open>read_rows\<close> looks at a JSON value: \<open>value.get("seq")\<close> as a number, the presence and
  number of \<open>v\<close>, the strict row parser, and the name under \<open>action\<close> or \<open>actor\<close>.\<close>

record 'j row_reader =
  get_seq :: "'j \<Rightarrow> u64 option"
  get_v :: "'j \<Rightarrow> u64 option option"
  parse_row :: "'j \<Rightarrow> string + AuditRow"
  name_at :: "'j \<Rightarrow> string \<Rightarrow> string option"

fun read_rows :: "'j row_reader \<Rightarrow> AuditRow list \<Rightarrow> 'j list
    \<Rightarrow> string + (AuditRow list \<times> RowStop option)" where
  "read_rows rd rows [] = Inr (rows, None)"
| "read_rows rd rows (value # rest) =
     (case get_v rd value of
        None \<Rightarrow> Inl ''an audit row has no format `v`''
      | Some None \<Rightarrow> Inl ''an audit row's format `v` is not a number''
      | Some (Some v) \<Rightarrow>
          if unat v > unat ROW_FORMAT then Inr (rows, Some (NewerFormat (get_seq rd value) v))
          else (case parse_row rd value of
            Inr row \<Rightarrow>
              if row_v row \<in> set ROW_FORMATS then read_rows rd (rows @ [row]) rest
              else Inl (''audit row format '' @ show_nat (unat (row_v row)) @ '' does not exist'')
          | Inl e \<Rightarrow>
              (case filter_option (\<lambda>a. \<not> action_knows a) (name_at rd value ''action'') of
                 Some action \<Rightarrow>
                   Inr (rows, Some (UnknownValue (get_seq rd value) ''action'' action))
               | None \<Rightarrow>
                   (case filter_option (\<lambda>a. \<not> actor_knows a) (name_at rd value ''actor'') of
                      Some actor \<Rightarrow>
                        Inr (rows, Some (UnknownValue (get_seq rd value) ''actor'' actor))
                    | None \<Rightarrow> Inl (''an audit row is malformed: '' @ e)))))"

definition checked_add_u64 :: "u64 \<Rightarrow> u64 option" where
  "checked_add_u64 n = (if unat n + 1 < 2 ^ 64 then Some (n + 1) else None)"

definition u64_max :: u64 where "u64_max = - 1"

text \<open>The loop of \<open>verify_chain\<close>, with its three variables.\<close>

fun verify_loop :: "crypto \<Rightarrow> u64 option \<Rightarrow> Hash32 \<Rightarrow> ChainHead option \<Rightarrow> AuditRow list
    \<Rightarrow> ChainError + ChainHead option" where
  "verify_loop c expected_seq expected_prev head [] = Inr head"
| "verify_loop c expected_seq expected_prev head (row # rows) =
     (if Some (row_seq row) \<noteq> expected_seq
      then Inl (Gap (case expected_seq of None \<Rightarrow> u64_max | Some s \<Rightarrow> s) (row_seq row))
      else if row_prev row \<noteq> expected_prev then Inl (BrokenLink (row_seq row))
      else (case expected_hash c row of
          None \<Rightarrow> Inl (UnknownFormat (row_seq row) (row_v row))
        | Some expected \<Rightarrow>
            if row_hash row \<noteq> expected then Inl (BadHash (row_seq row))
            else verify_loop c (checked_add_u64 (row_seq row)) (row_hash row)
                   (Some (row_head row)) rows))"

definition verify_chain :: "crypto \<Rightarrow> ChainHead option \<Rightarrow> AuditRow list \<Rightarrow> ChainError + ChainHead option" where
  "verify_chain c known rows =
     verify_loop c (case known of None \<Rightarrow> Some 1 | Some h \<Rightarrow> checked_add_u64 (ch_seq h))
       (case known of None \<Rightarrow> GENESIS | Some h \<Rightarrow> ch_hash h) known rows"

definition check_server_head :: "ChainHead \<Rightarrow> ChainHead option \<Rightarrow> ChainError + unit" where
  "check_server_head known server = (case server of
     None \<Rightarrow> Inl (Rollback (ch_seq known) 0)
   | Some s \<Rightarrow>
       if ch_seq s < ch_seq known then Inl (Rollback (ch_seq known) (ch_seq s))
       else if ch_seq s = ch_seq known \<and> ch_hash s \<noteq> ch_hash known then Inl (Fork (ch_seq known))
       else Inr ())"

record Verified =
  vf_head :: "ChainHead option"
  vf_rows :: nat
  unverifiable :: "RowStop option"

definition verify_rows :: "crypto \<Rightarrow> ChainHead option \<Rightarrow> AuditRow list \<Rightarrow> ChainHead option
    \<Rightarrow> RowStop option \<Rightarrow> ChainError + Verified" where
  "verify_rows c known rows server_head stop =
     rbind (case known of None \<Rightarrow> Inr () | Some k \<Rightarrow> check_server_head k server_head) (\<lambda>_.
     let base = (case known of
           Some k \<Rightarrow> Some k
         | None \<Rightarrow> (case rows of
             [] \<Rightarrow> None
           | r # _ \<Rightarrow> if row_seq r > 1
               then Some \<lparr>ch_seq = row_seq r - 1, ch_hash = row_prev r\<rparr> else None))
     in rbind (verify_chain c base rows) (\<lambda>head.
       case stop of
         None \<Rightarrow> if head \<noteq> server_head then Inl HeadMismatch
           else Inr \<lparr>vf_head = head, vf_rows = length rows, unverifiable = None\<rparr>
       | Some (UnknownValue seq field value) \<Rightarrow> Inl (UnknownRowValue seq field value)
       | Some (NewerFormat seq v) \<Rightarrow>
           Inr \<lparr>vf_head = head, vf_rows = length rows, unverifiable = Some (NewerFormat seq v)\<rparr>))"

section \<open>The row encoding is injective\<close>

definition wf_event :: "AuditEvent \<Rightarrow> bool" where
  "wf_event e \<longleftrightarrow> (\<forall>t. ev_actor e = Actor.Token t \<longrightarrow> wf_token_id t)
     \<and> pred_option wf_name_hmac (ev_name_hmac e) \<and> pred_option wf_token_id (ev_subject e)
     \<and> pred_option wf_hash32 (ev_ct_hash e) \<and> ev_version e < 2 ^ 64"

definition wf_row :: "AuditRow \<Rightarrow> bool" where
  "wf_row r \<longleftrightarrow> wf_event (row_event r) \<and> wf_hash32 (row_prev r) \<and> i64_range (row_ts r)"

text \<open>Two fields of which neither is a proper prefix of the other; a concatenation of such fields
  splits in one way.\<close>

definition unsplittable :: "bytes \<Rightarrow> bytes \<Rightarrow> bool" where
  "unsplittable a b \<longleftrightarrow> (\<forall>r s. a @ r = b @ s \<longrightarrow> a = b)"

lemma unsplittable_length: "length a = length b \<Longrightarrow> unsplittable a b"
  by (simp add: unsplittable_def)

lemma unsplittable_opt:
  assumes "pred_option (\<lambda>b. length b = n) x" and "pred_option (\<lambda>b. length b = n) y"
  shows "unsplittable (opt_field x) (opt_field y)"
  using assms by (cases x; cases y) (auto simp: unsplittable_def)

lemma concat_unsplittable:
  "list_all2 unsplittable ps qs \<Longrightarrow> concat ps = concat qs \<Longrightarrow> ps = qs"
proof (induction rule: list_all2_induct)
  case (Cons p ps q qs)
  from Cons(1,4) have "p = q" by (auto simp: unsplittable_def)
  with Cons show ?case by simp
qed simp

lemma opt_field_eq [simp]: "opt_field x = opt_field y \<longleftrightarrow> x = y"
  by (cases x; cases y) auto

fun actor_field :: "Actor \<Rightarrow> bytes option" where
  "actor_field Actor.Owner = None"
| "actor_field (Actor.Token t) = Some (tid t)"

definition row_fields :: "AuditRow \<Rightarrow> bytes list" where
  "row_fields r = [be_bytes 8 (unat (row_seq r)), i64_be (row_ts r), opt_field (actor_field (row_actor r)),
     be_bytes 2 (unat (action_code (row_action r))), opt_field (map_option nhm (row_name_hmac r)),
     [result_code (row_result r)], opt_field (map_option tid (row_subject r)),
     u64_be (row_version r), opt_field (map_option h32 (row_ct_hash r)), h32 (row_prev r)]"

lemma hash_fields_concat: "hash_fields r = concat (row_fields r)"
  by (simp add: hash_fields_def row_fields_def split: Actor.split)

lemma u64_less: "unat (n :: u64) < 256 ^ 8"
proof -
  have "unat n < 2 ^ LENGTH(64)" by (rule unsigned_less)
  then show ?thesis by simp
qed

lemma u16_less: "unat (n :: 16 word) < 256 ^ 2"
proof -
  have "unat n < 2 ^ LENGTH(16)" by (rule unsigned_less)
  then show ?thesis by simp
qed

lemma actor_field_inject: "actor_field a = actor_field b \<longleftrightarrow> a = b"
  by (cases a; cases b) (auto simp: TokenId.expand)

lemma map_option_inject: "(\<And>x y. f x = f y \<Longrightarrow> x = y) \<Longrightarrow> map_option f a = map_option f b \<longleftrightarrow> a = b"
  by (cases a; cases b) auto

lemma wf_row_fields:
  assumes "wf_row r"
  shows "pred_option (\<lambda>b. length b = 16) (actor_field (row_actor r))"
    "pred_option (\<lambda>b. length b = 32) (map_option nhm (row_name_hmac r))"
    "pred_option (\<lambda>b. length b = 16) (map_option tid (row_subject r))"
    "pred_option (\<lambda>b. length b = 32) (map_option h32 (row_ct_hash r))"
    "length (h32 (row_prev r)) = 32" "row_version r < 2 ^ 64" "i64_range (row_ts r)"
  using assms
  by (cases "row_actor r"; auto simp: wf_row_def wf_event_def row_event_def wf_id_defs
      option.pred_set split: option.splits)+

lemma hash_fields_inject:
  assumes wf: "wf_row r" "wf_row r'" and eq: "hash_fields r = hash_fields r'"
  shows "row_seq r = row_seq r' \<and> row_ts r = row_ts r' \<and> row_event r = row_event r'
    \<and> row_prev r = row_prev r'"
proof -
  note f = wf_row_fields [OF wf(1)] and f' = wf_row_fields [OF wf(2)]
  have "list_all2 unsplittable (row_fields r) (row_fields r')"
    using f f' by (auto simp: row_fields_def intro: unsplittable_length unsplittable_opt)
  with eq have eqs: "row_fields r = row_fields r'"
    unfolding hash_fields_concat by (intro concat_unsplittable)
  then have "unat (row_seq r) = unat (row_seq r')"
    "unat (action_code (row_action r)) = unat (action_code (row_action r'))"
    unfolding row_fields_def using be_bytes_inject [OF u64_less u64_less] be_bytes_inject [OF u16_less u16_less]
    by simp_all
  then have "row_seq r = row_seq r'" "row_action r = row_action r'"
    by (simp_all add: word_unat_eq_iff [symmetric])
  moreover have "row_version r = row_version r'" "row_ts r = row_ts r'"
    using eqs f(6,7) f'(6,7) by (simp_all add: row_fields_def u64_be_inject i64_be_inject)
  moreover have "row_actor r = row_actor r'" "row_name_hmac r = row_name_hmac r'"
    "row_result r = row_result r'" "row_subject r = row_subject r'"
    "row_ct_hash r = row_ct_hash r'" "row_prev r = row_prev r'"
    using eqs by (simp_all add: row_fields_def actor_field_inject map_option_inject NameHmac.expand
        TokenId.expand Hash32.expand results.code_inject)
  ultimately show ?thesis by (simp add: row_event_def)
qed

section \<open>Verification\<close>

lemma checked_add_u64_Some: "checked_add_u64 n = Some m \<longleftrightarrow> unat m = unat n + 1"
  using u64_less [of m] by (auto simp: checked_add_u64_def word_unat_eq_iff unat_word_ariths)

text \<open>What acceptance means: the row continues the chain at \<open>s\<close> after a row with hash \<open>p\<close>.\<close>

definition row_continues :: "crypto \<Rightarrow> nat \<Rightarrow> Hash32 \<Rightarrow> AuditRow \<Rightarrow> bool" where
  "row_continues c s p r \<longleftrightarrow> unat (row_seq r) = s \<and> row_prev r = p \<and> row_v r = ROW_FORMAT
     \<and> row_hash r = hash_row c (ROW_FORMAT # hash_fields r)"

fun chain_from :: "crypto \<Rightarrow> nat \<Rightarrow> Hash32 \<Rightarrow> AuditRow list \<Rightarrow> bool" where
  "chain_from c s p [] \<longleftrightarrow> True"
| "chain_from c s p (r # rs) \<longleftrightarrow> row_continues c s p r \<and> chain_from c (s + 1) (row_hash r) rs"

definition head_after :: "ChainHead option \<Rightarrow> AuditRow list \<Rightarrow> ChainHead option" where
  "head_after known rows = (if rows = [] then known else Some (row_head (last rows)))"

definition next_seq :: "ChainHead option \<Rightarrow> nat" where
  "next_seq known = (case known of None \<Rightarrow> 1 | Some h \<Rightarrow> unat (ch_seq h) + 1)"

definition next_prev :: "ChainHead option \<Rightarrow> Hash32" where
  "next_prev known = (case known of None \<Rightarrow> GENESIS | Some h \<Rightarrow> ch_hash h)"

lemma expected_hash_iff:
  "expected_hash c r = Some h \<longleftrightarrow> row_v r = ROW_FORMAT \<and> h = hash_row c (ROW_FORMAT # hash_fields r)"
  by (auto simp: expected_hash_def hash_input_def)

lemma next_head [simp]: "next_seq (Some (row_head r)) = unat (row_seq r) + 1"
  "next_prev (Some (row_head r)) = row_hash r"
  by (simp_all add: next_seq_def next_prev_def row_head_def)

lemma verify_loop_iff:
  assumes "\<And>m. es = Some m \<longleftrightarrow> unat m = s"
  shows "verify_loop c es p head rows = Inr h \<longleftrightarrow> chain_from c s p rows \<and> h = head_after head rows"
  using assms
proof (induction c es p head rows arbitrary: s rule: verify_loop.induct)
  case (1 c es p head)
  then show ?case by (auto simp: head_after_def)
next
  case (2 c es p head row rows)
  show ?case
  proof (cases "row_continues c s p row")
    case False
    with 2(2) show ?thesis
      by (auto simp: row_continues_def expected_hash_iff split: option.splits)
  next
    case True
    then have e: "expected_hash c row = Some (row_hash row)" "es = Some (row_seq row)"
        "row_prev row = p"
      using 2(2) [of "row_seq row"] by (simp_all add: row_continues_def expected_hash_iff)
    moreover have "checked_add_u64 (row_seq row) = Some m \<longleftrightarrow> unat m = s + 1" for m
      using True by (simp add: checked_add_u64_Some row_continues_def)
    ultimately show ?thesis
      using True 2(1) [of "row_hash row" "s + 1"]
      by (simp add: head_after_def)
  qed
qed

lemma verify_chain_iff:
  "verify_chain c known rows = Inr h
   \<longleftrightarrow> chain_from c (next_seq known) (next_prev known) rows \<and> h = head_after known rows"
  unfolding verify_chain_def next_seq_def next_prev_def
  by (cases known) (subst verify_loop_iff; auto simp: checked_add_u64_Some word_unat_eq_iff)+

lemma chain_from_append:
  "chain_from c s p (xs @ ys) \<longleftrightarrow> chain_from c s p xs
   \<and> chain_from c (s + length xs) (if xs = [] then p else row_hash (last xs)) ys"
  by (induction xs arbitrary: s p) auto

lemma chain_from_nth:
  assumes "chain_from c s p rows" and "i < length rows"
  shows "row_continues c (s + i) (if i = 0 then p else row_hash (rows ! (i - 1))) (rows ! i)"
  using assms
proof (induction rows arbitrary: s p i)
  case (Cons r rs)
  then show ?case
    by (cases i) (force simp: nth_Cons' dest: Cons.IH)+
qed simp

text \<open>A row built by the server from the head it stored continues the chain.\<close>

lemma from_event_continues:
  "row_continues c (unat seq) prev (from_event c seq ts prev e)"
  by (simp add: row_continues_def from_event_def stored_def Let_def hash_fields_def)

lemma from_event_fields [simp]:
  "row_seq (from_event c seq ts prev e) = seq" "row_ts (from_event c seq ts prev e) = ts"
  "row_event (from_event c seq ts prev e) = e" "row_prev (from_event c seq ts prev e) = prev"
  by (simp_all add: from_event_def stored_def row_event_def Let_def)

lemma hash_fields_unhashed: "hash_fields (r\<lparr>row_hash := h\<rparr>) = hash_fields r"
  by (simp add: hash_fields_def)

lemma row_equal:
  assumes "row_v r = row_v r'" "row_seq r = row_seq r'" "row_ts r = row_ts r'"
    "row_event r = row_event r'" "row_prev r = row_prev r'" "row_hash r = row_hash r'"
  shows "r = (r' :: AuditRow)"
  using assms by (auto simp: row_event_def intro: AuditRow.equality)

lemma row_commits:
  assumes "wf_row r" "wf_row r'" "row_continues c s p r" "row_continues c s' p' r'"
    and "row_hash r = row_hash r'"
  shows "r = r' \<or> hash_input r \<noteq> hash_input r'"
proof (cases "hash_fields r = hash_fields r'")
  case True
  from hash_fields_inject [OF assms(1,2) True] assms(3-5) have "r = r'"
    by (intro row_equal) (auto simp: row_continues_def)
  then show ?thesis ..
next
  case False
  then show ?thesis using assms(3,4) by (simp add: hash_input_def row_continues_def)
qed

text \<open>Two different rows with one hash: what forging a chain amounts to.\<close>

definition row_collision :: "AuditRow list \<Rightarrow> AuditRow list \<Rightarrow> bool" where
  "row_collision xs ys \<longleftrightarrow>
     (\<exists>x \<in> set xs. \<exists>y \<in> set ys. hash_input x \<noteq> hash_input y \<and> row_hash x = row_hash y)"

lemma chain_commits:
  assumes "length xs = length ys" "chain_from c s p xs" "chain_from c s p ys"
    and "\<forall>r \<in> set xs \<union> set ys. wf_row r"
    and "xs \<noteq> [] \<Longrightarrow> row_hash (last xs) = row_hash (last ys)"
  shows "xs = ys \<or> row_collision xs ys"
  using assms
proof (induction xs arbitrary: ys rule: rev_induct)
  case (snoc x xs)
  then obtain y ys' where ys: "ys = ys' @ [y]" by (cases ys rule: rev_cases) auto
  let ?p = "\<lambda>zs. if zs = [] then p else row_hash (last zs)"
  from snoc(3,4) ys have cont: "row_continues c (s + length xs) (?p xs) x"
    "row_continues c (s + length ys') (?p ys') y"
    by (simp_all add: chain_from_append)
  from snoc ys row_commits [OF _ _ cont] consider "x = y" | "hash_input x \<noteq> hash_input y"
    by auto
  then show ?case
  proof cases
    case 1
    with cont have "?p xs = ?p ys'" by (simp add: row_continues_def)
    with snoc ys have "xs = ys' \<or> row_collision xs ys'"
      by (intro snoc.IH) (auto simp: chain_from_append split: if_splits)
    with 1 ys show ?thesis by (auto simp: row_collision_def)
  next
    case 2
    with snoc(6) ys show ?thesis by (auto simp: row_collision_def)
  qed
qed simp

lemma chain_from_nth_conv:
  "(\<forall>i < length rows. row_continues c (s + i) (if i = 0 then p else row_hash (rows ! (i - 1))) (rows ! i))
   \<Longrightarrow> chain_from c s p rows"
proof (induction rows arbitrary: s p)
  case (Cons r rs)
  have "row_continues c s p r" using Cons.prems by force
  moreover have "chain_from c (s + 1) (row_hash r) rs"
    using Cons.prems by (intro Cons.IH) (force simp: nth_Cons' dest: spec [where x = "Suc _"])
  ultimately show ?case by simp
qed simp

lemma verify_chain_Nil: "verify_chain c known [] = Inr known"
  by (simp add: verify_chain_def)

lemma verify_chain_Cons:
  "verify_chain c known (row # rows)
   = rbind (verify_chain c known [row]) (\<lambda>h. verify_chain c h rows)"
  by (auto simp: verify_chain_def row_head_def split: option.splits)

lemma head_after_next:
  "verify_chain c known rows = Inr h \<Longrightarrow> next_seq h = next_seq known + length rows"
  by (cases rows rule: rev_cases)
    (auto simp: verify_chain_iff head_after_def chain_from_append row_continues_def)

lemma row_stop_cases:
  obtains "stop = None" | seq v where "stop = Some (NewerFormat seq v)"
  | seq f v where "stop = Some (UnknownValue seq f v)"
  by (metis RowStop.exhaust option.exhaust)

section \<open>Properties of the verifiers\<close>

text \<open>The chain verifier accepts exactly the rows that continue the kept head: consecutive
  positions without wrap-around, each linked to the hash before it, each in the known format with
  the hash of its own fields; and it returns the last row's head.\<close>

theorem verify_chain_accepts:
  "verify_chain c known rows = Inr h \<longleftrightarrow>
   (\<forall>i < length rows. unat (row_seq (rows ! i)) = next_seq known + i
      \<and> row_prev (rows ! i) = (if i = 0 then next_prev known else row_hash (rows ! (i - 1)))
      \<and> expected_hash c (rows ! i) = Some (row_hash (rows ! i)))
   \<and> h = head_after known rows"
proof -
  let ?s = "next_seq known" and ?p = "next_prev known"
  have "chain_from c ?s ?p rows \<longleftrightarrow>
      (\<forall>i < length rows. row_continues c (?s + i) (if i = 0 then ?p else row_hash (rows ! (i - 1))) (rows ! i))"
    using chain_from_nth chain_from_nth_conv by blast
  then show ?thesis
    unfolding verify_chain_iff row_continues_def expected_hash_iff by blast
qed

text \<open>Verifying page by page from the last head is verifying the concatenation, errors
  included.\<close>

theorem verify_chain_pages:
  "verify_chain c known (xs @ ys) = rbind (verify_chain c known xs) (\<lambda>h. verify_chain c h ys)"
proof (induction xs arbitrary: known)
  case Nil
  show ?case by (simp add: verify_chain_Nil)
next
  case (Cons x xs)
  show ?case
    using Cons.IH verify_chain_Cons [of c known x "xs @ ys"] verify_chain_Cons [of c known x xs]
    by (cases "verify_chain c known [x]") simp_all
qed

text \<open>C24. Tamper evidence: two served histories accepted from the same kept head that end in the
  same head are the same rows, or contain two different rows with one hash.\<close>

theorem verify_chain_tamper_evident:
  assumes "verify_chain c known xs = Inr h" and "verify_chain c known ys = Inr h"
    and "\<forall>r \<in> set xs \<union> set ys. wf_row r"
  shows "xs = ys \<or> row_collision xs ys"
proof (rule chain_commits)
  from assms show "chain_from c (next_seq known) (next_prev known) xs"
    "chain_from c (next_seq known) (next_prev known) ys" by (simp_all add: verify_chain_iff)
  from assms have h: "head_after known xs = head_after known ys" by (auto simp: verify_chain_iff)
  from head_after_next [OF assms(1)] head_after_next [OF assms(2)] show "length xs = length ys"
    by simp
  with h show "row_hash (last xs) = row_hash (last ys)" if "xs \<noteq> []"
    using that by (auto simp: head_after_def row_head_def split: if_splits)
qed (rule assms(3))

definition ex_event :: AuditEvent where
  "ex_event = simple Actor.Owner AuditAction.VaultCreate None AuditResult.Ok"

definition ex_row1 :: AuditRow where "ex_row1 = from_event null_crypto 1 1757500000 GENESIS ex_event"
definition ex_row1' :: AuditRow where
  "ex_row1' = from_event null_crypto 1 1757500000 GENESIS (ex_event\<lparr>ev_action := AuditAction.TokenMint\<rparr>)"

lemma example_rows:
  "verify_chain null_crypto None [ex_row1] = Inr (Some \<lparr>ch_seq = 1, ch_hash = GENESIS\<rparr>)"
  "verify_chain null_crypto None [ex_row1'] = Inr (Some \<lparr>ch_seq = 1, ch_hash = GENESIS\<rparr>)"
  "\<forall>r \<in> set [ex_row1] \<union> set [ex_row1']. wf_row r"
proof -
  have row: "row_continues null_crypto 1 GENESIS ex_row1" "row_continues null_crypto 1 GENESIS ex_row1'"
    using from_event_continues [of null_crypto 1] by (simp_all add: ex_row1_def ex_row1'_def)
  have head: "row_head ex_row1 = \<lparr>ch_seq = 1, ch_hash = GENESIS\<rparr>"
      "row_head ex_row1' = \<lparr>ch_seq = 1, ch_hash = GENESIS\<rparr>"
    by (simp_all add: row_head_def ex_row1_def ex_row1'_def from_event_def stored_def hash_row_def
        null_crypto_def GENESIS_def Let_def)
  from row head show "verify_chain null_crypto None [ex_row1] = Inr (Some \<lparr>ch_seq = 1, ch_hash = GENESIS\<rparr>)"
    "verify_chain null_crypto None [ex_row1'] = Inr (Some \<lparr>ch_seq = 1, ch_hash = GENESIS\<rparr>)"
    by (simp_all add: verify_chain_iff next_seq_def next_prev_def head_after_def)
  show "\<forall>r \<in> set [ex_row1] \<union> set [ex_row1']. wf_row r"
    by (simp add: ex_row1_def ex_row1'_def wf_row_def wf_event_def wf_hash32_def ex_event_def simple_def GENESIS_def
        i64_range_def i64_min_def i64_max_def)
qed

theorem verify_chain_accepts_witness:
  "unat (row_seq ex_row1) = 1 \<and> row_prev ex_row1 = GENESIS
   \<and> expected_hash null_crypto ex_row1 = Some (row_hash ex_row1)"
  using iffD1 [OF verify_chain_accepts example_rows(1)] by (simp add: next_seq_def next_prev_def)

theorem verify_chain_tamper_evident_witness: "[ex_row1] = [ex_row1'] \<or> row_collision [ex_row1] [ex_row1']"
  using verify_chain_tamper_evident [OF example_rows] .

lemma verify_rows_head:
  assumes "verify_rows c (Some k) rows server_head stop = Inr v"
  obtains h where "verify_chain c (Some k) rows = Inr (Some h)" and "vf_head v = Some h"
    and "unat (ch_seq h) = unat (ch_seq k) + length rows" and "stop = None \<longrightarrow> Some h = server_head"
    and "check_server_head k server_head = Inr ()"
proof -
  from assms obtain hd where sh: "check_server_head k server_head = Inr ()"
    and vc: "verify_chain c (Some k) rows = Inr hd" and v: "vf_head v = hd"
    and stop: "stop = None \<Longrightarrow> hd = server_head"
    by (cases stop rule: row_stop_cases)
      (auto simp: verify_rows_def Let_def rbind_eq_Inr split: if_splits)
  from head_after_next [OF vc] obtain h where "hd = Some h" "unat (ch_seq h) = unat (ch_seq k) + length rows"
    using vc by (cases hd) (auto simp: next_seq_def verify_chain_iff head_after_def split: if_splits)
  then show thesis using that [of h] vc v stop sh by simp
qed

text \<open>Verification from a kept head refuses every rollback and fork: when it succeeds, the
  server's head is at or after the kept one, equal to it at the same position, the verified head
  lies exactly as many rows after the kept one as were served, and without an early stop it is the
  server's head.\<close>

theorem verify_rows_no_rollback:
  assumes "verify_rows c (Some k) rows server_head stop = Inr v"
  shows "\<exists>s h. server_head = Some s \<and> ch_seq k \<le> ch_seq s \<and> (ch_seq s = ch_seq k \<longrightarrow> ch_hash s = ch_hash k)
    \<and> vf_head v = Some h \<and> unat (ch_seq h) = unat (ch_seq k) + length rows
    \<and> (stop = None \<longrightarrow> h = s)"
proof -
  obtain h where h: "vf_head v = Some h" "unat (ch_seq h) = unat (ch_seq k) + length rows"
    "stop = None \<longrightarrow> Some h = server_head" and sh: "check_server_head k server_head = Inr ()"
    using verify_rows_head [OF assms] by blast
  from sh obtain s where s: "server_head = Some s" "ch_seq k \<le> ch_seq s"
    "ch_seq s = ch_seq k \<longrightarrow> ch_hash s = ch_hash k"
    by (auto simp: check_server_head_def not_less split: option.splits if_splits)
  with h show ?thesis by auto
qed

definition ex_row2 :: AuditRow where "ex_row2 = from_event null_crypto 2 1757500001 GENESIS ex_event"

lemma example_verify_rows:
  "verify_rows null_crypto (Some \<lparr>ch_seq = 1, ch_hash = GENESIS\<rparr>) [ex_row2]
     (Some \<lparr>ch_seq = 2, ch_hash = GENESIS\<rparr>) None
   = Inr \<lparr>vf_head = Some \<lparr>ch_seq = 2, ch_hash = GENESIS\<rparr>, vf_rows = 1, unverifiable = None\<rparr>"
proof -
  have head: "row_head ex_row2 = \<lparr>ch_seq = 2, ch_hash = GENESIS\<rparr>"
    by (simp add: row_head_def ex_row2_def from_event_def stored_def hash_row_def null_crypto_def
        GENESIS_def Let_def)
  have "row_continues null_crypto 2 GENESIS ex_row2"
    using from_event_continues [of null_crypto 2] by (simp add: ex_row2_def)
  with head have "verify_chain null_crypto (Some \<lparr>ch_seq = 1, ch_hash = GENESIS\<rparr>) [ex_row2]
      = Inr (Some \<lparr>ch_seq = 2, ch_hash = GENESIS\<rparr>)"
    by (simp add: verify_chain_iff next_seq_def next_prev_def head_after_def numeral_2_eq_2)
  then show ?thesis by (simp add: verify_rows_def check_server_head_def)
qed

theorem verify_rows_no_rollback_witness:
  "\<exists>s h. Some \<lparr>ch_seq = (2 :: u64), ch_hash = GENESIS\<rparr> = Some s \<and> (1 :: u64) \<le> ch_seq s
    \<and> unat (ch_seq h) = unat (1 :: u64) + length [ex_row2] \<and> h = s"
  using verify_rows_no_rollback [OF example_verify_rows] by auto

end
