(* ===== verification/Api.thy ===== *)
theory Api
  imports Audit_Chain
begin

text \<open>
  The request types, limits and response bodies of the HTTP API (\<open>proto/api.rs\<close>). JSON is read and written by
  \<open>serde\<close>, outside the repository; handlers work on the values below.
\<close>

section \<open>Limits\<close>

record Limits =
  max_names :: u32
  max_value_bytes :: u32
  max_versions :: u32
  max_vault_bytes :: u64
  max_tokens :: u32
  max_configs :: u32
  max_config_bytes :: u32
  max_config_versions :: u32

definition default_limits :: Limits where
  "default_limits =
     \<lparr>max_names = 200, max_value_bytes = 16 * 1024, max_versions = 20,
      max_vault_bytes = 4 * 1024 * 1024, max_tokens = 128, max_configs = 64,
      max_config_bytes = 256 * 1024, max_config_versions = 20\<rparr>"

text \<open>\<open>max_rotation_body\<close>, in \<open>u64\<close> arithmetic, which wraps in a release build.\<close>

definition b64_len :: "u64 \<Rightarrow> u64" where
  "b64_len n = (n * 4) div 3 + (if (n * 4) mod 3 = 0 then 0 else 1)"

definition max_rotation_body :: "Limits \<Rightarrow> u64" where
  "max_rotation_body l =
     (let INDEX_HEX = 64; TOKEN_HEX = 32; DIGITS = 20; NAME_CT = 24 + 256 + 16; SIG = 86;
          BUNDLE = 48 + 198; DESCRIPTOR = 189; VERSION_FRAME = 104; TOKEN_FRAME = 56;
          MARGIN = 4096;
          versions = ucast (max_names l) * ucast (max_versions l)
            + ucast (max_configs l) * ucast (max_config_versions l);
          tokens = ucast (max_tokens l)
      in b64_len (max_vault_bytes l)
         + versions * (2 * INDEX_HEX + 2 * DIGITS + b64_len NAME_CT + SIG + VERSION_FRAME)
         + tokens * (TOKEN_HEX + b64_len BUNDLE + SIG + TOKEN_FRAME)
         + tokens * (TOKEN_HEX + 3)
         + b64_len DESCRIPTOR
         + SIG
         + b64_len BUNDLE
         + SIG
         + 2 * DIGITS
         + MARGIN)"

section \<open>Requests\<close>

record CreateVaultRequest =
  cv_challenge :: "string option"
  cv_nonce :: "nat option"
  cv_vault_id :: VaultId
  cv_owner_sign_pub :: Key32
  cv_owner_box_pub :: Key32
  cv_descriptor :: SignedDescriptor
  cv_owner_bundle :: SignedBundle

record RotatedVersion =
  old_name_hmac :: NameHmac
  rv_version :: nat
  rv_name_hmac :: NameHmac
  rv_name_ct :: B64
  rv_value_ct :: "B64 option"
  rv_written_at :: int
  rv_sig :: Sig64

record ResealedBundle =
  rb_token_id :: TokenId
  rb_bundle :: SignedBundle

record RotationRequest =
  from_generation :: u32
  from_revision :: nat
  rr_descriptor :: SignedDescriptor
  rr_owner_bundle :: SignedBundle
  rr_secrets :: "RotatedVersion list"
  rr_configs :: "RotatedVersion list"
  rr_tokens :: "ResealedBundle list"
  revoke :: "TokenId list"

record RegisterTokenRequest =
  rt_token_id :: TokenId
  rt_auth_pub :: Key32
  rt_box_pub :: Key32
  rt_scope :: Scope
  ttl_secs :: nat
  rt_allow_list :: "NameHmac list option"
  rt_generation :: u32
  rt_bundle :: SignedBundle

record ReportTokenRequest =
  rp_token_id :: TokenId
  rp_ts :: int
  rp_sig :: Sig64

record PutSecretRequest =
  ps_name_ct :: B64
  ps_value_ct :: B64
  ps_generation :: u32
  ps_version :: nat
  ps_written_at :: int
  ps_sig :: Sig64

record DeleteRecordRequest =
  dr_name_ct :: B64
  dr_generation :: u32
  dr_version :: nat
  dr_written_at :: int
  dr_sig :: Sig64

text \<open>The age v1 header every value ciphertext begins with.\<close>

definition AGE_HEADER :: bytes where
  "AGE_HEADER = str_bytes (''age-encryption.org/v1'' @ [CHR 0x0A])"

section \<open>Response bodies\<close>

record TokenSummary =
  ts_token_id :: TokenId
  ts_scope :: "Scope Tolerant"
  ts_created_at :: int
  ts_expires_at :: int
  ts_box_pub :: Key32
  ts_allow_list :: "NameHmac list option"

record VaultStatus =
  vs_vault_id :: VaultId
  vs_generation :: u32
  vs_revision :: nat
  vs_owner_sign_pub :: Key32
  vs_owner_box_pub :: Key32
  vs_descriptor :: SignedDescriptor
  vs_config_count :: u32
  vs_created_at :: int
  vs_last_active_at :: int
  vs_expires_at :: "int option"
  vs_bytes_used :: nat
  vs_limits :: Limits
  vs_tokens :: "TokenSummary list option"
  vs_owner_bundle :: "SignedBundle option"

record TokenSelf =
  me_token_id :: TokenId
  me_vault_id :: VaultId
  me_scope :: "Scope Tolerant"
  me_expires_at :: int
  me_allow_list :: "NameHmac list option"
  me_owner_sign_pub :: Key32
  me_descriptor :: SignedDescriptor
  me_bundle :: SignedBundle

record SecretListItem =
  si_name_hmac :: NameHmac
  si_name_ct :: B64
  si_version :: nat
  si_written_at :: int
  si_size :: u32
  si_tombstone :: bool
  si_generation :: u32
  si_value_ct_hash :: Hash32
  si_sig :: Sig64

record SecretVersion =
  sv_name_hmac :: NameHmac
  sv_version :: nat
  sv_name_ct :: B64
  sv_value_ct :: "B64 option"
  sv_generation :: u32
  sv_written_at :: int
  sv_written_by :: "Actor Tolerant"
  sv_tombstone :: bool
  sv_sig :: Sig64

record VersionMeta =
  vm_version :: nat
  vm_written_at :: int
  vm_written_by :: "Actor Tolerant"
  vm_size :: u32
  vm_tombstone :: bool
  vm_generation :: u32
  vm_value_ct_hash :: Hash32
  vm_name_ct_hash :: Hash32
  vm_sig :: Sig64

text \<open>The versions of the formats this build writes.\<close>

record Formats =
  fm_descriptor :: nat
  fm_bundle :: nat
  fm_envelope :: nat
  fm_children :: nat
  fm_audit_row :: nat
  fm_request_signature :: nat

definition CURRENT :: Formats where
  "CURRENT = \<lparr>fm_descriptor = unat DESCRIPTOR_VERSION, fm_bundle = 1, fm_envelope = 1, fm_children = 1,
     fm_audit_row = unat ROW_FORMAT, fm_request_signature = 1\<rparr>"

record Capabilities =
  cp_protocols :: "string list"
  cp_formats :: "Formats option"
  cp_proof_of_work :: "byte option"
  cp_idle_expiry_days :: "u32 option"
  cp_limits :: Limits
  cp_features :: "string list"
  cp_server :: "string option"

record ChallengeResponse =
  ch_challenge :: string
  ch_difficulty :: byte
  ch_expires_at :: int

datatype Body =
    ErrorBody ErrorCode string
  | CapabilitiesBody Capabilities
  | ChallengeBody ChallengeResponse
  | CreateVaultBody VaultId u32 "int option"
  | StatusBody VaultStatus
  | DescriptorList "SignedDescriptor list"
  | ChildrenBody ChildrenBlob
  | PutSecretBody nat
  | RotationBody u32
  | RevokeBody "TokenId list"
  | DeleteVaultBody VaultId
  | RegisterTokenBody TokenId int
  | TokenSelfBody TokenSelf
  | SecretList "SecretListItem list" "NameHmac option"
  | VersionBody SecretVersion
  | VersionList "VersionMeta list"
  | AuditPage "AuditRow list" "ChainHead option"

end
