(* ===== verification/Store_Db.thy ===== *)
theory Store_Db
  imports Api
begin

text \<open>
  The database behind \<open>SqliteStore\<close>: the tables of \<open>backend/schema.rs\<close> as lists of rows, the
  row and argument types of \<open>backend/mod.rs\<close>, the journal records of \<open>backend/journal.rs\<close>, and
  the statements and helpers of \<open>backend/sqlite.rs\<close> below the \<open>Store\<close> methods.

  An insert that would break a primary key or \<open>UNIQUE\<close> constraint fails with \<open>Exists\<close>, as
  \<open>From<rusqlite::Error>\<close> maps it. A foreign key is always satisfied where it is written: every
  insert follows a lookup of its vault in the same transaction. Deleting a vault cascades to
  every table that references it.
\<close>

section \<open>Rows and arguments\<close>

type_synonym VaultPk = nat

record Ctx =
  cx_actor :: Actor
  cx_now :: int

text \<open>A row of \<open>vaults\<close>, and what \<open>VAULT_SELECT\<close> makes of it with its descriptor joined in.\<close>

record VaultRec =
  v_pk :: VaultPk
  v_vault_id :: VaultId
  v_owner_sign_pub :: Key32
  v_owner_box_pub :: Key32
  v_owner_bundle :: SignedBundle
  v_generation :: u32
  v_revision :: nat
  v_created_at :: int
  v_last_active_at :: int
  v_bytes_used :: nat
  v_audit_seq :: nat
  v_audit_head :: Hash32

record VaultRow =
  pk :: VaultPk
  vr_vault_id :: VaultId
  owner_sign_pub :: Key32
  owner_box_pub :: Key32
  owner_bundle :: SignedBundle
  generation :: u32
  revision :: nat
  created_at :: int
  last_active_at :: int
  bytes_used :: nat
  vr_descriptor :: SignedDescriptor

record NewVault =
  nv_vault_id :: VaultId
  nv_owner_sign_pub :: Key32
  nv_owner_box_pub :: Key32
  nv_descriptor :: SignedDescriptor
  nv_owner_bundle :: SignedBundle

record DescriptorRec =
  de_pk :: VaultPk
  de_generation :: u32
  de_descriptor :: SignedDescriptor

record TokenRow =
  t_id :: TokenId
  t_vault_pk :: VaultPk
  t_auth_pub :: Key32
  t_box_pub :: Key32
  t_scope :: Scope
  t_created_at :: int
  t_expires_at :: int
  t_bundle :: SignedBundle
  t_generation :: u32
  t_allow_list :: "NameHmac list option"

record NewToken =
  nt_id :: TokenId
  nt_auth_pub :: Key32
  nt_box_pub :: Key32
  nt_scope :: Scope
  nt_expires_at :: int
  nt_bundle :: SignedBundle
  nt_generation :: u32
  nt_allow_list :: "NameHmac list option"

text \<open>A row of \<open>secrets\<close> or \<open>configs\<close>: the version row with its vault and stored hash.\<close>

record VersionRow =
  vn_name :: NameHmac
  vn_version :: nat
  vn_name_ct :: bytes
  vn_value_ct :: "bytes option"
  vn_generation :: u32
  vn_written_at :: int
  vn_written_by :: Actor
  vn_tombstone :: bool
  vn_sig :: Sig64

record VersionRec = VersionRow +
  vn_pk :: VaultPk
  vn_ct_hash :: Hash32

record HeadRec =
  h_pk :: VaultPk
  h_name :: NameHmac
  h_version :: nat
  h_tombstone :: bool

record HeadRow =
  hr_name :: NameHmac
  hr_name_ct :: bytes
  hr_version :: nat
  hr_written_at :: int
  hr_size :: u32
  hr_tombstone :: bool
  hr_generation :: u32
  hr_value_ct_hash :: Hash32
  hr_sig :: Sig64

datatype Precondition = IfNoneMatch | IfMatch nat

record RecordWrite =
  w_name_ct :: bytes
  w_value_ct :: "bytes option"
  w_generation :: u32
  w_version :: nat
  w_written_at :: int
  w_sig :: Sig64

datatype Quota = Names | ValueSize | VaultBytes | Tokens | Configs | ConfigSize

datatype SpentKind = Challenge | Nonce

datatype StoreError =
    NotFound
  | Exists
  | PreconditionFailed "nat option"
  | VersionMismatch nat nat
  | StaleGeneration
  | Conflict
  | IncompleteRotation string
  | QuotaExceeded Quota
  | Spent
  | Journal string
  | Database string

section \<open>Journal records\<close>

datatype JournalOp =
    RevokeTokens VaultId "TokenId list" Actor bool
  | Rotate VaultId Actor RotationRequest
  | DeleteVault VaultId

record JournalRecord =
  jr_seq :: nat
  jr_ts :: int
  jr_op :: JournalOp

text \<open>\<open>CommitHook\<close>: a stateful function of the record, which may fail.\<close>

type_synonym 'j hook = "JournalRecord \<Rightarrow> 'j \<Rightarrow> (string + unit) \<times> 'j"

section \<open>Tables and transactions\<close>

text \<open>\<open>secrets\<close> and \<open>configs\<close> are one field indexed by kind, like \<open>heads\<close> and \<open>config_heads\<close>:
  the source names the table by \<open>kind.records()\<close> and \<open>kind.heads()\<close>.\<close>

record db =
  vaults :: "VaultRec list"
  descriptors :: "DescriptorRec list"
  tokens :: "TokenRow list"
  records :: "RecordKind \<Rightarrow> VersionRec list"
  heads :: "RecordKind \<Rightarrow> HeadRec list"
  children :: "(VaultPk \<times> ChildrenBlob) list"
  audit :: "(VaultPk \<times> AuditRow) list"
  last_applied :: nat
  spent :: "(SpentKind \<times> bytes \<times> int) list"

definition empty_db :: db where
  "empty_db = \<lparr>vaults = [], descriptors = [], tokens = [], records = (\<lambda>_. []), heads = (\<lambda>_. []),
     children = [], audit = [], last_applied = 0, spent = []\<rparr>"

datatype 'a Done = Ok 'a | Refused StoreError

text \<open>\<open>write\<close>: both outcomes of \<open>Done\<close> commit, an error of the closure rolls back.\<close>

definition write_tx :: "(db \<Rightarrow> StoreError + 'a Done \<times> db) \<Rightarrow> db \<Rightarrow> (StoreError + 'a) \<times> db" where
  "write_tx f d = (case f d of
     Inl e \<Rightarrow> (Inl e, d)
   | Inr (Done.Ok a, d') \<Rightarrow> (Inr a, d')
   | Inr (Done.Refused e, d') \<Rightarrow> (Inl e, d'))"

text \<open>The same with a commit hook: its state survives a rollback.\<close>

definition write_hooked ::
    "(db \<Rightarrow> 'j \<Rightarrow> (StoreError + 'a Done \<times> db) \<times> 'j) \<Rightarrow> db \<Rightarrow> 'j \<Rightarrow> (StoreError + 'a) \<times> db \<times> 'j" where
  "write_hooked f d j = (let (r, j') = f d j; (x, d') = write_tx (\<lambda>_. r) d in (x, d', j'))"

section \<open>Per-kind tables, quotas and actions\<close>

fun put_action :: "RecordKind \<Rightarrow> AuditAction" where
  "put_action RecordKind.Secret = AuditAction.SecretPut"
| "put_action RecordKind.Config = AuditAction.ConfigWrite"

fun delete_action :: "RecordKind \<Rightarrow> AuditAction" where
  "delete_action RecordKind.Secret = AuditAction.SecretDelete"
| "delete_action RecordKind.Config = AuditAction.ConfigDelete"

fun max_value :: "RecordKind \<Rightarrow> Limits \<Rightarrow> nat" where
  "max_value RecordKind.Secret l = unat (max_value_bytes l)"
| "max_value RecordKind.Config l = unat (max_config_bytes l)"

fun max_live :: "RecordKind \<Rightarrow> Limits \<Rightarrow> nat" where
  "max_live RecordKind.Secret l = unat (max_names l)"
| "max_live RecordKind.Config l = unat (max_configs l)"

fun max_kind_versions :: "RecordKind \<Rightarrow> Limits \<Rightarrow> nat" where
  "max_kind_versions RecordKind.Secret l = unat (max_versions l)"
| "max_kind_versions RecordKind.Config l = unat (max_config_versions l)"

fun size_quota :: "RecordKind \<Rightarrow> Quota" where
  "size_quota RecordKind.Secret = ValueSize"
| "size_quota RecordKind.Config = ConfigSize"

fun live_quota :: "RecordKind \<Rightarrow> Quota" where
  "live_quota RecordKind.Secret = Names"
| "live_quota RecordKind.Config = Configs"

section \<open>Statements\<close>

text \<open>Every statement on a vault row updates the row with that primary key.\<close>

definition update_vault :: "VaultPk \<Rightarrow> (VaultRec \<Rightarrow> VaultRec) \<Rightarrow> db \<Rightarrow> db" where
  "update_vault p f d = d\<lparr>vaults := map (\<lambda>v. if v_pk v = p then f v else v) (vaults d)\<rparr>"

definition find_vault :: "VaultPk \<Rightarrow> db \<Rightarrow> VaultRec option" where
  "find_vault p d = find (\<lambda>v. v_pk v = p) (vaults d)"

definition find_descriptor :: "VaultPk \<Rightarrow> u32 \<Rightarrow> db \<Rightarrow> DescriptorRec option" where
  "find_descriptor p g d = find (\<lambda>x. de_pk x = p \<and> de_generation x = g) (descriptors d)"

text \<open>\<open>VAULT_SELECT\<close>: an inner join, so a vault without its generation's descriptor has no row.\<close>

definition vault_row :: "db \<Rightarrow> VaultRec \<Rightarrow> VaultRow option" where
  "vault_row d v = map_option (\<lambda>x.
     \<lparr>pk = v_pk v, vr_vault_id = v_vault_id v, owner_sign_pub = v_owner_sign_pub v,
      owner_box_pub = v_owner_box_pub v, owner_bundle = v_owner_bundle v,
      generation = v_generation v, revision = v_revision v, created_at = v_created_at v,
      last_active_at = v_last_active_at v, bytes_used = v_bytes_used v,
      vr_descriptor = de_descriptor x\<rparr>) (find_descriptor (v_pk v) (v_generation v) d)"

definition load_vault :: "db \<Rightarrow> VaultPk \<Rightarrow> VaultRow option" where
  "load_vault d p = Option.bind (find_vault p d) (vault_row d)"

definition load_vault_by_id :: "db \<Rightarrow> VaultId \<Rightarrow> VaultRow option" where
  "load_vault_by_id d i = Option.bind (find (\<lambda>v. v_vault_id v = i) (vaults d)) (vault_row d)"

definition load_head :: "db \<Rightarrow> RecordKind \<Rightarrow> VaultPk \<Rightarrow> NameHmac \<Rightarrow> (nat \<times> bool) option" where
  "load_head d k p n = map_option (\<lambda>h. (h_version h, h_tombstone h))
     (find (\<lambda>h. h_pk h = p \<and> h_name h = n) (heads d k))"

definition event :: "Actor \<Rightarrow> AuditAction \<Rightarrow> NameHmac option \<Rightarrow> TokenId option \<Rightarrow> AuditResult \<Rightarrow> AuditEvent" where
  "event actor action name subject result = (simple actor action name result)\<lparr>ev_subject := subject\<rparr>"

definition written :: "Actor \<Rightarrow> AuditAction \<Rightarrow> NameHmac option \<Rightarrow> nat \<Rightarrow> Hash32 option \<Rightarrow> AuditEvent" where
  "written actor action name version ct_hash =
     (simple actor action name AuditResult.Ok)\<lparr>ev_version := version, ev_ct_hash := ct_hash\<rparr>"

definition append_audit :: "crypto \<Rightarrow> VaultPk \<Rightarrow> AuditEvent \<Rightarrow> int \<Rightarrow> db \<Rightarrow> StoreError + db" where
  "append_audit c p e now d = (case find_vault p d of
     None \<Rightarrow> Inl (Database ''Query returned no rows'')
   | Some v \<Rightarrow>
       (let seq = v_audit_seq v + 1; row = from_event c (of_nat seq) now (v_audit_head v) e in
        if \<exists>x \<in> set (audit d). fst x = p \<and> row_seq (snd x) = row_seq row then Inl Exists
        else Inr (update_vault p (\<lambda>v. v\<lparr>v_audit_seq := seq, v_audit_head := row_hash row\<rparr>)
                    (d\<lparr>audit := audit d @ [(p, row)]\<rparr>))))"

definition bump_revision :: "VaultPk \<Rightarrow> db \<Rightarrow> db" where
  "bump_revision p d = update_vault p (\<lambda>v. v\<lparr>v_revision := v_revision v + 1\<rparr>) d"

text \<open>Allocate the next journal sequence, then hand the record to the hook.\<close>

definition journal :: "JournalOp \<Rightarrow> int \<Rightarrow> 'j hook \<Rightarrow> db \<Rightarrow> 'j \<Rightarrow> (StoreError + db) \<times> 'j" where
  "journal op now hook d j =
     (let record = \<lparr>jr_seq = last_applied d + 1, jr_ts = now, jr_op = op\<rparr>;
          (r, j') = hook record j
      in (map_err Journal (rbind r (\<lambda>_. Inr (d\<lparr>last_applied := jr_seq record\<rparr>))), j'))"

definition version_bytes :: "('a) VersionRow_scheme \<Rightarrow> nat" where
  "version_bytes r = length (vn_name_ct r) + (case vn_value_ct r of None \<Rightarrow> 0 | Some b \<Rightarrow> length b)"

definition versions_of :: "db \<Rightarrow> RecordKind \<Rightarrow> VaultPk \<Rightarrow> NameHmac \<Rightarrow> VersionRec list" where
  "versions_of d k p n = sort_key vn_version (filter (\<lambda>r. vn_pk r = p \<and> vn_name r = n) (records d k))"

definition prunable :: "db \<Rightarrow> RecordKind \<Rightarrow> VaultPk \<Rightarrow> NameHmac \<Rightarrow> nat \<Rightarrow> (nat \<times> nat) list" where
  "prunable d k p n max_v =
     (let all = map (\<lambda>r. (vn_version r, version_bytes r)) (versions_of d k p n);
          excess = (length all + 1) - max max_v 1
      in take excess all)"

definition value_hash :: "crypto \<Rightarrow> bytes option \<Rightarrow> Hash32" where
  "value_hash c value_ct = hash_sha256 c (case value_ct of None \<Rightarrow> [] | Some b \<Rightarrow> b)"

definition version_rec :: "crypto \<Rightarrow> VaultPk \<Rightarrow> VersionRow \<Rightarrow> VersionRec" where
  "version_rec c p r = VersionRow.extend (r\<lparr>vn_tombstone := (vn_value_ct r = None)\<rparr>)
     (VersionRec.fields p (value_hash c (vn_value_ct r)))"

definition insert_version ::
    "crypto \<Rightarrow> RecordKind \<Rightarrow> VaultPk \<Rightarrow> VersionRow \<Rightarrow> db \<Rightarrow> StoreError + db" where
  "insert_version c k p r d =
     (if \<exists>x \<in> set (records d k). vn_pk x = p \<and> vn_name x = vn_name r \<and> vn_version x = vn_version r
      then Inl Exists
      else Inr (d\<lparr>records := (records d)(k := records d k @ [version_rec c p r])\<rparr>))"

text \<open>\<open>INSERT ... ON CONFLICT (vault_pk, name_hmac) DO UPDATE\<close>.\<close>

definition upsert_head :: "VaultPk \<Rightarrow> NameHmac \<Rightarrow> nat \<Rightarrow> bool \<Rightarrow> HeadRec list \<Rightarrow> HeadRec list" where
  "upsert_head p n version tombstone hs =
     (let new = \<lparr>h_pk = p, h_name = n, h_version = version, h_tombstone = tombstone\<rparr> in
      if \<exists>h \<in> set hs. h_pk h = p \<and> h_name h = n
      then map (\<lambda>h. if h_pk h = p \<and> h_name h = n then new else h) hs
      else hs @ [new])"

definition set_head :: "RecordKind \<Rightarrow> VaultPk \<Rightarrow> NameHmac \<Rightarrow> nat \<Rightarrow> bool \<Rightarrow> db \<Rightarrow> db" where
  "set_head k p n version tombstone d =
     d\<lparr>heads := (heads d)(k := upsert_head p n version tombstone (heads d k))\<rparr>"

definition delete_versions :: "RecordKind \<Rightarrow> VaultPk \<Rightarrow> NameHmac \<Rightarrow> (nat \<times> nat) list \<Rightarrow> db \<Rightarrow> db" where
  "delete_versions k p n versions d =
     fold (\<lambda>(version, _) d. d\<lparr>records := (records d)(k :=
       filter (\<lambda>r. \<not> (vn_pk r = p \<and> vn_name r = n \<and> vn_version r = version)) (records d k))\<rparr>)
     versions d"

text \<open>Delete each named token of the vault; the ids that had a row come back, in order.\<close>

fun delete_tokens :: "VaultPk \<Rightarrow> TokenId list \<Rightarrow> db \<Rightarrow> TokenId list \<times> db" where
  "delete_tokens p [] d = ([], d)"
| "delete_tokens p (i # is) d =
     (let hit = (\<exists>t \<in> set (tokens d). t_vault_pk t = p \<and> t_id t = i);
          d' = d\<lparr>tokens := filter (\<lambda>t. \<not> (t_vault_pk t = p \<and> t_id t = i)) (tokens d)\<rparr>;
          (removed, d'') = delete_tokens p is d'
      in (if hit then i # removed else removed, d''))"

text \<open>\<open>ORDER BY created_at, token_id\<close>.\<close>

definition tokens_of :: "db \<Rightarrow> VaultPk \<Rightarrow> TokenRow list" where
  "tokens_of d p = sort_key (\<lambda>t. t_created_at t)
     (sort_key (\<lambda>t. t_id t) (filter (\<lambda>t. t_vault_pk t = p) (tokens d)))"

text \<open>\<open>ON DELETE CASCADE\<close>.\<close>

definition delete_vault_rows :: "VaultPk \<Rightarrow> db \<Rightarrow> db" where
  "delete_vault_rows p d = d\<lparr>
     vaults := filter (\<lambda>v. v_pk v \<noteq> p) (vaults d),
     descriptors := filter (\<lambda>x. de_pk x \<noteq> p) (descriptors d),
     tokens := filter (\<lambda>t. t_vault_pk t \<noteq> p) (tokens d),
     records := (\<lambda>k. filter (\<lambda>r. vn_pk r \<noteq> p) (records d k)),
     heads := (\<lambda>k. filter (\<lambda>h. h_pk h \<noteq> p) (heads d k)),
     children := filter (\<lambda>x. fst x \<noteq> p) (children d),
     audit := filter (\<lambda>x. fst x \<noteq> p) (audit d)\<rparr>"

end
