(* ===== verification/Store_Ops.thy ===== *)
theory Store_Ops
  imports Store_Db
begin

text \<open>
  The \<open>Store\<close> methods of \<open>SqliteStore\<close> (\<open>backend/sqlite.rs\<close>), each as the transaction it
  runs: vault creation, tokens, records, children, audit, rotation, deletion, single-use ids
  and journal replay. A write returns its result and the database after the commit or the
  rollback; a read returns its result.
\<close>

section \<open>Vaults\<close>

text \<open>\<open>INTEGER PRIMARY KEY\<close> without \<open>AUTOINCREMENT\<close>: one more than the largest key in use.\<close>

definition next_pk :: "db \<Rightarrow> VaultPk" where
  "next_pk d = Suc (fold max (map v_pk (vaults d)) 0)"

definition insert_descriptor :: "VaultPk \<Rightarrow> u32 \<Rightarrow> SignedDescriptor \<Rightarrow> db \<Rightarrow> StoreError + db" where
  "insert_descriptor p g sd d =
     (if find_descriptor p g d \<noteq> None then Inl Exists
      else Inr (d\<lparr>descriptors := descriptors d @ [\<lparr>de_pk = p, de_generation = g, de_descriptor = sd\<rparr>]\<rparr>))"

definition new_vault_rec :: "VaultPk \<Rightarrow> NewVault \<Rightarrow> int \<Rightarrow> VaultRec" where
  "new_vault_rec p v now =
     \<lparr>v_pk = p, v_vault_id = nv_vault_id v, v_owner_sign_pub = nv_owner_sign_pub v,
      v_owner_box_pub = nv_owner_box_pub v, v_owner_bundle = nv_owner_bundle v,
      v_generation = 1, v_revision = 1, v_created_at = now, v_last_active_at = now,
      v_bytes_used = 0, v_audit_seq = 0, v_audit_head = GENESIS\<rparr>"

definition create_vault :: "crypto \<Rightarrow> NewVault \<Rightarrow> int \<Rightarrow> db \<Rightarrow> (StoreError + VaultRow) \<times> db" where
  "create_vault c v now = write_tx (\<lambda>d.
     if \<exists>x \<in> set (vaults d). v_vault_id x = nv_vault_id v then Inr (Done.Refused Exists, d)
     else
       (let p = next_pk d; d1 = d\<lparr>vaults := vaults d @ [new_vault_rec p v now]\<rparr> in
        rbind (insert_descriptor p 1 (nv_descriptor v) d1) (\<lambda>d2.
        rbind (append_audit c p (written Actor.Owner AuditAction.VaultCreate None 0
                 (Some (hash_sha256 c (b64 (sd_descriptor (nv_descriptor v)))))) now d2) (\<lambda>d3.
        rbind (ok_or (load_vault d3 p) NotFound) (\<lambda>row. Inr (Done.Ok row, d3))))))"

definition TOUCH_GRANULARITY_SECS :: int where "TOUCH_GRANULARITY_SECS = 60"

definition touch :: "VaultPk \<Rightarrow> int \<Rightarrow> db \<Rightarrow> (StoreError + unit) \<times> db" where
  "touch p now d =
     (let stale = (case find_vault p d of
            None \<Rightarrow> False
          | Some v \<Rightarrow> v_last_active_at v < now - TOUCH_GRANULARITY_SECS)
      in if stale
         then write_tx (\<lambda>d. Inr (Done.Ok (),
           update_vault p (\<lambda>v. if v_last_active_at v < now then v\<lparr>v_last_active_at := now\<rparr> else v) d)) d
         else (Inr (), d))"

definition descriptors_after :: "db \<Rightarrow> VaultPk \<Rightarrow> u32 \<Rightarrow> SignedDescriptor list" where
  "descriptors_after d p after = map de_descriptor (sort_key de_generation
     (filter (\<lambda>x. de_pk x = p \<and> de_generation x > after) (descriptors d)))"

section \<open>Tokens\<close>

text \<open>The \<open>refuse\<close> closures: audit the refusal, commit it, and return the error.\<close>

definition refuse_with ::
    "crypto \<Rightarrow> VaultPk \<Rightarrow> AuditEvent \<Rightarrow> int \<Rightarrow> db \<Rightarrow> StoreError \<Rightarrow> StoreError + 'a Done \<times> db" where
  "refuse_with c p ev now d e = rbind (append_audit c p ev now d) (\<lambda>d'. Inr (Done.Refused e, d'))"

definition token_row_of :: "VaultPk \<Rightarrow> NewToken \<Rightarrow> int \<Rightarrow> TokenRow" where
  "token_row_of p t now =
     \<lparr>t_id = nt_id t, t_vault_pk = p, t_auth_pub = nt_auth_pub t, t_box_pub = nt_box_pub t,
      t_scope = nt_scope t, t_created_at = now, t_expires_at = nt_expires_at t,
      t_bundle = nt_bundle t, t_generation = nt_generation t, t_allow_list = nt_allow_list t\<rparr>"

definition active_tokens :: "db \<Rightarrow> VaultPk \<Rightarrow> int \<Rightarrow> nat" where
  "active_tokens d p now = length (filter (\<lambda>t. t_vault_pk t = p \<and> t_expires_at t > now) (tokens d))"

definition token_by_id :: "db \<Rightarrow> TokenId \<Rightarrow> TokenRow option" where
  "token_by_id d i = find (\<lambda>t. t_id t = i) (tokens d)"

definition register_token ::
    "crypto \<Rightarrow> VaultPk \<Rightarrow> NewToken \<Rightarrow> Ctx \<Rightarrow> Limits \<Rightarrow> db \<Rightarrow> (StoreError + TokenRow) \<times> db" where
  "register_token c p t ctx limits = write_tx (\<lambda>d.
     rbind (ok_or (load_vault d p) NotFound) (\<lambda>vault.
     let mint = (\<lambda>r. event (cx_actor ctx) AuditAction.TokenMint None (Some (nt_id t)) r);
         refuse = refuse_with c p (mint AuditResult.Refused) (cx_now ctx) d
     in if nt_generation t \<noteq> generation vault then refuse StaleGeneration
        else if unat (max_tokens limits) \<le> active_tokens d p (cx_now ctx)
        then refuse (QuotaExceeded Tokens)
        else if token_by_id d (nt_id t) \<noteq> None then Inl Exists
        else
          (let d1 = bump_revision p (d\<lparr>tokens := tokens d @ [token_row_of p t (cx_now ctx)]\<rparr>) in
           rbind (append_audit c p (mint AuditResult.Ok) (cx_now ctx) d1) (\<lambda>d2.
           rbind (ok_or (token_by_id d2 (nt_id t)) (Database ''Query returned no rows'')) (\<lambda>row.
             Inr (Done.Ok row, d2))))))"

text \<open>One audit row per token, in order.\<close>

fun audit_each :: "crypto \<Rightarrow> VaultPk \<Rightarrow> Actor \<Rightarrow> AuditAction \<Rightarrow> int \<Rightarrow> TokenId list \<Rightarrow> db \<Rightarrow> StoreError + db" where
  "audit_each c p actor action now [] d = Inr d"
| "audit_each c p actor action now (i # is) d =
     rbind (append_audit c p (event actor action None (Some i) AuditResult.Ok) now d)
       (audit_each c p actor action now is)"

definition revoke_action :: "bool \<Rightarrow> AuditAction" where
  "revoke_action reported = (if reported then AuditAction.TokenReport else AuditAction.TokenRevoke)"

definition revoke_tokens :: "crypto \<Rightarrow> VaultPk \<Rightarrow> TokenId list \<Rightarrow> bool \<Rightarrow> Ctx \<Rightarrow> 'j hook
    \<Rightarrow> db \<Rightarrow> 'j \<Rightarrow> (StoreError + TokenId list) \<times> db \<times> 'j" where
  "revoke_tokens c p ids reported ctx hook = write_hooked (\<lambda>d j.
     case load_vault d p of
       None \<Rightarrow> (Inl NotFound, j)
     | Some vault \<Rightarrow>
         (let (removed, d1) = delete_tokens p ids d in
          if removed = [] then (Inl NotFound, j)
          else
            (case audit_each c p (cx_actor ctx) (revoke_action reported) (cx_now ctx) removed
                    (bump_revision p d1) of
               Inl e \<Rightarrow> (Inl e, j)
             | Inr d2 \<Rightarrow>
                 (let (r, j') = journal (RevokeTokens (vr_vault_id vault) removed (cx_actor ctx) reported)
                        (cx_now ctx) hook d2 j
                  in (rbind r (\<lambda>d3. Inr (Done.Ok removed, d3)), j')))))"

section \<open>Records\<close>

definition head_row :: "HeadRec \<Rightarrow> VersionRec \<Rightarrow> HeadRow" where
  "head_row h s =
     \<lparr>hr_name = h_name h, hr_name_ct = vn_name_ct s, hr_version = h_version h,
      hr_written_at = vn_written_at s,
      hr_size = of_nat (case vn_value_ct s of None \<Rightarrow> 0 | Some b \<Rightarrow> length b),
      hr_tombstone = h_tombstone h, hr_generation = vn_generation s,
      hr_value_ct_hash = vn_ct_hash s, hr_sig = vn_sig s\<rparr>"

definition list_records ::
    "db \<Rightarrow> VaultPk \<Rightarrow> RecordKind \<Rightarrow> NameHmac option \<Rightarrow> nat \<Rightarrow> HeadRow list" where
  "list_records d p k after limit = take limit (sort_key hr_name
     (concat (map (\<lambda>h. map (head_row h) (filter (\<lambda>s. vn_pk s = h_pk h \<and> vn_name s = h_name h
          \<and> vn_version s = h_version h) (records d k)))
       (filter (\<lambda>h. h_pk h = p \<and> (case after of None \<Rightarrow> True | Some a \<Rightarrow> h_name h > a)) (heads d k)))))"

definition record_version ::
    "db \<Rightarrow> VaultPk \<Rightarrow> RecordKind \<Rightarrow> NameHmac \<Rightarrow> nat \<Rightarrow> VersionRow option" where
  "record_version d p k n version = map_option VersionRow.truncate
     (find (\<lambda>r. vn_pk r = p \<and> vn_name r = n \<and> vn_version r = version) (records d k))"

definition latest_record :: "db \<Rightarrow> VaultPk \<Rightarrow> RecordKind \<Rightarrow> NameHmac \<Rightarrow> VersionRow option" where
  "latest_record d p k n = (case load_head d k p n of
     None \<Rightarrow> None
   | Some (current, _) \<Rightarrow> record_version d p k n current)"

definition record_versions :: "db \<Rightarrow> VaultPk \<Rightarrow> RecordKind \<Rightarrow> NameHmac \<Rightarrow> VersionRow list" where
  "record_versions d p k n = map VersionRow.truncate (versions_of d k p n)"

definition all_record_versions :: "db \<Rightarrow> VaultPk \<Rightarrow> RecordKind \<Rightarrow> VersionRow list" where
  "all_record_versions d p k = map VersionRow.truncate (sort_key vn_name (sort_key vn_version
     (filter (\<lambda>r. vn_pk r = p) (records d k))))"

definition live_records :: "db \<Rightarrow> VaultPk \<Rightarrow> RecordKind \<Rightarrow> nat" where
  "live_records d p k = length (filter (\<lambda>h. h_pk h = p \<and> \<not> h_tombstone h) (heads d k))"

definition version_of_write :: "NameHmac \<Rightarrow> nat \<Rightarrow> RecordWrite \<Rightarrow> Actor \<Rightarrow> VersionRow" where
  "version_of_write n version w actor =
     \<lparr>vn_name = n, vn_version = version, vn_name_ct = w_name_ct w, vn_value_ct = w_value_ct w,
      vn_generation = w_generation w, vn_written_at = w_written_at w, vn_written_by = actor,
      vn_tombstone = (w_value_ct w = None), vn_sig = w_sig w\<rparr>"

text \<open>The version a precondition assigns against the current head, or the refusal.\<close>

fun next_version :: "Precondition \<Rightarrow> (nat \<times> bool) option \<Rightarrow> StoreError + nat" where
  "next_version IfNoneMatch None = Inr 1"
| "next_version IfNoneMatch (Some (v, True)) = Inr (v + 1)"
| "next_version (IfMatch x) (Some (v, False)) =
     (if x = v then Inr (v + 1) else Inl (PreconditionFailed (Some v)))"
| "next_version _ current = Inl (PreconditionFailed (map_option fst current))"

text \<open>\<open>vault.bytes_used + added - freed\<close> in \<open>u64\<close>: a release build wraps when the subtraction
  underflows. The sum is a number of stored bytes and stays far below \<open>2 ^ 64\<close>.\<close>

definition u64_total :: "nat \<Rightarrow> nat \<Rightarrow> nat \<Rightarrow> nat" where
  "u64_total used added freed =
     (if freed \<le> used + added then used + added - freed else used + added + 2 ^ 64 - freed)"

definition freed_bytes :: "(nat \<times> nat) list \<Rightarrow> nat" where
  "freed_bytes pruned = sum_list (map snd pruned)"

text \<open>The guards of \<open>put_record\<close> in order, each an early \<open>return refuse(..)\<close>; past them, the
  version to write, the versions to prune and the new byte total.\<close>

definition put_guards :: "RecordKind \<Rightarrow> VaultPk \<Rightarrow> NameHmac \<Rightarrow> Precondition \<Rightarrow> RecordWrite \<Rightarrow> bytes
    \<Rightarrow> Limits \<Rightarrow> VaultRow \<Rightarrow> db \<Rightarrow> StoreError + nat \<times> (nat \<times> nat) list \<times> nat" where
  "put_guards k p n pre w value_ct limits vault d =
     (if w_generation w \<noteq> generation vault then Inl StaleGeneration
      else if length value_ct > max_value k limits then Inl (QuotaExceeded (size_quota k))
      else
        (let head = load_head d k p n in
         rbind (next_version pre head) (\<lambda>next.
         if w_version w \<noteq> next then Inl (VersionMismatch (w_version w) next)
         else if (case head of None \<Rightarrow> True | Some (_, tombstone) \<Rightarrow> tombstone)
            \<and> max_live k limits \<le> live_records d p k
         then Inl (QuotaExceeded (live_quota k))
         else
           (let pruned = prunable d k p n (max_kind_versions k limits);
                used = u64_total (bytes_used vault) (length (w_name_ct w) + length value_ct)
                  (freed_bytes pruned)
            in if used > unat (max_vault_bytes limits) then Inl (QuotaExceeded VaultBytes)
               else Inr (next, pruned, used)))))"

text \<open>The writes that follow: insert the version, move the head, prune, account, audit.\<close>

definition write_version :: "crypto \<Rightarrow> RecordKind \<Rightarrow> VaultPk \<Rightarrow> VersionRow \<Rightarrow> (nat \<times> nat) list \<Rightarrow> nat
    \<Rightarrow> AuditEvent \<Rightarrow> int \<Rightarrow> db \<Rightarrow> StoreError + db" where
  "write_version c k p r pruned used ev now d =
     rbind (insert_version c k p r d) (\<lambda>d1.
     let d2 = delete_versions k p (vn_name r) pruned
           (set_head k p (vn_name r) (vn_version r) (vn_value_ct r = None) d1);
         d3 = update_vault p (\<lambda>v. v\<lparr>v_bytes_used := used, v_revision := v_revision v + 1\<rparr>) d2
     in append_audit c p ev now d3)"

definition put_record :: "crypto \<Rightarrow> VaultPk \<Rightarrow> RecordKind \<Rightarrow> NameHmac \<Rightarrow> Precondition \<Rightarrow> RecordWrite
    \<Rightarrow> Ctx \<Rightarrow> Limits \<Rightarrow> db \<Rightarrow> (StoreError + nat) \<times> db" where
  "put_record c p k n pre w ctx limits d0 =
     (case w_value_ct w of
        None \<Rightarrow> (Inl (Database ''a put needs a value; a tombstone is a delete''), d0)
      | Some value_ct \<Rightarrow> write_tx (\<lambda>d.
          rbind (ok_or (load_vault d p) NotFound) (\<lambda>vault.
          case put_guards k p n pre w value_ct limits vault d of
            Inl e \<Rightarrow> refuse_with c p
              (event (cx_actor ctx) (put_action k) (Some n) None AuditResult.Refused) (cx_now ctx) d e
          | Inr (next, pruned, used) \<Rightarrow>
              rbind (write_version c k p (version_of_write n next w (cx_actor ctx)) pruned used
                       (written (cx_actor ctx) (put_action k) (Some n) next
                          (Some (hash_sha256 c value_ct))) (cx_now ctx) d) (\<lambda>d'.
              Inr (Done.Ok next, d')))) d0)"

text \<open>\<open>delete_record\<close>: an absent or deleted name is an error that rolls back, before the guards
  that audit a refusal.\<close>

definition delete_guards :: "RecordKind \<Rightarrow> VaultPk \<Rightarrow> NameHmac \<Rightarrow> nat \<Rightarrow> nat \<Rightarrow> RecordWrite
    \<Rightarrow> Limits \<Rightarrow> VaultRow \<Rightarrow> db \<Rightarrow> StoreError + nat \<times> (nat \<times> nat) list \<times> nat" where
  "delete_guards k p n current if_match w limits vault d =
     (if w_generation w \<noteq> generation vault then Inl StaleGeneration
      else if if_match \<noteq> current then Inl (PreconditionFailed (Some current))
      else if w_version w \<noteq> current + 1 then Inl (VersionMismatch (w_version w) (current + 1))
      else
        (let pruned = prunable d k p n (max_kind_versions k limits) in
         Inr (current + 1, pruned, (bytes_used vault + length (w_name_ct w)) - freed_bytes pruned)))"

definition delete_record :: "crypto \<Rightarrow> VaultPk \<Rightarrow> RecordKind \<Rightarrow> NameHmac \<Rightarrow> nat \<Rightarrow> RecordWrite
    \<Rightarrow> Ctx \<Rightarrow> Limits \<Rightarrow> db \<Rightarrow> (StoreError + nat) \<times> db" where
  "delete_record c p k n if_match w ctx limits d0 =
     (if w_value_ct w \<noteq> None
      then (Inl (Database ''a delete writes a tombstone, with no value''), d0)
      else write_tx (\<lambda>d.
          rbind (ok_or (load_vault d p) NotFound) (\<lambda>vault.
          case load_head d k p n of
            None \<Rightarrow> Inl NotFound
          | Some (current, True) \<Rightarrow> Inl NotFound
          | Some (current, False) \<Rightarrow>
              (case delete_guards k p n current if_match w limits vault d of
                 Inl e \<Rightarrow> refuse_with c p
                   (event (cx_actor ctx) (delete_action k) (Some n) None AuditResult.Refused) (cx_now ctx) d e
               | Inr (next, pruned, used) \<Rightarrow>
                   rbind (write_version c k p (version_of_write n next w (cx_actor ctx)) pruned used
                            (written (cx_actor ctx) (delete_action k) (Some n) next None) (cx_now ctx) d) (\<lambda>d'.
                   Inr (Done.Ok next, d'))))) d0)"

section \<open>Children\<close>

definition get_children :: "db \<Rightarrow> VaultPk \<Rightarrow> ChildrenBlob option" where
  "get_children d p = map_option snd (find (\<lambda>x. fst x = p) (children d))"

fun next_children :: "Precondition \<Rightarrow> nat option \<Rightarrow> StoreError + nat" where
  "next_children IfNoneMatch None = Inr 1"
| "next_children (IfMatch x) (Some v) =
     (if x = v then Inr (v + 1) else Inl (PreconditionFailed (Some v)))"
| "next_children _ current = Inl (PreconditionFailed current)"

definition upsert_children :: "VaultPk \<Rightarrow> ChildrenBlob \<Rightarrow> db \<Rightarrow> db" where
  "upsert_children p blob d = d\<lparr>children :=
     (if \<exists>x \<in> set (children d). fst x = p
      then map (\<lambda>x. if fst x = p then (p, blob) else x) (children d)
      else children d @ [(p, blob)])\<rparr>"

definition put_children ::
    "crypto \<Rightarrow> VaultPk \<Rightarrow> Precondition \<Rightarrow> ChildrenBlob \<Rightarrow> Ctx \<Rightarrow> Limits \<Rightarrow> db \<Rightarrow> (StoreError + nat) \<times> db" where
  "put_children c p pre blob ctx limits = write_tx (\<lambda>d.
     if load_vault d p = None then Inl NotFound
     else
       (let refuse = refuse_with c p
              (event (cx_actor ctx) AuditAction.ChildrenWrite None None AuditResult.Refused) (cx_now ctx) d
        in if length (b64 (cb_ct blob)) > unat (max_config_bytes limits)
           then refuse (QuotaExceeded ValueSize)
           else (case next_children pre (map_option cb_version (get_children d p)) of
               Inl e \<Rightarrow> refuse e
             | Inr next \<Rightarrow>
                 if cb_version blob \<noteq> next then refuse (VersionMismatch (cb_version blob) next)
                 else
                   rbind (append_audit c p (written (cx_actor ctx) AuditAction.ChildrenWrite None next
                            (Some (hash_sha256 c (b64 (cb_ct blob))))) (cx_now ctx)
                          (upsert_children p (blob\<lparr>cb_version := next\<rparr>) d)) (\<lambda>d1.
                   Inr (Done.Ok next, d1)))))"

section \<open>Audit and single-use ids\<close>

definition record_event :: "crypto \<Rightarrow> VaultPk \<Rightarrow> AuditEvent \<Rightarrow> int \<Rightarrow> db \<Rightarrow> (StoreError + unit) \<times> db" where
  "record_event c p e now = write_tx (\<lambda>d.
     if find_vault p d = None then Inl NotFound
     else rbind (append_audit c p e now d) (\<lambda>d1. Inr (Done.Ok (), d1)))"

text \<open>\<open>seq > ?2\<close> compares the stored \<open>i64\<close> with \<open>after as i64\<close>.\<close>

definition audit_rows :: "db \<Rightarrow> VaultPk \<Rightarrow> AuditRow list" where
  "audit_rows d p = sort_key (\<lambda>r. sint (row_seq r)) (map snd (filter (\<lambda>x. fst x = p) (audit d)))"

definition audit_head :: "db \<Rightarrow> VaultPk \<Rightarrow> ChainHead option" where
  "audit_head d p = (case find_vault p d of
     None \<Rightarrow> None
   | Some v \<Rightarrow> if v_audit_seq v > 0
       then Some \<lparr>ch_seq = of_nat (v_audit_seq v), ch_hash = v_audit_head v\<rparr> else None)"

definition audit_after :: "db \<Rightarrow> VaultPk \<Rightarrow> u64 \<Rightarrow> nat \<Rightarrow> AuditRow list \<times> ChainHead option" where
  "audit_after d p after limit =
     (take limit (filter (\<lambda>r. sint (row_seq r) > sint after) (audit_rows d p)), audit_head d p)"

definition spend :: "SpentKind \<Rightarrow> bytes \<Rightarrow> int \<Rightarrow> int \<Rightarrow> db \<Rightarrow> (StoreError + unit) \<times> db" where
  "spend k i expires_at now = write_tx (\<lambda>d.
     let rest = filter (\<lambda>(_, _, e). \<not> e < now) (spent d); d1 = d\<lparr>spent := rest\<rparr> in
     if \<exists>(k', i', _) \<in> set rest. k' = k \<and> i' = i then Inr (Done.Refused Spent, d1)
     else Inr (Done.Ok (), d\<lparr>spent := rest @ [(k, i, expires_at)]\<rparr>))"

section \<open>Rotation\<close>

text \<open>Write time, writer and tombstone flag of every stored version of one kind.\<close>

type_synonym meta = "(NameHmac \<times> nat) \<rightharpoonup> (int \<times> Actor \<times> bool)"

definition version_meta_list :: "db \<Rightarrow> RecordKind \<Rightarrow> VaultPk \<Rightarrow> ((NameHmac \<times> nat) \<times> (int \<times> Actor \<times> bool)) list" where
  "version_meta_list d k p =
     map (\<lambda>r. ((vn_name r, vn_version r), (vn_written_at r, vn_written_by r, vn_tombstone r)))
       (filter (\<lambda>r. vn_pk r = p) (records d k))"

definition check_complete ::
    "RotatedVersion list \<Rightarrow> ((NameHmac \<times> nat) \<times> (int \<times> Actor \<times> bool)) list \<Rightarrow> StoreError + unit" where
  "check_complete batch rows =
     (let keys = map (\<lambda>s. (old_name_hmac s, rv_version s)) batch; meta = map_of rows in
      if \<not> distinct keys \<or> set keys \<noteq> set (map fst rows)
      then Inl (IncompleteRotation ''every retained version must be re-encrypted exactly once'')
      else if \<exists>s \<in> set batch. snd (snd (the (meta (old_name_hmac s, rv_version s)))) \<noteq> (rv_value_ct s = None)
      then Inl (IncompleteRotation ''tombstones must stay tombstones'')
      else if \<exists>s \<in> set batch. fst (the (meta (old_name_hmac s, rv_version s))) \<noteq> rv_written_at s
      then Inl (IncompleteRotation ''every version must keep its write time'')
      else Inr ())"

definition rewritten ::
    "RotatedVersion list \<Rightarrow> meta \<Rightarrow> u32 \<Rightarrow> Ctx \<Rightarrow> StoreError + VersionRow list" where
  "rewritten batch meta g ctx =
     (if \<not> distinct (map (\<lambda>s. (rv_name_hmac s, rv_version s)) batch)
      then Inl (IncompleteRotation ''two versions map to the same new name'')
      else Inr (map (\<lambda>s.
        \<lparr>vn_name = rv_name_hmac s, vn_version = rv_version s, vn_name_ct = b64 (rv_name_ct s),
         vn_value_ct = map_option b64 (rv_value_ct s), vn_generation = g,
         vn_written_at = rv_written_at s,
         vn_written_by = (case meta (old_name_hmac s, rv_version s) of
            None \<Rightarrow> cx_actor ctx | Some m \<Rightarrow> fst (snd m)),
         vn_tombstone = (rv_value_ct s = None), vn_sig = rv_sig s\<rparr>) batch))"

text \<open>The loop of \<open>replace_records\<close>: insert every row, and keep the newest version per name.\<close>

definition note_head :: "VersionRow \<Rightarrow> (NameHmac \<times> nat \<times> bool) list \<Rightarrow> (NameHmac \<times> nat \<times> bool) list" where
  "note_head r hs = (case map_of hs (vn_name r) of
     None \<Rightarrow> hs @ [(vn_name r, vn_version r, vn_value_ct r = None)]
   | Some (v, _) \<Rightarrow>
       if v \<le> vn_version r
       then map (\<lambda>h. if fst h = vn_name r then (vn_name r, vn_version r, vn_value_ct r = None) else h) hs
       else hs)"

fun replace_loop :: "crypto \<Rightarrow> RecordKind \<Rightarrow> VaultPk \<Rightarrow> VersionRow list
    \<Rightarrow> (NameHmac \<times> nat \<times> bool) list \<Rightarrow> nat \<Rightarrow> db \<Rightarrow> StoreError + (NameHmac \<times> nat \<times> bool) list \<times> nat \<times> db" where
  "replace_loop c k p [] hs bytes d = Inr (hs, bytes, d)"
| "replace_loop c k p (r # rs) hs bytes d =
     rbind (insert_version c k p r d)
       (replace_loop c k p rs (note_head r hs) (bytes + version_bytes r))"

definition replace_records ::
    "crypto \<Rightarrow> RecordKind \<Rightarrow> VaultPk \<Rightarrow> VersionRow list \<Rightarrow> db \<Rightarrow> StoreError + nat \<times> db" where
  "replace_records c k p rows d =
     (let d1 = d\<lparr>heads := (heads d)(k := filter (\<lambda>h. h_pk h \<noteq> p) (heads d k)),
                 records := (records d)(k := filter (\<lambda>r. vn_pk r \<noteq> p) (records d k))\<rparr> in
      rbind (replace_loop c k p rows [] 0 d1) (\<lambda>(hs, bytes, d2).
      Inr (bytes, fold (\<lambda>(n, version, tombstone). set_head k p n version tombstone) hs d2)))"

definition reseal_tokens :: "VaultPk \<Rightarrow> u32 \<Rightarrow> ResealedBundle list \<Rightarrow> db \<Rightarrow> db" where
  "reseal_tokens p g bundles d = fold (\<lambda>b d. d\<lparr>tokens := map (\<lambda>t.
     if t_vault_pk t = p \<and> t_id t = rb_token_id b
     then t\<lparr>t_bundle := rb_bundle b, t_generation := g\<rparr> else t) (tokens d)\<rparr>) bundles d"

text \<open>The checks of the live path (\<open>strict\<close>).\<close>

definition check_rotation :: "db \<Rightarrow> VaultRow \<Rightarrow> RotationRequest \<Rightarrow> StoreError + unit" where
  "check_rotation d vault r =
     (let p = pk vault; existing = map t_id (tokens_of d p) in
      if generation vault \<noteq> from_generation r \<or> revision vault \<noteq> from_revision r then Inl Conflict
      else
        rbind (check_complete (rr_secrets r) (version_meta_list d RecordKind.Secret p)) (\<lambda>_.
        rbind (check_complete (rr_configs r) (version_meta_list d RecordKind.Config p)) (\<lambda>_.
        if \<not> set (revoke r) \<subseteq> set existing
        then Inl (IncompleteRotation ''revoke names a token not in this vault'')
        else if \<not> distinct (map rb_token_id (rr_tokens r))
           \<or> set (map rb_token_id (rr_tokens r)) \<noteq> set existing - set (revoke r)
        then Inl (IncompleteRotation ''every surviving token needs exactly one resealed bundle'')
        else Inr ())))"

text \<open>\<open>INSERT INTO descriptors ... ON CONFLICT DO NOTHING\<close>.\<close>

definition add_descriptor :: "VaultPk \<Rightarrow> u32 \<Rightarrow> SignedDescriptor \<Rightarrow> db \<Rightarrow> db" where
  "add_descriptor p g sd d = (case insert_descriptor p g sd d of Inl _ \<Rightarrow> d | Inr d' \<Rightarrow> d')"

text \<open>After the records are replaced: descriptor, tokens, the vault row and the audit rows.\<close>

definition finish_rotation ::
    "crypto \<Rightarrow> VaultPk \<Rightarrow> u32 \<Rightarrow> RotationRequest \<Rightarrow> nat \<Rightarrow> Ctx \<Rightarrow> db \<Rightarrow> StoreError + u32 \<times> db" where
  "finish_rotation c p g r used ctx d =
     (let (revoked, d1) = delete_tokens p (revoke r) (add_descriptor p g (rr_descriptor r) d);
          d2 = update_vault p (\<lambda>v. v\<lparr>v_generation := g, v_owner_bundle := rr_owner_bundle r,
                 v_bytes_used := used, v_revision := v_revision v + 1\<rparr>)
               (reseal_tokens p g (rr_tokens r) d1)
      in rbind (append_audit c p (written (cx_actor ctx) AuditAction.VaultRotate None 0
                  (Some (hash_sha256 c (b64 (sd_descriptor (rr_descriptor r)))))) (cx_now ctx) d2) (\<lambda>d3.
         rbind (audit_each c p (cx_actor ctx) AuditAction.TokenRevoke (cx_now ctx) revoked d3) (\<lambda>d4.
         Inr (g, d4))))"

definition apply_batch :: "crypto \<Rightarrow> VaultRow \<Rightarrow> RotationRequest \<Rightarrow> Ctx \<Rightarrow> db \<Rightarrow> StoreError + u32 \<times> db" where
  "apply_batch c vault r ctx d =
     (let p = pk vault; g = from_generation r + 1;
          meta = map_of (version_meta_list d RecordKind.Secret p);
          config_meta = map_of (version_meta_list d RecordKind.Config p)
      in rbind (rewritten (rr_secrets r) meta g ctx) (\<lambda>secret_rows.
         rbind (rewritten (rr_configs r) config_meta g ctx) (\<lambda>config_rows.
         rbind (replace_records c RecordKind.Secret p secret_rows d) (\<lambda>(b1, d1).
         rbind (replace_records c RecordKind.Config p config_rows d1) (\<lambda>(b2, d2).
         finish_rotation c p g r (b1 + b2) ctx d2)))))"

definition rotate :: "crypto \<Rightarrow> VaultRow \<Rightarrow> RotationRequest \<Rightarrow> Ctx \<Rightarrow> bool \<Rightarrow> db \<Rightarrow> StoreError + u32 \<times> db" where
  "rotate c vault r ctx strict d =
     (if strict then rbind (check_rotation d vault r) (\<lambda>_. apply_batch c vault r ctx d)
      else if generation vault > from_generation r then Inr (generation vault, d)
      else apply_batch c vault r ctx d)"

definition apply_rotation :: "crypto \<Rightarrow> VaultPk \<Rightarrow> RotationRequest \<Rightarrow> Ctx \<Rightarrow> 'j hook
    \<Rightarrow> db \<Rightarrow> 'j \<Rightarrow> (StoreError + u32) \<times> db \<times> 'j" where
  "apply_rotation c p r ctx hook = write_hooked (\<lambda>d j.
     case load_vault d p of
       None \<Rightarrow> (Inl NotFound, j)
     | Some vault \<Rightarrow>
         (case rotate c vault r ctx True d of
            Inl e \<Rightarrow> (Inl e, j)
          | Inr (g, d1) \<Rightarrow>
              (let (res, j') = journal (Rotate (vr_vault_id vault) (cx_actor ctx) r) (cx_now ctx) hook d1 j
               in (rbind res (\<lambda>d2. Inr (Done.Ok g, d2)), j'))))"

section \<open>Deletion and replay\<close>

definition delete_vault :: "VaultPk \<Rightarrow> int \<Rightarrow> 'j hook \<Rightarrow> db \<Rightarrow> 'j \<Rightarrow> (StoreError + unit) \<times> db \<times> 'j" where
  "delete_vault p now hook = write_hooked (\<lambda>d j.
     case load_vault d p of
       None \<Rightarrow> (Inl NotFound, j)
     | Some vault \<Rightarrow>
         (let (res, j') = journal (DeleteVault (vr_vault_id vault)) now hook (delete_vault_rows p d) j
          in (rbind res (\<lambda>d1. Inr (Done.Ok (), d1)), j')))"

definition replay_op :: "crypto \<Rightarrow> int \<Rightarrow> JournalOp \<Rightarrow> db \<Rightarrow> StoreError + bool \<times> db" where
  "replay_op c ts op d = (case op of
     RevokeTokens vault_id token_ids actor reported \<Rightarrow>
       (case load_vault_by_id d vault_id of
          None \<Rightarrow> Inr (False, d)
        | Some vault \<Rightarrow>
            (let (removed, d1) = delete_tokens (pk vault) token_ids d in
             rbind (audit_each c (pk vault) actor (revoke_action reported) ts removed d1) (\<lambda>d2.
             Inr (removed \<noteq> [], if removed \<noteq> [] then bump_revision (pk vault) d2 else d2))))
   | Rotate vault_id actor request \<Rightarrow>
       (case load_vault_by_id d vault_id of
          None \<Rightarrow> Inr (False, d)
        | Some vault \<Rightarrow>
            if generation vault = from_generation request
            then rbind (rotate c vault request \<lparr>cx_actor = actor, cx_now = ts\<rparr> False d) (\<lambda>(_, d1).
                   Inr (True, d1))
            else Inr (False, d))
   | DeleteVault vault_id \<Rightarrow>
       (case find (\<lambda>v. v_vault_id v = vault_id) (vaults d) of
          None \<Rightarrow> Inr (False, d)
        | Some v \<Rightarrow> Inr (True, delete_vault_rows (v_pk v) d)))"

definition replay :: "crypto \<Rightarrow> JournalRecord \<Rightarrow> db \<Rightarrow> (StoreError + bool) \<times> db" where
  "replay c record = write_tx (\<lambda>d.
     if jr_seq record \<le> last_applied d then Inr (Done.Ok False, d)
     else rbind (replay_op c (jr_ts record) (jr_op record) d) (\<lambda>(applied, d1).
       Inr (Done.Ok applied, d1\<lparr>last_applied := jr_seq record\<rparr>)))"

end
