(* ===== verification/Store_Inv.thy ===== *)
theory Store_Inv
  imports Store_Ops "HOL-Library.Multiset"
begin

text \<open>
  The invariant of the database and the lemmas that every statement and every \<open>Store\<close> method
  keeps it: keys are unique, references point to a vault, each head is the newest version of
  its name, the byte counter is the sum of the stored bytes, and each vault's audit rows form
  the chain that ends in its stored head.
\<close>

section \<open>What each statement changes\<close>

named_theorems frame_simps \<open>the fields a statement leaves alone\<close>

lemma update_vault_frame [frame_simps, simp]:
  "descriptors (update_vault p f d) = descriptors d" "tokens (update_vault p f d) = tokens d"
  "records (update_vault p f d) = records d" "heads (update_vault p f d) = heads d"
  "children (update_vault p f d) = children d" "audit (update_vault p f d) = audit d"
  "last_applied (update_vault p f d) = last_applied d" "spent (update_vault p f d) = spent d"
  by (simp_all add: update_vault_def)

lemma bump_revision_frame [frame_simps, simp]:
  "descriptors (bump_revision p d) = descriptors d" "tokens (bump_revision p d) = tokens d"
  "records (bump_revision p d) = records d" "heads (bump_revision p d) = heads d"
  "children (bump_revision p d) = children d" "audit (bump_revision p d) = audit d"
  "last_applied (bump_revision p d) = last_applied d" "spent (bump_revision p d) = spent d"
  by (simp_all add: bump_revision_def)

lemma vaults_update_vault: "vaults (update_vault p f d) = map (\<lambda>v. if v_pk v = p then f v else v) (vaults d)"
  by (simp add: update_vault_def)

text \<open>\<open>audit_only d d'\<close>: nothing but audit rows and the audit heads of vaults differ.\<close>

definition unaudited :: "VaultRec \<Rightarrow> VaultRec" where
  "unaudited v = v\<lparr>v_audit_seq := 0, v_audit_head := GENESIS\<rparr>"

definition audit_only :: "db \<Rightarrow> db \<Rightarrow> bool" where
  "audit_only d d' \<longleftrightarrow> descriptors d' = descriptors d \<and> tokens d' = tokens d \<and> records d' = records d
     \<and> heads d' = heads d \<and> children d' = children d \<and> last_applied d' = last_applied d
     \<and> spent d' = spent d \<and> map unaudited (vaults d') = map unaudited (vaults d)"

lemma audit_only_refl [simp]: "audit_only d d"
  by (simp add: audit_only_def)

lemma audit_only_trans: "audit_only d d' \<Longrightarrow> audit_only d' d'' \<Longrightarrow> audit_only d d''"
  by (simp add: audit_only_def)

lemma audit_only_fields:
  assumes "audit_only d d'"
  shows "descriptors d' = descriptors d" "tokens d' = tokens d" "records d' = records d"
    "heads d' = heads d" "children d' = children d" "last_applied d' = last_applied d"
    "spent d' = spent d"
  using assms by (simp_all add: audit_only_def)

lemma audit_only_vaults:
  assumes "audit_only d d'" and "\<And>v. f (unaudited v) = f v"
  shows "map f (vaults d') = map f (vaults d)"
proof -
  have "map f (vaults d') = map f (map unaudited (vaults d'))" using assms(2) by simp
  also have "\<dots> = map f (map unaudited (vaults d))" using assms(1) by (simp only: audit_only_def)
  also have "\<dots> = map f (vaults d)" using assms(2) by simp
  finally show ?thesis .
qed

lemma audit_only_pks:
  assumes "audit_only d d'"
  shows "map v_pk (vaults d') = map v_pk (vaults d)" "v_pk ` set (vaults d') = v_pk ` set (vaults d)"
proof -
  show pks: "map v_pk (vaults d') = map v_pk (vaults d)"
    using assms by (rule audit_only_vaults) (simp add: unaudited_def)
  show "v_pk ` set (vaults d') = v_pk ` set (vaults d)"
    using arg_cong [OF pks, of set] by simp
qed

lemma append_audit_only: "append_audit c p e now d = Inr d' \<Longrightarrow> audit_only d d'"
  by (auto simp: append_audit_def audit_only_def Let_def vaults_update_vault unaudited_def
      split: option.splits if_splits)

lemma audit_each_only: "audit_each c p a act now is d = Inr d' \<Longrightarrow> audit_only d d'"
  by (induction "is" arbitrary: d) (auto simp: rbind_eq_Inr dest: append_audit_only audit_only_trans)

lemma insert_version_frame:
  assumes "insert_version c k p r d = Inr d'"
  shows "vaults d' = vaults d" "descriptors d' = descriptors d" "tokens d' = tokens d"
    "heads d' = heads d" "children d' = children d" "audit d' = audit d"
    "last_applied d' = last_applied d" "spent d' = spent d"
  using assms by (auto simp: insert_version_def split: if_splits)

lemma set_head_frame [frame_simps, simp]:
  "vaults (set_head k p n v t d) = vaults d" "descriptors (set_head k p n v t d) = descriptors d"
  "tokens (set_head k p n v t d) = tokens d" "records (set_head k p n v t d) = records d"
  "children (set_head k p n v t d) = children d" "audit (set_head k p n v t d) = audit d"
  "last_applied (set_head k p n v t d) = last_applied d" "spent (set_head k p n v t d) = spent d"
  by (simp_all add: set_head_def Let_def)

lemma delete_versions_eq:
  "delete_versions k p n vs d = d\<lparr>records := (records d)(k :=
     filter (\<lambda>r. \<not> (vn_pk r = p \<and> vn_name r = n \<and> vn_version r \<in> fst ` set vs)) (records d k))\<rparr>"
proof (induction vs arbitrary: d)
  case Nil
  show ?case by (simp add: delete_versions_def)
next
  case (Cons v vs)
  obtain a b where v: "v = (a, b)" by (cases v)
  have step: "delete_versions k p n ((a, b) # vs) d = delete_versions k p n vs (d\<lparr>records := (records d)(k :=
      filter (\<lambda>r. \<not> (vn_pk r = p \<and> vn_name r = n \<and> vn_version r = a)) (records d k))\<rparr>)"
    by (simp add: delete_versions_def)
  show ?case
    unfolding v step Cons.IH by (auto simp: fun_eq_iff intro!: db.equality filter_cong)
qed

lemma delete_tokens_eq:
  "delete_tokens p is d = (removed, d') \<Longrightarrow>
   d' = d\<lparr>tokens := filter (\<lambda>t. \<not> (t_vault_pk t = p \<and> t_id t \<in> set is)) (tokens d)\<rparr>
   \<and> set removed = {i \<in> set is. \<exists>t \<in> set (tokens d). t_vault_pk t = p \<and> t_id t = i}"
proof (induction p "is" d arbitrary: removed d' rule: delete_tokens.induct)
  case (1 p d)
  then show ?case by auto
next
  case (2 p i "is" d)
  let ?d = "d\<lparr>tokens := filter (\<lambda>t. \<not> (t_vault_pk t = p \<and> t_id t = i)) (tokens d)\<rparr>"
  obtain rm where rm: "delete_tokens p is ?d = (rm, d')"
    using 2(2) by (auto simp: Let_def split: prod.splits)
  have A: "d' = ?d\<lparr>tokens := filter (\<lambda>t. \<not> (t_vault_pk t = p \<and> t_id t \<in> set is)) (tokens ?d)\<rparr>"
    and rs: "set rm = {j \<in> set is. \<exists>t \<in> set (tokens ?d). t_vault_pk t = p \<and> t_id t = j}"
    using 2(1) [OF refl refl rm] by auto
  have B: "filter (\<lambda>t. \<not> (t_vault_pk t = p \<and> t_id t \<in> set is)) (tokens ?d)
      = filter (\<lambda>t. \<not> (t_vault_pk t = p \<and> t_id t \<in> set (i # is))) (tokens d)"
    by (simp, intro filter_cong refl, blast)
  from A [unfolded B]
  have "d' = d\<lparr>tokens := filter (\<lambda>t. \<not> (t_vault_pk t = p \<and> t_id t \<in> set (i # is))) (tokens d)\<rparr>"
    by simp
  moreover have "set removed = {j \<in> set (i # is). \<exists>t \<in> set (tokens d). t_vault_pk t = p \<and> t_id t = j}"
  proof -
    have "removed = (if \<exists>t \<in> set (tokens d). t_vault_pk t = p \<and> t_id t = i then i # rm else rm)"
      using 2(2) rm by (simp add: Let_def)
    moreover have "set rm = {j \<in> set is. j \<noteq> i \<and> (\<exists>t \<in> set (tokens d). t_vault_pk t = p \<and> t_id t = j)}"
      unfolding rs by auto
    ultimately show ?thesis by (cases "\<exists>t \<in> set (tokens d). t_vault_pk t = p \<and> t_id t = i") auto
  qed
  ultimately show ?case by simp
qed

section \<open>Audit chains\<close>

definition audit_of :: "db \<Rightarrow> VaultPk \<Rightarrow> AuditRow list" where
  "audit_of d p = map snd (filter (\<lambda>x. fst x = p) (audit d))"

text \<open>Positions are 64-bit columns: the chain is numbered as long as they do not run out.\<close>

definition audit_vault_ok :: "crypto \<Rightarrow> AuditRow list \<Rightarrow> VaultRec \<Rightarrow> bool" where
  "audit_vault_ok c rows v \<longleftrightarrow> v_audit_seq v < 2 ^ 63 \<longrightarrow>
     length rows = v_audit_seq v \<and> chain_from c 1 GENESIS rows
     \<and> v_audit_head v = (if rows = [] then GENESIS else row_hash (last rows))"

definition audit_inv :: "crypto \<Rightarrow> db \<Rightarrow> bool" where
  "audit_inv c d \<longleftrightarrow> (\<forall>v \<in> set (vaults d). audit_vault_ok c (audit_of d (v_pk v)) v)
     \<and> (\<forall>x \<in> set (audit d). fst x \<in> v_pk ` set (vaults d))"

lemma audit_inv_transfer:
  assumes inv: "audit_inv c d" and aud: "audit d' = audit d"
    and vs: "map (\<lambda>v. (v_pk v, v_audit_seq v, v_audit_head v)) (vaults d')
       = map (\<lambda>v. (v_pk v, v_audit_seq v, v_audit_head v)) (vaults d)"
  shows "audit_inv c d'"
proof -
  let ?f = "\<lambda>v. (v_pk v, v_audit_seq v, v_audit_head v)"
  have im: "?f ` set (vaults d') = ?f ` set (vaults d)" using arg_cong [OF vs, of set] by (simp only: set_map)
  have "audit_vault_ok c (audit_of d' (v_pk v')) v'" if v': "v' \<in> set (vaults d')" for v'
  proof -
    have "?f v' \<in> ?f ` set (vaults d)" unfolding im [symmetric] by (rule imageI [OF v'])
    then obtain v where v: "v \<in> set (vaults d)" "?f v' = ?f v" by (rule imageE)
    have "audit_vault_ok c (audit_of d (v_pk v)) v" using inv v(1) by (simp add: audit_inv_def)
    then show ?thesis using v(2) by (simp add: audit_vault_ok_def audit_of_def aud)
  qed
  moreover have "v_pk ` set (vaults d') = v_pk ` set (vaults d)"
    using arg_cong [OF im, of "image fst"] by (simp add: image_image)
  ultimately show ?thesis using inv aud by (simp add: audit_inv_def)
qed

lemma unat_of_nat_u64: "n < 2 ^ 64 \<Longrightarrow> unat (of_nat n :: u64) = n"
  by (simp add: unat_of_nat)

lemma append_audit_inv:
  assumes inv: "audit_inv c d" and uniq: "distinct (map v_pk (vaults d))"
    and app: "append_audit c p e now d = Inr d'"
  shows "audit_inv c d'"
proof -
  from app obtain v where v: "find_vault p d = Some v"
    by (auto simp: append_audit_def split: option.splits)
  define row where "row = from_event c (of_nat (v_audit_seq v + 1)) now (v_audit_head v) e"
  have vin: "v \<in> set (vaults d)" "v_pk v = p" using v by (auto simp: find_vault_def dest: find_Some_set)
  have only: "w = v" if "w \<in> set (vaults d)" "v_pk w = p" for w
    using uniq vin that by (metis distinct_map inj_on_eq_iff)
  have d': "d' = update_vault p (\<lambda>w. w\<lparr>v_audit_seq := v_audit_seq v + 1, v_audit_head := row_hash row\<rparr>)
      (d\<lparr>audit := audit d @ [(p, row)]\<rparr>)"
    using app v by (auto simp: append_audit_def row_def Let_def split: if_splits)
  have rows: "audit_of d' q = audit_of d q @ (if q = p then [row] else [])" for q
    by (simp add: d' audit_of_def)
  have "audit_vault_ok c (audit_of d p @ [row]) (v\<lparr>v_audit_seq := v_audit_seq v + 1, v_audit_head := row_hash row\<rparr>)"
  proof (cases "v_audit_seq v + 1 < 2 ^ 63")
    case True
    then have seq: "unat (of_nat (v_audit_seq v + 1) :: u64) = v_audit_seq v + 1"
      by (intro unat_of_nat_u64) simp
    have ok: "audit_vault_ok c (audit_of d p) v" using inv vin by (auto simp: audit_inv_def)
    have "row_continues c (v_audit_seq v + 1) (v_audit_head v) row"
      using from_event_continues [of c "of_nat (v_audit_seq v + 1)"] by (simp only: row_def seq)
    with ok True show ?thesis by (simp add: audit_vault_ok_def chain_from_append)
  qed (simp add: audit_vault_ok_def)
  moreover have "audit_vault_ok c (audit_of d (v_pk w)) w" if "w \<in> set (vaults d)" for w
    using inv that by (simp add: audit_inv_def)
  moreover have "set (vaults d') = (\<lambda>w. if v_pk w = p then v\<lparr>v_audit_seq := v_audit_seq v + 1,
      v_audit_head := row_hash row\<rparr> else w) ` set (vaults d)"
    unfolding d' vaults_update_vault set_map by (intro image_cong) (auto dest: only)
  ultimately have "\<forall>w \<in> set (vaults d'). audit_vault_ok c (audit_of d' (v_pk w)) w"
    using vin by (auto simp: rows)
  moreover have "\<forall>x \<in> set (audit d'). fst x \<in> v_pk ` set (vaults d')"
    using inv vin unfolding audit_only_pks(2) [OF append_audit_only [OF app]]
    by (auto simp: audit_inv_def d')
  ultimately show ?thesis by (simp add: audit_inv_def)
qed

lemma audit_each_inv:
  "audit_each c p a act now is d = Inr d' \<Longrightarrow> audit_inv c d \<Longrightarrow> distinct (map v_pk (vaults d)) \<Longrightarrow> audit_inv c d'"
proof (induction "is" arbitrary: d)
  case (Cons i "is")
  then obtain d1 where d1: "append_audit c p (event a act None (Some i) AuditResult.Ok) now d = Inr d1"
    and rest: "audit_each c p a act now is d1 = Inr d'"
    by (auto simp: rbind_eq_Inr)
  from d1 have "map v_pk (vaults d1) = map v_pk (vaults d)"
    by (intro audit_only_pks append_audit_only)
  with Cons.prems d1 show ?case by (intro Cons.IH [OF rest]) (simp_all add: append_audit_inv)
qed simp

section \<open>Keys, references, heads and bytes\<close>

definition vault_keys :: "db \<Rightarrow> (VaultPk \<times> VaultId \<times> u32 \<times> nat) list" where
  "vault_keys d = map (\<lambda>v. (v_pk v, v_vault_id v, v_generation v, v_bytes_used v)) (vaults d)"

definition pks :: "db \<Rightarrow> VaultPk set" where
  "pks d = v_pk ` set (vaults d)"

definition vault_bytes :: "VersionRec list \<Rightarrow> VaultPk \<Rightarrow> nat" where
  "vault_bytes rs p = sum_list (map version_bytes (filter (\<lambda>r. vn_pk r = p) rs))"

definition stored_bytes :: "db \<Rightarrow> VaultPk \<Rightarrow> nat" where
  "stored_bytes d p = vault_bytes (records d RecordKind.Secret) p + vault_bytes (records d RecordKind.Config) p"

definition rec_key :: "VersionRec \<Rightarrow> VaultPk \<times> NameHmac \<times> nat" where
  "rec_key r = (vn_pk r, vn_name r, vn_version r)"

definition head_key :: "HeadRec \<Rightarrow> VaultPk \<times> NameHmac" where
  "head_key h = (h_pk h, h_name h)"

definition row_ok :: "crypto \<Rightarrow> VersionRec \<Rightarrow> bool" where
  "row_ok c r \<longleftrightarrow> vn_tombstone r = (vn_value_ct r = None) \<and> vn_ct_hash r = value_hash c (vn_value_ct r)"

text \<open>Each head names a stored version with its tombstone flag, and each stored version has a
  head at or above it: the head is the newest version of its name.\<close>

definition heads_ok :: "VersionRec list \<Rightarrow> HeadRec list \<Rightarrow> bool" where
  "heads_ok rs hs \<longleftrightarrow>
     (\<forall>h \<in> set hs. \<exists>r \<in> set rs. vn_pk r = h_pk h \<and> vn_name r = h_name h
        \<and> vn_version r = h_version h \<and> vn_tombstone r = h_tombstone h)
   \<and> (\<forall>r \<in> set rs. \<exists>h \<in> set hs. h_pk h = vn_pk r \<and> h_name h = vn_name r \<and> vn_version r \<le> h_version h)"

definition records_ok :: "crypto \<Rightarrow> VaultPk set \<Rightarrow> VersionRec list \<Rightarrow> HeadRec list \<Rightarrow> bool" where
  "records_ok c P rs hs \<longleftrightarrow> distinct (map rec_key rs) \<and> distinct (map head_key hs)
     \<and> vn_pk ` set rs \<subseteq> P \<and> (\<forall>r \<in> set rs. row_ok c r) \<and> heads_ok rs hs"

definition vault_ok :: "db \<Rightarrow> bool" where
  "vault_ok d \<longleftrightarrow> distinct (map v_pk (vaults d)) \<and> distinct (map v_vault_id (vaults d))"

definition descriptors_ok :: "db \<Rightarrow> bool" where
  "descriptors_ok d \<longleftrightarrow> distinct (map (\<lambda>x. (de_pk x, de_generation x)) (descriptors d))
     \<and> de_pk ` set (descriptors d) \<subseteq> pks d
     \<and> (\<forall>v \<in> set (vaults d). find_descriptor (v_pk v) (v_generation v) d \<noteq> None)"

definition tokens_ok :: "db \<Rightarrow> bool" where
  "tokens_ok d \<longleftrightarrow> distinct (map t_id (tokens d)) \<and> t_vault_pk ` set (tokens d) \<subseteq> pks d"

definition children_ok :: "db \<Rightarrow> bool" where
  "children_ok d \<longleftrightarrow> distinct (map fst (children d)) \<and> fst ` set (children d) \<subseteq> pks d"

definition tables_ok :: "crypto \<Rightarrow> db \<Rightarrow> bool" where
  "tables_ok c d \<longleftrightarrow> (\<forall>k. records_ok c (pks d) (records d k) (heads d k))"

definition bytes_ok :: "db \<Rightarrow> bool" where
  "bytes_ok d \<longleftrightarrow> (\<forall>v \<in> set (vaults d). v_bytes_used v = stored_bytes d (v_pk v))"

definition db_inv :: "crypto \<Rightarrow> db \<Rightarrow> bool" where
  "db_inv c d \<longleftrightarrow> vault_ok d \<and> descriptors_ok d \<and> tokens_ok d \<and> children_ok d \<and> tables_ok c d
     \<and> bytes_ok d \<and> audit_inv c d"

lemmas inv_defs = vault_ok_def descriptors_ok_def tokens_ok_def children_ok_def tables_ok_def bytes_ok_def

text \<open>Two databases with the same vault keys, record, head and descriptor tables.\<close>

definition same_core :: "db \<Rightarrow> db \<Rightarrow> bool" where
  "same_core d d' \<longleftrightarrow> vault_keys d' = vault_keys d \<and> descriptors d' = descriptors d
     \<and> records d' = records d \<and> heads d' = heads d"

lemma vault_keys_projections:
  assumes "vault_keys d' = vault_keys d"
  shows "map v_pk (vaults d') = map v_pk (vaults d)"
    "map v_vault_id (vaults d') = map v_vault_id (vaults d)" "pks d' = pks d"
    "(\<lambda>v. (v_pk v, v_vault_id v, v_generation v, v_bytes_used v)) ` set (vaults d')
      = (\<lambda>v. (v_pk v, v_vault_id v, v_generation v, v_bytes_used v)) ` set (vaults d)"
proof -
  note eq = assms [unfolded vault_keys_def]
  from arg_cong [OF eq, of "map fst"] show p: "map v_pk (vaults d') = map v_pk (vaults d)"
    by (simp add: comp_def)
  from arg_cong [OF eq, of "map (fst \<circ> snd)"] show "map v_vault_id (vaults d') = map v_vault_id (vaults d)"
    by (simp add: comp_def)
  from arg_cong [OF p, of set] show "pks d' = pks d" by (simp add: pks_def)
  from arg_cong [OF eq, of set] show "(\<lambda>v. (v_pk v, v_vault_id v, v_generation v, v_bytes_used v)) ` set (vaults d')
      = (\<lambda>v. (v_pk v, v_vault_id v, v_generation v, v_bytes_used v)) ` set (vaults d)"
    by (simp only: set_map)
qed

lemma vault_keys_ball:
  assumes "vault_keys d' = vault_keys d" and "v' \<in> set (vaults d')"
  obtains v where "v \<in> set (vaults d)" "v_pk v = v_pk v'" "v_vault_id v = v_vault_id v'"
    "v_generation v = v_generation v'" "v_bytes_used v = v_bytes_used v'"
proof -
  have "(v_pk v', v_vault_id v', v_generation v', v_bytes_used v')
      \<in> (\<lambda>v. (v_pk v, v_vault_id v, v_generation v, v_bytes_used v)) ` set (vaults d)"
    unfolding vault_keys_projections(4) [OF assms(1), symmetric] using assms(2) by (rule imageI)
  then show thesis by (auto intro: that)
qed

lemma same_core_ok:
  assumes "same_core d d'"
  shows "vault_ok d \<Longrightarrow> vault_ok d'" "descriptors_ok d \<Longrightarrow> descriptors_ok d'"
    "tables_ok c d \<Longrightarrow> tables_ok c d'" "bytes_ok d \<Longrightarrow> bytes_ok d'" "pks d' = pks d"
proof -
  from assms have k: "vault_keys d' = vault_keys d" and t: "descriptors d' = descriptors d"
    "records d' = records d" "heads d' = heads d" by (simp_all add: same_core_def)
  note pr = vault_keys_projections [OF k]
  show "pks d' = pks d" by (rule pr(3))
  show "vault_ok d \<Longrightarrow> vault_ok d'" using pr by (simp add: vault_ok_def)
  show "tables_ok c d \<Longrightarrow> tables_ok c d'" using pr(3) t by (simp add: tables_ok_def)
  show "descriptors_ok d \<Longrightarrow> descriptors_ok d'"
    using pr(3) t by (auto simp: descriptors_ok_def find_descriptor_def elim!: vault_keys_ball [OF k])
  show "bytes_ok d \<Longrightarrow> bytes_ok d'"
    using t by (auto simp: bytes_ok_def stored_bytes_def elim!: vault_keys_ball [OF k])
qed

lemma audit_only_same_core: "audit_only d d' \<Longrightarrow> same_core d d'"
  unfolding same_core_def vault_keys_def
  by (auto simp: audit_only_fields unaudited_def intro: audit_only_vaults)

text \<open>What is left to check when a statement touches tokens, children or vault columns only.\<close>

lemma same_core_inv:
  assumes "db_inv c d" and core: "same_core d d'" and "tokens_ok d'" and "children_ok d'" and "audit_inv c d'"
  shows "db_inv c d'"
  using assms same_core_ok [OF core] by (simp add: db_inv_def)

lemma append_audit_db_inv:
  assumes inv: "db_inv c d" and app: "append_audit c p e now d = Inr d'"
  shows "db_inv c d'"
proof (rule same_core_inv [OF inv])
  note only = append_audit_only [OF app]
  show "same_core d d'" by (rule audit_only_same_core [OF only])
  then have "pks d' = pks d" by (rule same_core_ok)
  then show "tokens_ok d'" "children_ok d'"
    using inv by (simp_all add: db_inv_def tokens_ok_def children_ok_def audit_only_fields [OF only])
  show "audit_inv c d'" using inv app by (auto simp: db_inv_def vault_ok_def intro: append_audit_inv)
qed

lemma audit_each_db_inv: "audit_each c p a act now is d = Inr d' \<Longrightarrow> db_inv c d \<Longrightarrow> db_inv c d'"
  by (induction "is" arbitrary: d) (auto simp: rbind_eq_Inr dest: append_audit_db_inv)

lemma refuse_with_inv: "refuse_with c p ev now d e = Inr (r, d') \<Longrightarrow> db_inv c d \<Longrightarrow> db_inv c d'"
  by (auto simp: refuse_with_def rbind_eq_Inr dest: append_audit_db_inv)

lemma write_tx_inv:
  assumes "P d" and "\<And>r d'. f d = Inr (r, d') \<Longrightarrow> P d'"
  shows "P (snd (write_tx f d))"
  using assms by (auto simp: write_tx_def split: sum.splits prod.splits Done.splits)

lemma write_hooked_inv:
  assumes "P d" and "\<And>r d' j'. f d j = (Inr (r, d'), j') \<Longrightarrow> P d'"
  shows "P (fst (snd (write_hooked f d j)))"
proof -
  obtain r j' where f: "f d j = (r, j')" by (cases "f d j")
  have "P (snd (write_tx (\<lambda>_. r) d))"
    by (rule write_tx_inv [where P = P, OF assms(1)]) (simp add: assms(2) f)
  then show ?thesis by (auto simp: write_hooked_def f Let_def split: prod.splits)
qed

lemma update_vault_core:
  assumes "\<And>v. v_pk (f v) = v_pk v \<and> v_vault_id (f v) = v_vault_id v \<and> v_generation (f v) = v_generation v
      \<and> v_bytes_used (f v) = v_bytes_used v"
  shows "same_core d (update_vault p f d)"
  using assms by (simp add: same_core_def vault_keys_def vaults_update_vault)

lemma update_vault_audit_inv:
  assumes "\<And>v. v_pk (f v) = v_pk v \<and> v_audit_seq (f v) = v_audit_seq v \<and> v_audit_head (f v) = v_audit_head v"
    and "audit_inv c d"
  shows "audit_inv c (update_vault p f d)"
  using assms(2) by (rule audit_inv_transfer) (simp_all add: vaults_update_vault assms(1))

lemma update_vault_pks:
  assumes "\<And>v. v_pk (f v) = v_pk v \<and> v_vault_id (f v) = v_vault_id v"
  shows "map v_pk (vaults (update_vault p f d)) = map v_pk (vaults d)"
    "map v_vault_id (vaults (update_vault p f d)) = map v_vault_id (vaults d)"
    "pks (update_vault p f d) = pks d"
proof -
  show maps: "map v_pk (vaults (update_vault p f d)) = map v_pk (vaults d)"
    "map v_vault_id (vaults (update_vault p f d)) = map v_vault_id (vaults d)"
    using assms by (simp_all add: vaults_update_vault)
  show "pks (update_vault p f d) = pks d"
    using arg_cong [OF maps(1), of set] by (simp add: pks_def)
qed

lemma bump_revision_inv: "db_inv c d \<Longrightarrow> db_inv c (bump_revision p d)"
proof (rule same_core_inv)
  assume inv: "db_inv c d"
  show core: "same_core d (bump_revision p d)"
    unfolding bump_revision_def by (rule update_vault_core) simp
  from inv same_core_ok(5) [OF core] show "tokens_ok (bump_revision p d)" "children_ok (bump_revision p d)"
    by (simp_all add: db_inv_def tokens_ok_def children_ok_def)
  from inv show "audit_inv c (bump_revision p d)"
    unfolding bump_revision_def db_inv_def by (intro update_vault_audit_inv) auto
qed

lemma tokens_update_inv:
  assumes inv: "db_inv c d" and "distinct (map t_id ts)" and "t_vault_pk ` set ts \<subseteq> pks d"
  shows "db_inv c (d\<lparr>tokens := ts\<rparr>)"
proof -
  have "audit_inv c (d\<lparr>tokens := ts\<rparr>)"
    using inv by (auto simp: db_inv_def intro: audit_inv_transfer)
  with assms show ?thesis
    by (intro same_core_inv [OF inv])
      (auto simp: same_core_def vault_keys_def tokens_ok_def children_ok_def db_inv_def pks_def)
qed

lemma delete_tokens_inv:
  assumes "delete_tokens p is d = (rm, d')" and inv: "db_inv c d"
  shows "db_inv c d'"
proof -
  have ok: "tokens_ok d" using inv by (simp add: db_inv_def)
  show ?thesis
    unfolding conjunct1 [OF delete_tokens_eq [OF assms(1)]]
    using ok by (intro tokens_update_inv [OF inv] distinct_map_filterI) (auto simp: tokens_ok_def)
qed

lemma touch_inv: "db_inv c d \<Longrightarrow> db_inv c (snd (touch p now d))"
proof -
  assume inv: "db_inv c d"
  let ?d = "update_vault p (\<lambda>v. if v_last_active_at v < now then v\<lparr>v_last_active_at := now\<rparr> else v) d"
  have core: "same_core d ?d" by (rule update_vault_core) simp
  have "db_inv c ?d"
    using inv same_core_ok(5) [OF core]
    by (intro same_core_inv [OF inv core] update_vault_audit_inv)
      (simp_all add: db_inv_def tokens_ok_def children_ok_def)
  with inv show ?thesis by (simp add: touch_def Let_def write_tx_def)
qed

lemma load_vault_find: "load_vault d p = Some row \<Longrightarrow> \<exists>v. find_vault p d = Some v \<and> vault_row d v = Some row"
  by (auto simp: load_vault_def bind_eq_Some_conv)

lemma find_vault_in: "find_vault p d = Some v \<Longrightarrow> v \<in> set (vaults d) \<and> v_pk v = p"
  by (auto simp: find_vault_def dest: find_Some_set)

lemma vault_row_fields:
  assumes "vault_row d v = Some row"
  shows "pk row = v_pk v" "vr_vault_id row = v_vault_id v" "generation row = v_generation v"
    "revision row = v_revision v" "bytes_used row = v_bytes_used v" "owner_sign_pub row = v_owner_sign_pub v"
  using assms by (auto simp: vault_row_def)

lemma load_vault_pks: "load_vault d p = Some row \<Longrightarrow> p \<in> pks d \<and> pk row = p"
  by (drule load_vault_find) (auto simp: pks_def vault_row_fields dest: find_vault_in)

section \<open>Token registration and revocation keep the invariant\<close>

lemma register_token_inv:
  assumes inv: "db_inv c d"
  shows "db_inv c (snd (register_token c p t ctx limits d))"
  unfolding register_token_def
proof (rule write_tx_inv [where P = "db_inv c", OF inv], goal_cases)
  case (1 r d')
  show ?case
  proof (cases "\<exists>e ev. refuse_with c p ev (cx_now ctx) d e = Inr (r, d')")
    case True
    then show ?thesis using inv refuse_with_inv by blast
  next
    case False
    with 1 obtain vault d2 where "load_vault d p = Some vault" and new: "token_by_id d (nt_id t) = None"
      and app: "append_audit c p (event (cx_actor ctx) AuditAction.TokenMint None (Some (nt_id t)) AuditResult.Ok)
        (cx_now ctx) (bump_revision p (d\<lparr>tokens := tokens d @ [token_row_of p t (cx_now ctx)]\<rparr>)) = Inr d'"
      by (auto simp: rbind_eq_Inr Let_def split: if_splits)
    then have "p \<in> pks d" by (simp add: load_vault_pks)
    with new inv have "db_inv c (d\<lparr>tokens := tokens d @ [token_row_of p t (cx_now ctx)]\<rparr>)"
      by (intro tokens_update_inv)
        (auto simp: db_inv_def tokens_ok_def token_row_of_def token_by_id_def find_None_all)
    then show ?thesis by (rule append_audit_db_inv [OF bump_revision_inv app])
  qed
qed

lemma journal_inv:
  assumes "journal op now hook d j = (Inr d', j')" and "db_inv c d"
  shows "db_inv c d'"
proof -
  from assms(1) have d': "d' = d\<lparr>last_applied := last_applied d + 1\<rparr>"
    by (auto simp: journal_def Let_def rbind_eq_Inr split: prod.splits)
  have "audit_inv c d'" using assms(2) by (auto simp: d' db_inv_def intro: audit_inv_transfer)
  with assms(2) show ?thesis
    by (intro same_core_inv [OF assms(2)])
      (auto simp: d' same_core_def vault_keys_def tokens_ok_def children_ok_def db_inv_def pks_def)
qed

lemma revoke_tokens_inv:
  assumes inv: "db_inv c d"
  shows "db_inv c (fst (snd (revoke_tokens c p ids reported ctx hook d j)))"
  unfolding revoke_tokens_def
proof (rule write_hooked_inv [where P = "db_inv c", OF inv], goal_cases)
  case (1 r d' j')
  obtain rm d1 where rm: "delete_tokens p ids d = (rm, d1)" by (cases "delete_tokens p ids d")
  from 1 rm obtain d2 d3 j1 op where
      each: "audit_each c p (cx_actor ctx) (revoke_action reported) (cx_now ctx) rm (bump_revision p d1) = Inr d2"
    and j: "journal op (cx_now ctx) hook d2 j = (Inr d', j1)"
    by (auto simp: rbind_eq_Inr Let_def split: option.splits if_splits sum.splits prod.splits)
  have "db_inv c d2"
    by (rule audit_each_db_inv [OF each]) (intro bump_revision_inv delete_tokens_inv [OF rm] inv)
  then show ?case by (rule journal_inv [OF j])
qed

section \<open>Record writes keep the invariant\<close>

definition same_name :: "VaultPk \<Rightarrow> NameHmac \<Rightarrow> VersionRec \<Rightarrow> bool" where
  "same_name p n r \<longleftrightarrow> vn_pk r = p \<and> vn_name r = n"

lemma upsert_head_set:
  "set (upsert_head p n v t hs) = insert \<lparr>h_pk = p, h_name = n, h_version = v, h_tombstone = t\<rparr>
     {h \<in> set hs. head_key h \<noteq> (p, n)}"
  by (auto simp: upsert_head_def Let_def head_key_def)

lemma upsert_head_distinct:
  assumes "distinct (map head_key hs)"
  shows "distinct (map head_key (upsert_head p n v t hs))"
proof (cases "\<exists>h \<in> set hs. h_pk h = p \<and> h_name h = n")
  case True
  have "map head_key (upsert_head p n v t hs) = map head_key hs"
    using True by (auto simp: upsert_head_def Let_def head_key_def)
  with assms show ?thesis by simp
next
  case False
  with assms show ?thesis by (auto simp: upsert_head_def Let_def head_key_def)
qed

text \<open>A new newest version, its head, and the removal of some older versions of the same name.\<close>

lemma records_ok_write:
  assumes ok: "records_ok c P rs hs" and p: "p \<in> P"
    and new: "vn_pk r = p" "vn_name r = n" "vn_version r = v" "row_ok c r"
    and newest: "\<forall>x \<in> set rs. same_name p n x \<longrightarrow> vn_version x < v"
    and old: "\<forall>x \<in> V. x < v"
  shows "records_ok c P (filter (\<lambda>x. \<not> (same_name p n x \<and> vn_version x \<in> V)) (rs @ [r]))
    (upsert_head p n v (vn_tombstone r) hs)"
proof -
  let ?rs = "filter (\<lambda>x. \<not> (same_name p n x \<and> vn_version x \<in> V)) (rs @ [r])"
  have rset: "set ?rs = insert r {x \<in> set rs. \<not> (same_name p n x \<and> vn_version x \<in> V)}"
    using new old by (auto simp: same_name_def)
  have "rec_key r \<notin> rec_key ` set rs"
    using newest new by (auto simp: rec_key_def same_name_def)
  then have "distinct (map rec_key (rs @ [r]))" using ok by (auto simp: records_ok_def)
  then have 1: "distinct (map rec_key ?rs)" by (rule distinct_map_filterI)
  have 2: "distinct (map head_key (upsert_head p n v (vn_tombstone r) hs))"
    using ok by (intro upsert_head_distinct) (simp add: records_ok_def)
  have 3: "vn_pk ` set ?rs \<subseteq> P" "\<forall>x \<in> set ?rs. row_ok c x"
    unfolding rset using ok p new by (auto simp: records_ok_def)
  have heads: "\<forall>h \<in> set hs. head_key h \<noteq> (p, n) \<longrightarrow> (\<exists>x \<in> set rs. \<not> same_name p n x \<and> vn_pk x = h_pk h
      \<and> vn_name x = h_name h \<and> vn_version x = h_version h \<and> vn_tombstone x = h_tombstone h)"
    using ok unfolding records_ok_def heads_ok_def same_name_def head_key_def by (metis Pair_inject)
  have "heads_ok ?rs (upsert_head p n v (vn_tombstone r) hs)"
    unfolding heads_ok_def rset upsert_head_set
  proof (intro conjI ballI)
    fix h assume "h \<in> insert \<lparr>h_pk = p, h_name = n, h_version = v, h_tombstone = vn_tombstone r\<rparr>
      {h \<in> set hs. head_key h \<noteq> (p, n)}"
    then show "\<exists>x \<in> insert r {x \<in> set rs. \<not> (same_name p n x \<and> vn_version x \<in> V)}. vn_pk x = h_pk h
        \<and> vn_name x = h_name h \<and> vn_version x = h_version h \<and> vn_tombstone x = h_tombstone h"
      using heads new by auto
  next
    fix x assume x: "x \<in> insert r {x \<in> set rs. \<not> (same_name p n x \<and> vn_version x \<in> V)}"
    show "\<exists>h \<in> insert \<lparr>h_pk = p, h_name = n, h_version = v, h_tombstone = vn_tombstone r\<rparr>
        {h \<in> set hs. head_key h \<noteq> (p, n)}. h_pk h = vn_pk x \<and> h_name h = vn_name x \<and> vn_version x \<le> h_version h"
    proof (cases "same_name p n x")
      case True
      with x newest new show ?thesis by (auto simp: same_name_def intro: less_imp_le)
    next
      case False
      with x new have "x \<in> set rs" by (auto simp: same_name_def)
      then obtain h where "h \<in> set hs" "h_pk h = vn_pk x" "h_name h = vn_name x" "vn_version x \<le> h_version h"
        using ok by (auto simp: records_ok_def heads_ok_def)
      with False show ?thesis by (auto simp: same_name_def head_key_def)
    qed
  qed
  with 1 2 3 show ?thesis by (simp add: records_ok_def)
qed

text \<open>The bytes such a write adds and frees.\<close>

lemma vault_bytes_filter:
  "vault_bytes (filter (\<lambda>x. \<not> Q x) rs) p + sum_list (map version_bytes (filter (\<lambda>x. vn_pk x = p \<and> Q x) rs))
   = vault_bytes rs p"
  unfolding vault_bytes_def by (induction rs) auto

lemma prunable_split:
  "\<exists>ps qs. versions_of d k p n = ps @ qs
    \<and> prunable d k p n m = map (\<lambda>r. (vn_version r, version_bytes r)) ps
    \<and> length ps = (length (versions_of d k p n) + 1) - max m 1"
proof -
  let ?all = "versions_of d k p n" and ?e = "(length (versions_of d k p n) + 1) - max m 1"
  have "?all = take ?e ?all @ drop ?e ?all" by simp
  moreover have "prunable d k p n m = map (\<lambda>r. (vn_version r, version_bytes r)) (take ?e ?all)"
    by (simp add: prunable_def Let_def take_map)
  moreover have "length (take ?e ?all) = ?e" by (simp add: min_def) linarith
  ultimately show ?thesis by blast
qed

lemma versions_of_mset:
  "mset (versions_of d k p n) = mset (filter (same_name p n) (records d k))"
  by (simp add: versions_of_def same_name_def)

lemma versions_of_distinct:
  assumes "records_ok c P (records d k) hs"
  shows "distinct (map vn_version (versions_of d k p n))"
proof -
  have "distinct (map rec_key (filter (same_name p n) (records d k)))"
    using assms by (intro distinct_map_filterI) (simp add: records_ok_def)
  then have "distinct (map vn_version (filter (same_name p n) (records d k)))"
    by (auto simp: distinct_map inj_on_def rec_key_def same_name_def)
  then show ?thesis
    using versions_of_mset [of d k p n] by (metis distinct_map mset_eq_imp_distinct_iff mset_eq_setD)
qed

lemma freed_prunable:
  assumes ok: "records_ok c P (records d k) hs"
  shows "freed_bytes (prunable d k p n m) = sum_list (map version_bytes
    (filter (\<lambda>x. vn_pk x = p \<and> same_name p n x \<and> vn_version x \<in> fst ` set (prunable d k p n m)) (records d k)))"
proof -
  obtain ps qs where sp: "versions_of d k p n = ps @ qs"
    and pr: "prunable d k p n m = map (\<lambda>r. (vn_version r, version_bytes r)) ps"
    using prunable_split by blast
  let ?V = "vn_version ` set ps"
  have V: "fst ` set (prunable d k p n m) = ?V" by (simp add: pr image_image)
  have "vn_version ` set qs \<inter> ?V = {}"
    using versions_of_distinct [OF ok, of p n] sp by auto
  then have "filter (\<lambda>x. vn_version x \<in> ?V) (ps @ qs) = ps" by (auto simp: filter_id_conv filter_empty_conv)
  then have ps: "filter (\<lambda>x. vn_version x \<in> ?V) (versions_of d k p n) = ps" by (simp add: sp)
  have eq: "filter (\<lambda>x. vn_pk x = p \<and> same_name p n x \<and> vn_version x \<in> ?V) (records d k)
      = filter (\<lambda>x. vn_version x \<in> ?V) (filter (same_name p n) (records d k))"
    by (auto simp: same_name_def intro: filter_cong)
  have "mset (map version_bytes ps)
      = mset (map version_bytes (filter (\<lambda>x. vn_version x \<in> ?V) (filter (same_name p n) (records d k))))"
    using ps by (metis mset_filter mset_map versions_of_mset)
  then have "sum_list (map version_bytes ps)
      = sum_list (map version_bytes (filter (\<lambda>x. vn_version x \<in> ?V) (filter (same_name p n) (records d k))))"
    by (metis sum_mset_sum_list)
  moreover have "freed_bytes (prunable d k p n m) = sum_list (map version_bytes ps)"
    by (simp add: pr freed_bytes_def comp_def)
  ultimately show ?thesis unfolding V eq by simp
qed

lemma version_rec_simps [simp]:
  "vn_pk (version_rec c p r) = p" "vn_name (version_rec c p r) = vn_name r"
  "vn_version (version_rec c p r) = vn_version r" "vn_value_ct (version_rec c p r) = vn_value_ct r"
  "vn_written_at (version_rec c p r) = vn_written_at r" "vn_written_by (version_rec c p r) = vn_written_by r"
  "vn_generation (version_rec c p r) = vn_generation r"
  "vn_tombstone (version_rec c p r) = (vn_value_ct r = None)"
  "version_bytes (version_rec c p r) = version_bytes r" "row_ok c (version_rec c p r)"
  "VersionRow.truncate (version_rec c p r) = r\<lparr>vn_tombstone := (vn_value_ct r = None)\<rparr>"
  by (simp_all add: version_rec_def VersionRow.extend_def VersionRec.fields_def row_ok_def
      version_bytes_def VersionRow.truncate_def)

lemma insert_version_eq:
  "insert_version c k p r d = Inr d1 \<Longrightarrow> d1 = d\<lparr>records := (records d)(k := records d k @ [version_rec c p r])\<rparr>"
  by (simp add: insert_version_def split: if_splits)

lemma vault_bytes_append [simp]: "vault_bytes (xs @ ys) p = vault_bytes xs p + vault_bytes ys p"
  by (simp add: vault_bytes_def)

lemma vault_bytes_single [simp]: "vault_bytes [r] p = (if vn_pk r = p then version_bytes r else 0)"
  by (simp add: vault_bytes_def)

definition kind_bytes :: "db \<Rightarrow> RecordKind \<Rightarrow> VaultPk \<Rightarrow> nat" where
  "kind_bytes d k p = vault_bytes (records d k) p"

lemma stored_bytes_kinds: "stored_bytes d p = kind_bytes d k p + kind_bytes d (case k of RecordKind.Secret \<Rightarrow> RecordKind.Config | RecordKind.Config \<Rightarrow> RecordKind.Secret) p"
  by (cases k) (simp_all add: stored_bytes_def kind_bytes_def)

text \<open>The tables after a write of version \<open>v\<close> that prunes the versions in \<open>V\<close>.\<close>

definition after_write :: "RecordKind \<Rightarrow> VaultPk \<Rightarrow> NameHmac \<Rightarrow> VersionRec \<Rightarrow> nat set \<Rightarrow> nat \<Rightarrow> db \<Rightarrow> db" where
  "after_write k p n r V tot d = update_vault p (\<lambda>v. v\<lparr>v_bytes_used := tot, v_revision := v_revision v + 1\<rparr>)
     (d\<lparr>records := (records d)(k := filter (\<lambda>x. \<not> (same_name p n x \<and> vn_version x \<in> V)) (records d k @ [r])),
        heads := (heads d)(k := upsert_head p n (vn_version r) (vn_tombstone r) (heads d k))\<rparr>)"

lemma after_write_eq:
  assumes "insert_version c k p r d = Inr d1"
  shows "update_vault p (\<lambda>v. v\<lparr>v_bytes_used := tot, v_revision := v_revision v + 1\<rparr>)
       (delete_versions k p (vn_name r) pruned (set_head k p (vn_name r) (vn_version r) (vn_value_ct r = None) d1))
     = after_write k p (vn_name r) (version_rec c p r) (fst ` set pruned) tot d"
  unfolding after_write_def delete_versions_eq set_head_def insert_version_eq [OF assms]
  by (simp add: same_name_def update_vault_def)

lemma after_write_inv:
  assumes inv: "db_inv c d" and p: "p \<in> pks d"
    and new: "vn_pk r = p" "vn_name r = n" "row_ok c r"
    and newest: "\<forall>x \<in> set (records d k). same_name p n x \<longrightarrow> vn_version x < vn_version r"
    and old: "\<forall>x \<in> V. x < vn_version r"
    and tot: "tot + sum_list (map version_bytes (filter (\<lambda>x. vn_pk x = p \<and> same_name p n x \<and> vn_version x \<in> V) (records d k)))
      = stored_bytes d p + version_bytes r"
  shows "db_inv c (after_write k p n r V tot d)"
proof -
  let ?d = "after_write k p n r V tot d"
  have pks: "pks ?d = pks d" "map v_pk (vaults ?d) = map v_pk (vaults d)"
    "map v_vault_id (vaults ?d) = map v_vault_id (vaults d)"
    unfolding after_write_def by (simp_all add: update_vault_pks) (simp_all add: pks_def)
  have tables: "tables_ok c ?d"
    unfolding tables_ok_def pks
  proof
    fix k'
    show "records_ok c (pks d) (records ?d k') (heads ?d k')"
    proof (cases "k' = k")
      case True
      have "records_ok c (pks d) (records d k) (heads d k)" using inv by (simp add: db_inv_def tables_ok_def)
      from records_ok_write [OF this p new(1,2) refl new(3) newest old] True show ?thesis
        by (simp add: after_write_def)
    next
      case False
      then show ?thesis using inv by (simp add: db_inv_def tables_ok_def after_write_def)
    qed
  qed
  have rk: "records ?d k = filter (\<lambda>x. \<not> (same_name p n x \<and> vn_version x \<in> V)) (records d k) @ [r]"
    using new old by (auto simp: after_write_def same_name_def)
  have kb: "kind_bytes ?d k' q = kind_bytes d k' q" if "k' \<noteq> k \<or> q \<noteq> p" for k' q
  proof (cases "k' = k")
    case True
    then have "q \<noteq> p" using that by simp
    then have "filter (\<lambda>x. vn_pk x = q \<and> same_name p n x \<and> vn_version x \<in> V) (records d k) = []"
      by (auto simp: same_name_def filter_empty_conv)
    then show ?thesis
      using True \<open>q \<noteq> p\<close> new vault_bytes_filter [of "\<lambda>x. same_name p n x \<and> vn_version x \<in> V" "records d k" q]
      by (simp add: kind_bytes_def rk)
  qed (simp add: kind_bytes_def after_write_def)
  have kbp: "kind_bytes ?d k p + sum_list (map version_bytes (filter (\<lambda>x. vn_pk x = p \<and> same_name p n x \<and> vn_version x \<in> V) (records d k)))
      = kind_bytes d k p + version_bytes r"
    using new vault_bytes_filter [of "\<lambda>x. same_name p n x \<and> vn_version x \<in> V" "records d k" p]
    by (simp add: kind_bytes_def rk)
  have sp: "stored_bytes ?d p = tot"
    using kbp tot kb [of "case k of RecordKind.Secret \<Rightarrow> RecordKind.Config | RecordKind.Config \<Rightarrow> RecordKind.Secret" p]
    by (simp add: stored_bytes_kinds [of _ p k] split: RecordKind.splits)
  have sq: "stored_bytes ?d q = stored_bytes d q" if "q \<noteq> p" for q
    using kb that by (simp add: stored_bytes_kinds [of _ q k])
  have "bytes_ok ?d"
    unfolding bytes_ok_def
  proof
    fix v assume "v \<in> set (vaults ?d)"
    then obtain u where "u \<in> set (vaults d)"
        "v = (if v_pk u = p then u\<lparr>v_bytes_used := tot, v_revision := v_revision u + 1\<rparr> else u)"
      by (auto simp: after_write_def vaults_update_vault)
    with inv sp sq show "v_bytes_used v = stored_bytes ?d (v_pk v)"
      by (auto simp: db_inv_def bytes_ok_def)
  qed
  moreover have "audit_inv c ?d"
    unfolding after_write_def using inv
    by (intro update_vault_audit_inv) (auto simp: db_inv_def intro: audit_inv_transfer)
  moreover have "descriptors_ok ?d"
    using inv pks(1) by (auto simp: db_inv_def descriptors_ok_def after_write_def find_descriptor_def vaults_update_vault)
  moreover have "vault_ok ?d" "tokens_ok ?d" "children_ok ?d"
    using inv pks by (simp_all add: db_inv_def vault_ok_def tokens_ok_def children_ok_def after_write_def)
  ultimately show ?thesis using tables by (simp add: db_inv_def)
qed

end
