(* ===== verification/Store_Records.thy ===== *)
theory Store_Records
  imports Store_Inv
begin

text \<open>
  Record writes: case analyses of \<open>put_record\<close> and \<open>delete_record\<close>, preservation of the
  invariant, and what a write, a refusal and a read return.
\<close>

section \<open>Case analyses\<close>

lemma load_head_bound:
  assumes ok: "records_ok c P (records d k) (heads d k)" and x: "x \<in> set (records d k)" "same_name p n x"
  shows "\<exists>v t. load_head d k p n = Some (v, t) \<and> vn_version x \<le> v"
proof -
  obtain h where h: "h \<in> set (heads d k)" "h_pk h = p" "h_name h = n" "vn_version x \<le> h_version h"
    using ok x by (auto simp: records_ok_def heads_ok_def same_name_def)
  then obtain h' where h': "find (\<lambda>h. h_pk h = p \<and> h_name h = n) (heads d k) = Some h'"
    by (cases "find (\<lambda>h. h_pk h = p \<and> h_name h = n) (heads d k)") (auto simp: find_None_all)
  then have "h' \<in> set (heads d k)" "head_key h' = head_key h"
    using h by (auto simp: head_key_def dest: find_Some_set)
  then have "h' = h" using ok h(1) by (metis records_ok_def distinct_map inj_on_eq_iff)
  with h h' show ?thesis by (simp add: load_head_def)
qed

lemma next_version_newest:
  assumes ok: "records_ok c P (records d k) (heads d k)" and nv: "next_version pre (load_head d k p n) = Inr v"
  shows "\<forall>x \<in> set (records d k). same_name p n x \<longrightarrow> vn_version x < v"
proof (intro ballI impI)
  fix x assume "x \<in> set (records d k)" "same_name p n x"
  from load_head_bound [OF ok this] obtain u t where "load_head d k p n = Some (u, t)" "vn_version x \<le> u"
    by blast
  with nv show "vn_version x < v"
    by (cases pre; cases t) (auto split: if_splits)
qed

lemma versions_of_set: "set (versions_of d k p n) = {r \<in> set (records d k). same_name p n r}"
  by (auto simp: versions_of_def same_name_def)

lemma prunable_versions:
  assumes "x \<in> fst ` set (prunable d k p n m)"
  shows "\<exists>r \<in> set (records d k). same_name p n r \<and> vn_version r = x"
proof -
  obtain ps qs where sp: "versions_of d k p n = ps @ qs"
    and pr: "prunable d k p n m = map (\<lambda>r. (vn_version r, version_bytes r)) ps"
    using prunable_split by blast
  from assms pr obtain r where "r \<in> set ps" "vn_version r = x" by auto
  moreover have "set ps \<subseteq> {r \<in> set (records d k). same_name p n r}"
    unfolding versions_of_set [symmetric] sp by simp
  ultimately show ?thesis by blast
qed

lemma refuse_tx:
  "(case refuse_with c p ev now d e of Inl e' \<Rightarrow> (Inl e', d) | Inr (Done.Ok a, d') \<Rightarrow> (Inr a, d')
      | Inr (Done.Refused e', d') \<Rightarrow> (Inl e', d')) = (res, d') \<Longrightarrow>
   \<exists>e'. res = Inl e' \<and> (d' = d \<or> append_audit c p ev now d = Inr d')"
  by (cases "append_audit c p ev now d") (auto simp: refuse_with_def)

text \<open>A put is refused without any change, refused with an audit row only, or written.\<close>

lemma put_record_cases:
  assumes "put_record c p k n pre w ctx limits d = (res, d')"
  obtains (unchanged) e where "res = Inl e" "d' = d"
  | (refused) e where "res = Inl e"
      "append_audit c p (event (cx_actor ctx) (put_action k) (Some n) None AuditResult.Refused) (cx_now ctx) d = Inr d'"
  | (ok) vault value_ct nv pruned used where "w_value_ct w = Some value_ct" "load_vault d p = Some vault"
      "put_guards k p n pre w value_ct limits vault d = Inr (nv, pruned, used)"
      "write_version c k p (version_of_write n nv w (cx_actor ctx)) pruned used
         (written (cx_actor ctx) (put_action k) (Some n) nv (Some (hash_sha256 c value_ct))) (cx_now ctx) d = Inr d'"
      "res = Inr nv"
proof -
  consider (none) "w_value_ct w = None \<or> load_vault d p = None"
    | (some) value_ct vault where "w_value_ct w = Some value_ct" "load_vault d p = Some vault"
    by (cases "w_value_ct w"; cases "load_vault d p") auto
  then show thesis
  proof cases
    case none
    with assms show thesis
      by (cases "w_value_ct w") (auto simp: put_record_def write_tx_def intro: unchanged)
  next
    case some
    note put = assms [unfolded put_record_def some option.case write_tx_def ok_or_simps rbind_simps]
    show thesis
    proof (cases "put_guards k p n pre w value_ct limits vault d")
      case (Inl e)
      from refuse_tx [OF put [unfolded Inl sum.case]] show thesis using unchanged refused by blast
    next
      case (Inr g)
      obtain nv pruned used where g: "g = (nv, pruned, used)" by (cases g)
      show thesis
      proof (cases "write_version c k p (version_of_write n nv w (cx_actor ctx)) pruned used
          (written (cx_actor ctx) (put_action k) (Some n) nv (Some (hash_sha256 c value_ct))) (cx_now ctx) d")
        case (Inl e)
        with put g \<open>put_guards _ _ _ _ _ _ _ _ _ = _\<close> show thesis by (intro unchanged) auto
      next
        case wr: (Inr d1)
        with put g Inr have "res = Inr nv" "d1 = d'" by auto
        with some Inr g wr show thesis by (intro ok) auto
      qed
    qed
  qed
qed

lemma delete_record_cases:
  assumes "delete_record c p k n m w ctx limits d = (res, d')"
  obtains (unchanged) e where "res = Inl e" "d' = d"
  | (refused) e where "res = Inl e"
      "append_audit c p (event (cx_actor ctx) (delete_action k) (Some n) None AuditResult.Refused) (cx_now ctx) d = Inr d'"
  | (ok) vault cur nv pruned used where "w_value_ct w = None" "load_vault d p = Some vault"
      "load_head d k p n = Some (cur, False)"
      "delete_guards k p n cur m w limits vault d = Inr (nv, pruned, used)"
      "write_version c k p (version_of_write n nv w (cx_actor ctx)) pruned used
         (written (cx_actor ctx) (delete_action k) (Some n) nv None) (cx_now ctx) d = Inr d'"
      "res = Inr nv"
proof -
  consider (none) "w_value_ct w \<noteq> None \<or> load_vault d p = None \<or> (\<forall>cur. load_head d k p n \<noteq> Some (cur, False))"
    | (some) vault cur where "w_value_ct w = None" "load_vault d p = Some vault" "load_head d k p n = Some (cur, False)"
    by (cases "w_value_ct w"; cases "load_vault d p") auto
  then show thesis
  proof cases
    case none
    with assms show thesis
      by (cases "load_vault d p"; cases "load_head d k p n")
        (auto simp: delete_record_def write_tx_def intro: unchanged split: if_splits bool.splits)
  next
    case some
    have del: "(case (case delete_guards k p n cur m w limits vault d of
          Inl e \<Rightarrow> refuse_with c p (event (cx_actor ctx) (delete_action k) (Some n) None AuditResult.Refused) (cx_now ctx) d e
        | Inr (nv, pruned, used) \<Rightarrow> rbind (write_version c k p (version_of_write n nv w (cx_actor ctx)) pruned used
            (written (cx_actor ctx) (delete_action k) (Some n) nv None) (cx_now ctx) d) (\<lambda>d'. Inr (Done.Ok nv, d')))
      of Inl e' \<Rightarrow> (Inl e', d) | Inr (Done.Ok a, d') \<Rightarrow> (Inr a, d') | Inr (Done.Refused e', d') \<Rightarrow> (Inl e', d')) = (res, d')"
      using assms some by (simp add: delete_record_def write_tx_def)
    show thesis
    proof (cases "delete_guards k p n cur m w limits vault d")
      case (Inl e)
      from refuse_tx [OF del [unfolded Inl sum.case]] show thesis using unchanged refused by blast
    next
      case (Inr g)
      obtain nv pruned used where g: "g = (nv, pruned, used)" by (cases g)
      show thesis
      proof (cases "write_version c k p (version_of_write n nv w (cx_actor ctx)) pruned used
          (written (cx_actor ctx) (delete_action k) (Some n) nv None) (cx_now ctx) d")
        case (Inl e)
        with del g \<open>delete_guards _ _ _ _ _ _ _ _ _ = _\<close> show thesis by (intro unchanged) auto
      next
        case wr: (Inr d1)
        with del g Inr have "res = Inr nv" "d1 = d'" by auto
        with some Inr g wr show thesis by (intro ok) auto
      qed
    qed
  qed
qed

section \<open>Writes keep the invariant\<close>

lemma write_version_ok:
  assumes "write_version c k p r pruned used ev now d = Inr d'"
  shows "append_audit c p ev now
    (after_write k p (vn_name r) (version_rec c p r) (fst ` set pruned) used d) = Inr d'"
proof -
  from assms obtain d1 where ins: "insert_version c k p r d = Inr d1"
    and app: "append_audit c p ev now (update_vault p (\<lambda>v. v\<lparr>v_bytes_used := used, v_revision := v_revision v + 1\<rparr>)
       (delete_versions k p (vn_name r) pruned (set_head k p (vn_name r) (vn_version r) (vn_value_ct r = None) d1))) = Inr d'"
    unfolding write_version_def rbind_eq_Inr Let_def by blast
  from app show ?thesis unfolding after_write_eq [OF ins] .
qed

lemma bytes_used_stored:
  assumes "db_inv c d" and "load_vault d p = Some vault"
  shows "bytes_used vault = stored_bytes d p"
proof -
  from load_vault_find [OF assms(2)] obtain v where v: "find_vault p d = Some v" "vault_row d v = Some vault"
    by blast
  with find_vault_in [OF v(1)] assms(1) show ?thesis
    by (auto simp: vault_row_fields db_inv_def bytes_ok_def)
qed

lemma freed_le:
  assumes "db_inv c d"
  shows "freed_bytes (prunable d k p n m) \<le> stored_bytes d p"
proof -
  have "records_ok c (pks d) (records d k) (heads d k)" using assms by (simp add: db_inv_def tables_ok_def)
  from freed_prunable [OF this, of p n m]
  have "freed_bytes (prunable d k p n m) \<le> vault_bytes (records d k) p"
    using vault_bytes_filter [of "\<lambda>x. same_name p n x \<and> vn_version x \<in> fst ` set (prunable d k p n m)" "records d k" p]
    by simp
  then show ?thesis by (simp add: stored_bytes_kinds [of d p k] kind_bytes_def)
qed

lemma write_version_inv:
  assumes inv: "db_inv c d" and p: "p \<in> pks d"
    and wr: "write_version c k p r (prunable d k p (vn_name r) m) used ev now d = Inr d'"
    and newest: "\<forall>x \<in> set (records d k). same_name p (vn_name r) x \<longrightarrow> vn_version x < vn_version r"
    and used: "used = stored_bytes d p + version_bytes r - freed_bytes (prunable d k p (vn_name r) m)"
  shows "db_inv c d'"
proof -
  have ok: "records_ok c (pks d) (records d k) (heads d k)" using inv by (simp add: db_inv_def tables_ok_def)
  let ?r = "version_rec c p r"
  have "\<forall>x \<in> fst ` set (prunable d k p (vn_name r) m). x < vn_version ?r"
    using newest prunable_versions by fastforce
  moreover have "used + freed_bytes (prunable d k p (vn_name r) m) = stored_bytes d p + version_bytes ?r"
    using used freed_le [OF inv, of k p "vn_name r" m] by simp
  ultimately have "db_inv c (after_write k p (vn_name r) ?r (fst ` set (prunable d k p (vn_name r) m)) used d)"
    using newest by (intro after_write_inv [OF inv p]) (simp_all add: freed_prunable [OF ok])
  then show ?thesis by (rule append_audit_db_inv) (rule write_version_ok [OF wr])
qed

lemma version_of_write_simps [simp]:
  "vn_name (version_of_write n v w a) = n" "vn_version (version_of_write n v w a) = v"
  "vn_value_ct (version_of_write n v w a) = w_value_ct w"
  "version_bytes (version_of_write n v w a)
     = length (w_name_ct w) + (case w_value_ct w of None \<Rightarrow> 0 | Some b \<Rightarrow> length b)"
  by (simp_all add: version_of_write_def version_bytes_def)

lemma put_guards_ok:
  assumes "put_guards k p n pre w value_ct limits vault d = Inr (nv, pruned, used)"
  shows "w_generation w = generation vault" "length value_ct \<le> max_value k limits"
    "next_version pre (load_head d k p n) = Inr nv" "w_version w = nv"
    "pruned = prunable d k p n (max_kind_versions k limits)"
    "used = u64_total (bytes_used vault) (length (w_name_ct w) + length value_ct) (freed_bytes pruned)"
    "used \<le> unat (max_vault_bytes limits)"
    "(case load_head d k p n of None \<Rightarrow> True | Some (_, t) \<Rightarrow> t) \<Longrightarrow> live_records d p k < max_live k limits"
  using assms by (auto simp: put_guards_def Let_def rbind_eq_Inr split: if_splits option.splits)

lemma put_record_inv:
  assumes inv: "db_inv c d"
  shows "db_inv c (snd (put_record c p k n pre w ctx limits d))"
proof -
  obtain res d' where put: "put_record c p k n pre w ctx limits d = (res, d')"
    by (cases "put_record c p k n pre w ctx limits d")
  have tab: "records_ok c (pks d) (records d k) (heads d k)" using inv by (simp add: db_inv_def tables_ok_def)
  from put have "db_inv c d'"
  proof (cases rule: put_record_cases)
    case (ok vault value_ct nv pruned used)
    note g = put_guards_ok [OF ok(3)]
    have "freed_bytes pruned \<le> stored_bytes d p" unfolding g(5) by (rule freed_le [OF inv])
    then have "used = stored_bytes d p + (length (w_name_ct w) + length value_ct) - freed_bytes pruned"
      using g(6) by (simp add: u64_total_def bytes_used_stored [OF inv ok(2)])
    moreover have wr: "write_version c k p (version_of_write n nv w (cx_actor ctx))
        (prunable d k p (vn_name (version_of_write n nv w (cx_actor ctx))) (max_kind_versions k limits)) used
        (written (cx_actor ctx) (put_action k) (Some n) nv (Some (hash_sha256 c value_ct))) (cx_now ctx) d = Inr d'"
      using ok(4) g(5) by simp
    ultimately show ?thesis
      using load_vault_pks [OF ok(2)] next_version_newest [OF tab g(3)] ok(1) g(5)
      by (intro write_version_inv [OF inv _ wr]) auto
  qed (use inv append_audit_db_inv in blast)+
  with put show ?thesis by simp
qed

lemma delete_record_inv:
  assumes inv: "db_inv c d"
  shows "db_inv c (snd (delete_record c p k n m w ctx limits d))"
proof -
  obtain res d' where del: "delete_record c p k n m w ctx limits d = (res, d')"
    by (cases "delete_record c p k n m w ctx limits d")
  have tab: "records_ok c (pks d) (records d k) (heads d k)" using inv by (simp add: db_inv_def tables_ok_def)
  from del have "db_inv c d'"
  proof (cases rule: delete_record_cases)
    case (ok vault cur nv pruned used)
    have g: "nv = cur + 1" "pruned = prunable d k p n (max_kind_versions k limits)"
      "used = bytes_used vault + length (w_name_ct w) - freed_bytes pruned"
      using ok(4) by (auto simp: delete_guards_def Let_def split: if_splits)
    have "next_version (IfMatch cur) (load_head d k p n) = Inr nv" using ok(3) g(1) by simp
    moreover have wr: "write_version c k p (version_of_write n nv w (cx_actor ctx))
        (prunable d k p (vn_name (version_of_write n nv w (cx_actor ctx))) (max_kind_versions k limits)) used
        (written (cx_actor ctx) (delete_action k) (Some n) nv None) (cx_now ctx) d = Inr d'"
      using ok(5) g(2) by simp
    ultimately show ?thesis
      using load_vault_pks [OF ok(2)] next_version_newest [OF tab] ok(1) g(2,3)
      by (intro write_version_inv [OF inv _ wr])
        (auto simp: bytes_used_stored [OF inv ok(2)])
  qed (use inv append_audit_db_inv in blast)+
  with del show ?thesis by simp
qed

section \<open>What a write does to the records\<close>

text \<open>The abstract view of the record tables: the current version of each name.\<close>

definition current :: "db \<Rightarrow> VaultPk \<times> RecordKind \<times> NameHmac \<rightharpoonup> VersionRow" where
  "current d = (\<lambda>(p, k, n). latest_record d p k n)"

lemma find_filter_other:
  "(\<And>x. P x \<Longrightarrow> Q x) \<Longrightarrow> \<not> P y \<Longrightarrow> find P (filter Q xs @ [y]) = find P xs"
  by (induction xs) auto

lemma find_filter_new:
  "\<forall>x \<in> set xs. \<not> P x \<Longrightarrow> P y \<Longrightarrow> find P (filter Q xs @ [y]) = Some y"
  by (induction xs) auto

lemma after_write_records:
  assumes "vn_pk r = p" "vn_name r = n" "\<forall>x \<in> V. x < vn_version r"
  shows "records (after_write k p n r V tot d)
    = (records d)(k := filter (\<lambda>x. \<not> (same_name p n x \<and> vn_version x \<in> V)) (records d k) @ [r])"
  using assms by (auto simp: after_write_def same_name_def)

lemma find_map_key:
  "(\<And>h. g h = key \<Longrightarrow> g (f h) = key) \<Longrightarrow> (\<And>h. g h \<noteq> key \<Longrightarrow> f h = h) \<Longrightarrow>
   find (\<lambda>h. g h = key) (map f hs) = map_option f (find (\<lambda>h. g h = key) hs)"
  by (induction hs) auto

lemma find_map_other:
  "(\<And>h. g (f h) = g h) \<Longrightarrow> (\<And>h. g h \<noteq> key' \<Longrightarrow> f h = h) \<Longrightarrow> key \<noteq> key' \<Longrightarrow>
   find (\<lambda>h. g h = key) (map f hs) = find (\<lambda>h. g h = key) hs"
proof (induction hs)
  case (Cons h hs)
  then show ?case by (cases "g h = key'") auto
qed simp

lemma find_upsert_head:
  "find (\<lambda>h. head_key h = key) (upsert_head p n v t hs) =
     (if key = (p, n) then Some \<lparr>h_pk = p, h_name = n, h_version = v, h_tombstone = t\<rparr>
      else find (\<lambda>h. head_key h = key) hs)"
proof -
  let ?new = "\<lparr>h_pk = p, h_name = n, h_version = v, h_tombstone = t\<rparr>"
  let ?f = "\<lambda>h. if head_key h = (p, n) then ?new else h"
  have up: "upsert_head p n v t hs = (if \<exists>h \<in> set hs. head_key h = (p, n) then map ?f hs else hs @ [?new])"
    unfolding upsert_head_def head_key_def Let_def by simp
  have key: "head_key ?new = (p, n)" by (simp add: head_key_def)
  show ?thesis
  proof (cases "\<exists>h \<in> set hs. head_key h = (p, n)")
    case True
    then obtain h where h: "find (\<lambda>h. head_key h = (p, n)) hs = Some h"
      by (cases "find (\<lambda>h. head_key h = (p, n)) hs") (auto simp: find_None_all)
    then have "head_key h = (p, n)" by (auto dest: find_Some_set)
    have "find (\<lambda>h. head_key h = (p, n)) (map ?f hs) = map_option ?f (find (\<lambda>h. head_key h = (p, n)) hs)"
      by (rule find_map_key) (simp_all add: key)
    moreover have "find (\<lambda>h. head_key h = key) (map ?f hs) = find (\<lambda>h. head_key h = key) hs" if "key \<noteq> (p, n)"
      using that by (intro find_map_other [where key' = "(p, n)"]) (simp_all add: key)
    ultimately show ?thesis
      using True h \<open>head_key h = (p, n)\<close> unfolding up by simp
  next
    case False
    then have "find (\<lambda>h. head_key h = (p, n)) (filter (\<lambda>_. True) hs @ [?new]) = Some ?new"
      by (intro find_filter_new) (auto simp: key)
    moreover have "find (\<lambda>h. head_key h = key) (filter (\<lambda>_. True) hs @ [?new]) = find (\<lambda>h. head_key h = key) hs"
      if "key \<noteq> (p, n)"
      using that by (intro find_filter_other) (simp_all add: key)
    ultimately show ?thesis using False unfolding up by simp
  qed
qed

lemma load_head_key: "load_head d k p n = map_option (\<lambda>h. (h_version h, h_tombstone h))
    (find (\<lambda>h. head_key h = (p, n)) (heads d k))"
  by (simp add: load_head_def head_key_def)

lemma load_head_upsert:
  "load_head (after_write k p n r V tot d) k' p' n' =
     (if (p', k', n') = (p, k, n) then Some (vn_version r, vn_tombstone r) else load_head d k' p' n')"
  by (simp add: load_head_key after_write_def find_upsert_head)

lemma write_version_current:
  assumes wr: "write_version c k p r pruned used ev now d = Inr d'"
    and newest: "\<forall>x \<in> set (records d k). same_name p (vn_name r) x \<longrightarrow> vn_version x < vn_version r"
    and old: "\<forall>x \<in> fst ` set pruned. x < vn_version r"
    and heads: "tables_ok c d"
  shows "current d' = (current d)((p, k, vn_name r) \<mapsto> r\<lparr>vn_tombstone := (vn_value_ct r = None)\<rparr>)"
proof -
  let ?r = "version_rec c p r"
  let ?d = "after_write k p (vn_name r) ?r (fst ` set pruned) used d"
  note only = audit_only_fields [OF append_audit_only [OF write_version_ok [OF wr]]]
  have recs: "records d' = (records d)(k := filter (\<lambda>x. \<not> (same_name p (vn_name r) x \<and> vn_version x \<in> fst ` set pruned)) (records d k) @ [?r])"
    using old by (simp add: only after_write_records)
  have head: "load_head d' k' p' n' = load_head ?d k' p' n'" for k' p' n'
    by (simp add: load_head_def only)
  have "latest_record d' p' k' n' = (if (p', k', n') = (p, k, vn_name r)
      then Some (r\<lparr>vn_tombstone := (vn_value_ct r = None)\<rparr>) else latest_record d p' k' n')" for p' k' n'
  proof (cases "(p', k', n') = (p, k, vn_name r)")
    case True
    have "find (\<lambda>x. vn_pk x = p \<and> vn_name x = vn_name r \<and> vn_version x = vn_version r) (records d' k) = Some ?r"
      unfolding recs using newest by (simp, intro find_filter_new) (auto simp: same_name_def)
    with True show ?thesis
      by (simp add: latest_record_def record_version_def head load_head_upsert)
  next
    case False
    have "find (\<lambda>x. vn_pk x = p' \<and> vn_name x = n' \<and> vn_version x = v) (records d' k')
        = find (\<lambda>x. vn_pk x = p' \<and> vn_name x = n' \<and> vn_version x = v) (records d k')" for v
    proof (cases "k' = k")
      case True
      then show ?thesis
        unfolding recs using False by (simp, intro find_filter_other) (auto simp: same_name_def)
    qed (simp add: recs)
    moreover have "load_head d' k' p' n' = load_head d k' p' n'"
      using False unfolding head load_head_upsert by (simp only: if_False)
    ultimately have "latest_record d' p' k' n' = latest_record d p' k' n'"
      by (cases "load_head d k' p' n'") (auto simp: latest_record_def record_version_def)
    with False show ?thesis by (simp only: if_False)
  qed
  then show ?thesis by (auto simp: current_def fun_eq_iff)
qed

lemma put_record_written:
  assumes inv: "db_inv c d" and put: "put_record c p k n pre w ctx limits d = (Inr v, d')"
  shows "current d' = (current d)((p, k, n) \<mapsto> version_of_write n v w (cx_actor ctx))
    \<and> w_version w = v \<and> next_version pre (load_head d k p n) = Inr v"
proof -
  from put show ?thesis
  proof (cases rule: put_record_cases)
    case (ok vault value_ct nv pruned used)
    note g = put_guards_ok [OF ok(3)]
    have tab: "records_ok c (pks d) (records d k) (heads d k)" "tables_ok c d"
      using inv by (simp_all add: db_inv_def tables_ok_def)
    note newest = next_version_newest [OF tab(1) g(3)]
    have "\<forall>x \<in> fst ` set pruned. x < nv"
      using newest prunable_versions unfolding g(5) by fastforce
    then have "current d' = (current d)((p, k, n) \<mapsto> version_of_write n nv w (cx_actor ctx))"
      using write_version_current [OF ok(4) _ _ tab(2)] newest by (simp add: version_of_write_def)
    with ok(5) g show ?thesis by simp
  qed simp_all
qed

end
