(* ===== verification/Store_Rotate.thy ===== *)
theory Store_Rotate
  imports Store_Records
begin

text \<open>
  Rotation replaces every record of a vault at once, moves its generation and reseals or revokes
  its tokens. This theory describes the tables a rotation leaves, and shows that rotation,
  vault creation and deletion, children writes and journal replay keep the invariant.
\<close>

section \<open>Replacing the records of one kind\<close>

lemma replace_loop_eq:
  "replace_loop c k p rows hs b d = Inr (hs', b', d') \<Longrightarrow>
   hs' = fold note_head rows hs \<and> b' = b + sum_list (map version_bytes rows)
   \<and> d' = d\<lparr>records := (records d)(k := records d k @ map (version_rec c p) rows)\<rparr>"
proof (induction c k p rows hs b d rule: replace_loop.induct)
  case (2 c k p r rs hs b d)
  from 2(2) obtain d1 where "insert_version c k p r d = Inr d1"
    and rest: "replace_loop c k p rs (note_head r hs) (b + version_bytes r) d1 = Inr (hs', b', d')"
    by (auto simp: rbind_eq_Inr)
  then have d1: "d1 = d\<lparr>records := (records d)(k := records d k @ [version_rec c p r])\<rparr>"
    by (simp add: insert_version_eq)
  show ?case using 2(1) [OF rest] unfolding d1 by (simp del: fun_upd_apply add: fun_upd_same)
qed auto

definition head_rec :: "VaultPk \<Rightarrow> NameHmac \<times> nat \<times> bool \<Rightarrow> HeadRec" where
  "head_rec p h = \<lparr>h_pk = p, h_name = fst h, h_version = fst (snd h), h_tombstone = snd (snd h)\<rparr>"

lemma head_rec_simps [simp]:
  "h_pk (head_rec p h) = p" "h_name (head_rec p h) = fst h" "h_version (head_rec p h) = fst (snd h)"
  "h_tombstone (head_rec p h) = snd (snd h)"
  by (simp_all add: head_rec_def)

lemma fold_set_head:
  assumes "distinct (map fst hs)" and "\<forall>h \<in> set (heads d k). h_pk h = p \<longrightarrow> h_name h \<notin> fst ` set hs"
  shows "fold (\<lambda>(n, version, tombstone). set_head k p n version tombstone) hs d
    = d\<lparr>heads := (heads d)(k := heads d k @ map (head_rec p) hs)\<rparr>"
  using assms
proof (induction hs arbitrary: d)
  case (Cons h hs)
  obtain n v t where h: "h = (n, v, t)" by (cases h)
  have "set_head k p n v t d = d\<lparr>heads := (heads d)(k := heads d k @ [head_rec p h])\<rparr>"
    using Cons.prems(2) by (auto simp: set_head_def upsert_head_def Let_def head_rec_def h)
  then have "fold (\<lambda>(n, version, tombstone). set_head k p n version tombstone) (h # hs) d
      = fold (\<lambda>(n, version, tombstone). set_head k p n version tombstone) hs
          (d\<lparr>heads := (heads d)(k := heads d k @ [head_rec p h])\<rparr>)"
    by (simp add: h)
  also have "fold (\<lambda>(n, version, tombstone). set_head k p n version tombstone) hs
      (d\<lparr>heads := (heads d)(k := heads d k @ [head_rec p h])\<rparr>)
    = d\<lparr>heads := (heads d)(k := heads d k @ map (head_rec p) (h # hs))\<rparr>"
    using Cons.prems by (subst Cons.IH) (auto simp: head_rec_def)
  finally show ?case .
qed simp

text \<open>What the loop keeps per name: the newest version seen.\<close>

definition newest_heads :: "VersionRow list \<Rightarrow> (NameHmac \<times> nat \<times> bool) list \<Rightarrow> bool" where
  "newest_heads rows hs \<longleftrightarrow> distinct (map fst hs)
     \<and> (\<forall>(n, v, t) \<in> set hs. \<exists>r \<in> set rows. vn_name r = n \<and> vn_version r = v \<and> t = (vn_value_ct r = None))
     \<and> (\<forall>r \<in> set rows. \<exists>(n, v, t) \<in> set hs. n = vn_name r \<and> vn_version r \<le> v)"

lemma note_head_newest:
  assumes "newest_heads rows hs"
  shows "newest_heads (rows @ [r]) (note_head r hs)"
proof (cases "map_of hs (vn_name r)")
  case None
  then have "vn_name r \<notin> fst ` set hs" by (simp add: map_of_eq_None_iff)
  with assms None show ?thesis by (fastforce simp: newest_heads_def note_head_def)
next
  case (Some vt)
  obtain v t where vt: "vt = (v, t)" by (cases vt)
  have dist: "distinct (map fst hs)" using assms by (simp add: newest_heads_def)
  have mem: "(vn_name r, v, t) \<in> set hs" using Some vt by (simp add: map_of_SomeD)
  have uniq: "(v', t') = (v, t)" if "(vn_name r, v', t') \<in> set hs" for v' t'
    using that dist Some vt by simp
  show ?thesis
  proof (cases "v \<le> vn_version r")
    case False
    then have "note_head r hs = hs" using Some vt by (simp add: note_head_def)
    moreover have "\<exists>(n, v, t) \<in> set hs. n = vn_name r \<and> vn_version r \<le> v" using mem False by (intro bexI [of _ "(vn_name r, v, t)"]) auto
    ultimately show ?thesis using assms by (auto simp: newest_heads_def)
  next
    case True
    let ?new = "(vn_name r, vn_version r, vn_value_ct r = None)"
    have nh: "note_head r hs = map (\<lambda>h. if fst h = vn_name r then ?new else h) hs"
      using Some vt True by (simp add: note_head_def)
    have fst_eq: "map fst (note_head r hs) = map fst hs" unfolding nh by auto
    have set_eq: "set (note_head r hs) = insert ?new {h \<in> set hs. fst h \<noteq> vn_name r}"
      unfolding nh using mem by (auto simp: image_iff)
    have below: "vn_version x \<le> vn_version r" if "x \<in> set rows" "vn_name x = vn_name r" for x
      using assms that uniq True unfolding newest_heads_def by (fastforce dest: bspec)
    show ?thesis
      unfolding newest_heads_def fst_eq set_eq
    proof (intro conjI)
      show "\<forall>(n, v, t) \<in> insert ?new {h \<in> set hs. fst h \<noteq> vn_name r}. \<exists>x \<in> set (rows @ [r]).
          vn_name x = n \<and> vn_version x = v \<and> t = (vn_value_ct x = None)"
        using assms by (auto simp: newest_heads_def)
      show "\<forall>x \<in> set (rows @ [r]). \<exists>(n, v, t) \<in> insert ?new {h \<in> set hs. fst h \<noteq> vn_name r}.
          n = vn_name x \<and> vn_version x \<le> v"
      proof
        fix x assume x: "x \<in> set (rows @ [r])"
        show "\<exists>(n, v, t) \<in> insert ?new {h \<in> set hs. fst h \<noteq> vn_name r}. n = vn_name x \<and> vn_version x \<le> v"
        proof (cases "vn_name x = vn_name r")
          case True
          with x below show ?thesis by auto
        next
          case False
          with x assms have "\<exists>(n, v, t) \<in> set hs. n = vn_name x \<and> vn_version x \<le> v"
            by (auto simp: newest_heads_def)
          with False show ?thesis by fastforce
        qed
      qed
    qed (rule dist)
  qed
qed

lemma fold_note_head: "newest_heads rows (fold note_head rows [])"
  by (induction rows rule: rev_induct) (simp_all add: note_head_newest, simp add: newest_heads_def)

lemma replace_records_ok:
  assumes ok: "records_ok c P rs hs" and p: "p \<in> P"
    and rows: "distinct (map (\<lambda>r. (vn_name r, vn_version r)) rows)" and new: "newest_heads rows nh"
  shows "records_ok c P (filter (\<lambda>r. vn_pk r \<noteq> p) rs @ map (version_rec c p) rows)
    (filter (\<lambda>h. h_pk h \<noteq> p) hs @ map (head_rec p) nh)"
proof -
  let ?rs = "filter (\<lambda>r. vn_pk r \<noteq> p) rs @ map (version_rec c p) rows"
  let ?hs = "filter (\<lambda>h. h_pk h \<noteq> p) hs @ map (head_rec p) nh"
  have "distinct (map rec_key (filter (\<lambda>r. vn_pk r \<noteq> p) rs))"
    using ok by (intro distinct_map_filterI) (simp add: records_ok_def)
  moreover have "map rec_key (map (version_rec c p) rows) = map (\<lambda>x. (p, x)) (map (\<lambda>r. (vn_name r, vn_version r)) rows)"
    by (simp add: rec_key_def)
  then have "distinct (map rec_key (map (version_rec c p) rows))"
    using rows by (simp only: distinct_map) (simp add: inj_on_def)
  ultimately have 1: "distinct (map rec_key ?rs)" by (auto simp: rec_key_def)
  have "distinct (map head_key (filter (\<lambda>h. h_pk h \<noteq> p) hs))"
    using ok by (intro distinct_map_filterI) (simp add: records_ok_def)
  moreover have "map head_key (map (head_rec p) nh) = map (\<lambda>x. (p, x)) (map fst nh)"
    by (simp add: head_key_def head_rec_def)
  then have "distinct (map head_key (map (head_rec p) nh))"
    using new by (simp only: distinct_map newest_heads_def) (simp add: inj_on_def)
  ultimately have 2: "distinct (map head_key ?hs)" by (auto simp: head_key_def head_rec_def)
  have "heads_ok ?rs ?hs"
    unfolding heads_ok_def
  proof (intro conjI ballI)
    fix h assume "h \<in> set ?hs"
    then consider "h \<in> set hs" "h_pk h \<noteq> p" | x where "x \<in> set nh" "h = head_rec p x" by auto
    then show "\<exists>r \<in> set ?rs. vn_pk r = h_pk h \<and> vn_name r = h_name h \<and> vn_version r = h_version h
        \<and> vn_tombstone r = h_tombstone h"
    proof cases
      case 1
      with ok obtain r where "r \<in> set rs" "vn_pk r = h_pk h" "vn_name r = h_name h"
          "vn_version r = h_version h" "vn_tombstone r = h_tombstone h"
        by (auto simp: records_ok_def heads_ok_def)
      with 1 show ?thesis by auto
    next
      case 2
      with new obtain r where "r \<in> set rows" "vn_name r = fst x" "vn_version r = fst (snd x)"
          "snd (snd x) = (vn_value_ct r = None)"
        unfolding newest_heads_def by (cases x) fastforce
      with 2 show ?thesis by (intro bexI [of _ "version_rec c p r"]) (auto simp: head_rec_def)
    qed
  next
    fix r assume "r \<in> set ?rs"
    then consider "r \<in> set rs" "vn_pk r \<noteq> p" | x where "x \<in> set rows" "r = version_rec c p x" by auto
    then show "\<exists>h \<in> set ?hs. h_pk h = vn_pk r \<and> h_name h = vn_name r \<and> vn_version r \<le> h_version h"
    proof cases
      case 1
      with ok obtain h where "h \<in> set hs" "h_pk h = vn_pk r" "h_name h = vn_name r" "vn_version r \<le> h_version h"
        by (auto simp: records_ok_def heads_ok_def)
      with 1 show ?thesis by auto
    next
      case 2
      with new obtain y where "y \<in> set nh" "fst y = vn_name x" "vn_version x \<le> fst (snd y)"
        unfolding newest_heads_def by fastforce
      with 2 show ?thesis by (intro bexI [of _ "head_rec p y"]) simp_all
    qed
  qed
  with 1 2 ok p show ?thesis by (auto simp: records_ok_def)
qed

lemma replace_records_eq:
  assumes "replace_records c k p rows d = Inr (b, d')"
  shows "b = sum_list (map version_bytes rows)"
    "d' = d\<lparr>records := (records d)(k := filter (\<lambda>r. vn_pk r \<noteq> p) (records d k) @ map (version_rec c p) rows),
       heads := (heads d)(k := filter (\<lambda>h. h_pk h \<noteq> p) (heads d k) @ map (head_rec p) (fold note_head rows []))\<rparr>"
proof -
  let ?d1 = "d\<lparr>heads := (heads d)(k := filter (\<lambda>h. h_pk h \<noteq> p) (heads d k)),
    records := (records d)(k := filter (\<lambda>r. vn_pk r \<noteq> p) (records d k))\<rparr>"
  from assms obtain hs d2 where loop: "replace_loop c k p rows [] 0 ?d1 = Inr (hs, b, d2)"
    and d': "d' = fold (\<lambda>(n, version, tombstone). set_head k p n version tombstone) hs d2"
    by (auto simp: replace_records_def Let_def rbind_eq_Inr)
  note eqs = replace_loop_eq [OF loop]
  from eqs show "b = sum_list (map version_bytes rows)" by simp
  have hs: "hs = fold note_head rows []" using eqs by simp
  have d2: "d2 = d\<lparr>heads := (heads d)(k := filter (\<lambda>h. h_pk h \<noteq> p) (heads d k)),
      records := (records d)(k := filter (\<lambda>r. vn_pk r \<noteq> p) (records d k) @ map (version_rec c p) rows)\<rparr>"
    using eqs by (simp del: fun_upd_apply add: fun_upd_same)
  have "distinct (map fst hs)" using fold_note_head [of rows] by (simp add: hs newest_heads_def)
  then have "d' = d2\<lparr>heads := (heads d2)(k := heads d2 k @ map (head_rec p) hs)\<rparr>"
    unfolding d' by (rule fold_set_head) (simp add: d2)
  then show "d' = d\<lparr>records := (records d)(k := filter (\<lambda>r. vn_pk r \<noteq> p) (records d k) @ map (version_rec c p) rows),
       heads := (heads d)(k := filter (\<lambda>h. h_pk h \<noteq> p) (heads d k) @ map (head_rec p) (fold note_head rows []))\<rparr>"
    unfolding d2 hs by (simp del: fun_upd_apply add: fun_upd_same)
qed

section \<open>What a rotation leaves\<close>

text \<open>The record and head tables after both kinds were replaced.\<close>

definition rotated_records :: "crypto \<Rightarrow> VaultPk \<Rightarrow> (RecordKind \<Rightarrow> VersionRow list) \<Rightarrow> db \<Rightarrow> db" where
  "rotated_records c p rows d = d\<lparr>
     records := (\<lambda>k. filter (\<lambda>r. vn_pk r \<noteq> p) (records d k) @ map (version_rec c p) (rows k)),
     heads := (\<lambda>k. filter (\<lambda>h. h_pk h \<noteq> p) (heads d k) @ map (head_rec p) (fold note_head (rows k) []))\<rparr>"

definition rotation_rows :: "RotationRequest \<Rightarrow> RecordKind \<Rightarrow> RotatedVersion list" where
  "rotation_rows r k = (case k of RecordKind.Secret \<Rightarrow> rr_secrets r | RecordKind.Config \<Rightarrow> rr_configs r)"

lemma replace_both:
  assumes "replace_records c RecordKind.Secret p ss d = Inr (b1, d1)"
    and "replace_records c RecordKind.Config p cs d1 = Inr (b2, d2)"
  shows "d2 = rotated_records c p (\<lambda>k. case k of RecordKind.Secret \<Rightarrow> ss | RecordKind.Config \<Rightarrow> cs) d"
  unfolding rotated_records_def
  by (rule db.equality)
    (simp_all add: replace_records_eq [OF assms(1)] replace_records_eq [OF assms(2)] fun_eq_iff split: RecordKind.split)

lemma rewritten_ok:
  assumes "rewritten batch meta g ctx = Inr rows"
  shows "distinct (map (\<lambda>r. (vn_name r, vn_version r)) rows)" "length rows = length batch"
  using assms by (auto simp: rewritten_def comp_def split: if_splits)

lemma rotated_bytes:
  "stored_bytes (rotated_records c p rows d) q = (if q = p
     then sum_list (map version_bytes (rows RecordKind.Secret)) + sum_list (map version_bytes (rows RecordKind.Config))
     else stored_bytes d q)"
proof -
  have "filter (\<lambda>r. vn_pk r = q) (filter (\<lambda>r. vn_pk r \<noteq> p) rs) = (if q = p then [] else filter (\<lambda>r. vn_pk r = q) rs)"
    for rs :: "VersionRec list"
    by (auto simp: filter_empty_conv intro: filter_cong)
  moreover have "filter (\<lambda>r. vn_pk r = q) (map (version_rec c p) rows) = (if q = p then map (version_rec c p) rows else [])" for rows
    by (induction rows) auto
  ultimately have "vault_bytes (filter (\<lambda>r. vn_pk r \<noteq> p) rs @ map (version_rec c p) rows) q
      = (if q = p then sum_list (map version_bytes rows) else vault_bytes rs q)" for rs rows
    by (simp add: vault_bytes_def comp_def)
  then show ?thesis by (simp add: stored_bytes_def rotated_records_def)
qed

lemma add_descriptor_frame [simp]:
  "vaults (add_descriptor p g sd d) = vaults d" "tokens (add_descriptor p g sd d) = tokens d"
  "records (add_descriptor p g sd d) = records d" "heads (add_descriptor p g sd d) = heads d"
  "children (add_descriptor p g sd d) = children d" "audit (add_descriptor p g sd d) = audit d"
  "last_applied (add_descriptor p g sd d) = last_applied d" "spent (add_descriptor p g sd d) = spent d"
  by (simp_all add: add_descriptor_def insert_descriptor_def)

lemma add_descriptor_eq:
  "descriptors (add_descriptor p g sd d) = (if find_descriptor p g d \<noteq> None then descriptors d
     else descriptors d @ [\<lparr>de_pk = p, de_generation = g, de_descriptor = sd\<rparr>])"
  by (simp add: add_descriptor_def insert_descriptor_def)

lemma find_descriptor_add:
  "find_descriptor p g (add_descriptor p g sd d) \<noteq> None"
  "find_descriptor q h d \<noteq> None \<Longrightarrow> find_descriptor q h (add_descriptor p g sd d) \<noteq> None"
  by (auto simp: find_descriptor_def add_descriptor_eq find_None_all)

text \<open>\<open>UPDATE tokens\<close> keeps ids and vaults.\<close>

lemma reseal_tokens_frame:
  "vaults (reseal_tokens p g bs d) = vaults d \<and> descriptors (reseal_tokens p g bs d) = descriptors d
   \<and> records (reseal_tokens p g bs d) = records d \<and> heads (reseal_tokens p g bs d) = heads d
   \<and> children (reseal_tokens p g bs d) = children d \<and> audit (reseal_tokens p g bs d) = audit d
   \<and> last_applied (reseal_tokens p g bs d) = last_applied d \<and> spent (reseal_tokens p g bs d) = spent d
   \<and> map t_id (tokens (reseal_tokens p g bs d)) = map t_id (tokens d)
   \<and> map t_vault_pk (tokens (reseal_tokens p g bs d)) = map t_vault_pk (tokens d)"
  unfolding reseal_tokens_def
proof (induction bs arbitrary: d)
  case (Cons b bs)
  let ?ts = "map (\<lambda>t. if t_vault_pk t = p \<and> t_id t = rb_token_id b
    then t\<lparr>t_bundle := rb_bundle b, t_generation := g\<rparr> else t) (tokens d)"
  have "map t_id ?ts = map t_id (tokens d)" "map t_vault_pk ?ts = map t_vault_pk (tokens d)" by simp_all
  with Cons [of "d\<lparr>tokens := ?ts\<rparr>"] show ?case by simp
qed simp

lemma apply_batch_split:
  assumes "apply_batch c vault r ctx d = Inr (g, d')"
  obtains rows where "g = from_generation r + 1"
    "\<forall>k. rewritten (rotation_rows r k) (map_of (version_meta_list d k (pk vault))) g ctx = Inr (rows k)"
    "finish_rotation c (pk vault) g r (sum_list (map version_bytes (rows RecordKind.Secret))
       + sum_list (map version_bytes (rows RecordKind.Config))) ctx (rotated_records c (pk vault) rows d) = Inr (g, d')"
proof -
  let ?p = "pk vault" and ?g = "from_generation r + 1"
  from assms obtain ss cs b1 d1 b2 d2 where
      ss: "rewritten (rr_secrets r) (map_of (version_meta_list d RecordKind.Secret ?p)) ?g ctx = Inr ss"
    and cs: "rewritten (rr_configs r) (map_of (version_meta_list d RecordKind.Config ?p)) ?g ctx = Inr cs"
    and r1: "replace_records c RecordKind.Secret ?p ss d = Inr (b1, d1)"
    and r2: "replace_records c RecordKind.Config ?p cs d1 = Inr (b2, d2)"
    and rest: "finish_rotation c ?p ?g r (b1 + b2) ctx d2 = Inr (g, d')"
    by (auto simp: apply_batch_def Let_def rbind_eq_Inr)
  define rows where "rows = (\<lambda>k. case k of RecordKind.Secret \<Rightarrow> ss | RecordKind.Config \<Rightarrow> cs)"
  have d2: "d2 = rotated_records c ?p rows d" unfolding rows_def by (rule replace_both [OF r1 r2])
  have b: "b1 = sum_list (map version_bytes (rows RecordKind.Secret))"
      "b2 = sum_list (map version_bytes (rows RecordKind.Config))"
    by (simp_all add: rows_def replace_records_eq(1) [OF r1] replace_records_eq(1) [OF r2])
  have g: "g = ?g" using rest by (auto simp: finish_rotation_def Let_def rbind_eq_Inr split: prod.splits)
  show thesis
  proof (rule that [OF g])
    show "\<forall>k. rewritten (rotation_rows r k) (map_of (version_meta_list d k ?p)) g ctx = Inr (rows k)"
      using ss cs g by (simp add: rotation_rows_def rows_def split: RecordKind.split)
  qed (use rest d2 b g in simp)
qed

lemma rotated_records_frame [simp]:
  "vaults (rotated_records c p rows d) = vaults d" "descriptors (rotated_records c p rows d) = descriptors d"
  "tokens (rotated_records c p rows d) = tokens d" "children (rotated_records c p rows d) = children d"
  "audit (rotated_records c p rows d) = audit d" "last_applied (rotated_records c p rows d) = last_applied d"
  "spent (rotated_records c p rows d) = spent d"
  by (simp_all add: rotated_records_def)

lemma finish_rotation_split:
  assumes "finish_rotation c p g r used ctx d = Inr (g', d')"
  obtains revoked d1 d3 where "g' = g"
    "delete_tokens p (revoke r) (add_descriptor p g (rr_descriptor r) d) = (revoked, d1)"
    "append_audit c p (written (cx_actor ctx) AuditAction.VaultRotate None 0
        (Some (hash_sha256 c (b64 (sd_descriptor (rr_descriptor r)))))) (cx_now ctx)
      (update_vault p (\<lambda>v. v\<lparr>v_generation := g, v_owner_bundle := rr_owner_bundle r,
          v_bytes_used := used, v_revision := v_revision v + 1\<rparr>) (reseal_tokens p g (rr_tokens r) d1)) = Inr d3"
    "audit_each c p (cx_actor ctx) AuditAction.TokenRevoke (cx_now ctx) revoked d3 = Inr d'"
proof -
  obtain revoked d1 where dt: "delete_tokens p (revoke r) (add_descriptor p g (rr_descriptor r) d) = (revoked, d1)"
    by (cases "delete_tokens p (revoke r) (add_descriptor p g (rr_descriptor r) d)")
  let ?d2 = "update_vault p (\<lambda>v. v\<lparr>v_generation := g, v_owner_bundle := rr_owner_bundle r,
      v_bytes_used := used, v_revision := v_revision v + 1\<rparr>) (reseal_tokens p g (rr_tokens r) d1)"
  from assms [unfolded finish_rotation_def Let_def dt prod.case rbind_eq_Inr] obtain d3 d4 where
      A: "append_audit c p (written (cx_actor ctx) AuditAction.VaultRotate None 0
        (Some (hash_sha256 c (b64 (sd_descriptor (rr_descriptor r)))))) (cx_now ctx) ?d2 = Inr d3"
      and B: "audit_each c p (cx_actor ctx) AuditAction.TokenRevoke (cx_now ctx) revoked d3 = Inr d4"
      and eq: "(Inr (g, d4) :: StoreError + u32 \<times> db) = Inr (g', d')"
    by blast
  from eq have "g' = g" "d4 = d'" by simp_all
  with A B show thesis using that [OF _ dt] by blast
qed

text \<open>The whole effect of an applied batch, up to the audit rows.\<close>

definition rotated_tokens :: "VaultPk \<Rightarrow> u32 \<Rightarrow> RotationRequest \<Rightarrow> db \<Rightarrow> db" where
  "rotated_tokens p g r d = reseal_tokens p g (rr_tokens r)
     (d\<lparr>tokens := filter (\<lambda>t. \<not> (t_vault_pk t = p \<and> t_id t \<in> set (revoke r))) (tokens d)\<rparr>)"

lemma apply_batch_effect:
  assumes "apply_batch c vault r ctx d = Inr (g, d')"
  obtains rows used where "g = from_generation r + 1"
    "\<forall>k. rewritten (rotation_rows r k) (map_of (version_meta_list d k (pk vault))) g ctx = Inr (rows k)"
    "audit_only (update_vault (pk vault) (\<lambda>v. v\<lparr>v_generation := g, v_owner_bundle := rr_owner_bundle r,
          v_bytes_used := used, v_revision := v_revision v + 1\<rparr>) (rotated_tokens (pk vault) g r
         (add_descriptor (pk vault) g (rr_descriptor r) (rotated_records c (pk vault) rows d)))) d'"
proof -
  let ?p = "pk vault"
  from assms obtain rows where g: "g = from_generation r + 1"
    and rows: "\<forall>k. rewritten (rotation_rows r k) (map_of (version_meta_list d k ?p)) g ctx = Inr (rows k)"
    and fin: "finish_rotation c ?p g r (sum_list (map version_bytes (rows RecordKind.Secret))
       + sum_list (map version_bytes (rows RecordKind.Config))) ctx (rotated_records c ?p rows d) = Inr (g, d')"
    by (rule apply_batch_split)
  from fin obtain revoked d1 d3 where
      dt: "delete_tokens ?p (revoke r) (add_descriptor ?p g (rr_descriptor r) (rotated_records c ?p rows d)) = (revoked, d1)"
    and ap: "append_audit c ?p (written (cx_actor ctx) AuditAction.VaultRotate None 0
        (Some (hash_sha256 c (b64 (sd_descriptor (rr_descriptor r)))))) (cx_now ctx)
      (update_vault ?p (\<lambda>v. v\<lparr>v_generation := g, v_owner_bundle := rr_owner_bundle r,
          v_bytes_used := sum_list (map version_bytes (rows RecordKind.Secret))
       + sum_list (map version_bytes (rows RecordKind.Config)), v_revision := v_revision v + 1\<rparr>)
        (reseal_tokens ?p g (rr_tokens r) d1)) = Inr d3"
    and ea: "audit_each c ?p (cx_actor ctx) AuditAction.TokenRevoke (cx_now ctx) revoked d3 = Inr d'"
    by (rule finish_rotation_split)
  have d1: "reseal_tokens ?p g (rr_tokens r) d1
      = rotated_tokens ?p g r (add_descriptor ?p g (rr_descriptor r) (rotated_records c ?p rows d))"
    using delete_tokens_eq [OF dt] by (simp add: rotated_tokens_def)
  show thesis
    using that [OF g rows] audit_only_trans [OF append_audit_only [OF ap] audit_each_only [OF ea]]
    unfolding d1 .
qed

lemma rotated_tokens_frame [simp]:
  "vaults (rotated_tokens p g r d) = vaults d" "descriptors (rotated_tokens p g r d) = descriptors d"
  "records (rotated_tokens p g r d) = records d" "heads (rotated_tokens p g r d) = heads d"
  "children (rotated_tokens p g r d) = children d" "audit (rotated_tokens p g r d) = audit d"
  "last_applied (rotated_tokens p g r d) = last_applied d" "spent (rotated_tokens p g r d) = spent d"
  using reseal_tokens_frame [of p g "rr_tokens r"
    "d\<lparr>tokens := filter (\<lambda>t. \<not> (t_vault_pk t = p \<and> t_id t \<in> set (revoke r))) (tokens d)\<rparr>"]
  by (simp_all add: rotated_tokens_def)

lemma apply_batch_frame:
  assumes "apply_batch c vault r ctx d = Inr (g, d')"
  shows "last_applied d' = last_applied d" "spent d' = spent d" "children d' = children d"
  using assms by (rule apply_batch_effect; auto dest: audit_only_fields)+

text \<open>The vault row, tokens and descriptors once a rotation to \<open>g\<close> is in, before its audit rows.\<close>

lemma rotation_tables_inv:
  assumes inv: "db_inv c d" and p: "p \<in> pks d"
    and rows: "\<And>k. distinct (map (\<lambda>r. (vn_name r, vn_version r)) (rows k))"
    and dt: "delete_tokens p (revoke r) (add_descriptor p g sd (rotated_records c p rows d)) = (revoked, d1)"
    and used: "used = sum_list (map version_bytes (rows RecordKind.Secret)) + sum_list (map version_bytes (rows RecordKind.Config))"
  shows "db_inv c (update_vault p (\<lambda>v. v\<lparr>v_generation := g, v_owner_bundle := ob, v_bytes_used := used,
    v_revision := v_revision v + 1\<rparr>) (reseal_tokens p g bs d1))" (is "db_inv c ?d")
proof -
  let ?f = "\<lambda>v. v\<lparr>v_generation := g, v_owner_bundle := ob, v_bytes_used := used, v_revision := v_revision v + 1\<rparr>"
  let ?d2 = "rotated_records c p rows d"
  note d1 = conjunct1 [OF delete_tokens_eq [OF dt]] and rt = reseal_tokens_frame [of p g bs d1]
  have e: "vaults d1 = vaults d" "descriptors d1 = descriptors (add_descriptor p g sd ?d2)"
    "records d1 = records ?d2" "heads d1 = heads ?d2" "children d1 = children d" "audit d1 = audit d"
    by (simp_all add: d1)
  have vs: "vaults ?d = map (\<lambda>v. if v_pk v = p then ?f v else v) (vaults d)"
    by (simp only: vaults_update_vault rt e)
  have ds: "descriptors ?d = descriptors (add_descriptor p g sd ?d2)"
    and tabs: "records ?d = records ?d2" "heads ?d = heads ?d2" and ch: "children ?d = children d"
    and au: "audit ?d = audit d"
    by (simp_all only: update_vault_frame rt e)
  have maps: "map v_pk (vaults ?d) = map v_pk (vaults d)" "map v_vault_id (vaults ?d) = map v_vault_id (vaults d)"
    unfolding vs by simp_all
  have pks: "pks ?d = pks d" using arg_cong [OF maps(1), of set] by (simp add: pks_def)
  have "vault_ok ?d" using inv maps by (simp add: db_inv_def vault_ok_def)
  moreover have "descriptors_ok ?d"
  proof -
    have fd: "find_descriptor q h ?d = find_descriptor q h (add_descriptor p g sd ?d2)" for q h
      unfolding find_descriptor_def ds ..
    have "\<forall>v \<in> set (vaults ?d). find_descriptor (v_pk v) (v_generation v) ?d \<noteq> None"
    proof
      fix v assume "v \<in> set (vaults ?d)"
      then obtain u where u: "u \<in> set (vaults d)" "v = (if v_pk u = p then ?f u else u)" unfolding vs by auto
      have "find_descriptor (v_pk u) (v_generation u) ?d2 \<noteq> None"
        using inv u by (simp add: db_inv_def descriptors_ok_def find_descriptor_def)
      then show "find_descriptor (v_pk v) (v_generation v) ?d \<noteq> None"
        unfolding fd using u find_descriptor_add(1) [of p g sd ?d2] find_descriptor_add(2) [of _ _ ?d2 p g sd]
        by (cases "v_pk u = p") simp_all
    qed
    then show ?thesis
      using inv p pks unfolding descriptors_ok_def ds add_descriptor_eq
      by (auto simp: db_inv_def descriptors_ok_def find_descriptor_def find_None_all)
  qed
  moreover have "tokens_ok ?d"
  proof -
    have "distinct (map t_id (tokens d1))" "t_vault_pk ` set (tokens d1) \<subseteq> pks d"
      using inv by (auto simp: d1 db_inv_def tokens_ok_def intro: distinct_map_filterI)
    moreover have "t_vault_pk ` set (tokens (reseal_tokens p g bs d1)) = t_vault_pk ` set (tokens d1)"
      using rt by (metis list.set_map)
    ultimately show ?thesis using rt pks by (simp add: tokens_ok_def)
  qed
  moreover have "children_ok ?d" using inv pks ch by (simp add: db_inv_def children_ok_def)
  moreover have "tables_ok c ?d"
    unfolding tables_ok_def pks tabs
  proof
    fix k
    have "records_ok c (pks d) (records d k) (heads d k)" using inv by (simp add: db_inv_def tables_ok_def)
    from replace_records_ok [OF this p rows [of k] fold_note_head] show "records_ok c (pks d) (records ?d2 k) (heads ?d2 k)"
      by (simp add: rotated_records_def)
  qed
  moreover have "bytes_ok ?d"
  proof -
    have "stored_bytes ?d q = stored_bytes ?d2 q" for q unfolding stored_bytes_def tabs ..
    then show ?thesis
      using inv unfolding bytes_ok_def vs by (auto simp: rotated_bytes used db_inv_def bytes_ok_def)
  qed
  moreover have "audit_inv c ?d"
  proof (rule audit_inv_transfer [OF _ au])
    show "audit_inv c d" using inv by (simp add: db_inv_def)
    show "map (\<lambda>v. (v_pk v, v_audit_seq v, v_audit_head v)) (vaults ?d)
        = map (\<lambda>v. (v_pk v, v_audit_seq v, v_audit_head v)) (vaults d)"
      unfolding vs by simp
  qed
  ultimately show ?thesis by (simp add: db_inv_def)
qed

lemma apply_batch_inv:
  assumes inv: "db_inv c d" and p: "pk vault \<in> pks d" and app: "apply_batch c vault r ctx d = Inr (g, d')"
  shows "db_inv c d'"
proof -
  from app obtain rows where rows: "g = from_generation r + 1"
    "\<forall>k. rewritten (rotation_rows r k) (map_of (version_meta_list d k (pk vault))) g ctx = Inr (rows k)"
    "finish_rotation c (pk vault) g r (sum_list (map version_bytes (rows RecordKind.Secret))
       + sum_list (map version_bytes (rows RecordKind.Config))) ctx (rotated_records c (pk vault) rows d) = Inr (g, d')"
    by (rule apply_batch_split)
  have dist: "distinct (map (\<lambda>r. (vn_name r, vn_version r)) (rows k))" for k
    using rows(2) by (blast intro: rewritten_ok(1))
  from rows(3) show ?thesis
  proof (rule finish_rotation_split)
    fix revoked d1 d3
    assume dt: "delete_tokens (pk vault) (revoke r)
        (add_descriptor (pk vault) g (rr_descriptor r) (rotated_records c (pk vault) rows d)) = (revoked, d1)"
      and app: "append_audit c (pk vault) (written (cx_actor ctx) AuditAction.VaultRotate None 0
        (Some (hash_sha256 c (b64 (sd_descriptor (rr_descriptor r)))))) (cx_now ctx)
      (update_vault (pk vault) (\<lambda>v. v\<lparr>v_generation := g, v_owner_bundle := rr_owner_bundle r,
          v_bytes_used := sum_list (map version_bytes (rows RecordKind.Secret))
            + sum_list (map version_bytes (rows RecordKind.Config)), v_revision := v_revision v + 1\<rparr>)
        (reseal_tokens (pk vault) g (rr_tokens r) d1)) = Inr d3"
      and each: "audit_each c (pk vault) (cx_actor ctx) AuditAction.TokenRevoke (cx_now ctx) revoked d3 = Inr d'"
    from rotation_tables_inv [OF inv p dist dt refl] have "db_inv c d3"
      by (rule append_audit_db_inv) (rule app)
    with each show "db_inv c d'" by (rule audit_each_db_inv)
  qed
qed

section \<open>The remaining methods keep the invariant\<close>

lemma rotate_inv:
  assumes "db_inv c d" and "pk vault \<in> pks d" and "rotate c vault r ctx strict d = Inr (g, d')"
  shows "db_inv c d'"
  using assms by (auto simp: rotate_def rbind_eq_Inr split: if_splits intro: apply_batch_inv)

lemma apply_rotation_inv:
  assumes inv: "db_inv c d"
  shows "db_inv c (fst (snd (apply_rotation c p r ctx hook d j)))"
  unfolding apply_rotation_def
proof (rule write_hooked_inv [where P = "db_inv c", OF inv], goal_cases)
  case (1 x d' j')
  then obtain vault g d1 op j1 where v: "load_vault d p = Some vault" and rot: "rotate c vault r ctx True d = Inr (g, d1)"
    and jr: "journal op (cx_now ctx) hook d1 j = (Inr d', j1)"
    by (auto simp: rbind_eq_Inr Let_def split: option.splits sum.splits prod.splits)
  from load_vault_pks [OF v] have "pk vault \<in> pks d" by simp
  with inv rot have "db_inv c d1" by (blast intro: rotate_inv)
  then show ?case by (rule journal_inv [OF jr])
qed

lemma delete_rows_records_ok:
  assumes "records_ok c P rs hs"
  shows "records_ok c (P - {p}) (filter (\<lambda>r. vn_pk r \<noteq> p) rs) (filter (\<lambda>h. h_pk h \<noteq> p) hs)"
  using assms unfolding records_ok_def heads_ok_def
  by (intro conjI distinct_map_filterI) fastforce+

lemma find_filter: "(\<And>x. P x \<Longrightarrow> Q x) \<Longrightarrow> find P (filter Q xs) = find P xs"
  by (induction xs) auto

lemma delete_vault_rows_inv:
  assumes inv: "db_inv c d"
  shows "db_inv c (delete_vault_rows p d)"
proof -
  let ?d = "delete_vault_rows p d"
  have pks: "pks ?d = pks d - {p}" by (auto simp: delete_vault_rows_def pks_def)
  have "tables_ok c ?d"
    using inv delete_rows_records_ok pks by (auto simp: tables_ok_def db_inv_def delete_vault_rows_def)
  moreover have "vault_ok ?d" "tokens_ok ?d" "children_ok ?d"
    using inv unfolding vault_ok_def tokens_ok_def children_ok_def pks
    by (auto simp: db_inv_def inv_defs delete_vault_rows_def intro: distinct_map_filterI)
  moreover have "descriptors_ok ?d"
  proof -
    have "find_descriptor q g ?d = find_descriptor q g d" if "q \<noteq> p" for q g
      using that by (auto simp: find_descriptor_def delete_vault_rows_def intro: find_filter)
    then show ?thesis
      using inv unfolding descriptors_ok_def pks
      by (auto simp: db_inv_def inv_defs delete_vault_rows_def intro: distinct_map_filterI)
  qed
  moreover have "bytes_ok ?d"
  proof -
    have "filter (\<lambda>r. vn_pk r = q) (filter (\<lambda>r. vn_pk r \<noteq> p) rs) = filter (\<lambda>r. vn_pk r = q) rs"
      if "q \<noteq> p" for q and rs :: "VersionRec list"
      using that by (auto intro: filter_cong)
    then have "stored_bytes ?d q = stored_bytes d q" if "q \<noteq> p" for q
      using that by (simp add: stored_bytes_def vault_bytes_def delete_vault_rows_def)
    then show ?thesis using inv by (auto simp: bytes_ok_def db_inv_def delete_vault_rows_def)
  qed
  moreover have "audit_inv c ?d"
  proof -
    have "filter (\<lambda>x. fst x = q) (filter (\<lambda>x. fst x \<noteq> p) xs) = filter (\<lambda>x. fst x = q) xs"
      if "q \<noteq> p" for q and xs :: "(VaultPk \<times> AuditRow) list"
      using that by (auto intro: filter_cong)
    then have "audit_of ?d q = audit_of d q" if "q \<noteq> p" for q
      using that by (simp add: audit_of_def delete_vault_rows_def)
    then show ?thesis using inv by (auto simp: audit_inv_def db_inv_def delete_vault_rows_def)
  qed
  ultimately show ?thesis by (simp add: db_inv_def)
qed

lemma delete_vault_inv:
  assumes inv: "db_inv c d"
  shows "db_inv c (fst (snd (delete_vault p now hook d j)))"
  unfolding delete_vault_def
proof (rule write_hooked_inv [where P = "db_inv c", OF inv], goal_cases)
  case (1 x d' j')
  then obtain op j1 where jr: "journal op now hook (delete_vault_rows p d) j = (Inr d', j1)"
    by (auto simp: rbind_eq_Inr Let_def split: option.splits prod.splits)
  show ?case by (rule journal_inv [OF jr]) (rule delete_vault_rows_inv [OF inv])
qed

lemma upsert_children_inv:
  assumes inv: "db_inv c d" and p: "p \<in> pks d"
  shows "db_inv c (upsert_children p blob d)"
proof (rule same_core_inv [OF inv])
  let ?d = "upsert_children p blob d"
  show core: "same_core d ?d" by (simp add: same_core_def upsert_children_def vault_keys_def)
  show "tokens_ok ?d" using inv by (simp add: db_inv_def tokens_ok_def upsert_children_def pks_def)
  show "audit_inv c ?d" using inv by (auto simp: db_inv_def upsert_children_def intro: audit_inv_transfer)
  have ok: "children_ok d" using inv by (simp add: db_inv_def)
  show "children_ok ?d"
  proof (cases "\<exists>x \<in> set (children d). fst x = p")
    case True
    then have "map fst (children ?d) = map fst (children d)" by (auto simp: upsert_children_def)
    moreover from arg_cong [OF this, of set] have "fst ` set (children ?d) = fst ` set (children d)" by simp
    ultimately show ?thesis using ok by (simp add: children_ok_def same_core_ok(5) [OF core])
  next
    case False
    then have "children ?d = children d @ [(p, blob)]" by (simp add: upsert_children_def)
    with False ok p show ?thesis by (auto simp: children_ok_def same_core_ok(5) [OF core])
  qed
qed

lemma put_children_inv:
  assumes inv: "db_inv c d"
  shows "db_inv c (snd (put_children c p pre blob ctx limits d))"
  unfolding put_children_def
proof (rule write_tx_inv [where P = "db_inv c", OF inv], goal_cases)
  case (1 r d')
  from 1 have p: "p \<in> pks d" by (auto dest: load_vault_pks split: if_splits)
  from 1 have "(\<exists>ev e. refuse_with c p ev (cx_now ctx) d e = Inr (r, d'))
      \<or> (\<exists>ev b. append_audit c p ev (cx_now ctx) (upsert_children p b d) = Inr d')"
    by (auto simp: Let_def rbind_eq_Inr split: if_splits sum.splits)
  then show ?case
    using inv upsert_children_inv [OF inv p] by (blast intro: refuse_with_inv append_audit_db_inv)
qed

lemma record_event_inv:
  assumes inv: "db_inv c d"
  shows "db_inv c (snd (record_event c p e now d))"
  unfolding record_event_def
  by (rule write_tx_inv [where P = "db_inv c", OF inv])
    (auto simp: rbind_eq_Inr split: if_splits intro: append_audit_db_inv [OF inv])

lemma spent_inv: "db_inv c d \<Longrightarrow> db_inv c (d\<lparr>spent := s\<rparr>)" "db_inv c d \<Longrightarrow> db_inv c (d\<lparr>last_applied := n\<rparr>)"
  by (auto simp: db_inv_def inv_defs audit_inv_def audit_of_def stored_bytes_def pks_def find_descriptor_def)

lemma spend_inv: "db_inv c d \<Longrightarrow> db_inv c (snd (spend k i e now d))"
  unfolding spend_def
  by (rule write_tx_inv [where P = "db_inv c"]) (auto simp: Let_def spent_inv split: if_splits)

end
