(* ===== verification/Store_Steps.thy ===== *)
theory Store_Steps
  imports Store_Rotate
begin

text \<open>
  Vault creation and journal replay keep the invariant; every \<open>Store\<close> method as one step of a
  transition relation, the reachable databases, and the properties that hold of all of them.
\<close>

section \<open>Vault creation and replay\<close>

lemma fold_max_start: "a \<le> fold max xs (a :: nat)"
proof (induction xs arbitrary: a)
  case (Cons x xs)
  show ?case using Cons [of "max x a"] by simp
qed simp

lemma fold_max_ge: "x \<in> set xs \<Longrightarrow> x \<le> fold max xs (a :: nat)"
proof (induction xs arbitrary: a)
  case (Cons y xs)
  then show ?case using fold_max_start [of "max y a" xs] by auto
qed simp

lemma next_pk_fresh: "next_pk d \<notin> pks d"
proof
  assume "next_pk d \<in> pks d"
  then have "next_pk d \<in> set (map v_pk (vaults d))" by (simp add: pks_def)
  from fold_max_ge [OF this, of 0] show False by (simp add: next_pk_def)
qed

lemma new_vault_inv:
  assumes inv: "db_inv c d" and fresh: "\<forall>x \<in> set (vaults d). v_vault_id x \<noteq> nv_vault_id v"
    and p: "p = next_pk d"
    and ins: "insert_descriptor p 1 sd (d\<lparr>vaults := vaults d @ [new_vault_rec p v now]\<rparr>) = Inr d2"
  shows "db_inv c d2"
proof -
  have new: "p \<notin> pks d" unfolding p by (rule next_pk_fresh)
  have d2: "d2 = d\<lparr>vaults := vaults d @ [new_vault_rec p v now],
      descriptors := descriptors d @ [\<lparr>de_pk = p, de_generation = 1, de_descriptor = sd\<rparr>]\<rparr>"
    using ins by (simp add: insert_descriptor_def split: if_splits)
  have pks: "pks d2 = insert p (pks d)" by (auto simp: d2 pks_def new_vault_rec_def)
  have nv: "v_pk (new_vault_rec p v now) = p" "v_vault_id (new_vault_rec p v now) = nv_vault_id v"
    "v_generation (new_vault_rec p v now) = 1" "v_bytes_used (new_vault_rec p v now) = 0"
    "v_audit_seq (new_vault_rec p v now) = 0" "v_audit_head (new_vault_rec p v now) = GENESIS"
    by (simp_all add: new_vault_rec_def)
  have "vault_ok d2" using inv fresh new by (auto simp: d2 nv db_inv_def vault_ok_def pks_def)
  moreover have "descriptors_ok d2"
  proof -
    have "find_descriptor q g d2 \<noteq> None" if "find_descriptor q g d \<noteq> None" for q g
      using that by (auto simp: find_descriptor_def d2 find_None_all)
    moreover have "find_descriptor p 1 d2 \<noteq> None" by (auto simp: find_descriptor_def d2 find_None_all)
    ultimately have "\<forall>v \<in> set (vaults d2). find_descriptor (v_pk v) (v_generation v) d2 \<noteq> None"
      using inv by (auto simp: d2 nv db_inv_def descriptors_ok_def)
    then show ?thesis
      using inv new unfolding descriptors_ok_def pks by (auto simp: d2 db_inv_def descriptors_ok_def)
  qed
  moreover have "tokens_ok d2" "children_ok d2"
    using inv unfolding tokens_ok_def children_ok_def pks by (auto simp: d2 db_inv_def inv_defs)
  moreover have "tables_ok c d2"
    using inv unfolding tables_ok_def pks records_ok_def
    by (simp add: d2 db_inv_def tables_ok_def records_ok_def) blast
  moreover have "bytes_ok d2"
  proof -
    have "filter (\<lambda>r. vn_pk r = p) (records d k) = []" for k
      using inv new by (auto simp: db_inv_def tables_ok_def records_ok_def filter_empty_conv)
    then have "stored_bytes d2 p = 0" by (simp add: stored_bytes_def vault_bytes_def d2)
    moreover have "stored_bytes d2 q = stored_bytes d q" for q by (simp add: stored_bytes_def d2)
    ultimately show ?thesis using inv by (auto simp: d2 nv bytes_ok_def db_inv_def)
  qed
  moreover have "audit_inv c d2"
  proof -
    have "audit_of d p = []"
      using inv new by (auto simp: audit_of_def db_inv_def audit_inv_def pks_def filter_empty_conv)
    then have "audit_vault_ok c (audit_of d2 p) (new_vault_rec p v now)"
      by (simp add: audit_of_def d2 audit_vault_ok_def nv)
    then show ?thesis using inv by (auto simp: audit_inv_def audit_of_def d2 nv db_inv_def)
  qed
  ultimately show ?thesis by (simp add: db_inv_def)
qed

lemma create_vault_inv:
  assumes inv: "db_inv c d"
  shows "db_inv c (snd (create_vault c v now d))"
  unfolding create_vault_def
proof (rule write_tx_inv [where P = "db_inv c", OF inv], goal_cases)
  case (1 r d')
  show ?case
  proof (cases "\<exists>x \<in> set (vaults d). v_vault_id x = nv_vault_id v")
    case True
    with 1 inv show ?thesis by simp
  next
    case False
    with 1 obtain d2 ev where ins: "insert_descriptor (next_pk d) 1 (nv_descriptor v)
        (d\<lparr>vaults := vaults d @ [new_vault_rec (next_pk d) v now]\<rparr>) = Inr d2"
      and app: "append_audit c (next_pk d) ev now d2 = Inr d'"
      by (auto simp: rbind_eq_Inr Let_def)
    from False have "\<forall>x \<in> set (vaults d). v_vault_id x \<noteq> nv_vault_id v" by simp
    from new_vault_inv [OF inv this refl ins] app show ?thesis by (rule append_audit_db_inv)
  qed
qed

lemma load_vault_by_id_pks: "load_vault_by_id d i = Some row \<Longrightarrow> pk row \<in> pks d"
  by (auto simp: load_vault_by_id_def bind_eq_Some_conv pks_def vault_row_fields dest: find_Some_set)

lemma replay_op_inv:
  assumes inv: "db_inv c d" and op: "replay_op c ts op d = Inr (b, d')"
  shows "db_inv c d'"
proof (cases op)
  case (RevokeTokens i ids actor rep)
  show ?thesis
  proof (cases "load_vault_by_id d i")
    case None
    with op inv RevokeTokens show ?thesis by (simp add: replay_op_def)
  next
    case (Some vault)
    obtain rm d1 where rm: "delete_tokens (pk vault) ids d = (rm, d1)" by (cases "delete_tokens (pk vault) ids d")
    from op RevokeTokens Some rm obtain d2 where
        "audit_each c (pk vault) actor (revoke_action rep) ts rm d1 = Inr d2" "d' = bump_revision (pk vault) d2 \<or> d' = d2"
      by (auto simp: replay_op_def rbind_eq_Inr)
    with delete_tokens_inv [OF rm inv] show ?thesis by (auto intro: audit_each_db_inv bump_revision_inv)
  qed
next
  case (Rotate i actor req)
  with op inv show ?thesis
    by (auto simp: replay_op_def rbind_eq_Inr split: option.splits if_splits
        dest: load_vault_by_id_pks intro: rotate_inv)
next
  case (DeleteVault i)
  with op inv show ?thesis
    by (auto simp: replay_op_def split: option.splits intro: delete_vault_rows_inv)
qed

lemma replay_inv:
  assumes inv: "db_inv c d"
  shows "db_inv c (snd (replay c rec d))"
  unfolding replay_def
  by (rule write_tx_inv [where P = "db_inv c", OF inv])
    (auto simp: rbind_eq_Inr inv split: if_splits intro: spent_inv(2) replay_op_inv [OF inv])

section \<open>The store as a transition system\<close>

text \<open>An invariant kept by every step holds in every reachable state.\<close>

locale transition_system =
  fixes step :: "'op \<Rightarrow> 'st \<Rightarrow> 'st" and init :: 'st and inv :: "'st \<Rightarrow> bool"
  assumes init_inv: "inv init" and step_inv: "inv s \<Longrightarrow> inv (step op s)"
begin

lemma run_inv: "inv s \<Longrightarrow> inv (fold step ops s)"
  by (induction ops arbitrary: s) (simp_all add: step_inv)

lemma reachable_inv: "inv (fold step ops init)"
  by (rule run_inv [OF init_inv])

end

text \<open>One call of a \<open>Store\<close> method that writes, with its arguments. The commit hook of a critical
  operation is a parameter, so a step covers both its success and its failure.\<close>

datatype store_call =
    CreateVault NewVault int
  | Touch VaultPk int
  | RegisterToken VaultPk NewToken Ctx Limits
  | RevokeTokensCall VaultPk "TokenId list" bool Ctx
  | PutRecord VaultPk RecordKind NameHmac Precondition RecordWrite Ctx Limits
  | DeleteRecord VaultPk RecordKind NameHmac nat RecordWrite Ctx Limits
  | PutChildren VaultPk Precondition ChildrenBlob Ctx Limits
  | RecordEvent VaultPk AuditEvent int
  | ApplyRotation VaultPk RotationRequest Ctx
  | DeleteVaultCall VaultPk int
  | Spend SpentKind bytes int int
  | Replay JournalRecord

fun store_step :: "crypto \<Rightarrow> 'j hook \<Rightarrow> store_call \<Rightarrow> db \<times> 'j \<Rightarrow> db \<times> 'j" where
  "store_step c h (CreateVault v now) (d, j) = (snd (create_vault c v now d), j)"
| "store_step c h (Touch p now) (d, j) = (snd (touch p now d), j)"
| "store_step c h (RegisterToken p t ctx l) (d, j) = (snd (register_token c p t ctx l d), j)"
| "store_step c h (RevokeTokensCall p ids rep ctx) (d, j) = snd (revoke_tokens c p ids rep ctx h d j)"
| "store_step c h (PutRecord p k n pre w ctx l) (d, j) = (snd (put_record c p k n pre w ctx l d), j)"
| "store_step c h (DeleteRecord p k n m w ctx l) (d, j) = (snd (delete_record c p k n m w ctx l d), j)"
| "store_step c h (PutChildren p pre b ctx l) (d, j) = (snd (put_children c p pre b ctx l d), j)"
| "store_step c h (RecordEvent p e now) (d, j) = (snd (record_event c p e now d), j)"
| "store_step c h (ApplyRotation p r ctx) (d, j) = snd (apply_rotation c p r ctx h d j)"
| "store_step c h (DeleteVaultCall p now) (d, j) = snd (delete_vault p now h d j)"
| "store_step c h (Spend k i e now) (d, j) = (snd (spend k i e now d), j)"
| "store_step c h (Replay r) (d, j) = (snd (replay c r d), j)"

lemma empty_db_inv: "db_inv c empty_db"
  by (simp add: db_inv_def inv_defs empty_db_def audit_inv_def records_ok_def heads_ok_def)

lemmas store_invs = create_vault_inv touch_inv register_token_inv revoke_tokens_inv put_record_inv
  delete_record_inv put_children_inv record_event_inv apply_rotation_inv delete_vault_inv spend_inv
  replay_inv

lemma store_step_inv: "db_inv c (fst s) \<Longrightarrow> db_inv c (fst (store_step c h call s))"
  by (cases s; cases call) (simp_all add: store_invs)

interpretation store: transition_system "store_step c h" "(empty_db, j)" "\<lambda>s. db_inv c (fst s)" for c h j
  by unfold_locales (simp_all add: empty_db_inv store_step_inv)

inductive store_reachable :: "crypto \<Rightarrow> 'j hook \<Rightarrow> 'j \<Rightarrow> db \<Rightarrow> 'j \<Rightarrow> bool" for c h j0 where
  init: "store_reachable c h j0 empty_db j0"
| step: "store_reachable c h j0 d j \<Longrightarrow> store_step c h call (d, j) = (d', j') \<Longrightarrow> store_reachable c h j0 d' j'"

inductive_cases store_reachable_step: "store_reachable c h j0 d j"

lemma store_reachable_inv: "store_reachable c h j0 d j \<Longrightarrow> db_inv c d"
proof (induction rule: store_reachable.induct)
  case init
  show ?case by (rule empty_db_inv)
next
  case (step d j call d' j')
  then show ?case using store.step_inv [of c "(d, j)" h call] by simp
qed

end
