(* ===== verification/Store_Recovery.thy ===== *)
theory Store_Recovery
  imports Store_Steps
begin

text \<open>
  Crash recovery: revocation, rotation and vault deletion hand their record to the commit hook
  before they commit, so after a crash the record is in the journal and the write may be lost.
  One contract covers the three operations; its client lemmas show that replaying the record on
  the database before the operation gives exactly the database the operation commits, that a
  second replay changes nothing, and that replay never brings a token back.
\<close>

section \<open>Helpers\<close>

lemma find_vault_update:
  assumes "\<And>v. v_pk (f v) = v_pk v"
  shows "find_vault q (update_vault p f d) = map_option (\<lambda>v. if v_pk v = p then f v else v) (find_vault q d)"
proof -
  have "find (\<lambda>v. v_pk v = q) (map (\<lambda>v. if v_pk v = p then f v else v) xs)
      = map_option (\<lambda>v. if v_pk v = p then f v else v) (find (\<lambda>v. v_pk v = q) xs)" for xs
    by (induction xs) (simp_all add: assms)
  then show ?thesis by (simp add: find_vault_def update_vault_def)
qed

text \<open>The audit rows of an operation do not depend on whether the revision was bumped before.\<close>

lemma append_audit_bump:
  "append_audit c q e now (bump_revision p d)
     = rbind (append_audit c q e now d) (\<lambda>d'. Inr (bump_revision p d'))"
proof (cases "find_vault q d")
  case None
  then show ?thesis by (simp add: append_audit_def bump_revision_def find_vault_update)
next
  case (Some v)
  have "find_vault q (bump_revision p d) = Some (if v_pk v = p then v\<lparr>v_revision := v_revision v + 1\<rparr> else v)"
    using Some by (simp add: bump_revision_def find_vault_update)
  then show ?thesis
    using Some by (simp add: append_audit_def Let_def)
      (simp add: bump_revision_def update_vault_def)
qed

lemma audit_each_bump:
  "audit_each c q a act now is (bump_revision p d)
     = rbind (audit_each c q a act now is d) (\<lambda>d'. Inr (bump_revision p d'))"
proof (induction "is" arbitrary: d)
  case (Cons i "is")
  then show ?case by (cases "append_audit c q (event a act None (Some i) AuditResult.Ok) now d")
    (simp_all add: append_audit_bump)
qed simp

lemma delete_tokens_distinct: "delete_tokens p is d = (removed, d') \<Longrightarrow> distinct removed"
proof (induction p "is" d arbitrary: removed d' rule: delete_tokens.induct)
  case (2 p i "is" d)
  let ?d = "d\<lparr>tokens := filter (\<lambda>t. \<not> (t_vault_pk t = p \<and> t_id t = i)) (tokens d)\<rparr>"
  obtain rm where rm: "delete_tokens p is ?d = (rm, d')" "removed = i # rm \<or> removed = rm"
    using 2(2) by (auto simp: Let_def split: prod.splits if_splits)
  have "distinct rm" using 2(1) [OF refl refl rm(1)] .
  moreover have "i \<notin> set rm" using delete_tokens_eq [OF rm(1)] by auto
  ultimately show ?case using rm(2) by auto
qed simp

lemma delete_tokens_present:
  assumes "distinct is" and "\<forall>i \<in> set is. \<exists>t \<in> set (tokens d). t_vault_pk t = p \<and> t_id t = i"
  shows "fst (delete_tokens p is d) = is"
  using assms
proof (induction "is" arbitrary: d)
  case (Cons i "is")
  let ?d = "d\<lparr>tokens := filter (\<lambda>t. \<not> (t_vault_pk t = p \<and> t_id t = i)) (tokens d)\<rparr>"
  have "\<forall>j \<in> set is. \<exists>t \<in> set (tokens ?d). t_vault_pk t = p \<and> t_id t = j"
  proof
    fix j assume j: "j \<in> set is"
    with Cons.prems(2) obtain t where t: "t \<in> set (tokens d)" "t_vault_pk t = p" "t_id t = j"
      by auto
    moreover have "j \<noteq> i" using j Cons.prems(1) by auto
    ultimately show "\<exists>t \<in> set (tokens ?d). t_vault_pk t = p \<and> t_id t = j" by auto
  qed
  then have "fst (delete_tokens p is ?d) = is" using Cons by simp
  moreover have "\<exists>t \<in> set (tokens d). t_vault_pk t = p \<and> t_id t = i" using Cons.prems(2) by simp
  ultimately show ?case by (simp add: Let_def case_prod_beta)
qed simp

text \<open>Deleting the ids that were removed is the same deletion.\<close>

lemma delete_tokens_again:
  assumes "delete_tokens p is d = (removed, d')"
  shows "delete_tokens p removed d = (removed, d')"
proof -
  note del = delete_tokens_eq [OF assms]
  obtain rm2 d2 where again: "delete_tokens p removed d = (rm2, d2)"
    by (cases "delete_tokens p removed d")
  have "rm2 = removed"
    using delete_tokens_present [OF delete_tokens_distinct [OF assms], of d p] del again by auto
  moreover have "filter (\<lambda>t. \<not> (t_vault_pk t = p \<and> t_id t \<in> set removed)) (tokens d)
      = filter (\<lambda>t. \<not> (t_vault_pk t = p \<and> t_id t \<in> set is)) (tokens d)"
    using del by (intro filter_cong refl) auto
  then have "d2 = d'" using delete_tokens_eq [OF again] del \<open>rm2 = removed\<close> by simp
  ultimately show ?thesis using again by simp
qed

lemma find_unique_key:
  assumes "distinct (map f xs)" and "x \<in> set xs"
  shows "find (\<lambda>y. f y = f x) xs = Some x"
  using assms by (induction xs) (auto simp: image_iff)

lemma load_vault_id:
  assumes "db_inv c d" and "load_vault d p = Some row"
  shows "load_vault_by_id d (vr_vault_id row) = Some row \<and> pk row = p
    \<and> (\<exists>v. find (\<lambda>v. v_vault_id v = vr_vault_id row) (vaults d) = Some v \<and> v_pk v = p)"
proof -
  obtain v where v: "find_vault p d = Some v" "vault_row d v = Some row"
    using load_vault_find [OF assms(2)] by blast
  have "v \<in> set (vaults d)" "v_pk v = p" using find_vault_in [OF v(1)] by auto
  moreover have "distinct (map v_vault_id (vaults d))"
    using assms(1) by (simp add: db_inv_def vault_ok_def)
  ultimately have "find (\<lambda>x. v_vault_id x = v_vault_id v) (vaults d) = Some v"
    by (intro find_unique_key)
  moreover have "vr_vault_id row = v_vault_id v" "pk row = v_pk v"
    using vault_row_fields [OF v(2)] by simp_all
  ultimately show ?thesis using v \<open>v_pk v = p\<close> by (simp add: load_vault_by_id_def)
qed

lemma write_hooked_Inr:
  "write_hooked f d j = (Inr a, d', j') \<longleftrightarrow> f d j = (Inr (Done.Ok a, d'), j')"
  by (auto simp: write_hooked_def write_tx_def Let_def split: prod.splits sum.splits Done.splits)

lemma write_hooked_Inl:
  assumes "write_hooked f d j = (Inl e, d', j')" and "\<And>x d''. fst (f d j) \<noteq> Inr (Done.Refused x, d'')"
  shows "d' = d"
  using assms by (auto simp: write_hooked_def write_tx_def Let_def split: prod.splits sum.splits Done.splits)

lemma journal_Inr:
  "journal op now h d j = (Inr d', j') \<longleftrightarrow>
   h \<lparr>jr_seq = last_applied d + 1, jr_ts = now, jr_op = op\<rparr> j = (Inr (), j')
   \<and> d' = d\<lparr>last_applied := last_applied d + 1\<rparr>"
  by (auto simp: journal_def Let_def rbind_def map_err_def split: prod.splits sum.splits)

lemma replay_new:
  assumes "last_applied d < jr_seq r" and "replay_op c (jr_ts r) (jr_op r) d = Inr (b, d1)"
  shows "replay c r d = (Inr b, d1\<lparr>last_applied := jr_seq r\<rparr>)"
  using assms by (simp add: replay_def write_tx_def)

lemma replay_old: "jr_seq r \<le> last_applied d \<Longrightarrow> replay c r d = (Inr False, d)"
  by (simp add: replay_def write_tx_def)

lemma replay_last_applied:
  assumes "replay c r d = (Inr True, d')"
  shows "last_applied d' = jr_seq r"
  using assms
  by (auto simp: replay_def write_tx_def rbind_def split: if_splits sum.splits prod.splits Done.splits)

section \<open>The contract of a journaled operation\<close>

locale journaled_op =
  fixes c :: crypto and op :: "'j hook \<Rightarrow> db \<Rightarrow> 'j \<Rightarrow> (StoreError + 'a) \<times> db \<times> 'j"
  assumes error_rolls_back: "op h d j = (Inl e, d', j') \<Longrightarrow> d' = d"
    and commit_follows_record: "db_inv c d \<Longrightarrow> op h d j = (Inr a, d', j') \<Longrightarrow>
      \<exists>r. jr_seq r = last_applied d + 1 \<and> h r j = (Inr (), j') \<and> replay c r d = (Inr True, d')"
begin

lemma crash_recovers:
  assumes "db_inv c d" and "op h d j = (Inr a, d', j')"
  shows "\<exists>r. h r j = (Inr (), j') \<and> replay c r d = (Inr True, d') \<and> replay c r d' = (Inr False, d')"
proof -
  obtain r where r: "h r j = (Inr (), j')" "replay c r d = (Inr True, d')"
    using commit_follows_record [OF assms] by blast
  moreover have "replay c r d' = (Inr False, d')"
    using replay_last_applied [OF r(2)] by (intro replay_old) simp
  ultimately show ?thesis by blast
qed

lemma unrecorded_not_applied:
  assumes "db_inv c d" and "\<And>r. jr_seq r = last_applied d + 1 \<Longrightarrow> \<exists>e. fst (h r j) = Inl e"
  shows "\<exists>e j'. op h d j = (Inl e, d, j')"
proof -
  obtain x d' j' where x: "op h d j = (x, d', j')" by (cases "op h d j") auto
  show ?thesis
  proof (cases x)
    case (Inl e)
    then show ?thesis using x error_rolls_back by metis
  next
    case (Inr a)
    then obtain r where "jr_seq r = last_applied d + 1" "h r j = (Inr (), j')"
      using x commit_follows_record assms(1) by metis
    then show ?thesis using assms(2) [of r] by simp
  qed
qed

end

section \<open>The three operations meet it\<close>

lemma revoke_commit:
  assumes inv: "db_inv c d" and ok: "revoke_tokens c p ids reported ctx h d j = (Inr removed, d', j')"
  shows "\<exists>r. jr_seq r = last_applied d + 1 \<and> h r j = (Inr (), j') \<and> replay c r d = (Inr True, d')"
proof -
  obtain vault rm d1 d2 where vault: "load_vault d p = Some vault"
    and del: "delete_tokens p ids d = (rm, d1)" "rm \<noteq> []"
    and each: "audit_each c p (cx_actor ctx) (revoke_action reported) (cx_now ctx) rm (bump_revision p d1) = Inr d2"
    and jn: "journal (RevokeTokens (vr_vault_id vault) rm (cx_actor ctx) reported) (cx_now ctx) h d2 j = (Inr d', j')"
    using ok unfolding revoke_tokens_def write_hooked_Inr
    by (auto simp: Let_def rbind_eq_Inr split: option.splits prod.splits if_splits sum.splits)
  obtain d3 where d3: "audit_each c p (cx_actor ctx) (revoke_action reported) (cx_now ctx) rm d1 = Inr d3"
      "d2 = bump_revision p d3"
    using each by (auto simp: audit_each_bump rbind_eq_Inr)
  have la: "last_applied d2 = last_applied d"
    using audit_each_only [OF d3(1)] delete_tokens_eq [OF del(1)] d3(2) by (auto dest: audit_only_fields)
  let ?r = "\<lparr>jr_seq = last_applied d + 1, jr_ts = cx_now ctx,
    jr_op = RevokeTokens (vr_vault_id vault) rm (cx_actor ctx) reported\<rparr>"
  have h: "h ?r j = (Inr (), j')" "d' = d2\<lparr>last_applied := last_applied d + 1\<rparr>"
    using jn by (simp_all add: journal_Inr la)
  have "replay_op c (jr_ts ?r) (jr_op ?r) d = Inr (True, d2)"
    using load_vault_id [OF inv vault] delete_tokens_again [OF del(1)] d3 del(2) by (simp add: replay_op_def)
  then have "replay c ?r d = (Inr True, d')" using h(2) by (subst replay_new) simp_all
  then show ?thesis using h(1) by (intro exI [of _ ?r]) simp
qed

lemma revoke_error:
  assumes "revoke_tokens c p ids reported ctx h d j = (Inl e, d', j')"
  shows "d' = d"
  using assms unfolding revoke_tokens_def
  by (rule write_hooked_Inl)
    (auto simp: Let_def rbind_def split: option.splits prod.splits if_splits sum.splits)

interpretation revocation: journaled_op c "revoke_tokens c p ids reported ctx" for c p ids reported ctx
  by unfold_locales (erule revoke_error, erule revoke_commit)

lemma ctx_eta: "\<lparr>cx_actor = cx_actor ctx, cx_now = cx_now ctx\<rparr> = ctx"
  by simp

lemma rotate_not_strict:
  assumes "rotate c vault r ctx True d = Inr x"
  shows "rotate c vault r ctx False d = Inr x \<and> generation vault = from_generation r"
  using assms by (auto simp: rotate_def check_rotation_def rbind_eq_Inr Let_def split: if_splits)

lemma rotation_commit:
  assumes inv: "db_inv c d" and ok: "apply_rotation c p req ctx h d j = (Inr g, d', j')"
  shows "\<exists>r. jr_seq r = last_applied d + 1 \<and> h r j = (Inr (), j') \<and> replay c r d = (Inr True, d')"
proof -
  obtain vault d1 where vault: "load_vault d p = Some vault"
    and rot: "rotate c vault req ctx True d = Inr (g, d1)"
    and jn: "journal (Rotate (vr_vault_id vault) (cx_actor ctx) req) (cx_now ctx) h d1 j = (Inr d', j')"
    using ok unfolding apply_rotation_def write_hooked_Inr
    by (auto simp: Let_def rbind_eq_Inr split: option.splits prod.splits if_splits sum.splits)
  have la: "last_applied d1 = last_applied d"
    using rot by (auto simp: rotate_def rbind_eq_Inr intro: apply_batch_frame(1))
  let ?r = "\<lparr>jr_seq = last_applied d + 1, jr_ts = cx_now ctx,
    jr_op = Rotate (vr_vault_id vault) (cx_actor ctx) req\<rparr>"
  have h: "h ?r j = (Inr (), j')" "d' = d1\<lparr>last_applied := last_applied d + 1\<rparr>"
    using jn by (simp_all add: journal_Inr la)
  have "replay_op c (jr_ts ?r) (jr_op ?r) d = Inr (True, d1)"
    using load_vault_id [OF inv vault] rotate_not_strict [OF rot] by (simp add: replay_op_def ctx_eta)
  then have "replay c ?r d = (Inr True, d')" using h(2) by (subst replay_new) simp_all
  then show ?thesis using h(1) by (intro exI [of _ ?r]) simp
qed

lemma rotation_error:
  assumes "apply_rotation c p req ctx h d j = (Inl e, d', j')"
  shows "d' = d"
  using assms unfolding apply_rotation_def
  by (rule write_hooked_Inl)
    (auto simp: Let_def rbind_def split: option.splits prod.splits if_splits sum.splits)

interpretation rotation: journaled_op c "apply_rotation c p req ctx" for c p req ctx
  by unfold_locales (erule rotation_error, erule rotation_commit)

lemma deletion_commit:
  assumes inv: "db_inv c d" and ok: "delete_vault p now h d j = (Inr u, d', j')"
  shows "\<exists>r. jr_seq r = last_applied d + 1 \<and> h r j = (Inr (), j') \<and> replay c r d = (Inr True, d')"
proof -
  obtain vault where vault: "load_vault d p = Some vault"
    and jn: "journal (DeleteVault (vr_vault_id vault)) now h (delete_vault_rows p d) j = (Inr d', j')"
    using ok unfolding delete_vault_def write_hooked_Inr
    by (auto simp: Let_def rbind_eq_Inr split: option.splits prod.splits if_splits sum.splits)
  let ?r = "\<lparr>jr_seq = last_applied d + 1, jr_ts = now, jr_op = DeleteVault (vr_vault_id vault)\<rparr>"
  have h: "h ?r j = (Inr (), j')" "d' = (delete_vault_rows p d)\<lparr>last_applied := last_applied d + 1\<rparr>"
    using jn by (simp_all add: journal_Inr delete_vault_rows_def)
  have "replay_op c (jr_ts ?r) (jr_op ?r) d = Inr (True, delete_vault_rows p d)"
    using load_vault_id [OF inv vault] by (auto simp: replay_op_def)
  then have "replay c ?r d = (Inr True, d')" using h(2) by (subst replay_new) simp_all
  then show ?thesis using h(1) by (intro exI [of _ ?r]) simp
qed

lemma deletion_error:
  assumes "delete_vault p now h d j = (Inl e, d', j')"
  shows "d' = d"
  using assms unfolding delete_vault_def
  by (rule write_hooked_Inl)
    (auto simp: Let_def rbind_def split: option.splits prod.splits if_splits sum.splits)

interpretation deletion: journaled_op c "delete_vault p now" for c p now
  by unfold_locales (erule deletion_error, erule deletion_commit)

end
