(* ===== verification/Store_Example.thy ===== *)
theory Store_Example
  imports Store_Ops
begin

text \<open>
  A concrete run of the store, for evaluations: a vault is created, a token is minted, a secret
  is written and written again. Every database below is computed by the operations.
\<close>

definition ex_signed :: SignedDescriptor where
  "ex_signed = signed_descriptor ex_d1 (Sig64 (replicate 64 9))"

definition ex_bundle :: SignedBundle where
  "ex_bundle = \<lparr>sealed = B64 [1, 2, 3], sb_sig = Sig64 (replicate 64 9)\<rparr>"

definition ex_new_vault :: NewVault where
  "ex_new_vault = \<lparr>nv_vault_id = VaultId (replicate 16 1), nv_owner_sign_pub = Key32 (replicate 32 9),
     nv_owner_box_pub = Key32 (replicate 32 8), nv_descriptor = ex_signed, nv_owner_bundle = ex_bundle\<rparr>"

definition ex_token :: NewToken where
  "ex_token = \<lparr>nt_id = TokenId (replicate 16 7), nt_auth_pub = Key32 (replicate 32 7),
     nt_box_pub = Key32 (replicate 32 6), nt_scope = Scope.Admin, nt_expires_at = 1000,
     nt_bundle = ex_bundle, nt_generation = 1, nt_allow_list = None\<rparr>"

definition ex_ctx :: Ctx where "ex_ctx = \<lparr>cx_actor = Actor.Owner, cx_now = 100\<rparr>"

definition ex_name :: NameHmac where "ex_name = NameHmac (replicate 32 5)"

definition ex_write :: "nat \<Rightarrow> RecordWrite" where
  "ex_write v = \<lparr>w_name_ct = [1, 1], w_value_ct = Some [2, 2, 2], w_generation = 1, w_version = v,
     w_written_at = 100, w_sig = Sig64 (replicate 64 4)\<rparr>"

definition ex_db1 :: db where "ex_db1 = snd (create_vault null_crypto ex_new_vault 50 empty_db)"

definition ex_db2 :: db where
  "ex_db2 = snd (register_token null_crypto 1 ex_token ex_ctx default_limits ex_db1)"

definition ex_db3 :: db where
  "ex_db3 = snd (put_record null_crypto 1 RecordKind.Secret ex_name IfNoneMatch (ex_write 1) ex_ctx default_limits ex_db2)"

definition ex_db4 :: db where
  "ex_db4 = snd (put_record null_crypto 1 RecordKind.Secret ex_name (IfMatch 1) (ex_write 2) ex_ctx default_limits ex_db3)"

text \<open>The defining equations an evaluation unfolds; hashes stay symbolic.\<close>

lemmas tx_defs = write_tx_def write_hooked_def Let_def rbind_def ok_or_def map_err_def

lemmas vault_defs = insert_descriptor_def find_descriptor_def append_audit_def find_vault_def
  new_vault_rec_def update_vault_def bump_revision_def load_vault_def vault_row_def next_pk_def
  refuse_with_def load_vault_by_id_def

lemmas token_defs = active_tokens_def token_by_id_def token_row_of_def

lemmas record_defs = put_guards_def delete_guards_def load_head_def live_records_def prunable_def
  versions_of_def write_version_def insert_version_def set_head_def upsert_head_def
  delete_versions_def freed_bytes_def u64_total_def version_rec_def version_of_write_def
  version_bytes_def VersionRow.defs VersionRec.defs

lemmas ex_defs = ex_token_def ex_ctx_def ex_write_def default_limits_def

lemma ex_run:
  "is_ok (fst (create_vault null_crypto ex_new_vault 50 empty_db))"
  "is_ok (fst (register_token null_crypto 1 ex_token ex_ctx default_limits ex_db1))"
  by (simp_all add: ex_db1_def create_vault_def register_token_def tx_defs vault_defs token_defs ex_defs empty_db_def)

lemma ex_put:
  "fst (put_record null_crypto 1 RecordKind.Secret ex_name IfNoneMatch (ex_write 1) ex_ctx default_limits ex_db2) = Inr 1"
  by (simp_all add: ex_db1_def ex_db2_def create_vault_def register_token_def put_record_def tx_defs vault_defs token_defs record_defs ex_defs empty_db_def)

lemma ex_put_again:
  "fst (put_record null_crypto 1 RecordKind.Secret ex_name (IfMatch 1) (ex_write 2) ex_ctx default_limits ex_db3) = Inr 2"
  by (simp_all add: ex_db1_def ex_db2_def ex_db3_def create_vault_def register_token_def put_record_def tx_defs vault_defs token_defs record_defs ex_defs empty_db_def)

lemma ex_put_refused:
  "fst (put_record null_crypto 1 RecordKind.Secret ex_name IfNoneMatch (ex_write 2) ex_ctx default_limits ex_db3)
     = Inl (PreconditionFailed (Some 1))"
  by (simp add: ex_db1_def ex_db2_def ex_db3_def create_vault_def register_token_def put_record_def tx_defs
      vault_defs token_defs record_defs ex_defs empty_db_def)

lemma ex_vault2: "\<exists>v. find_vault 1 ex_db2 = Some v \<and> v_audit_seq v = 2"
  by (simp add: ex_db1_def ex_db2_def create_vault_def register_token_def tx_defs vault_defs token_defs
      ex_defs empty_db_def)

end
