(* ===== verification/Store_Props.thy ===== *)
theory Store_Props
  imports Store_Recovery Store_Example
begin

text \<open>
  What the store promises its callers: the audit chain it serves verifies, critical operations
  are journaled before they commit, a rotation loses no version and no surviving token, replay
  is idempotent and never resurrects a revoked token, and a single-use id is accepted once.
\<close>

section \<open>A concrete run\<close>

lemma put_fst: "fst x = Inr v \<Longrightarrow> x = (Inr v, snd x)"
  by (cases x) simp

lemma put_fst_Inl: "fst x = Inl e \<Longrightarrow> x = (Inl e, snd x)"
  by (cases x) simp

lemma ex_reachable: "store_reachable null_crypto h j ex_db1 j" "store_reachable null_crypto h j ex_db2 j"
  "store_reachable null_crypto h j ex_db3 j" "store_reachable null_crypto h j ex_db4 j"
proof -
  show 1: "store_reachable null_crypto h j ex_db1 j"
    by (rule store_reachable.step [OF store_reachable.init, where call = "CreateVault ex_new_vault 50"])
      (simp add: ex_db1_def)
  show 2: "store_reachable null_crypto h j ex_db2 j"
    by (rule store_reachable.step [OF 1, where call = "RegisterToken 1 ex_token ex_ctx default_limits"])
      (simp add: ex_db2_def)
  show 3: "store_reachable null_crypto h j ex_db3 j"
    by (rule store_reachable.step [OF 2, where call = "PutRecord 1 RecordKind.Secret ex_name IfNoneMatch (ex_write 1) ex_ctx default_limits"])
      (simp add: ex_db3_def)
  show "store_reachable null_crypto h j ex_db4 j"
    by (rule store_reachable.step [OF 3, where call = "PutRecord 1 RecordKind.Secret ex_name (IfMatch 1) (ex_write 2) ex_ctx default_limits"])
      (simp add: ex_db4_def)
qed

lemmas ex_inv = store_reachable_inv [OF ex_reachable(1)] store_reachable_inv [OF ex_reachable(2)]
  store_reachable_inv [OF ex_reachable(3)] store_reachable_inv [OF ex_reachable(4)]

section \<open>Record writes\<close>

text \<open>C14. A successful put is exactly a map update: the named record becomes the version that was
  signed, and every other name, kind and vault keeps its current version. The assigned version is
  the one the writer signed and the precondition allows.\<close>

theorem put_record_refines_update:
  assumes "db_inv c d" and "put_record c p k n pre w ctx limits d = (Inr v, d')"
  shows "current d' = (current d)((p, k, n) \<mapsto> version_of_write n v w (cx_actor ctx))
    \<and> w_version w = v \<and> next_version pre (load_head d k p n) = Inr v"
  using assms by (rule put_record_written)

theorem put_record_refines_update_witness:
  "current ex_db3 = (current ex_db2)((1, RecordKind.Secret, ex_name) \<mapsto>
     version_of_write ex_name 1 (ex_write 1) (cx_actor ex_ctx))"
  using put_record_refines_update [OF ex_inv(2) put_fst [OF ex_put]] by (simp add: ex_db3_def)

text \<open>A refused put changes nothing but the audit chain: every table except the audit rows, and
  every vault column except the chain head, is as before.\<close>

theorem put_record_refused_audit_only:
  assumes "put_record c p k n pre w ctx limits d = (Inl e, d')"
  shows "audit_only d d'"
  using assms by (cases rule: put_record_cases) (auto intro: append_audit_only)

theorem put_record_refused_audit_only_witness:
  "audit_only ex_db3 (snd (put_record null_crypto 1 RecordKind.Secret ex_name IfNoneMatch (ex_write 2) ex_ctx
     default_limits ex_db3))"
  using put_record_refused_audit_only [OF put_fst_Inl [OF ex_put_refused]] .

text \<open>No lost update: an \<open>If-Match: x\<close> put succeeds only against the live version \<open>x\<close>, and
  then creates version \<open>x + 1\<close>; \<open>If-None-Match: *\<close> succeeds only when the name has no live version.\<close>

theorem put_record_precondition:
  assumes "put_record c p k n pre w ctx limits d = (Inr v, d')"
  shows "(\<forall>x. pre = IfMatch x \<longrightarrow> load_head d k p n = Some (x, False) \<and> v = x + 1)
    \<and> (pre = IfNoneMatch \<longrightarrow> (\<forall>u. load_head d k p n \<noteq> Some (u, False)))"
  using assms
proof (cases rule: put_record_cases)
  case (ok vault value_ct nv pruned used)
  with put_guards_ok(3) [OF ok(3)] show ?thesis
    by (cases "(pre, load_head d k p n)" rule: next_version.cases) (auto split: if_splits)
qed simp_all

theorem put_record_precondition_witness: "load_head ex_db3 RecordKind.Secret 1 ex_name = Some (1, False)"
  using put_record_precondition [OF put_fst [OF ex_put_again]] by simp

section \<open>The served audit chain\<close>

lemma sint_small: "unat (x :: u64) < 2 ^ 63 \<Longrightarrow> sint x = int (unat x)"
proof -
  assume l: "unat x < 2 ^ 63"
  then have "int (unat x) < int (2 ^ 63)" by (simp only: of_nat_less_iff)
  then have "int (unat x) < 2 ^ 63" by simp
  moreover have "- (2 ^ 63) \<le> int (unat x)" by (rule order_trans [of _ 0]) simp_all
  ultimately have "signed_take_bit 63 (int (unat x)) = int (unat x)"
    by (intro signed_take_bit_int_eq_self)
  then show ?thesis by (simp add: sint_uint uint_nat [symmetric])
qed

lemma chain_from_seq: "chain_from c s p rows \<Longrightarrow> map (\<lambda>r. unat (row_seq r)) rows = [s..<s + length rows]"
proof (induction rows arbitrary: s p)
  case (Cons r rs)
  then have "chain_from c (Suc s) (row_hash r) rs" by simp
  then have "map (\<lambda>r. unat (row_seq r)) rs = [Suc s..<Suc s + length rs]" by (rule Cons.IH)
  moreover have "[s..<s + length (r # rs)] = s # [Suc s..<Suc s + length rs]"
    by (subst upt_conv_Cons) (simp_all del: upt_Suc)
  ultimately show ?case using Cons.prems by (simp add: row_continues_def del: upt_Suc)
qed simp

lemma chain_from_seq_less:
  assumes "chain_from c 1 GENESIS rows" and "r \<in> set rows"
  shows "unat (row_seq r) \<le> length rows"
proof -
  have "unat (row_seq r) \<in> set (map (\<lambda>r. unat (row_seq r)) rows)" using assms(2) by simp
  then show ?thesis unfolding chain_from_seq [OF assms(1)] by auto
qed

lemma audit_rows_ordered:
  assumes "chain_from c 1 GENESIS (audit_of d p)" and "length (audit_of d p) < 2 ^ 63"
  shows "audit_rows d p = audit_of d p"
proof -
  have "sint (row_seq r) = int (unat (row_seq r))" if "r \<in> set (audit_of d p)" for r
    by (rule sint_small [OF le_less_trans [OF chain_from_seq_less [OF assms(1) that] assms(2)]])
  then have "map (\<lambda>r. sint (row_seq r)) (audit_of d p) = map int (map (\<lambda>r. unat (row_seq r)) (audit_of d p))"
    unfolding list.map_comp comp_def by (rule map_cong [OF refl])
  then have "map (\<lambda>r. sint (row_seq r)) (audit_of d p) = map int [1..<1 + length (audit_of d p)]"
    by (simp only: chain_from_seq [OF assms(1)])
  then have "sorted (map (\<lambda>r. sint (row_seq r)) (audit_of d p))"
    by (simp add: sorted_iff_nth_mono del: upt_Suc)
  then show ?thesis by (simp add: audit_rows_def audit_of_def sort_key_id_if_sorted)
qed

lemma u64_of_nat_unat: "of_nat (unat (x :: u64)) = x"
  by simp

lemma vault_audit:
  assumes "db_inv c d" and "find_vault p d = Some v" and "v_audit_seq v < 2 ^ 63"
  shows "chain_from c 1 GENESIS (audit_of d p)" "length (audit_of d p) = v_audit_seq v"
    "audit_head d p = head_after None (audit_of d p)"
proof -
  have v: "v \<in> set (vaults d)" "v_pk v = p" using assms(2) by (auto dest: find_vault_in)
  have ok: "audit_vault_ok c (audit_of d p) v" using assms(1) v by (auto simp: db_inv_def audit_inv_def)
  with assms(3) show ch: "chain_from c 1 GENESIS (audit_of d p)" and len: "length (audit_of d p) = v_audit_seq v"
    by (simp_all add: audit_vault_ok_def)
  show "audit_head d p = head_after None (audit_of d p)"
  proof (cases "audit_of d p" rule: rev_cases)
    case Nil
    then show ?thesis using len assms(2) by (simp add: audit_head_def head_after_def)
  next
    case (snoc rs r)
    have "row_continues c (1 + length rs) (if rs = [] then GENESIS else row_hash (last rs)) r"
      using ch by (simp add: snoc chain_from_append)
    then have "unat (row_seq r) = v_audit_seq v" using len snoc by (simp add: row_continues_def)
    then have "row_seq r = of_nat (v_audit_seq v)" by (metis unat_of_nat_u64 u64_of_nat_unat)
    moreover have "v_audit_head v = row_hash r" using ok assms(3) snoc by (simp add: audit_vault_ok_def)
    ultimately show ?thesis
      using len snoc assms(2) by (simp add: audit_head_def head_after_def row_head_def)
  qed
qed

lemma verify_chain_append:
  assumes "verify_chain c None (xs @ ys) = Inr h"
  shows "verify_chain c (head_after None xs) ys = Inr h"
  using assms
  by (cases xs rule: rev_cases)
    (auto simp: verify_chain_iff chain_from_append head_after_def row_continues_def next_seq_def next_prev_def row_head_def)

text \<open>C13. In every database the store can reach, vault ids and token ids are unique, every row
  belongs to a vault, every vault has the descriptor of its generation, each name's head is its
  newest stored version, each vault's byte counter is the sum of its stored ciphertexts, and each
  vault's audit rows are one hash chain ending in its stored head.\<close>

theorem store_reachable_invariant:
  assumes "store_reachable c h j0 d j"
  shows "db_inv c d"
  using assms by (rule store_reachable_inv)

theorem store_reachable_invariant_witness: "db_inv null_crypto ex_db4"
  using store_reachable_invariant [OF ex_reachable(4)] .

text \<open>C23. The chain a reachable store serves verifies from the genesis to the head it serves, as
  long as positions fit the column.\<close>

theorem served_chain_verifies:
  assumes "store_reachable c h j0 d j" and "find_vault p d = Some v" and "v_audit_seq v < 2 ^ 63"
  shows "verify_chain c None (audit_rows d p) = Inr (audit_head d p)"
proof -
  note va = vault_audit [OF store_reachable_inv [OF assms(1)] assms(2,3)]
  show ?thesis
    using va assms(3) by (simp add: audit_rows_ordered verify_chain_iff next_seq_def next_prev_def)
qed

theorem served_chain_verifies_witness:
  "verify_chain null_crypto None (audit_rows ex_db2 1) = Inr (audit_head ex_db2 1)"
proof -
  obtain v where v: "find_vault 1 ex_db2 = Some v" "v_audit_seq v < 2 ^ 63" using ex_vault2 by auto
  show ?thesis using served_chain_verifies [OF ex_reachable(2) v] .
qed

text \<open>Paging: a client that verified the first \<open>n\<close> rows and asks for the rows after them gets
  the following rows in order, at most \<open>limit\<close>, and they verify from the head it kept; when they
  reach the end, the full verification against the served head succeeds.\<close>

theorem served_page_verifies:
  assumes "store_reachable c h j0 d j" and "find_vault p d = Some v" and "v_audit_seq v < 2 ^ 63"
    and "n \<le> v_audit_seq v" and "0 < n" and "audit_after d p (of_nat n) limit = (rows, head)"
  shows "rows = take limit (drop n (audit_of d p))
    \<and> is_ok (verify_chain c (head_after None (take n (audit_of d p))) rows)
    \<and> (v_audit_seq v \<le> n + limit \<longrightarrow>
        is_ok (verify_rows c (head_after None (take n (audit_of d p))) rows head None))"
proof -
  let ?all = "audit_of d p" and ?k = "head_after None (take n (audit_of d p))"
  note va = vault_audit [OF store_reachable_inv [OF assms(1)] assms(2,3)]
  have ord: "audit_rows d p = ?all" using va assms(3) by (simp add: audit_rows_ordered)
  have "unat (of_nat n :: u64) = n" using assms(3,4) by (intro unat_of_nat_u64) simp
  then have sn: "sint (of_nat n :: u64) = int n" using assms(3,4) sint_small [of "of_nat n"] by simp
  have seq: "unat (row_seq (?all ! i)) = 1 + i" if "i < length ?all" for i
    using chain_from_nth [OF va(1) that] by (simp add: row_continues_def)
  have ss: "sint (row_seq (?all ! i)) = int (1 + i)" if "i < length ?all" for i
    using seq [OF that] that va(2) assms(3) sint_small [of "row_seq (?all ! i)"] by simp
  have split: "?all = take n ?all @ drop n ?all" by simp
  have "filter (\<lambda>r. sint (row_seq r) > sint (of_nat n :: u64)) (take n ?all) = []"
    using ss sn by (auto simp: filter_empty_conv in_set_conv_nth)
  moreover have "filter (\<lambda>r. sint (row_seq r) > sint (of_nat n :: u64)) (drop n ?all) = drop n ?all"
  proof (rule filter_True, rule ballI)
    fix r assume "r \<in> set (drop n ?all)"
    then obtain i where "i < length (drop n ?all)" "r = drop n ?all ! i" by (auto simp: in_set_conv_nth)
    then show "sint (row_seq r) > sint (of_nat n :: u64)" using ss [of "n + i"] sn by simp
  qed
  ultimately have "filter (\<lambda>r. sint (row_seq r) > sint (of_nat n :: u64)) ?all = drop n ?all"
    by (subst split, simp only: filter_append) simp
  then have rows: "rows = take limit (drop n ?all)" and head: "head = audit_head d p"
    using assms(6) by (simp_all add: audit_after_def ord)
  have "chain_from c 1 GENESIS ((take n ?all @ rows) @ drop limit (drop n ?all))"
    using va(1) unfolding rows append_assoc append_take_drop_id .
  then have ok: "verify_chain c None (take n ?all @ rows) = Inr (head_after None (take n ?all @ rows))"
    by (simp only: chain_from_append verify_chain_iff next_seq_def next_prev_def option.case)
  then have "verify_chain c ?k rows = Inr (head_after None (take n ?all @ rows))"
    by (rule verify_chain_append)
  moreover have "is_ok (verify_rows c ?k rows head None)" if "v_audit_seq v \<le> n + limit"
  proof -
    have "take n ?all @ rows = ?all" using that va(2) by (simp add: rows)
    then have hd: "head_after None (take n ?all @ rows) = head" using va(3) head by simp
    have "?all \<noteq> []" using assms(4,5) va(2) by auto
    then obtain k where k: "?k = Some k" using assms(5) by (simp add: head_after_def)
    have "next_seq head = next_seq ?k + length rows"
      using calculation unfolding hd by (rule head_after_next)
    then obtain s where s: "head = Some s" "unat (ch_seq s) = unat (ch_seq k) + length rows"
      using k hd \<open>?all \<noteq> []\<close> assms(5) by (cases head) (auto simp: next_seq_def head_after_def)
    have "check_server_head k head = Inr ()"
    proof (cases "rows = []")
      case True
      then have "head = Some k" using hd k by (simp add: head_after_def)
      then show ?thesis by (simp add: check_server_head_def)
    next
      case False
      then have "ch_seq k < ch_seq s" using s by (simp add: word_less_nat_alt)
      then show ?thesis using s by (auto simp: check_server_head_def)
    qed
    then show ?thesis using calculation by (simp add: verify_rows_def k hd)
  qed
  ultimately show ?thesis using rows by (simp add: is_ok_iff)
qed

theorem served_page_verifies_witness:
  "fst (audit_after ex_db2 1 1 100) = take 100 (drop 1 (audit_of ex_db2 1))"
proof -
  obtain v where v: "find_vault 1 ex_db2 = Some v" "v_audit_seq v = 2" using ex_vault2 by auto
  then show ?thesis
    using served_page_verifies [OF ex_reachable(2) v(1), of 1 100 "fst (audit_after ex_db2 1 1 100)"
        "snd (audit_after ex_db2 1 1 100)"] by simp
qed

end
