(* ===== verification/Store_Critical.thy ===== *)
theory Store_Critical
  imports Store_Props
begin

text \<open>
  The critical operations as their callers see them: what a rotation keeps and replaces, what a
  revocation removes, and that each of them is durable once its journal record is.
\<close>

section \<open>What a rotation keeps\<close>

lemma apply_rotation_batch:
  assumes "apply_rotation c p r ctx h d j = (Inr g, d', j')"
  obtains vault d1 where "load_vault d p = Some vault" "pk vault = p" "check_rotation d vault r = Inr ()"
    "apply_batch c vault r ctx d = Inr (g, d1)" "d' = d1\<lparr>last_applied := last_applied d1 + 1\<rparr>"
proof -
  from assms obtain vault d1 where vault: "load_vault d p = Some vault"
    and rot: "rotate c vault r ctx True d = Inr (g, d1)"
    and jn: "journal (Rotate (vr_vault_id vault) (cx_actor ctx) r) (cx_now ctx) h d1 j = (Inr d', j')"
    unfolding apply_rotation_def write_hooked_Inr
    by (auto simp: Let_def rbind_eq_Inr split: option.splits prod.splits if_splits sum.splits)
  from rot have "check_rotation d vault r = Inr ()" "apply_batch c vault r ctx d = Inr (g, d1)"
    by (auto simp: rotate_def rbind_eq_Inr)
  with vault load_vault_pks [OF vault] jn show thesis by (intro that) (auto simp: journal_Inr)
qed

lemma check_rotation_complete:
  assumes "check_rotation d vault r = Inr ()"
  shows "check_complete (rotation_rows r k) (version_meta_list d k (pk vault)) = Inr ()"
  using assms
  by (auto simp: check_rotation_def rotation_rows_def Let_def rbind_eq_Inr split: if_splits RecordKind.splits)

lemma check_complete_iff:
  "check_complete batch rows = Inr () \<longleftrightarrow>
   distinct (map (\<lambda>s. (old_name_hmac s, rv_version s)) batch)
   \<and> set (map (\<lambda>s. (old_name_hmac s, rv_version s)) batch) = set (map fst rows)
   \<and> (\<forall>s \<in> set batch. snd (snd (the (map_of rows (old_name_hmac s, rv_version s)))) = (rv_value_ct s = None)
        \<and> fst (the (map_of rows (old_name_hmac s, rv_version s))) = rv_written_at s)"
  by (auto simp: check_complete_def Let_def)

lemma version_meta_distinct:
  assumes "db_inv c d"
  shows "distinct (map fst (version_meta_list d k p))"
proof -
  have "distinct (map rec_key (records d k))"
    using assms by (simp add: db_inv_def tables_ok_def records_ok_def)
  then have "distinct (map rec_key (filter (\<lambda>r. vn_pk r = p) (records d k)))"
    by (simp add: distinct_map inj_on_def)
  then show ?thesis
    by (auto simp: version_meta_list_def comp_def distinct_map inj_on_def rec_key_def)
qed

lemma version_meta_lookup:
  assumes "db_inv c d" and "x \<in> set (records d k)" and "vn_pk x = p"
  shows "map_of (version_meta_list d k p) (vn_name x, vn_version x)
    = Some (vn_written_at x, vn_written_by x, vn_tombstone x)"
proof (rule map_of_is_SomeI [OF version_meta_distinct [OF assms(1)]])
  show "((vn_name x, vn_version x), vn_written_at x, vn_written_by x, vn_tombstone x)
      \<in> set (version_meta_list d k p)"
    using assms(2,3) by (force simp: version_meta_list_def)
qed

lemma apply_rotation_records:
  assumes "apply_rotation c p r ctx h d j = (Inr g, d', j')"
  obtains rows where "g = from_generation r + 1"
    "\<forall>k. rewritten (rotation_rows r k) (map_of (version_meta_list d k p)) g ctx = Inr (rows k)"
    "records d' = (\<lambda>k. filter (\<lambda>x. vn_pk x \<noteq> p) (records d k) @ map (version_rec c p) (rows k))"
proof -
  from assms obtain vault d1 where b: "pk vault = p" "apply_batch c vault r ctx d = Inr (g, d1)"
    "d' = d1\<lparr>last_applied := last_applied d1 + 1\<rparr>"
    by (rule apply_rotation_batch)
  from b(2) obtain rows used where R: "g = from_generation r + 1"
    "\<forall>k. rewritten (rotation_rows r k) (map_of (version_meta_list d k (pk vault))) g ctx = Inr (rows k)"
    "audit_only (update_vault (pk vault) (\<lambda>v. v\<lparr>v_generation := g, v_owner_bundle := rr_owner_bundle r,
          v_bytes_used := used, v_revision := v_revision v + 1\<rparr>) (rotated_tokens (pk vault) g r
         (add_descriptor (pk vault) g (rr_descriptor r) (rotated_records c (pk vault) rows d)))) d1"
    by (rule apply_batch_effect)
  have "records d1 = records (rotated_records c p rows d)"
    using audit_only_fields(3) [OF R(3)] b(1) by simp
  then show thesis using that [of rows] R b by (simp add: rotated_records_def)
qed

lemma version_rec_name_ct: "vn_name_ct (version_rec c p r) = vn_name_ct r"
  by (simp add: version_rec_def VersionRow.extend_def VersionRec.fields_def)

text \<open>The row a batch entry becomes.\<close>

lemma rewritten_row:
  assumes "rewritten batch meta g ctx = Inr rows" and "s \<in> set batch"
    and "meta (old_name_hmac s, rv_version s) = Some (tm, writer, tomb)"
  shows "\<exists>y \<in> set rows. vn_name y = rv_name_hmac s \<and> vn_version y = rv_version s \<and> vn_generation y = g
    \<and> vn_written_at y = rv_written_at s \<and> vn_written_by y = writer
    \<and> vn_name_ct y = b64 (rv_name_ct s) \<and> vn_value_ct y = map_option b64 (rv_value_ct s)"
  using assms by (auto simp: rewritten_def split: if_splits intro!: bexI [of _ s])

text \<open>A complete batch holds exactly one row for every stored version, with its metadata.\<close>

lemma complete_batch:
  assumes "check_rotation d vault r = Inr ()"
  shows "distinct (map (\<lambda>s. (old_name_hmac s, rv_version s)) (rotation_rows r k))"
    "set (map (\<lambda>s. (old_name_hmac s, rv_version s)) (rotation_rows r k)) = set (map fst (version_meta_list d k (pk vault)))"
    "s \<in> set (rotation_rows r k) \<Longrightarrow>
      map_of (version_meta_list d k (pk vault)) (old_name_hmac s, rv_version s) = Some (at, writer, tomb) \<Longrightarrow>
      rv_written_at s = at \<and> (rv_value_ct s = None) = tomb"
  using check_rotation_complete [OF assms, of k] unfolding check_complete_iff by force+

lemma version_batched:
  assumes "db_inv c d" and "check_rotation d vault r = Inr ()" and "x \<in> set (records d k)" and "vn_pk x = pk vault"
  obtains s where "s \<in> set (rotation_rows r k)" "old_name_hmac s = vn_name x" "rv_version s = vn_version x"
    "rv_written_at s = vn_written_at x" "(rv_value_ct s = None) = vn_tombstone x"
    "map_of (version_meta_list d k (pk vault)) (old_name_hmac s, rv_version s) = Some (vn_written_at x, vn_written_by x, vn_tombstone x)"
proof -
  note look = version_meta_lookup [OF assms(1,3,4)]
  then have "(vn_name x, vn_version x) \<in> set (map fst (version_meta_list d k (pk vault)))"
    by (metis map_of_SomeD fst_conv image_eqI list.set_map)
  then obtain s where s: "s \<in> set (rotation_rows r k)" "old_name_hmac s = vn_name x" "rv_version s = vn_version x"
    unfolding complete_batch(2) [OF assms(2), symmetric] by auto
  show thesis using that s complete_batch(3) [OF assms(2) s(1)] look by simp
qed

lemma rewritten_count:
  assumes "db_inv c d" and "check_rotation d vault r = Inr ()"
    and "rewritten (rotation_rows r k) (map_of (version_meta_list d k (pk vault))) g ctx = Inr rows"
  shows "length rows = length (filter (\<lambda>y. vn_pk y = pk vault) (records d k))"
proof -
  let ?keys = "map (\<lambda>s. (old_name_hmac s, rv_version s)) (rotation_rows r k)" and ?m = "version_meta_list d k (pk vault)"
  have "length rows = card (set ?keys)"
    using rewritten_ok(2) [OF assms(3)] distinct_card [OF complete_batch(1) [OF assms(2)], of k] by simp
  also have "\<dots> = length ?m"
    unfolding complete_batch(2) [OF assms(2)] using distinct_card [OF version_meta_distinct [OF assms(1)]] by simp
  finally show ?thesis by (simp add: version_meta_list_def)
qed

text \<open>C16. A rotation loses no version: every stored version of the vault is re-encrypted by exactly
  one entry of the batch into a version of the new generation with the same number, write time,
  writer and tombstone flag, and no other version appears.\<close>

theorem rotation_keeps_versions:
  assumes "store_reachable c h j0 d j" and "apply_rotation c p r ctx h d j = (Inr g, d', j')"
    and "x \<in> set (records d k)" and "vn_pk x = p"
  shows "g = from_generation r + 1
    \<and> (\<exists>s \<in> set (rotation_rows r k). old_name_hmac s = vn_name x \<and> rv_version s = vn_version x
       \<and> (\<exists>y \<in> set (records d' k). vn_pk y = p \<and> vn_name y = rv_name_hmac s \<and> vn_version y = vn_version x
           \<and> vn_generation y = g \<and> vn_written_at y = vn_written_at x \<and> vn_written_by y = vn_written_by x
           \<and> vn_tombstone y = vn_tombstone x \<and> vn_name_ct y = b64 (rv_name_ct s)
           \<and> vn_value_ct y = map_option b64 (rv_value_ct s)))
    \<and> length (filter (\<lambda>y. vn_pk y = p) (records d' k)) = length (filter (\<lambda>y. vn_pk y = p) (records d k))"
proof -
  note inv = store_reachable_inv [OF assms(1)]
  from assms(2) obtain vault d1 where v: "pk vault = p" "check_rotation d vault r = Inr ()"
    by (rule apply_rotation_batch)
  from assms(2) obtain rows where g: "g = from_generation r + 1"
    and rows: "\<forall>k. rewritten (rotation_rows r k) (map_of (version_meta_list d k p)) g ctx = Inr (rows k)"
    and recs: "records d' = (\<lambda>k. filter (\<lambda>x. vn_pk x \<noteq> p) (records d k) @ map (version_rec c p) (rows k))"
    by (rule apply_rotation_records)
  note row = rows [rule_format, of k]
  obtain s where s: "s \<in> set (rotation_rows r k)" "old_name_hmac s = vn_name x" "rv_version s = vn_version x"
    and meta: "rv_written_at s = vn_written_at x" "(rv_value_ct s = None) = vn_tombstone x"
    and look: "map_of (version_meta_list d k p) (old_name_hmac s, rv_version s) = Some (vn_written_at x, vn_written_by x, vn_tombstone x)"
    using version_batched [OF inv v(2) assms(3)] assms(4) unfolding v(1) by metis
  obtain y where y: "y \<in> set (rows k)" "vn_name y = rv_name_hmac s" "vn_version y = rv_version s"
    "vn_generation y = g" "vn_written_at y = rv_written_at s" "vn_written_by y = vn_written_by x"
    "vn_name_ct y = b64 (rv_name_ct s)" "vn_value_ct y = map_option b64 (rv_value_ct s)"
    using rewritten_row [OF row s(1)] look by auto
  have "\<exists>y \<in> set (records d' k). vn_pk y = p \<and> vn_name y = rv_name_hmac s \<and> vn_version y = vn_version x
           \<and> vn_generation y = g \<and> vn_written_at y = vn_written_at x \<and> vn_written_by y = vn_written_by x
           \<and> vn_tombstone y = vn_tombstone x \<and> vn_name_ct y = b64 (rv_name_ct s)
           \<and> vn_value_ct y = map_option b64 (rv_value_ct s)"
    using y meta s(3) by (intro bexI [of _ "version_rec c p y"]) (auto simp: recs version_rec_name_ct)
  moreover have "length (filter (\<lambda>y. vn_pk y = p) (records d' k)) = length (filter (\<lambda>y. vn_pk y = p) (records d k))"
    using rewritten_count [OF inv v(2)] row unfolding v(1) by (simp add: recs filter_map comp_def)
  ultimately show ?thesis using g s by blast
qed

section \<open>What a rotation leaves of the tokens and the vault row\<close>

text \<open>The new token table depends on the old one only.\<close>

lemma reseal_tokens_only:
  "tokens d = tokens e \<Longrightarrow> tokens (reseal_tokens p g bs d) = tokens (reseal_tokens p g bs e)"
  unfolding reseal_tokens_def
proof (induction bs arbitrary: d e)
  case (Cons b bs)
  show ?case unfolding fold_Cons comp_def by (rule Cons.IH) (simp add: Cons.prems)
qed simp

lemma rotated_tokens_only:
  "tokens d = tokens e \<Longrightarrow> tokens (rotated_tokens p g r d) = tokens (rotated_tokens p g r e)"
  unfolding rotated_tokens_def by (rule reseal_tokens_only) simp

lemma set_map_if:
  "u \<in> set (map (\<lambda>t. if P t then f t else t) xs) \<Longrightarrow> \<exists>w \<in> set xs. P w \<and> u = f w \<or> \<not> P w \<and> u = w"
  by (induction xs) (auto split: if_splits)

lemma reseal_tokens_generation:
  assumes "t \<in> set (tokens (reseal_tokens p g bs d))" and "t_vault_pk t = p"
    and "\<forall>u \<in> set (tokens d). t_vault_pk u = p \<longrightarrow> t_id u \<in> rb_token_id ` set bs \<or> t_generation u = g"
  shows "t_generation t = g"
  using assms unfolding reseal_tokens_def
proof (induction bs arbitrary: d)
  case (Cons b bs)
  let ?d = "d\<lparr>tokens := map (\<lambda>t. if t_vault_pk t = p \<and> t_id t = rb_token_id b
     then t\<lparr>t_bundle := rb_bundle b, t_generation := g\<rparr> else t) (tokens d)\<rparr>"
  have "\<forall>u \<in> set (tokens ?d). t_vault_pk u = p \<longrightarrow> t_id u \<in> rb_token_id ` set bs \<or> t_generation u = g"
  proof (intro ballI impI)
    fix u assume u: "u \<in> set (tokens ?d)" "t_vault_pk u = p"
    have "tokens ?d = map (\<lambda>t. if t_vault_pk t = p \<and> t_id t = rb_token_id b
     then t\<lparr>t_bundle := rb_bundle b, t_generation := g\<rparr> else t) (tokens d)" by simp
    from set_map_if [OF u(1) [unfolded this]] obtain w where w: "w \<in> set (tokens d)" "u = w\<lparr>t_bundle := rb_bundle b, t_generation := g\<rparr>
        \<or> \<not> (t_vault_pk w = p \<and> t_id w = rb_token_id b) \<and> u = w"
      by blast
    from w(2) show "t_id u \<in> rb_token_id ` set bs \<or> t_generation u = g"
    proof
      assume "\<not> (t_vault_pk w = p \<and> t_id w = rb_token_id b) \<and> u = w"
      then show ?thesis using bspec [OF Cons.prems(3) w(1)] u(2) by auto
    qed simp
  qed
  with Cons.IH [of ?d] Cons.prems(1,2) show ?case by simp
qed auto

lemma find_vault_unaudited:
  assumes "audit_only d d'"
  shows "map_option unaudited (find_vault q d') = map_option unaudited (find_vault q d)"
proof -
  have "find (\<lambda>v. v_pk v = q) (map unaudited vs) = map_option unaudited (find (\<lambda>v. v_pk v = q) vs)" for vs
    by (induction vs) (simp_all add: unaudited_def)
  note f = this
  have "map unaudited (vaults d') = map unaudited (vaults d)" using assms by (simp add: audit_only_def)
  then show ?thesis unfolding find_vault_def f [symmetric] by simp
qed

lemma apply_rotation_effect:
  assumes "apply_rotation c p r ctx h d j = (Inr g, d', j')"
  shows "tokens d' = tokens (rotated_tokens p g r d)"
    "q \<noteq> p \<Longrightarrow> map_option unaudited (find_vault q d') = map_option unaudited (find_vault q d)"
    "map_option v_generation (find_vault p d') = map_option (\<lambda>_. g) (find_vault p d)"
proof -
  from assms obtain vault d1 where b: "pk vault = p" "apply_batch c vault r ctx d = Inr (g, d1)"
    "d' = d1\<lparr>last_applied := last_applied d1 + 1\<rparr>"
    by (rule apply_rotation_batch)
  let ?f = "\<lambda>used v. v\<lparr>v_generation := g, v_owner_bundle := rr_owner_bundle r, v_bytes_used := used,
    v_revision := v_revision v + 1\<rparr>"
  from b(2) obtain rows used where eff: "audit_only (update_vault (pk vault) (?f used) (rotated_tokens (pk vault) g r
         (add_descriptor (pk vault) g (rr_descriptor r) (rotated_records c (pk vault) rows d)))) d1"
    by (rule apply_batch_effect)
  let ?d0 = "rotated_tokens p g r (add_descriptor p g (rr_descriptor r) (rotated_records c p rows d))"
  have eff': "audit_only (update_vault p (?f used) ?d0) d1" using eff b(1) by simp
  show "tokens d' = tokens (rotated_tokens p g r d)"
  proof -
    have "tokens d' = tokens ?d0" using audit_only_fields(2) [OF eff'] by (simp add: b(3))
    also have "\<dots> = tokens (rotated_tokens p g r d)" by (rule rotated_tokens_only) simp
    finally show ?thesis .
  qed
  have fv: "find_vault x d' = find_vault x d1" "find_vault x ?d0 = find_vault x d" for x
    by (simp_all add: find_vault_def b(3))
  have upd: "find_vault x (update_vault p (?f used) ?d0)
      = map_option (\<lambda>v. if v_pk v = p then ?f used v else v) (find_vault x d)" for x
    using find_vault_update [of "?f used" x p ?d0] by (simp add: fv)
  have una: "map_option unaudited (find_vault x d') = map_option unaudited
      (map_option (\<lambda>v. if v_pk v = p then ?f used v else v) (find_vault x d))" for x
    using find_vault_unaudited [OF eff', of x] unfolding upd fv(1) .
  show "map_option unaudited (find_vault q d') = map_option unaudited (find_vault q d)" if "q \<noteq> p"
    using una [of q] find_vault_in [of q d] that by (cases "find_vault q d") auto
  have "map_option v_generation (map_option unaudited x) = map_option v_generation x" for x
    by (cases x) (simp_all add: unaudited_def)
  then show "map_option v_generation (find_vault p d') = map_option (\<lambda>_. g) (find_vault p d)"
    using arg_cong [OF una [of p], of "map_option v_generation"] find_vault_in [of p d]
    by (cases "find_vault p d") (auto simp: unaudited_def)
qed

lemma reseal_tokens_other:
  "filter (\<lambda>t. t_vault_pk t \<noteq> p) (tokens (reseal_tokens p g bs d)) = filter (\<lambda>t. t_vault_pk t \<noteq> p) (tokens d)"
  unfolding reseal_tokens_def
proof (induction bs arbitrary: d)
  case (Cons b bs)
  have "filter (\<lambda>t. t_vault_pk t \<noteq> p) (map (\<lambda>t. if t_vault_pk t = p \<and> t_id t = rb_token_id b
     then t\<lparr>t_bundle := rb_bundle b, t_generation := g\<rparr> else t) ts) = filter (\<lambda>t. t_vault_pk t \<noteq> p) ts" for ts
    by (induction ts) auto
  then show ?case unfolding fold_Cons comp_def Cons.IH by simp
qed simp

definition token_key :: "TokenRow \<Rightarrow> TokenId \<times> VaultPk" where
  "token_key t = (t_id t, t_vault_pk t)"

lemma token_keys_zip: "map token_key ts = zip (map t_id ts) (map t_vault_pk ts)"
  by (induction ts) (simp_all add: token_key_def)

lemma token_keys_eq:
  assumes "map t_id ts = map t_id us" and "map t_vault_pk ts = map t_vault_pk us"
  shows "token_key ` set ts = token_key ` set us"
proof -
  have "map token_key ts = map token_key us" unfolding token_keys_zip using assms by (simp only:)
  from arg_cong [OF this, of set] show ?thesis by simp
qed

lemma vault_token_ids:
  "t_id ` {t \<in> set ts. t_vault_pk t = p} = {i. (i, p) \<in> token_key ` set ts}"
  by (auto simp: token_key_def image_iff)

lemma rotated_token_ids:
  "t_id ` {t \<in> set (tokens (rotated_tokens p g r d)). t_vault_pk t = p}
     = t_id ` {t \<in> set (tokens d). t_vault_pk t = p} - set (revoke r)"
proof -
  let ?d = "d\<lparr>tokens := filter (\<lambda>t. \<not> (t_vault_pk t = p \<and> t_id t \<in> set (revoke r))) (tokens d)\<rparr>"
  have "t_id ` {t \<in> set (tokens (rotated_tokens p g r d)). t_vault_pk t = p}
      = t_id ` {t \<in> set (tokens ?d). t_vault_pk t = p}"
    using token_keys_eq [of "tokens (reseal_tokens p g (rr_tokens r) ?d)" "tokens ?d"]
      reseal_tokens_frame [of p g "rr_tokens r" ?d] unfolding rotated_tokens_def vault_token_ids by simp
  then show ?thesis by auto
qed

lemma tokens_of_ids: "set (map t_id (tokens_of d p)) = t_id ` {t \<in> set (tokens d). t_vault_pk t = p}"
  by (auto simp: tokens_of_def)

text \<open>After a rotation the vault's tokens are the old ones less the revoked ones, every one of
  them resealed for the new generation, and the vault row is at that generation.\<close>

theorem rotation_tokens:
  assumes "apply_rotation c p r ctx h d j = (Inr g, d', j')"
  shows "t_id ` {t \<in> set (tokens d'). t_vault_pk t = p} = t_id ` {t \<in> set (tokens d). t_vault_pk t = p} - set (revoke r)
    \<and> (\<forall>t \<in> set (tokens d'). t_vault_pk t = p \<longrightarrow> t_generation t = g)
    \<and> map_option v_generation (find_vault p d') = Some g"
proof -
  note eff = apply_rotation_effect [OF assms]
  from assms obtain vault where v: "load_vault d p = Some vault" "pk vault = p" "check_rotation d vault r = Inr ()"
    by (rule apply_rotation_batch)
  have "set (map rb_token_id (rr_tokens r)) = set (map t_id (tokens_of d p)) - set (revoke r)"
    using v(2,3) by (auto simp: check_rotation_def Let_def rbind_eq_Inr split: if_splits)
  then have ids: "rb_token_id ` set (rr_tokens r) = t_id ` {t \<in> set (tokens d). t_vault_pk t = p} - set (revoke r)"
    by (simp only: tokens_of_ids set_map [symmetric])
  have "t_generation t = g" if "t \<in> set (tokens d')" "t_vault_pk t = p" for t
  proof (rule reseal_tokens_generation [OF _ that(2)])
    show "t \<in> set (tokens (reseal_tokens p g (rr_tokens r)
        (d\<lparr>tokens := filter (\<lambda>t. \<not> (t_vault_pk t = p \<and> t_id t \<in> set (revoke r))) (tokens d)\<rparr>)))"
      using that(1) unfolding eff(1) rotated_tokens_def .
  qed (auto simp: ids)
  moreover have "find_vault p d \<noteq> None" using load_vault_find [OF v(1)] by auto
  ultimately show ?thesis using rotated_token_ids [of p g r d] eff(1,3) by auto
qed

text \<open>A rotation touches one vault: records and tokens of every other vault are unchanged, and so
  is its row, up to the audit head.\<close>

theorem rotation_other_vaults:
  assumes "apply_rotation c p r ctx h d j = (Inr g, d', j')" and "q \<noteq> p"
  shows "filter (\<lambda>x. vn_pk x = q) (records d' k) = filter (\<lambda>x. vn_pk x = q) (records d k)
    \<and> filter (\<lambda>t. t_vault_pk t = q) (tokens d') = filter (\<lambda>t. t_vault_pk t = q) (tokens d)
    \<and> map_option unaudited (find_vault q d') = map_option unaudited (find_vault q d)"
proof -
  from assms(1) obtain rows where
    recs: "records d' = (\<lambda>k. filter (\<lambda>x. vn_pk x \<noteq> p) (records d k) @ map (version_rec c p) (rows k))"
    by (rule apply_rotation_records)
  have sub: "filter (\<lambda>t. t_vault_pk t = q) ts = filter (\<lambda>t. t_vault_pk t = q) (filter (\<lambda>t. t_vault_pk t \<noteq> p) ts)"
    for ts :: "TokenRow list" using assms(2) by (auto intro: filter_cong)
  have "filter (\<lambda>t. t_vault_pk t \<noteq> p) (tokens d') = filter (\<lambda>t. t_vault_pk t \<noteq> p) (tokens d)"
    unfolding apply_rotation_effect(1) [OF assms(1)] rotated_tokens_def reseal_tokens_other
    by (auto intro: filter_cong)
  then have "filter (\<lambda>t. t_vault_pk t = q) (tokens d') = filter (\<lambda>t. t_vault_pk t = q) (tokens d)"
    unfolding sub [of "tokens d'"] sub [of "tokens d"] by (rule arg_cong)
  moreover have "filter (\<lambda>x. vn_pk x = q) (records d' k) = filter (\<lambda>x. vn_pk x = q) (records d k)"
    using assms(2) by (auto simp: recs filter_map comp_def intro: filter_cong)
  ultimately show ?thesis using apply_rotation_effect(2) [OF assms] by simp
qed

section \<open>Durability\<close>

text \<open>Revocation is durable before it is visible: its journal record was accepted before the
  commit, replaying that record on the database as it was gives exactly the committed database, and
  replaying it again changes nothing.\<close>

theorem revocation_recovers:
  assumes "store_reachable c h j0 d j" and "revoke_tokens c p ids reported ctx h d j = (Inr removed, d', j')"
  shows "\<exists>r. h r j = (Inr (), j') \<and> replay c r d = (Inr True, d') \<and> replay c r d' = (Inr False, d')"
  using revocation.crash_recovers [OF store_reachable_inv [OF assms(1)] assms(2)] .

text \<open>C15. The same for a rotation: the live path and the lenient replay path agree.\<close>

theorem rotation_recovers:
  assumes "store_reachable c h j0 d j" and "apply_rotation c p req ctx h d j = (Inr g, d', j')"
  shows "\<exists>r. h r j = (Inr (), j') \<and> replay c r d = (Inr True, d') \<and> replay c r d' = (Inr False, d')"
  using rotation.crash_recovers [OF store_reachable_inv [OF assms(1)] assms(2)] .

text \<open>The same for a vault deletion.\<close>

theorem deletion_recovers:
  assumes "store_reachable c h j0 d j" and "delete_vault p now h d j = (Inr (), d', j')"
  shows "\<exists>r. h r j = (Inr (), j') \<and> replay c r d = (Inr True, d') \<and> replay c r d' = (Inr False, d')"
  using deletion.crash_recovers [OF store_reachable_inv [OF assms(1)] assms(2)] .

lemma critical_unrecorded:
  assumes "db_inv c d" and "\<And>r. jr_seq r = last_applied d + 1 \<Longrightarrow> \<exists>e. fst (h r j) = Inl e"
  shows "(\<exists>e j'. revoke_tokens c p ids reported ctx h d j = (Inl e, d, j'))
    \<and> (\<exists>e j'. apply_rotation c p req ctx h d j = (Inl e, d, j'))
    \<and> (\<exists>e j'. delete_vault p now h d j = (Inl e, d, j'))"
  using revocation.unrecorded_not_applied [of c d h j, OF assms] rotation.unrecorded_not_applied [of c d h j, OF assms]
    deletion.unrecorded_not_applied [of c d h j, OF assms]
  by blast

text \<open>C29. When the journal cannot take the record, no critical operation changes the database, and
  each reports an error.\<close>

theorem unjournaled_not_applied:
  assumes "store_reachable c h j0 d j" and "\<And>r. \<exists>e. fst (h r j) = Inl e"
  shows "(\<exists>e j'. revoke_tokens c p ids reported ctx h d j = (Inl e, d, j'))
    \<and> (\<exists>e j'. apply_rotation c p req ctx h d j = (Inl e, d, j'))
    \<and> (\<exists>e j'. delete_vault p now h d j = (Inl e, d, j'))"
  using critical_unrecorded [where h = h and j = j, OF store_reachable_inv [OF assms(1)] assms(2)] .

section \<open>Replay after a restore\<close>

lemma apply_batch_token_keys:
  assumes "apply_batch c vault r ctx d = Inr (g, d')"
  shows "token_key ` set (tokens d') \<subseteq> token_key ` set (tokens d)"
proof -
  let ?p = "pk vault"
  from assms obtain rows used where eff: "audit_only (update_vault ?p
      (\<lambda>v. v\<lparr>v_generation := g, v_owner_bundle := rr_owner_bundle r, v_bytes_used := used,
         v_revision := v_revision v + 1\<rparr>)
      (rotated_tokens ?p g r (add_descriptor ?p g (rr_descriptor r) (rotated_records c ?p rows d)))) d'"
    by (rule apply_batch_effect)
  let ?e = "add_descriptor ?p g (rr_descriptor r) (rotated_records c ?p rows d)"
  let ?d = "?e\<lparr>tokens := filter (\<lambda>t. \<not> (t_vault_pk t = ?p \<and> t_id t \<in> set (revoke r))) (tokens ?e)\<rparr>"
  have "tokens d' = tokens (reseal_tokens ?p g (rr_tokens r) ?d)"
    using audit_only_fields(2) [OF eff] by (simp add: rotated_tokens_def)
  moreover have "token_key ` set (tokens (reseal_tokens ?p g (rr_tokens r) ?d)) = token_key ` set (tokens ?d)"
    using reseal_tokens_frame [of ?p g "rr_tokens r" ?d] by (intro token_keys_eq) blast+
  ultimately have "token_key ` set (tokens d') = token_key ` set (tokens ?d)" by (simp only:)
  then show ?thesis by auto
qed

text \<open>The three ways a record changes the database when it is replayed.\<close>

lemma replay_op_cases:
  assumes "replay_op c ts op d = Inr (b, d')"
  obtains (none) "d' = d"
  | (revoke) i ids actor reported vault rm d1 d2 where "op = RevokeTokens i ids actor reported"
      "load_vault_by_id d i = Some vault" "delete_tokens (pk vault) ids d = (rm, d1)"
      "audit_each c (pk vault) actor (revoke_action reported) ts rm d1 = Inr d2"
      "d' = (if rm \<noteq> [] then bump_revision (pk vault) d2 else d2)"
  | (rotate) i actor req vault g where "op = Rotate i actor req" "load_vault_by_id d i = Some vault"
      "apply_batch c vault req \<lparr>cx_actor = actor, cx_now = ts\<rparr> d = Inr (g, d')"
  | (delete) i v where "op = DeleteVault i" "find (\<lambda>v. v_vault_id v = i) (vaults d) = Some v"
      "d' = delete_vault_rows (v_pk v) d"
proof (cases op)
  case (RevokeTokens i ids actor rep)
  show thesis
  proof (cases "load_vault_by_id d i")
    case (Some vault)
    obtain rm d1 where rm: "delete_tokens (pk vault) ids d = (rm, d1)" by (cases "delete_tokens (pk vault) ids d")
    from assms RevokeTokens Some rm obtain d2 where
        "audit_each c (pk vault) actor (revoke_action rep) ts rm d1 = Inr d2"
        "d' = (if rm \<noteq> [] then bump_revision (pk vault) d2 else d2)"
      by (auto simp: replay_op_def rbind_eq_Inr)
    with RevokeTokens Some rm show thesis by (intro revoke)
  qed (use assms RevokeTokens in \<open>auto simp: replay_op_def intro: none\<close>)
next
  case (Rotate i actor req)
  show thesis
  proof (cases "\<exists>vault. load_vault_by_id d i = Some vault \<and> generation vault = from_generation req")
    case True
    then obtain vault g where "load_vault_by_id d i = Some vault"
        "apply_batch c vault req \<lparr>cx_actor = actor, cx_now = ts\<rparr> d = Inr (g, d')"
      using assms Rotate by (auto simp: replay_op_def rbind_eq_Inr rotate_def)
    with Rotate show thesis by (intro rotate)
  qed (use assms Rotate in \<open>auto simp: replay_op_def intro: none split: option.splits if_splits\<close>)
next
  case (DeleteVault i)
  with assms show thesis
    by (auto simp: replay_op_def split: option.splits intro: none delete)
qed

lemma replay_op_tokens:
  assumes "replay_op c ts op d = Inr (b, d')"
  shows "token_key ` set (tokens d') \<subseteq> token_key ` set (tokens d)"
  using assms
proof (cases rule: replay_op_cases)
  case (revoke i ids actor reported vault rm d1 d2)
  then have "tokens d' = tokens d1" using audit_only_fields(2) [OF audit_each_only [OF revoke(4)]] by auto
  then show ?thesis using delete_tokens_eq [OF revoke(3)] by auto
next
  case (rotate i actor req vault g)
  then show ?thesis by (intro apply_batch_token_keys)
qed (auto simp: delete_vault_rows_def)

lemma token_keys_ids: "t_id ` set ts = fst ` token_key ` set ts"
  by (simp add: image_image token_key_def)

text \<open>Replay never brings a token back: whatever the record and whatever backup it is replayed
  on, no token id appears that was not there.\<close>

theorem replay_no_new_tokens:
  "t_id ` set (tokens (snd (replay c r d))) \<subseteq> t_id ` set (tokens d)"
proof (cases "jr_seq r \<le> last_applied d")
  case True
  then show ?thesis by (simp add: replay_old)
next
  case False
  show ?thesis
  proof (cases "replay_op c (jr_ts r) (jr_op r) d")
    case (Inl e)
    then show ?thesis using False by (simp add: replay_def write_tx_def)
  next
    case (Inr x)
    obtain b d1 where x: "x = (b, d1)" by (cases x)
    then have "token_key ` set (tokens d1) \<subseteq> token_key ` set (tokens d)"
      using Inr by (intro replay_op_tokens [of c "jr_ts r" "jr_op r" d b]) simp
    then show ?thesis
      unfolding token_keys_ids using x Inr False by (auto simp: replay_new)
  qed
qed

lemma replay_revocation:
  assumes "jr_op r = RevokeTokens i ids actor reported" and "last_applied d < jr_seq r"
    and "load_vault_by_id d i = Some vault" and "replay c r d = (Inr b, d')"
  shows "(\<forall>t \<in> set (tokens d'). t_vault_pk t = pk vault \<longrightarrow> t_id t \<notin> set ids) \<and> last_applied d' = jr_seq r"
proof -
  obtain rm d1 where rm: "delete_tokens (pk vault) ids d = (rm, d1)" by (cases "delete_tokens (pk vault) ids d")
  from assms rm obtain d2 where
      d2: "audit_each c (pk vault) actor (revoke_action reported) (jr_ts r) rm d1 = Inr d2"
      "d' = (if rm \<noteq> [] then bump_revision (pk vault) d2 else d2)\<lparr>last_applied := jr_seq r\<rparr>"
    by (cases "audit_each c (pk vault) actor (revoke_action reported) (jr_ts r) rm d1")
      (auto simp: replay_def write_tx_def replay_op_def rbind_eq_Inr)
  then have "tokens d' = tokens d1" using audit_only_fields(2) [OF audit_each_only [OF d2(1)]] by auto
  then show ?thesis using delete_tokens_eq [OF rm] d2(2) by auto
qed

text \<open>Replaying a revocation on a restored backup revokes: afterwards none of the recorded ids is
  a token of that vault, and the record counts as applied.\<close>

theorem replay_revokes:
  assumes "jr_op r = RevokeTokens i ids actor reported" and "last_applied d < jr_seq r"
    and "load_vault_by_id d i = Some vault" and "replay c r d = (Inr b, d')"
  shows "(\<forall>t \<in> set (tokens d'). t_vault_pk t = pk vault \<longrightarrow> t_id t \<notin> set ids) \<and> last_applied d' = jr_seq r"
  using assms by (rule replay_revocation)

section \<open>Single-use ids\<close>

lemma spend_spent: "(k, i, e) \<in> set (spent d) \<Longrightarrow> now \<le> e \<Longrightarrow> fst (spend k i e' now d) = Inl Spent"
  by (auto simp: spend_def write_tx_def Let_def)

text \<open>A single-use id (a proof-of-work challenge or a request nonce) is accepted once: after it is
  spent, and after any further calls of \<open>spend\<close> while it has not expired, spending it again is
  refused.\<close>

theorem spend_once:
  assumes "fst (spend k i e now d) = Inr ()"
    and "\<forall>x \<in> set later. snd (snd (snd x)) \<le> e" and "now' \<le> e"
  shows "fst (spend k i e' now' (fold (\<lambda>(k', i', e', n') d. snd (spend k' i' e' n' d)) later (snd (spend k i e now d))))
    = Inl Spent"
proof -
  have kept: "(k, i, e) \<in> set (spent (snd (spend k' i' e' n' d)))" if "(k, i, e) \<in> set (spent d)" "n' \<le> e" for k' i' e' n' d
    using that by (auto simp: spend_def write_tx_def Let_def)
  have first: "(k, i, e) \<in> set (spent (snd (spend k i e now d)))"
    using assms(1) by (auto simp: spend_def write_tx_def Let_def split: if_splits)
  have "(k, i, e) \<in> set (spent (fold (\<lambda>(k', i', e', n') d. snd (spend k' i' e' n' d)) later d0))"
    if "(k, i, e) \<in> set (spent d0)" for d0
    using assms(2) that by (induction later arbitrary: d0) (auto simp: kept)
  from this [OF first] assms(3) show ?thesis by (rule spend_spent)
qed

section \<open>Concrete critical operations\<close>

definition keep_hook :: "JournalRecord list hook" where
  "keep_hook r j = (Inr (), j @ [r])"

definition fail_hook :: "JournalRecord list hook" where
  "fail_hook r j = (Inl ''disk full'', j)"

definition ex_rotation :: RotationRequest where
  "ex_rotation = \<lparr>from_generation = 1, from_revision = 3, rr_descriptor = ex_signed, rr_owner_bundle = ex_bundle,
     rr_secrets = [\<lparr>old_name_hmac = ex_name, rv_version = 1, rv_name_hmac = NameHmac (replicate 32 6),
       rv_name_ct = B64 [7], rv_value_ct = Some (B64 [8]), rv_written_at = 100, rv_sig = Sig64 (replicate 64 4)\<rparr>],
     rr_configs = [], rr_tokens = [], revoke = [TokenId (replicate 16 7)]\<rparr>"

lemmas run_defs = ex_db1_def ex_db2_def ex_db3_def create_vault_def register_token_def put_record_def
  tx_defs vault_defs token_defs record_defs ex_defs empty_db_def

lemma ex_revoke: "fst (revoke_tokens null_crypto 1 [TokenId (replicate 16 7)] False ex_ctx keep_hook ex_db3 [])
    = Inr [TokenId (replicate 16 7)]"
  by (simp add: revoke_tokens_def journal_def keep_hook_def run_defs)

lemma ex_delete: "fst (delete_vault 1 100 keep_hook ex_db3 []) = Inr ()"
  by (simp add: delete_vault_def journal_def keep_hook_def delete_vault_rows_def run_defs)

lemma ex_rotate: "fst (apply_rotation null_crypto 1 ex_rotation ex_ctx keep_hook ex_db3 []) = Inr 2"
  by (simp add: apply_rotation_def journal_def keep_hook_def run_defs rotate_def check_rotation_def
     check_complete_def version_meta_list_def tokens_of_def apply_batch_def rewritten_def replace_records_def
     note_head_def finish_rotation_def add_descriptor_def reseal_tokens_def ex_rotation_def ex_name_def)

lemma triple: "fst x = Inr v \<Longrightarrow> x = (Inr v, fst (snd x), snd (snd x))"
  by (cases x) auto

lemma ex_record: "\<exists>x \<in> set (records ex_db3 RecordKind.Secret). vn_pk x = 1 \<and> vn_version x = 1"
  by (simp add: run_defs)

theorem rotation_keeps_versions_witness:
  "\<exists>d' j'. apply_rotation null_crypto 1 ex_rotation ex_ctx keep_hook ex_db3 [] = (Inr 2, d', j')
   \<and> (\<exists>y \<in> set (records d' RecordKind.Secret). vn_pk y = 1 \<and> vn_version y = 1 \<and> vn_generation y = 2)"
proof -
  obtain x where x: "x \<in> set (records ex_db3 RecordKind.Secret)" "vn_pk x = 1" "vn_version x = 1"
    using ex_record by blast
  note run = triple [OF ex_rotate]
  show ?thesis using rotation_keeps_versions [OF ex_reachable(3) run x(1,2)] run x(3) by metis
qed

theorem rotation_tokens_witness:
  "t_id ` {t \<in> set (tokens (fst (snd (apply_rotation null_crypto 1 ex_rotation ex_ctx keep_hook ex_db3 [])))).
     t_vault_pk t = 1} = t_id ` {t \<in> set (tokens ex_db3). t_vault_pk t = 1} - {TokenId (replicate 16 7)}"
  using rotation_tokens [OF triple [OF ex_rotate]] by (simp add: ex_rotation_def)

theorem rotation_other_vaults_witness:
  "filter (\<lambda>t. t_vault_pk t = 2) (tokens (fst (snd (apply_rotation null_crypto 1 ex_rotation ex_ctx keep_hook ex_db3 []))))
    = filter (\<lambda>t. t_vault_pk t = 2) (tokens ex_db3)"
  using rotation_other_vaults [OF triple [OF ex_rotate], of 2] by simp

theorem revocation_recovers_witness:
  "\<exists>r d'. replay null_crypto r ex_db3 = (Inr True, d') \<and> replay null_crypto r d' = (Inr False, d')"
  using revocation_recovers [OF ex_reachable(3) triple [OF ex_revoke]] by blast

theorem rotation_recovers_witness:
  "\<exists>r d'. replay null_crypto r ex_db3 = (Inr True, d') \<and> replay null_crypto r d' = (Inr False, d')
     \<and> d' = fst (snd (apply_rotation null_crypto 1 ex_rotation ex_ctx keep_hook ex_db3 []))"
  using rotation_recovers [OF ex_reachable(3) triple [OF ex_rotate]] by blast

theorem deletion_recovers_witness:
  "\<exists>r d'. replay null_crypto r ex_db3 = (Inr True, d') \<and> replay null_crypto r d' = (Inr False, d')
     \<and> d' = fst (snd (delete_vault 1 100 keep_hook ex_db3 []))"
  using deletion_recovers [OF ex_reachable(3) triple [OF ex_delete]] by blast

theorem unjournaled_not_applied_witness:
  "\<exists>e j'. apply_rotation null_crypto 1 ex_rotation ex_ctx fail_hook ex_db3 [] = (Inl e, ex_db3, j')"
proof -
  have "\<exists>e. fst (fail_hook r []) = Inl e" for r by (simp add: fail_hook_def)
  from unjournaled_not_applied [where h = fail_hook and j = "[]", OF ex_reachable(3) this] show ?thesis by blast
qed

definition ex_revoke_record :: JournalRecord where
  "ex_revoke_record = \<lparr>jr_seq = 1, jr_ts = 100,
     jr_op = RevokeTokens (VaultId (replicate 16 1)) [TokenId (replicate 16 7)] Actor.Owner False\<rparr>"

lemma ex_replay: "fst (replay null_crypto ex_revoke_record ex_db3) = Inr True" "last_applied ex_db3 = 0"
  "\<exists>vault. load_vault_by_id ex_db3 (VaultId (replicate 16 1)) = Some vault \<and> pk vault = 1"
  by (simp_all add: replay_def replay_op_def ex_revoke_record_def ex_new_vault_def run_defs)

theorem replay_revokes_witness:
  "TokenId (replicate 16 7) \<notin>
     t_id ` {t \<in> set (tokens (snd (replay null_crypto ex_revoke_record ex_db3))). t_vault_pk t = 1}"
proof -
  obtain vault where v: "load_vault_by_id ex_db3 (VaultId (replicate 16 1)) = Some vault" "pk vault = 1"
    using ex_replay(3) by blast
  have "replay null_crypto ex_revoke_record ex_db3 = (Inr True, snd (replay null_crypto ex_revoke_record ex_db3))"
    using put_fst [OF ex_replay(1)] .
  from replay_revokes [OF _ _ v(1) this, of "[TokenId (replicate 16 7)]" Actor.Owner False] show ?thesis
    using ex_replay(2) v(2) by (auto simp: ex_revoke_record_def)
qed

theorem spend_once_witness:
  "fst (spend Nonce [1] 50 20 (fold (\<lambda>(k, i, e, n) d. snd (spend k i e n d)) [(Nonce, [2], 60, 15)]
     (snd (spend Nonce [1] 40 10 empty_db)))) = Inl Spent"
proof (rule spend_once)
  show "fst (spend Nonce [1] 40 10 empty_db) = Inr ()" by (simp add: spend_def tx_defs empty_db_def)
qed simp_all

end
