(* ===== verification/Store_Frame.thy ===== *)
theory Store_Frame
  imports Store_Rotate
begin

text \<open>No operation but \<open>spend\<close> touches the single-use ids.\<close>

named_theorems spent_simps \<open>steps that leave the single-use ids\<close>

lemma spent_fold: "(\<And>x d. spent (f x d) = spent d) \<Longrightarrow> spent (fold f xs d) = spent d"
  by (induction xs arbitrary: d) simp_all

lemma spent_basic [spent_simps]:
  "spent (update_vault p f d) = spent d" "spent (bump_revision p d) = spent d"
  "spent (set_head k p n v b d) = spent d" "spent (delete_versions k p n ps d) = spent d"
  "spent (upsert_children p blob d) = spent d" "spent (delete_vault_rows p d) = spent d"
  "spent (add_descriptor p g sd d) = spent d"
  by (simp_all add: update_vault_def bump_revision_def set_head_def delete_versions_def upsert_children_def
      delete_vault_rows_def add_descriptor_def insert_descriptor_def spent_fold split: prod.split)

lemma spent_append_audit: "append_audit c p e now d = Inr d' \<Longrightarrow> spent d' = spent d"
  by (auto simp: append_audit_def Let_def spent_simps split: option.splits if_splits)

lemma spent_insert:
  "insert_version c k p r d = Inr d' \<Longrightarrow> spent d' = spent d"
  "insert_descriptor p g sd d = Inr d' \<Longrightarrow> spent d' = spent d"
  by (auto simp: insert_version_def insert_descriptor_def Let_def split: if_splits)

lemma spent_refuse_with: "refuse_with c p ev now d e = Inr (r, d') \<Longrightarrow> spent d' = spent d"
  by (auto simp: refuse_with_def rbind_eq_Inr dest: spent_append_audit)

lemma spent_audit_each: "audit_each c p a act now is d = Inr d' \<Longrightarrow> spent d' = spent d"
  by (induction "is" arbitrary: d) (auto simp: rbind_eq_Inr dest: spent_append_audit)

lemma spent_delete_tokens: "delete_tokens p is d = (rm, d') \<Longrightarrow> spent d' = spent d"
  by (induction p "is" d arbitrary: rm d' rule: delete_tokens.induct)
    (auto simp: Let_def split: prod.splits if_splits)

lemma spent_journal: "journal op now h d j = (Inr d', j') \<Longrightarrow> spent d' = spent d"
  by (auto simp: journal_def Let_def rbind_def map_err_def split: prod.splits sum.splits)

lemma spent_write_version:
  "write_version c k p r ps used ev now d = Inr d' \<Longrightarrow> spent d' = spent d"
  by (auto simp: write_version_def rbind_eq_Inr Let_def spent_simps dest!: spent_insert spent_append_audit)

lemma spent_replace_loop: "replace_loop c k p rs hs b d = Inr (hs', b', d') \<Longrightarrow> spent d' = spent d"
  by (induction rs arbitrary: hs b d) (auto simp: rbind_eq_Inr dest!: spent_insert)

lemma spent_replace_records: "replace_records c k p rows d = Inr (b, d') \<Longrightarrow> spent d' = spent d"
  by (auto simp: replace_records_def rbind_eq_Inr Let_def spent_fold spent_simps split_def dest!: spent_replace_loop)

lemma spent_reseal: "spent (reseal_tokens p g bs d) = spent d"
  unfolding reseal_tokens_def by (rule spent_fold) simp

lemma spent_finish: "finish_rotation c p g r used ctx d = Inr (x, d') \<Longrightarrow> spent d' = spent d"
  by (auto simp: finish_rotation_def rbind_eq_Inr Let_def spent_simps spent_reseal split: prod.splits
      dest!: spent_append_audit spent_audit_each spent_delete_tokens)

lemma spent_rotate: "rotate c vault r ctx True d = Inr (g, d') \<Longrightarrow> spent d' = spent d"
  by (auto simp: rotate_def apply_batch_def rbind_eq_Inr Let_def split: prod.splits
      dest!: spent_replace_records spent_finish)

lemmas spent_dest = spent_append_audit spent_insert spent_refuse_with spent_audit_each spent_delete_tokens
  spent_journal spent_write_version spent_rotate

text \<open>A transaction whose steps leave them leaves them.\<close>

lemma spent_write_tx:
  "(\<And>r d'. f d = Inr (r, d') \<Longrightarrow> spent d' = spent d) \<Longrightarrow> spent (snd (write_tx f d)) = spent d"
  by (rule write_tx_inv [where P = "\<lambda>d'. spent d' = spent d"]) auto

lemma spent_write_hooked:
  "(\<And>r d' j'. f d j = (Inr (r, d'), j') \<Longrightarrow> spent d' = spent d) \<Longrightarrow>
   spent (fst (snd (write_hooked f d j))) = spent d"
  by (rule write_hooked_inv [where P = "\<lambda>d'. spent d' = spent d"]) auto

lemma spent_create_vault: "spent (snd (create_vault c v now d)) = spent d"
  unfolding create_vault_def
  by (rule spent_write_tx) (auto simp: rbind_eq_Inr Let_def split: if_splits dest!: spent_dest)

lemma spent_touch: "spent (snd (touch p now d)) = spent d"
  by (simp add: touch_def Let_def write_tx_def spent_simps)

lemma spent_register_token: "spent (snd (register_token c p t ctx l d)) = spent d"
  unfolding register_token_def
  by (rule spent_write_tx) (auto simp: rbind_eq_Inr Let_def spent_simps split: if_splits dest!: spent_dest)

lemma spent_put_record: "spent (snd (put_record c p k n pre w ctx l d)) = spent d"
proof -
  obtain res d' where put: "put_record c p k n pre w ctx l d = (res, d')"
    by (cases "put_record c p k n pre w ctx l d")
  then show ?thesis by (cases rule: put_record_cases) (auto simp: put dest: spent_dest)
qed

lemma spent_delete_record: "spent (snd (delete_record c p k n m w ctx l d)) = spent d"
proof -
  obtain res d' where del: "delete_record c p k n m w ctx l d = (res, d')"
    by (cases "delete_record c p k n m w ctx l d")
  then show ?thesis by (cases rule: delete_record_cases) (auto simp: del dest: spent_dest)
qed

lemma spent_put_children: "spent (snd (put_children c p pre blob ctx l d)) = spent d"
  unfolding put_children_def
  by (rule spent_write_tx)
    (auto simp: rbind_eq_Inr Let_def spent_simps split: if_splits sum.splits dest!: spent_dest)

lemma spent_record_event: "spent (snd (record_event c p e now d)) = spent d"
  unfolding record_event_def
  by (rule spent_write_tx) (auto simp: rbind_eq_Inr split: if_splits dest!: spent_dest)

lemma spent_revoke_tokens: "spent (fst (snd (revoke_tokens c p ids rep ctx h d j))) = spent d"
  unfolding revoke_tokens_def
  by (rule spent_write_hooked)
    (auto simp: rbind_eq_Inr Let_def spent_simps split: option.splits if_splits sum.splits prod.splits dest!: spent_dest)

lemma spent_apply_rotation: "spent (fst (snd (apply_rotation c p r ctx h d j))) = spent d"
  unfolding apply_rotation_def
  by (rule spent_write_hooked)
    (auto simp: rbind_eq_Inr Let_def split: option.splits sum.splits prod.splits dest!: spent_dest)

lemma spent_delete_vault: "spent (fst (snd (delete_vault p now h d j))) = spent d"
  unfolding delete_vault_def
  by (rule spent_write_hooked)
    (auto simp: rbind_eq_Inr Let_def spent_simps split: option.splits prod.splits dest!: spent_dest)

lemmas spent_ops = spent_create_vault spent_touch spent_register_token spent_put_record spent_delete_record
  spent_put_children spent_record_event spent_revoke_tokens spent_apply_rotation spent_delete_vault

text \<open>An id that \<open>spend\<close> accepted stays until its expiry is past.\<close>

lemma spend_keeps:
  "(k', i', e') \<in> set (spent d) \<Longrightarrow> (k', i', e') \<in> set (spent (snd (spend k i e now d))) \<or> e' < now"
  by (auto simp: spend_def write_tx_def Let_def split: if_splits)

lemma spend_enters: "fst (spend k i e now d) = Inr () \<Longrightarrow> (k, i, e) \<in> set (spent (snd (spend k i e now d)))"
  by (auto simp: spend_def write_tx_def Let_def split: if_splits)

lemma spend_refuses:
  "(k, i, e') \<in> set (spent d) \<Longrightarrow> now \<le> e' \<Longrightarrow> fst (spend k i e now d) = Inl Spent"
  by (auto simp: spend_def write_tx_def Let_def)

section \<open>Only critical operations and replay advance the journal\<close>

text \<open>The number of the last applied record stays through every other operation.\<close>

lemma applied_append_audit: "append_audit c p e now d = Inr d' \<Longrightarrow> last_applied d' = last_applied d"
  by (rule audit_only_fields(6) [OF append_audit_only])

lemma applied_insert_version: "insert_version c k p r d = Inr d' \<Longrightarrow> last_applied d' = last_applied d"
  by (auto simp: insert_version_def Let_def split: if_splits)

lemma applied_refuse_with: "refuse_with c p ev now d e = Inr (r, d') \<Longrightarrow> last_applied d' = last_applied d"
  by (auto simp: refuse_with_def rbind_eq_Inr dest: applied_append_audit)

lemma applied_simps [simp]: "last_applied (delete_versions k p n ps d) = last_applied d"
    "last_applied (upsert_children p blob d) = last_applied d" 
  by (simp_all add: delete_versions_eq upsert_children_def)

lemma applied_write_version: "write_version c k p r ps used ev now d = Inr d' \<Longrightarrow> last_applied d' = last_applied d"
  by (auto simp: write_version_def rbind_eq_Inr Let_def update_vault_frame set_head_frame
      dest!: applied_insert_version applied_append_audit)

lemmas applied_dest = applied_append_audit applied_refuse_with applied_write_version

lemma applied_write_tx:
  "(\<And>r d'. f d = Inr (r, d') \<Longrightarrow> last_applied d' = last_applied d) \<Longrightarrow> last_applied (snd (write_tx f d)) = last_applied d"
  by (rule write_tx_inv [where P = "\<lambda>d'. last_applied d' = last_applied d"]) auto

lemma applied_put_record: "last_applied (snd (put_record c p k n pre w ctx l d)) = last_applied d"
proof -
  obtain res d' where put: "put_record c p k n pre w ctx l d = (res, d')"
    by (cases "put_record c p k n pre w ctx l d")
  then show ?thesis by (cases rule: put_record_cases) (auto simp: put dest: applied_dest)
qed

lemma applied_delete_record: "last_applied (snd (delete_record c p k n m w ctx l d)) = last_applied d"
proof -
  obtain res d' where del: "delete_record c p k n m w ctx l d = (res, d')"
    by (cases "delete_record c p k n m w ctx l d")
  then show ?thesis by (cases rule: delete_record_cases) (auto simp: del dest: applied_dest)
qed

lemma applied_ops:
  "last_applied (snd (create_vault c v now d)) = last_applied d" "last_applied (snd (touch p now d)) = last_applied d"
  "last_applied (snd (register_token c p t ctx l d)) = last_applied d"
  "last_applied (snd (put_children c p pre blob ctx l d)) = last_applied d"
  "last_applied (snd (record_event c p e now d)) = last_applied d" "last_applied (snd (spend kind i until now d)) = last_applied d"
proof -
  show "last_applied (snd (create_vault c v now d)) = last_applied d"
    unfolding create_vault_def
    by (rule applied_write_tx)
      (auto simp: rbind_eq_Inr Let_def insert_descriptor_def split: if_splits dest!: applied_dest)
  show "last_applied (snd (touch p now d)) = last_applied d"
    by (simp add: touch_def Let_def write_tx_def update_vault_frame)
  show "last_applied (snd (register_token c p t ctx l d)) = last_applied d"
    unfolding register_token_def
    by (rule applied_write_tx) (auto simp: rbind_eq_Inr Let_def bump_revision_frame split: if_splits dest!: applied_dest)
  show "last_applied (snd (put_children c p pre blob ctx l d)) = last_applied d"
    unfolding put_children_def
    by (rule applied_write_tx)
      (auto simp: rbind_eq_Inr Let_def bump_revision_frame split: if_splits sum.splits dest!: applied_dest)
  show "last_applied (snd (record_event c p e now d)) = last_applied d"
    unfolding record_event_def
    by (rule applied_write_tx) (auto simp: rbind_eq_Inr split: if_splits dest!: applied_dest)
  show "last_applied (snd (spend kind i until now d)) = last_applied d"
    by (auto simp: spend_def write_tx_def Let_def split: if_splits)
qed

end
