(* ===== verification/File_Journal.thy ===== *)
theory File_Journal
  imports Store_Critical Store_Frame "HOL-Library.AList"
begin

text \<open>
  The journal directory (\<open>FileJournal\<close> in \<open>server_core/journal.rs\<close>) as file names with their
  bytes, its \<open>put\<close> with a fault at each system call, its \<open>list_after\<close>, and \<open>replay_journal\<close>,
  which brings a restored database up to date before anything is served. The contract of a journal
  is a locale, met by the directory; the JSON form of a record is a parameter.
\<close>

section \<open>Keys and files\<close>

record journal_codec =
  jc_to_json :: "JournalRecord \<Rightarrow> bytes"
  jc_from_json :: "bytes \<Rightarrow> string + JournalRecord"

text \<open>The record reads back, and its sequence is a \<open>u64\<close>.\<close>

definition writable :: "journal_codec \<Rightarrow> JournalRecord \<Rightarrow> bool" where
  "writable jc r \<longleftrightarrow> jr_seq r < 2 ^ 64 \<and> jc_from_json jc (jc_to_json jc r) = Inr r"

text \<open>\<open>{:020}\<close>: at least twenty digits.\<close>

definition pad20 :: "nat \<Rightarrow> string" where
  "pad20 n = replicate (20 - length (show_nat n)) (CHR ''0'') @ show_nat n"

definition file_name :: "JournalRecord \<Rightarrow> string" where
  "file_name r = pad20 (jr_seq r) @ ''.json''"

definition object_key :: "JournalRecord \<Rightarrow> string" where
  "object_key r = ''journal/'' @ file_name r"

definition tmp_name :: "JournalRecord \<Rightarrow> string" where
  "tmp_name r = pad20 (jr_seq r) @ ''.tmp''"

definition strip_suffix :: "string \<Rightarrow> string \<Rightarrow> string option" where
  "strip_suffix p s = map_option rev (strip_prefix (rev p) (rev s))"

definition seq_of :: "string \<Rightarrow> nat option" where
  "seq_of key = Option.bind (strip_prefix ''journal/'' key) (\<lambda>s. Option.bind (strip_suffix ''.json'' s) parse_u64)"

definition entry_seq :: "string \<Rightarrow> nat option" where
  "entry_seq name = seq_of (''journal/'' @ name)"

type_synonym dir = "(string \<times> bytes) list"

text \<open>The system call of \<open>put\<close> that fails, if any; a failed write may leave some of the bytes.\<close>

datatype io_fault =
    NoFault
  | CreateFails string
  | WriteFails bytes string
  | SyncFails string
  | RenameFails string
  | SyncDirFails string

definition file_put :: "journal_codec \<Rightarrow> io_fault \<Rightarrow> JournalRecord \<Rightarrow> dir \<Rightarrow> (string + unit) \<times> dir" where
  "file_put jc fault r files =
     (if map_of files (file_name r) \<noteq> None
      then (Inl (''journal record '' @ show_nat (jr_seq r) @ '' already exists; is a second server writing?''), files)
      else
        (let json = jc_to_json jc r; written = AList.update (tmp_name r) json files;
             renamed = AList.update (file_name r) json (AList.delete (tmp_name r) files)
         in case fault of
              NoFault \<Rightarrow> (Inr (), renamed)
            | CreateFails e \<Rightarrow> (Inl e, files)
            | WriteFails part e \<Rightarrow> (Inl e, AList.update (tmp_name r) part files)
            | SyncFails e \<Rightarrow> (Inl e, written)
            | RenameFails e \<Rightarrow> (Inl e, written)
            | SyncDirFails e \<Rightarrow> (Inl e, renamed)))"

text \<open>The loop over the directory entries, in the order \<open>read_dir\<close> gives them.\<close>

fun read_entries :: "journal_codec \<Rightarrow> nat \<Rightarrow> dir \<Rightarrow> string + JournalRecord list" where
  "read_entries jc after [] = Inr []"
| "read_entries jc after ((name, bs) # es) =
     (case entry_seq name of
        None \<Rightarrow> read_entries jc after es
      | Some seq \<Rightarrow>
          if seq \<le> after then read_entries jc after es
          else (case jc_from_json jc bs of
              Inl e \<Rightarrow> Inl (''journal record '' @ show_nat seq @ '' is corrupt: '' @ e)
            | Inr r \<Rightarrow> rbind (read_entries jc after es) (\<lambda>rs. Inr (r # rs))))"

definition file_list_after :: "journal_codec \<Rightarrow> nat \<Rightarrow> dir \<Rightarrow> string + JournalRecord list" where
  "file_list_after jc after files = rbind (read_entries jc after files) (\<lambda>rs. Inr (sort_key jr_seq rs))"

section \<open>Replay\<close>

datatype ReplayError = Journal string | Store StoreError

fun replay_all :: "crypto \<Rightarrow> JournalRecord list \<Rightarrow> db \<Rightarrow> (StoreError + unit) \<times> db" where
  "replay_all c [] d = (Inr (), d)"
| "replay_all c (r # rs) d = (case replay c r d of
     (Inl e, d') \<Rightarrow> (Inl e, d')
   | (Inr _, d') \<Rightarrow> replay_all c rs d')"

definition replay_journal ::
    "crypto \<Rightarrow> (nat \<Rightarrow> 'j \<Rightarrow> string + JournalRecord list) \<Rightarrow> 'j \<Rightarrow> db \<Rightarrow> (ReplayError + nat) \<times> db" where
  "replay_journal c list_after j d = (case list_after (last_applied d) j of
     Inl e \<Rightarrow> (Inl (ReplayError.Journal e), d)
   | Inr rs \<Rightarrow> (case replay_all c rs d of
       (Inl e, d') \<Rightarrow> (Inl (ReplayError.Store e), d')
     | (Inr _, d') \<Rightarrow> (Inr (length rs), d')))"

section \<open>Names parse back\<close>

lemma parse_digits_zeros: "parse_digits acc (replicate n (CHR ''0'') @ s) = parse_digits (acc * 10 ^ n) s"
proof (induction n arbitrary: acc)
  case (Suc n)
  have "dec_digit (CHR ''0'') = Some 0" by (simp add: dec_digit_def)
  then show ?case using Suc [of "acc * 10"] by (simp add: algebra_simps)
qed simp

lemma pad20_not_Nil [simp]: "pad20 n \<noteq> []"
  by (simp add: pad20_def)

lemma pad20_digits: "a \<in> set (pad20 n) \<Longrightarrow> 48 \<le> (of_char a :: nat) \<and> of_char a \<le> (57 :: nat)"
  by (auto simp: pad20_def dest: show_nat_digit)

lemma parse_pad20: "n < 2 ^ 64 \<Longrightarrow> parse_u64 (pad20 n) = Some n"
proof -
  assume n: "n < 2 ^ 64"
  have "hd (pad20 n) \<noteq> CHR ''+''" using pad20_digits [of "hd (pad20 n)" n] hd_in_set [of "pad20 n"] by auto
  moreover have "parse_digits 0 (pad20 n) = Some n"
    by (simp add: pad20_def parse_digits_zeros parse_digits_show)
  ultimately show ?thesis using n by (simp add: parse_u64_def parse_unsigned_def)
qed

lemma seq_of_file_name: "jr_seq r < 2 ^ 64 \<Longrightarrow> entry_seq (file_name r) = Some (jr_seq r)"
  using strip_prefix_append [of "rev ''.json''" "rev (pad20 (jr_seq r))"]
  by (simp add: entry_seq_def seq_of_def strip_suffix_def file_name_def parse_pad20 del: append_Cons)

lemma seq_of_tmp_name: "entry_seq (tmp_name r) = None"
  using strip_prefix_append [of "''journal/''" "tmp_name r"]
  by (simp add: entry_seq_def seq_of_def strip_suffix_def tmp_name_def)

lemma tmp_not_file: "tmp_name r \<noteq> file_name r'"
proof
  assume "tmp_name r = file_name r'"
  then have "last (tmp_name r) = last (file_name r')" by simp
  then show False by (simp add: tmp_name_def file_name_def)
qed

lemma file_name_inject:
  assumes "jr_seq r < 2 ^ 64" and "jr_seq r' < 2 ^ 64" and "file_name r = file_name r'"
  shows "jr_seq r = jr_seq r'"
  using seq_of_file_name [OF assms(1)] seq_of_file_name [OF assms(2)] assms(3) by simp

section \<open>The contract of a journal\<close>

text \<open>What the commit hook and the replay at start rely on. A failed \<open>put\<close> may or may not have
  stored its record; nothing else appears and nothing is lost.\<close>

locale journal_spec =
  fixes put :: "'f \<Rightarrow> JournalRecord \<Rightarrow> 'j \<Rightarrow> (string + unit) \<times> 'j"
    and list_after :: "nat \<Rightarrow> 'j \<Rightarrow> string + JournalRecord list"
    and recs :: "'j \<Rightarrow> JournalRecord set" and jok :: "'j \<Rightarrow> bool"
    and rok :: "JournalRecord \<Rightarrow> bool"
  assumes put_keeps: "jok j \<Longrightarrow> rok r \<Longrightarrow> put f r j = (x, j') \<Longrightarrow>
      jok j' \<and> recs j \<subseteq> recs j' \<and> recs j' \<subseteq> insert r (recs j)"
    and put_durable: "jok j \<Longrightarrow> rok r \<Longrightarrow> put f r j = (Inr (), j') \<Longrightarrow>
      r \<in> recs j' \<and> (\<forall>r' \<in> recs j. jr_seq r' \<noteq> jr_seq r)"
    and lists_newer: "jok j \<Longrightarrow> \<exists>rs. list_after n j = Inr rs \<and> set rs = {r \<in> recs j. n < jr_seq r}
      \<and> sorted (map jr_seq rs) \<and> distinct (map jr_seq rs)"
begin

text \<open>A record that was acknowledged is listed from then on, whatever is written after it.\<close>

lemma acknowledged_listed:
  assumes "jok j" and "rok r" and "put f r j = (Inr (), j')"
    and "\<forall>x \<in> set later. rok (snd x)" and "n < jr_seq r"
  shows "\<exists>rs. list_after n (fold (\<lambda>(f, r) j. snd (put f r j)) later j') = Inr rs \<and> r \<in> set rs"
proof -
  have keep: "jok (fold (\<lambda>(f, r) j. snd (put f r j)) later j0) \<and> r \<in> recs (fold (\<lambda>(f, r) j. snd (put f r j)) later j0)"
    if "jok j0" "r \<in> recs j0" for j0
    using assms(4) that
  proof (induction later arbitrary: j0)
    case (Cons x later)
    obtain f0 r0 where x: "x = (f0, r0)" by (cases x)
    have "jok (snd (put f0 r0 j0)) \<and> recs j0 \<subseteq> recs (snd (put f0 r0 j0))"
      using put_keeps [of j0 r0 f0 "fst (put f0 r0 j0)" "snd (put f0 r0 j0)"] Cons.prems x by simp
    then show ?case using Cons.IH [of "snd (put f0 r0 j0)"] Cons.prems x by auto
  qed simp
  have "jok j'" "r \<in> recs j'" using put_keeps [OF assms(1-3)] put_durable [OF assms(1-3)] by auto
  from keep [OF this] lists_newer [of _ n] assms(5) show ?thesis by fastforce
qed

end

section \<open>The directory meets it\<close>

definition dir_ok :: "journal_codec \<Rightarrow> dir \<Rightarrow> bool" where
  "dir_ok jc files \<longleftrightarrow> distinct (map fst files)
     \<and> (\<forall>name bs s. map_of files name = Some bs \<longrightarrow> entry_seq name = Some s \<longrightarrow>
          (\<exists>r. jc_from_json jc bs = Inr r \<and> jr_seq r = s \<and> name = file_name r))"

definition dir_records :: "journal_codec \<Rightarrow> dir \<Rightarrow> JournalRecord set" where
  "dir_records jc files = {r. jr_seq r < 2 ^ 64 \<and>
     (\<exists>bs. map_of files (file_name r) = Some bs \<and> jc_from_json jc bs = Inr r)}"

lemma seq_of_bound: "entry_seq name = Some s \<Longrightarrow> s < 2 ^ 64"
  by (auto simp: entry_seq_def seq_of_def bind_eq_Some_conv dest: parse_u64_bound)

lemma tmp_update:
  assumes "dir_ok jc files"
  shows "dir_ok jc (AList.update (tmp_name r) bs files)" "dir_records jc (AList.update (tmp_name r) bs files) = dir_records jc files"
  using assms tmp_not_file [of r] tmp_not_file [of r, symmetric]
  by (auto simp: dir_ok_def dir_records_def AList.update_conv' AList.distinct_update seq_of_tmp_name split: if_splits)

lemma renamed_update:
  assumes ok: "dir_ok jc files" and codec: "writable jc r" and free: "map_of files (file_name r) = None"
  defines "files' \<equiv> AList.update (file_name r) (jc_to_json jc r) (AList.delete (tmp_name r) files)"
  shows "dir_ok jc files'" "dir_records jc files' = insert r (dir_records jc files)"
    "\<forall>r' \<in> dir_records jc files. jr_seq r' \<noteq> jr_seq r"
proof -
  have seq: "jr_seq r < 2 ^ 64" and reads: "jc_from_json jc (jc_to_json jc r) = Inr r"
    using codec by (simp_all add: writable_def)
  have look: "map_of files' = (map_of files)(tmp_name r := None, file_name r \<mapsto> jc_to_json jc r)"
    by (simp add: files'_def AList.update_conv' AList.delete_conv')
  have "distinct (map fst files')" using ok by (simp add: files'_def dir_ok_def AList.distinct_update AList.distinct_delete)
  moreover have "\<exists>x. jc_from_json jc bs = Inr x \<and> jr_seq x = s \<and> name = file_name x"
    if "map_of files' name = Some bs" "entry_seq name = Some s" for name bs s
  proof (cases "name = file_name r")
    case True
    then have "s = jr_seq r" using that(2) seq_of_file_name [OF seq] by simp
    then show ?thesis using True that(1) reads by (auto simp: look)
  next
    case False
    then have "map_of files name = Some bs" using that(1) by (auto simp: look split: if_splits)
    then show ?thesis using ok that(2) by (auto simp: dir_ok_def)
  qed
  ultimately show "dir_ok jc files'" by (auto simp: dir_ok_def)
  show "\<forall>r' \<in> dir_records jc files. jr_seq r' \<noteq> jr_seq r"
    using free by (auto simp: dir_records_def file_name_def)
  show "dir_records jc files' = insert r (dir_records jc files)"
  proof (intro set_eqI iffI)
    fix x assume x: "x \<in> dir_records jc files'"
    then obtain bs where bs: "jr_seq x < 2 ^ 64" "map_of files' (file_name x) = Some bs" "jc_from_json jc bs = Inr x"
      by (auto simp: dir_records_def)
    show "x \<in> insert r (dir_records jc files)"
    proof (cases "file_name x = file_name r")
      case True
      then show ?thesis using bs reads by (auto simp: look)
    next
      case False
      then show ?thesis using bs tmp_not_file [of r x] by (auto simp: look dir_records_def)
    qed
  next
    fix x assume "x \<in> insert r (dir_records jc files)"
    then consider "x = r" | "x \<in> dir_records jc files" by blast
    then show "x \<in> dir_records jc files'"
    proof cases
      case 1
      then show ?thesis using seq reads by (auto simp: look dir_records_def)
    next
      case 2
      then have "file_name x \<noteq> file_name r" using free by (auto simp: dir_records_def)
      then show ?thesis using 2 tmp_not_file [of r x] by (auto simp: look dir_records_def)
    qed
  qed
qed

lemma read_entries_ok:
  assumes "\<forall>(name, bs) \<in> set es. \<forall>s. entry_seq name = Some s \<longrightarrow>
      (\<exists>r. jc_from_json jc bs = Inr r \<and> jr_seq r = s \<and> name = file_name r)"
    and "distinct (map fst es)"
  shows "\<exists>rs. read_entries jc n es = Inr rs
    \<and> set rs = {r. \<exists>bs. (file_name r, bs) \<in> set es \<and> entry_seq (file_name r) = Some (jr_seq r)
        \<and> jc_from_json jc bs = Inr r \<and> n < jr_seq r}
    \<and> distinct (map jr_seq rs)"
  using assms
proof (induction es)
  case (Cons x es)
  obtain name bs where x: "x = (name, bs)" by (cases x)
  from Cons obtain rs where rs: "read_entries jc n es = Inr rs"
    "set rs = {r. \<exists>bs. (file_name r, bs) \<in> set es \<and> entry_seq (file_name r) = Some (jr_seq r)
        \<and> jc_from_json jc bs = Inr r \<and> n < jr_seq r}" "distinct (map jr_seq rs)"
    by auto
  show ?case
  proof (cases "\<exists>s. entry_seq name = Some s \<and> n < s")
    case True
    then obtain r where r: "entry_seq name = Some (jr_seq r)" "n < jr_seq r" "jc_from_json jc bs = Inr r"
      "name = file_name r"
      using Cons.prems(1) x by auto
    have "jr_seq r \<noteq> jr_seq y" if "y \<in> set rs" for y
    proof
      assume "jr_seq r = jr_seq y"
      then have "name = file_name y" by (simp add: r(4) file_name_def)
      then show False using that rs(2) Cons.prems(2) x by force
    qed
    moreover have "read_entries jc n (x # es) = Inr (r # rs)" using r x rs(1) by simp
    moreover have "set (r # rs) = {y. \<exists>b. (file_name y, b) \<in> set (x # es)
        \<and> entry_seq (file_name y) = Some (jr_seq y) \<and> jc_from_json jc b = Inr y \<and> n < jr_seq y}"
      using r x rs(2) by auto
    ultimately show ?thesis using rs(3) by (intro exI [of _ "r # rs"]) (auto simp: image_iff)
  next
    case False
    then have "read_entries jc n (x # es) = Inr rs" using x rs(1) by (auto split: option.split)
    moreover have "(file_name y, b) \<in> set (x # es) \<and> entry_seq (file_name y) = Some (jr_seq y) \<and> n < jr_seq y
        \<longleftrightarrow> (file_name y, b) \<in> set es \<and> entry_seq (file_name y) = Some (jr_seq y) \<and> n < jr_seq y" for y b
      using False x by auto
    ultimately show ?thesis using rs(2,3) by (intro exI [of _ rs]) auto
  qed
qed simp

lemma file_list_after_ok:
  assumes "dir_ok jc files"
  shows "\<exists>rs. file_list_after jc n files = Inr rs \<and> set rs = {r \<in> dir_records jc files. n < jr_seq r}
    \<and> sorted (map jr_seq rs) \<and> distinct (map jr_seq rs)"
proof -
  have d: "distinct (map fst files)" using assms by (simp add: dir_ok_def)
  have "\<forall>(name, bs) \<in> set files. \<forall>s. entry_seq name = Some s \<longrightarrow>
      (\<exists>r. jc_from_json jc bs = Inr r \<and> jr_seq r = s \<and> name = file_name r)"
    using assms by (auto simp: dir_ok_def map_of_eq_Some_iff)
  from read_entries_ok [OF this d, of n] obtain rs where rs: "read_entries jc n files = Inr rs"
    "set rs = {r. \<exists>bs. (file_name r, bs) \<in> set files \<and> entry_seq (file_name r) = Some (jr_seq r)
        \<and> jc_from_json jc bs = Inr r \<and> n < jr_seq r}" "distinct (map jr_seq rs)"
    by blast
  have "set rs = {r \<in> dir_records jc files. n < jr_seq r}"
    unfolding rs(2) dir_records_def
    using d by (auto simp: map_of_eq_Some_iff seq_of_file_name dest: seq_of_bound)
  moreover have "distinct (map jr_seq (sort_key jr_seq rs))"
    using rs(3) by (simp add: distinct_map)
  ultimately show ?thesis using rs(1) by (intro exI [of _ "sort_key jr_seq rs"]) (simp add: file_list_after_def)
qed

lemma file_put_ok:
  assumes "dir_ok jc files" and "writable jc r" and "file_put jc f r files = (x, files')"
  shows "dir_ok jc files' \<and> dir_records jc files \<subseteq> dir_records jc files'
      \<and> dir_records jc files' \<subseteq> insert r (dir_records jc files)"
    "x = Inr () \<Longrightarrow> r \<in> dir_records jc files' \<and> (\<forall>r' \<in> dir_records jc files. jr_seq r' \<noteq> jr_seq r)"
proof -
  note tmp = tmp_update [OF assms(1)]
  show "dir_ok jc files' \<and> dir_records jc files \<subseteq> dir_records jc files'
      \<and> dir_records jc files' \<subseteq> insert r (dir_records jc files)"
  proof (cases "map_of files (file_name r)")
    case None
    note ren = renamed_update [OF assms(1,2) None]
    show ?thesis using assms(3) None tmp ren assms(1)
      by (cases f) (auto simp: file_put_def Let_def)
  qed (use assms in \<open>auto simp: file_put_def\<close>)
  assume x: "x = Inr ()"
  then have None: "map_of files (file_name r) = None" using assms(3) by (auto simp: file_put_def split: if_splits)
  note ren = renamed_update [OF assms(1,2) None]
  have "files' = AList.update (file_name r) (jc_to_json jc r) (AList.delete (tmp_name r) files)"
    using assms(3) None x by (cases f) (auto simp: file_put_def Let_def)
  then show "r \<in> dir_records jc files' \<and> (\<forall>r' \<in> dir_records jc files. jr_seq r' \<noteq> jr_seq r)" using ren by simp
qed

interpretation journal_dir: journal_spec "file_put jc" "file_list_after jc" "dir_records jc"
    "dir_ok jc" "writable jc" for jc
proof (unfold_locales, goal_cases)
  case (1 j r f x j')
  then show ?case using file_put_ok(1) [of jc j r f x j'] by simp
next
  case (2 j r f j')
  then show ?case using file_put_ok(2) [of jc j r f "Inr ()" j'] by simp
next
  case (3 j n)
  then show ?case using file_list_after_ok [of jc j n] by simp
qed

section \<open>Catching up after a restore\<close>

definition vault_key :: "VaultRec \<Rightarrow> VaultPk \<times> VaultId" where
  "vault_key v = (v_pk v, v_vault_id v)"

lemma audit_only_vault_keys: "audit_only d d' \<Longrightarrow> vault_key ` set (vaults d') = vault_key ` set (vaults d)"
  using arg_cong [OF audit_only_vaults [of d d' vault_key], of set]
  by (simp add: vault_key_def unaudited_def)

lemma update_vault_keys:
  assumes "\<And>v. vault_key (f v) = vault_key v"
  shows "vault_key ` set (vaults (update_vault p f d)) = vault_key ` set (vaults d)"
proof -
  have "map vault_key (vaults (update_vault p f d)) = map vault_key (vaults d)"
    by (simp add: vaults_update_vault assms)
  from arg_cong [OF this, of set] show ?thesis by simp
qed

lemma replay_op_vaults:
  assumes "replay_op c ts op d = Inr (b, d')"
  shows "vault_key ` set (vaults d') \<subseteq> vault_key ` set (vaults d)"
  using assms
proof (cases rule: replay_op_cases)
  case (revoke i ids actor reported vault rm d1 d2)
  have "vault_key ` set (vaults (bump_revision (pk vault) d2)) = vault_key ` set (vaults d2)"
    unfolding bump_revision_def by (rule update_vault_keys) (simp add: vault_key_def)
  moreover have "vault_key ` set (vaults d2) = vault_key ` set (vaults d1)"
    by (rule audit_only_vault_keys [OF audit_each_only [OF revoke(4)]])
  moreover have "vaults d1 = vaults d" using delete_tokens_eq [OF revoke(3)] by simp
  ultimately show ?thesis using revoke(5) by simp
next
  case (rotate i actor req vault g)
  from rotate(3) obtain rows used where eff: "audit_only (update_vault (pk vault)
      (\<lambda>v. v\<lparr>v_generation := g, v_owner_bundle := rr_owner_bundle req, v_bytes_used := used,
         v_revision := v_revision v + 1\<rparr>)
      (rotated_tokens (pk vault) g req (add_descriptor (pk vault) g (rr_descriptor req)
         (rotated_records c (pk vault) rows d)))) d'"
    by (rule apply_batch_effect)
  show ?thesis
    unfolding audit_only_vault_keys [OF eff] by (subst update_vault_keys) (simp_all add: vault_key_def)
qed (auto simp: delete_vault_rows_def)

lemma replay_split:
  assumes "replay c r d = (Inr b, d')"
  obtains (old) "jr_seq r \<le> last_applied d" "d' = d"
  | (new) d1 where "last_applied d < jr_seq r" "replay_op c (jr_ts r) (jr_op r) d = Inr (b, d1)"
      "d' = d1\<lparr>last_applied := jr_seq r\<rparr>"
proof (cases "jr_seq r \<le> last_applied d")
  case True
  then have "d' = d" using assms by (simp add: replay_old)
  with True show thesis by (rule old)
next
  case False
  then obtain d1 where "replay_op c (jr_ts r) (jr_op r) d = Inr (b, d1)" "d' = d1\<lparr>last_applied := jr_seq r\<rparr>"
    using assms by (cases "replay_op c (jr_ts r) (jr_op r) d") (auto simp: replay_def write_tx_def)
  with False show thesis by (intro new) simp_all
qed

lemma replay_keys:
  assumes "replay c r d = (Inr b, d')"
  shows "token_key ` set (tokens d') \<subseteq> token_key ` set (tokens d)"
    "vault_key ` set (vaults d') \<subseteq> vault_key ` set (vaults d)"
    "last_applied d' = max (last_applied d) (jr_seq r)"
proof -
  have "token_key ` set (tokens d') \<subseteq> token_key ` set (tokens d) \<and> vault_key ` set (vaults d') \<subseteq> vault_key ` set (vaults d)
      \<and> last_applied d' = max (last_applied d) (jr_seq r)"
    using assms
  proof (cases rule: replay_split)
    case (new d1)
    then show ?thesis using replay_op_tokens [OF new(2)] replay_op_vaults [OF new(2)] by (simp add: max_def)
  qed simp
  then show "token_key ` set (tokens d') \<subseteq> token_key ` set (tokens d)"
    "vault_key ` set (vaults d') \<subseteq> vault_key ` set (vaults d)"
    "last_applied d' = max (last_applied d) (jr_seq r)" by blast+
qed

text \<open>No token of the vault with id \<open>i\<close> has one of the ids; no vault has the id \<open>i\<close>.\<close>

definition revoked_in :: "VaultId \<Rightarrow> TokenId list \<Rightarrow> db \<Rightarrow> bool" where
  "revoked_in i ids d \<longleftrightarrow>
     (\<forall>n p. (n, p) \<in> token_key ` set (tokens d) \<and> (p, i) \<in> vault_key ` set (vaults d) \<longrightarrow> n \<notin> set ids)"

definition deleted_in :: "VaultId \<Rightarrow> db \<Rightarrow> bool" where
  "deleted_in i d \<longleftrightarrow> (\<forall>p. (p, i) \<notin> vault_key ` set (vaults d))"

fun undone :: "JournalOp \<Rightarrow> db \<Rightarrow> bool" where
  "undone (RevokeTokens i ids actor reported) d = (\<not> revoked_in i ids d)"
| "undone (DeleteVault i) d = (\<not> deleted_in i d)"
| "undone (Rotate i actor req) d = False"

lemma undone_mono:
  assumes "token_key ` set (tokens d') \<subseteq> token_key ` set (tokens d)"
    and "vault_key ` set (vaults d') \<subseteq> vault_key ` set (vaults d)" and "\<not> undone op d"
  shows "\<not> undone op d'"
proof (cases op)
  case (RevokeTokens i ids actor reported)
  then show ?thesis using assms unfolding RevokeTokens undone.simps revoked_in_def by blast
next
  case (DeleteVault i)
  then show ?thesis using assms unfolding DeleteVault undone.simps deleted_in_def by blast
qed simp

lemma no_vault_row:
  assumes "db_inv c d" and "load_vault_by_id d i = None"
  shows "deleted_in i d"
proof -
  have "v_vault_id v \<noteq> i" if "v \<in> set (vaults d)" for v
  proof
    assume i: "v_vault_id v = i"
    have dist: "distinct (map v_vault_id (vaults d))" using assms(1) by (simp add: db_inv_def vault_ok_def)
    have "find (\<lambda>x. v_vault_id x = i) (vaults d) = Some v" using find_unique_key [OF dist that] i by simp
    moreover have "find_descriptor (v_pk v) (v_generation v) d \<noteq> None"
      using assms(1) that by (simp add: db_inv_def descriptors_ok_def)
    ultimately show False using assms(2) by (auto simp: load_vault_by_id_def vault_row_def)
  qed
  then show ?thesis unfolding deleted_in_def vault_key_def by blast
qed

lemma replay_not_undone:
  assumes "db_inv c d" and "last_applied d < jr_seq r" and "replay c r d = (Inr b, d')"
  shows "\<not> undone (jr_op r) d'"
proof (cases "jr_op r")
  case (RevokeTokens i ids actor reported)
  show ?thesis
  proof (cases "load_vault_by_id d i")
    case None
    then have "deleted_in i d'"
      using no_vault_row [OF assms(1) None] replay_keys(2) [OF assms(3)] unfolding deleted_in_def by blast
    then show ?thesis unfolding RevokeTokens undone.simps revoked_in_def deleted_in_def by blast
  next
    case (Some vault)
    have keep: "t_id t \<notin> set ids" if "t \<in> set (tokens d')" "t_vault_pk t = pk vault" for t
      using replay_revocation [OF RevokeTokens assms(2) Some assms(3)] that by simp
    have "p = pk vault" if key: "(p, i) \<in> vault_key ` set (vaults d)" for p
    proof -
      obtain v where v: "v \<in> set (vaults d)" "v_pk v = p" "v_vault_id v = i" using key by (auto simp: vault_key_def)
      have "distinct (map v_vault_id (vaults d))" using assms(1) by (simp add: db_inv_def vault_ok_def)
      from find_unique_key [OF this v(1)] v(2,3) Some show ?thesis
        by (auto simp: load_vault_by_id_def dest: vault_row_fields)
    qed
    then have "p = pk vault" if "(p, i) \<in> vault_key ` set (vaults d')" for p
      using that replay_keys(2) [OF assms(3)] by blast
    then show ?thesis using keep unfolding RevokeTokens undone.simps revoked_in_def token_key_def by blast
  qed
next
  case (DeleteVault i)
  from assms(3) show ?thesis
  proof (cases rule: replay_split)
    case (new d1)
    show ?thesis
    proof (cases "find (\<lambda>v. v_vault_id v = i) (vaults d)")
      case None
      then have "vaults d' = vaults d" using new DeleteVault by (simp add: replay_op_def)
      then show ?thesis using None unfolding DeleteVault undone.simps deleted_in_def vault_key_def find_None_all by auto
    next
      case (Some v)
      have "distinct (map v_vault_id (vaults d))" using assms(1) by (simp add: db_inv_def vault_ok_def)
      then have "x = v" if "x \<in> set (vaults d)" "v_vault_id x = i" for x
        using find_unique_key [of v_vault_id "vaults d" x] that Some by simp
      moreover have "vaults d' = filter (\<lambda>x. v_pk x \<noteq> v_pk v) (vaults d)"
        using new DeleteVault Some by (auto simp: replay_op_def delete_vault_rows_def)
      ultimately show ?thesis unfolding DeleteVault undone.simps deleted_in_def vault_key_def by auto
    qed
  qed (use assms(2) in simp)
qed simp

lemma replay_all_done:
  assumes "db_inv c d" and "replay_all c rs d = (Inr (), d')" and "sorted (map jr_seq rs)"
    and "distinct (map jr_seq rs)" and "\<forall>r \<in> set rs. last_applied d < jr_seq r"
  shows "(\<forall>r \<in> set rs. \<not> undone (jr_op r) d' \<and> jr_seq r \<le> last_applied d')
    \<and> token_key ` set (tokens d') \<subseteq> token_key ` set (tokens d)
    \<and> vault_key ` set (vaults d') \<subseteq> vault_key ` set (vaults d) \<and> last_applied d \<le> last_applied d'"
  using assms
proof (induction rs arbitrary: d)
  case (Cons r rs)
  obtain b d1 where d1: "replay c r d = (Inr b, d1)" "replay_all c rs d1 = (Inr (), d')"
    using Cons.prems(2) by (auto split: prod.splits sum.splits)
  note keys = replay_keys [OF d1(1)]
  have la: "last_applied d1 = jr_seq r" using keys(3) Cons.prems(5) by auto
  have "db_inv c d1" using replay_inv [OF Cons.prems(1), of r] d1(1) by simp
  moreover have "\<forall>x \<in> set rs. last_applied d1 < jr_seq x"
    using Cons.prems(3,4) la by (auto simp: less_le image_iff)
  ultimately have IH: "(\<forall>x \<in> set rs. \<not> undone (jr_op x) d' \<and> jr_seq x \<le> last_applied d')
    \<and> token_key ` set (tokens d') \<subseteq> token_key ` set (tokens d1)
    \<and> vault_key ` set (vaults d') \<subseteq> vault_key ` set (vaults d1) \<and> last_applied d1 \<le> last_applied d'"
    using Cons.IH [of d1] d1(2) Cons.prems(3,4) by simp
  have "last_applied d < jr_seq r" using Cons.prems(5) by simp
  then have "\<not> undone (jr_op r) d1" using Cons.prems(1) d1(1) by (intro replay_not_undone)
  with IH have "\<not> undone (jr_op r) d'" by (elim conjE) (rule undone_mono)
  then have "\<forall>x \<in> set (r # rs). \<not> undone (jr_op x) d' \<and> jr_seq x \<le> last_applied d'" using IH la by simp
  moreover have "last_applied d \<le> last_applied d'" using IH keys(3) by simp
  moreover have "token_key ` set (tokens d') \<subseteq> token_key ` set (tokens d)"
    using IH keys(1) by (meson subset_trans)
  moreover have "vault_key ` set (vaults d') \<subseteq> vault_key ` set (vaults d)"
    using IH keys(2) by (meson subset_trans)
  ultimately show ?case by simp
qed simp

lemma replay_journal_split:
  assumes "dir_ok jc files" and "replay_journal c (file_list_after jc) files d = (Inr n, d')"
  obtains rs where "file_list_after jc (last_applied d) files = Inr rs" "replay_all c rs d = (Inr (), d')"
    "set rs = {r \<in> dir_records jc files. last_applied d < jr_seq r}" "sorted (map jr_seq rs)" "distinct (map jr_seq rs)"
    "n = length rs"
proof -
  obtain rs where rs: "file_list_after jc (last_applied d) files = Inr rs"
    "set rs = {r \<in> dir_records jc files. last_applied d < jr_seq r}" "sorted (map jr_seq rs)" "distinct (map jr_seq rs)"
    using journal_dir.lists_newer [OF assms(1), of "last_applied d"] by blast
  moreover have "replay_all c rs d = (Inr (), d')" "n = length rs"
    using assms(2) rs(1) by (auto simp: replay_journal_def split: prod.splits sum.splits)
  ultimately show thesis using that by blast
qed

section \<open>Properties\<close>

text \<open>C25. A restored backup cannot bring back what was acknowledged after it was taken: once the core has
  opened over a reachable database, every record of the journal that is newer than the last one that
  database had applied is in force. A revocation holds (no such token of that vault), a deleted vault
  is gone, and the record counts as applied.\<close>

theorem restored_backup_catches_up:
  assumes "store_reachable c h j0 d j" and "dir_ok jc files"
    and "replay_journal c (file_list_after jc) files d = (Inr n, d')"
    and "r \<in> dir_records jc files" and "last_applied d < jr_seq r"
  shows "\<not> undone (jr_op r) d' \<and> jr_seq r \<le> last_applied d'"
proof -
  from assms(2,3) obtain rs where rs: "replay_all c rs d = (Inr (), d')"
    "set rs = {r \<in> dir_records jc files. last_applied d < jr_seq r}" "sorted (map jr_seq rs)" "distinct (map jr_seq rs)"
    by (rule replay_journal_split)
  show ?thesis
    using replay_all_done [OF store_reachable_inv [OF assms(1)] rs(1,3,4)] rs(2) assms(4,5) by simp
qed

text \<open>Opening twice replays once: after a successful replay nothing in the journal is newer than
  the database, and a second replay is empty and changes nothing.\<close>

theorem replay_idempotent:
  assumes "store_reachable c h j0 d j" and "dir_ok jc files"
    and "replay_journal c (file_list_after jc) files d = (Inr n, d')"
  shows "replay_journal c (file_list_after jc) files d' = (Inr 0, d')"
proof -
  from assms(2,3) obtain rs where rs: "replay_all c rs d = (Inr (), d')"
    "set rs = {r \<in> dir_records jc files. last_applied d < jr_seq r}" "sorted (map jr_seq rs)" "distinct (map jr_seq rs)"
    by (rule replay_journal_split)
  have fin: "\<forall>r \<in> set rs. jr_seq r \<le> last_applied d'" "last_applied d \<le> last_applied d'"
    using replay_all_done [OF store_reachable_inv [OF assms(1)] rs(1,3,4)] rs(2) by auto
  obtain rs' where rs': "file_list_after jc (last_applied d') files = Inr rs'"
    "set rs' = {r \<in> dir_records jc files. last_applied d' < jr_seq r}"
    using journal_dir.lists_newer [OF assms(2), of "last_applied d'"] by blast
  have "set rs' = {}" unfolding rs'(2) using fin rs(2) by force
  then show ?thesis using rs'(1) by (simp add: replay_journal_def)
qed

text \<open>C39. A record whose write was acknowledged is found by every later replay, whatever is written
  to the directory after it and whichever system call fails.\<close>

theorem acknowledged_record_listed:
  assumes "dir_ok jc files" and "writable jc r" and "file_put jc fault r files = (Inr (), files')"
    and "\<forall>x \<in> set later. writable jc (snd x)" and "n < jr_seq r"
  shows "\<exists>rs. file_list_after jc n (fold (\<lambda>(f, r) files. snd (file_put jc f r files)) later files') = Inr rs \<and> r \<in> set rs"
  using assms by (rule journal_dir.acknowledged_listed)

section \<open>A record that was reported as not written\<close>

text \<open>Replay happens only when the core opens.\<close>

definition restarts :: "store_call \<Rightarrow> bool" where
  "restarts call = (case call of Replay _ \<Rightarrow> True | _ \<Rightarrow> False)"

lemma file_put_keeps: "map_of files (file_name r) = Some bs \<Longrightarrow> map_of (snd (file_put jc f r' files)) (file_name r) = Some bs"
  using tmp_not_file [of r' r]
  by (cases "file_name r' = file_name r")
    (auto simp: file_put_def Let_def AList.update_conv' AList.delete_conv' split: io_fault.splits)

text \<open>A critical operation leaves the journal to its hook.\<close>

lemma hooked_journal:
  assumes "\<And>r j. I j \<Longrightarrow> I (snd (h r j))" and "I j"
  shows "I (snd (snd (revoke_tokens c p ids reported ctx h d j)))" "I (snd (snd (apply_rotation c p req ctx h d j)))"
    "I (snd (snd (delete_vault p now h d j)))"
proof -
  have j: "journal op t h d0 j = (x, j') \<Longrightarrow> I j'" for op t d0 x j'
    using assms(1) [OF assms(2), of "\<lparr>jr_seq = last_applied d0 + 1, jr_ts = t, jr_op = op\<rparr>"]
    by (auto simp: journal_def Let_def split: prod.splits)
  show "I (snd (snd (revoke_tokens c p ids reported ctx h d j)))"
    unfolding revoke_tokens_def write_hooked_def
    by (auto simp: Let_def assms(2) dest: j split: prod.splits option.splits sum.splits if_splits)
  show "I (snd (snd (apply_rotation c p req ctx h d j)))"
    unfolding apply_rotation_def write_hooked_def
    by (auto simp: Let_def assms(2) dest: j split: prod.splits option.splits sum.splits if_splits)
  show "I (snd (snd (delete_vault p now h d j)))"
    unfolding delete_vault_def write_hooked_def
    by (auto simp: Let_def assms(2) dest: j split: prod.splits option.splits sum.splits if_splits)
qed

text \<open>The file of the next record is taken.\<close>

definition blocked :: "crypto \<Rightarrow> nat \<Rightarrow> JournalRecord \<Rightarrow> bytes \<Rightarrow> db \<times> dir \<Rightarrow> bool" where
  "blocked c n r bs s \<longleftrightarrow> db_inv c (fst s) \<and> last_applied (fst s) = n \<and> jr_seq r = n + 1
     \<and> map_of (snd s) (file_name r) = Some bs"

lemma blocked_refuses:
  assumes "blocked c n r bs (d, files)"
  shows "(\<exists>e files'. revoke_tokens c p ids reported ctx (file_put jc f) d files = (Inl e, d, files'))
    \<and> (\<exists>e files'. apply_rotation c p req ctx (file_put jc f) d files = (Inl e, d, files'))
    \<and> (\<exists>e files'. delete_vault p now (file_put jc f) d files = (Inl e, d, files'))"
proof (rule critical_unrecorded)
  show "db_inv c d" using assms by (simp add: blocked_def)
  fix r' :: JournalRecord assume "jr_seq r' = last_applied d + 1"
  then have "file_name r' = file_name r" using assms by (simp add: blocked_def file_name_def)
  then show "\<exists>e. fst (file_put jc f r' files) = Inl e" using assms by (simp add: blocked_def file_put_def)
qed

lemma blocked_step:
  assumes "blocked c n r bs s" and "\<not> restarts call"
  shows "blocked c n r bs (store_step c (file_put jc f) call s)"
proof -
  obtain d files where s: "s = (d, files)" by (cases s)
  have inv: "db_inv c (fst (store_step c (file_put jc f) call s))" using assms(1) by (simp add: blocked_def store_step_inv)
  have keep: "map_of (snd (file_put jc f r' x)) (file_name r) = Some bs" if "map_of x (file_name r) = Some bs" for r' :: JournalRecord and x
    using that by (rule file_put_keeps)
  have files: "map_of files (file_name r) = Some bs" using assms(1) s by (simp add: blocked_def)
  note hooked = hooked_journal [where I = "\<lambda>x. map_of x (file_name r) = Some bs" and h = "file_put jc f", OF keep files]
  note refused = blocked_refuses [OF assms(1) [unfolded s], where jc = jc and f = f]
  have "fst (store_step c (file_put jc f) call s) = d \<or> last_applied (fst (store_step c (file_put jc f) call s)) = last_applied d"
  proof (cases call)
    case (RevokeTokensCall p ids rep ctx)
    then show ?thesis using refused [of p ids rep ctx undefined undefined] s by auto
  next
    case (ApplyRotation p req ctx)
    then show ?thesis using refused [of p undefined undefined ctx req undefined] s by auto
  next
    case (DeleteVaultCall p now)
    then show ?thesis using refused [of p undefined undefined undefined undefined now] s by auto
  qed (use assms(2) s in \<open>simp_all add: restarts_def applied_ops applied_put_record applied_delete_record\<close>)
  moreover have "map_of (snd (store_step c (file_put jc f) call s)) (file_name r) = Some bs"
    using files hooked s by (cases call) simp_all
  ultimately show ?thesis using inv assms(1) s by (auto simp: blocked_def)
qed

lemma blocked_run:
  "blocked c n r bs s \<Longrightarrow> \<forall>(f, call) \<in> set later. \<not> restarts call
    \<Longrightarrow> blocked c n r bs (fold (\<lambda>(f, call). store_step c (file_put jc f) call) later s)"
proof (induction later arbitrary: s)
  case (Cons x later)
  obtain f call where x: "x = (f, call)" by (cases x)
  then have "blocked c n r bs (store_step c (file_put jc f) call s)" using Cons.prems by (intro blocked_step) simp_all
  then show ?case using Cons x by simp
qed simp

text \<open>C40. When the flush of the directory fails after the rename, the operation is rolled back and
  reported as failed, yet its record stays in the directory, and until a restart no critical operation
  succeeds: after any later calls of the store, critical or not, with whatever faults of the journal, every
  revocation, rotation and deletion is refused and changes nothing, and the record is still there,
  newer than everything the database applied, so that the restart replays it.\<close>

theorem failed_flush_blocks:
  assumes "store_reachable c h0 j0 d j" and "dir_ok jc files"
    and "map_of files (file_name r) = None" and "jr_seq r = last_applied d + 1" and "writable jc r"
    and "file_put jc (SyncDirFails e) r files = (x, files')"
    and "\<forall>(f, call) \<in> set later. \<not> restarts call"
    and "fold (\<lambda>(f, call). store_step c (file_put jc f) call) later (d, files') = (d1, files1)"
  shows "x = Inl e \<and> r \<in> dir_records jc files1 \<and> last_applied d1 < jr_seq r
    \<and> (\<exists>e files''. revoke_tokens c p ids reported ctx (file_put jc f) d1 files1 = (Inl e, d1, files''))
    \<and> (\<exists>e files''. apply_rotation c p req ctx (file_put jc f) d1 files1 = (Inl e, d1, files''))
    \<and> (\<exists>e files''. delete_vault p now (file_put jc f) d1 files1 = (Inl e, d1, files''))"
proof -
  have files': "x = Inl e" "files' = AList.update (file_name r) (jc_to_json jc r) (AList.delete (tmp_name r) files)"
    using assms(3,6) by (simp_all add: file_put_def Let_def)
  then have "blocked c (last_applied d) r (jc_to_json jc r) (d, files')"
    using store_reachable_inv [OF assms(1)] assms(4) by (simp add: blocked_def AList.update_conv')
  from blocked_run [OF this assms(7), of jc] have b: "blocked c (last_applied d) r (jc_to_json jc r) (d1, files1)"
    by (simp add: assms(8))
  then have "r \<in> dir_records jc files1" "last_applied d1 < jr_seq r"
    using assms(5) by (simp_all add: blocked_def dir_records_def writable_def)
  then show ?thesis using files'(1) blocked_refuses [OF b] by blast
qed

section \<open>A concrete directory\<close>

definition ex_codec :: journal_codec where
  "ex_codec = \<lparr>jc_to_json = (\<lambda>r. [1]),
     jc_from_json = (\<lambda>bs. if bs = [1] then Inr ex_revoke_record else Inl ''EOF while parsing a value'')\<rparr>"

definition ex_files :: dir where
  "ex_files = snd (file_put ex_codec NoFault ex_revoke_record [])"

lemma ex_dir: "dir_ok ex_codec []" "writable ex_codec ex_revoke_record"
  "file_put ex_codec NoFault ex_revoke_record [] = (Inr (), ex_files)"
  "ex_files = [(file_name ex_revoke_record, [1])]"
  by (simp_all add: dir_ok_def writable_def ex_codec_def ex_files_def ex_revoke_record_def file_put_def Let_def)

lemma ex_files_ok: "dir_ok ex_codec ex_files" "ex_revoke_record \<in> dir_records ex_codec ex_files"
  using journal_dir.put_keeps [OF ex_dir(1-3)] journal_dir.put_durable [OF ex_dir(1-3)] by simp_all

lemma ex_open:
  "replay_journal null_crypto (file_list_after ex_codec) ex_files ex_db3
     = (Inr 1, snd (replay null_crypto ex_revoke_record ex_db3))"
proof -
  have "entry_seq (file_name ex_revoke_record) = Some 1"
    using seq_of_file_name [of ex_revoke_record] by (simp add: ex_revoke_record_def)
  then have "file_list_after ex_codec 0 ex_files = Inr [ex_revoke_record]"
    by (simp add: file_list_after_def ex_dir(4) ex_codec_def)
  then show ?thesis
    using put_fst [OF ex_replay(1)] by (auto simp: replay_journal_def ex_replay(2) split: prod.split)
qed

theorem restored_backup_catches_up_witness:
  "revoked_in (VaultId (replicate 16 1)) [TokenId (replicate 16 7)] (snd (replay null_crypto ex_revoke_record ex_db3))"
  using restored_backup_catches_up [OF ex_reachable(3) ex_files_ok(1) ex_open ex_files_ok(2)] ex_replay(2)
  by (simp add: ex_revoke_record_def)

theorem replay_idempotent_witness:
  "replay_journal null_crypto (file_list_after ex_codec) ex_files (snd (replay null_crypto ex_revoke_record ex_db3))
     = (Inr 0, snd (replay null_crypto ex_revoke_record ex_db3))"
  using replay_idempotent [OF ex_reachable(3) ex_files_ok(1) ex_open] .

theorem acknowledged_record_listed_witness:
  "\<exists>rs. file_list_after ex_codec 0 (snd (file_put ex_codec (WriteFails [] ''disk full'') ex_revoke_record ex_files)) = Inr rs
     \<and> ex_revoke_record \<in> set rs"
  using acknowledged_record_listed [OF ex_dir(1-3), of "[(WriteFails [] ''disk full'', ex_revoke_record)]" 0] ex_dir(2)
  by (simp add: ex_revoke_record_def)

theorem failed_flush_blocks_witness:
  "\<exists>e d1 files1 files''. store_step null_crypto (file_put ex_codec NoFault) (DeleteVaultCall 1 99) (ex_db3, ex_files) = (d1, files1)
    \<and> ex_revoke_record \<in> dir_records ex_codec files1 \<and> delete_vault 1 100 (file_put ex_codec NoFault) d1 files1 = (Inl e, d1, files'')"
proof -
  let ?later = "[(NoFault, DeleteVaultCall 1 99)]"
  have run: "file_put ex_codec (SyncDirFails ''I/O error'') ex_revoke_record [] = (Inl ''I/O error'', ex_files)"
    by (simp add: file_put_def Let_def ex_files_def)
  have seq: "jr_seq ex_revoke_record = last_applied ex_db3 + 1" by (simp add: ex_replay(2) ex_revoke_record_def)
  have free: "map_of [] (file_name ex_revoke_record) = None" by simp
  have live: "\<forall>(f, call) \<in> set ?later. \<not> restarts call" by (simp add: restarts_def)
  obtain d1 files1 where later: "fold (\<lambda>(f, call). store_step null_crypto (file_put ex_codec f) call) ?later (ex_db3, ex_files) = (d1, files1)"
    by fastforce
  from failed_flush_blocks [OF ex_reachable(3) ex_dir(1) free seq ex_dir(2) run live later] later
  show ?thesis by auto
qed

end
