(* ===== verification/Sig.thy ===== *)
theory Sig
  imports Signed
begin

text \<open>
  Request signatures (\<open>proto/sig.rs\<close>): the canonical text an owner or a token signs, and the
  \<open>Authorization: GV-Sig\<close> header, printed and parsed.
\<close>

definition SCHEME :: string where "SCHEME = ''GV-Sig''"
definition SIG_VERSION :: string where "SIG_VERSION = ''1''"
definition MAX_SKEW_SECS :: int where "MAX_SKEW_SECS = 300"

datatype SigError =
    NotGvSig
  | Version
  | Missing string
  | Duplicate string
  | Unknown string
  | Malformed string

datatype SigActor = Owner | Token TokenId

fun sig_actor_str :: "crypto \<Rightarrow> SigActor \<Rightarrow> string" where
  "sig_actor_str c SigActor.Owner = ''owner''"
| "sig_actor_str c (SigActor.Token i) = ''token:'' @ token_id_to_hex c i"

record SignedRequest =
  sr_method :: string
  sr_path_and_query :: string
  sr_body :: bytes
  sr_if_match :: "string option"
  sr_if_none_match :: "string option"

record SigParams =
  sp_actor :: SigActor
  sp_vault_id :: VaultId
  sp_ts :: int
  sp_nonce :: bytes
  sp_sig :: bytes

definition ascii_upper :: "char \<Rightarrow> char" where
  "ascii_upper a = (if 97 \<le> (of_char a :: nat) \<and> of_char a \<le> (122 :: nat)
     then char_of (of_char a - 32 :: nat) else a)"

abbreviation newline :: char where "newline \<equiv> CHR 0x0A"

definition unwrap_or_empty :: "string option \<Rightarrow> string" where
  "unwrap_or_empty x = (case x of None \<Rightarrow> [] | Some s \<Rightarrow> s)"

text \<open>The ten lines of the signing input, and their join.\<close>

definition sig_lines :: "crypto \<Rightarrow> SigActor \<Rightarrow> VaultId \<Rightarrow> int \<Rightarrow> bytes \<Rightarrow> SignedRequest \<Rightarrow> string list" where
  "sig_lines c actor v ts nonce req =
     [LABEL_SIG, sig_actor_str c actor, map ascii_upper (sr_method req), sr_path_and_query req,
      hex_encode c (sha256 c (sr_body req)), vault_id_to_hex c v, show_int ts,
      b64_encode_str c nonce, unwrap_or_empty (sr_if_match req),
      unwrap_or_empty (sr_if_none_match req)]"

definition request_signing_input ::
    "crypto \<Rightarrow> SigActor \<Rightarrow> VaultId \<Rightarrow> int \<Rightarrow> bytes \<Rightarrow> SignedRequest \<Rightarrow> bytes" where
  "request_signing_input c actor v ts nonce req =
     str_bytes (join_with newline (sig_lines c actor v ts nonce req))"

definition params_signing_input :: "crypto \<Rightarrow> SigParams \<Rightarrow> SignedRequest \<Rightarrow> bytes" where
  "params_signing_input c p req =
     request_signing_input c (sp_actor p) (sp_vault_id p) (sp_ts p) (sp_nonce p) req"

definition header_parts :: "crypto \<Rightarrow> SigParams \<Rightarrow> string list" where
  "header_parts c p =
     [''v='' @ SIG_VERSION]
     @ (case sp_actor p of
          SigActor.Owner \<Rightarrow> [''actor=owner'']
        | SigActor.Token i \<Rightarrow> [''actor=token'', ''token='' @ token_id_to_hex c i])
     @ [''vault='' @ vault_id_to_hex c (sp_vault_id p), ''ts='' @ show_int (sp_ts p),
        ''nonce='' @ b64_encode_str c (sp_nonce p), ''sig='' @ b64_encode_str c (sp_sig p)]"

definition to_header_value :: "crypto \<Rightarrow> SigParams \<Rightarrow> string" where
  "to_header_value c p = SCHEME @ '' '' @ join_with CHR '','' (header_parts c p)"

text \<open>The seven slots of \<open>parse\<close>, as a map from parameter names.\<close>

definition sig_keys :: "string list" where
  "sig_keys = [''v'', ''actor'', ''token'', ''vault'', ''ts'', ''nonce'', ''sig'']"

fun fill_slots :: "(string \<rightharpoonup> string) \<Rightarrow> string list \<Rightarrow> SigError + (string \<rightharpoonup> string)" where
  "fill_slots slots [] = Inr slots"
| "fill_slots slots (part # parts) =
     (case split_once CHR ''='' (trim part) of
        None \<Rightarrow> Inl (SigError.Malformed ''parameter'')
      | Some (k, val) \<Rightarrow>
          if k \<notin> set sig_keys then Inl (SigError.Unknown k)
          else if slots k \<noteq> None then Inl (SigError.Duplicate k)
          else fill_slots (slots(k \<mapsto> val)) parts)"

definition decode_fixed_b64 :: "crypto \<Rightarrow> nat \<Rightarrow> string \<Rightarrow> FormatError + bytes" where
  "decode_fixed_b64 c n s =
     rbind (b64_decode_str c s) (\<lambda>bs. if length bs = n then Inr bs else Inl Base64)"

definition parse_actor :: "crypto \<Rightarrow> string \<Rightarrow> string option \<Rightarrow> SigError + SigActor" where
  "parse_actor c actor token =
     (if actor = ''owner'' then
        (case token of None \<Rightarrow> Inr SigActor.Owner | Some _ \<Rightarrow> Inl (SigError.Unknown ''token''))
      else if actor = ''token'' then
        (case token of
           None \<Rightarrow> Inl (SigError.Missing ''token'')
         | Some i \<Rightarrow> map_err (\<lambda>_. SigError.Malformed ''token'')
             (rbind (token_id_from_hex c i) (\<lambda>t. Inr (SigActor.Token t))))
      else Inl (SigError.Malformed ''actor''))"

definition sig_parse :: "crypto \<Rightarrow> string \<Rightarrow> SigError + SigParams" where
  "sig_parse c header =
     rbind (ok_or (Option.bind (strip_prefix SCHEME header) (strip_prefix '' '')) NotGvSig) (\<lambda>rest.
     rbind (fill_slots Map.empty (split_on CHR '','' rest)) (\<lambda>slots.
     rbind (ok_or (slots ''v'') (SigError.Missing ''v'')) (\<lambda>v.
     if v \<noteq> SIG_VERSION then Inl SigError.Version else
     rbind (ok_or (slots ''actor'') (SigError.Missing ''actor'')) (\<lambda>actor.
     rbind (parse_actor c actor (slots ''token'')) (\<lambda>act.
     rbind (ok_or (slots ''vault'') (SigError.Missing ''vault'')) (\<lambda>vault.
     rbind (map_err (\<lambda>_. SigError.Malformed ''vault'') (vault_id_from_hex c vault)) (\<lambda>vault_id.
     rbind (ok_or (slots ''ts'') (SigError.Missing ''ts'')) (\<lambda>ts_str.
     rbind (ok_or (parse_i64 ts_str) (SigError.Malformed ''ts'')) (\<lambda>ts.
     rbind (ok_or (slots ''nonce'') (SigError.Missing ''nonce'')) (\<lambda>nonce_str.
     rbind (map_err (\<lambda>_. SigError.Malformed ''nonce'') (decode_fixed_b64 c 16 nonce_str)) (\<lambda>nonce.
     rbind (ok_or (slots ''sig'') (SigError.Missing ''sig'')) (\<lambda>sig_str.
     rbind (map_err (\<lambda>_. SigError.Malformed ''sig'') (decode_fixed_b64 c 64 sig_str)) (\<lambda>sig.
       Inr \<lparr>sp_actor = act, sp_vault_id = vault_id, sp_ts = ts, sp_nonce = nonce,
            sp_sig = sig\<rparr>)))))))))))))"

section \<open>The header round trip\<close>

definition param :: "string \<Rightarrow> string \<Rightarrow> string" where
  "param k val = k @ CHR ''='' # val"

lemma text_char_facts:
  assumes "text_char a"
  shows "ascii_printing a" "a \<noteq> CHR '',''" "a \<noteq> CHR ''=''" "a \<noteq> newline" "of_char a \<noteq> (0 :: nat)"
  using assms by (auto simp: text_char_def ascii_printing_def Let_def)

lemma text_show_int: "list_all text_char (show_int i)"
  using show_nat_digit by (auto simp: show_int_def list_all_iff text_char_def Let_def)

lemma sig_key_text: "k \<in> set sig_keys \<Longrightarrow> k \<noteq> [] \<and> list_all text_char k"
  by (auto simp: sig_keys_def text_char_def)

lemma text_no_sep:
  assumes "list_all text_char s"
  shows "CHR '','' \<notin> set s" "CHR ''='' \<notin> set s" "newline \<notin> set s"
  using assms text_char_facts(2-4) unfolding list_all_iff by metis+

lemma trim_param:
  assumes k: "k \<in> set sig_keys" and val: "list_all text_char val"
  shows "trim (param k val) = param k val"
proof (rule trim_id)
  from sig_key_text [OF k] show "ascii_printing (hd (param k val))"
    by (cases k) (simp_all add: param_def text_char_facts(1))
  show "ascii_printing (last (param k val))"
  proof (cases "val = []")
    case True
    then show ?thesis by (simp add: param_def ascii_printing_def)
  next
    case False
    with val have "ascii_printing (last val)"
      unfolding list_all_iff by (blast intro: text_char_facts(1) last_in_set)
    with False show ?thesis by (simp add: param_def)
  qed
qed (simp add: param_def)

lemma split_param: "k \<in> set sig_keys \<Longrightarrow> split_once CHR ''='' (param k val) = Some (k, val)"
  unfolding param_def by (rule split_once_append) (rule text_no_sep(2), simp add: sig_key_text)

lemma fill_param [simp]:
  "k \<in> set sig_keys \<Longrightarrow> list_all text_char val \<Longrightarrow> fill_slots slots (param k val # parts) =
     (if slots k \<noteq> None then Inl (SigError.Duplicate k) else fill_slots (slots(k \<mapsto> val)) parts)"
  by (simp add: trim_param split_param)

lemma param_no_comma: "k \<in> set sig_keys \<Longrightarrow> list_all text_char val \<Longrightarrow> CHR '','' \<notin> set (param k val)"
  using sig_key_text text_no_sep(1) by (fastforce simp: param_def)

definition header_params :: "crypto \<Rightarrow> SigParams \<Rightarrow> (string \<times> string) list" where
  "header_params c p =
     [(''v'', ''1'')]
     @ (case sp_actor p of
          SigActor.Owner \<Rightarrow> [(''actor'', ''owner'')]
        | SigActor.Token i \<Rightarrow> [(''actor'', ''token''), (''token'', hex_encode c (tid i))])
     @ [(''vault'', hex_encode c (vid (sp_vault_id p))), (''ts'', show_int (sp_ts p)),
        (''nonce'', b64_encode c (sp_nonce p)), (''sig'', b64_encode c (sp_sig p))]"

lemma header_parts_params: "header_parts c p = map (\<lambda>(k, val). param k val) (header_params c p)"
  by (simp add: header_parts_def header_params_def param_def SIG_VERSION_def token_id_to_hex_def
      vault_id_to_hex_def b64_encode_str_def split: SigActor.splits)

lemma header_params_text:
  assumes "text_codecs c"
  shows "list_all (\<lambda>(k, val). k \<in> set sig_keys \<and> list_all text_char val) (header_params c p)"
proof -
  have "list_all text_char ''1''" "list_all text_char ''owner''" "list_all text_char ''token''"
    by (simp_all add: text_char_def)
  with assms text_show_int show ?thesis
    by (cases "sp_actor p") (simp_all add: header_params_def sig_keys_def text_codecs_def)
qed

lemma fill_params:
  assumes "list_all (\<lambda>(k, val). k \<in> set sig_keys \<and> list_all text_char val) kvs"
    and "distinct (map fst kvs)" and "\<forall>kv \<in> set kvs. slots (fst kv) = None"
  shows "fill_slots slots (map (\<lambda>(k, val). param k val) kvs) = Inr (slots ++ map_of kvs)"
  using assms
proof (induction kvs arbitrary: slots)
  case (Cons kv kvs)
  obtain k v where kv: "kv = (k, v)" by (cases kv)
  have "\<forall>x \<in> set kvs. (slots(k \<mapsto> v)) (fst x) = None"
    using Cons.prems kv by (auto simp: rev_image_eqI)
  with Cons have "fill_slots (slots(k \<mapsto> v)) (map (\<lambda>(k, val). param k val) kvs)
      = Inr (slots(k \<mapsto> v) ++ map_of kvs)"
    by simp
  moreover have "k \<notin> dom (map_of kvs)" using Cons.prems(2) kv by (simp add: dom_map_of_conv_image_fst)
  ultimately show ?case
    using Cons.prems(1,3) kv fill_param [of k v slots "map (\<lambda>(k, val). param k val) kvs"]
    by (simp del: fill_slots.simps) (auto simp: map_add_def fun_eq_iff split: option.splits)
qed simp

definition wf_sig_params :: "SigParams \<Rightarrow> bool" where
  "wf_sig_params p \<longleftrightarrow> (\<forall>i. sp_actor p = SigActor.Token i \<longrightarrow> wf_token_id i)
     \<and> wf_vault_id (sp_vault_id p) \<and> i64_range (sp_ts p) \<and> length (sp_nonce p) = 16
     \<and> length (sp_sig p) = 64"

lemma sig_parse_header:
  assumes c: "text_codecs c" and wf: "wf_sig_params p"
  shows "sig_parse c (to_header_value c p) = Inr p"
proof -
  let ?kvs = "header_params c p"
  have "header_parts c p \<noteq> []" by (simp add: header_parts_def)
  moreover have "\<forall>w \<in> set (header_parts c p). CHR '','' \<notin> set w"
    using header_params_text [OF c, of p] param_no_comma
    by (fastforce simp: header_parts_params list_all_iff)
  ultimately have "split_on CHR '','' (join_with CHR '','' (header_parts c p)) = header_parts c p"
    by (rule split_on_join)
  moreover have "distinct (map fst ?kvs)"
    by (cases "sp_actor p") (simp_all add: header_params_def)
  then have "fill_slots Map.empty (header_parts c p) = Inr (map_of ?kvs)"
    using fill_params [OF header_params_text [OF c]] by (simp add: header_parts_params)
  moreover have "hex_decode c (hex_encode c bs) = Some bs" "b64_decode c (b64_encode c bs) = Some bs" for bs
    using c by (simp_all add: text_codecs_def)
  ultimately show ?thesis
    using wf
    by (cases "sp_actor p")
      (simp_all add: sig_parse_def to_header_value_def header_params_def
        wf_sig_params_def wf_id_defs SIG_VERSION_def parse_actor_def token_id_from_hex_def
        vault_id_from_hex_def from_hex_def decode_fixed_b64_def b64_decode_str_def parse_i64_show)
qed

text \<open>The authorization header parses back to the parameters it was printed from.\<close>

theorem sig_header_roundtrip:
  assumes "text_codecs c" and "wf_sig_params p"
  shows "sig_parse c (to_header_value c p) = Inr p"
  using assms by (rule sig_parse_header)

definition ex_params :: SigParams where
  "ex_params = \<lparr>sp_actor = SigActor.Token (TokenId (replicate 16 5)), sp_vault_id = VaultId (replicate 16 1),
     sp_ts = - 7, sp_nonce = replicate 16 2, sp_sig = replicate 64 3\<rparr>"

theorem sig_header_roundtrip_witness:
  "sig_parse null_crypto (to_header_value null_crypto ex_params) = Inr ex_params"
  using null_text_codecs
  by (rule sig_header_roundtrip)
    (simp add: ex_params_def wf_sig_params_def wf_id_defs i64_range_def i64_min_def i64_max_def)

section \<open>What a request signature binds\<close>

text \<open>An HTTP method, target and precondition hold no line break.\<close>

definition line_free :: "SignedRequest \<Rightarrow> bool" where
  "line_free req \<longleftrightarrow> newline \<notin> set (sr_method req) \<and> newline \<notin> set (sr_path_and_query req)
     \<and> newline \<notin> set (unwrap_or_empty (sr_if_match req))
     \<and> newline \<notin> set (unwrap_or_empty (sr_if_none_match req))"

lemma ascii_upper_newline: "ascii_upper a = newline \<longleftrightarrow> a = newline"
proof -
  have "of_char (ascii_upper a) = (if 97 \<le> (of_char a :: nat) \<and> of_char a \<le> (122 :: nat) then of_char a - 32 else of_char a :: nat)"
    by (auto simp: ascii_upper_def intro!: mod_less)
  moreover have "ascii_upper a = newline \<longleftrightarrow> of_char (ascii_upper a) = (10 :: nat)"
    using of_char_eq_iff [of "ascii_upper a" newline, where ?'a = nat] by simp
  moreover have "a = newline \<longleftrightarrow> of_char a = (10 :: nat)"
    using of_char_eq_iff [of a newline, where ?'a = nat] by simp
  ultimately show ?thesis by auto
qed

lemma sig_lines_no_newline:
  assumes "text_codecs c" and "line_free req"
  shows "\<forall>w \<in> set (sig_lines c actor v ts nonce req). newline \<notin> set w"
proof -
  have "newline \<notin> set (hex_encode c bs)" "newline \<notin> set (b64_encode c bs)"
      "newline \<notin> set (show_int i)" for bs i
    by (intro text_no_sep(3), use assms(1) text_show_int in \<open>simp add: text_codecs_def\<close>)+
  moreover have "newline \<notin> set (sig_actor_str c actor)"
    by (cases actor) (simp_all add: token_id_to_hex_def calculation)
  moreover have "newline \<notin> ascii_upper ` set (sr_method req)"
    using assms(2) by (metis imageE ascii_upper_newline line_free_def)
  ultimately show ?thesis
    using assms(2)
    by (simp add: sig_lines_def LABEL_SIG_def vault_id_to_hex_def b64_encode_str_def line_free_def)
qed

lemma sig_actor_inject:
  assumes "text_codecs c" and "sig_actor_str c a = sig_actor_str c b"
  shows "a = b"
  using assms
  by (cases a; cases b)
    (auto simp: token_id_to_hex_def text_codecs_def TokenId.expand dest: arg_cong [where f = "hex_decode c"])

text \<open>C36. A request signature binds the actor, the vault, the time, the nonce, the method, the
  target, the body's hash and both preconditions.\<close>

theorem request_signature_binds:
  assumes c: "text_codecs c" and lf: "line_free r" "line_free r'" and ts: "i64_range t" "i64_range t'"
    and eq: "request_signing_input c a v t n r = request_signing_input c a' v' t' n' r'"
  shows "a = a' \<and> v = v' \<and> t = t' \<and> n = n'
    \<and> map ascii_upper (sr_method r) = map ascii_upper (sr_method r')
    \<and> sr_path_and_query r = sr_path_and_query r' \<and> sha256 c (sr_body r) = sha256 c (sr_body r')
    \<and> unwrap_or_empty (sr_if_match r) = unwrap_or_empty (sr_if_match r')
    \<and> unwrap_or_empty (sr_if_none_match r) = unwrap_or_empty (sr_if_none_match r')"
proof -
  have ne: "sig_lines c x v t n q \<noteq> []" for x v t n q by (simp add: sig_lines_def)
  from eq have "split_on newline (join_with newline (sig_lines c a v t n r))
      = split_on newline (join_with newline (sig_lines c a' v' t' n' r'))"
    by (simp add: request_signing_input_def)
  then have lines: "sig_lines c a v t n r = sig_lines c a' v' t' n' r'"
    using split_on_join [OF ne sig_lines_no_newline [OF c lf(1)]]
      split_on_join [OF ne sig_lines_no_newline [OF c lf(2)]] by simp
  have hex: "x = y" if "hex_encode c x = hex_encode c y" for x y
    using that c by (metis text_codecs_def option.inject)
  have b64: "x = y" if "b64_encode c x = b64_encode c y" for x y
    using that c by (metis text_codecs_def option.inject)
  have shown: "show_int t = show_int t'" using lines by (simp add: sig_lines_def)
  have "a = a'" using lines sig_actor_inject [OF c] by (simp add: sig_lines_def)
  moreover have "v = v'" "sha256 c (sr_body r) = sha256 c (sr_body r')" "n = n'"
    using lines hex [of "vid v" "vid v'"] hex [of "sha256 c (sr_body r)" "sha256 c (sr_body r')"] b64 [of n n']
    by (simp_all add: sig_lines_def vault_id_to_hex_def b64_encode_str_def VaultId.expand)
  moreover have "t = t'"
    using shown parse_i64_show [OF ts(1)] parse_i64_show [OF ts(2)] by (metis option.inject)
  ultimately show ?thesis using lines by (simp add: sig_lines_def)
qed

definition ex_request :: SignedRequest where
  "ex_request = \<lparr>sr_method = ''PUT'', sr_path_and_query = ''/v1/vault'', sr_body = [1],
     sr_if_match = None, sr_if_none_match = Some ''*''\<rparr>"

theorem request_signature_binds_witness:
  "request_signing_input null_crypto SigActor.Owner (VaultId (replicate 16 1)) 5 (replicate 16 2) ex_request
   \<noteq> request_signing_input null_crypto (SigActor.Token (TokenId (replicate 16 1)))
       (VaultId (replicate 16 1)) 5 (replicate 16 2) ex_request"
proof
  assume "request_signing_input null_crypto SigActor.Owner (VaultId (replicate 16 1)) 5 (replicate 16 2) ex_request
    = request_signing_input null_crypto (SigActor.Token (TokenId (replicate 16 1)))
        (VaultId (replicate 16 1)) 5 (replicate 16 2) ex_request"
  moreover have "line_free ex_request" "i64_range 5"
    by (simp_all add: line_free_def ex_request_def unwrap_or_empty_def i64_range_def i64_min_def i64_max_def)
  ultimately show False using request_signature_binds [OF null_text_codecs] by blast
qed

lemma request_input_separated:
  assumes "l \<in> set LABELS"
  shows "request_signing_input c a v t n r \<noteq> frame l ps"
proof -
  have "str_bytes LABEL_SIG @ str_bytes [newline] @ xs \<noteq> frame l ps" for xs
    using assms by (auto simp: LABELS_def label_defs frame_def str_bytes_def)
  moreover have "request_signing_input c a v t n r = str_bytes LABEL_SIG @ str_bytes [newline] @
      str_bytes (join_with newline (tl (sig_lines c a v t n r)))"
    by (simp add: request_signing_input_def sig_lines_def str_bytes_def)
  ultimately show ?thesis by auto
qed

text \<open>C37. Domain separation: no byte string is the signing input of two kinds of signature, whatever
  their fields hold. The six kinds are descriptors, records, bundles, children records, leak
  reports and requests.\<close>

theorem signing_inputs_disjoint:
  "distinct [descriptor_signing_input d, record_signing_input r,
     bundle_signing_input c1 v1 t1 s g ct1, children_signing_input c2 v2 n ct2,
     report_signing_input t2 ts, request_signing_input c3 a v3 ts' nonce req]"
proof -
  note frames = descriptor_signing_input_def record_signing_input_def bundle_signing_input_def
    children_signing_input_def report_signing_input_def
  have labels: "{LABEL_DESCRIPTOR, LABEL_RECORD, LABEL_BUNDLE, LABEL_CHILDREN, LABEL_REPORT} \<subseteq> set LABELS"
    by (simp add: LABELS_def)
  then show ?thesis
    using request_input_separated [of _ c3 a v3 ts' nonce req]
    by (auto simp: frames frame_eq_iff labels_nul_free eq_commute [of "frame _ _" "request_signing_input _ _ _ _ _ _"])
      (auto simp: label_defs)
qed

end
