(* ===== verification/Core_Base.thy ===== *)
theory Core_Base
  imports File_Journal Sig
begin

text \<open>
  What every handler of the server core shares: errors and
  their answers (\<open>server_core/error.rs\<close>), requests and responses (\<open>server_core/mod.rs\<close>), callers
  (\<open>server_core/auth.rs\<close>), the policy (\<open>server_core/policy.rs\<close>), the state a core works on, and
  the state-and-error monad the handlers are written in.

  The JSON readers, the admission hooks, the clock and the faults of the journal directory are
  parameters. A handler's effects persist when it fails later, as in the code: every store call
  commits or rolls back on its own.
\<close>

section \<open>Errors and answers\<close>

record CoreError =
  ce_code :: ErrorCode
  ce_message :: string
  ce_retry_after :: "nat option"
  ce_detail :: "string option"

definition core_error :: "ErrorCode \<Rightarrow> string \<Rightarrow> CoreError" where
  "core_error code message = \<lparr>ce_code = code, ce_message = message, ce_retry_after = None, ce_detail = None\<rparr>"

definition unauthorized :: CoreError where
  "unauthorized = core_error ErrorCode.Unauthorized ''authentication failed''"

definition forbidden :: CoreError where
  "forbidden = core_error ErrorCode.Forbidden ''this credential's scope does not allow that''"

definition invalid :: "string \<Rightarrow> CoreError" where
  "invalid message = core_error ErrorCode.InvalidRequest message"

definition internal :: CoreError where
  "internal = core_error ErrorCode.Internal ''internal error''"

definition no_endpoint :: CoreError where
  "no_endpoint = core_error ErrorCode.NotFound ''no such endpoint''"

definition method_not_allowed :: CoreError where
  "method_not_allowed = invalid ''method not allowed on this endpoint''"

definition rate_limited :: "nat \<Rightarrow> CoreError" where
  "rate_limited n = (core_error ErrorCode.RateLimited
     ''too many requests; retry after the indicated delay'')\<lparr>ce_retry_after := Some n\<rparr>"

definition logged :: "CoreError \<Rightarrow> string \<Rightarrow> CoreError" where
  "logged e detail = e\<lparr>ce_detail := Some detail\<rparr>"

text \<open>\<open>Display\<close> of an integrity error.\<close>

fun integrity_message :: "IntegrityError \<Rightarrow> string" where
  "integrity_message (IntegrityError.BadSignature w) = ''the '' @ w @ '' signature does not verify''"
| "integrity_message (IntegrityError.KeyMismatch w) = ''the '' @ w @ '' does not match the pinned vault''"
| "integrity_message (IntegrityError.BindingMismatch w) = ''the '' @ w @ '' does not match what was signed''"
| "integrity_message (IntegrityError.VersionRollback k g) =
     ''version rollback: this client saw version '' @ show_nat k @ '', the server now shows '' @ show_nat g"
| "integrity_message (IntegrityError.GenerationRollback k g) =
     ''generation rollback: this client saw generation '' @ show_nat (unat k) @ '', the server now shows ''
       @ show_nat (unat g)"
| "integrity_message (IntegrityError.Malformed w) = ''the '' @ w @ '' is malformed''"

fun integrity_code :: "IntegrityError \<Rightarrow> ErrorCode" where
  "integrity_code (IntegrityError.KeyMismatch w) = ErrorCode.KeyMismatch"
| "integrity_code (IntegrityError.Malformed w) = ErrorCode.InvalidRequest"
| "integrity_code e = ErrorCode.BadSignature"

definition from_integrity :: "IntegrityError \<Rightarrow> CoreError" where
  "from_integrity e = core_error (integrity_code e) (integrity_message e)"

fun from_store :: "StoreError \<Rightarrow> CoreError" where
  "from_store StoreError.NotFound = core_error ErrorCode.NotFound ''not found''"
| "from_store StoreError.Exists = core_error ErrorCode.Conflict ''already exists''"
| "from_store (StoreError.PreconditionFailed cur) = core_error ErrorCode.PreconditionFailed
     (case cur of
        Some v \<Rightarrow> ''precondition failed: the current version is '' @ show_nat v
      | None \<Rightarrow> ''precondition failed: there is no current version'')"
| "from_store (StoreError.VersionMismatch s a) = core_error ErrorCode.VersionMismatch
     (''the write signs version '' @ show_nat s @ '', but it would create version '' @ show_nat a)"
| "from_store StoreError.StaleGeneration = core_error ErrorCode.StaleGeneration
     ''written for a stale key generation; fetch the current descriptor and bundle''"
| "from_store StoreError.Conflict = core_error ErrorCode.Conflict
     ''the vault changed since this batch was built; rebuild it''"
| "from_store (StoreError.IncompleteRotation why) = core_error ErrorCode.IncompleteRotation why"
| "from_store (QuotaExceeded Names) = core_error ErrorCode.NameQuotaExceeded
     ''the vault has reached its name quota''"
| "from_store (QuotaExceeded ValueSize) = core_error ErrorCode.ValueTooLarge
     ''the value is larger than the per-value quota''"
| "from_store (QuotaExceeded VaultBytes) = core_error ErrorCode.VaultQuotaExceeded
     ''the vault has reached its storage quota''"
| "from_store (QuotaExceeded Tokens) = core_error ErrorCode.TokenQuotaExceeded
     ''the vault has reached its token quota''"
| "from_store (QuotaExceeded Configs) = core_error ErrorCode.ConfigQuotaExceeded
     ''the vault has reached its config quota''"
| "from_store (QuotaExceeded ConfigSize) = core_error ErrorCode.ConfigTooLarge
     ''the config is larger than the per-config quota''"
| "from_store StoreError.Spent = core_error ErrorCode.ChallengeReused ''already used''"
| "from_store (StoreError.Journal detail) = logged (core_error ErrorCode.Unavailable
     ''the operation could not be made durable, so it was not applied; retry'')
     (''journal write failed; operation rolled back: '' @ detail)"
| "from_store (StoreError.Database e) = logged internal (''storage error: database error: '' @ e)"

record CoreResponse =
  cr_status :: nat
  cr_error :: "ErrorCode option"
  cr_etag :: "nat option"
  cr_expires_at :: "int option"
  cr_retry_after :: "nat option"
  cr_body :: Body

definition to_response :: "CoreError \<Rightarrow> CoreResponse" where
  "to_response e = \<lparr>cr_status = error_status (ce_code e), cr_error = Some (ce_code e), cr_etag = None,
     cr_expires_at = None, cr_retry_after = ce_retry_after e, cr_body = ErrorBody (ce_code e) (ce_message e)\<rparr>"

definition json_response :: "nat \<Rightarrow> Body \<Rightarrow> CoreResponse" where
  "json_response status body = \<lparr>cr_status = status, cr_error = None, cr_etag = None, cr_expires_at = None,
     cr_retry_after = None, cr_body = body\<rparr>"

definition with_etag :: "nat \<Rightarrow> CoreResponse \<Rightarrow> CoreResponse" where
  "with_etag v r = r\<lparr>cr_etag := Some v\<rparr>"

section \<open>Requests, callers and policy\<close>

record CanonicalRequest =
  rq_method :: string
  rq_path_and_query :: string
  rq_authorization :: "string option"
  rq_if_match :: "string option"
  rq_if_none_match :: "string option"
  rq_body :: bytes

datatype Principal = Owner | Token TokenRow

record Caller =
  ca_vault :: VaultRow
  ca_principal :: Principal
  ca_expires_at :: "int option"

record Admitted =
  challenge_id :: bytes
  ad_expires_at :: int

record Admission =
  proof_of_work :: "byte option"
  challenge_for :: "int \<Rightarrow> CoreError + ChallengeResponse"
  admit_creation :: "CreateVaultRequest \<Rightarrow> int \<Rightarrow> CoreError + Admitted option"
  admit_request :: "Caller \<Rightarrow> int \<Rightarrow> CoreError + unit"
  ad_features :: "string list"

text \<open>\<open>AllowAll\<close>: the trait's defaults.\<close>

definition AllowAll :: Admission where
  "AllowAll = \<lparr>proof_of_work = None, challenge_for = (\<lambda>now. Inl no_endpoint),
     admit_creation = (\<lambda>request now. Inr None), admit_request = (\<lambda>caller now. Inr ()), ad_features = []\<rparr>"

record Policy =
  admission :: Admission
  idle_expiry_days :: "u32 option"
  limits :: Limits
  server_name :: "string option"

definition default_policy :: Policy where
  "default_policy = \<lparr>admission = AllowAll, idle_expiry_days = None, limits = default_limits, server_name = None\<rparr>"

definition idle_secs :: "Policy \<Rightarrow> int option" where
  "idle_secs p = map_option (\<lambda>days. int (unat days) * 86400) (filter_option (\<lambda>days. days > 0) (idle_expiry_days p))"

definition policy_capabilities :: "Policy \<Rightarrow> Capabilities" where
  "policy_capabilities p = \<lparr>cp_protocols = [''1''], cp_formats = Some CURRENT,
     cp_proof_of_work = proof_of_work (admission p),
     cp_idle_expiry_days = filter_option (\<lambda>days. days > 0) (idle_expiry_days p),
     cp_limits = limits p, cp_features = ''token_report'' # ad_features (admission p), cp_server = server_name p\<rparr>"

section \<open>The core's state and environment\<close>

text \<open>A reader gives the value of a JSON body, or the line and column where it fails.\<close>

type_synonym 'a reader = "bytes \<Rightarrow> (nat \<times> nat) + 'a"

record Readers =
  rd_challenge :: "unit reader"
  rd_create :: "CreateVaultRequest reader"
  rd_put :: "PutSecretRequest reader"
  rd_delete :: "DeleteRecordRequest reader"
  rd_children :: "ChildrenBlob reader"
  rd_register :: "RegisterTokenRequest reader"
  rd_report :: "ReportTokenRequest reader"
  rd_rotation :: "RotationRequest reader"

text \<open>The clock is read at numbered instants; a fault is the one the directory has at an instant.\<close>

record Core =
  co_crypto :: crypto
  co_policy :: Policy
  co_clock :: "nat \<Rightarrow> int"
  co_codec :: journal_codec
  co_fault :: "nat \<Rightarrow> io_fault"
  co_readers :: Readers

record World =
  wd_db :: db
  wd_files :: dir
  wd_tick :: nat

type_synonym 'a handler = "World \<Rightarrow> (CoreError + 'a) \<times> World"

definition hret :: "'a \<Rightarrow> 'a handler" where
  "hret a w = (Inr a, w)"

definition hfail :: "CoreError \<Rightarrow> 'a handler" where
  "hfail e w = (Inl e, w)"

definition hlift :: "CoreError + 'a \<Rightarrow> 'a handler" where
  "hlift r w = (r, w)"

definition hbind :: "'a handler \<Rightarrow> ('a \<Rightarrow> 'b handler) \<Rightarrow> 'b handler" where
  "hbind m f w = (case m w of (Inl e, w') \<Rightarrow> (Inl e, w') | (Inr a, w') \<Rightarrow> f a w')"

text \<open>Continue whatever the outcome: a best-effort step, whose failure is only logged.\<close>

definition hafter :: "'a handler \<Rightarrow> 'b handler \<Rightarrow> 'b handler" where
  "hafter m k w = k (snd (m w))"

definition core_now :: "Core \<Rightarrow> int handler" where
  "core_now co w = (Inr (co_clock co (wd_tick w)), w\<lparr>wd_tick := Suc (wd_tick w)\<rparr>)"

definition store_read :: "(db \<Rightarrow> 'a) \<Rightarrow> 'a handler" where
  "store_read f w = (Inr (f (wd_db w)), w)"

definition store_write :: "(StoreError \<Rightarrow> CoreError) \<Rightarrow> (db \<Rightarrow> (StoreError + 'a) \<times> db) \<Rightarrow> 'a handler" where
  "store_write conv f w = (let (r, d) = f (wd_db w) in (map_err conv r, w\<lparr>wd_db := d\<rparr>))"

text \<open>\<open>Core::critical\<close>: the store operation with the journal's \<open>put\<close> as its hook.\<close>

definition critical :: "Core \<Rightarrow> (dir hook \<Rightarrow> db \<Rightarrow> dir \<Rightarrow> (StoreError + 'a) \<times> db \<times> dir) \<Rightarrow> 'a handler" where
  "critical co f w =
     (let (r, d, files) = f (file_put (co_codec co) (co_fault co (wd_tick w))) (wd_db w) (wd_files w)
      in (map_err from_store r, w\<lparr>wd_db := d, wd_files := files\<rparr>))"

text \<open>\<open>json\<close>: the error names the type and the place, never the input.\<close>

definition json :: "'a reader \<Rightarrow> bytes \<Rightarrow> string \<Rightarrow> CoreError + 'a" where
  "json reader body what = map_err (\<lambda>(line, column). invalid (''the body is not a valid '' @ what @ '' (line ''
     @ show_nat line @ '', column '' @ show_nat column @ '')'')) (reader body)"

section \<open>Rules for handlers\<close>

named_theorems handler_defs \<open>the steps of the handler monad\<close>

lemmas [handler_defs] = hret_def hfail_def hlift_def hbind_def hafter_def core_now_def store_read_def
  store_write_def critical_def

definition preserves :: "(World \<Rightarrow> bool) \<Rightarrow> 'a handler \<Rightarrow> bool" where
  "preserves P m \<longleftrightarrow> (\<forall>w. P w \<longrightarrow> P (snd (m w)))"

named_theorems preserving \<open>handlers that keep a property of the state\<close>

lemma preserves_pure [preserving, intro!]:
  "preserves P (hret a)" "preserves P (hfail e)" "preserves P (hlift r)" "preserves P (store_read g)"
  by (simp_all add: preserves_def handler_defs)

lemma preserves_bind [preserving]:
  "preserves P m \<Longrightarrow> (\<And>a. preserves P (f a)) \<Longrightarrow> preserves P (hbind m f)"
  by (fastforce simp: preserves_def hbind_def split: prod.splits sum.splits)

lemma preserves_after [preserving]:
  "preserves P m \<Longrightarrow> preserves P k \<Longrightarrow> preserves P (hafter m k)"
  by (simp add: preserves_def hafter_def)

lemma preserves_if [preserving]:
  "preserves P m \<Longrightarrow> preserves P k \<Longrightarrow> preserves P (if b then m else k)"
  by simp

lemma preserves_option [preserving]:
  "preserves P m \<Longrightarrow> (\<And>a. preserves P (f a)) \<Longrightarrow> preserves P (case x of None \<Rightarrow> m | Some a \<Rightarrow> f a)"
  by (simp split: option.split)

lemma preserves_sum [preserving]:
  "(\<And>e. preserves P (g e)) \<Longrightarrow> (\<And>a. preserves P (f a)) \<Longrightarrow> preserves P (case x of Inl e \<Rightarrow> g e | Inr a \<Rightarrow> f a)"
  by (simp split: sum.split)

lemma preserves_prod [preserving]:
  "(\<And>a b. preserves P (f a b)) \<Longrightarrow> preserves P (case x of (a, b) \<Rightarrow> f a b)"
  by (simp split: prod.split)

lemma hbind_Inr:
  "hbind m f w = (Inr b, w') \<longleftrightarrow> (\<exists>a w1. m w = (Inr a, w1) \<and> f a w1 = (Inr b, w'))"
  by (auto simp: hbind_def split: prod.splits sum.splits)

lemma hbind_Inl:
  "hbind m f w = (Inl e, w') \<longleftrightarrow> m w = (Inl e, w') \<or> (\<exists>a w1. m w = (Inr a, w1) \<and> f a w1 = (Inl e, w'))"
  by (auto simp: hbind_def split: prod.splits sum.splits)

lemma handler_Inr [simp]:
  "hret a w = (Inr b, w') \<longleftrightarrow> b = a \<and> w' = w" "hret a w = (Inl e, w') \<longleftrightarrow> False"
  "hfail e w = (Inr b, w') \<longleftrightarrow> False" "hfail e w = (Inl e', w') \<longleftrightarrow> e' = e \<and> w' = w"
  "hlift r w = (x, w') \<longleftrightarrow> x = r \<and> w' = w"
  "store_read f w = (Inr b', w') \<longleftrightarrow> b' = f (wd_db w) \<and> w' = w" "store_read f w = (Inl e, w') \<longleftrightarrow> False"
  by (auto simp: handler_defs)

end
