(* ===== verification/Core_Auth.thy ===== *)
theory Core_Auth
  imports Core_Base
begin

text \<open>
  Authentication and the scope matrix (\<open>server_core/auth.rs\<close>), and \<open>Core::authed\<close>, which runs an
  operation as the caller that signed the request.
\<close>

section \<open>Callers and needs\<close>

datatype Need = ReadValues | WriteValues | ReadConfigs | WriteConfigs | Manage | ReadAudit | Owner

definition caller_actor :: "Caller \<Rightarrow> Actor" where
  "caller_actor ca = (case ca_principal ca of Principal.Owner \<Rightarrow> Actor.Owner | Principal.Token t \<Rightarrow> Actor.Token (t_id t))"

definition is_owner :: "Caller \<Rightarrow> bool" where
  "is_owner ca \<longleftrightarrow> ca_principal ca = Principal.Owner"

definition caller_scope :: "Caller \<Rightarrow> Scope option" where
  "caller_scope ca = (case ca_principal ca of Principal.Owner \<Rightarrow> None | Principal.Token t \<Rightarrow> Some (t_scope t))"

definition caller_ctx :: "Caller \<Rightarrow> int \<Rightarrow> Ctx" where
  "caller_ctx ca now = \<lparr>cx_actor = caller_actor ca, cx_now = now\<rparr>"

definition caller_descriptor :: "Caller \<Rightarrow> CoreError + Descriptor" where
  "caller_descriptor ca = map_err (\<lambda>e. logged internal (''a stored descriptor does not decode: '' @ integrity_message e))
     (decode_unverified (vr_descriptor (ca_vault ca)))"

fun scope_can :: "Scope \<Rightarrow> Need \<Rightarrow> bool" where
  "scope_can s ReadValues = can_read_values s"
| "scope_can s WriteValues = can_write_values s"
| "scope_can s ReadConfigs = can_read_configs s"
| "scope_can s WriteConfigs = can_write_configs s"
| "scope_can s Manage = can_manage s"
| "scope_can s ReadAudit = can_read_audit s"
| "scope_can s Need.Owner = False"

definition can :: "Caller \<Rightarrow> Need \<Rightarrow> bool" where
  "can ca need = (case caller_scope ca of None \<Rightarrow> True | Some s \<Rightarrow> scope_can s need)"

definition allows_name :: "Caller \<Rightarrow> NameHmac \<Rightarrow> bool" where
  "allows_name ca n = (case ca_principal ca of
     Principal.Token t \<Rightarrow> (case t_allow_list t of Some ns \<Rightarrow> n \<in> set ns | None \<Rightarrow> True)
   | Principal.Owner \<Rightarrow> True)"

definition core_refuse :: "Core \<Rightarrow> Caller \<Rightarrow> AuditAction \<Rightarrow> NameHmac option \<Rightarrow> unit handler" where
  "core_refuse co ca action name = hbind (core_now co) (\<lambda>now.
     hafter (store_write from_store (record_event (co_crypto co) (pk (ca_vault ca))
         (simple (caller_actor ca) action name AuditResult.Refused) now))
       (hret ()))"

definition require :: "Core \<Rightarrow> Caller \<Rightarrow> Need \<Rightarrow> AuditAction \<Rightarrow> NameHmac option \<Rightarrow> unit handler" where
  "require co ca need action name =
     (if can ca need then hret ()
      else hbind (core_refuse co ca action name) (\<lambda>_. hfail forbidden))"

section \<open>Authentication\<close>

definition verify_request :: "Core \<Rightarrow> Key32 \<Rightarrow> CanonicalRequest \<Rightarrow> SigParams \<Rightarrow> int \<Rightarrow> CoreError + unit" where
  "verify_request co public rq params now =
     (if i64_abs (i64_sub now (sp_ts params)) > MAX_SKEW_SECS then Inl unauthorized
      else
        (let sr = \<lparr>sr_method = rq_method rq, sr_path_and_query = rq_path_and_query rq, sr_body = rq_body rq,
               sr_if_match = rq_if_match rq, sr_if_none_match = rq_if_none_match rq\<rparr>
         in map_err (\<lambda>_. unauthorized) (verify_ed25519 (co_crypto co) public
              (params_signing_input (co_crypto co) params sr) (Sig64 (sp_sig params)) ''request'')))"

definition nonce_id :: "SigParams \<Rightarrow> bytes" where
  "nonce_id params = vid (sp_vault_id params) @ sp_nonce params"

definition spend_nonce :: "Core \<Rightarrow> SigParams \<Rightarrow> unit handler" where
  "spend_nonce co params = hbind (core_now co) (\<lambda>now.
     store_write (\<lambda>_. unauthorized)
       (spend Nonce (nonce_id params) (i64_wrap (sp_ts params + 2 * MAX_SKEW_SECS)) now))"

definition expires_at :: "Core \<Rightarrow> VaultRow \<Rightarrow> int \<Rightarrow> int option" where
  "expires_at co vault now = map_option (\<lambda>idle. i64_wrap (max (last_active_at vault) now + idle)) (idle_secs (co_policy co))"

definition expired :: "Core \<Rightarrow> VaultRow \<Rightarrow> int \<Rightarrow> bool" where
  "expired co vault now = (case idle_secs (co_policy co) of
     None \<Rightarrow> False
   | Some idle \<Rightarrow> i64_wrap (last_active_at vault + idle) < now)"

definition owner_auth :: "Core \<Rightarrow> CanonicalRequest \<Rightarrow> SigParams \<Rightarrow> int \<Rightarrow> Caller handler" where
  "owner_auth co rq params now =
     hbind (store_read (\<lambda>d. load_vault_by_id d (sp_vault_id params))) (\<lambda>found.
     hbind (hlift (ok_or found unauthorized)) (\<lambda>vault.
     hbind (hlift (verify_request co (owner_sign_pub vault) rq params now)) (\<lambda>_.
     if expired co vault now then hfail unauthorized
     else hbind (spend_nonce co params) (\<lambda>_.
       hret \<lparr>ca_vault = vault, ca_principal = Principal.Owner, ca_expires_at = expires_at co vault now\<rparr>))))"

definition token_auth :: "Core \<Rightarrow> CanonicalRequest \<Rightarrow> SigParams \<Rightarrow> TokenId \<Rightarrow> int \<Rightarrow> Caller handler" where
  "token_auth co rq params i now =
     hbind (store_read (\<lambda>d. token_by_id d i)) (\<lambda>found.
     hbind (hlift (ok_or found unauthorized)) (\<lambda>row.
     hbind (store_read (\<lambda>d. load_vault d (t_vault_pk row))) (\<lambda>found_vault.
     hbind (hlift (ok_or found_vault unauthorized)) (\<lambda>vault.
     if vr_vault_id vault \<noteq> sp_vault_id params then hfail unauthorized
     else hbind (hlift (verify_request co (t_auth_pub row) rq params now)) (\<lambda>_.
     if expired co vault now then hfail unauthorized
     else hbind (spend_nonce co params) (\<lambda>_.
     if t_expires_at row \<le> now then hfail (core_error ErrorCode.TokenExpired ''this token has expired'')
     else hret \<lparr>ca_vault = vault, ca_principal = Principal.Token row, ca_expires_at = expires_at co vault now\<rparr>))))))"

definition authenticate :: "Core \<Rightarrow> CanonicalRequest \<Rightarrow> Caller handler" where
  "authenticate co rq =
     hbind (hlift (ok_or (rq_authorization rq) unauthorized)) (\<lambda>header.
     hbind (hlift (map_err (\<lambda>_. unauthorized) (sig_parse (co_crypto co) header))) (\<lambda>params.
     hbind (core_now co) (\<lambda>now.
     hbind (case sp_actor params of
              SigActor.Owner \<Rightarrow> owner_auth co rq params now
            | SigActor.Token i \<Rightarrow> token_auth co rq params i now) (\<lambda>ca.
     hbind (store_write from_store (touch (pk (ca_vault ca)) now)) (\<lambda>_.
     hret ca)))))"

text \<open>\<open>Core::authed\<close>: an error of the operation becomes its answer, with the vault's expiry.\<close>

definition authed :: "Core \<Rightarrow> CanonicalRequest \<Rightarrow> (Caller \<Rightarrow> CoreResponse handler) \<Rightarrow> CoreResponse handler" where
  "authed co rq op =
     hbind (authenticate co rq) (\<lambda>ca.
     hbind (core_now co) (\<lambda>now.
     hbind (hlift (admit_request (admission (co_policy co)) ca now)) (\<lambda>_ w.
       (case op ca w of
          (Inl e, w') \<Rightarrow> (Inr ((to_response e)\<lparr>cr_expires_at := ca_expires_at ca\<rparr>), w')
        | (Inr r, w') \<Rightarrow> (Inr (r\<lparr>cr_expires_at := ca_expires_at ca\<rparr>), w')))))"

section \<open>What authentication proves\<close>

lemma preserves_answer:
  "preserves P m \<Longrightarrow> preserves P (\<lambda>w. case m w of (Inl e, w') \<Rightarrow> (Inr (f e), w') | (Inr r, w') \<Rightarrow> (Inr (g r), w'))"
  by (fastforce simp: preserves_def split: prod.splits sum.splits)

lemma preserves_authed [preserving]:
  "preserves P (authenticate co rq) \<Longrightarrow> preserves P (core_now co) \<Longrightarrow> (\<And>ca. preserves P (op ca)) \<Longrightarrow>
   preserves P (authed co rq op)"
  unfolding authed_def by (intro preserving preserves_answer) auto

text \<open>The skew test without wrap-around.\<close>

lemma skew_ok:
  assumes "i64_range (now - ts)" and "now - ts \<noteq> i64_min"
  shows "i64_abs (i64_sub now ts) = \<bar>now - ts\<bar>"
proof -
  have "i64_range \<bar>now - ts\<bar>"
    using assms unfolding i64_range_def i64_min_def i64_max_def by arith
  then show ?thesis
    using assms by (simp add: i64_abs_def i64_sub_def i64_wrap_id)
qed

end
