(* ===== verification/Core_Records.thy ===== *)
theory Core_Records
  imports Core_Auth
begin

text \<open>
  The records API (\<open>server_core/records.rs\<close>): listing, reading, version history, signed writes and
  tombstones, and the audit page. \<open>put_action\<close>, \<open>delete_action\<close> and \<open>value_hash\<close> are the store's:
  the file repeats them word for word.
\<close>

section \<open>Names, queries and preconditions\<close>

definition DEFAULT_PAGE :: nat where "DEFAULT_PAGE = 100"
definition MAX_PAGE :: nat where "MAX_PAGE = 500"
definition MAX_AUDIT_PAGE :: nat where "MAX_AUDIT_PAGE = 1000"

fun noun :: "RecordKind \<Rightarrow> string" where
  "noun RecordKind.Secret = ''secret''"
| "noun RecordKind.Config = ''config''"

fun need_read :: "RecordKind \<Rightarrow> Need" where
  "need_read RecordKind.Secret = ReadValues"
| "need_read RecordKind.Config = ReadConfigs"

fun need_write :: "RecordKind \<Rightarrow> Need" where
  "need_write RecordKind.Secret = WriteValues"
| "need_write RecordKind.Config = WriteConfigs"

fun read_action :: "RecordKind \<Rightarrow> AuditAction" where
  "read_action RecordKind.Secret = AuditAction.SecretRead"
| "read_action RecordKind.Config = AuditAction.ConfigRead"

fun writer_pub :: "Descriptor \<Rightarrow> RecordKind \<Rightarrow> Key32" where
  "writer_pub d RecordKind.Secret = secret_writer_pub d"
| "writer_pub d RecordKind.Config = config_writer_pub d"

definition parse_name :: "crypto \<Rightarrow> string \<Rightarrow> CoreError + NameHmac" where
  "parse_name c s = map_err (\<lambda>_. invalid ''the record index must be 64 hexadecimal characters'') (name_hmac_from_hex c s)"

definition parse_version :: "string \<Rightarrow> CoreError + nat" where
  "parse_version s = ok_or (parse_u64 s) (invalid ''a version is a positive whole number'')"

text \<open>\<open>find_map\<close> over the \<open>&\<close>-separated pairs; a pair without \<open>=\<close> has an empty value.\<close>

fun find_pair :: "string \<Rightarrow> string list \<Rightarrow> string option" where
  "find_pair key [] = None"
| "find_pair key (pair # rest) =
     (let (k, v) = (case split_once (CHR ''='') pair of None \<Rightarrow> (pair, []) | Some kv \<Rightarrow> kv)
      in if k = key then Some v else find_pair key rest)"

definition query_value :: "string option \<Rightarrow> string \<Rightarrow> string option" where
  "query_value query key = (case query of None \<Rightarrow> None | Some q \<Rightarrow> find_pair key (split_on (CHR ''&'') q))"

definition page_limit :: "string option \<Rightarrow> nat \<Rightarrow> nat \<Rightarrow> CoreError + nat" where
  "page_limit query default_size most = (case query_value query ''limit'' of
     None \<Rightarrow> Inr default_size
   | Some s \<Rightarrow> rbind (ok_or (parse_u64 s) (invalid ''limit must be a whole number'')) (\<lambda>n. Inr (max 1 (min n most))))"

definition trim_quotes :: "string \<Rightarrow> string" where
  "trim_quotes s = rev (dropWhile (\<lambda>a. a = CHR 0x22) (rev (dropWhile (\<lambda>a. a = CHR 0x22) s)))"

definition parse_etag :: "string \<Rightarrow> CoreError + nat" where
  "parse_etag v =
     (let s = trim v; s = (case strip_prefix ''W/'' s of None \<Rightarrow> s | Some r \<Rightarrow> r)
      in ok_or (parse_u64 (trim_quotes s)) (invalid ''If-Match must be a version number''))"

fun precondition :: "string option \<Rightarrow> string option \<Rightarrow> CoreError + Precondition" where
  "precondition (Some _) (Some _) = Inl (invalid ''send If-Match or If-None-Match, not both'')"
| "precondition None (Some s) =
     (if s = ''*'' then Inr IfNoneMatch else Inl (invalid ''If-None-Match accepts only *''))"
| "precondition (Some v) None = rbind (parse_etag v) (\<lambda>n. Inr (IfMatch n))"
| "precondition None None = Inl (core_error ErrorCode.PreconditionRequired
     ''a write needs If-None-Match: * to create, or If-Match: <version> to update'')"

section \<open>Reading\<close>

definition version_body :: "VersionRow \<Rightarrow> SecretVersion" where
  "version_body r = \<lparr>sv_name_hmac = vn_name r, sv_version = vn_version r, sv_name_ct = B64 (vn_name_ct r),
     sv_value_ct = map_option B64 (vn_value_ct r), sv_generation = vn_generation r,
     sv_written_at = vn_written_at r, sv_written_by = Known (vn_written_by r), sv_tombstone = vn_tombstone r,
     sv_sig = vn_sig r\<rparr>"

definition list_item :: "HeadRow \<Rightarrow> SecretListItem" where
  "list_item h = \<lparr>si_name_hmac = hr_name h, si_name_ct = B64 (hr_name_ct h), si_version = hr_version h,
     si_written_at = hr_written_at h, si_size = hr_size h, si_tombstone = hr_tombstone h,
     si_generation = hr_generation h, si_value_ct_hash = hr_value_ct_hash h, si_sig = hr_sig h\<rparr>"

definition record_list :: "Core \<Rightarrow> Caller \<Rightarrow> RecordKind \<Rightarrow> string option \<Rightarrow> CoreResponse handler" where
  "record_list co ca k query =
     hbind (hlift (case query_value query ''after'' of
              None \<Rightarrow> Inr None
            | Some s \<Rightarrow> rbind (parse_name (co_crypto co) s) (\<lambda>n. Inr (Some n)))) (\<lambda>after.
     hbind (hlift (page_limit query DEFAULT_PAGE MAX_PAGE)) (\<lambda>limit.
     hbind (store_read (\<lambda>d. list_records d (pk (ca_vault ca)) k after limit)) (\<lambda>rows.
     let next_cursor = (if length rows = limit
           then (if rows = [] then None else Some (hr_name (last rows))) else None)
     in hret (json_response 200 (SecretList (map list_item rows) next_cursor)))))"

definition record_read ::
    "Core \<Rightarrow> Caller \<Rightarrow> RecordKind \<Rightarrow> string \<Rightarrow> string option \<Rightarrow> CoreResponse handler" where
  "record_read co ca k name version =
     hbind (hlift (parse_name (co_crypto co) name)) (\<lambda>n.
     hbind (hlift (case version of None \<Rightarrow> Inr None | Some s \<Rightarrow> rbind (parse_version s) (\<lambda>v. Inr (Some v)))) (\<lambda>ver.
     hbind (require co ca (need_read k) (read_action k) (Some n)) (\<lambda>_.
     if k = RecordKind.Secret \<and> \<not> allows_name ca n
     then hbind (core_refuse co ca (read_action k) (Some n)) (\<lambda>_. hfail forbidden)
     else
       hbind (store_read (\<lambda>d. case ver of
                None \<Rightarrow> latest_record d (pk (ca_vault ca)) k n
              | Some v \<Rightarrow> record_version d (pk (ca_vault ca)) k n v)) (\<lambda>found.
       hbind (hlift (ok_or found (core_error ErrorCode.NotFound (''no such '' @ noun k)))) (\<lambda>r.
       if vn_tombstone r \<and> ver = None
       then hret (with_etag (vn_version r) (to_response (core_error ErrorCode.NotFound
              (''the '' @ noun k @ '' was deleted at version '' @ show_nat (vn_version r)))))
       else
         (let ev = (simple (caller_actor ca) (read_action k) (Some n) AuditResult.Ok)
                \<lparr>ev_version := vn_version r, ev_ct_hash := map_option (hash_sha256 (co_crypto co)) (vn_value_ct r)\<rparr>
          in hbind (core_now co) (\<lambda>now.
             hbind (store_write from_store (record_event (co_crypto co) (pk (ca_vault ca)) ev now)) (\<lambda>_.
             hret (with_etag (vn_version r) (json_response 200 (VersionBody (version_body r))))))))))))"

definition version_meta :: "crypto \<Rightarrow> VersionRow \<Rightarrow> VersionMeta" where
  "version_meta c r = \<lparr>vm_version = vn_version r, vm_written_at = vn_written_at r, vm_written_by = Known (vn_written_by r),
     vm_size = (case vn_value_ct r of None \<Rightarrow> 0 | Some v \<Rightarrow> of_nat (length v)), vm_tombstone = vn_tombstone r,
     vm_generation = vn_generation r, vm_value_ct_hash = value_hash c (vn_value_ct r),
     vm_name_ct_hash = hash_sha256 c (vn_name_ct r), vm_sig = vn_sig r\<rparr>"

definition record_history :: "Core \<Rightarrow> Caller \<Rightarrow> RecordKind \<Rightarrow> string \<Rightarrow> CoreResponse handler" where
  "record_history co ca k name =
     hbind (hlift (parse_name (co_crypto co) name)) (\<lambda>n.
     hbind (store_read (\<lambda>d. record_versions d (pk (ca_vault ca)) k n)) (\<lambda>rows.
     if rows = [] then hfail (core_error ErrorCode.NotFound (''no such '' @ noun k))
     else hret (json_response 200 (VersionList (map (version_meta (co_crypto co)) rows)))))"

section \<open>Writing\<close>

record SignedWrite =
  sw_name_ct :: bytes
  sw_value_ct :: "bytes option"
  sw_generation :: u32
  sw_version :: nat
  sw_written_at :: int
  sw_sig :: Sig64

definition signed_context :: "crypto \<Rightarrow> Caller \<Rightarrow> RecordKind \<Rightarrow> NameHmac \<Rightarrow> SignedWrite \<Rightarrow> RecordContext" where
  "signed_context c ca k n w = record_context c (vr_vault_id (ca_vault ca)) (sw_generation w) k n
     (sw_version w) (sw_written_at w) (sw_name_ct w) (sw_value_ct w)"

definition check_signed ::
    "Core \<Rightarrow> Caller \<Rightarrow> RecordKind \<Rightarrow> AuditAction \<Rightarrow> NameHmac \<Rightarrow> SignedWrite \<Rightarrow> unit handler" where
  "check_signed co ca k action n w =
     (if sw_generation w \<noteq> generation (ca_vault ca)
      then hbind (core_refuse co ca action (Some n)) (\<lambda>_. hfail (from_store StaleGeneration))
      else
        hbind (hlift (caller_descriptor ca)) (\<lambda>descriptor.
        case record_verify (co_crypto co) (signed_context (co_crypto co) ca k n w) (writer_pub descriptor k) (sw_sig w) of
          Inl e \<Rightarrow> hbind (core_refuse co ca action (Some n)) (\<lambda>_. hfail (from_integrity e))
        | Inr _ \<Rightarrow> hret ()))"

definition record_write_of :: "SignedWrite \<Rightarrow> RecordWrite" where
  "record_write_of w = \<lparr>w_name_ct = sw_name_ct w, w_value_ct = sw_value_ct w, w_generation = sw_generation w,
     w_version = sw_version w, w_written_at = sw_written_at w, w_sig = sw_sig w\<rparr>"

definition put_signed :: "PutSecretRequest \<Rightarrow> SignedWrite" where
  "put_signed b = \<lparr>sw_name_ct = b64 (ps_name_ct b), sw_value_ct = Some (b64 (ps_value_ct b)),
     sw_generation = ps_generation b, sw_version = ps_version b, sw_written_at = ps_written_at b, sw_sig = ps_sig b\<rparr>"

definition delete_signed :: "DeleteRecordRequest \<Rightarrow> SignedWrite" where
  "delete_signed b = \<lparr>sw_name_ct = b64 (dr_name_ct b), sw_value_ct = None,
     sw_generation = dr_generation b, sw_version = dr_version b, sw_written_at = dr_written_at b, sw_sig = dr_sig b\<rparr>"

definition starts_with :: "bytes \<Rightarrow> bytes \<Rightarrow> bool" where
  "starts_with s p \<longleftrightarrow> take (length p) s = p"

fun put_status :: "Precondition \<Rightarrow> nat" where
  "put_status IfNoneMatch = 201"
| "put_status (IfMatch _) = 200"

definition record_put ::
    "Core \<Rightarrow> Caller \<Rightarrow> RecordKind \<Rightarrow> string \<Rightarrow> CanonicalRequest \<Rightarrow> CoreResponse handler" where
  "record_put co ca k name rq =
     hbind (hlift (parse_name (co_crypto co) name)) (\<lambda>n.
     hbind (require co ca (need_write k) (put_action k) (Some n)) (\<lambda>_.
     hbind (hlift (precondition (rq_if_match rq) (rq_if_none_match rq))) (\<lambda>pre.
     hbind (hlift (json (rd_put (co_readers co)) (rq_body rq) (noun k @ '' write''))) (\<lambda>body.
     if \<not> starts_with (b64 (ps_value_ct body)) AGE_HEADER
     then hfail (core_error ErrorCode.NotAgeCiphertext
            ''the value is not age v1 ciphertext; values are encrypted on the client'')
     else
       hbind (check_signed co ca k (put_action k) n (put_signed body)) (\<lambda>_.
       hbind (core_now co) (\<lambda>now.
       hbind (store_write from_store (put_record (co_crypto co) (pk (ca_vault ca)) k n pre
                (record_write_of (put_signed body)) (caller_ctx ca now) (limits (co_policy co)))) (\<lambda>version.
       hret (with_etag version (json_response (put_status pre) (PutSecretBody version))))))))))"

definition record_delete ::
    "Core \<Rightarrow> Caller \<Rightarrow> RecordKind \<Rightarrow> string \<Rightarrow> CanonicalRequest \<Rightarrow> CoreResponse handler" where
  "record_delete co ca k name rq =
     hbind (hlift (parse_name (co_crypto co) name)) (\<lambda>n.
     hbind (require co ca (need_write k) (delete_action k) (Some n)) (\<lambda>_.
     if rq_if_none_match rq \<noteq> None then hfail (invalid ''a delete takes If-Match only'')
     else
       hbind (hlift (ok_or (rq_if_match rq) (core_error ErrorCode.PreconditionRequired
                ''a delete needs If-Match: <version>''))) (\<lambda>v.
       hbind (hlift (parse_etag v)) (\<lambda>if_match.
       hbind (hlift (json (rd_delete (co_readers co)) (rq_body rq) (noun k @ '' tombstone''))) (\<lambda>body.
       hbind (check_signed co ca k (delete_action k) n (delete_signed body)) (\<lambda>_.
       hbind (core_now co) (\<lambda>now.
       hbind (store_write from_store (delete_record (co_crypto co) (pk (ca_vault ca)) k n if_match
                (record_write_of (delete_signed body)) (caller_ctx ca now) (limits (co_policy co)))) (\<lambda>version.
       hret (with_etag version (json_response 200 (PutSecretBody version)))))))))))"

definition audit_page :: "Core \<Rightarrow> Caller \<Rightarrow> string option \<Rightarrow> CoreResponse handler" where
  "audit_page co ca query =
     (if \<not> can ca ReadAudit then hfail forbidden
      else
        hbind (hlift (case query_value query ''after'' of None \<Rightarrow> Inr 0 | Some s \<Rightarrow> parse_version s)) (\<lambda>after.
        hbind (hlift (page_limit query MAX_AUDIT_PAGE MAX_AUDIT_PAGE)) (\<lambda>limit.
        hbind (store_read (\<lambda>d. audit_after d (pk (ca_vault ca)) (of_nat after) limit)) (\<lambda>(rows, head).
        hret (json_response 200 (AuditPage rows head))))))"

end
