(* ===== verification/Core_Vaults.thy ===== *)
theory Core_Vaults
  imports Core_Records
begin

text \<open>
  Vault creation, status, the descriptor chain and the children record (\<open>server_core/vaults.rs\<close>),
  and token registration (\<open>server_core/tokens.rs\<close>).
\<close>

section \<open>Vaults\<close>

definition core_capabilities :: "Core \<Rightarrow> CoreResponse handler" where
  "core_capabilities co = hret (json_response 200 (CapabilitiesBody (policy_capabilities (co_policy co))))"

definition core_challenge :: "Core \<Rightarrow> CanonicalRequest \<Rightarrow> CoreResponse handler" where
  "core_challenge co rq =
     (if proof_of_work (admission (co_policy co)) = None then hfail no_endpoint
      else
        hbind (hlift (json (rd_challenge (co_readers co)) (rq_body rq) ''challenge request'')) (\<lambda>_.
        hbind (core_now co) (\<lambda>now.
        hbind (hlift (challenge_for (admission (co_policy co)) now)) (\<lambda>ch.
        hret (json_response 200 (ChallengeBody ch))))))"

definition new_vault_of :: "CreateVaultRequest \<Rightarrow> NewVault" where
  "new_vault_of b = \<lparr>nv_vault_id = cv_vault_id b, nv_owner_sign_pub = cv_owner_sign_pub b,
     nv_owner_box_pub = cv_owner_box_pub b, nv_descriptor = cv_descriptor b, nv_owner_bundle = cv_owner_bundle b\<rparr>"

text \<open>What the body of a creation proves on its own: generation 1, signed by the key it registers.\<close>

definition check_first_generation :: "crypto \<Rightarrow> CreateVaultRequest \<Rightarrow> CoreError + unit" where
  "check_first_generation c b =
     rbind (map_err from_integrity (verify_for c (cv_descriptor b) (cv_vault_id b) (cv_owner_sign_pub b))) (\<lambda>descriptor.
     if \<not> is_first descriptor
     then Inl (invalid ''a vault starts at generation 1, with a zero previous-descriptor hash'')
     else map_err from_integrity (bundle_verify c (cv_owner_bundle b) (cv_owner_sign_pub b) (cv_vault_id b)
            OWNER_TOKEN_ID OWNER_SCOPE_CODE 1))"

definition core_create :: "Core \<Rightarrow> CanonicalRequest \<Rightarrow> CoreResponse handler" where
  "core_create co rq =
     hbind (hlift (json (rd_create (co_readers co)) (rq_body rq) ''vault creation request'')) (\<lambda>body.
     hbind (core_now co) (\<lambda>now.
     hbind (hlift (admit_creation (admission (co_policy co)) body now)) (\<lambda>admitted.
     if from_owner_sign_pub (co_crypto co) (cv_owner_sign_pub body) \<noteq> cv_vault_id body
     then hfail (core_error ErrorCode.VaultIdMismatch ''the vault id is not the hash of the owner signing key'')
     else
       hbind (hlift (ok_or (rq_authorization rq) unauthorized)) (\<lambda>header.
       hbind (hlift (map_err (\<lambda>_. unauthorized) (sig_parse (co_crypto co) header))) (\<lambda>params.
       if sp_actor params \<noteq> SigActor.Owner \<or> sp_vault_id params \<noteq> cv_vault_id body then hfail unauthorized
       else
         hbind (hlift (verify_request co (cv_owner_sign_pub body) rq params now)) (\<lambda>_.
         hbind (hlift (check_first_generation (co_crypto co) body)) (\<lambda>_.
         hbind (case admitted of
                  None \<Rightarrow> hret ()
                | Some ad \<Rightarrow> store_write from_store (spend Challenge (challenge_id ad) (ad_expires_at ad) now)) (\<lambda>_.
         hbind (spend_nonce co params) (\<lambda>_.
         hbind (store_write from_store (create_vault (co_crypto co) (new_vault_of body) now)) (\<lambda>row.
         hret (json_response 201 (CreateVaultBody (vr_vault_id row) (generation row)
           (map_option (\<lambda>idle. i64_wrap (last_active_at row + idle)) (idle_secs (co_policy co)))))))))))))))"

definition token_summary :: "TokenRow \<Rightarrow> TokenSummary" where
  "token_summary t = \<lparr>ts_token_id = t_id t, ts_scope = Known (t_scope t), ts_created_at = t_created_at t,
     ts_expires_at = t_expires_at t, ts_box_pub = t_box_pub t, ts_allow_list = t_allow_list t\<rparr>"

text \<open>The token list, for a manager: audited unless the owner asks, as a best effort.\<close>

definition status_tokens :: "Core \<Rightarrow> Caller \<Rightarrow> TokenSummary list option handler" where
  "status_tokens co ca =
     (if can ca Manage
      then
        hbind (store_read (\<lambda>d. tokens_of d (pk (ca_vault ca)))) (\<lambda>rows.
        hbind (if is_owner ca then hret ()
               else hbind (core_now co) (\<lambda>now.
                 hafter (store_write from_store (record_event (co_crypto co) (pk (ca_vault ca))
                     (simple (caller_actor ca) AuditAction.TokenList None AuditResult.Ok) now))
                   (hret ()))) (\<lambda>_.
        hret (Some (map token_summary rows))))
      else hret None)"

definition core_status :: "Core \<Rightarrow> Caller \<Rightarrow> CoreResponse handler" where
  "core_status co ca =
     (let v = ca_vault ca in
      hbind (status_tokens co ca) (\<lambda>toks.
      hbind (store_read (\<lambda>d. live_records d (pk v) RecordKind.Config)) (\<lambda>config_count.
      hret (json_response 200 (StatusBody \<lparr>vs_vault_id = vr_vault_id v, vs_generation = generation v,
        vs_revision = revision v, vs_owner_sign_pub = owner_sign_pub v, vs_owner_box_pub = owner_box_pub v,
        vs_descriptor = vr_descriptor v, vs_config_count = of_nat config_count, vs_created_at = created_at v,
        vs_last_active_at = last_active_at v, vs_expires_at = ca_expires_at ca, vs_bytes_used = bytes_used v,
        vs_limits = limits (co_policy co), vs_tokens = toks,
        vs_owner_bundle = (if is_owner ca then Some (owner_bundle v) else None)\<rparr>)))))"

definition parse_generation :: "string \<Rightarrow> CoreError + u32" where
  "parse_generation s = (case parse_u64 s of
     None \<Rightarrow> Inl (invalid ''after is a generation number'')
   | Some n \<Rightarrow> if n < 2 ^ 32 then Inr (of_nat n) else Inl (invalid ''after is a generation number''))"

definition core_descriptors :: "Core \<Rightarrow> Caller \<Rightarrow> string option \<Rightarrow> CoreResponse handler" where
  "core_descriptors co ca query =
     hbind (hlift (case query_value query ''after'' of None \<Rightarrow> Inr 0 | Some s \<Rightarrow> parse_generation s)) (\<lambda>after.
     hbind (store_read (\<lambda>d. descriptors_after d (pk (ca_vault ca)) after)) (\<lambda>ds.
     hret (json_response 200 (DescriptorList ds))))"

definition core_children :: "Core \<Rightarrow> Caller \<Rightarrow> CoreResponse handler" where
  "core_children co ca =
     (if \<not> is_owner ca then hfail forbidden
      else
        hbind (store_read (\<lambda>d. get_children d (pk (ca_vault ca)))) (\<lambda>found.
        hbind (hlift (ok_or found (core_error ErrorCode.NotFound ''this vault has no children record''))) (\<lambda>blob.
        hret (with_etag (cb_version blob) (json_response 200 (ChildrenBody blob))))))"

definition core_put_children :: "Core \<Rightarrow> Caller \<Rightarrow> CanonicalRequest \<Rightarrow> CoreResponse handler" where
  "core_put_children co ca rq =
     hbind (require co ca Need.Owner AuditAction.ChildrenWrite None) (\<lambda>_.
     hbind (hlift (precondition (rq_if_match rq) (rq_if_none_match rq))) (\<lambda>pre.
     hbind (hlift (json (rd_children (co_readers co)) (rq_body rq) ''children record'')) (\<lambda>blob.
     case children_blob_verify (co_crypto co) blob (vr_vault_id (ca_vault ca)) (owner_sign_pub (ca_vault ca)) of
       Inl e \<Rightarrow> hbind (core_refuse co ca AuditAction.ChildrenWrite None) (\<lambda>_. hfail (from_integrity e))
     | Inr _ \<Rightarrow>
         hbind (core_now co) (\<lambda>now.
         hbind (store_write from_store (put_children (co_crypto co) (pk (ca_vault ca)) pre blob
                  (caller_ctx ca now) (limits (co_policy co)))) (\<lambda>version.
         hret (with_etag version (json_response (put_status pre) (PutSecretBody version))))))))"

section \<open>Tokens\<close>

definition token_ttl :: "RegisterTokenRequest \<Rightarrow> nat" where
  "token_ttl r = (if ttl_secs r = 0 then default_ttl_secs (rt_scope r) else ttl_secs r)"

definition new_token_of :: "RegisterTokenRequest \<Rightarrow> nat \<Rightarrow> int \<Rightarrow> NewToken" where
  "new_token_of r ttl now = \<lparr>nt_id = rt_token_id r, nt_auth_pub = rt_auth_pub r, nt_box_pub = rt_box_pub r,
     nt_scope = rt_scope r, nt_expires_at = i64_wrap (now + int ttl), nt_bundle = rt_bundle r,
     nt_generation = rt_generation r, nt_allow_list = rt_allow_list r\<rparr>"

definition core_register :: "Core \<Rightarrow> Caller \<Rightarrow> bytes \<Rightarrow> CoreResponse handler" where
  "core_register co ca body =
     hbind (require co ca Need.Owner AuditAction.TokenMint None) (\<lambda>_.
     hbind (hlift (json (rd_register (co_readers co)) body ''token registration'')) (\<lambda>r.
     let ttl = token_ttl r in
     if ttl > max_ttl_secs (rt_scope r)
     then hfail (core_error ErrorCode.TtlTooLong (''a '' @ scope_as_str (rt_scope r) @ '' token lives at most ''
            @ show_nat (max_ttl_secs (rt_scope r) div 86400) @ '' days''))
     else if rt_allow_list r \<noteq> None \<and> rt_scope r \<noteq> Scope.Read
     then hfail (invalid ''only read tokens take a name allow-list'')
     else
       (case bundle_verify (co_crypto co) (rt_bundle r) (owner_sign_pub (ca_vault ca)) (vr_vault_id (ca_vault ca))
               (rt_token_id r) (scope_code (rt_scope r)) (rt_generation r) of
          Inl e \<Rightarrow> hbind (core_refuse co ca AuditAction.TokenMint None) (\<lambda>_. hfail (from_integrity e))
        | Inr _ \<Rightarrow>
            hbind (core_now co) (\<lambda>now.
            hbind (store_write from_store (register_token (co_crypto co) (pk (ca_vault ca)) (new_token_of r ttl now)
                     (caller_ctx ca now) (limits (co_policy co)))) (\<lambda>row.
            hret (json_response 201 (RegisterTokenBody (t_id row) (t_expires_at row))))))))"

definition core_whoami :: "Caller \<Rightarrow> CoreResponse handler" where
  "core_whoami ca = (case ca_principal ca of
     Principal.Owner \<Rightarrow> hfail (invalid ''the owner has no token; use GET /v1/vault for the owner bundle'')
   | Principal.Token t \<Rightarrow> hret (json_response 200 (TokenSelfBody \<lparr>me_token_id = t_id t,
       me_vault_id = vr_vault_id (ca_vault ca), me_scope = Known (t_scope t), me_expires_at = t_expires_at t,
       me_allow_list = t_allow_list t, me_owner_sign_pub = owner_sign_pub (ca_vault ca),
       me_descriptor = vr_descriptor (ca_vault ca), me_bundle = t_bundle t\<rparr>)))"

end
