(* ===== verification/Core_Critical.thy ===== *)
theory Core_Critical
  imports Core_Vaults
begin

text \<open>The journaled operations of the core: revocation, leaked-token reports, rotation and vault
  deletion (\<open>server_core/critical.rs\<close>).\<close>

definition core_revoke :: "Core \<Rightarrow> Caller \<Rightarrow> string \<Rightarrow> CoreResponse handler" where
  "core_revoke co ca i =
     hbind (require co ca Manage AuditAction.TokenRevoke None) (\<lambda>_.
     hbind (hlift (map_err (\<lambda>_. invalid ''a token id is 32 hexadecimal characters'')
              (token_id_from_hex (co_crypto co) i))) (\<lambda>t.
     hbind (core_now co) (\<lambda>now.
     hbind (critical co (revoke_tokens (co_crypto co) (pk (ca_vault ca)) [t] False (caller_ctx ca now))) (\<lambda>revoked.
     hret (json_response 200 (RevokeBody revoked))))))"

definition core_report :: "Core \<Rightarrow> bytes \<Rightarrow> CoreResponse handler" where
  "core_report co body =
     hbind (hlift (json (rd_report (co_readers co)) body ''token report'')) (\<lambda>rq.
     hbind (store_read (\<lambda>d. token_by_id d (rp_token_id rq))) (\<lambda>found.
     hbind (hlift (ok_or found unauthorized)) (\<lambda>row.
     hbind (core_now co) (\<lambda>now.
     if i64_abs (i64_sub now (rp_ts rq)) > MAX_SKEW_SECS then hfail unauthorized
     else
       hbind (hlift (map_err (\<lambda>_. unauthorized) (verify_ed25519 (co_crypto co) (t_auth_pub row)
                (report_signing_input (rp_token_id rq) (rp_ts rq)) (rp_sig rq) ''report''))) (\<lambda>_.
       hbind (critical co (revoke_tokens (co_crypto co) (t_vault_pk row) [rp_token_id rq] True
                \<lparr>cx_actor = Actor.Token (rp_token_id rq), cx_now = now\<rparr>)) (\<lambda>revoked.
       hret (json_response 200 (RevokeBody revoked))))))))"

definition rotated_context :: "crypto \<Rightarrow> VaultId \<Rightarrow> u32 \<Rightarrow> RecordKind \<Rightarrow> RotatedVersion \<Rightarrow> RecordContext" where
  "rotated_context c v g k s = record_context c v g k (rv_name_hmac s) (rv_version s) (rv_written_at s)
     (b64 (rv_name_ct s)) (map_option b64 (rv_value_ct s))"

fun verify_versions ::
    "crypto \<Rightarrow> VaultId \<Rightarrow> u32 \<Rightarrow> RecordKind \<Rightarrow> Key32 \<Rightarrow> RotatedVersion list \<Rightarrow> IntegrityError + unit" where
  "verify_versions c v g k writer [] = Inr ()"
| "verify_versions c v g k writer (s # batch) =
     rbind (record_verify c (rotated_context c v g k s) writer (rv_sig s)) (\<lambda>_.
     verify_versions c v g k writer batch)"

fun verify_reseals :: "crypto \<Rightarrow> VaultRow \<Rightarrow> u32 \<Rightarrow> (TokenId \<rightharpoonup> Scope) \<Rightarrow> ResealedBundle list \<Rightarrow> CoreError + unit" where
  "verify_reseals c vault g scopes [] = Inr ()"
| "verify_reseals c vault g scopes (t # ts) =
     rbind (ok_or (scopes (rb_token_id t)) (from_store (IncompleteRotation
              ''a resealed bundle names a token not in this vault''))) (\<lambda>scope.
     rbind (map_err from_integrity (bundle_verify c (rb_bundle t) (owner_sign_pub vault) (vr_vault_id vault)
              (rb_token_id t) (scope_code scope) g)) (\<lambda>_.
     verify_reseals c vault g scopes ts))"

definition all_age :: "RotationRequest \<Rightarrow> bool" where
  "all_age rq \<longleftrightarrow> (\<forall>s \<in> set (rr_secrets rq @ rr_configs rq).
     case rv_value_ct s of None \<Rightarrow> True | Some v \<Rightarrow> starts_with (b64 v) AGE_HEADER)"

text \<open>The new generation: owner-signed and linked to the current one; every record re-signed by its
  writer keys; the owner's bundle signed for it.\<close>

definition check_new_generation :: "crypto \<Rightarrow> Caller \<Rightarrow> RotationRequest \<Rightarrow> CoreError + Descriptor" where
  "check_new_generation c ca rq =
     (let vault = ca_vault ca in
      rbind (caller_descriptor ca) (\<lambda>cur.
      rbind (map_err from_integrity (verify_for c (rr_descriptor rq) (vr_vault_id vault) (owner_sign_pub vault))) (\<lambda>nxt.
      if \<not> follows c nxt cur
      then Inl (core_error ErrorCode.KeyMismatch ''the new descriptor does not follow the current one'')
      else
        rbind (map_err from_integrity (verify_versions c (vr_vault_id vault) (d_generation nxt) RecordKind.Secret
                 (secret_writer_pub nxt) (rr_secrets rq))) (\<lambda>_.
        rbind (map_err from_integrity (verify_versions c (vr_vault_id vault) (d_generation nxt) RecordKind.Config
                 (config_writer_pub nxt) (rr_configs rq))) (\<lambda>_.
        rbind (map_err from_integrity (bundle_verify c (rr_owner_bundle rq) (owner_sign_pub vault) (vr_vault_id vault)
                 OWNER_TOKEN_ID OWNER_SCOPE_CODE (d_generation nxt))) (\<lambda>_.
        Inr nxt))))))"

definition core_rotate :: "Core \<Rightarrow> Caller \<Rightarrow> bytes \<Rightarrow> CoreResponse handler" where
  "core_rotate co ca body =
     hbind (require co ca Need.Owner AuditAction.VaultRotate None) (\<lambda>_.
     hbind (hlift (json (rd_rotation (co_readers co)) body ''rotation batch'')) (\<lambda>rq.
     if \<not> all_age rq
     then hfail (core_error ErrorCode.NotAgeCiphertext ''every re-encrypted value must be age v1 ciphertext'')
     else if from_generation rq \<noteq> generation (ca_vault ca) \<or> from_revision rq \<noteq> revision (ca_vault ca)
     then hfail (from_store StoreError.Conflict)
     else
       hbind (hlift (check_new_generation (co_crypto co) ca rq)) (\<lambda>nxt.
       hbind (store_read (\<lambda>d. map_of (rev (map (\<lambda>t. (t_id t, t_scope t)) (tokens_of d (pk (ca_vault ca))))))) (\<lambda>scopes.
       hbind (hlift (verify_reseals (co_crypto co) (ca_vault ca) (d_generation nxt) scopes (rr_tokens rq))) (\<lambda>_.
       hbind (core_now co) (\<lambda>now.
       hbind (critical co (apply_rotation (co_crypto co) (pk (ca_vault ca)) rq (caller_ctx ca now))) (\<lambda>g.
       hret (json_response 200 (RotationBody g)))))))))"

definition core_delete_vault :: "Core \<Rightarrow> Caller \<Rightarrow> CoreResponse handler" where
  "core_delete_vault co ca =
     hbind (require co ca Need.Owner AuditAction.VaultDelete None) (\<lambda>_.
     hbind (core_now co) (\<lambda>now.
     hbind (critical co (delete_vault (pk (ca_vault ca)) now)) (\<lambda>_.
     hret (json_response 200 (DeleteVaultBody (vr_vault_id (ca_vault ca)))))))"

end
