(* ===== verification/Core_Route.thy ===== *)
theory Core_Route
  imports Core_Critical
begin

text \<open>
  Routing (\<open>server_core/route.rs\<close>) and the entry points of the core, \<open>Core::open\<close> and \<open>Core::call\<close>
  (\<open>server_core/mod.rs\<close>).
\<close>

section \<open>The table of endpoints\<close>

datatype AuthScheme = Unauthenticated | Owner | Token | OwnerOrToken

fun auth_as_str :: "AuthScheme \<Rightarrow> string" where
  "auth_as_str Unauthenticated = ''none''"
| "auth_as_str AuthScheme.Owner = ''owner''"
| "auth_as_str AuthScheme.Token = ''token''"
| "auth_as_str OwnerOrToken = ''owner, token''"

datatype Served = Core | Shell

datatype RouteId =
    Capabilities | Challenges | CreateVault | Status | DeleteVault | Descriptors | ChildrenGet
  | ChildrenPut | Rotate | RegisterToken | TokenSelf | ReportToken | RevokeToken | Audit
  | RecordList RecordKind | RecordGet RecordKind | RecordPut RecordKind | RecordDelete RecordKind
  | RecordVersions RecordKind | RecordVersion RecordKind | Healthz | Readyz

record Route =
  ro_method :: string
  ro_path :: string
  ro_auth :: AuthScheme
  ro_served :: Served
  ro_id :: RouteId

definition core_route :: "string \<Rightarrow> string \<Rightarrow> AuthScheme \<Rightarrow> RouteId \<Rightarrow> Route" where
  "core_route m p a i = \<lparr>ro_method = m, ro_path = p, ro_auth = a, ro_served = Served.Core, ro_id = i\<rparr>"

definition shell_route :: "string \<Rightarrow> RouteId \<Rightarrow> Route" where
  "shell_route p i = \<lparr>ro_method = ''GET'', ro_path = p, ro_auth = Unauthenticated, ro_served = Served.Shell, ro_id = i\<rparr>"

definition ROUTES :: "Route list" where
  "ROUTES =
     [core_route ''GET'' ''/v1/capabilities'' Unauthenticated RouteId.Capabilities,
      core_route ''POST'' ''/v1/challenges'' Unauthenticated Challenges,
      core_route ''POST'' ''/v1/vaults'' AuthScheme.Owner CreateVault,
      core_route ''GET'' ''/v1/vault'' OwnerOrToken Status,
      core_route ''DELETE'' ''/v1/vault'' AuthScheme.Owner RouteId.DeleteVault,
      core_route ''GET'' ''/v1/vault/descriptors'' OwnerOrToken Descriptors,
      core_route ''GET'' ''/v1/vault/children'' AuthScheme.Owner ChildrenGet,
      core_route ''PUT'' ''/v1/vault/children'' AuthScheme.Owner ChildrenPut,
      core_route ''POST'' ''/v1/vault/rotations'' AuthScheme.Owner RouteId.Rotate,
      core_route ''POST'' ''/v1/tokens'' AuthScheme.Owner RegisterToken,
      core_route ''GET'' ''/v1/tokens/self'' AuthScheme.Token RouteId.TokenSelf,
      core_route ''POST'' ''/v1/tokens/report'' Unauthenticated ReportToken,
      core_route ''DELETE'' ''/v1/tokens/{token_id}'' OwnerOrToken RevokeToken,
      core_route ''GET'' ''/v1/audit'' OwnerOrToken RouteId.Audit,
      core_route ''GET'' ''/v1/secrets'' OwnerOrToken (RecordList RecordKind.Secret),
      core_route ''GET'' ''/v1/secrets/{name_hmac}'' OwnerOrToken (RecordGet RecordKind.Secret),
      core_route ''PUT'' ''/v1/secrets/{name_hmac}'' OwnerOrToken (RecordPut RecordKind.Secret),
      core_route ''DELETE'' ''/v1/secrets/{name_hmac}'' OwnerOrToken (RecordDelete RecordKind.Secret),
      core_route ''GET'' ''/v1/secrets/{name_hmac}/versions'' OwnerOrToken (RecordVersions RecordKind.Secret),
      core_route ''GET'' ''/v1/secrets/{name_hmac}/versions/{version}'' OwnerOrToken (RecordVersion RecordKind.Secret),
      core_route ''GET'' ''/v1/configs'' OwnerOrToken (RecordList RecordKind.Config),
      core_route ''GET'' ''/v1/configs/{name_hmac}'' OwnerOrToken (RecordGet RecordKind.Config),
      core_route ''PUT'' ''/v1/configs/{name_hmac}'' OwnerOrToken (RecordPut RecordKind.Config),
      core_route ''DELETE'' ''/v1/configs/{name_hmac}'' OwnerOrToken (RecordDelete RecordKind.Config),
      core_route ''GET'' ''/v1/configs/{name_hmac}/versions'' OwnerOrToken (RecordVersions RecordKind.Config),
      core_route ''GET'' ''/v1/configs/{name_hmac}/versions/{version}'' OwnerOrToken (RecordVersion RecordKind.Config),
      shell_route ''/healthz'' Healthz,
      shell_route ''/readyz'' Readyz]"

datatype Lookup = Found Route "string list" | MethodNotAllowed | NotFound

text \<open>The loop of \<open>bind\<close> over the segments of the pattern and of the path.\<close>

fun bind_segments :: "string list \<Rightarrow> string list \<Rightarrow> string list option" where
  "bind_segments [] [] = Some []"
| "bind_segments (p # ps) (g # gs) =
     (if p \<noteq> [] \<and> hd p = CHR ''{'' then
        (if g = [] then None else map_option (Cons g) (bind_segments ps gs))
      else if p = g then bind_segments ps gs
      else None)"
| "bind_segments _ _ = None"

definition bind_path :: "string \<Rightarrow> string \<Rightarrow> string list option" where
  "bind_path pattern path = bind_segments (split_on (CHR ''/'') pattern) (split_on (CHR ''/'') path)"

fun first_match :: "string \<Rightarrow> Route list \<Rightarrow> (Route \<times> string list) option" where
  "first_match path [] = None"
| "first_match path (r # rs) = (case bind_path (ro_path r) path of
     None \<Rightarrow> first_match path rs
   | Some params \<Rightarrow> Some (r, params))"

definition lookup :: "string \<Rightarrow> string \<Rightarrow> Lookup" where
  "lookup m path = (case first_match path ROUTES of
     None \<Rightarrow> Lookup.NotFound
   | Some (first, params) \<Rightarrow>
       (case find (\<lambda>r. ro_path r = ro_path first \<and> ro_method r = m) ROUTES of
          Some route \<Rightarrow> Found route params
        | None \<Rightarrow> MethodNotAllowed))"

section \<open>Path parameters\<close>

definition hex_nibble :: "char \<Rightarrow> nat option" where
  "hex_nibble a = (let n = of_char a :: nat in
     if 48 \<le> n \<and> n \<le> 57 then Some (n - 48)
     else if 97 \<le> n \<and> n \<le> 102 then Some (n - 87)
     else if 65 \<le> n \<and> n \<le> 70 then Some (n - 55) else None)"

fun percent_decode :: "string \<Rightarrow> string option" where
  "percent_decode [] = Some []"
| "percent_decode (a # s) =
     (if a = CHR ''%'' then
        (case s of
           h # l # rest \<Rightarrow>
             (case (hex_nibble h, hex_nibble l) of
                (Some x, Some y) \<Rightarrow> map_option (Cons (char_of (16 * x + y))) (percent_decode rest)
              | _ \<Rightarrow> None)
         | _ \<Rightarrow> None)
      else map_option (Cons a) (percent_decode s))"

definition path_param :: "string \<Rightarrow> CoreError + string" where
  "path_param segment =
     (if CHR ''%'' \<notin> set segment then Inr segment
      else (case percent_decode segment of
          None \<Rightarrow> Inl (invalid ''a path segment is not valid percent-encoding'')
        | Some out \<Rightarrow>
            if utf8_valid out then Inr out
            else Inl (invalid ''a path segment is not valid percent-encoding'')))"

section \<open>Dispatch\<close>

definition route_arg :: "string list \<Rightarrow> nat \<Rightarrow> string" where
  "route_arg params i = (if i < length params then params ! i else [])"

definition dispatch_route ::
    "Core \<Rightarrow> CanonicalRequest \<Rightarrow> string option \<Rightarrow> string list \<Rightarrow> RouteId \<Rightarrow> CoreResponse handler" where
  "dispatch_route co rq query params i = (case i of
     RouteId.Capabilities \<Rightarrow> core_capabilities co
   | Challenges \<Rightarrow> core_challenge co rq
   | CreateVault \<Rightarrow> core_create co rq
   | Status \<Rightarrow> authed co rq (core_status co)
   | RouteId.DeleteVault \<Rightarrow> authed co rq (core_delete_vault co)
   | Descriptors \<Rightarrow> authed co rq (\<lambda>ca. core_descriptors co ca query)
   | ChildrenGet \<Rightarrow> authed co rq (core_children co)
   | ChildrenPut \<Rightarrow> authed co rq (\<lambda>ca. core_put_children co ca rq)
   | RouteId.Rotate \<Rightarrow> authed co rq (\<lambda>ca. core_rotate co ca (rq_body rq))
   | RegisterToken \<Rightarrow> authed co rq (\<lambda>ca. core_register co ca (rq_body rq))
   | RouteId.TokenSelf \<Rightarrow> authed co rq core_whoami
   | ReportToken \<Rightarrow> core_report co (rq_body rq)
   | RevokeToken \<Rightarrow> authed co rq (\<lambda>ca.
       hbind (hlift (path_param (route_arg params 0))) (core_revoke co ca))
   | RouteId.Audit \<Rightarrow> authed co rq (\<lambda>ca. audit_page co ca query)
   | RecordList k \<Rightarrow> authed co rq (\<lambda>ca. record_list co ca k query)
   | RecordGet k \<Rightarrow> authed co rq (\<lambda>ca.
       hbind (hlift (path_param (route_arg params 0))) (\<lambda>name. record_read co ca k name None))
   | RecordPut k \<Rightarrow> authed co rq (\<lambda>ca.
       hbind (hlift (path_param (route_arg params 0))) (\<lambda>name. record_put co ca k name rq))
   | RecordDelete k \<Rightarrow> authed co rq (\<lambda>ca.
       hbind (hlift (path_param (route_arg params 0))) (\<lambda>name. record_delete co ca k name rq))
   | RecordVersions k \<Rightarrow> authed co rq (\<lambda>ca.
       hbind (hlift (path_param (route_arg params 0))) (record_history co ca k))
   | RecordVersion k \<Rightarrow> authed co rq (\<lambda>ca.
       hbind (hlift (path_param (route_arg params 0))) (\<lambda>name.
       hbind (hlift (path_param (route_arg params 1))) (\<lambda>version. record_read co ca k name (Some version))))
   | Healthz \<Rightarrow> hfail no_endpoint
   | Readyz \<Rightarrow> hfail no_endpoint)"

definition split_query :: "string \<Rightarrow> string \<times> string option" where
  "split_query path_and_query = (case split_once (CHR ''?'') path_and_query of
     Some (path, query) \<Rightarrow> (path, Some query)
   | None \<Rightarrow> (path_and_query, None))"

definition dispatch :: "Core \<Rightarrow> CanonicalRequest \<Rightarrow> CoreResponse handler" where
  "dispatch co rq =
     (let (path, query) = split_query (rq_path_and_query rq) in
      case lookup (rq_method rq) path of
        Found route params \<Rightarrow> dispatch_route co rq query params (ro_id route)
      | MethodNotAllowed \<Rightarrow> hfail method_not_allowed
      | Lookup.NotFound \<Rightarrow> hfail no_endpoint)"

definition core_call :: "Core \<Rightarrow> CanonicalRequest \<Rightarrow> World \<Rightarrow> CoreResponse \<times> World" where
  "core_call co rq w = (case dispatch co rq w of
     (Inl e, w') \<Rightarrow> (to_response e, w')
   | (Inr r, w') \<Rightarrow> (r, w'))"

text \<open>\<open>Core::open\<close>: nothing is served until the journal is replayed.\<close>

definition core_open :: "Core \<Rightarrow> World \<Rightarrow> (ReplayError + nat) \<times> World" where
  "core_open co w =
     (let (r, d) = replay_journal (co_crypto co) (file_list_after (co_codec co)) (wd_files w) (wd_db w)
      in (r, w\<lparr>wd_db := d\<rparr>))"

end
