(* ===== verification/Core_Routing.thy ===== *)
theory Core_Routing
  imports Core_Route
begin

text \<open>Routing against its declarative reading: an endpoint is found exactly when its method is the
  request's and its pattern matches, but for two literal paths under \<open>/v1/tokens\<close>.\<close>

definition literal :: "string \<Rightarrow> bool" where
  "literal p \<longleftrightarrow> p = [] \<or> hd p \<noteq> CHR ''{''"

text \<open>Two patterns that no path matches at once.\<close>

fun clash :: "string list \<Rightarrow> string list \<Rightarrow> bool" where
  "clash [] [] = False"
| "clash (p # ps) (q # qs) = (literal p \<and> literal q \<and> p \<noteq> q \<or> clash ps qs)"
| "clash _ _ = True"

lemma bind_segments_clash:
  "bind_segments ps gs = Some xs \<Longrightarrow> bind_segments qs gs = Some ys \<Longrightarrow> \<not> clash ps qs"
proof (induction ps gs arbitrary: qs xs ys rule: bind_segments.induct)
  case (2 p ps g gs)
  then show ?case by (cases qs) (auto simp: literal_def split: if_splits)
qed (auto elim: clash.elims)

definition segments :: "Route \<Rightarrow> string list" where
  "segments r = split_on (CHR ''/'') (ro_path r)"

definition token_literals :: "string list" where
  "token_literals = [''/v1/tokens/self'', ''/v1/tokens/report'']"

lemma routes_disjoint:
  "list_all (\<lambda>r. list_all (\<lambda>r'. ro_path r = ro_path r' \<or> clash (segments r) (segments r')
     \<or> ro_path r \<in> set token_literals \<or> ro_path r' \<in> set token_literals) ROUTES) ROUTES"
  by code_simp

lemma routes_distinct: "distinct (map (\<lambda>r. (ro_method r, ro_path r)) ROUTES)"
  by code_simp

lemma token_literals_literal: "list_all (\<lambda>r. ro_path r \<in> set token_literals \<longrightarrow> list_all literal (segments r)) ROUTES"
  by code_simp

lemma bind_literal: "list_all literal ps \<Longrightarrow> bind_segments ps gs = Some xs \<Longrightarrow> gs = ps"
  by (induction ps gs arbitrary: xs rule: bind_segments.induct) (auto simp: literal_def split: if_splits)

lemma split_on_inject: "split_on d xs = split_on d ys \<Longrightarrow> xs = ys"
  by (metis join_split_on)

lemma both_match:
  assumes "r \<in> set ROUTES" and "r' \<in> set ROUTES"
    and "bind_path (ro_path r) path = Some xs" and "bind_path (ro_path r') path = Some ys"
  shows "ro_path r = ro_path r' \<or> path \<in> set token_literals"
proof -
  have "\<not> clash (segments r) (segments r')"
    using assms(3,4) by (auto simp: bind_path_def segments_def dest: bind_segments_clash)
  then consider "ro_path r = ro_path r'" | "ro_path r \<in> set token_literals" | "ro_path r' \<in> set token_literals"
    using routes_disjoint assms(1,2) by (auto simp: list_all_iff)
  moreover have "path = ro_path x" if "ro_path x \<in> set token_literals" "x \<in> set ROUTES"
      "bind_path (ro_path x) path = Some zs" for x zs
  proof -
    have "list_all literal (segments x)" using token_literals_literal that by (auto simp: list_all_iff)
    with that(3) have "split_on (CHR ''/'') path = split_on (CHR ''/'') (ro_path x)"
      by (auto simp: bind_path_def segments_def dest: bind_literal)
    then show ?thesis by (rule split_on_inject)
  qed
  ultimately show ?thesis using assms by cases auto
qed

lemma first_match_Some:
  "first_match path rs = Some (r, xs) \<Longrightarrow> r \<in> set rs \<and> bind_path (ro_path r) path = Some xs"
  by (induction rs) (auto split: option.splits)

lemma first_match_None: "first_match path rs = None \<Longrightarrow> r \<in> set rs \<Longrightarrow> bind_path (ro_path r) path = None"
  by (induction rs) (auto split: option.splits)

lemma route_unique:
  assumes "r \<in> set ROUTES" and "r' \<in> set ROUTES" and "ro_method r = ro_method r'" and "ro_path r = ro_path r'"
  shows "r = r'"
  using routes_distinct assms by (auto simp: distinct_map inj_on_def)

text \<open>The two literal paths, evaluated.\<close>

lemma token_literals_first:
  "first_match ''/v1/tokens/self'' ROUTES = Some (core_route ''GET'' ''/v1/tokens/self'' AuthScheme.Token RouteId.TokenSelf, [])"
  "first_match ''/v1/tokens/report'' ROUTES = Some (core_route ''POST'' ''/v1/tokens/report'' Unauthenticated ReportToken, [])"
  by (simp_all add: ROUTES_def core_route_def shell_route_def bind_path_def)

lemma token_literals_lookup: "path \<in> set token_literals \<Longrightarrow> lookup ''DELETE'' path = MethodNotAllowed"
  by (auto simp: lookup_def ROUTES_def core_route_def shell_route_def bind_path_def token_literals_def)

lemma token_literals_matching:
  assumes "path \<in> set token_literals" and "r \<in> set ROUTES" and "bind_path (ro_path r) path = Some xs"
  shows "ro_method r = ''DELETE'' \<or> xs = [] \<and> ro_path r = path"
  using assms by (auto simp: ROUTES_def core_route_def shell_route_def bind_path_def token_literals_def)

lemma find_route:
  assumes "r \<in> set ROUTES"
  shows "find (\<lambda>x. ro_path x = ro_path r \<and> ro_method x = ro_method r) ROUTES = Some r"
proof -
  have "find (\<lambda>x. ro_path x = ro_path r \<and> ro_method x = ro_method r) ROUTES \<noteq> None"
    using assms by (auto simp: find_None_iff)
  then obtain x where x: "find (\<lambda>x. ro_path x = ro_path r \<and> ro_method x = ro_method r) ROUTES = Some x" by auto
  then have "x \<in> set ROUTES" "ro_path x = ro_path r" "ro_method x = ro_method r" by (auto simp: find_Some_iff)
  with x assms show ?thesis using route_unique by simp
qed

text \<open>C26. Routing is unambiguous and complete: a request reaches exactly the endpoint of its method
  whose pattern its path matches, with the segments the pattern binds; only a \<open>DELETE\<close> of
  \<open>/v1/tokens/self\<close> or \<open>/v1/tokens/report\<close>, which would match a token id, reaches none.\<close>

theorem routing_exact:
  "lookup m path = Found r params \<longleftrightarrow>
     r \<in> set ROUTES \<and> ro_method r = m \<and> bind_path (ro_path r) path = Some params
     \<and> (m, path) \<notin> {(''DELETE'', ''/v1/tokens/self''), (''DELETE'', ''/v1/tokens/report'')}"
proof
  assume l: "lookup m path = Found r params"
  then obtain first where first: "first_match path ROUTES = Some (first, params)"
    and found: "find (\<lambda>r. ro_path r = ro_path first \<and> ro_method r = m) ROUTES = Some r"
    by (auto simp: lookup_def split: option.splits)
  have "\<not> (m = ''DELETE'' \<and> path \<in> set token_literals)" using l token_literals_lookup by auto
  then show "r \<in> set ROUTES \<and> ro_method r = m \<and> bind_path (ro_path r) path = Some params
     \<and> (m, path) \<notin> {(''DELETE'', ''/v1/tokens/self''), (''DELETE'', ''/v1/tokens/report'')}"
    using first_match_Some [OF first] found by (auto simp: find_Some_iff token_literals_def)
next
  assume "r \<in> set ROUTES \<and> ro_method r = m \<and> bind_path (ro_path r) path = Some params
     \<and> (m, path) \<notin> {(''DELETE'', ''/v1/tokens/self''), (''DELETE'', ''/v1/tokens/report'')}"
  then have r: "r \<in> set ROUTES" "ro_method r = m" "bind_path (ro_path r) path = Some params"
    and no: "m \<noteq> ''DELETE'' \<or> path \<notin> set token_literals" by (auto simp: token_literals_def)
  obtain first xs where first: "first_match path ROUTES = Some (first, xs)"
    using first_match_None [of path ROUTES r] r by (cases "first_match path ROUTES") auto
  note fm = first_match_Some [OF first]
  show "lookup m path = Found r params"
  proof (cases "path \<in> set token_literals")
    case True
    with token_literals_matching [OF True r(1,3)] no r(2) have "params = []" "ro_path r = path" by auto
    then have "ro_path first = path \<and> xs = []"
      using True first token_literals_first by (auto simp: token_literals_def core_route_def)
    with \<open>params = []\<close> \<open>ro_path r = path\<close> show ?thesis
      using find_route [OF r(1)] r(2) first by (simp add: lookup_def)
  next
    case False
    with both_match [of r first path params xs] r fm have eq: "ro_path first = ro_path r" by auto
    then have "xs = params" using fm r by simp
    then show ?thesis using find_route [OF r(1)] r(2) eq first by (simp add: lookup_def)
  qed
qed

end
