(* ===== verification/Core_Inv.thy ===== *)
theory Core_Inv
  imports Core_Route Store_Frame
begin

text \<open>
  What a handler may rely on and must keep, as one contract: a property of the state that every
  store call and every reading of the clock keeps is kept by every request. Interpreted for the
  database invariant and for the ids that are spent.
\<close>

section \<open>The contract\<close>

lemma preserves_let [preserving]: "(\<And>x. preserves P (f x)) \<Longrightarrow> preserves P (let x = y in f x)"
  by (simp add: Let_def)

lemma preserves_actor [preserving]:
  "preserves P m \<Longrightarrow> (\<And>i. preserves P (f i)) \<Longrightarrow>
   preserves P (case a of SigActor.Owner \<Rightarrow> m | SigActor.Token i \<Rightarrow> f i)"
  by (simp split: SigActor.split)

lemma preserves_principal [preserving]:
  "preserves P m \<Longrightarrow> (\<And>t. preserves P (f t)) \<Longrightarrow>
   preserves P (case a of Principal.Owner \<Rightarrow> m | Principal.Token t \<Rightarrow> f t)"
  by (simp split: Principal.split)

text \<open>A value the clock gave at an instant before \<open>n\<close>.\<close>

definition past :: "Core \<Rightarrow> nat \<Rightarrow> int \<Rightarrow> bool" where
  "past co n now \<longleftrightarrow> (\<exists>m < n. now = co_clock co m)"

locale handler_contract =
  fixes co :: Core and P :: "nat \<Rightarrow> World \<Rightarrow> bool"
  assumes reached: "P n w \<Longrightarrow> n \<le> wd_tick w"
    and tick: "P n w \<Longrightarrow> P (Suc (wd_tick w)) (w\<lparr>wd_tick := Suc (wd_tick w)\<rparr>)"
    and weaken: "P m w \<Longrightarrow> n \<le> m \<Longrightarrow> P n w"
    and spends: "past co n now \<Longrightarrow> preserves (P n) (store_write conv (spend k i e now))"
    and touches: "preserves (P n) (store_write conv (touch p now))"
    and records: "preserves (P n) (store_write conv (record_event (co_crypto co) p ev now))"
    and creates: "preserves (P n) (store_write conv (create_vault (co_crypto co) v now))"
    and registers: "preserves (P n) (store_write conv (register_token (co_crypto co) p t ctx l))"
    and puts: "preserves (P n) (store_write conv (put_record (co_crypto co) p k' name pre wr ctx l))"
    and deletes: "preserves (P n) (store_write conv (delete_record (co_crypto co) p k' name m wr ctx l))"
    and puts_children: "preserves (P n) (store_write conv (put_children (co_crypto co) p pre blob ctx l))"
    and revokes: "preserves (P n) (critical co (revoke_tokens (co_crypto co) p ids rep ctx))"
    and rotates: "preserves (P n) (critical co (apply_rotation (co_crypto co) p rr ctx))"
    and deletes_vault: "preserves (P n) (critical co (delete_vault p now))"
begin

lemma reads_clock:
  assumes "\<And>m. n \<le> m \<Longrightarrow> preserves (P (Suc m)) (f (co_clock co m))"
  shows "preserves (P n) (hbind (core_now co) f)"
  unfolding preserves_def
proof (intro allI impI)
  fix w assume w: "P n w"
  let ?w = "w\<lparr>wd_tick := Suc (wd_tick w)\<rparr>"
  have "P (Suc (wd_tick w)) (snd (f (co_clock co (wd_tick w)) ?w))"
    using assms [OF reached [OF w]] tick [OF w] by (simp add: preserves_def)
  from weaken [OF this, of n] reached [OF w] show "P n (snd (hbind (core_now co) f w))"
    by (simp add: hbind_def core_now_def)
qed

lemmas steps = reads_clock touches records creates registers puts deletes puts_children revokes rotates
  deletes_vault preserving

lemma refuse: "preserves (P n) (core_refuse co ca action name)"
  unfolding core_refuse_def by (intro steps)

lemma required: "preserves (P n) (require co ca need action name)"
  unfolding require_def by (intro steps refuse)

lemma nonce: "preserves (P n) (spend_nonce co params)"
  unfolding spend_nonce_def by (intro steps spends) (auto simp: past_def)

lemma authenticates: "preserves (P n) (authenticate co rq)"
  unfolding authenticate_def owner_auth_def token_auth_def
  by (intro steps nonce)

lemma serves:
  assumes "\<And>m ca. preserves (P m) (op ca)"
  shows "preserves (P n) (hbind (core_now co) (\<lambda>now.
     hbind (hlift (admit_request (admission (co_policy co)) ca now)) (\<lambda>_ w.
       (case op ca w of
          (Inl e, w') \<Rightarrow> (Inr ((to_response e)\<lparr>cr_expires_at := ca_expires_at ca\<rparr>), w')
        | (Inr r, w') \<Rightarrow> (Inr (r\<lparr>cr_expires_at := ca_expires_at ca\<rparr>), w')))))"
  by (intro reads_clock preserves_bind preserves_pure preserves_answer assms)

lemma answers: "(\<And>m ca. preserves (P m) (op ca)) \<Longrightarrow> preserves (P n) (authed co rq op)"
  unfolding authed_def by (intro preserves_bind authenticates serves)

lemma served:
  assumes "\<And>m ca. preserves (P m) (op ca)" and "authenticate co rq w = (Inr ca, wa)" and "P n wa"
  shows "P n (snd (authed co rq op w))"
  using serves [of op n ca, OF assms(1)] assms(2,3) by (simp add: preserves_def authed_def hbind_def [of "authenticate co rq"])

lemmas handlers = refuse required nonce authenticates answers

lemma record_handlers:
  "preserves (P n) (record_list co ca k query)" "preserves (P n) (record_read co ca k name version)"
  "preserves (P n) (record_history co ca k name)" "preserves (P n) (record_put co ca k name rq)"
  "preserves (P n) (record_delete co ca k name rq)" "preserves (P n) (audit_page co ca query)"
  unfolding record_list_def record_read_def record_history_def record_put_def record_delete_def audit_page_def
    check_signed_def
  by (intro steps handlers)+

lemma vault_handlers:
  "preserves (P n) (core_capabilities co)" "preserves (P n) (core_challenge co rq)"
  "preserves (P n) (core_create co rq)" "preserves (P n) (core_status co ca)"
  "preserves (P n) (core_descriptors co ca query)" "preserves (P n) (core_children co ca)"
  "preserves (P n) (core_put_children co ca rq)" "preserves (P n) (core_register co ca body)"
  "preserves (P n) (core_whoami ca)"
  unfolding core_capabilities_def core_challenge_def core_create_def core_status_def status_tokens_def
    core_descriptors_def core_children_def core_put_children_def core_register_def core_whoami_def
  by (intro steps handlers spends; auto simp: past_def)+

lemma critical_handlers:
  "preserves (P n) (core_revoke co ca i)" "preserves (P n) (core_report co body)"
  "preserves (P n) (core_rotate co ca body)" "preserves (P n) (core_delete_vault co ca)"
  unfolding core_revoke_def core_report_def core_rotate_def core_delete_vault_def
  by (intro steps handlers)+

lemma dispatch_keeps: "preserves (P n) (dispatch co rq)"
proof -
  have "preserves (P n) (dispatch_route co rq query params i)" for query params i
    unfolding dispatch_route_def
    by (cases i) (auto intro!: steps handlers record_handlers vault_handlers critical_handlers)
  then show ?thesis by (auto simp: dispatch_def split: prod.splits Lookup.splits)
qed

lemma call_keeps: "P n w \<Longrightarrow> P n (snd (core_call co rq w))"
  using dispatch_keeps [of n rq] by (simp add: core_call_def preserves_def split: prod.splits sum.splits)
    (metis snd_conv)

lemma calls_keep: "P n w \<Longrightarrow> P n (fold (\<lambda>rq w. snd (core_call co rq w)) rqs w)"
  by (induction rqs arbitrary: w) (simp_all add: call_keeps)

end

section \<open>The database invariant\<close>

lemma preserves_store_write:
  "(\<And>t d. R t d \<Longrightarrow> R t (snd (f d))) \<Longrightarrow> preserves (\<lambda>w. R (wd_tick w) (wd_db w)) (store_write conv f)"
  by (simp add: preserves_def store_write_def split_def Let_def)

lemma preserves_critical:
  "(\<And>t d h j. R t d \<Longrightarrow> R t (fst (snd (f h d j)))) \<Longrightarrow> preserves (\<lambda>w. R (wd_tick w) (wd_db w)) (critical co f)"
  by (simp add: preserves_def critical_def split_def Let_def)

text \<open>The database invariant, from an instant on.\<close>

definition db_from :: "crypto \<Rightarrow> nat \<Rightarrow> nat \<Rightarrow> db \<Rightarrow> bool" where
  "db_from c n t d \<longleftrightarrow> n \<le> t \<and> db_inv c d"

interpretation db_kept: handler_contract co "\<lambda>n w. db_from (co_crypto co) n (wd_tick w) (wd_db w)" for co
  by unfold_locales
    (auto intro!: preserves_store_write preserves_critical simp: db_from_def store_invs)

section \<open>Spent ids\<close>

text \<open>A spent id is there until the clock is past its expiry.\<close>

definition spent_from :: "Core \<Rightarrow> SpentKind \<times> bytes \<times> int \<Rightarrow> nat \<Rightarrow> nat \<Rightarrow> db \<Rightarrow> bool" where
  "spent_from co x n t d \<longleftrightarrow> n \<le> t \<and>
     (mono (co_clock co) \<longrightarrow> x \<in> set (spent d) \<or> snd (snd x) < co_clock co t)"

lemma spent_from_spend:
  assumes "past co n now" and "spent_from co x n t d"
  shows "spent_from co x n t (snd (spend k i e now d))"
proof -
  obtain m where m: "m < n" "now = co_clock co m" using assms(1) by (auto simp: past_def)
  obtain k' i' e' where x: "x = (k', i', e')" by (cases x) auto
  have "now \<le> co_clock co t" if "mono (co_clock co)"
    using that m assms(2) by (auto simp: spent_from_def mono_def)
  with assms(2) spend_keeps [of k' i' e' d k i e now] show ?thesis
    by (fastforce simp: spent_from_def x)
qed

lemma spent_from_tick:
  assumes "spent_from co x n t d"
  shows "spent_from co x (Suc t) (Suc t) d"
  using assms by (auto simp: spent_from_def mono_def intro: less_le_trans)

interpretation spent_kept: handler_contract co "\<lambda>n w. spent_from co x n (wd_tick w) (wd_db w)" for co x
proof (unfold_locales, goal_cases)
  case (2 n w)
  then show ?case by (simp add: spent_from_tick)
next
  case (4 n now conv k i e)
  then show ?case by (intro preserves_store_write spent_from_spend)
qed (auto intro!: preserves_store_write preserves_critical simp: spent_from_def spent_ops)

end
