(* ===== verification/Core_Access.thy ===== *)
theory Core_Access
  imports Core_Inv
begin

text \<open>
  What authentication does, case by case, and what a call does before and after it.
\<close>

section \<open>Authentication by cases\<close>

lemma spend_nonce_eq:
  "spend_nonce co params w =
     (let (r, d) = spend Nonce (nonce_id params) (i64_wrap (sp_ts params + 2 * MAX_SKEW_SECS))
            (co_clock co (wd_tick w)) (wd_db w)
      in (map_err (\<lambda>_. unauthorized) r, w\<lparr>wd_db := d, wd_tick := Suc (wd_tick w)\<rparr>))"
  by (simp add: spend_nonce_def handler_defs split_def Let_def)

lemma spend_only_spent: "snd (spend k i e now d) = d\<lparr>spent := spent (snd (spend k i e now d))\<rparr>"
  by (simp add: spend_def write_tx_def Let_def)

definition spent_only :: "World \<Rightarrow> World \<Rightarrow> bool" where
  "spent_only w w' \<longleftrightarrow> wd_files w' = wd_files w \<and> wd_db w' = (wd_db w)\<lparr>spent := spent (wd_db w')\<rparr>"

lemma spent_only_refl [simp]: "spent_only w w" "spent_only w (w\<lparr>wd_tick := t\<rparr>)"
  by (simp_all add: spent_only_def)

lemma spend_nonce_only: "spent_only w (snd (spend_nonce co params w))"
  using spend_only_spent by (simp add: spend_nonce_eq spent_only_def Let_def split_def)

lemma touch_ok: "fst (touch p now d) = Inr ()"
  by (simp add: touch_def write_tx_def Let_def)

text \<open>The key that has to have signed, and the principal it proves.\<close>

definition credential :: "db \<Rightarrow> SigParams \<Rightarrow> int \<Rightarrow> Key32 \<Rightarrow> Caller \<Rightarrow> bool" where
  "credential d params now public ca \<longleftrightarrow>
     vr_vault_id (ca_vault ca) = sp_vault_id params \<and>
     (case sp_actor params of
        SigActor.Owner \<Rightarrow> load_vault_by_id d (sp_vault_id params) = Some (ca_vault ca)
          \<and> ca_principal ca = Principal.Owner \<and> public = owner_sign_pub (ca_vault ca)
      | SigActor.Token i \<Rightarrow> (\<exists>t. token_by_id d i = Some t \<and> load_vault d (t_vault_pk t) = Some (ca_vault ca)
          \<and> ca_principal ca = Principal.Token t \<and> public = t_auth_pub t \<and> now < t_expires_at t))"

lemma load_by_id: "load_vault_by_id d i = Some row \<Longrightarrow> vr_vault_id row = i"
  by (auto simp: load_vault_by_id_def bind_eq_Some_conv vault_row_def Let_def dest: find_Some_set split: option.splits)

lemma verify_request_Inl: "verify_request co public rq params now = Inl e \<Longrightarrow> e = unauthorized"
  by (auto simp: verify_request_def Let_def map_err_def split: if_splits sum.splits)

lemma spend_nonce_result:
  obtains (spent) w' where "spend_nonce co params w = (Inr (), w')"
  | (refused) w' where "spend_nonce co params w = (Inl unauthorized, w')"
proof (cases "spend_nonce co params w")
  case (Pair r w')
  then show thesis
    using that by (cases r) (auto simp: spend_nonce_eq Let_def map_err_def split: prod.splits sum.splits)
qed

lemmas auth_run = hbind_def hlift_def hret_def hfail_def store_read_def ok_or_def

lemma owner_auth_cases:
  assumes "owner_auth co rq params now w = (res, w')"
  obtains (refused) "res = Inl unauthorized" "w' = w \<or> w' = snd (spend_nonce co params w)"
  | (ok) vault where "load_vault_by_id (wd_db w) (sp_vault_id params) = Some vault"
      "verify_request co (owner_sign_pub vault) rq params now = Inr ()" "spend_nonce co params w = (Inr (), w')"
      "res = Inr \<lparr>ca_vault = vault, ca_principal = Principal.Owner, ca_expires_at = expires_at co vault now\<rparr>"
proof (cases "\<exists>vault. load_vault_by_id (wd_db w) (sp_vault_id params) = Some vault
    \<and> verify_request co (owner_sign_pub vault) rq params now = Inr () \<and> \<not> expired co vault now")
  case True
  then obtain vault where vault: "load_vault_by_id (wd_db w) (sp_vault_id params) = Some vault"
    "verify_request co (owner_sign_pub vault) rq params now = Inr ()" "\<not> expired co vault now" by blast
  show thesis
  proof (cases rule: spend_nonce_result [of co params w])
    case (spent w1)
    with vault assms show thesis by (intro ok) (auto simp: owner_auth_def auth_run)
  next
    case (refused w1)
    with vault assms show thesis by (intro that(1)) (auto simp: owner_auth_def auth_run)
  qed
next
  case False
  with assms show thesis
    by (intro refused)
      (auto simp: owner_auth_def auth_run dest!: verify_request_Inl split: option.splits sum.splits if_splits)
qed

lemma token_auth_cases:
  assumes "token_auth co rq params i now w = (res, w')"
  obtains (refused) "res = Inl unauthorized" "w' = w \<or> w' = snd (spend_nonce co params w)"
  | (late) t :: TokenRow where "verify_request co (t_auth_pub t) rq params now = Inr ()"
      "res = Inl (core_error ErrorCode.TokenExpired ''this token has expired'')"
      "spend_nonce co params w = (Inr (), w')"
  | (ok) t vault where "token_by_id (wd_db w) i = Some t" "load_vault (wd_db w) (t_vault_pk t) = Some vault"
      "vr_vault_id vault = sp_vault_id params" "now < t_expires_at t"
      "verify_request co (t_auth_pub t) rq params now = Inr ()" "spend_nonce co params w = (Inr (), w')"
      "res = Inr \<lparr>ca_vault = vault, ca_principal = Principal.Token t, ca_expires_at = expires_at co vault now\<rparr>"
proof (cases "\<exists>t vault. token_by_id (wd_db w) i = Some t \<and> load_vault (wd_db w) (t_vault_pk t) = Some vault
    \<and> vr_vault_id vault = sp_vault_id params \<and> verify_request co (t_auth_pub t) rq params now = Inr () \<and> \<not> expired co vault now")
  case True
  then obtain t vault where t: "token_by_id (wd_db w) i = Some t" "load_vault (wd_db w) (t_vault_pk t) = Some vault"
    "vr_vault_id vault = sp_vault_id params" "verify_request co (t_auth_pub t) rq params now = Inr ()"
    "\<not> expired co vault now" by blast
  show thesis
  proof (cases rule: spend_nonce_result [of co params w])
    case (spent w1)
    show thesis
    proof (cases "t_expires_at t \<le> now")
      case True
      with t spent assms show thesis by (intro late [of t]) (auto simp: token_auth_def auth_run)
    next
      case False
      with t spent assms show thesis by (intro ok) (auto simp: token_auth_def auth_run)
    qed
  next
    case (refused w1)
    with t assms show thesis by (intro that(1)) (auto simp: token_auth_def auth_run)
  qed
next
  case False
  with assms show thesis
    by (intro refused)
      (auto simp: token_auth_def auth_run dest!: verify_request_Inl split: option.splits sum.splits if_splits)
qed

lemma authenticate_cases:
  assumes "authenticate co rq w = (res, w')"
  obtains (refused) "res = Inl unauthorized" "spent_only w w'"
  | (late) header params public where "rq_authorization rq = Some header"
      "sig_parse (co_crypto co) header = Inr params"
      "verify_request co public rq params (co_clock co (wd_tick w)) = Inr ()"
      "spend_nonce co params (w\<lparr>wd_tick := Suc (wd_tick w)\<rparr>) = (Inr (), w')"
      "res = Inl (core_error ErrorCode.TokenExpired ''this token has expired'')" "spent_only w w'"
  | (ok) header params public ca w1 where "rq_authorization rq = Some header"
      "sig_parse (co_crypto co) header = Inr params" "res = Inr ca"
      "credential (wd_db w) params (co_clock co (wd_tick w)) public ca"
      "verify_request co public rq params (co_clock co (wd_tick w)) = Inr ()"
      "spend_nonce co params (w\<lparr>wd_tick := Suc (wd_tick w)\<rparr>) = (Inr (), w1)"
      "w' = w1\<lparr>wd_db := snd (touch (pk (ca_vault ca)) (co_clock co (wd_tick w)) (wd_db w1))\<rparr>"
proof (cases "\<exists>header params. rq_authorization rq = Some header \<and> sig_parse (co_crypto co) header = Inr params")
  case False
  with assms show thesis
    by (intro refused) (auto simp: authenticate_def auth_run map_err_def split: option.splits sum.splits)
next
  case True
  then obtain header params where h: "rq_authorization rq = Some header" "sig_parse (co_crypto co) header = Inr params"
    by blast
  let ?now = "co_clock co (wd_tick w)" and ?w = "w\<lparr>wd_tick := Suc (wd_tick w)\<rparr>"
  let ?auth = "case sp_actor params of SigActor.Owner \<Rightarrow> owner_auth co rq params ?now
            | SigActor.Token i \<Rightarrow> token_auth co rq params i ?now"
  obtain r w1 where a: "?auth ?w = (r, w1)" by (cases "?auth ?w")
  have res: "(res, w') = (case r of Inl e \<Rightarrow> (Inl e, w1)
      | Inr ca \<Rightarrow> (Inr ca, w1\<lparr>wd_db := snd (touch (pk (ca_vault ca)) ?now (wd_db w1))\<rparr>))"
    using assms a
    by (cases r) (auto simp: authenticate_def auth_run h core_now_def map_err_def store_write_def split_def
        Let_def touch_ok)
  have only: "spent_only w w1" if "w1 = ?w \<or> w1 = snd (spend_nonce co params ?w)"
    using that spend_nonce_only [of ?w co params] by (auto simp: spent_only_def)
  show thesis
  proof (cases "sp_actor params")
    case Owner
    with a have "owner_auth co rq params ?now ?w = (r, w1)" by simp
    then show thesis
    proof (cases rule: owner_auth_cases)
      case refused
      with res only show thesis by (intro that(1)) auto
    next
      case (ok vault)
      let ?ca = "\<lparr>ca_vault = vault, ca_principal = Principal.Owner, ca_expires_at = expires_at co vault ?now\<rparr>"
      show thesis
        by (rule that(3) [OF h, of ?ca "owner_sign_pub vault" w1])
          (use ok res Owner load_by_id in \<open>auto simp: credential_def\<close>)
    qed
  next
    case (Token i)
    with a have "token_auth co rq params i ?now ?w = (r, w1)" by simp
    then show thesis
    proof (cases rule: token_auth_cases)
      case refused
      with res only show thesis by (intro that(1)) auto
    next
      case (late t)
      with res only [OF disjI2] h show thesis by (intro that(2) [of header params "t_auth_pub t"]) auto
    next
      case (ok t vault)
      let ?ca = "\<lparr>ca_vault = vault, ca_principal = Principal.Token t, ca_expires_at = expires_at co vault ?now\<rparr>"
      show thesis
        by (rule that(3) [OF h, of ?ca "t_auth_pub t" w1])
          (use ok res Token in \<open>auto simp: credential_def\<close>)
    qed
  qed
qed

section \<open>Calls on signed routes\<close>

text \<open>The routes that \<open>dispatch\<close> serves through \<open>authed\<close>; a vault's creation is signed too, by the
  key it registers.\<close>

definition signed_route :: "RouteId \<Rightarrow> bool" where
  "signed_route i \<longleftrightarrow> i \<notin> {RouteId.Capabilities, Challenges, RouteId.CreateVault, ReportToken, Healthz, Readyz}"

definition names_route :: "CanonicalRequest \<Rightarrow> RouteId \<Rightarrow> bool" where
  "names_route rq i \<longleftrightarrow>
     (\<exists>route params. lookup (rq_method rq) (fst (split_query (rq_path_and_query rq))) = Found route params \<and> ro_id route = i)"

lemma call_signed:
  assumes "names_route rq i" and "signed_route i"
  shows "\<exists>op. dispatch co rq = authed co rq op
    \<and> (\<forall>P n ca. handler_contract co P \<longrightarrow> preserves (P n) (op ca))"
proof -
  obtain route params where r: "lookup (rq_method rq) (fst (split_query (rq_path_and_query rq))) = Found route params"
    "ro_id route = i" using assms(1) by (auto simp: names_route_def)
  obtain path query where q: "split_query (rq_path_and_query rq) = (path, query)" by (cases "split_query (rq_path_and_query rq)")
  have "\<exists>op. dispatch_route co rq query params i = authed co rq op
      \<and> (\<forall>P n ca. handler_contract co P \<longrightarrow> preserves (P n) (op ca))"
    using assms(2)
    by (cases i; simp add: signed_route_def dispatch_route_def)
      (rule exI, rule conjI, rule refl, intro allI impI preserving handler_contract.record_handlers
        handler_contract.vault_handlers handler_contract.critical_handlers, assumption)+
  then show ?thesis using r by (simp add: dispatch_def q)
qed

lemma call_unauthenticated:
  assumes "names_route rq i" and "signed_route i" and "authenticate co rq w = (Inl e, w')"
  shows "core_call co rq w = (to_response e, w')"
proof -
  obtain op where "dispatch co rq = authed co rq op" using call_signed [OF assms(1,2), of co] by (elim exE conjE)
  with assms(3) show ?thesis by (simp add: core_call_def authed_def hbind_def)
qed

lemma call_authenticated:
  assumes "names_route rq i" and "signed_route i" and "authenticate co rq w = (Inr ca, wa)"
    and "handler_contract co P" and "P n wa"
  shows "P n (snd (core_call co rq w))"
proof -
  obtain op where op: "dispatch co rq = authed co rq op"
    and keeps: "\<forall>P n ca. handler_contract co P \<longrightarrow> preserves (P n) (op ca)"
    using call_signed [OF assms(1,2), of co] by (elim exE conjE)
  have "P n (snd (authed co rq op w))"
    by (rule handler_contract.served [OF assms(4) keeps [rule_format, OF assms(4)] assms(3,5)])
  moreover have "snd (core_call co rq w) = snd (dispatch co rq w)"
    by (simp add: core_call_def split: prod.splits sum.splits)
  ultimately show ?thesis by (simp add: op)
qed

section \<open>A nonce is good for one request\<close>

lemma sig_parse_ts: "sig_parse c header = Inr params \<Longrightarrow> i64_range (sp_ts params)"
  by (auto simp: sig_parse_def rbind_eq_Inr split: if_splits dest: parse_i64_range)

lemma skew_bound:
  assumes "verify_request co public rq params now = Inr ()" and "0 \<le> now" and "now < 2 ^ 62"
    and "0 \<le> sp_ts params" and "i64_range (sp_ts params)"
  shows "\<bar>now - sp_ts params\<bar> \<le> MAX_SKEW_SECS"
proof -
  have "i64_abs (i64_sub now (sp_ts params)) = \<bar>now - sp_ts params\<bar>"
    using assms(2-5) by (intro skew_ok) (auto simp: i64_range_def i64_min_def i64_max_def)
  with assms(1) show ?thesis by (simp add: verify_request_def split: if_splits)
qed

text \<open>A clock that never runs back, within the range of dates.\<close>

definition sane_clock :: "Core \<Rightarrow> bool" where
  "sane_clock co \<longleftrightarrow> mono (co_clock co) \<and> (\<forall>n. 0 \<le> co_clock co n \<and> co_clock co n < 2 ^ 62)"

lemma nonce_recorded:
  assumes "authenticate co rq w = (Inr ca, wa)" and "rq_authorization rq = Some header"
    and "sig_parse (co_crypto co) header = Inr params"
  shows "(Nonce, nonce_id params, i64_wrap (sp_ts params + 2 * MAX_SKEW_SECS)) \<in> set (spent (wd_db wa))"
  using assms(1)
proof (cases rule: authenticate_cases)
  case (ok header' params' public ca' w1)
  with assms(2,3) have "spend_nonce co params (w\<lparr>wd_tick := Suc (wd_tick w)\<rparr>) = (Inr (), w1)" by simp
  then have "fst (spend Nonce (nonce_id params) (i64_wrap (sp_ts params + 2 * MAX_SKEW_SECS))
      (co_clock co (Suc (wd_tick w))) (wd_db w)) = Inr ()"
    and "wd_db w1 = snd (spend Nonce (nonce_id params) (i64_wrap (sp_ts params + 2 * MAX_SKEW_SECS))
      (co_clock co (Suc (wd_tick w))) (wd_db w))"
    by (auto simp: spend_nonce_eq Let_def map_err_def split_def split: sum.splits)
  with spend_enters have "(Nonce, nonce_id params, i64_wrap (sp_ts params + 2 * MAX_SKEW_SECS)) \<in> set (spent (wd_db w1))"
    by simp
  with ok(7) show ?thesis by (simp add: spent_touch)
qed simp_all

lemma nonce_refused:
  assumes "(Nonce, nonce_id params, e) \<in> set (spent (wd_db w))" and "co_clock co (wd_tick w) \<le> e"
  shows "fst (spend_nonce co params w) = Inl unauthorized"
  using spend_refuses [OF assms] by (simp add: spend_nonce_eq Let_def map_err_def split_def)

lemma reused_nonce:
  assumes "sane_clock co" and "rq_authorization rq = Some header" and "sig_parse (co_crypto co) header = Inr params"
    and "0 \<le> sp_ts params" and "co_clock co (Suc (wd_tick w)) \<le> co_clock co (wd_tick w) + MAX_SKEW_SECS"
    and "spent_from co (Nonce, nonce_id params, i64_wrap (sp_ts params + 2 * MAX_SKEW_SECS)) 0 (wd_tick w) (wd_db w)"
  shows "fst (authenticate co rq w) = Inl unauthorized"
proof -
  let ?now = "co_clock co (wd_tick w)" and ?w = "w\<lparr>wd_tick := Suc (wd_tick w)\<rparr>"
  have no: "False" if v: "verify_request co public rq params ?now = Inr ()" and s: "fst (spend_nonce co params ?w) = Inr ()" for public
  proof -
    have now: "0 \<le> ?now" "?now < 2 ^ 62" "mono (co_clock co)" using assms(1) by (simp_all add: sane_clock_def)
    have near: "\<bar>?now - sp_ts params\<bar> \<le> MAX_SKEW_SECS"
      by (rule skew_bound [OF v now(1,2) assms(4) sig_parse_ts [OF assms(3)]])
    then have e: "i64_wrap (sp_ts params + 2 * MAX_SKEW_SECS) = sp_ts params + 2 * MAX_SKEW_SECS"
      using now assms(4) by (intro i64_wrap_id) (auto simp: i64_range_def i64_min_def i64_max_def MAX_SKEW_SECS_def)
    have "(Nonce, nonce_id params, sp_ts params + 2 * MAX_SKEW_SECS) \<in> set (spent (wd_db ?w))"
      using assms(6) near now(3) unfolding e by (auto simp: spent_from_def MAX_SKEW_SECS_def)
    moreover have "co_clock co (wd_tick ?w) \<le> sp_ts params + 2 * MAX_SKEW_SECS" using near assms(5) by simp
    ultimately show False using nonce_refused [of params _ ?w co] s by simp
  qed
  obtain res w' where a: "authenticate co rq w = (res, w')" by (cases "authenticate co rq w")
  then show ?thesis
    by (cases rule: authenticate_cases) (use assms(2,3) no a in \<open>auto\<close>)
qed

end
