(* ===== verification/Core_Example.thy ===== *)
theory Core_Example
  imports Core_Access Store_Props
begin

text \<open>
  A concrete server for evaluations: the null cipher suite, a clock at 100 that gives the same
  second at every reading, the default policy, and the databases of the store's own example.
\<close>

definition ex_readers :: Readers where
  "ex_readers = \<lparr>rd_challenge = (\<lambda>b. Inr ()), rd_create = (\<lambda>b. Inl (1, 1)), rd_put = (\<lambda>b. Inl (1, 1)),
     rd_delete = (\<lambda>b. Inl (1, 1)), rd_children = (\<lambda>b. Inl (1, 1)), rd_register = (\<lambda>b. Inl (1, 1)),
     rd_report = (\<lambda>b. Inl (1, 1)), rd_rotation = (\<lambda>b. Inl (1, 1))\<rparr>"

definition ex_core :: Core where
  "ex_core = \<lparr>co_crypto = null_crypto, co_policy = default_policy, co_clock = (\<lambda>n. 100), co_codec = ex_codec,
     co_fault = (\<lambda>n. NoFault), co_readers = ex_readers\<rparr>"

definition ex_world :: "db \<Rightarrow> World" where
  "ex_world d = \<lparr>wd_db = d, wd_files = [], wd_tick = 0\<rparr>"

definition owner_params :: SigParams where
  "owner_params = \<lparr>sp_actor = SigActor.Owner, sp_vault_id = VaultId (replicate 16 1), sp_ts = 100,
     sp_nonce = replicate 16 2, sp_sig = replicate 64 9\<rparr>"

definition token_params :: SigParams where
  "token_params = \<lparr>sp_actor = SigActor.Token (TokenId (replicate 16 7)), sp_vault_id = VaultId (replicate 16 1),
     sp_ts = 100, sp_nonce = replicate 16 3, sp_sig = replicate 64 7\<rparr>"

definition ex_call :: "string \<Rightarrow> string \<Rightarrow> SigParams \<Rightarrow> CanonicalRequest" where
  "ex_call m path p = \<lparr>rq_method = m, rq_path_and_query = path, rq_authorization = Some (to_header_value null_crypto p),
     rq_if_match = None, rq_if_none_match = None, rq_body = []\<rparr>"

lemma ex_headers:
  "sig_parse null_crypto (to_header_value null_crypto owner_params) = Inr owner_params"
  "sig_parse null_crypto (to_header_value null_crypto token_params) = Inr token_params"
  by (rule sig_parse_header [OF null_text_codecs],
      simp add: owner_params_def token_params_def wf_sig_params_def wf_id_defs i64_range_def i64_min_def i64_max_def)+

lemma ex_routes:
  "names_route (ex_call ''GET'' ''/v1/vault'' p) Status"
  "names_route (ex_call ''DELETE'' ''/v1/vault'' p) RouteId.DeleteVault"
  by (simp_all add: names_route_def ex_call_def split_query_def lookup_def ROUTES_def core_route_def shell_route_def
      bind_path_def)

lemmas core_run = hbind_def hlift_def hret_def hfail_def store_read_def store_write_def hafter_def core_now_def
  authenticate_def owner_auth_def token_auth_def spend_nonce_def spend_def verify_request_def expired_def expires_at_def
  idle_secs_def filter_option_def default_policy_def nonce_id_def touch_def MAX_SKEW_SECS_def

lemmas core_params = ex_core_def ex_call_def ex_world_def ex_headers owner_params_def token_params_def

lemmas i64_run = i64_abs_def i64_sub_def i64_wrap_def

lemma null_verify [simp]:
  "verify_ed25519 null_crypto k m s w = (if s64 s = k32 k @ k32 k then Inr () else Inl (IntegrityError.BadSignature w))"
  by (simp add: verify_ed25519_def null_crypto_def)

lemma ex_owner: "\<exists>ca w. authenticate ex_core (ex_call m path owner_params) (ex_world ex_db1) = (Inr ca, w)"
  by (simp add: core_run ex_core_def ex_call_def ex_world_def ex_headers ex_db1_def create_vault_def tx_defs vault_defs
      empty_db_def, simp add: core_run owner_params_def ex_new_vault_def tx_defs vault_defs i64_run flip: replicate_add)

section \<open>A vault created through the API\<close>

definition ex_first :: Descriptor where
  "ex_first = ex_d1\<lparr>d_vault_id := VaultId (replicate 16 0)\<rparr>"

definition ex_creation :: CreateVaultRequest where
  "ex_creation = \<lparr>cv_challenge = None, cv_nonce = None, cv_vault_id = VaultId (replicate 16 0),
     cv_owner_sign_pub = Key32 (replicate 32 9), cv_owner_box_pub = Key32 (replicate 32 8),
     cv_descriptor = signed_descriptor ex_first (Sig64 (replicate 64 9)), cv_owner_bundle = ex_bundle\<rparr>"

definition ex_creating :: Core where
  "ex_creating = ex_core\<lparr>co_readers := ex_readers\<lparr>rd_create := (\<lambda>b. Inr ex_creation)\<rparr>\<rparr>"

definition creation_params :: SigParams where
  "creation_params = owner_params\<lparr>sp_vault_id := VaultId (replicate 16 0)\<rparr>"

lemma creation_header: "sig_parse null_crypto (to_header_value null_crypto creation_params) = Inr creation_params"
  by (rule sig_parse_header [OF null_text_codecs])
    (simp add: creation_params_def owner_params_def wf_sig_params_def wf_id_defs i64_range_def i64_min_def i64_max_def)

lemma ex_first_wf: "wf_descriptor ex_first"
  by (simp add: ex_first_def ex_d1_def wf_descriptor_def wf_id_defs i64_range_def i64_min_def i64_max_def)

lemma creation_checks:
  "check_first_generation null_crypto ex_creation = Inr ()"
  "from_owner_sign_pub null_crypto (cv_owner_sign_pub ex_creation) = cv_vault_id ex_creation"
proof -
  have key: "from_owner_sign_pub null_crypto k = VaultId (replicate 16 0)" for k
    by (simp add: from_owner_sign_pub_def null_crypto_def)
  then show "from_owner_sign_pub null_crypto (cv_owner_sign_pub ex_creation) = cv_vault_id ex_creation"
    by (simp add: ex_creation_def)
  have "signed_descriptor_verify null_crypto (signed_descriptor ex_first (Sig64 (replicate 64 9))) (Key32 (replicate 32 9)) = Inr ex_first"
    by (simp add: signed_descriptor_verify_def signed_descriptor_def descriptor_decode_encode [OF ex_first_wf] flip: replicate_add)
  then show "check_first_generation null_crypto ex_creation = Inr ()"
    by (simp add: check_first_generation_def ex_creation_def verify_for_def key ex_first_def ex_d1_def is_first_def
        bundle_verify_def ex_bundle_def flip: replicate_add)
qed

lemma creation_route:
  "lookup ''POST'' ''/v1/vaults'' = Found (core_route ''POST'' ''/v1/vaults'' AuthScheme.Owner RouteId.CreateVault) []"
  by (simp add: lookup_def ROUTES_def core_route_def shell_route_def bind_path_def)

lemma creation_verified:
  "verify_request ex_creating (cv_owner_sign_pub ex_creation) (ex_call m path creation_params) creation_params 100 = Inr ()"
  by (simp add: verify_request_def ex_creating_def ex_core_def ex_creation_def creation_params_def owner_params_def
      i64_run MAX_SKEW_SECS_def flip: replicate_add)

lemma ex_created:
  "length (vaults (wd_db (snd (core_call ex_creating (ex_call ''POST'' ''/v1/vaults'' creation_params) (ex_world empty_db))))) = 1"
proof -
  have co: "co_crypto ex_creating = null_crypto" "co_clock ex_creating = (\<lambda>n. 100)" "co_policy ex_creating = default_policy"
    "rd_create (co_readers ex_creating) = (\<lambda>b. Inr ex_creation)"
    by (simp_all add: ex_creating_def ex_core_def)
  have p: "sp_actor creation_params = SigActor.Owner" "sp_vault_id creation_params = cv_vault_id ex_creation"
    by (simp_all add: creation_params_def owner_params_def ex_creation_def)
  have "dispatch ex_creating (ex_call ''POST'' ''/v1/vaults'' creation_params)
      = core_create ex_creating (ex_call ''POST'' ''/v1/vaults'' creation_params)"
    by (simp add: dispatch_def split_query_def ex_call_def creation_route dispatch_route_def core_route_def)
  then show ?thesis
    using creation_verified [of "''POST''" "''/v1/vaults''"]
    by (simp add: core_call_def core_create_def auth_run core_now_def json_def co ex_call_def creation_header p creation_checks
        default_policy_def AllowAll_def spend_nonce_def store_write_def spend_def ex_world_def tx_defs create_vault_def
        vault_defs empty_db_def split: prod.split sum.split)
qed

end
