(* ===== verification/Core_Authentic.thy ===== *)
theory Core_Authentic
  imports Core_Access Store_Critical
begin

text \<open>
  Everything a vault serves is signed: its descriptor and owner bundle by the owner key whose hash is
  the vault id, its records by the writer keys of that descriptor, its tokens' bundles and its
  children record by the owner. The store does not check signatures; the handlers do, before
  they write. This theory states the invariant and shows what each store operation needs to keep it.
\<close>

section \<open>What signed means\<close>

definition current_descriptor :: "crypto \<Rightarrow> db \<Rightarrow> VaultRec \<Rightarrow> Descriptor \<Rightarrow> bool" where
  "current_descriptor c d v desc \<longleftrightarrow> (\<exists>x. find_descriptor (v_pk v) (v_generation v) d = Some x
     \<and> verify_for c (de_descriptor x) (v_vault_id v) (v_owner_sign_pub v) = Inr desc
     \<and> d_generation desc = v_generation v)"

definition stored_context :: "crypto \<Rightarrow> VaultId \<Rightarrow> RecordKind \<Rightarrow> 'a VersionRow_scheme \<Rightarrow> RecordContext" where
  "stored_context c i k r = record_context c i (vn_generation r) k (vn_name r) (vn_version r) (vn_written_at r)
     (vn_name_ct r) (vn_value_ct r)"

definition record_signed :: "crypto \<Rightarrow> VaultRec \<Rightarrow> Descriptor \<Rightarrow> RecordKind \<Rightarrow> 'a VersionRow_scheme \<Rightarrow> bool" where
  "record_signed c v desc k r \<longleftrightarrow> vn_generation r = v_generation v
     \<and> record_verify c (stored_context c (v_vault_id v) k r) (writer_pub desc k) (vn_sig r) = Inr ()"

definition token_signed :: "crypto \<Rightarrow> VaultRec \<Rightarrow> TokenRow \<Rightarrow> bool" where
  "token_signed c v t \<longleftrightarrow> t_generation t = v_generation v
     \<and> bundle_verify c (t_bundle t) (v_owner_sign_pub v) (v_vault_id v) (t_id t) (scope_code (t_scope t)) (v_generation v)
         = Inr ()"

definition owner_signed :: "crypto \<Rightarrow> VaultRec \<Rightarrow> bool" where
  "owner_signed c v \<longleftrightarrow> bundle_verify c (v_owner_bundle v) (v_owner_sign_pub v) (v_vault_id v)
     OWNER_TOKEN_ID OWNER_SCOPE_CODE (v_generation v) = Inr ()"

definition vault_authentic :: "crypto \<Rightarrow> db \<Rightarrow> VaultRec \<Rightarrow> bool" where
  "vault_authentic c d v \<longleftrightarrow> (\<exists>desc. current_descriptor c d v desc \<and> owner_signed c v
     \<and> (\<forall>x \<in> set (descriptors d). de_pk x = v_pk v \<longrightarrow> de_generation x \<le> v_generation v)
     \<and> (\<forall>k. \<forall>r \<in> set (records d k). vn_pk r = v_pk v \<longrightarrow> record_signed c v desc k r)
     \<and> (\<forall>t \<in> set (tokens d). t_vault_pk t = v_pk v \<longrightarrow> token_signed c v t)
     \<and> (\<forall>b. (v_pk v, b) \<in> set (children d) \<longrightarrow> children_blob_verify c b (v_vault_id v) (v_owner_sign_pub v) = Inr ()))"

definition authentic :: "crypto \<Rightarrow> db \<Rightarrow> bool" where
  "authentic c d \<longleftrightarrow> (\<forall>v \<in> set (vaults d). vault_authentic c d v)"

text \<open>The fields of a vault row the invariant reads.\<close>

definition auth_key :: "VaultRec \<Rightarrow> VaultPk \<times> VaultId \<times> Key32 \<times> u32 \<times> SignedBundle" where
  "auth_key v = (v_pk v, v_vault_id v, v_owner_sign_pub v, v_generation v, v_owner_bundle v)"

lemma auth_key_cong:
  assumes "auth_key v = auth_key u" and "descriptors d' = descriptors d"
  shows "current_descriptor c d' v = current_descriptor c d u" "owner_signed c v = owner_signed c u"
    "record_signed c v desc k r = record_signed c u desc k r" "token_signed c v t = token_signed c u t"
  using assms
  by (auto simp: auth_key_def current_descriptor_def find_descriptor_def owner_signed_def record_signed_def
      token_signed_def)

text \<open>Rows may go, and new rows may come when they are signed for the vault they belong to.\<close>

lemma authentic_step:
  assumes "authentic c d" and "auth_key ` set (vaults d') \<subseteq> auth_key ` set (vaults d)"
    and "descriptors d' = descriptors d"
    and "\<And>k r v desc. r \<in> set (records d' k) \<Longrightarrow> r \<notin> set (records d k) \<Longrightarrow> v \<in> set (vaults d) \<Longrightarrow> v_pk v = vn_pk r \<Longrightarrow>
      current_descriptor c d v desc \<Longrightarrow> record_signed c v desc k r"
    and "\<And>t v. t \<in> set (tokens d') \<Longrightarrow> t \<notin> set (tokens d) \<Longrightarrow> v \<in> set (vaults d) \<Longrightarrow> v_pk v = t_vault_pk t \<Longrightarrow> token_signed c v t"
    and "\<And>b v. (v_pk v, b) \<in> set (children d') \<Longrightarrow> (v_pk v, b) \<notin> set (children d) \<Longrightarrow> v \<in> set (vaults d) \<Longrightarrow>
      children_blob_verify c b (v_vault_id v) (v_owner_sign_pub v) = Inr ()"
  shows "authentic c d'"
  unfolding authentic_def
proof
  fix v assume "v \<in> set (vaults d')"
  with assms(2) obtain u where u: "u \<in> set (vaults d)" and key: "auth_key v = auth_key u" by blast
  note cong = auth_key_cong [OF key assms(3)]
  have eq: "v_pk v = v_pk u" "v_vault_id v = v_vault_id u" "v_owner_sign_pub v = v_owner_sign_pub u"
    "v_generation v = v_generation u" using key by (simp_all add: auth_key_def)
  obtain desc where desc: "current_descriptor c d u desc" "owner_signed c u"
    "\<forall>x \<in> set (descriptors d). de_pk x = v_pk u \<longrightarrow> de_generation x \<le> v_generation u"
    "\<forall>k. \<forall>r \<in> set (records d k). vn_pk r = v_pk u \<longrightarrow> record_signed c u desc k r"
    "\<forall>t \<in> set (tokens d). t_vault_pk t = v_pk u \<longrightarrow> token_signed c u t"
    "\<forall>b. (v_pk u, b) \<in> set (children d) \<longrightarrow> children_blob_verify c b (v_vault_id u) (v_owner_sign_pub u) = Inr ()"
    using assms(1) u unfolding authentic_def vault_authentic_def by blast
  have "\<forall>k. \<forall>r \<in> set (records d' k). vn_pk r = v_pk u \<longrightarrow> record_signed c u desc k r"
    using assms(4) [OF _ _ u _ desc(1)] desc(4) by metis
  moreover have "\<forall>t \<in> set (tokens d'). t_vault_pk t = v_pk u \<longrightarrow> token_signed c u t"
    using assms(5) [OF _ _ u] desc(5) by metis
  moreover have "\<forall>b. (v_pk u, b) \<in> set (children d') \<longrightarrow> children_blob_verify c b (v_vault_id u) (v_owner_sign_pub u) = Inr ()"
    using assms(6) [OF _ _ u] desc(6) by metis
  ultimately show "vault_authentic c d' v"
    using desc(1,2,3) unfolding vault_authentic_def cong eq assms(3) by blast
qed

lemma authentic_rows:
  assumes "authentic c d" and "auth_key ` set (vaults d') \<subseteq> auth_key ` set (vaults d)"
    and "descriptors d' = descriptors d" and "\<And>k. set (records d' k) \<subseteq> set (records d k)"
    and "set (tokens d') \<subseteq> set (tokens d)" and "set (children d') \<subseteq> set (children d)"
  shows "authentic c d'"
  using assms(1-3) by (rule authentic_step) (use assms(4-6) in blast)+

lemma audit_only_auth_keys: "audit_only d d' \<Longrightarrow> auth_key ` set (vaults d') = auth_key ` set (vaults d)"
  using arg_cong [OF audit_only_vaults [of d d' auth_key], of set] by (simp add: auth_key_def unaudited_def)

lemma update_vault_auth_keys:
  assumes "\<And>v. auth_key (f v) = auth_key v"
  shows "auth_key ` set (vaults (update_vault p f d)) = auth_key ` set (vaults d)"
proof -
  have "map auth_key (vaults (update_vault p f d)) = map auth_key (vaults d)"
    by (simp add: vaults_update_vault assms)
  from arg_cong [OF this, of set] show ?thesis by simp
qed

lemma authentic_audit_only: "authentic c d \<Longrightarrow> audit_only d d' \<Longrightarrow> authentic c d'"
  by (erule authentic_rows) (simp_all add: audit_only_auth_keys audit_only_fields)

lemma update_vault_authentic:
  assumes "\<And>v. auth_key (f v) = auth_key v" and "authentic c d"
  shows "authentic c (update_vault p f d)"
  using assms(2) by (rule authentic_rows) (simp_all add: update_vault_auth_keys [OF assms(1)])

section \<open>Operations\<close>

lemma version_rec_fields:
  "vn_pk (version_rec c p r) = p" "vn_generation (version_rec c p r) = vn_generation r"
  "vn_written_at (version_rec c p r) = vn_written_at r" "vn_name_ct (version_rec c p r) = vn_name_ct r"
  "vn_sig (version_rec c p r) = vn_sig r" "vn_name (version_rec c p r) = vn_name r"
  "vn_version (version_rec c p r) = vn_version r" "vn_value_ct (version_rec c p r) = vn_value_ct r"
  by (simp_all add: version_rec_def VersionRow.defs VersionRec.defs)

lemma same_pk: "db_inv c d \<Longrightarrow> v \<in> set (vaults d) \<Longrightarrow> u \<in> set (vaults d) \<Longrightarrow> v_pk v = v_pk u \<Longrightarrow> v = u"
  by (auto simp: db_inv_def vault_ok_def distinct_map inj_on_def)

lemma load_vault_rec:
  assumes "load_vault d p = Some row"
  obtains v where "v \<in> set (vaults d)" "v_pk v = p" "vault_row d v = Some row"
  using load_vault_find [OF assms] find_vault_in by blast

lemma loaded_generation:
  assumes "db_inv c d" and "load_vault d p = Some row" and "v \<in> set (vaults d)" and "v_pk v = p"
  shows "generation row = v_generation v"
proof -
  obtain u where u: "u \<in> set (vaults d)" "v_pk u = p" "vault_row d u = Some row" using assms(2) by (rule load_vault_rec)
  then have "u = v" using same_pk [OF assms(1) u(1) assms(3)] assms(4) by simp
  with u(3) show ?thesis by (auto simp: vault_row_def)
qed

text \<open>A write whose signature verifies under the current descriptor of its vault.\<close>

definition write_signed :: "crypto \<Rightarrow> db \<Rightarrow> VaultPk \<Rightarrow> RecordKind \<Rightarrow> NameHmac \<Rightarrow> RecordWrite \<Rightarrow> bool" where
  "write_signed c d p k n w \<longleftrightarrow> (\<forall>v \<in> set (vaults d). \<forall>desc. v_pk v = p \<longrightarrow> current_descriptor c d v desc \<longrightarrow>
     record_verify c (record_context c (v_vault_id v) (w_generation w) k n (w_version w) (w_written_at w)
       (w_name_ct w) (w_value_ct w)) (writer_pub desc k) (w_sig w) = Inr ())"

lemma write_version_authentic:
  assumes "authentic c d" and "db_inv c d" and "load_vault d p = Some vault" and "w_generation w = generation vault"
    and "write_signed c d p k n w"
    and "write_version c k p (version_of_write n (w_version w) w actor) pruned used ev now d = Inr d'"
  shows "authentic c d'"
proof -
  let ?r = "version_rec c p (version_of_write n (w_version w) w actor)"
  let ?d = "after_write k p n ?r (fst ` set pruned) used d"
  have "authentic c ?d"
    using assms(1)
  proof (rule authentic_step)
    show "auth_key ` set (vaults ?d) \<subseteq> auth_key ` set (vaults d)"
      unfolding after_write_def by (subst update_vault_auth_keys) (simp_all add: auth_key_def)
    fix k' r v desc
    assume r: "r \<in> set (records ?d k')" "r \<notin> set (records d k')" and v: "v \<in> set (vaults d)" "v_pk v = vn_pk r"
      and desc: "current_descriptor c d v desc"
    have eq: "k' = k" "r = ?r" using r by (auto simp: after_write_def split: if_splits)
    then have p: "v_pk v = p" using v by (simp add: version_rec_fields)
    then have "record_verify c (record_context c (v_vault_id v) (w_generation w) k n (w_version w) (w_written_at w)
       (w_name_ct w) (w_value_ct w)) (writer_pub desc k) (w_sig w) = Inr ()"
      using assms(5) v(1) desc unfolding write_signed_def by blast
    moreover have "w_generation w = v_generation v" using loaded_generation [OF assms(2,3) v(1) p] assms(4) by simp
    ultimately show "record_signed c v desc k' r"
      by (simp add: eq record_signed_def stored_context_def version_rec_fields version_of_write_def)
  qed (auto simp: after_write_def)
  moreover have "audit_only ?d d'" using append_audit_only [OF write_version_ok [OF assms(6)]] by simp
  ultimately show ?thesis by (rule authentic_audit_only)
qed

lemma put_record_authentic:
  assumes "authentic c d" and "db_inv c d" and "write_signed c d p k n w"
  shows "authentic c (snd (put_record c p k n pre w ctx l d))"
proof -
  obtain res d' where put: "put_record c p k n pre w ctx l d = (res, d')" by (cases "put_record c p k n pre w ctx l d")
  then have "authentic c d'"
  proof (cases rule: put_record_cases)
    case (ok vault value_ct nv pruned used)
    from put_guards_ok(1,4) [OF ok(3)] write_version_authentic [OF assms(1,2) ok(2) _ assms(3)] ok(4) show ?thesis by blast
  qed (use assms(1) authentic_audit_only append_audit_only in blast)+
  then show ?thesis by (simp add: put)
qed

lemma delete_record_authentic:
  assumes "authentic c d" and "db_inv c d" and "write_signed c d p k n w"
  shows "authentic c (snd (delete_record c p k n m w ctx l d))"
proof -
  obtain res d' where del: "delete_record c p k n m w ctx l d = (res, d')" by (cases "delete_record c p k n m w ctx l d")
  then have "authentic c d'"
  proof (cases rule: delete_record_cases)
    case (ok vault cur nv pruned used)
    from ok(4) have "w_generation w = generation vault" "nv = w_version w"
      by (auto simp: delete_guards_def Let_def split: if_splits)
    with write_version_authentic [OF assms(1,2) ok(2) _ assms(3)] ok(5) show ?thesis by blast
  qed (use assms(1) authentic_audit_only append_audit_only in blast)+
  then show ?thesis by (simp add: del)
qed

lemma record_event_authentic: "authentic c d \<Longrightarrow> authentic c (snd (record_event c p e now d))"
  unfolding record_event_def
  by (rule write_tx_inv [where P = "authentic c"])
    (auto simp: rbind_eq_Inr split: if_splits intro: authentic_audit_only append_audit_only)

lemma spent_authentic: "authentic c (d\<lparr>spent := s\<rparr>) = authentic c d" "authentic c (d\<lparr>last_applied := n\<rparr>) = authentic c d"
  by (simp_all add: authentic_def vault_authentic_def current_descriptor_def find_descriptor_def)

lemma touch_authentic: "authentic c d \<Longrightarrow> authentic c (snd (touch p now d))"
proof -
  assume a: "authentic c d"
  have "authentic c (update_vault p (\<lambda>v. if v_last_active_at v < now then v\<lparr>v_last_active_at := now\<rparr> else v) d)"
    by (rule update_vault_authentic [OF _ a]) (simp add: auth_key_def)
  with a show ?thesis by (simp add: touch_def Let_def write_tx_def)
qed

lemma bump_authentic: "authentic c d \<Longrightarrow> authentic c (bump_revision p d)"
  unfolding bump_revision_def
  by (rule update_vault_authentic) (simp_all add: auth_key_def)

lemma journal_authentic: "journal op now h d j = (Inr d', j') \<Longrightarrow> authentic c d \<Longrightarrow> authentic c d'"
  by (auto simp: journal_Inr spent_authentic)

lemma refuse_with_authentic: "refuse_with c' p ev now d e = Inr (r, d') \<Longrightarrow> authentic c d \<Longrightarrow> authentic c d'"
  by (auto simp: refuse_with_def rbind_eq_Inr intro: authentic_audit_only append_audit_only)

lemma spend_authentic: "authentic c d \<Longrightarrow> authentic c (snd (spend k i e now d))"
  using spend_only_spent [of k i e now d] spent_authentic(1) by metis

lemma delete_tokens_authentic:
  assumes "delete_tokens p ids d = (rm, d')" and "authentic c d"
  shows "authentic c d'"
  using assms(2) by (rule authentic_rows) (use delete_tokens_eq [OF assms(1)] in auto)

lemma revoke_tokens_authentic:
  assumes "authentic c d"
  shows "authentic c (fst (snd (revoke_tokens c' p ids rep ctx h d j)))"
  unfolding revoke_tokens_def
proof (rule write_hooked_inv [where P = "authentic c", OF assms], goal_cases)
  case (1 r d' j')
  obtain rm d1 where rm: "delete_tokens p ids d = (rm, d1)" by (cases "delete_tokens p ids d")
  from 1 rm obtain d2 j1 op where
      each: "audit_each c' p (cx_actor ctx) (revoke_action rep) (cx_now ctx) rm (bump_revision p d1) = Inr d2"
    and j: "journal op (cx_now ctx) h d2 j = (Inr d', j1)"
    by (auto simp: rbind_eq_Inr Let_def split: option.splits if_splits sum.splits prod.splits)
  have "authentic c d2"
    by (rule authentic_audit_only [OF _ audit_each_only [OF each]]) (intro bump_authentic delete_tokens_authentic [OF rm] assms)
  then show ?case by (rule journal_authentic [OF j])
qed

lemma delete_vault_rows_authentic:
  assumes "authentic c d"
  shows "authentic c (delete_vault_rows p d)"
proof -
  have "find_descriptor q g (delete_vault_rows p d) = find_descriptor q g d" if "q \<noteq> p" for q g
    using that find_filter [of "\<lambda>x. de_pk x = q \<and> de_generation x = g" "\<lambda>x. de_pk x \<noteq> p" "descriptors d"]
    by (auto simp: find_descriptor_def delete_vault_rows_def)
  with assms show ?thesis
    unfolding authentic_def vault_authentic_def
    by (fastforce simp: current_descriptor_def delete_vault_rows_def)
qed

lemma delete_vault_authentic:
  assumes "authentic c d"
  shows "authentic c (fst (snd (delete_vault p now h d j)))"
  unfolding delete_vault_def
proof (rule write_hooked_inv [where P = "authentic c", OF assms], goal_cases)
  case (1 x d' j')
  then obtain op j1 where "journal op now h (delete_vault_rows p d) j = (Inr d', j1)"
    by (auto simp: rbind_eq_Inr Let_def split: option.splits prod.splits)
  then show ?case by (rule journal_authentic) (rule delete_vault_rows_authentic [OF assms])
qed

lemma put_children_authentic:
  assumes "authentic c d" and "db_inv c d"
    and "\<And>v. v \<in> set (vaults d) \<Longrightarrow> v_pk v = p \<Longrightarrow> children_blob_verify c blob (v_vault_id v) (v_owner_sign_pub v) = Inr ()"
  shows "authentic c (snd (put_children c' p pre blob ctx l d))"
  unfolding put_children_def
proof (rule write_tx_inv [where P = "authentic c", OF assms(1)], goal_cases)
  case (1 r d')
  then have "(\<exists>ev e. refuse_with c' p ev (cx_now ctx) d e = Inr (r, d'))
      \<or> (\<exists>ev. append_audit c' p ev (cx_now ctx) (upsert_children p blob d) = Inr d')"
    by (auto simp: Let_def rbind_eq_Inr split: if_splits sum.splits)
  moreover have "authentic c (upsert_children p blob d)"
    using assms(1)
  proof (rule authentic_step)
    fix b v assume b: "(v_pk v, b) \<in> set (children (upsert_children p blob d))" "(v_pk v, b) \<notin> set (children d)"
      and v: "v \<in> set (vaults d)"
    have "v_pk v = p \<and> b = blob" using b by (auto simp: upsert_children_def split: if_splits)
    with assms(3) v show "children_blob_verify c b (v_vault_id v) (v_owner_sign_pub v) = Inr ()" by simp
  qed (auto simp: upsert_children_def)
  ultimately show ?case
    using assms(1) by (blast intro: refuse_with_authentic authentic_audit_only append_audit_only)
qed

lemma register_token_authentic:
  assumes "authentic c d" and "db_inv c d"
    and "\<And>v. v \<in> set (vaults d) \<Longrightarrow> v_pk v = p \<Longrightarrow>
      bundle_verify c (nt_bundle t) (v_owner_sign_pub v) (v_vault_id v) (nt_id t) (scope_code (nt_scope t)) (nt_generation t) = Inr ()"
  shows "authentic c (snd (register_token c' p t ctx l d))"
  unfolding register_token_def
proof (rule write_tx_inv [where P = "authentic c", OF assms(1)], goal_cases)
  case (1 r d')
  show ?case
  proof (cases "\<exists>e ev. refuse_with c' p ev (cx_now ctx) d e = Inr (r, d')")
    case True
    then show ?thesis using assms(1) refuse_with_authentic by blast
  next
    case False
    let ?d = "d\<lparr>tokens := tokens d @ [token_row_of p t (cx_now ctx)]\<rparr>"
    from False 1 obtain vault ev where vault: "load_vault d p = Some vault" and g: "nt_generation t = generation vault"
      and app: "append_audit c' p ev (cx_now ctx) (bump_revision p ?d) = Inr d'"
      by (auto simp: rbind_eq_Inr Let_def split: if_splits)
    have "authentic c ?d"
      using assms(1)
    proof (rule authentic_step)
      fix x v assume x: "x \<in> set (tokens ?d)" "x \<notin> set (tokens d)" and v: "v \<in> set (vaults d)" "v_pk v = t_vault_pk x"
      then have "x = token_row_of p t (cx_now ctx)" by simp
      with v assms(3) [OF v(1)] loaded_generation [OF assms(2) vault v(1)] g show "token_signed c v x"
        by (simp add: token_signed_def token_row_of_def)
    qed auto
    then show ?thesis by (intro authentic_audit_only [OF bump_authentic append_audit_only [OF app]])
  qed
qed

end
