(* ===== verification/Core_Signed_Rotation.thy ===== *)
theory Core_Signed_Rotation
  imports Core_Authentic
begin

text \<open>Creation and rotation bring new generations: what they have to be signed with for the vault to
  stay authentic.\<close>

section \<open>Creation\<close>

lemma find_append: "find P (xs @ ys) = (case find P xs of None \<Rightarrow> find P ys | Some x \<Rightarrow> Some x)"
  by (induction xs) auto

lemma find_descriptor_append:
  "find_descriptor p g d = Some x \<Longrightarrow> descriptors d' = descriptors d @ ys \<Longrightarrow> find_descriptor p g d' = Some x"
  by (simp add: find_descriptor_def find_append)

lemma new_vault_authentic:
  assumes "authentic c d" and "db_inv c d" and "p = next_pk d"
    and "verify_for c (nv_descriptor v) (nv_vault_id v) (nv_owner_sign_pub v) = Inr desc" and "d_generation desc = 1"
    and "bundle_verify c (nv_owner_bundle v) (nv_owner_sign_pub v) (nv_vault_id v) OWNER_TOKEN_ID OWNER_SCOPE_CODE 1 = Inr ()"
  shows "authentic c (d\<lparr>vaults := vaults d @ [new_vault_rec p v now],
     descriptors := descriptors d @ [\<lparr>de_pk = p, de_generation = 1, de_descriptor = nv_descriptor v\<rparr>]\<rparr>)"
    (is "authentic c ?d")
proof -
  have fresh: "p \<notin> pks d" unfolding assms(3) by (rule next_pk_fresh)
  have none: "\<forall>x \<in> set (descriptors d). de_pk x \<noteq> p" "\<forall>t \<in> set (tokens d). t_vault_pk t \<noteq> p"
    "\<forall>k. \<forall>r \<in> set (records d k). vn_pk r \<noteq> p" "\<forall>b. (p, b) \<notin> set (children d)"
    using fresh assms(2)
    by (auto simp: db_inv_def descriptors_ok_def tokens_ok_def tables_ok_def records_ok_def children_ok_def subset_iff
        image_iff) force+
  have "vault_authentic c ?d (new_vault_rec p v now)"
  proof -
    have "find_descriptor p 1 ?d = Some \<lparr>de_pk = p, de_generation = 1, de_descriptor = nv_descriptor v\<rparr>"
      using none(1) by (auto simp: find_descriptor_def find_append split: option.split dest: find_Some_set)
    then have "current_descriptor c ?d (new_vault_rec p v now) desc"
      using assms(4,5) by (simp add: current_descriptor_def new_vault_rec_def)
    moreover have "owner_signed c (new_vault_rec p v now)" using assms(6) by (simp add: owner_signed_def new_vault_rec_def)
    ultimately show ?thesis
      unfolding vault_authentic_def using none by (intro exI [of _ desc]) (auto simp: new_vault_rec_def)
  qed
  moreover have "vault_authentic c ?d u" if u: "u \<in> set (vaults d)" for u
  proof -
    have ne: "v_pk u \<noteq> p" using fresh u by (auto simp: pks_def)
    have "current_descriptor c ?d u x" if "current_descriptor c d u x" for x
      using that find_descriptor_append [of "v_pk u" "v_generation u" d _ ?d] by (auto simp: current_descriptor_def)
    moreover have "vault_authentic c d u" using assms(1) u by (simp add: authentic_def)
    ultimately show ?thesis using ne unfolding vault_authentic_def by auto
  qed
  ultimately show ?thesis by (simp add: authentic_def)
qed

lemma create_vault_authentic:
  assumes "authentic c d" and "db_inv c d"
    and "verify_for c (nv_descriptor v) (nv_vault_id v) (nv_owner_sign_pub v) = Inr desc" and "d_generation desc = 1"
    and "bundle_verify c (nv_owner_bundle v) (nv_owner_sign_pub v) (nv_vault_id v) OWNER_TOKEN_ID OWNER_SCOPE_CODE 1 = Inr ()"
  shows "authentic c (snd (create_vault c' v now d))"
  unfolding create_vault_def
proof (rule write_tx_inv [where P = "authentic c", OF assms(1)], goal_cases)
  case (1 r d')
  show ?case
  proof (cases "\<exists>x \<in> set (vaults d). v_vault_id x = nv_vault_id v")
    case True
    with 1 assms(1) show ?thesis by simp
  next
    case False
    with 1 obtain d2 ev where ins: "insert_descriptor (next_pk d) 1 (nv_descriptor v)
        (d\<lparr>vaults := vaults d @ [new_vault_rec (next_pk d) v now]\<rparr>) = Inr d2"
      and app: "append_audit c' (next_pk d) ev now d2 = Inr d'"
      by (auto simp: rbind_eq_Inr Let_def)
    from ins new_vault_authentic [OF assms(1,2) refl assms(3-5), of now] have "authentic c d2"
      by (auto simp: insert_descriptor_def split: if_splits)
    then show ?thesis by (rule authentic_audit_only [OF _ append_audit_only [OF app]])
  qed
qed

section \<open>Rotation\<close>

lemma reseal_tokens_all:
  assumes "t \<in> set (tokens (reseal_tokens p g bs d))" and "t_vault_pk t = p"
    and "\<forall>u \<in> set (tokens d). t_vault_pk u = p \<longrightarrow> R u \<and> (t_id u \<in> rb_token_id ` set bs \<or> Q u)"
    and "\<forall>u. \<forall>b \<in> set bs. t_vault_pk u = p \<longrightarrow> t_id u = rb_token_id b \<longrightarrow> R u \<longrightarrow>
      R (u\<lparr>t_bundle := rb_bundle b, t_generation := g\<rparr>) \<and> Q (u\<lparr>t_bundle := rb_bundle b, t_generation := g\<rparr>)"
  shows "R t \<and> Q t"
  using assms unfolding reseal_tokens_def
proof (induction bs arbitrary: d)
  case (Cons b bs)
  let ?d = "d\<lparr>tokens := map (\<lambda>t. if t_vault_pk t = p \<and> t_id t = rb_token_id b
     then t\<lparr>t_bundle := rb_bundle b, t_generation := g\<rparr> else t) (tokens d)\<rparr>"
  have "\<forall>u \<in> set (tokens ?d). t_vault_pk u = p \<longrightarrow> R u \<and> (t_id u \<in> rb_token_id ` set bs \<or> Q u)"
  proof (intro ballI impI)
    fix u assume u: "u \<in> set (tokens ?d)" "t_vault_pk u = p"
    have "tokens ?d = map (\<lambda>t. if t_vault_pk t = p \<and> t_id t = rb_token_id b
     then t\<lparr>t_bundle := rb_bundle b, t_generation := g\<rparr> else t) (tokens d)" by simp
    from set_map_if [OF u(1) [unfolded this]] obtain w where w: "w \<in> set (tokens d)"
      "(t_vault_pk w = p \<and> t_id w = rb_token_id b) \<and> u = w\<lparr>t_bundle := rb_bundle b, t_generation := g\<rparr>
        \<or> \<not> (t_vault_pk w = p \<and> t_id w = rb_token_id b) \<and> u = w"
      by blast
    from w(2) show "R u \<and> (t_id u \<in> rb_token_id ` set bs \<or> Q u)"
    proof (elim disjE conjE)
      assume h: "t_vault_pk w = p" "t_id w = rb_token_id b" "u = w\<lparr>t_bundle := rb_bundle b, t_generation := g\<rparr>"
      have "R w" using bspec [OF Cons.prems(3) w(1)] h(1) by blast
      then show ?thesis using Cons.prems(4) h by (metis list.set_intros(1))
    next
      assume h: "\<not> (t_vault_pk w = p \<and> t_id w = rb_token_id b)" "u = w"
      then show ?thesis using bspec [OF Cons.prems(3) w(1)] u(2) by auto
    qed
  qed
  moreover have "\<forall>u. \<forall>b \<in> set bs. t_vault_pk u = p \<longrightarrow> t_id u = rb_token_id b \<longrightarrow> R u \<longrightarrow>
      R (u\<lparr>t_bundle := rb_bundle b, t_generation := g\<rparr>) \<and> Q (u\<lparr>t_bundle := rb_bundle b, t_generation := g\<rparr>)"
    using Cons.prems(4) by (meson list.set_intros(2))
  ultimately show ?case using Cons.IH [of ?d] Cons.prems(1,2) by simp
qed simp

text \<open>What a rotation request has to prove for the vaults with key \<open>p\<close>: the next generation's
  descriptor, its bundles and every record re-signed under it.\<close>

definition rotation_signed :: "crypto \<Rightarrow> db \<Rightarrow> VaultRec \<Rightarrow> RotationRequest \<Rightarrow> Descriptor \<Rightarrow> bool" where
  "rotation_signed c d v rq nxt \<longleftrightarrow>
     verify_for c (rr_descriptor rq) (v_vault_id v) (v_owner_sign_pub v) = Inr nxt
     \<and> d_generation nxt = v_generation v + 1 \<and> v_generation v < v_generation v + 1
     \<and> bundle_verify c (rr_owner_bundle rq) (v_owner_sign_pub v) (v_vault_id v) OWNER_TOKEN_ID OWNER_SCOPE_CODE
         (v_generation v + 1) = Inr ()
     \<and> (\<forall>k. \<forall>s \<in> set (rotation_rows rq k). record_verify c (rotated_context c (v_vault_id v) (v_generation v + 1) k s)
         (writer_pub nxt k) (rv_sig s) = Inr ())
     \<and> (\<forall>b \<in> set (rr_tokens rq). \<forall>t \<in> set (tokens d). t_vault_pk t = v_pk v \<longrightarrow> t_id t = rb_token_id b \<longrightarrow>
         bundle_verify c (rb_bundle b) (v_owner_sign_pub v) (v_vault_id v) (t_id t) (scope_code (t_scope t))
           (v_generation v + 1) = Inr ())"

lemma rewritten_fields:
  assumes "rewritten batch meta g ctx = Inr rows" and "r \<in> set rows"
  obtains s where "s \<in> set batch" "vn_name r = rv_name_hmac s" "vn_version r = rv_version s" "vn_generation r = g"
    "vn_written_at r = rv_written_at s" "vn_name_ct r = b64 (rv_name_ct s)" "vn_value_ct r = map_option b64 (rv_value_ct s)"
    "vn_sig r = rv_sig s"
  using assms by (auto simp: rewritten_def split: if_splits)

lemma rotated_vault_authentic:
  assumes "vault_authentic c d v" and "rotation_signed c d v rq nxt"
    and "\<forall>k. rewritten (rotation_rows rq k) (meta k) g ctx = Inr (rows k)" and "g = v_generation v + 1"
    and "{t \<in> set (tokens d). t_vault_pk t = v_pk v \<and> t_id t \<notin> set (revoke rq)} \<subseteq>
      {t. t_id t \<in> rb_token_id ` set (rr_tokens rq)}"
    and "v' = v\<lparr>v_generation := g, v_owner_bundle := rr_owner_bundle rq, v_bytes_used := used, v_revision := revn\<rparr>"
    and "descriptors d' = descriptors (add_descriptor (v_pk v) g (rr_descriptor rq) d)"
    and "records d' = records (rotated_records c (v_pk v) rows d)"
    and "tokens d' = tokens (rotated_tokens (v_pk v) g rq d)" and "children d' = children d"
  shows "vault_authentic c d' v'"
proof -
  let ?p = "v_pk v"
  note sg = assms(2) [unfolded rotation_signed_def]
  have old: "\<forall>x \<in> set (descriptors d). de_pk x = ?p \<longrightarrow> de_generation x \<le> v_generation v"
    and kids: "\<forall>b. (?p, b) \<in> set (children d) \<longrightarrow> children_blob_verify c b (v_vault_id v) (v_owner_sign_pub v) = Inr ()"
    using assms(1) unfolding vault_authentic_def by blast+
  have new: "v_generation v < g" using sg assms(4) by blast
  have "find_descriptor ?p g d = None" using old new by (force simp: find_descriptor_def find_None_all)
  then have ds: "descriptors d' = descriptors d @ [\<lparr>de_pk = ?p, de_generation = g, de_descriptor = rr_descriptor rq\<rparr>]"
    "find_descriptor ?p g d' = Some \<lparr>de_pk = ?p, de_generation = g, de_descriptor = rr_descriptor rq\<rparr>"
    using assms(7) by (simp_all add: add_descriptor_eq find_descriptor_def find_append)
  have keys: "v_pk v' = ?p" "v_vault_id v' = v_vault_id v" "v_owner_sign_pub v' = v_owner_sign_pub v"
    "v_generation v' = g" "v_owner_bundle v' = rr_owner_bundle rq" by (simp_all add: assms(6))
  have "current_descriptor c d' v' nxt" using sg ds(2) by (simp add: current_descriptor_def keys assms(4))
  moreover have "owner_signed c v'" using sg by (simp add: owner_signed_def keys assms(4))
  moreover have "\<forall>x \<in> set (descriptors d'). de_pk x = v_pk v' \<longrightarrow> de_generation x \<le> v_generation v'"
    using old new by (fastforce simp: ds(1) keys)
  moreover have "\<forall>k. \<forall>r \<in> set (records d' k). vn_pk r = v_pk v' \<longrightarrow> record_signed c v' nxt k r"
  proof (intro allI ballI impI)
    fix k r assume r: "r \<in> set (records d' k)" "vn_pk r = v_pk v'"
    then obtain x where x: "x \<in> set (rows k)" "r = version_rec c ?p x"
      by (auto simp: assms(8) rotated_records_def keys)
    from rewritten_fields [OF spec [OF assms(3), of k] x(1)] obtain s where s: "s \<in> set (rotation_rows rq k)"
      "vn_name x = rv_name_hmac s" "vn_version x = rv_version s" "vn_generation x = g" "vn_written_at x = rv_written_at s"
      "vn_name_ct x = b64 (rv_name_ct s)" "vn_value_ct x = map_option b64 (rv_value_ct s)" "vn_sig x = rv_sig s" .
    have "record_verify c (rotated_context c (v_vault_id v) g k s) (writer_pub nxt k) (rv_sig s) = Inr ()"
      using sg s(1) assms(4) by blast
    then show "record_signed c v' nxt k r"
      by (simp add: record_signed_def stored_context_def x(2) version_rec_fields s keys rotated_context_def)
  qed
  moreover have "\<forall>t \<in> set (tokens d'). t_vault_pk t = v_pk v' \<longrightarrow> token_signed c v' t"
  proof (intro ballI impI)
    fix t assume t: "t \<in> set (tokens d')" "t_vault_pk t = v_pk v'"
    let ?R = "\<lambda>u. \<exists>t0 \<in> set (tokens d). t_vault_pk t0 = ?p \<and> t_id t0 = t_id u \<and> t_scope t0 = t_scope u"
    have "?R t \<and> token_signed c v' t"
    proof (rule reseal_tokens_all)
      show "t \<in> set (tokens (reseal_tokens ?p g (rr_tokens rq)
          (d\<lparr>tokens := filter (\<lambda>t. \<not> (t_vault_pk t = ?p \<and> t_id t \<in> set (revoke rq))) (tokens d)\<rparr>)))"
        using t(1) by (simp add: assms(9) rotated_tokens_def)
      show "t_vault_pk t = ?p" using t(2) keys by simp
      show "\<forall>u \<in> set (tokens (d\<lparr>tokens := filter (\<lambda>t. \<not> (t_vault_pk t = ?p \<and> t_id t \<in> set (revoke rq))) (tokens d)\<rparr>)).
          t_vault_pk u = ?p \<longrightarrow> ?R u \<and> (t_id u \<in> rb_token_id ` set (rr_tokens rq) \<or> token_signed c v' u)"
        using assms(5) by auto
      show "\<forall>u. \<forall>b \<in> set (rr_tokens rq). t_vault_pk u = ?p \<longrightarrow> t_id u = rb_token_id b \<longrightarrow> ?R u \<longrightarrow>
          ?R (u\<lparr>t_bundle := rb_bundle b, t_generation := g\<rparr>) \<and> token_signed c v' (u\<lparr>t_bundle := rb_bundle b, t_generation := g\<rparr>)"
      proof (intro allI ballI impI)
        fix u :: TokenRow and b assume b: "b \<in> set (rr_tokens rq)" "t_id u = rb_token_id b" and "?R u"
        then obtain t0 where t0: "t0 \<in> set (tokens d)" "t_vault_pk t0 = ?p" "t_id t0 = t_id u" "t_scope t0 = t_scope u" by blast
        with sg b have "bundle_verify c (rb_bundle b) (v_owner_sign_pub v) (v_vault_id v) (t_id t0) (scope_code (t_scope t0))
            (v_generation v + 1) = Inr ()" by metis
        then have "token_signed c v' (u\<lparr>t_bundle := rb_bundle b, t_generation := g\<rparr>)"
          using t0(3,4) by (simp add: token_signed_def keys assms(4))
        with \<open>?R u\<close> show "?R (u\<lparr>t_bundle := rb_bundle b, t_generation := g\<rparr>)
            \<and> token_signed c v' (u\<lparr>t_bundle := rb_bundle b, t_generation := g\<rparr>)" by simp
      qed
    qed
    then show "token_signed c v' t" ..
  qed
  moreover have "\<forall>b. (v_pk v', b) \<in> set (children d') \<longrightarrow> children_blob_verify c b (v_vault_id v') (v_owner_sign_pub v') = Inr ()"
    using kids by (simp add: assms(10) keys)
  ultimately show ?thesis unfolding vault_authentic_def by blast
qed

lemma other_vault_authentic:
  assumes "vault_authentic c d u" and "v_pk u \<noteq> p"
    and "descriptors d' = descriptors (add_descriptor p g sd d)"
    and "records d' = records (rotated_records c p rows d)"
    and "tokens d' = tokens (rotated_tokens p g rq d)" and "children d' = children d"
  shows "vault_authentic c d' u"
proof -
  obtain ys where ds: "descriptors d' = descriptors d @ ys" "\<forall>y \<in> set ys. de_pk y = p"
    using assms(3) by (cases "find_descriptor p g d") (auto simp: add_descriptor_eq)
  have "current_descriptor c d' u x" if "current_descriptor c d u x" for x
    using that find_descriptor_append [OF _ ds(1)] unfolding current_descriptor_def by blast
  moreover have "\<forall>x \<in> set (descriptors d'). de_pk x = v_pk u \<longrightarrow> x \<in> set (descriptors d)" using ds assms(2) by auto
  moreover have "\<forall>k. \<forall>r \<in> set (records d' k). vn_pk r = v_pk u \<longrightarrow> r \<in> set (records d k)"
    using assms(2) by (auto simp: assms(4) rotated_records_def version_rec_fields)
  moreover have "t \<in> set (tokens d)" if "t \<in> set (tokens d')" "t_vault_pk t = v_pk u" for t
  proof -
    let ?d = "d\<lparr>tokens := filter (\<lambda>t. \<not> (t_vault_pk t = p \<and> t_id t \<in> set (revoke rq))) (tokens d)\<rparr>"
    have "t \<in> set (filter (\<lambda>t. t_vault_pk t \<noteq> p) (tokens (reseal_tokens p g (rr_tokens rq) ?d)))"
      using that assms(2) by (simp add: assms(5) rotated_tokens_def)
    then show ?thesis unfolding reseal_tokens_other by simp
  qed
  ultimately show ?thesis using assms(1) unfolding vault_authentic_def assms(6) by (metis (full_types))
qed

lemma surviving_tokens:
  assumes "check_rotation d vault r = Inr ()"
  shows "{t \<in> set (tokens d). t_vault_pk t = pk vault \<and> t_id t \<notin> set (revoke r)} \<subseteq>
    {t. t_id t \<in> rb_token_id ` set (rr_tokens r)}"
proof -
  have "set (map rb_token_id (rr_tokens r)) = set (map t_id (tokens_of d (pk vault))) - set (revoke r)"
    using assms by (auto simp: check_rotation_def Let_def rbind_eq_Inr split: if_splits)
  then show ?thesis unfolding tokens_of_ids by auto
qed

lemma apply_rotation_authentic:
  assumes "authentic c d" and "db_inv c d" and "\<And>v. v \<in> set (vaults d) \<Longrightarrow> v_pk v = p \<Longrightarrow> rotation_signed c d v rq nxt"
  shows "authentic c (fst (snd (apply_rotation c p rq ctx h d j)))"
proof -
  obtain res d' j' where run: "apply_rotation c p rq ctx h d j = (res, d', j')" by (cases "apply_rotation c p rq ctx h d j") auto
  show ?thesis
  proof (cases res)
    case (Inl e)
    with run have "d' = d" by (simp add: rotation_error)
    with assms(1) run show ?thesis by simp
  next
    case (Inr g)
    then obtain vault d1 where b: "load_vault d p = Some vault" "pk vault = p" "check_rotation d vault rq = Inr ()"
      "apply_batch c vault rq ctx d = Inr (g, d1)" "d' = d1\<lparr>last_applied := last_applied d1 + 1\<rparr>"
      using run by (blast elim: apply_rotation_batch)
    from b(4) obtain rows used where eff: "g = from_generation rq + 1"
      "\<forall>k. rewritten (rotation_rows rq k) (map_of (version_meta_list d k (pk vault))) g ctx = Inr (rows k)"
      "audit_only (update_vault (pk vault) (\<lambda>v. v\<lparr>v_generation := g, v_owner_bundle := rr_owner_bundle rq,
          v_bytes_used := used, v_revision := v_revision v + 1\<rparr>) (rotated_tokens (pk vault) g rq
         (add_descriptor (pk vault) g (rr_descriptor rq) (rotated_records c (pk vault) rows d)))) d1"
      by (rule apply_batch_effect)
    let ?f = "\<lambda>v. v\<lparr>v_generation := g, v_owner_bundle := rr_owner_bundle rq, v_bytes_used := used, v_revision := v_revision v + 1\<rparr>"
    let ?d = "update_vault p ?f (rotated_tokens p g rq (add_descriptor p g (rr_descriptor rq) (rotated_records c p rows d)))"
    have frame: "descriptors ?d = descriptors (add_descriptor p g (rr_descriptor rq) d)"
      "records ?d = records (rotated_records c p rows d)" "tokens ?d = tokens (rotated_tokens p g rq d)"
      "children ?d = children d"
      by (simp_all add: add_descriptor_eq find_descriptor_def) (rule rotated_tokens_only, simp)
    have "authentic c ?d"
      unfolding authentic_def
    proof
      fix v' assume "v' \<in> set (vaults ?d)"
      then obtain v where v: "v \<in> set (vaults d)" "v' = (if v_pk v = p then ?f v else v)"
        by (auto simp: vaults_update_vault)
      have va: "vault_authentic c d v" using assms(1) v(1) by (simp add: authentic_def)
      show "vault_authentic c ?d v'"
      proof (cases "v_pk v = p")
        case True
        have "generation vault = from_generation rq" using b(3) by (auto simp: check_rotation_def Let_def split: if_splits)
        then have g: "g = v_generation v + 1" using loaded_generation [OF assms(2) b(1) v(1) True] eff(1) by simp
        show ?thesis
          by (rule rotated_vault_authentic [OF va assms(3) [OF v(1) True] eff(2) g, of v' "v_revision v + 1" used])
            (use surviving_tokens [OF b(3)] b(2) True v(2) frame in simp_all)
      next
        case False
        then show ?thesis using other_vault_authentic [OF va False frame] v(2) by simp
      qed
    qed
    then have "authentic c d1" using eff(3) b(2) authentic_audit_only by blast
    then show ?thesis by (simp add: run b(5) spent_authentic)
  qed
qed

end
