(* ===== verification/Core_Signed_Calls.thy ===== *)
theory Core_Signed_Calls
  imports Core_Signed_Rotation
begin

text \<open>Every handler keeps the database authentic: it verifies what it is given against the caller's
  vault before the store writes it. A handler's database does not change between authentication
  and its one write, so its checks speak of the database the write finds.\<close>

section \<open>Handlers on a known database\<close>

definition good :: "crypto \<Rightarrow> db \<Rightarrow> bool" where
  "good c d \<longleftrightarrow> db_inv c d \<and> authentic c d"

definition runs :: "crypto \<Rightarrow> db \<Rightarrow> 'a handler \<Rightarrow> bool" where
  "runs c d m \<longleftrightarrow> (\<forall>w. wd_db w = d \<longrightarrow> good c (wd_db (snd (m w))))"

lemma good_write_ops:
  assumes "good c d"
  shows "good c (snd (record_event c p e now d))" "good c (snd (touch p now d))" "good c (snd (spend k i ex now d))"
    "good c (fst (snd (revoke_tokens c p ids rep ctx h d j)))" "good c (fst (snd (delete_vault p now h d j)))"
  using assms
  by (simp_all add: good_def store_invs record_event_authentic touch_authentic spend_authentic revoke_tokens_authentic
      delete_vault_authentic)

lemma runs_pure: "good c d \<Longrightarrow> runs c d (hret a)" "good c d \<Longrightarrow> runs c d (hfail e)" "good c d \<Longrightarrow> runs c d (hlift r)"
  by (simp_all add: runs_def hret_def hfail_def hlift_def)

lemma runs_lift: "good c d \<Longrightarrow> (\<And>a. r = Inr a \<Longrightarrow> runs c d (f a)) \<Longrightarrow> runs c d (hbind (hlift r) f)"
  by (cases r) (simp_all add: runs_def hbind_def hlift_def)

lemma runs_read: "runs c d (f (g d)) \<Longrightarrow> runs c d (hbind (store_read g) f)"
  by (simp add: runs_def hbind_def store_read_def)

lemma runs_now: "(\<And>t. runs c d (f t)) \<Longrightarrow> runs c d (hbind (core_now co) f)"
  by (simp add: runs_def hbind_def core_now_def)

lemma runs_write:
  "good c (snd (op d)) \<Longrightarrow> (\<And>a d'. good c d' \<Longrightarrow> runs c d' (f a)) \<Longrightarrow> runs c d (hbind (store_write conv op) f)"
  by (auto simp: runs_def hbind_def store_write_def Let_def split: prod.split sum.split)

lemma runs_store: "good c (snd (op d)) \<Longrightarrow> runs c d (store_write conv op)"
  by (auto simp: runs_def store_write_def Let_def split: prod.split)

lemma runs_bind:
  assumes "runs c d m" and "\<And>a d'. good c d' \<Longrightarrow> runs c d' (f a)"
  shows "runs c d (hbind m f)"
  unfolding runs_def
proof (intro allI impI)
  fix w :: World assume d: "wd_db w = d"
  obtain r w' where m: "m w = (r, w')" by (cases "m w")
  with assms(1) d have "good c (wd_db w')" by (auto simp: runs_def)
  with m assms(2) show "good c (wd_db (snd (hbind m f w)))" by (auto simp: hbind_def runs_def split: sum.split)
qed

lemma runs_critical:
  assumes "\<And>h j. good c (fst (snd (op h d j)))" and "\<And>a d'. good c d' \<Longrightarrow> runs c d' (f a)"
  shows "runs c d (hbind (critical co op) f)"
  unfolding runs_def
proof (intro allI impI)
  fix w :: World assume d: "wd_db w = d"
  obtain r d' files where run: "op (file_put (co_codec co) (co_fault co (wd_tick w))) d (wd_files w) = (r, d', files)"
    by (metis prod_cases3)
  from assms(1) [of "file_put (co_codec co) (co_fault co (wd_tick w))" "wd_files w"] have good: "good c d'" by (simp add: run)
  show "good c (wd_db (snd (hbind (critical co op) f w)))"
  proof (cases r)
    case (Inr a)
    then show ?thesis using assms(2) [OF good] by (simp add: hbind_def critical_def d run runs_def)
  qed (simp add: hbind_def critical_def d run good)
qed

lemma runs_refuse:
  assumes "good (co_crypto co) d"
  shows "runs (co_crypto co) d (hbind (core_refuse co ca action name) (\<lambda>_. hfail e))"
  using good_write_ops(1) [OF assms]
  by (simp add: runs_def core_refuse_def hbind_def hafter_def core_now_def hret_def hfail_def store_write_def Let_def split_def)

lemma runs_require:
  assumes "good (co_crypto co) d" and "runs (co_crypto co) d (f ())"
  shows "runs (co_crypto co) d (hbind (require co ca need action name) f)"
proof (cases "can ca need")
  case True
  with assms(2) show ?thesis by (simp add: runs_def require_def hbind_def hret_def)
next
  case False
  with runs_refuse [OF assms(1), of ca action name forbidden] show ?thesis
    by (auto simp: runs_def require_def hbind_def hfail_def split: prod.splits sum.splits)
qed

lemma runs_cond:
  "(b \<Longrightarrow> runs c d m) \<Longrightarrow> (\<not> b \<Longrightarrow> runs c d m') \<Longrightarrow> runs c d (if b then m else m')"
  "(x = None \<Longrightarrow> runs c d m) \<Longrightarrow> (\<And>a. x = Some a \<Longrightarrow> runs c d (f a)) \<Longrightarrow> runs c d (case x of None \<Rightarrow> m | Some a \<Rightarrow> f a)"
  "(\<And>e. y = Inl e \<Longrightarrow> runs c d (g e)) \<Longrightarrow> (\<And>a. y = Inr a \<Longrightarrow> runs c d (h a)) \<Longrightarrow>
    runs c d (case y of Inl e \<Rightarrow> g e | Inr a \<Rightarrow> h a)"
  "(\<And>a b. z = (a, b) \<Longrightarrow> runs c d (q a b)) \<Longrightarrow> runs c d (case z of (a, b) \<Rightarrow> q a b)"
  by (simp_all split: option.split sum.split prod.split)

lemmas run_rules = runs_pure runs_lift runs_read runs_now runs_refuse runs_require runs_cond

section \<open>The caller's vault\<close>

definition fits :: "VaultRow \<Rightarrow> db \<Rightarrow> bool" where
  "fits V d \<longleftrightarrow> (\<exists>v \<in> set (vaults d). v_pk v = pk V \<and> v_vault_id v = vr_vault_id V
     \<and> v_owner_sign_pub v = owner_sign_pub V \<and> v_generation v = generation V
     \<and> (\<exists>x. find_descriptor (v_pk v) (v_generation v) d = Some x \<and> de_descriptor x = vr_descriptor V))"

lemma fits_row: "v \<in> set (vaults d) \<Longrightarrow> vault_row d v = Some V \<Longrightarrow> fits V d"
  by (auto simp: fits_def vault_row_def intro!: bexI [of _ v])

lemma fits_transfer:
  assumes "fits V d" and "auth_key ` set (vaults d) \<subseteq> auth_key ` set (vaults d')" and "descriptors d' = descriptors d"
  shows "fits V d'"
proof -
  obtain v where v: "v \<in> set (vaults d)" "v_pk v = pk V" "v_vault_id v = vr_vault_id V"
    "v_owner_sign_pub v = owner_sign_pub V" "v_generation v = generation V"
    "\<exists>x. find_descriptor (v_pk v) (v_generation v) d = Some x \<and> de_descriptor x = vr_descriptor V"
    using assms(1) unfolding fits_def by blast
  then obtain u where "u \<in> set (vaults d')" "auth_key u = auth_key v" using assms(2) by fastforce
  with v show ?thesis by (auto simp: fits_def auth_key_def find_descriptor_def assms(3) intro!: bexI [of _ u])
qed

lemma fits_vault:
  assumes "good c d" and "fits V d" and "v \<in> set (vaults d)" and "v_pk v = pk V"
  shows "v_vault_id v = vr_vault_id V" "v_owner_sign_pub v = owner_sign_pub V" "v_generation v = generation V"
    "current_descriptor c d v desc \<Longrightarrow> decode_unverified (vr_descriptor V) = Inr desc \<and> d_generation desc = generation V"
proof -
  obtain u where u: "u \<in> set (vaults d)" "v_pk u = pk V" "v_vault_id u = vr_vault_id V"
    "v_owner_sign_pub u = owner_sign_pub V" "v_generation u = generation V"
    "\<exists>x. find_descriptor (v_pk u) (v_generation u) d = Some x \<and> de_descriptor x = vr_descriptor V"
    using assms(2) unfolding fits_def by blast
  have uv: "u = v" using same_pk [of c d u v] assms u by (simp add: good_def)
  show "v_vault_id v = vr_vault_id V" "v_owner_sign_pub v = owner_sign_pub V" "v_generation v = generation V"
    using u uv by simp_all
  show "decode_unverified (vr_descriptor V) = Inr desc \<and> d_generation desc = generation V" if "current_descriptor c d v desc"
    using that u uv
    by (auto simp: current_descriptor_def verify_for_def signed_descriptor_verify_def decode_unverified_def rbind_eq_Inr
        split: if_splits)
qed

lemma current_exists: "good c d \<Longrightarrow> v \<in> set (vaults d) \<Longrightarrow> \<exists>desc. current_descriptor c d v desc"
  by (auto simp: good_def authentic_def vault_authentic_def)

section \<open>Handlers of records\<close>

lemma check_signed_cases:
  obtains (ok) desc where "check_signed co ca k action n w = hret ()" "caller_descriptor ca = Inr desc"
      "record_verify (co_crypto co) (signed_context (co_crypto co) ca k n w) (writer_pub desc k) (sw_sig w) = Inr ()"
  | (fail) e where "check_signed co ca k action n w = hfail e"
  | (refuse) e where "check_signed co ca k action n w = hbind (core_refuse co ca action (Some n)) (\<lambda>_. hfail e)"
proof (cases "sw_generation w = generation (ca_vault ca)")
  case True
  then show thesis
    by (cases "caller_descriptor ca")
      (use that in \<open>fastforce simp: check_signed_def hbind_def hlift_def hfail_def hret_def fun_eq_iff split: sum.splits\<close>)+
next
  case False
  with that(3) show thesis by (simp add: check_signed_def)
qed

lemma fail_binds:
  "hbind (hfail e) f = hfail e" "hbind (hret a) g = g a" "hbind (hbind m (\<lambda>_. hfail e)) h = hbind m (\<lambda>_. hfail e)"
  by (auto simp: hbind_def hfail_def hret_def fun_eq_iff split: prod.split sum.split)

lemma signed_write:
  assumes "good (co_crypto co) d" and "fits (ca_vault ca) d" and "caller_descriptor ca = Inr desc"
    and "record_verify (co_crypto co) (signed_context (co_crypto co) ca k n w) (writer_pub desc k) (sw_sig w) = Inr ()"
  shows "write_signed (co_crypto co) d (pk (ca_vault ca)) k n (record_write_of w)"
  unfolding write_signed_def
proof (intro ballI allI impI)
  let ?c = "co_crypto co"
  fix v x assume v: "v \<in> set (vaults d)" "v_pk v = pk (ca_vault ca)" and x: "current_descriptor ?c d v x"
  note fit = fits_vault [OF assms(1,2) v]
  have "x = desc" using fit(4) [OF x] assms(3) by (simp add: caller_descriptor_def)
  then show "record_verify ?c (record_context ?c (v_vault_id v) (w_generation (record_write_of w)) k n
      (w_version (record_write_of w)) (w_written_at (record_write_of w)) (w_name_ct (record_write_of w))
      (w_value_ct (record_write_of w))) (writer_pub x k) (w_sig (record_write_of w)) = Inr ()"
    using assms(4) fit(1) by (simp add: signed_context_def record_write_of_def)
qed

lemma check_signed_run:
  assumes "good (co_crypto co) d" and "fits (ca_vault ca) d"
    and "write_signed (co_crypto co) d (pk (ca_vault ca)) k n (record_write_of w) \<Longrightarrow> runs (co_crypto co) d (f ())"
  shows "runs (co_crypto co) d (hbind (check_signed co ca k action n w) f)"
  using check_signed_cases [of co ca k action n w]
proof cases
  case (ok desc)
  with assms(3) [OF signed_write [OF assms(1,2) ok(2,3)]] show ?thesis by (simp add: fail_binds)
next
  case (fail e)
  then show ?thesis using assms(1) by (simp add: fail_binds runs_pure)
next
  case (refuse e)
  then show ?thesis using runs_refuse [OF assms(1)] by (simp add: fail_binds)
qed

lemma record_handlers_signed:
  assumes "good (co_crypto co) d" and "fits (ca_vault ca) d"
  shows "runs (co_crypto co) d (record_list co ca k query)" "runs (co_crypto co) d (record_read co ca k name version)"
    "runs (co_crypto co) d (record_history co ca k name)" "runs (co_crypto co) d (record_put co ca k name rq)"
    "runs (co_crypto co) d (record_delete co ca k name rq)" "runs (co_crypto co) d (audit_page co ca query)"
proof -
  note good = assms(1)
  have put: "good (co_crypto co) (snd (put_record (co_crypto co) (pk (ca_vault ca)) k n pre w ctx l d))"
    "good (co_crypto co) (snd (delete_record (co_crypto co) (pk (ca_vault ca)) k n m w ctx l d))"
    if "write_signed (co_crypto co) d (pk (ca_vault ca)) k n w" for n pre w ctx l m
    using good that by (simp_all add: good_def put_record_inv delete_record_inv put_record_authentic delete_record_authentic)
  show "runs (co_crypto co) d (record_list co ca k query)" "runs (co_crypto co) d (record_history co ca k name)"
    "runs (co_crypto co) d (audit_page co ca query)"
    unfolding record_list_def record_history_def audit_page_def Let_def by (intro run_rules good)+
  show "runs (co_crypto co) d (record_read co ca k name version)"
    unfolding record_read_def Let_def by (intro run_rules runs_write good good_write_ops; assumption)
  show "runs (co_crypto co) d (record_put co ca k name rq)"
    unfolding record_put_def by (intro run_rules check_signed_run runs_write good assms(2) put; assumption)
  show "runs (co_crypto co) d (record_delete co ca k name rq)"
    unfolding record_delete_def by (intro run_rules check_signed_run runs_write good assms(2) put; assumption)
qed

section \<open>Handlers of vaults and tokens\<close>

lemma status_run: "good (co_crypto co) d \<Longrightarrow> runs (co_crypto co) d (core_status co ca)"
  using good_write_ops(1)
  by (auto simp: runs_def core_status_def status_tokens_def hbind_def store_read_def hafter_def core_now_def hret_def
      store_write_def Let_def split_def)

lemma vault_handlers_signed:
  assumes "good (co_crypto co) d" and "fits (ca_vault ca) d"
  shows "runs (co_crypto co) d (core_descriptors co ca query)" "runs (co_crypto co) d (core_children co ca)"
    "runs (co_crypto co) d (core_put_children co ca rq)" "runs (co_crypto co) d (core_register co ca body)"
    "runs (co_crypto co) d (core_whoami ca)"
proof -
  let ?c = "co_crypto co" and ?V = "ca_vault ca"
  note good = assms(1) and fit = fits_vault [OF assms]
  have children: "good ?c (snd (put_children ?c (pk ?V) pre blob ctx l d))"
    if "children_blob_verify ?c blob (vr_vault_id ?V) (owner_sign_pub ?V) = Inr x" for pre blob ctx l x
    using good that fit by (simp add: good_def put_children_inv put_children_authentic)
  have register: "good ?c (snd (register_token ?c (pk ?V) (new_token_of r ttl now) ctx l d))"
    if "bundle_verify ?c (rt_bundle r) (owner_sign_pub ?V) (vr_vault_id ?V) (rt_token_id r) (scope_code (rt_scope r))
      (rt_generation r) = Inr x" for r ttl now ctx l x
    using good that fit by (simp add: good_def register_token_inv register_token_authentic new_token_of_def)
  show "runs ?c d (core_descriptors co ca query)" "runs ?c d (core_children co ca)" "runs ?c d (core_whoami ca)"
    unfolding core_descriptors_def core_children_def core_whoami_def
    by (intro run_rules good | simp add: run_rules good split: Principal.split)+
  show "runs ?c d (core_put_children co ca rq)"
    unfolding core_put_children_def by (intro run_rules runs_write good children; assumption)
  show "runs ?c d (core_register co ca body)"
    unfolding core_register_def Let_def by (intro run_rules runs_write good register; assumption)
qed

lemma create_run:
  assumes "good (co_crypto co) d"
  shows "runs (co_crypto co) d (core_create co rq)"
proof -
  have create: "good (co_crypto co) (snd (create_vault (co_crypto co) (new_vault_of b) now d'))"
    if "check_first_generation (co_crypto co) b = Inr x" "good (co_crypto co) d'" for b now d' x
    using that
    by (auto simp: good_def create_vault_inv check_first_generation_def rbind_eq_Inr is_first_def new_vault_of_def
        split: if_splits intro!: create_vault_authentic)
  have spends: "runs (co_crypto co) d' (spend_nonce co params)" if "good (co_crypto co) d'" for d' params
    unfolding spend_nonce_def by (intro runs_now runs_store good_write_ops that)
  show ?thesis
    unfolding core_create_def
    by (intro run_rules assms; intro runs_bind run_rules runs_store good_write_ops spends create assms; assumption)
qed

section \<open>Critical operations\<close>

lemma verify_versions_all:
  "verify_versions c v g k writer batch = Inr () \<longleftrightarrow>
   (\<forall>s \<in> set batch. record_verify c (rotated_context c v g k s) writer (rv_sig s) = Inr ())"
  by (induction batch) (auto simp: rbind_eq_Inr)

lemma verify_reseals_all:
  "verify_reseals c vault g scopes ts = Inr () \<longleftrightarrow> (\<forall>t \<in> set ts. \<exists>scope. scopes (rb_token_id t) = Some scope
     \<and> bundle_verify c (rb_bundle t) (owner_sign_pub vault) (vr_vault_id vault) (rb_token_id t) (scope_code scope) g = Inr ())"
  by (induction ts) (auto simp: rbind_eq_Inr)

lemma token_scopes:
  assumes "db_inv c d" and "t \<in> set (tokens d)" and "t_vault_pk t = p"
  shows "map_of (rev (map (\<lambda>t. (t_id t, t_scope t)) (tokens_of d p))) (t_id t) = Some (t_scope t)"
proof (rule map_of_is_SomeI)
  have "distinct (map t_id (filter (\<lambda>t. t_vault_pk t = p) (tokens d)))"
    using assms(1) by (simp add: db_inv_def tokens_ok_def distinct_map_filterI)
  then have "distinct (map t_id (tokens_of d p))" by (auto simp: tokens_of_def distinct_map)
  then show "distinct (map fst (rev (map (\<lambda>t. (t_id t, t_scope t)) (tokens_of d p))))"
    by (simp add: rev_map comp_def distinct_map inj_on_def)
  show "(t_id t, t_scope t) \<in> set (rev (map (\<lambda>t. (t_id t, t_scope t)) (tokens_of d p)))"
    using assms(2,3) by (force simp: tokens_of_def)
qed

lemma new_generation_signed:
  assumes "good c d" and "fits (ca_vault ca) d" and "check_new_generation c ca rq = Inr nxt"
    and "verify_reseals c (ca_vault ca) (d_generation nxt)
      (map_of (rev (map (\<lambda>t. (t_id t, t_scope t)) (tokens_of d (pk (ca_vault ca)))))) (rr_tokens rq) = Inr ()"
    and "v \<in> set (vaults d)" and "v_pk v = pk (ca_vault ca)"
  shows "rotation_signed c d v rq nxt"
proof -
  let ?V = "ca_vault ca"
  note fit = fits_vault [OF assms(1,2,5,6)]
  obtain desc where "current_descriptor c d v desc" using current_exists [OF assms(1,5)] by blast
  note desc = fit(4) [OF this]
  from assms(3) obtain cur where cur: "caller_descriptor ca = Inr cur"
    and nxt: "verify_for c (rr_descriptor rq) (vr_vault_id ?V) (owner_sign_pub ?V) = Inr nxt" "follows c nxt cur"
    and rows: "verify_versions c (vr_vault_id ?V) (d_generation nxt) RecordKind.Secret (secret_writer_pub nxt) (rr_secrets rq) = Inr ()"
      "verify_versions c (vr_vault_id ?V) (d_generation nxt) RecordKind.Config (config_writer_pub nxt) (rr_configs rq) = Inr ()"
    and owner: "bundle_verify c (rr_owner_bundle rq) (owner_sign_pub ?V) (vr_vault_id ?V) OWNER_TOKEN_ID OWNER_SCOPE_CODE
      (d_generation nxt) = Inr ()"
    by (auto simp: check_new_generation_def Let_def rbind_eq_Inr split: if_splits)
  have "cur = desc" using cur desc by (simp add: caller_descriptor_def)
  then have g: "d_generation nxt = v_generation v + 1" "v_generation v < v_generation v + 1"
    using nxt(2) desc fit(3)
    by (auto simp: follows_def check_follows_def checked_add_u32_def word_less_nat_alt unat_word_ariths split: if_splits)
  have "record_verify c (rotated_context c (v_vault_id v) (v_generation v + 1) k s) (writer_pub nxt k) (rv_sig s) = Inr ()"
    if "s \<in> set (rotation_rows rq k)" for k s
    using that rows g(1) fit(1) by (cases k) (simp_all add: rotation_rows_def verify_versions_all)
  moreover have "bundle_verify c (rb_bundle b) (v_owner_sign_pub v) (v_vault_id v) (t_id t) (scope_code (t_scope t))
      (v_generation v + 1) = Inr ()"
    if b: "b \<in> set (rr_tokens rq)" and t: "t \<in> set (tokens d)" "t_vault_pk t = v_pk v" "t_id t = rb_token_id b" for b t
  proof -
    have "map_of (rev (map (\<lambda>t. (t_id t, t_scope t)) (tokens_of d (pk ?V)))) (rb_token_id b) = Some (t_scope t)"
      using token_scopes [of c d t "pk ?V"] assms(1,6) t by (simp add: good_def)
    with assms(4) b show ?thesis unfolding verify_reseals_all using fit g(1) t(3) by fastforce
  qed
  ultimately show ?thesis unfolding rotation_signed_def using nxt(1) owner g fit by simp
qed

lemma critical_handlers_signed:
  assumes "good (co_crypto co) d" and "fits (ca_vault ca) d"
  shows "runs (co_crypto co) d (core_revoke co ca i)" "runs (co_crypto co) d (core_delete_vault co ca)"
    "runs (co_crypto co) d (core_rotate co ca body)"
proof -
  note good = assms(1)
  show "runs (co_crypto co) d (core_revoke co ca i)" "runs (co_crypto co) d (core_delete_vault co ca)"
    unfolding core_revoke_def core_delete_vault_def
    by (intro run_rules runs_critical good good_write_ops; assumption)+
  have rotation: "good (co_crypto co) (fst (snd (apply_rotation (co_crypto co) (pk (ca_vault ca)) rq ctx h d j)))"
    if "check_new_generation (co_crypto co) ca rq = Inr nxt"
      and "verify_reseals (co_crypto co) (ca_vault ca) (d_generation nxt)
        (map_of (rev (map (\<lambda>t. (t_id t, t_scope t)) (tokens_of d (pk (ca_vault ca)))))) (rr_tokens rq) = Inr x" for rq nxt x ctx h j
    using good new_generation_signed [OF assms that(1), where v = v for v] that(2)
    by (auto simp: good_def apply_rotation_inv intro!: apply_rotation_authentic)
  show "runs (co_crypto co) d (core_rotate co ca body)"
    unfolding core_rotate_def by (intro run_rules runs_critical good rotation; assumption)
qed

lemma report_run: "good (co_crypto co) d \<Longrightarrow> runs (co_crypto co) d (core_report co body)"
  unfolding core_report_def by (intro run_rules runs_critical good_write_ops; assumption)

lemma open_handlers_run:
  "good (co_crypto co) d \<Longrightarrow> runs (co_crypto co) d (core_capabilities co)"
  "good (co_crypto co) d \<Longrightarrow> runs (co_crypto co) d (core_challenge co rq)"
  unfolding core_capabilities_def core_challenge_def by (intro run_rules; assumption)+

section \<open>Calls\<close>

lemma authenticated_fits:
  assumes "authenticate co rq w = (Inr ca, wa)" and "good (co_crypto co) (wd_db w)"
  shows "good (co_crypto co) (wd_db wa) \<and> fits (ca_vault ca) (wd_db wa)"
  using assms(1)
proof (cases rule: authenticate_cases)
  case (ok header params public ca' w1)
  let ?w = "w\<lparr>wd_tick := Suc (wd_tick w)\<rparr>"
  have "fits (ca_vault ca) (wd_db w)"
    using ok(3,4) fits_row
    by (auto simp: credential_def load_vault_by_id_def bind_eq_Some_conv split: SigActor.splits
        dest!: find_Some_set elim!: load_vault_rec)
  moreover have only: "wd_db w1 = (wd_db w)\<lparr>spent := spent (wd_db w1)\<rparr>"
    using spend_nonce_only [of ?w co params] ok(6) by (simp add: spent_only_def)
  moreover have "good (co_crypto co) (wd_db w1)"
  proof -
    have "good (co_crypto co) ((wd_db w)\<lparr>spent := spent (wd_db w1)\<rparr>)"
      using assms(2) by (simp add: good_def spent_inv spent_authentic)
    then show ?thesis using only by simp
  qed
  moreover have "fits (ca_vault ca) (wd_db w1)"
  proof (rule fits_transfer [OF calculation(1)])
    show "auth_key ` set (vaults (wd_db w)) \<subseteq> auth_key ` set (vaults (wd_db w1))" by (subst only) simp
    show "descriptors (wd_db w1) = descriptors (wd_db w)" by (subst only) simp
  qed
  moreover have touched: "auth_key ` set (vaults (snd (touch p now d))) = auth_key ` set (vaults d)"
    "descriptors (snd (touch p now d)) = descriptors d" for p now d
    by (simp_all add: touch_def Let_def write_tx_def)
      (intro impI update_vault_auth_keys, simp add: auth_key_def)
  ultimately show ?thesis
    using ok(3,7) good_write_ops(2) [of "co_crypto co" "wd_db w1"] fits_transfer [of "ca_vault ca" "wd_db w1"] by simp
qed simp_all

lemma authed_run:
  assumes "good (co_crypto co) d"
    and "\<And>ca d'. good (co_crypto co) d' \<Longrightarrow> fits (ca_vault ca) d' \<Longrightarrow> runs (co_crypto co) d' (op ca)"
  shows "runs (co_crypto co) d (authed co rq op)"
  unfolding runs_def
proof (intro allI impI)
  fix w :: World assume d: "wd_db w = d"
  obtain r wa where a: "authenticate co rq w = (r, wa)" by (cases "authenticate co rq w")
  show "good (co_crypto co) (wd_db (snd (authed co rq op w)))"
  proof (cases r)
    case (Inl e)
    have "spent_only w wa" using a Inl by (cases rule: authenticate_cases) auto
    then have "good (co_crypto co) (wd_db wa)"
      using assms(1) d by (metis good_def spent_inv(1) spent_authentic(1) spent_only_def)
    then show ?thesis using a Inl by (simp add: authed_def hbind_def)
  next
    case (Inr ca)
    have ok: "good (co_crypto co) (wd_db wa)" "fits (ca_vault ca) (wd_db wa)"
      using authenticated_fits [of co rq w ca wa] a Inr assms(1) d by simp_all
    have "good (co_crypto co) (wd_db (snd (op ca (wa\<lparr>wd_tick := Suc (wd_tick wa)\<rparr>))))"
      using assms(2) [OF ok] by (simp add: runs_def)
    then show ?thesis
      using a Inr ok
      by (cases "admit_request (admission (co_policy co)) ca (co_clock co (wd_tick wa))")
        (auto simp: authed_def hbind_def core_now_def hlift_def split: prod.split sum.split)
  qed
qed

lemma dispatch_run:
  assumes "good (co_crypto co) d"
  shows "runs (co_crypto co) d (dispatch co rq)"
proof -
  have "runs (co_crypto co) d (dispatch_route co rq query params i)" for query params i
    unfolding dispatch_route_def
    by (cases i) (auto intro!: authed_run runs_lift runs_pure open_handlers_run create_run report_run status_run
        record_handlers_signed vault_handlers_signed critical_handlers_signed assms)
  then show ?thesis using assms by (auto simp: dispatch_def runs_pure split: prod.splits Lookup.splits)
qed

lemma core_call_good:
  assumes "good (co_crypto co) (wd_db w)"
  shows "good (co_crypto co) (wd_db (snd (core_call co rq w)))"
proof -
  have "snd (core_call co rq w) = snd (dispatch co rq w)" by (simp add: core_call_def split: prod.splits sum.splits)
  then show ?thesis using dispatch_run [OF assms, of rq] by (simp add: runs_def)
qed

end
