(* ===== verification/Core_Props.thy ===== *)
theory Core_Props
  imports Core_Example Core_Signed_Calls
begin

text \<open>
  Properties of the server core as a whole: its reachable states, single use of requests, what an
  unauthenticated or insufficient credential can change.
\<close>

section \<open>Reachable states\<close>

text \<open>A fresh server, requests in any order, and restarts that replay the journal over the same
  database.\<close>

inductive core_reachable :: "Core \<Rightarrow> World \<Rightarrow> bool" for co where
  fresh: "core_reachable co \<lparr>wd_db = empty_db, wd_files = files, wd_tick = t\<rparr>"
| call: "core_reachable co w \<Longrightarrow> core_reachable co (snd (core_call co rq w))"
| restart: "core_reachable co w \<Longrightarrow> core_reachable co (snd (core_open co w))"

lemma replay_all_inv: "db_inv c d \<Longrightarrow> db_inv c (snd (replay_all c rs d))"
proof (induction rs arbitrary: d)
  case (Cons r rs)
  obtain x d' where r: "replay c r d = (x, d')" by (cases "replay c r d")
  with replay_inv [OF Cons(2), of r] Cons(1) [of d'] show ?case by (simp split: sum.split)
qed simp

lemma core_open_inv: "db_inv (co_crypto co) (wd_db w) \<Longrightarrow> db_inv (co_crypto co) (wd_db (snd (core_open co w)))"
  using replay_all_inv [of "co_crypto co" "wd_db w"]
  by (auto simp: core_open_def replay_journal_def Let_def split: sum.splits prod.splits)
    (metis snd_conv)+

lemma core_call_inv: "db_inv (co_crypto co) (wd_db w) \<Longrightarrow> db_inv (co_crypto co) (wd_db (snd (core_call co rq w)))"
  using db_kept.call_keeps [of co 0 w rq] by (simp add: db_from_def)

text \<open>C5. Whatever requests a server answers, in whatever order, with whatever failures of its journal
  directory, and across restarts, its database keeps the store's invariant.\<close>

theorem core_reachable_invariant:
  assumes "core_reachable co w"
  shows "db_inv (co_crypto co) (wd_db w)"
  using assms by induction (simp_all add: empty_db_inv core_call_inv core_open_inv)

theorem core_reachable_invariant_witness:
  "db_inv null_crypto (wd_db (snd (core_call ex_core (ex_call ''GET'' ''/v1/vault'' owner_params) (ex_world empty_db))))"
  using core_reachable_invariant [OF core_reachable.call [OF core_reachable.fresh], of ex_core]
  by (simp add: ex_core_def ex_world_def)

section \<open>Replayed requests\<close>

text \<open>C3. Under a clock that neither runs back nor comes near the end of \<open>i64\<close>, a request whose header bears
  a time that is not negative, and that authenticated once, is answered 401 from then on: whatever
  requests the server answers in between, the same authorization header on any signed route is refused,
  unless that authentication itself stalls for longer than the skew window between its two readings of
  the clock. A negative time is the case the wrapping skew test of \<open>auth.rs\<close> lets through: what such a header
  spends is due for purging at once, and once purged it authenticates again.\<close>

theorem replayed_request_refused:
  assumes "sane_clock co" and "names_route rq i" and "signed_route i"
    and "authenticate co rq w = (Inr ca, wa)"
    and "rq_authorization rq = Some header" and "sig_parse (co_crypto co) header = Inr params"
    and "0 \<le> sp_ts params"
    and "w' = fold (\<lambda>rq w. snd (core_call co rq w)) later (snd (core_call co rq w))"
    and "co_clock co (Suc (wd_tick w')) \<le> co_clock co (wd_tick w') + MAX_SKEW_SECS"
    and "rq_authorization rq' = Some header" and "names_route rq' i'" and "signed_route i'"
  shows "fst (core_call co rq' w') = to_response unauthorized"
proof -
  let ?x = "(Nonce, nonce_id params, i64_wrap (sp_ts params + 2 * MAX_SKEW_SECS))"
  have "spent_from co ?x 0 (wd_tick wa) (wd_db wa)"
    using nonce_recorded [OF assms(4-6)] by (simp add: spent_from_def)
  from call_authenticated [OF assms(2-4) spent_kept.handler_contract_axioms this]
  have "spent_from co ?x 0 (wd_tick w') (wd_db w')"
    unfolding assms(8) by (rule spent_kept.calls_keep)
  then have "fst (authenticate co rq' w') = Inl unauthorized"
    using assms by (intro reused_nonce [of co rq' header params]) simp_all
  then obtain w2 where "authenticate co rq' w' = (Inl unauthorized, w2)"
    by (cases "authenticate co rq' w'") simp
  from call_unauthenticated [OF assms(11,12) this] show ?thesis by simp
qed

lemma ex_sane_clock: "sane_clock ex_core"
  by (simp add: sane_clock_def ex_core_def mono_def)

theorem replayed_request_refused_witness:
  "fst (core_call ex_core (ex_call ''GET'' ''/v1/vault'' owner_params)
     (snd (core_call ex_core (ex_call ''GET'' ''/v1/vault'' owner_params) (ex_world ex_db1)))) = to_response unauthorized"
proof -
  let ?rq = "ex_call ''GET'' ''/v1/vault'' owner_params"
  obtain ca wa where "authenticate ex_core ?rq (ex_world ex_db1) = (Inr ca, wa)" using ex_owner by blast
  from replayed_request_refused [OF ex_sane_clock ex_routes(1) _ this, of _ _ _ "[]" ?rq Status]
  show ?thesis
    using ex_headers ex_routes(1) by (simp add: signed_route_def ex_call_def ex_core_def owner_params_def MAX_SKEW_SECS_def)
qed

section \<open>Credentials that do not suffice\<close>

text \<open>C27. A request on a signed route that does not authenticate is answered 401 and changes nothing
  but the table of spent ids.\<close>

theorem unauthenticated_call_harmless:
  assumes "names_route rq i" and "signed_route i" and "fst (authenticate co rq w) = Inl e"
  shows "fst (core_call co rq w) = to_response e \<and> cr_status (fst (core_call co rq w)) = 401
    \<and> spent_only w (snd (core_call co rq w))"
proof -
  obtain w' where a: "authenticate co rq w = (Inl e, w')" using assms(3) by (cases "authenticate co rq w") simp
  then have "spent_only w w' \<and> ce_code e \<in> {ErrorCode.Unauthorized, ErrorCode.TokenExpired}"
    by (cases rule: authenticate_cases) (auto simp: unauthorized_def core_error_def)
  then show ?thesis
    using call_unauthenticated [OF assms(1,2) a] by (auto simp: to_response_def error_status_def)
qed

theorem unauthenticated_call_harmless_witness:
  "cr_status (fst (core_call ex_core ((ex_call ''GET'' ''/v1/vault'' owner_params)\<lparr>rq_authorization := None\<rparr>) (ex_world ex_db1)))
     = 401"
proof -
  let ?rq = "(ex_call ''GET'' ''/v1/vault'' owner_params)\<lparr>rq_authorization := None\<rparr>"
  have "names_route ?rq Status" using ex_routes(1) [of owner_params] by (simp add: names_route_def)
  moreover have "fst (authenticate ex_core ?rq (ex_world ex_db1)) = Inl unauthorized"
    by (simp add: authenticate_def hbind_def hlift_def)
  moreover have "signed_route Status" by (simp add: signed_route_def)
  ultimately show ?thesis using unauthenticated_call_harmless by blast
qed

text \<open>What the operation of a route needs from the credential, where it needs something.\<close>

fun route_need :: "RouteId \<Rightarrow> Need option" where
  "route_need RouteId.DeleteVault = Some Need.Owner"
| "route_need ChildrenGet = Some Need.Owner"
| "route_need ChildrenPut = Some Need.Owner"
| "route_need RouteId.Rotate = Some Need.Owner"
| "route_need RouteId.RegisterToken = Some Need.Owner"
| "route_need RevokeToken = Some Manage"
| "route_need RouteId.Audit = Some ReadAudit"
| "route_need (RecordGet k) = Some (need_read k)"
| "route_need (RecordVersion k) = Some (need_read k)"
| "route_need (RecordPut k) = Some (need_write k)"
| "route_need (RecordDelete k) = Some (need_write k)"
| "route_need _ = None"

definition refuses :: "'a handler \<Rightarrow> bool" where
  "refuses m \<longleftrightarrow> (\<forall>w. \<exists>e w'. m w = (Inl e, w') \<and> audit_only (wd_db w) (wd_db w') \<and> wd_files w' = wd_files w)"

lemma refuses_fail: "refuses (hfail e)"
  by (simp add: refuses_def hfail_def)

lemma refuses_lift: "(\<And>a. refuses (f a)) \<Longrightarrow> refuses (hbind (hlift r) f)"
  by (cases r) (simp_all add: refuses_def hbind_def hlift_def)

lemma record_event_only: "audit_only d (snd (record_event c p e now d))"
  unfolding record_event_def
  by (rule write_tx_inv [where P = "audit_only d"])
    (auto simp: rbind_eq_Inr split: if_splits intro: append_audit_only)

lemma refuses_require: "\<not> can ca need \<Longrightarrow> refuses (hbind (require co ca need action name) f)"
  using record_event_only
  by (auto simp: refuses_def require_def core_refuse_def hbind_def hafter_def core_now_def hret_def hfail_def
      store_write_def Let_def split_def)

lemma is_owner_can: "is_owner ca \<longleftrightarrow> can ca Need.Owner"
  by (cases "ca_principal ca") (simp_all add: is_owner_def can_def caller_scope_def)

lemma need_refuses:
  assumes "route_need i = Some need" and "\<not> can ca need" and "names_route rq i"
  shows "\<exists>op. dispatch co rq = authed co rq op \<and> refuses (op ca)"
proof -
  obtain route params where r: "lookup (rq_method rq) (fst (split_query (rq_path_and_query rq))) = Found route params"
    "ro_id route = i" using assms(3) by (auto simp: names_route_def)
  obtain path query where q: "split_query (rq_path_and_query rq) = (path, query)" by (cases "split_query (rq_path_and_query rq)")
  have "\<exists>op. dispatch_route co rq query params i = authed co rq op \<and> refuses (op ca)"
    using assms(1,2)
    by (cases i; simp add: dispatch_route_def core_delete_vault_def core_children_def core_put_children_def core_rotate_def
        core_register_def core_revoke_def audit_page_def record_read_def record_put_def record_delete_def is_owner_can)
      (rule exI, rule conjI, rule refl, auto simp: core_delete_vault_def core_children_def core_revoke_def is_owner_can
        intro!: refuses_lift refuses_require refuses_fail)+
  then show ?thesis using r by (simp add: dispatch_def q)
qed

text \<open>C4. A caller whose scope does not cover a route is refused: the answer is an error, the journal is
  untouched, and nothing but the audit chain differs from the database authentication left.\<close>

theorem scope_enforced:
  assumes "names_route rq i" and "route_need i = Some need"
    and "authenticate co rq w = (Inr ca, wa)" and "\<not> can ca need"
  shows "cr_error (fst (core_call co rq w)) \<noteq> None
    \<and> audit_only (wd_db wa) (wd_db (snd (core_call co rq w)))
    \<and> wd_files (snd (core_call co rq w)) = wd_files wa"
proof -
  obtain op where op: "dispatch co rq = authed co rq op" "refuses (op ca)"
    using need_refuses [OF assms(2,4,1)] by blast
  let ?w = "wa\<lparr>wd_tick := Suc (wd_tick wa)\<rparr>"
  obtain e w' where run: "op ca ?w = (Inl e, w')" "audit_only (wd_db ?w) (wd_db w')" "wd_files w' = wd_files ?w"
    using op(2) unfolding refuses_def by blast
  show ?thesis
    by (cases "admit_request (admission (co_policy co)) ca (co_clock co (wd_tick wa))")
      (use run in \<open>simp_all add: core_call_def op(1) authed_def hbind_def assms(3) core_now_def hlift_def to_response_def\<close>)
qed

lemma ex_admin_token:
  "\<exists>ca w. authenticate ex_core (ex_call m path token_params) (ex_world ex_db2) = (Inr ca, w) \<and> \<not> can ca Need.Owner"
  by (simp add: core_run ex_core_def ex_call_def ex_world_def ex_headers ex_db1_def ex_db2_def create_vault_def
      register_token_def tx_defs vault_defs token_defs ex_defs empty_db_def,
      simp add: core_run token_params_def ex_new_vault_def tx_defs vault_defs token_defs i64_run can_def caller_scope_def
      flip: replicate_add)

theorem scope_enforced_witness:
  "cr_error (fst (core_call ex_core (ex_call ''DELETE'' ''/v1/vault'' token_params) (ex_world ex_db2))) \<noteq> None"
proof -
  obtain ca wa where "authenticate ex_core (ex_call ''DELETE'' ''/v1/vault'' token_params) (ex_world ex_db2) = (Inr ca, wa)"
    "\<not> can ca Need.Owner" using ex_admin_token by blast
  with scope_enforced [OF ex_routes(2) route_need.simps(1)] show ?thesis by blast
qed

section \<open>The skew window\<close>

lemma i64_abs_sub:
  assumes "i64_range now" and "i64_range ts"
  shows "i64_abs (i64_sub now ts) =
    (if \<bar>now - ts\<bar> < 2 ^ 63 then \<bar>now - ts\<bar> else if \<bar>now - ts\<bar> = 2 ^ 63 then - (2 ^ 63) else 2 ^ 64 - \<bar>now - ts\<bar>)"
proof -
  let ?d = "now - ts"
  have d: "\<bar>?d\<bar> < 2 ^ 64" using assms by (auto simp: i64_range_def i64_min_def i64_max_def)
  have wrap: "i64_wrap x = x - 2 ^ 64" if "2 ^ 63 \<le> x" "x < 2 ^ 64" for x
    using that i64_wrap_id [of "x - 2 ^ 64"] mod_add_self2 [of "x - 2 ^ 64 + 2 ^ 63" "2 ^ 64 :: int"]
    by (simp add: add.commute i64_wrap_def i64_range_def i64_min_def i64_max_def)
  have wrap': "i64_wrap x = x + 2 ^ 64" if "x < - (2 ^ 63)" "- (2 ^ 64) < x" for x
    using that i64_wrap_id [of "x + 2 ^ 64"] mod_add_self2 [of "x + 2 ^ 63" "2 ^ 64 :: int"]
    by (simp add: i64_wrap_def i64_range_def i64_min_def i64_max_def)
  consider "\<bar>?d\<bar> < 2 ^ 63" | "?d = - (2 ^ 63)" | "2 ^ 63 = ?d" | "2 ^ 63 < ?d" | "?d < - (2 ^ 63)" by linarith
  then show ?thesis
  proof cases
    case 1
    then show ?thesis by (simp add: skew_ok i64_range_def i64_min_def i64_max_def abs_less_iff)
  next
    case 2
    then show ?thesis by (simp add: i64_abs_def i64_sub_def i64_wrap_def)
  next
    case 3
    then show ?thesis by (simp add: i64_abs_def i64_sub_def i64_wrap_def flip: 3)
  next
    case 4
    then show ?thesis using d wrap [of ?d] i64_wrap_id [of "2 ^ 64 - ?d"]
      by (simp add: i64_abs_def i64_sub_def i64_range_def i64_min_def i64_max_def)
  next
    case 5
    then show ?thesis using d wrap' [of ?d] i64_wrap_id [of "?d + 2 ^ 64"]
      by (simp add: i64_abs_def i64_sub_def i64_range_def i64_min_def i64_max_def)
  qed
qed

text \<open>C28. Which times a valid signature is accepted at: within the window on either side, and, because
  the subtraction and \<open>abs\<close> wrap, also when the header's time is \<open>2 ^ 63\<close> seconds away or within the
  window of \<open>2 ^ 64\<close>.\<close>

theorem skew_window:
  assumes "i64_range now" and "i64_range (sp_ts params)"
    and "ed25519_verify (co_crypto co) (k32 public) (params_signing_input (co_crypto co) params
       \<lparr>sr_method = rq_method rq, sr_path_and_query = rq_path_and_query rq, sr_body = rq_body rq,
        sr_if_match = rq_if_match rq, sr_if_none_match = rq_if_none_match rq\<rparr>) (sp_sig params)"
  shows "verify_request co public rq params now = Inr () \<longleftrightarrow>
    \<bar>now - sp_ts params\<bar> \<le> MAX_SKEW_SECS \<or> \<bar>now - sp_ts params\<bar> = 2 ^ 63
    \<or> 2 ^ 64 - MAX_SKEW_SECS \<le> \<bar>now - sp_ts params\<bar>"
  using assms(3) i64_abs_sub [OF assms(1,2)]
  by (auto simp: verify_request_def MAX_SKEW_SECS_def)

theorem skew_window_witness:
  "verify_request ex_core (Key32 (replicate 32 9)) (ex_call ''GET'' ''/v1/vault'' owner_params)
     (owner_params\<lparr>sp_ts := 100 - 2 ^ 63\<rparr>) 100 = Inr ()"
proof -
  have "ed25519_verify (co_crypto ex_core) (k32 (Key32 (replicate 32 9))) m
      (sp_sig (owner_params\<lparr>sp_ts := 100 - 2 ^ 63\<rparr>))" for m
    by (simp add: ex_core_def null_crypto_def owner_params_def flip: replicate_add)
  then show ?thesis
    by (subst skew_window) (simp_all add: i64_range_def i64_min_def i64_max_def)
qed

section \<open>Everything stored is signed\<close>

text \<open>C1. After any requests to a fresh server, every vault is authentic: its id is the hash of its owner
  key, its current descriptor and owner bundle carry that key's signature for its generation, every
  stored version of every secret and config carries a signature by that descriptor's writer key for
  its kind over exactly the stored fields, every token's bundle is owner-signed for its id, scope
  and generation, and so is the children record.\<close>

theorem stored_data_signed:
  assumes "w = fold (\<lambda>rq w. snd (core_call co rq w)) rqs \<lparr>wd_db = empty_db, wd_files = files, wd_tick = t\<rparr>"
    and "v \<in> set (vaults (wd_db w))"
  shows "vault_authentic (co_crypto co) (wd_db w) v"
proof -
  have "good (co_crypto co) (wd_db (fold (\<lambda>rq w. snd (core_call co rq w)) rqs w0))"
    if "good (co_crypto co) (wd_db w0)" for w0
    using that by (induction rqs arbitrary: w0) (simp_all add: core_call_good)
  moreover have "good (co_crypto co) empty_db"
    using empty_db_inv by (simp add: good_def authentic_def) (simp add: empty_db_def)
  ultimately show ?thesis using assms by (simp add: good_def authentic_def)
qed

theorem stored_data_signed_witness:
  "vault_authentic null_crypto
     (wd_db (snd (core_call ex_creating (ex_call ''POST'' ''/v1/vaults'' creation_params) (ex_world empty_db))))
     (hd (vaults (wd_db (snd (core_call ex_creating (ex_call ''POST'' ''/v1/vaults'' creation_params) (ex_world empty_db))))))"
proof -
  let ?w = "snd (core_call ex_creating (ex_call ''POST'' ''/v1/vaults'' creation_params) (ex_world empty_db))"
  have "hd (vaults (wd_db ?w)) \<in> set (vaults (wd_db ?w))" using ex_created by (intro hd_in_set) force
  from stored_data_signed [of ?w ex_creating "[ex_call ''POST'' ''/v1/vaults'' creation_params]" "[]" 0, OF _ this]
  show ?thesis by (simp add: ex_world_def ex_creating_def ex_core_def)
qed

end
