(* ===== verification/Pow.thy ===== *)
theory Pow
  imports Signed
begin

text \<open>
  Proof of work for vault creation (\<open>proto/pow.rs\<close>): stateless challenges with a keyed tag, the
  count of leading zero bits, and the search for a nonce. The reference reading of the bit count
  is a bound on the hash as one big-endian number.
\<close>

unbundle bit_operations_syntax

section \<open>Challenges\<close>

definition POW_CONTEXT :: string where "POW_CONTEXT = ''galata-vault v1 proof-of-work''"
definition MAX_DIFFICULTY :: byte where "MAX_DIFFICULTY = 40"
definition CHALLENGE_TTL_SECS :: int where "CHALLENGE_TTL_SECS = 600"
definition PAYLOAD_LEN :: nat where "PAYLOAD_LEN = 16 + 8 + 1"
definition TAG_LEN :: nat where "TAG_LEN = 16"

datatype PowError = Malformed | Tampered | Expired

record Challenge =
  cg_id :: bytes
  cg_expires_at :: int
  cg_difficulty :: byte

text \<open>\<open>blake3::keyed_hash\<close> is a parameter: the key, the input, 32 bytes.\<close>

type_synonym keyed_hash = "bytes \<Rightarrow> bytes \<Rightarrow> bytes"

definition challenge_payload :: "Challenge \<Rightarrow> bytes" where
  "challenge_payload g = cg_id g @ i64_be (cg_expires_at g) @ [cg_difficulty g]"

definition challenge_issue :: "crypto \<Rightarrow> keyed_hash \<Rightarrow> Challenge \<Rightarrow> bytes \<Rightarrow> string" where
  "challenge_issue c kh g server_key =
     (let payload = challenge_payload g
      in b64_encode c (payload @ take TAG_LEN (kh server_key payload)))"

text \<open>The constant-time comparison: every difference is folded in before deciding.\<close>

definition tag_diff :: "bytes \<Rightarrow> bytes \<Rightarrow> byte" where
  "tag_diff as bs = fold (\<lambda>(a, b) acc. acc OR (a XOR b)) (zip as bs) 0"

definition challenge_open :: "crypto \<Rightarrow> keyed_hash \<Rightarrow> string \<Rightarrow> bytes \<Rightarrow> int \<Rightarrow> PowError + Challenge" where
  "challenge_open c kh token server_key now =
     rbind (ok_or (b64_decode c token) Malformed) (\<lambda>raw.
     if length raw \<noteq> PAYLOAD_LEN + TAG_LEN then Inl Malformed
     else
       (let payload = take PAYLOAD_LEN raw; tag = drop PAYLOAD_LEN raw in
        if tag_diff (take TAG_LEN (kh server_key payload)) tag \<noteq> 0 then Inl Tampered
        else
          (let difficulty = payload ! 24; expires_at = i64_of_be (take 8 (drop 16 payload)) in
           if difficulty > MAX_DIFFICULTY then Inl Malformed
           else if now > expires_at then Inl Expired
           else Inr \<lparr>cg_id = take 16 payload, cg_expires_at = expires_at, cg_difficulty = difficulty\<rparr>)))"

section \<open>The work\<close>

definition le_bytes :: "nat \<Rightarrow> nat \<Rightarrow> bytes" where
  "le_bytes k n = rev (be_bytes k n)"

definition pow_hash :: "crypto \<Rightarrow> string \<Rightarrow> nat \<Rightarrow> bytes" where
  "pow_hash c token nonce = blake3_derive c POW_CONTEXT (str_bytes token @ le_bytes 8 nonce)"

text \<open>\<open>u8::leading_zeros\<close>.\<close>

definition u8_leading_zeros :: "byte \<Rightarrow> nat" where
  "u8_leading_zeros b =
     (if b \<ge> 128 then 0 else if b \<ge> 64 then 1 else if b \<ge> 32 then 2 else if b \<ge> 16 then 3
      else if b \<ge> 8 then 4 else if b \<ge> 4 then 5 else if b \<ge> 2 then 6 else if b \<ge> 1 then 7 else 8)"

fun leading_zero_bits :: "bytes \<Rightarrow> nat" where
  "leading_zero_bits [] = 0"
| "leading_zero_bits (b # bs) = (if b = 0 then 8 + leading_zero_bits bs else u8_leading_zeros b)"

definition pow_verify :: "crypto \<Rightarrow> string \<Rightarrow> byte \<Rightarrow> nat \<Rightarrow> bool" where
  "pow_verify c token difficulty nonce \<longleftrightarrow> leading_zero_bits (pow_hash c token nonce) \<ge> unat difficulty"

text \<open>\<open>(0..=u64::MAX).find(..)\<close>: the search counts up and ends at the last \<open>u64\<close>.\<close>

function solve_from :: "crypto \<Rightarrow> string \<Rightarrow> byte \<Rightarrow> nat \<Rightarrow> nat option" where
  "solve_from c token difficulty nonce =
     (if nonce \<ge> 2 ^ 64 then None
      else if pow_verify c token difficulty nonce then Some nonce
      else solve_from c token difficulty (Suc nonce))"
  by pat_completeness auto

termination
  by (relation "measure (\<lambda>(c, token, difficulty, nonce). 2 ^ 64 - nonce)") auto

declare solve_from.simps [simp del]

definition pow_solve :: "crypto \<Rightarrow> string \<Rightarrow> byte \<Rightarrow> PowError + nat" where
  "pow_solve c token difficulty =
     (if difficulty > MAX_DIFFICULTY then Inl Malformed
      else ok_or (solve_from c token difficulty 0) Malformed)"

section \<open>Leading zeros as a bound\<close>

lemma u8_leading_zeros_nat: "d \<le> 8 \<Longrightarrow> d \<le> u8_leading_zeros b \<longleftrightarrow> unat b < 2 ^ (8 - d)"
proof -
  assume "d \<le> 8"
  then consider "d = 0" | "d = 1" | "d = 2" | "d = 3" | "d = 4" | "d = 5" | "d = 6" | "d = 7" | "d = 8" by linarith
  then show ?thesis
    using unat_byte_less [of b] by cases (auto simp: u8_leading_zeros_def word_le_nat_alt not_le)
qed

lemma u8_leading_zeros_8: "u8_leading_zeros b \<le> 8" "b \<noteq> 0 \<Longrightarrow> u8_leading_zeros b < 8"
  using u8_leading_zeros_nat [of 8 b] by (auto simp: u8_leading_zeros_def unat_eq_zero not_le)

text \<open>The reference definition: at least \<open>d\<close> leading zero bits means below \<open>2 ^ (8 n - d)\<close>.\<close>

lemma leading_zero_bits_bound:
  "d \<le> 8 * length h \<Longrightarrow> d \<le> leading_zero_bits h \<longleftrightarrow> of_be h < 2 ^ (8 * length h - d)"
proof (induction h arbitrary: d)
  case Nil
  then show ?case by simp
next
  case (Cons b h)
  have lt: "of_be h < 2 ^ (8 * length h)"
    using of_be_less [of h] by (simp add: power_mult [of "2::nat" 8, simplified])
  have val: "of_be (b # h) = unat b * 2 ^ (8 * length h) + of_be h"
    by (simp add: of_be_Cons power_mult [of "2::nat" 8, simplified])
  show ?case
  proof (cases "b = 0")
    case True
    show ?thesis
    proof (cases "d \<le> 8")
      case le: True
      have "of_be h < 2 ^ (8 * length (b # h) - d)"
        using le by (intro less_le_trans [OF lt] power_increasing) auto
      with True le val show ?thesis by simp
    next
      case False
      then have "d - 8 \<le> 8 * length h" "8 * length (b # h) - d = 8 * length h - (d - 8)" using Cons.prems by auto
      with True False Cons.IH [of "d - 8"] val show ?thesis by (auto simp: le_diff_conv)
    qed
  next
    case False
    show ?thesis
    proof (cases "d \<le> 8")
      case True
      have "8 * length (b # h) - d = 8 * length h + (8 - d)" using True by simp
      then have bound: "(2::nat) ^ (8 * length (b # h) - d) = 2 ^ (8 - d) * 2 ^ (8 * length h)"
        by (simp add: power_add)
      have "unat b * 2 ^ (8 * length h) + of_be h < 2 ^ (8 - d) * 2 ^ (8 * length h) \<longleftrightarrow> unat b < 2 ^ (8 - d)"
      proof
        assume "unat b * 2 ^ (8 * length h) + of_be h < 2 ^ (8 - d) * 2 ^ (8 * length h)"
        then have "unat b * 2 ^ (8 * length h) < 2 ^ (8 - d) * 2 ^ (8 * length h)" by linarith
        then show "unat b < 2 ^ (8 - d)" by simp
      next
        assume "unat b < 2 ^ (8 - d)"
        then have "(unat b + 1) * 2 ^ (8 * length h) \<le> 2 ^ (8 - d) * 2 ^ (8 * length h)" by (intro mult_right_mono) auto
        with lt show "unat b * 2 ^ (8 * length h) + of_be h < 2 ^ (8 - d) * 2 ^ (8 * length h)" by (simp add: algebra_simps)
      qed
      with False True u8_leading_zeros_nat [of d b] val bound show ?thesis by simp
    next
      case big: False
      have "unat b \<ge> 1" using False by (simp add: Suc_leI unat_gt_0)
      then have "of_be (b # h) \<ge> 2 ^ (8 * length h)" using val by (simp add: trans_le_add1)
      moreover have "(2::nat) ^ (8 * length (b # h) - d) \<le> 2 ^ (8 * length h)"
        using big by (intro power_increasing) auto
      ultimately have "\<not> of_be (b # h) < 2 ^ (8 * length (b # h) - d)" by linarith
      with False big u8_leading_zeros_8(1) [of b] show ?thesis by auto
    qed
  qed
qed

lemma pow_verify_bound:
  assumes "length (pow_hash c token nonce) = 32"
  shows "pow_verify c token difficulty nonce \<longleftrightarrow> of_be (pow_hash c token nonce) < 2 ^ (256 - unat difficulty)"
  using leading_zero_bits_bound [of "unat difficulty" "pow_hash c token nonce"] assms unat_byte_less [of difficulty]
  by (simp add: pow_verify_def)

section \<open>The search\<close>

lemma solve_from_Some:
  "solve_from c token d n = Some m \<longleftrightarrow>
     n \<le> m \<and> m < 2 ^ 64 \<and> pow_verify c token d m \<and> (\<forall>i. n \<le> i \<and> i < m \<longrightarrow> \<not> pow_verify c token d i)"
proof (induction c token d n rule: solve_from.induct)
  case (1 c token d n)
  show ?case
  proof (cases "n \<ge> 2 ^ 64 \<or> pow_verify c token d n")
    case True
    then show ?thesis
      by (subst solve_from.simps) (auto dest: le_neq_implies_less)
  next
    case False
    then have "solve_from c token d n = solve_from c token d (Suc n)" by (subst solve_from.simps) simp
    moreover have "n \<le> m \<and> pow_verify c token d m \<longleftrightarrow> Suc n \<le> m \<and> pow_verify c token d m" for m
      using False by (metis Suc_leD le_eq_less_or_eq Suc_leI)
    moreover have "(\<forall>i. n \<le> i \<and> i < m \<longrightarrow> \<not> pow_verify c token d i) \<longleftrightarrow> (\<forall>i. Suc n \<le> i \<and> i < m \<longrightarrow> \<not> pow_verify c token d i)" for m
      using False by (metis Suc_leD le_eq_less_or_eq Suc_leI)
    ultimately show ?thesis using 1 False by auto
  qed
qed

lemma solve_from_None:
  "solve_from c token d n = None \<longleftrightarrow> (\<forall>i. n \<le> i \<and> i < 2 ^ 64 \<longrightarrow> \<not> pow_verify c token d i)"
proof (cases "solve_from c token d n")
  case (Some m)
  then have "n \<le> m \<and> m < 2 ^ 64 \<and> pow_verify c token d m" by (simp only: solve_from_Some)
  with Some show ?thesis by auto
next
  case None
  have "\<not> pow_verify c token d i" if i: "n \<le> i" "i < 2 ^ 64" for i
  proof
    assume "pow_verify c token d i"
    then obtain m where m: "n \<le> m" "pow_verify c token d m" "m \<le> i"
      and least: "\<forall>k. k < m \<longrightarrow> \<not> (n \<le> k \<and> pow_verify c token d k)"
      using i exists_least_iff [of "\<lambda>k. n \<le> k \<and> pow_verify c token d k"] by (metis not_le)
    then have "solve_from c token d n = Some m" using i unfolding solve_from_Some by auto
    with None show False by simp
  qed
  with None show ?thesis by auto
qed

text \<open>C35. The search for a proof of work always ends: it returns the least nonce whose hash has the
  leading zero bits asked for, and refuses exactly when the difficulty is above the maximum or
  no 64-bit nonce works.\<close>

theorem pow_solve_least:
  "(pow_solve c token d = Inr n \<longleftrightarrow>
      d \<le> MAX_DIFFICULTY \<and> n < 2 ^ 64 \<and> pow_verify c token d n \<and> (\<forall>i < n. \<not> pow_verify c token d i))
   \<and> (pow_solve c token d = Inl e \<longleftrightarrow>
      e = PowError.Malformed \<and> (MAX_DIFFICULTY < d \<or> (\<forall>i < 2 ^ 64. \<not> pow_verify c token d i)))"
proof (cases "MAX_DIFFICULTY < d")
  case True
  then show ?thesis by (auto simp: pow_solve_def)
next
  case False
  have some: "solve_from c token d 0 = Some n \<longleftrightarrow>
      n < 2 ^ 64 \<and> pow_verify c token d n \<and> (\<forall>i < n. \<not> pow_verify c token d i)"
    unfolding solve_from_Some by simp
  have none: "solve_from c token d 0 = None \<longleftrightarrow> (\<forall>i < 2 ^ 64. \<not> pow_verify c token d i)"
    unfolding solve_from_None by simp
  have "pow_solve c token d = ok_or (solve_from c token d 0) PowError.Malformed"
    using False by (simp add: pow_solve_def)
  moreover have "ok_or x PowError.Malformed = Inl e \<longleftrightarrow> x = None \<and> e = PowError.Malformed" for x :: "nat option"
    by (cases x) auto
  ultimately show ?thesis using some none False by auto
qed

theorem pow_solve_least_witness: "pow_solve null_crypto ''t'' 0 = Inr 0"
proof -
  have "pow_verify null_crypto ''t'' 0 0" by (simp add: pow_verify_def)
  then show ?thesis using pow_solve_least [of null_crypto "''t''" 0 0 PowError.Malformed] by (simp add: MAX_DIFFICULTY_def)
qed

section \<open>Challenges are authenticated\<close>

lemma fold_or_zero: "fold (\<lambda>(a, b) acc. acc OR (a XOR b)) ps (x :: byte) = 0 \<longleftrightarrow> x = 0 \<and> (\<forall>(a, b) \<in> set ps. a = b)"
proof (induction ps arbitrary: x)
  case (Cons p ps)
  have or: "x OR y = 0 \<longleftrightarrow> x = 0 \<and> y = 0" for x y :: byte
    by (metis or.left_neutral or_eq_0_iff)
  have xor: "x XOR y = 0 \<longleftrightarrow> x = y" for x y :: byte
    by (metis xor.assoc xor.left_neutral xor.right_neutral xor_self_eq)
  show ?case by (cases p) (auto simp: Cons.IH or xor)
qed simp

lemma tag_diff_zero: "length as = length bs \<Longrightarrow> tag_diff as bs = 0 \<longleftrightarrow> as = bs"
  unfolding tag_diff_def fold_or_zero
  by (induction as bs rule: list_induct2) auto

definition wf_challenge :: "Challenge \<Rightarrow> bool" where
  "wf_challenge g \<longleftrightarrow> length (cg_id g) = 16 \<and> i64_range (cg_expires_at g)"

lemma challenge_payload_fields:
  assumes "wf_challenge g"
  shows "length (challenge_payload g) = PAYLOAD_LEN" "take 16 (challenge_payload g) = cg_id g"
    "i64_of_be (take 8 (drop 16 (challenge_payload g))) = cg_expires_at g" "challenge_payload g ! 24 = cg_difficulty g"
  using assms by (simp_all add: challenge_payload_def wf_challenge_def PAYLOAD_LEN_def i64_of_be_i64_be nth_append)

lemma payload_of_fields:
  assumes "length p = PAYLOAD_LEN"
  shows "challenge_payload \<lparr>cg_id = take 16 p, cg_expires_at = i64_of_be (take 8 (drop 16 p)), cg_difficulty = p ! 24\<rparr> = p"
proof -
  have "drop 24 p = [p ! 24]" using assms by (simp add: PAYLOAD_LEN_def Cons_nth_drop_Suc [symmetric])
  moreover have "p = take 16 p @ take 8 (drop 16 p) @ drop 24 p"
    using append_take_drop_id [of 16 p] append_take_drop_id [of 8 "drop 16 p"] by simp
  ultimately show ?thesis
    using assms by (simp add: challenge_payload_def i64_be_of_be PAYLOAD_LEN_def)
qed

text \<open>A challenge opens exactly when it is this server's: its bytes are a payload followed by the
  first sixteen bytes of the keyed hash of that payload, its difficulty is allowed and it has
  not expired; what opens is what was issued.\<close>

theorem challenge_open_iff:
  assumes "\<And>k m. length (kh k m) = 32"
  shows "challenge_open c kh token key now = Inr g \<longleftrightarrow>
      wf_challenge g \<and> cg_difficulty g \<le> MAX_DIFFICULTY \<and> now \<le> cg_expires_at g
      \<and> b64_decode c token = Some (challenge_payload g @ take TAG_LEN (kh key (challenge_payload g)))"
proof
  assume "challenge_open c kh token key now = Inr g"
  then obtain raw where raw: "b64_decode c token = Some raw" and len: "length raw = PAYLOAD_LEN + TAG_LEN"
    and tag: "tag_diff (take TAG_LEN (kh key (take PAYLOAD_LEN raw))) (drop PAYLOAD_LEN raw) = 0"
    and d: "\<not> MAX_DIFFICULTY < take PAYLOAD_LEN raw ! 24"
    and t: "\<not> i64_of_be (take 8 (drop 16 (take PAYLOAD_LEN raw))) < now"
    and g: "g = \<lparr>cg_id = take 16 (take PAYLOAD_LEN raw), cg_expires_at = i64_of_be (take 8 (drop 16 (take PAYLOAD_LEN raw))),
        cg_difficulty = take PAYLOAD_LEN raw ! 24\<rparr>"
    unfolding challenge_open_def Let_def rbind_eq_Inr by (auto split: if_splits)
  have p: "challenge_payload g = take PAYLOAD_LEN raw"
    unfolding g by (rule payload_of_fields) (simp add: len)
  have "take TAG_LEN (kh key (take PAYLOAD_LEN raw)) = drop PAYLOAD_LEN raw"
    using tag tag_diff_zero [of "take TAG_LEN (kh key (take PAYLOAD_LEN raw))" "drop PAYLOAD_LEN raw"] assms len
    by (simp add: TAG_LEN_def PAYLOAD_LEN_def)
  then have "raw = challenge_payload g @ take TAG_LEN (kh key (challenge_payload g))"
    unfolding p by (metis append_take_drop_id)
  moreover have "wf_challenge g" using len by (simp add: g wf_challenge_def PAYLOAD_LEN_def i64_of_be_def i64_wrap_range)
  ultimately show "wf_challenge g \<and> cg_difficulty g \<le> MAX_DIFFICULTY \<and> now \<le> cg_expires_at g
      \<and> b64_decode c token = Some (challenge_payload g @ take TAG_LEN (kh key (challenge_payload g)))"
    using raw d t by (simp add: g)
next
  assume h: "wf_challenge g \<and> cg_difficulty g \<le> MAX_DIFFICULTY \<and> now \<le> cg_expires_at g
      \<and> b64_decode c token = Some (challenge_payload g @ take TAG_LEN (kh key (challenge_payload g)))"
  then have wf: "wf_challenge g" by simp
  note f = challenge_payload_fields [OF wf]
  have len: "length (take TAG_LEN (kh key (challenge_payload g))) = TAG_LEN" by (simp add: assms TAG_LEN_def)
  have "tag_diff (take TAG_LEN (kh key (challenge_payload g))) (take TAG_LEN (kh key (challenge_payload g))) = 0"
    by (simp add: tag_diff_zero)
  then show "challenge_open c kh token key now = Inr g"
    using h f len by (simp add: challenge_open_def Let_def not_less)
qed

definition ex_challenge :: Challenge where
  "ex_challenge = \<lparr>cg_id = replicate 16 3, cg_expires_at = 1000, cg_difficulty = 12\<rparr>"

theorem challenge_open_iff_witness:
  "challenge_open null_crypto (\<lambda>k m. replicate 32 0) (challenge_issue null_crypto (\<lambda>k m. replicate 32 0) ex_challenge []) [] 999
     = Inr ex_challenge"
proof -
  have "wf_challenge ex_challenge" "cg_difficulty ex_challenge \<le> MAX_DIFFICULTY" "999 \<le> cg_expires_at ex_challenge"
    by (simp_all add: ex_challenge_def wf_challenge_def i64_range_def i64_min_def i64_max_def MAX_DIFFICULTY_def)
  moreover have "b64_decode null_crypto (b64_encode null_crypto bs) = Some bs" for bs
    using null_text_codecs by (simp add: text_codecs_def)
  ultimately show ?thesis
    using challenge_open_iff [of "\<lambda>k m. replicate 32 0" null_crypto _ "[]" 999 ex_challenge]
    by (simp add: challenge_issue_def Let_def)
qed

end
