(* ===== verification/Paths.thy ===== *)
theory Paths
  imports Codec "HOL-Library.Char_ord"
begin

text \<open>
  Paths of a project's key tree (\<open>proto/path.rs\<close>): validated segments, paths of one to four
  segments, their text form, and the steps up and down the tree.
\<close>

section \<open>Segments\<close>

definition MAX_DEPTH :: nat where "MAX_DEPTH = 4"
definition MAX_SEGMENT_LEN :: nat where "MAX_SEGMENT_LEN = 63"

datatype PathError =
    Empty
  | TooDeep nat
  | EmptySegment
  | SegmentTooLong string
  | BadSegment string string

datatype Segment = Segment (seg_str: string)

text \<open>\<open>Segment\<close> derives \<open>Ord\<close> from its string, which compares bytes.\<close>

instantiation Segment :: linorder
begin

definition less_eq_Segment :: "Segment \<Rightarrow> Segment \<Rightarrow> bool" where
  "less_eq_Segment a b \<longleftrightarrow> seg_str a \<le> seg_str b"

definition less_Segment :: "Segment \<Rightarrow> Segment \<Rightarrow> bool" where
  "less_Segment a b \<longleftrightarrow> seg_str a < seg_str b"

instance
  by standard (auto simp: less_eq_Segment_def less_Segment_def Segment.expand)

end

definition is_ascii_lowercase :: "char \<Rightarrow> bool" where
  "is_ascii_lowercase a \<longleftrightarrow> 97 \<le> (of_char a :: nat) \<and> of_char a \<le> (122 :: nat)"

definition segment_new :: "string \<Rightarrow> PathError + Segment" where
  "segment_new s = (case s of
     [] \<Rightarrow> Inl EmptySegment
   | first # _ \<Rightarrow>
       if length s > MAX_SEGMENT_LEN then Inl (SegmentTooLong s)
       else if \<not> (is_ascii_lowercase first \<or> is_ascii_digit first)
       then Inl (BadSegment s ''must start with a lowercase letter or a digit'')
       else if \<not> list_all (\<lambda>a. is_ascii_lowercase a \<or> is_ascii_digit a \<or> a = CHR ''-'') s
       then Inl (BadSegment s ''only lowercase letters, digits and '-' are allowed'')
       else Inr (Segment s))"

section \<open>Paths\<close>

datatype EnvPath = EnvPath (segments: "Segment list")

definition from_segments :: "Segment list \<Rightarrow> PathError + EnvPath" where
  "from_segments ss =
     (if ss = [] then Inl Empty
      else if length ss > MAX_DEPTH then Inl (TooDeep (length ss))
      else Inr (EnvPath ss))"

definition path_parse :: "string \<Rightarrow> PathError + EnvPath" where
  "path_parse s =
     (if s = [] then Inl Empty
      else rbind (collect_results segment_new (split_on (CHR ''/'') s)) from_segments)"

definition path_to_string :: "EnvPath \<Rightarrow> string" where
  "path_to_string p = join_with (CHR ''/'') (map seg_str (segments p))"

definition path_project :: "Segment \<Rightarrow> EnvPath" where
  "path_project name = EnvPath [name]"

text \<open>\<open>&self.0[0]\<close> panics on an empty path; no constructor builds one.\<close>

definition project_name :: "EnvPath \<Rightarrow> Segment" where
  "project_name p = (case segments p of [] \<Rightarrow> Segment [] | s # _ \<Rightarrow> s)"

definition path_depth :: "EnvPath \<Rightarrow> nat" where
  "path_depth p = length (segments p)"

definition is_project :: "EnvPath \<Rightarrow> bool" where
  "is_project p \<longleftrightarrow> length (segments p) = 1"

definition path_last :: "EnvPath \<Rightarrow> Segment" where
  "path_last p = (if segments p = [] then Segment [] else last (segments p))"

definition path_parent :: "EnvPath \<Rightarrow> EnvPath option" where
  "path_parent p = (if length (segments p) > 1 then Some (EnvPath (butlast (segments p))) else None)"

definition path_child :: "EnvPath \<Rightarrow> Segment \<Rightarrow> PathError + EnvPath" where
  "path_child p s = from_segments (segments p @ [s])"

definition path_starts_with :: "EnvPath \<Rightarrow> EnvPath \<Rightarrow> bool" where
  "path_starts_with p other \<longleftrightarrow> take (length (segments other)) (segments p) = segments other"

section \<open>Well-formed paths\<close>

definition wf_segment :: "Segment \<Rightarrow> bool" where
  "wf_segment s \<longleftrightarrow> seg_str s \<noteq> [] \<and> length (seg_str s) \<le> MAX_SEGMENT_LEN \<and> hd (seg_str s) \<noteq> CHR ''-''
     \<and> list_all (\<lambda>a. is_ascii_lowercase a \<or> is_ascii_digit a \<or> a = CHR ''-'') (seg_str s)"

definition wf_path :: "EnvPath \<Rightarrow> bool" where
  "wf_path p \<longleftrightarrow> segments p \<noteq> [] \<and> length (segments p) \<le> MAX_DEPTH \<and> list_all wf_segment (segments p)"

lemma dash_not_alnum [simp]: "\<not> is_ascii_lowercase CHR ''-''" "\<not> is_ascii_digit CHR ''-''"
  by (simp_all add: is_ascii_lowercase_def is_ascii_digit_def)

lemma slash_not_segment_char: "\<not> (is_ascii_lowercase CHR ''/'' \<or> is_ascii_digit CHR ''/'' \<or> CHR ''/'' = CHR ''-'')"
  by (simp add: is_ascii_lowercase_def is_ascii_digit_def)

lemma segment_new_iff: "segment_new s = Inr g \<longleftrightarrow> g = Segment s \<and> wf_segment g"
  by (cases s) (auto simp: segment_new_def wf_segment_def)

lemma wf_segment_no_slash: "wf_segment g \<Longrightarrow> CHR ''/'' \<notin> set (seg_str g)"
  using slash_not_segment_char by (auto simp: wf_segment_def list_all_iff)

lemma collect_segments_iff:
  "collect_results segment_new ws = Inr gs \<longleftrightarrow> ws = map seg_str gs \<and> list_all wf_segment gs"
  unfolding collect_results_Inr
proof (induction ws arbitrary: gs)
  case (Cons w ws)
  then show ?case by (cases gs) (auto simp: segment_new_iff Segment.expand)
qed auto

lemma from_segments_iff:
  "from_segments ss = Inr p \<longleftrightarrow> p = EnvPath ss \<and> ss \<noteq> [] \<and> length ss \<le> MAX_DEPTH"
  by (auto simp: from_segments_def)

lemma join_with_not_Nil: "ws \<noteq> [] \<Longrightarrow> hd ws \<noteq> [] \<Longrightarrow> join_with d ws \<noteq> []"
  by (induction d ws rule: join_with.induct) auto

lemma path_to_string_not_Nil: "wf_path p \<Longrightarrow> path_to_string p \<noteq> []"
  unfolding path_to_string_def
  by (rule join_with_not_Nil) (auto simp: wf_path_def wf_segment_def list_all_iff hd_map)

lemma split_path_to_string:
  "wf_path p \<Longrightarrow> split_on (CHR ''/'') (path_to_string p) = map seg_str (segments p)"
  unfolding path_to_string_def
  by (rule split_on_join) (auto simp: wf_path_def list_all_iff wf_segment_no_slash)

text \<open>Parsing a path accepts exactly the text forms of well-formed paths (one to four
  segments of lowercase letters, digits and dashes, not starting with a dash, at most 63 bytes each) and inverts
  them, so two different strings never name one node.\<close>

theorem path_codec: "path_parse s = Inr p \<longleftrightarrow> wf_path p \<and> s = path_to_string p"
proof
  assume "path_parse s = Inr p"
  then obtain gs where gs: "split_on (CHR ''/'') s = map seg_str gs" "list_all wf_segment gs"
    and p: "p = EnvPath gs" "gs \<noteq> []" "length gs \<le> MAX_DEPTH"
    by (auto simp: path_parse_def rbind_eq_Inr collect_segments_iff from_segments_iff split: if_splits)
  have "s = path_to_string p" using join_split_on [of "CHR ''/''" s] gs p by (simp add: path_to_string_def)
  with gs p show "wf_path p \<and> s = path_to_string p" by (simp add: wf_path_def)
next
  assume "wf_path p \<and> s = path_to_string p"
  then have wf: "wf_path p" and s: "s = path_to_string p" by simp_all
  have "collect_results segment_new (split_on (CHR ''/'') s) = Inr (segments p)"
    using wf by (simp add: s split_path_to_string collect_segments_iff wf_path_def)
  moreover have "from_segments (segments p) = Inr p"
    using wf by (simp add: from_segments_iff wf_path_def)
  ultimately show "path_parse s = Inr p"
    using path_to_string_not_Nil [OF wf] by (simp add: path_parse_def s)
qed

lemma path_child_wf: "wf_path p \<Longrightarrow> wf_segment s \<Longrightarrow> path_child p s = Inr q \<Longrightarrow> wf_path q"
  by (auto simp: path_child_def from_segments_iff wf_path_def)

lemma path_child_Inr: "path_child p s = Inr q \<longleftrightarrow> q = EnvPath (segments p @ [s]) \<and> length (segments p) < MAX_DEPTH"
  by (auto simp: path_child_def from_segments_iff)

lemma path_parent_child: "wf_path p \<Longrightarrow> path_child p s = Inr q \<Longrightarrow> path_parent q = Some p \<and> path_last q = s"
  by (cases p) (auto simp: path_child_Inr path_parent_def path_last_def wf_path_def)

lemma path_parent_wf: "wf_path p \<Longrightarrow> path_parent p = Some q \<Longrightarrow> wf_path q"
proof -
  assume wf: "wf_path p" and "path_parent p = Some q"
  then have q: "q = EnvPath (butlast (segments p))" and l: "length (segments p) > 1"
    by (auto simp: path_parent_def split: if_splits)
  have "butlast (segments p) \<noteq> []" using l by (metis length_butlast length_0_conv zero_less_diff less_numeral_extra(3))
  then show ?thesis using wf by (auto simp: q wf_path_def list_all_iff dest: in_set_butlastD)
qed

lemma path_child_starts_with: "path_child p s = Inr q \<Longrightarrow> path_starts_with q p"
  by (auto simp: path_child_Inr path_starts_with_def)

lemma path_starts_with_refl [simp]: "path_starts_with p p"
  by (simp add: path_starts_with_def)

lemma path_starts_with_iff: "path_starts_with p q \<longleftrightarrow> (\<exists>ss. segments p = segments q @ ss)"
  by (metis append_eq_conv_conj append_take_drop_id path_starts_with_def)

lemma path_to_string_inject: "wf_path p \<Longrightarrow> wf_path q \<Longrightarrow> path_to_string p = path_to_string q \<longleftrightarrow> p = q"
  by (metis split_path_to_string EnvPath.expand Segment.expand injI inj_map_eq_map)

end
