(* ===== verification/Children.thy ===== *)
theory Children
  imports Paths Signed
begin

text \<open>
  The children record in the clear (\<open>proto/children.rs\<close>): entries kept strictly sorted by
  segment, looked up and inserted by binary search, and read back from JSON. The locale
  \<open>keyed_table\<close> states what its users rely on: a finite map from segments to entries.
\<close>

section \<open>Binary search\<close>

text \<open>\<open>slice::binary_search_by\<close>: \<open>Inr\<close> the position of the key, or \<open>Inl\<close> where it belongs.\<close>

function bsearch :: "'k::linorder \<Rightarrow> 'k list \<Rightarrow> nat \<Rightarrow> nat \<Rightarrow> nat + nat" where
  "bsearch x xs lo hi =
     (if lo < hi then
        (let mid = lo + (hi - lo) div 2 in
         if xs ! mid < x then bsearch x xs (mid + 1) hi
         else if x < xs ! mid then bsearch x xs lo mid
         else Inr mid)
      else Inl lo)"
  by pat_completeness auto

termination
  by (relation "measure (\<lambda>(x, xs, lo, hi). hi - lo)") auto

declare bsearch.simps [simp del]

definition binary_search :: "'k::linorder \<Rightarrow> 'k list \<Rightarrow> nat + nat" where
  "binary_search x xs = bsearch x xs 0 (length xs)"

lemma bsearch_sound:
  assumes "sorted_wrt (<) xs" and "lo \<le> hi" and "hi \<le> length xs"
    and "\<forall>i < lo. xs ! i < x" and "\<forall>i < length xs. hi \<le> i \<longrightarrow> x < xs ! i"
  shows "case bsearch x xs lo hi of
      Inr i \<Rightarrow> i < length xs \<and> xs ! i = x
    | Inl at \<Rightarrow> at \<le> length xs \<and> (\<forall>i < at. xs ! i < x) \<and> (\<forall>i < length xs. at \<le> i \<longrightarrow> x < xs ! i)"
  using assms
proof (induction x xs lo hi rule: bsearch.induct)
  case (1 x xs lo hi)
  define mid where "mid = lo + (hi - lo) div 2"
  show ?case
  proof (cases "lo < hi")
    case False
    with 1 show ?thesis unfolding bsearch.simps [of x xs lo hi] by auto
  next
    case True
    have mid: "lo \<le> mid" "mid < hi" "mid < length xs" using True 1(5) by (auto simp: mid_def)
    consider "xs ! mid < x" | "x < xs ! mid" | "xs ! mid = x" by fastforce
    then show ?thesis
    proof cases
      case lt: 1
      have "\<forall>i < mid + 1. xs ! i < x"
        using lt mid 1(3) sorted_wrt_nth_less [of "(<)" xs] by (metis Suc_eq_plus1 less_Suc_eq less_trans)
      then show ?thesis
        using "1.IH"(1) [OF True mid_def lt] lt True mid 1(3,5,7)
        by (simp add: bsearch.simps [of x xs lo hi] mid_def [symmetric])
    next
      case gt: 2
      have "\<forall>i < length xs. mid \<le> i \<longrightarrow> x < xs ! i"
        using gt mid 1(3) sorted_wrt_nth_less [of "(<)" xs] by (metis le_neq_implies_less less_trans)
      then show ?thesis
        using "1.IH"(2) [OF True mid_def _ gt] gt True mid 1(3,6) less_imp_not_less [OF gt]
        by (simp add: bsearch.simps [of x xs lo hi] mid_def [symmetric])
    next
      case 3
      with True mid show ?thesis by (simp add: bsearch.simps [of x xs lo hi] mid_def [symmetric])
    qed
  qed
qed

lemma binary_search_cases:
  assumes "sorted_wrt (<) xs"
  shows "case binary_search x xs of
      Inr i \<Rightarrow> i < length xs \<and> xs ! i = x
    | Inl at \<Rightarrow> at \<le> length xs \<and> (\<forall>i < at. xs ! i < x) \<and> (\<forall>i < length xs. at \<le> i \<longrightarrow> x < xs ! i)"
  unfolding binary_search_def using bsearch_sound [OF assms, of 0 "length xs" x] by simp

lemma binary_search_found: "sorted_wrt (<) xs \<Longrightarrow> binary_search x xs = Inr i \<Longrightarrow> x \<in> set xs"
  using binary_search_cases [of xs x] by auto

lemma binary_search_absent:
  assumes "sorted_wrt (<) xs" and "binary_search x xs = Inl at"
  shows "x \<notin> set xs" and "\<forall>y \<in> set (take at xs). y < x" and "\<forall>y \<in> set (drop at xs). x < y"
proof -
  have at: "at \<le> length xs" "\<forall>i < at. xs ! i < x" "\<forall>i < length xs. at \<le> i \<longrightarrow> x < xs ! i"
    using binary_search_cases [OF assms(1), of x] assms(2) by auto
  show "x \<notin> set xs" using at(2,3) by (metis in_set_conv_nth less_irrefl not_less)
  show "\<forall>y \<in> set (take at xs). y < x" using at(1,2) by (auto simp: in_set_conv_nth)
  show "\<forall>y \<in> set (drop at xs). x < y" using at(1,3) by (auto simp: in_set_conv_nth)
qed

section \<open>Entries and the record\<close>

definition RESERVED_PREFIX :: string where "RESERVED_PREFIX = ''gv:''"
definition CHILDREN_RECORD_VERSION :: u32 where "CHILDREN_RECORD_VERSION = 1"

definition is_reserved_name :: "string \<Rightarrow> bool" where
  "is_reserved_name name \<longleftrightarrow> strip_prefix RESERVED_PREFIX name \<noteq> None"

datatype ChildMode = Derived | Sealed B64

record ChildEntry =
  en_seg :: Segment
  en_created_at :: int
  en_mode :: ChildMode

record ChildrenRecord =
  kr_v :: u32
  kr_children :: "ChildEntry list"

datatype ChildrenError = Version u32 | Duplicate string | Exists string | Missing string | Json string

text \<open>JSON is \<open>serde_json\<close>'s: \<open>cj_read\<close> gives the fields of a record, with segments still as
  strings, \<open>cj_segment_error\<close> is the text of a refused segment, \<open>cj_write\<close> writes.\<close>

record children_json =
  cj_read :: "bytes \<Rightarrow> string + (u32 \<times> (string \<times> int \<times> ChildMode) list)"
  cj_segment_error :: "bytes \<Rightarrow> PathError \<Rightarrow> string"
  cj_write :: "u32 \<times> (string \<times> int \<times> ChildMode) list \<Rightarrow> string + bytes"

definition children_new :: ChildrenRecord where
  "children_new = \<lparr>kr_v = CHILDREN_RECORD_VERSION, kr_children = []\<rparr>"

definition read_entry :: "string \<times> int \<times> ChildMode \<Rightarrow> PathError + ChildEntry" where
  "read_entry x = (case x of (seg, at, mode) \<Rightarrow>
     rbind (segment_new seg) (\<lambda>g. Inr \<lparr>en_seg = g, en_created_at = at, en_mode = mode\<rparr>))"

definition read_children :: "children_json \<Rightarrow> bytes \<Rightarrow> string + ChildrenRecord" where
  "read_children j bs = rbind (cj_read j bs) (\<lambda>(v, entries).
     rbind (map_err (cj_segment_error j bs) (collect_results read_entry entries)) (\<lambda>es.
       Inr \<lparr>kr_v = v, kr_children = es\<rparr>))"

text \<open>\<open>windows(2).find\<close>: the first two neighbours with one segment.\<close>

fun first_repeat :: "ChildEntry list \<Rightarrow> Segment option" where
  "first_repeat (a # b # es) = (if en_seg a = en_seg b then Some (en_seg a) else first_repeat (b # es))"
| "first_repeat _ = None"

definition children_parse :: "children_json \<Rightarrow> bytes \<Rightarrow> ChildrenError + ChildrenRecord" where
  "children_parse j bs = rbind (map_err Json (read_children j bs)) (\<lambda>r.
     if kr_v r \<noteq> CHILDREN_RECORD_VERSION then Inl (Version (kr_v r))
     else
       (let es = sort_key en_seg (kr_children r) in
        case first_repeat es of
          Some g \<Rightarrow> Inl (Duplicate (seg_str g))
        | None \<Rightarrow> Inr (r\<lparr>kr_children := es\<rparr>)))"

definition children_to_bytes :: "children_json \<Rightarrow> ChildrenRecord \<Rightarrow> ChildrenError + bytes" where
  "children_to_bytes j r = map_err Json
     (cj_write j (kr_v r, map (\<lambda>e. (seg_str (en_seg e), en_created_at e, en_mode e)) (kr_children r)))"

definition child_get :: "ChildrenRecord \<Rightarrow> Segment \<Rightarrow> ChildEntry option" where
  "child_get r g = find (\<lambda>e. en_seg e = g) (kr_children r)"

definition child_insert :: "ChildrenRecord \<Rightarrow> ChildEntry \<Rightarrow> ChildrenError + ChildrenRecord" where
  "child_insert r e = (case binary_search (en_seg e) (map en_seg (kr_children r)) of
     Inr _ \<Rightarrow> Inl (Exists (seg_str (en_seg e)))
   | Inl at \<Rightarrow> Inr (r\<lparr>kr_children := take at (kr_children r) @ e # drop at (kr_children r)\<rparr>))"

fun update_first :: "Segment \<Rightarrow> (ChildEntry \<Rightarrow> ChildEntry) \<Rightarrow> ChildEntry list \<Rightarrow> ChildEntry list option" where
  "update_first g f [] = None"
| "update_first g f (e # es) =
     (if en_seg e = g then Some (f e # es) else map_option (Cons e) (update_first g f es))"

definition child_set_mode :: "ChildrenRecord \<Rightarrow> Segment \<Rightarrow> ChildMode \<Rightarrow> ChildrenError + ChildrenRecord" where
  "child_set_mode r g mode = (case update_first g (\<lambda>e. e\<lparr>en_mode := mode\<rparr>) (kr_children r) of
     None \<Rightarrow> Inl (Missing (seg_str g))
   | Some es \<Rightarrow> Inr (r\<lparr>kr_children := es\<rparr>))"

fun remove_first :: "Segment \<Rightarrow> ChildEntry list \<Rightarrow> (ChildEntry \<times> ChildEntry list) option" where
  "remove_first g [] = None"
| "remove_first g (e # es) =
     (if en_seg e = g then Some (e, es) else map_option (\<lambda>(x, ys). (x, e # ys)) (remove_first g es))"

definition child_remove :: "ChildrenRecord \<Rightarrow> Segment \<Rightarrow> ChildrenError + (ChildEntry \<times> ChildrenRecord)" where
  "child_remove r g = (case remove_first g (kr_children r) of
     None \<Rightarrow> Inl (Missing (seg_str g))
   | Some (e, es) \<Rightarrow> Inr (e, r\<lparr>kr_children := es\<rparr>))"

section \<open>The invariant and the map it represents\<close>

definition children_wf :: "ChildrenRecord \<Rightarrow> bool" where
  "children_wf r \<longleftrightarrow> kr_v r = CHILDREN_RECORD_VERSION \<and> sorted_wrt (<) (map en_seg (kr_children r))
     \<and> list_all (wf_segment \<circ> en_seg) (kr_children r)"

definition children_map :: "ChildrenRecord \<Rightarrow> Segment \<rightharpoonup> ChildEntry" where
  "children_map r = map_of (map (\<lambda>e. (en_seg e, e)) (kr_children r))"

lemma children_new_ok [wf_intros]: "children_wf children_new"
  by (simp add: children_wf_def children_new_def)

lemma map_of_entries: "map_of (map (\<lambda>e. (en_seg e, e)) es) g = find (\<lambda>e. en_seg e = g) es"
  by (induction es) auto

lemma child_get_map: "child_get r g = children_map r g"
  by (simp add: child_get_def children_map_def map_of_entries)

lemma children_map_seg: "children_map r g = Some e \<Longrightarrow> en_seg e = g \<and> e \<in> set (kr_children r)"
  by (auto simp: children_map_def map_of_entries dest: find_Some_set)

lemma children_map_None: "children_map r g = None \<longleftrightarrow> g \<notin> en_seg ` set (kr_children r)"
  by (auto simp: children_map_def map_of_entries find_None_all)

lemma sorted_insert_at:
  assumes "sorted_wrt (<) (map f es)" and "\<forall>y \<in> set (take at es). f y < f e" and "\<forall>y \<in> set (drop at es). f e < f y"
  shows "sorted_wrt (<) (map f (take at es @ e # drop at es))"
proof -
  have "sorted_wrt (<) (map f (take at es @ drop at es))" using assms(1) by simp
  then have 1: "sorted_wrt (<) (map f (take at es))" and 2: "sorted_wrt (<) (map f (drop at es))"
    and 3: "\<forall>x \<in> set (take at es). \<forall>y \<in> set (drop at es). f x < f y"
    unfolding map_append sorted_wrt_append by auto
  show ?thesis unfolding map_append sorted_wrt_append using 1 2 3 assms(2,3) by auto
qed

lemma find_insert_at:
  assumes "en_seg e \<notin> en_seg ` set es"
  shows "find (\<lambda>x. en_seg x = g) (take at es @ e # drop at es)
     = (if g = en_seg e then Some e else find (\<lambda>x. en_seg x = g) es)"
  using assms
proof (induction es arbitrary: at)
  case (Cons a es)
  then show ?case by (cases at) auto
qed simp

lemma child_insert_Inr:
  assumes "children_wf r" and "wf_segment (en_seg e)" and "child_insert r e = Inr r'"
  shows "children_wf r'" and "children_map r (en_seg e) = None"
    and "children_map r' = (children_map r)(en_seg e \<mapsto> e)"
proof -
  let ?es = "kr_children r"
  obtain at where at: "binary_search (en_seg e) (map en_seg ?es) = Inl at"
    and r': "r' = r\<lparr>kr_children := take at ?es @ e # drop at ?es\<rparr>"
    using assms(3) by (auto simp: child_insert_def split: sum.splits)
  have sorted: "sorted_wrt (<) (map en_seg ?es)" using assms(1) by (simp add: children_wf_def)
  note absent = binary_search_absent [OF sorted at]
  have new: "en_seg e \<notin> en_seg ` set ?es" using absent(1) by simp
  have wf: "list_all (wf_segment \<circ> en_seg) (take at ?es @ e # drop at ?es)"
    using assms(1,2) by (auto simp: children_wf_def list_all_iff dest: in_set_takeD in_set_dropD)
  have "sorted_wrt (<) (map en_seg (take at ?es @ e # drop at ?es))"
    using absent(2,3) by (intro sorted_insert_at sorted) (auto simp: take_map drop_map)
  then show "children_wf r'" using assms(1) wf by (simp add: children_wf_def r')
  show none: "children_map r (en_seg e) = None" using new by (simp add: children_map_None)
  show "children_map r' = (children_map r)(en_seg e \<mapsto> e)"
  proof
    fix g
    have "children_map r' g = find (\<lambda>x. en_seg x = g) (take at ?es @ e # drop at ?es)"
      unfolding children_map_def map_of_entries by (simp add: r')
    moreover have "children_map r g = find (\<lambda>x. en_seg x = g) ?es"
      by (simp add: children_map_def map_of_entries)
    ultimately show "children_map r' g = ((children_map r)(en_seg e \<mapsto> e)) g"
      using find_insert_at [OF new, of g at] by simp
  qed
qed

lemma child_insert_Inl:
  assumes "children_wf r"
  shows "child_insert r e = Inl x \<longleftrightarrow> x = Exists (seg_str (en_seg e)) \<and> children_map r (en_seg e) \<noteq> None"
proof (cases "binary_search (en_seg e) (map en_seg (kr_children r))")
  case (Inl at)
  then have "en_seg e \<notin> set (map en_seg (kr_children r))"
    using assms by (intro binary_search_absent(1)) (simp_all add: children_wf_def)
  with Inl show ?thesis by (simp add: child_insert_def children_map_None)
next
  case (Inr i)
  then have "en_seg e \<in> set (map en_seg (kr_children r))"
    using assms by (intro binary_search_found) (simp_all add: children_wf_def)
  with Inr show ?thesis by (auto simp: child_insert_def children_map_None)
qed

lemma update_first_Some:
  assumes "update_first g f es = Some es'" and "\<And>e. en_seg (f e) = en_seg e"
  shows "map en_seg es' = map en_seg es"
    and "map_of (map (\<lambda>e. (en_seg e, e)) es')
       = (map_of (map (\<lambda>e. (en_seg e, e)) es))(g \<mapsto> f (the (map_of (map (\<lambda>e. (en_seg e, e)) es) g)))"
    and "g \<in> en_seg ` set es"
  using assms(1)
  by (induction es arbitrary: es') (auto simp: assms(2) fun_upd_twist split: if_splits)

lemma update_first_None: "update_first g f es = None \<longleftrightarrow> g \<notin> en_seg ` set es"
  by (induction es) auto

lemma child_set_mode_Inr:
  assumes "children_wf r" and "child_set_mode r g mode = Inr r'"
  shows "children_wf r'"
    and "\<exists>e. children_map r g = Some e \<and> children_map r' = (children_map r)(g \<mapsto> e\<lparr>en_mode := mode\<rparr>)"
proof -
  obtain es where es: "update_first g (\<lambda>e. e\<lparr>en_mode := mode\<rparr>) (kr_children r) = Some es"
    and r': "r' = r\<lparr>kr_children := es\<rparr>" using assms(2) by (auto simp: child_set_mode_def split: option.splits)
  note upd = update_first_Some [OF es, simplified]
  have "en_seg ` set es = en_seg ` set (kr_children r)" using upd(1) by (metis set_map)
  then have "\<forall>g \<in> en_seg ` set es. wf_segment g" using assms(1) by (auto simp: children_wf_def list_all_iff)
  then have "list_all (wf_segment \<circ> en_seg) es" by (simp add: list_all_iff)
  then show "children_wf r'" using assms(1) by (simp add: children_wf_def r' upd(1))
  obtain e where "children_map r g = Some e"
    using upd(3) by (cases "children_map r g") (simp_all add: children_map_None)
  then show "\<exists>e. children_map r g = Some e \<and> children_map r' = (children_map r)(g \<mapsto> e\<lparr>en_mode := mode\<rparr>)"
    using upd(2) by (simp add: children_map_def r')
qed

lemma remove_first_Some:
  assumes "remove_first g es = Some (e, es')" and "distinct (map en_seg es)"
  shows "en_seg e = g" and "es' = filter (\<lambda>x. en_seg x \<noteq> g) es" and "find (\<lambda>x. en_seg x = g) es = Some e"
  using assms by (induction es arbitrary: es') (auto split: if_splits intro!: filter_True [symmetric], metis rev_image_eqI)

lemma remove_first_None: "remove_first g es = None \<longleftrightarrow> g \<notin> en_seg ` set es"
  by (induction es) auto

lemma find_of_filter: "find P (filter Q xs) = find (\<lambda>x. Q x \<and> P x) xs"
  by (induction xs) auto

lemma child_remove_Inr:
  assumes "children_wf r" and "child_remove r g = Inr (e, r')"
  shows "children_wf r'" and "children_map r g = Some e" and "children_map r' = (children_map r)(g := None)"
proof -
  obtain es where es: "remove_first g (kr_children r) = Some (e, es)" and r': "r' = r\<lparr>kr_children := es\<rparr>"
    using assms(2) by (auto simp: child_remove_def split: option.splits)
  have sorted: "sorted_wrt (<) (map en_seg (kr_children r))" using assms(1) by (simp add: children_wf_def)
  then have "distinct (map en_seg (kr_children r))" by (simp add: strict_sorted_iff)
  note rem = remove_first_Some [OF es this]
  have "sorted_wrt (<) (map en_seg es)"
    using sorted unfolding rem(2) by (simp add: sorted_wrt_map sorted_wrt_filter)
  then show "children_wf r'" using assms(1) by (auto simp: children_wf_def r' rem(2) list_all_iff)
  show "children_map r g = Some e" using rem(3) by (simp add: children_map_def map_of_entries)
  show "children_map r' = (children_map r)(g := None)"
  proof
    fix h
    show "children_map r' h = ((children_map r)(g := None)) h"
      by (cases "h = g") (auto simp: children_map_def map_of_entries r' rem(2) find_of_filter find_None_all
          intro: find_cong)
  qed
qed

section \<open>A table with unique keys\<close>

text \<open>
  What the owner's code relies on: \<open>insert\<close> adds a new key, \<open>amend\<close> changes an existing one,
  \<open>remove\<close> takes it out, each refusing in the other case, and \<open>get\<close> reads the map they maintain.
\<close>

locale keyed_table =
  fixes ok :: "'r \<Rightarrow> bool" and abs :: "'r \<Rightarrow> 'k \<rightharpoonup> 'e" and key :: "'e \<Rightarrow> 'k" and good :: "'e \<Rightarrow> bool"
    and get :: "'r \<Rightarrow> 'k \<Rightarrow> 'e option" and insert :: "'r \<Rightarrow> 'e \<Rightarrow> 'x + 'r"
    and amend :: "'r \<Rightarrow> 'k \<Rightarrow> 'm \<Rightarrow> 'x + 'r" and remove :: "'r \<Rightarrow> 'k \<Rightarrow> 'x + ('e \<times> 'r)"
    and change :: "'m \<Rightarrow> 'e \<Rightarrow> 'e"
  assumes get_abs: "get r k = abs r k"
    and abs_key: "abs r k = Some e \<Longrightarrow> key e = k"
    and insert_ok: "ok r \<Longrightarrow> good e \<Longrightarrow> insert r e = Inr r' \<Longrightarrow> ok r' \<and> abs r' = (abs r)(key e \<mapsto> e)"
    and insert_iff: "ok r \<Longrightarrow> is_ok (insert r e) \<longleftrightarrow> abs r (key e) = None"
    and amend_ok: "ok r \<Longrightarrow> amend r k m = Inr r' \<Longrightarrow>
      ok r' \<and> (\<exists>e. abs r k = Some e \<and> abs r' = (abs r)(k \<mapsto> change m e))"
    and amend_iff: "ok r \<Longrightarrow> is_ok (amend r k m) \<longleftrightarrow> abs r k \<noteq> None"
    and remove_ok: "ok r \<Longrightarrow> remove r k = Inr (e, r') \<Longrightarrow> ok r' \<and> abs r k = Some e \<and> abs r' = (abs r)(k := None)"
    and remove_iff: "ok r \<Longrightarrow> is_ok (remove r k) \<longleftrightarrow> abs r k \<noteq> None"
begin

lemma insert_then_remove:
  assumes "ok r" and "good e" and "insert r e = Inr r'"
  shows "\<exists>r''. remove r' (key e) = Inr (e, r'') \<and> ok r'' \<and> abs r'' = abs r"
proof -
  have r': "ok r'" "abs r' = (abs r)(key e \<mapsto> e)" using insert_ok [OF assms] by auto
  have none: "abs r (key e) = None" using insert_iff [OF assms(1), of e] assms(3) by simp
  obtain x r'' where rem: "remove r' (key e) = Inr (x, r'')"
    using remove_iff [OF r'(1), of "key e"] r'(2) by (auto simp: is_ok_iff)
  then show ?thesis using remove_ok [OF r'(1) rem] r'(2) none by auto
qed

text \<open>\<open>seal_child\<close>: amend the entry, or insert one when there is none. It always succeeds.\<close>

lemma amend_or_insert:
  assumes "ok r" and "good e" and "k = key e"
  shows "\<exists>r' e'. (amend r k m = Inr r' \<or> (\<exists>x. amend r k m = Inl x \<and> insert r e = Inr r'))
      \<and> ok r' \<and> get r' k = Some e' \<and> (e' = e \<or> (\<exists>old. abs r k = Some old \<and> e' = change m old))
      \<and> (\<forall>j. j \<noteq> k \<longrightarrow> get r' j = get r j)"
proof (cases "amend r k m")
  case (Inl x)
  then have none: "abs r (key e) = None" using amend_iff [OF assms(1), of k m] assms(3) by simp
  then obtain r' where r': "insert r e = Inr r'" using insert_iff [OF assms(1), of e] by (auto simp: is_ok_iff)
  then show ?thesis using insert_ok [OF assms(1,2) r'] Inl assms(3) by (auto simp: get_abs)
next
  case (Inr r')
  then show ?thesis using amend_ok [OF assms(1) Inr] by (auto simp: get_abs)
qed

end

interpretation child_table: keyed_table children_wf children_map en_seg "\<lambda>e. wf_segment (en_seg e)"
  child_get child_insert child_set_mode child_remove "\<lambda>m e. e\<lparr>en_mode := m\<rparr>"
proof unfold_locales
  show "child_get r k = children_map r k" for r k by (rule child_get_map)
  show "children_map r k = Some e \<Longrightarrow> en_seg e = k" for r k e using children_map_seg by blast
  show "is_ok (child_insert r e) \<longleftrightarrow> children_map r (en_seg e) = None" if "children_wf r" for r e
    using child_insert_Inl [OF that, of e] by (cases "child_insert r e") auto
  show "is_ok (child_set_mode r k m) \<longleftrightarrow> children_map r k \<noteq> None" for r k m
    using update_first_None [of k "\<lambda>e. e\<lparr>en_mode := m\<rparr>" "kr_children r"]
    by (cases "update_first k (\<lambda>e. e\<lparr>en_mode := m\<rparr>) (kr_children r)")
      (simp_all add: child_set_mode_def children_map_None)
  show "is_ok (child_remove r k) \<longleftrightarrow> children_map r k \<noteq> None" for r k
    using remove_first_None [of k "kr_children r"]
    by (cases "remove_first k (kr_children r)") (auto simp: child_remove_def children_map_None)
  show "children_wf r' \<and> children_map r' = (children_map r)(en_seg e \<mapsto> e)"
    if "children_wf r" "wf_segment (en_seg e)" "child_insert r e = Inr r'" for r e r'
    using child_insert_Inr [OF that] by simp
  show "children_wf r' \<and> (\<exists>e. children_map r k = Some e \<and> children_map r' = (children_map r)(k \<mapsto> e\<lparr>en_mode := m\<rparr>))"
    if "children_wf r" "child_set_mode r k m = Inr r'" for r k m r'
    using child_set_mode_Inr [OF that] by simp
  show "children_wf r' \<and> children_map r k = Some e \<and> children_map r' = (children_map r)(k := None)"
    if "children_wf r" "child_remove r k = Inr (e, r')" for r k e r'
    using child_remove_Inr [OF that] by simp
qed

section \<open>Reading and writing\<close>

lemma first_repeat_None: "sorted (map en_seg es) \<Longrightarrow> first_repeat es = None \<longleftrightarrow> sorted_wrt (<) (map en_seg es)"
proof (induction es rule: first_repeat.induct)
  case (1 a b es)
  then show ?case by (auto simp: less_le)
qed auto

lemma read_entry_wf: "read_entry x = Inr e \<Longrightarrow> wf_segment (en_seg e)"
  by (auto simp: read_entry_def rbind_eq_Inr segment_new_iff split: prod.splits)

lemma children_parse_ok:
  assumes "children_parse j bs = Inr r"
  shows "children_wf r"
proof -
  obtain r0 where r0: "read_children j bs = Inr r0" "kr_v r0 = CHILDREN_RECORD_VERSION"
    and none: "first_repeat (sort_key en_seg (kr_children r0)) = None"
    and r: "r = r0\<lparr>kr_children := sort_key en_seg (kr_children r0)\<rparr>"
    using assms by (auto simp: children_parse_def rbind_eq_Inr Let_def split: if_splits option.splits)
  obtain entries where "collect_results read_entry entries = Inr (kr_children r0)"
    using r0(1) by (auto simp: read_children_def rbind_eq_Inr split: prod.splits)
  then have "list_all2 (\<lambda>x e. read_entry x = Inr e) entries (kr_children r0)" by (simp add: collect_results_Inr)
  then have "list_all (wf_segment \<circ> en_seg) (kr_children r0)"
    by (induction rule: list_all2_induct) (auto dest: read_entry_wf)
  moreover have "sorted_wrt (<) (map en_seg (sort_key en_seg (kr_children r0)))"
    using none first_repeat_None [of "sort_key en_seg (kr_children r0)"] by simp
  ultimately show ?thesis by (simp add: children_wf_def r r0(2) list_all_iff)
qed

text \<open>What the protocol relies on of \<open>serde_json\<close>: what it wrote, it reads.\<close>

definition children_json_ok :: "children_json \<Rightarrow> bool" where
  "children_json_ok j \<longleftrightarrow> (\<forall>x bs. cj_write j x = Inr bs \<longrightarrow> cj_read j bs = Inr x)"

lemma children_roundtrip:
  assumes "children_json_ok j" and "children_wf r" and "children_to_bytes j r = Inr bs"
  shows "children_parse j bs = Inr r"
proof -
  let ?f = "\<lambda>e. (seg_str (en_seg e), en_created_at e, en_mode e)"
  have "cj_read j bs = Inr (kr_v r, map ?f (kr_children r))"
    using assms(1,3) by (auto simp: children_to_bytes_def children_json_ok_def)
  moreover have "collect_results read_entry (map ?f (kr_children r)) = Inr (kr_children r)"
    using assms(2) by (intro collect_results_map)
      (auto simp: read_entry_def children_wf_def list_all_iff segment_new_iff rbind_eq_Inr)
  ultimately have read: "read_children j bs = Inr r" by (simp add: read_children_def)
  have sorted: "sorted_wrt (<) (map en_seg (kr_children r))" and v: "kr_v r = CHILDREN_RECORD_VERSION"
    using assms(2) by (simp_all add: children_wf_def)
  then have "sorted (map en_seg (kr_children r))" by (simp add: strict_sorted_iff)
  then have "sort_key en_seg (kr_children r) = kr_children r" "first_repeat (kr_children r) = None"
    using sorted by (simp_all add: sorted_sort_id sort_key_id_if_sorted first_repeat_None)
  then show ?thesis by (simp add: children_parse_def read v)
qed

section \<open>The record as a map\<close>

lemma child_insert_spec:
  assumes "children_wf r" and "wf_segment (en_seg e)"
  shows "case child_insert r e of
      Inl x \<Rightarrow> x = Exists (seg_str (en_seg e)) \<and> en_seg e \<in> dom (children_map r)
    | Inr r' \<Rightarrow> children_wf r' \<and> en_seg e \<notin> dom (children_map r) \<and> children_map r' = (children_map r)(en_seg e \<mapsto> e)"
proof (cases "child_insert r e")
  case (Inl x)
  then show ?thesis using child_insert_Inl [OF assms(1), of e x] by (simp add: domIff)
next
  case (Inr r')
  then show ?thesis using child_insert_Inr [OF assms Inr] by (simp add: domIff)
qed

lemma child_set_mode_spec:
  assumes "children_wf r"
  shows "case child_set_mode r g m of
      Inl x \<Rightarrow> x = Missing (seg_str g) \<and> g \<notin> dom (children_map r)
    | Inr r' \<Rightarrow> children_wf r' \<and> (\<exists>old. children_map r g = Some old \<and> children_map r' = (children_map r)(g \<mapsto> old\<lparr>en_mode := m\<rparr>))"
proof (cases "child_set_mode r g m")
  case (Inl x)
  then have "x = Missing (seg_str g)" by (auto simp: child_set_mode_def split: option.splits)
  with Inl show ?thesis using child_table.amend_iff [OF assms, of g m] by (simp add: domIff)
next
  case (Inr r')
  then show ?thesis using child_set_mode_Inr [OF assms Inr] by simp
qed

lemma child_remove_spec:
  assumes "children_wf r"
  shows "case child_remove r g of
      Inl x \<Rightarrow> x = Missing (seg_str g) \<and> g \<notin> dom (children_map r)
    | Inr (old, r') \<Rightarrow> children_wf r' \<and> children_map r g = Some old \<and> children_map r' = (children_map r)(g := None)"
proof (cases "child_remove r g")
  case (Inl x)
  then have "x = Missing (seg_str g)" by (auto simp: child_remove_def split: option.splits)
  with Inl show ?thesis using child_table.remove_iff [OF assms, of g] by (simp add: domIff)
next
  case (Inr p)
  obtain old r' where p: "p = (old, r')" by (cases p)
  show ?thesis using child_remove_Inr [OF assms Inr [unfolded p]] by (simp add: Inr p)
qed

text \<open>C34. The children record behaves as a map from segments to entries: with its entries strictly
  sorted, \<open>insert\<close> (by binary search) adds exactly one new key or refuses an existing one,
  \<open>set_mode\<close> changes exactly one existing entry, \<open>remove\<close> takes exactly one out, each keeps the
  entries strictly sorted and valid, and each refusal says why and changes nothing.\<close>

theorem children_refine_map:
  assumes "children_wf r" and "wf_segment (en_seg e)"
  shows "child_get r g = children_map r g
    \<and> (case child_insert r e of
        Inl x \<Rightarrow> x = Exists (seg_str (en_seg e)) \<and> en_seg e \<in> dom (children_map r)
      | Inr r' \<Rightarrow> children_wf r' \<and> en_seg e \<notin> dom (children_map r) \<and> children_map r' = (children_map r)(en_seg e \<mapsto> e))
    \<and> (case child_set_mode r g m of
        Inl x \<Rightarrow> x = Missing (seg_str g) \<and> g \<notin> dom (children_map r)
      | Inr r' \<Rightarrow> children_wf r' \<and> (\<exists>old. children_map r g = Some old \<and> children_map r' = (children_map r)(g \<mapsto> old\<lparr>en_mode := m\<rparr>)))
    \<and> (case child_remove r g of
        Inl x \<Rightarrow> x = Missing (seg_str g) \<and> g \<notin> dom (children_map r)
      | Inr (old, r') \<Rightarrow> children_wf r' \<and> children_map r g = Some old \<and> children_map r' = (children_map r)(g := None))"
  by (intro conjI child_get_map child_insert_spec child_set_mode_spec child_remove_spec assms)

definition ex_children :: ChildrenRecord where
  "ex_children = \<lparr>kr_v = 1, kr_children =
     [\<lparr>en_seg = Segment ''dev'', en_created_at = 1, en_mode = Derived\<rparr>,
      \<lparr>en_seg = Segment ''prod'', en_created_at = 2, en_mode = Derived\<rparr>]\<rparr>"

definition ex_entry :: ChildEntry where
  "ex_entry = \<lparr>en_seg = Segment ''eu'', en_created_at = 3, en_mode = Sealed (B64 [1])\<rparr>"

lemmas ex_children_defs = ex_children_def ex_entry_def wf_segment_def less_Segment_def less_char_def
  is_ascii_lowercase_def is_ascii_digit_def MAX_SEGMENT_LEN_def CHILDREN_RECORD_VERSION_def

lemma ex_children_ok: "children_wf ex_children" "wf_segment (en_seg ex_entry)"
  by (simp_all add: children_wf_def ex_children_defs)

lemma ex_child_insert: "child_insert ex_children ex_entry
    = Inr (ex_children\<lparr>kr_children := [kr_children ex_children ! 0, ex_entry, kr_children ex_children ! 1]\<rparr>)"
  by (simp add: child_insert_def binary_search_def bsearch.simps ex_children_defs Let_def)

theorem children_refine_map_witness:
  "case child_insert ex_children ex_entry of
     Inl x \<Rightarrow> False
   | Inr r' \<Rightarrow> children_wf r' \<and> map (seg_str \<circ> en_seg) (kr_children r') = [''dev'', ''eu'', ''prod'']"
proof -
  show ?thesis
    using children_refine_map [OF ex_children_ok] by (simp add: ex_child_insert) (simp add: ex_children_defs)
qed

end
