(* ===== verification/Primitives.thy ===== *)
theory Primitives
  imports Api Sig Children
begin

text \<open>
  The code outside the repository that only the client calls, as the fields of \<open>primitives\<close>: HKDF,
  HMAC, XChaCha20-Poly1305, Ed25519 signing, the libsodium sealed box, age and its bech32 key
  strings, JSON for the children record and the operating system's random source. Each documented
  behaviour a theorem needs is a predicate of its own. Also here: the monad of client code that
  draws random bytes, and a model of the primitives that satisfies every predicate.
\<close>

section \<open>The primitives\<close>

record primitives =
  pr_crypto :: crypto
  hkdf_sha256 :: "bytes \<Rightarrow> bytes \<Rightarrow> bytes \<Rightarrow> bytes"
  hmac_sha256 :: "bytes \<Rightarrow> bytes \<Rightarrow> bytes"
  aead_encrypt :: "bytes \<Rightarrow> bytes \<Rightarrow> bytes \<Rightarrow> bytes \<Rightarrow> bytes option"
  aead_decrypt :: "bytes \<Rightarrow> bytes \<Rightarrow> bytes \<Rightarrow> bytes \<Rightarrow> bytes option"
  ed25519_public :: "bytes \<Rightarrow> bytes"
  ed25519_sign :: "bytes \<Rightarrow> bytes \<Rightarrow> bytes"
  x25519_public :: "bytes \<Rightarrow> bytes"
  box_seal :: "bytes \<Rightarrow> bytes \<Rightarrow> bytes \<Rightarrow> bytes option"
  box_unseal :: "bytes \<Rightarrow> bytes \<Rightarrow> bytes option"
  bech32_encode :: "string \<Rightarrow> bytes \<Rightarrow> string option"
  bech32_encode_upper :: "string \<Rightarrow> bytes \<Rightarrow> string option"
  bech32_decode :: "string \<Rightarrow> (string \<times> bytes) option"
  age_identity :: "string \<Rightarrow> bytes option"
  age_recipient :: "string \<Rightarrow> bytes option"
  age_to_public :: "bytes \<Rightarrow> string"
  age_encrypt :: "bytes \<Rightarrow> bytes \<Rightarrow> bytes \<Rightarrow> string + bytes"
  age_decrypt :: "bytes \<Rightarrow> bytes \<Rightarrow> bytes option"
  pr_json :: children_json
  os_random :: "nat \<Rightarrow> nat \<Rightarrow> bytes"

text \<open>
  \<open>hkdf_sha256 salt ikm info\<close> is 32 bytes; \<open>aead_encrypt key nonce aad message\<close>; \<open>box_seal to r message\<close>
  and \<open>age_encrypt recipient r message\<close> use the random bytes \<open>r\<close>; \<open>age_identity\<close> and \<open>age_recipient\<close>
  are the two \<open>from_str\<close>; \<open>os_random i n\<close> is what the \<open>i\<close>-th draw of \<open>n\<close> bytes gives.
\<close>

definition aead_ok :: "primitives \<Rightarrow> bool" where
  "aead_ok P \<longleftrightarrow> (\<forall>k n a m ct. aead_encrypt P k n a m = Some ct \<longrightarrow> aead_decrypt P k n a ct = Some m)"

definition signing_ok :: "primitives \<Rightarrow> bool" where
  "signing_ok P \<longleftrightarrow> (\<forall>k m. ed25519_verify (pr_crypto P) (ed25519_public P k) m (ed25519_sign P k m))"

definition box_ok :: "primitives \<Rightarrow> bool" where
  "box_ok P \<longleftrightarrow> (\<forall>k r m ct. box_seal P (x25519_public P k) r m = Some ct \<longrightarrow> box_unseal P k ct = Some m)"

definition age_ok :: "primitives \<Rightarrow> bool" where
  "age_ok P \<longleftrightarrow> (\<forall>k r m ct s t i p.
     bech32_encode_upper P ''age-secret-key-'' k = Some s \<and> age_identity P s = Some i
     \<and> bech32_encode P ''age'' (x25519_public P k) = Some t \<and> age_recipient P t = Some p
     \<and> age_encrypt P p r m = Inr ct \<longrightarrow> age_decrypt P i ct = Some m \<and> take (length AGE_HEADER) ct = AGE_HEADER)"

text \<open>Every 32-byte string is a usable X25519 secret key to age.\<close>

definition age_keys_ok :: "primitives \<Rightarrow> bool" where
  "age_keys_ok P \<longleftrightarrow> (\<forall>k. length k = 32 \<longrightarrow>
     (\<exists>s. bech32_encode_upper P ''age-secret-key-'' k = Some s \<and> age_identity P s \<noteq> None))"

definition widths_ok :: "primitives \<Rightarrow> bool" where
  "widths_ok P \<longleftrightarrow> (\<forall>s k i. length (hkdf_sha256 P s k i) = 32) \<and> (\<forall>k m. length (hmac_sha256 P k m) = 32)
     \<and> (\<forall>k. length (ed25519_public P k) = 32) \<and> (\<forall>k m. length (ed25519_sign P k m) = 64)
     \<and> (\<forall>k. length (x25519_public P k) = 32) \<and> (\<forall>i n. length (os_random P i n) = n)
     \<and> (\<forall>m. length (sha256 (pr_crypto P) m) = 32)"

section \<open>Code with effects\<close>

text \<open>An action reads and changes a state and may fail; its effects stay when it fails.\<close>

type_synonym ('s, 'e, 'a) action = "'s \<Rightarrow> ('e + 'a) \<times> 's"

definition aret :: "'a \<Rightarrow> ('s, 'e, 'a) action" where
  "aret a s = (Inr a, s)"

definition afail :: "'e \<Rightarrow> ('s, 'e, 'a) action" where
  "afail e s = (Inl e, s)"

definition alift :: "'e + 'a \<Rightarrow> ('s, 'e, 'a) action" where
  "alift r s = (r, s)"

definition abind :: "('s, 'e, 'a) action \<Rightarrow> ('a \<Rightarrow> ('s, 'e, 'b) action) \<Rightarrow> ('s, 'e, 'b) action" where
  "abind m f s = (case m s of (Inl e, s') \<Rightarrow> (Inl e, s') | (Inr a, s') \<Rightarrow> f a s')"

definition amap_err :: "('e \<Rightarrow> 'f) \<Rightarrow> ('s, 'e, 'a) action \<Rightarrow> ('s, 'f, 'a) action" where
  "amap_err f m s = (case m s of (r, s') \<Rightarrow> (map_err f r, s'))"

text \<open>A \<open>for\<close> loop that collects a result per element and stops at the first error.\<close>

fun acollect :: "('x \<Rightarrow> ('s, 'e, 'a) action) \<Rightarrow> 'x list \<Rightarrow> ('s, 'e, 'a list) action" where
  "acollect f [] = aret []"
| "acollect f (x # xs) = abind (f x) (\<lambda>y. abind (acollect f xs) (\<lambda>ys. aret (y # ys)))"

lemma aret_run [simp]: "aret a s = (Inr a, s)" by (simp add: aret_def)
lemma afail_run [simp]: "afail e s = (Inl e, s)" by (simp add: afail_def)
lemma alift_run [simp]: "alift r s = (r, s)" by (simp add: alift_def)

lemma abind_Inr: "abind m f s = (Inr b, s') \<longleftrightarrow> (\<exists>a s1. m s = (Inr a, s1) \<and> f a s1 = (Inr b, s'))"
  by (auto simp: abind_def split: prod.splits sum.splits)

lemma abind_run: "m s = (Inr a, s1) \<Longrightarrow> abind m f s = f a s1"
  by (simp add: abind_def)

lemma amap_err_Inr [simp]: "amap_err f m s = (Inr a, s') \<longleftrightarrow> m s = (Inr a, s')"
  by (auto simp: amap_err_def split: prod.splits)

text \<open>\<open>random_bytes::<N>()\<close>: the state counts the draws.\<close>

type_synonym ('e, 'a) drawing = "(nat, 'e, 'a) action"

definition random_bytes :: "primitives \<Rightarrow> nat \<Rightarrow> ('e, bytes) drawing" where
  "random_bytes P n i = (Inr (os_random P i n), Suc i)"

lemma random_bytes_run: "random_bytes P n i = (Inr (os_random P i n), Suc i)"
  by (rule random_bytes_def)

section \<open>A model of the primitives\<close>

text \<open>No security, but every documented behaviour: keys are their own public keys, ciphertexts carry
  the message behind a header and the key it is for.\<close>

definition toy_pad :: "bytes \<Rightarrow> bytes" where
  "toy_pad k = take 32 (k @ replicate 32 0)"

definition toy_chars :: "bytes \<Rightarrow> string" where
  "toy_chars bs = map (\<lambda>b. char_of (unat b)) bs"

definition toy_open :: "bytes \<Rightarrow> bytes \<Rightarrow> bytes option" where
  "toy_open tag ct = (if take (length tag) ct = tag then Some (drop (length tag) ct) else None)"

definition toy :: primitives where
  "toy = \<lparr>pr_crypto = null_crypto, hkdf_sha256 = (\<lambda>s k i. toy_pad i),
     hmac_sha256 = (\<lambda>k m. toy_pad m),
     aead_encrypt = (\<lambda>k n a m. Some (k @ n @ a @ m)), aead_decrypt = (\<lambda>k n a ct. toy_open (k @ n @ a) ct),
     ed25519_public = (\<lambda>k. toy_pad k),
     ed25519_sign = (\<lambda>k m. toy_pad k @ toy_pad k),
     x25519_public = (\<lambda>k. toy_pad k),
     box_seal = (\<lambda>p r m. Some (p @ m)), box_unseal = (\<lambda>k ct. toy_open (toy_pad k) ct),
     bech32_encode = (\<lambda>h bs. Some (toy_chars bs)),
     bech32_encode_upper = (\<lambda>h bs. Some (toy_chars bs)),
     bech32_decode = (\<lambda>s. Some ([], str_bytes s)),
     age_identity = (\<lambda>s. Some (str_bytes s)), age_recipient = (\<lambda>s. Some (str_bytes s)),
     age_to_public = (\<lambda>i. toy_chars (toy_pad i)),
     age_encrypt = (\<lambda>p r m. Inr (AGE_HEADER @ p @ m)),
     age_decrypt = (\<lambda>i ct. toy_open (AGE_HEADER @ toy_pad i) ct),
     pr_json = \<lparr>cj_read = (\<lambda>bs. Inr (1, [])), cj_segment_error = (\<lambda>bs e. []),
       cj_write = (\<lambda>x. if x = (1, []) then Inr [] else Inl [])\<rparr>,
     os_random = (\<lambda>i n. replicate n (of_nat i))\<rparr>"

lemma toy_open_append [simp]: "toy_open tag (tag @ m) = Some m"
  by (simp add: toy_open_def)

lemma length_toy_pad [simp]: "length (toy_pad k) = 32"
  by (simp add: toy_pad_def)

lemma toy_pad_id: "length k = 32 \<Longrightarrow> toy_pad k = k"
  by (simp add: toy_pad_def)

lemma str_bytes_chars [simp]: "str_bytes (toy_chars bs) = bs"
proof (induction bs)
  case (Cons b bs)
  have "unat (of_char (char_of (unat b) :: char) :: byte) = unat b"
    using unat_byte_less [of b] by (simp add: unat_of_char)
  then have "(of_char (char_of (unat b) :: char) :: byte) = b" by (simp only: word_unat_eq_iff)
  then show ?case using Cons by (simp add: str_bytes_def toy_chars_def)
qed (simp add: str_bytes_def toy_chars_def)

lemma toy_ok: "aead_ok toy" "signing_ok toy" "box_ok toy" "age_ok toy" "age_keys_ok toy" "widths_ok toy"
    "children_json_ok (pr_json toy)"
proof -
  show "aead_ok toy" unfolding aead_ok_def by (simp add: toy_def flip: append_assoc) 
  show "signing_ok toy" by (simp add: signing_ok_def toy_def null_crypto_def)
  show "box_ok toy" by (simp add: box_ok_def toy_def flip: append_assoc)
  show "age_ok toy" unfolding age_ok_def by (auto simp: toy_def simp flip: append_assoc)
  show "age_keys_ok toy" by (simp add: age_keys_ok_def toy_def)
  show "widths_ok toy" by (simp add: widths_ok_def toy_def null_crypto_def)
  show "children_json_ok (pr_json toy)" by (simp add: children_json_ok_def toy_def)
qed

end
