(* ===== verification/Keys.thy ===== *)
theory Keys
  imports Primitives
begin

text \<open>
  Client key material (\<open>keys/\<close> less bundles): the derivation of every key from a node key or a token
  secret, the name key with its index and its encryption, writer keys, token keys and the owner's
  keys with what they sign.
\<close>

section \<open>Errors and derivation\<close>

datatype KeyError =
    Format FormatError
  | Integrity IntegrityError
  | Unseal
  | UnknownVersion byte
  | UnknownKind byte
  | BadLength string nat
  | Truncated
  | UnsupportedScope string
  | Binding string
  | Kind string string
  | NameDecrypt
  | NameMismatch
  | Children ChildrenError
  | Encrypt string

definition SALT :: bytes where "SALT = str_bytes ''galata-vault/v1''"

definition kdf_info :: "string \<Rightarrow> bytes \<Rightarrow> bytes" where
  "kdf_info label data = frame label [data]"

definition derive32 :: "primitives \<Rightarrow> bytes \<Rightarrow> bytes \<Rightarrow> bytes" where
  "derive32 P ikm data = hkdf_sha256 P SALT ikm data"

section \<open>Node keys\<close>

datatype NodeKey = NodeKey (node_bytes: bytes)

definition node_generate :: "primitives \<Rightarrow> ('e, NodeKey) drawing" where
  "node_generate P = abind (random_bytes P 32) (\<lambda>bs. aret (NodeKey bs))"

definition node_parse :: "primitives \<Rightarrow> string \<Rightarrow> FormatError + NodeKey" where
  "node_parse P s = rbind (decode_node_key (pr_crypto P) s) (\<lambda>bs. Inr (NodeKey bs))"

definition node_encode :: "primitives \<Rightarrow> NodeKey \<Rightarrow> string" where
  "node_encode P k = encode_node_key (pr_crypto P) (node_bytes k)"

definition node_child :: "primitives \<Rightarrow> NodeKey \<Rightarrow> Segment \<Rightarrow> NodeKey" where
  "node_child P k g = NodeKey (derive32 P (node_bytes k) (kdf_info LABEL_CHILD (str_bytes (seg_str g))))"

definition node_descend :: "primitives \<Rightarrow> NodeKey \<Rightarrow> Segment list \<Rightarrow> NodeKey" where
  "node_descend P k gs = fold (\<lambda>g key. node_child P key g) gs k"

lemma node_descend_append: "node_descend P k (gs @ hs) = node_descend P (node_descend P k gs) hs"
  by (simp add: node_descend_def)

section \<open>Name keys\<close>

definition NONCE_LEN :: nat where "NONCE_LEN = 24"

record NameContext =
  nc_vault_id :: VaultId
  nc_generation :: u32
  nc_kind :: RecordKind

definition name_aad :: "NameContext \<Rightarrow> bytes" where
  "name_aad x = frame LABEL_NAME_AAD [vid (nc_vault_id x), u32_be (nc_generation x), [kind_code (nc_kind x)]]"

datatype NameKey = NameKey (name_key_bytes: bytes)

definition name_key_generate :: "primitives \<Rightarrow> ('e, NameKey) drawing" where
  "name_key_generate P = abind (random_bytes P 32) (\<lambda>bs. aret (NameKey bs))"

definition name_key_index :: "primitives \<Rightarrow> NameKey \<Rightarrow> RecordKind \<Rightarrow> string \<Rightarrow> NameHmac" where
  "name_key_index P k kind name =
     (let key = derive32 P (name_key_bytes k) (kdf_info LABEL_NAME_INDEX [])
      in NameHmac (hmac_sha256 P key ([kind_code kind] @ str_bytes name)))"

definition name_hmac :: "primitives \<Rightarrow> NameKey \<Rightarrow> string \<Rightarrow> NameHmac" where
  "name_hmac P k name = name_key_index P k RecordKind.Secret name"

definition config_hmac :: "primitives \<Rightarrow> NameKey \<Rightarrow> string \<Rightarrow> NameHmac" where
  "config_hmac P k name = name_key_index P k RecordKind.Config name"

definition name_cipher_key :: "primitives \<Rightarrow> NameKey \<Rightarrow> bytes" where
  "name_cipher_key P k = derive32 P (name_key_bytes k) (kdf_info LABEL_NAME_ENC [])"

definition encrypt_name :: "primitives \<Rightarrow> NameKey \<Rightarrow> NameContext \<Rightarrow> string \<Rightarrow> (KeyError, bytes) drawing" where
  "encrypt_name P k x name =
     abind (random_bytes P NONCE_LEN) (\<lambda>nonce.
     abind (alift (ok_or (aead_encrypt P (name_cipher_key P k) nonce (name_aad x) (str_bytes name))
       (Encrypt ''a record name''))) (\<lambda>ct.
     aret (nonce @ ct)))"

text \<open>\<open>String::from_utf8\<close> of bytes.\<close>

definition bytes_chars :: "bytes \<Rightarrow> string" where
  "bytes_chars bs = map (\<lambda>b. char_of (unat b)) bs"

definition from_utf8 :: "bytes \<Rightarrow> string option" where
  "from_utf8 bs = (if utf8_valid (bytes_chars bs) then Some (bytes_chars bs) else None)"

definition decrypt_name :: "primitives \<Rightarrow> NameKey \<Rightarrow> NameContext \<Rightarrow> bytes \<Rightarrow> KeyError + string" where
  "decrypt_name P k x sealed_name =
     (if length sealed_name < NONCE_LEN then Inl NameDecrypt
      else
        rbind (ok_or (aead_decrypt P (name_cipher_key P k) (take NONCE_LEN sealed_name) (name_aad x) (drop NONCE_LEN sealed_name))
          NameDecrypt) (\<lambda>plain.
        ok_or (from_utf8 plain) NameDecrypt))"

definition name_key_open :: "primitives \<Rightarrow> NameKey \<Rightarrow> NameContext \<Rightarrow> NameHmac \<Rightarrow> bytes \<Rightarrow> KeyError + string" where
  "name_key_open P k x index sealed_name =
     rbind (decrypt_name P k x sealed_name) (\<lambda>name.
     if name_key_index P k (nc_kind x) name \<noteq> index then Inl NameMismatch else Inr name)"

section \<open>Writer keys\<close>

datatype WriterKey = WriterKey (writer_bytes: bytes)

definition writer_generate :: "primitives \<Rightarrow> ('e, WriterKey) drawing" where
  "writer_generate P = abind (random_bytes P 32) (\<lambda>bs. aret (WriterKey bs))"

definition writer_public :: "primitives \<Rightarrow> WriterKey \<Rightarrow> Key32" where
  "writer_public P w = Key32 (ed25519_public P (writer_bytes w))"

definition writer_sign :: "primitives \<Rightarrow> WriterKey \<Rightarrow> RecordContext \<Rightarrow> Sig64" where
  "writer_sign P w r = Sig64 (ed25519_sign P (writer_bytes w) (record_signing_input r))"

section \<open>Token keys\<close>

record TokenKeys =
  tk_id :: TokenId
  tk_vault_id :: VaultId
  tk_secret :: bytes
  tk_auth :: bytes
  tk_auth_pub :: Key32
  tk_boxing :: bytes
  tk_box_pub :: Key32

definition token_from_parts :: "primitives \<Rightarrow> TokenId \<Rightarrow> VaultId \<Rightarrow> bytes \<Rightarrow> TokenKeys" where
  "token_from_parts P i v secret =
     (let auth = derive32 P secret (kdf_info LABEL_TOKEN_AUTH (tid i));
          boxing = derive32 P secret (kdf_info LABEL_TOKEN_BOX (tid i))
      in \<lparr>tk_id = i, tk_vault_id = v, tk_secret = secret, tk_auth = auth, tk_auth_pub = Key32 (ed25519_public P auth),
          tk_boxing = boxing, tk_box_pub = Key32 (x25519_public P boxing)\<rparr>)"

definition token_generate :: "primitives \<Rightarrow> VaultId \<Rightarrow> ('e, TokenKeys) drawing" where
  "token_generate P v =
     abind (random_bytes P 16) (\<lambda>i. abind (random_bytes P 32) (\<lambda>secret. aret (token_from_parts P (TokenId i) v secret)))"

definition token_keys_parse :: "primitives \<Rightarrow> string \<Rightarrow> FormatError + TokenKeys" where
  "token_keys_parse P s = rbind (token_parse (pr_crypto P) s) (\<lambda>t.
     Inr (token_from_parts P (ts_id t) (ts_vault_id t) (ts_secret t)))"

definition token_string :: "primitives \<Rightarrow> TokenKeys \<Rightarrow> string" where
  "token_string P t = token_encode (pr_crypto P) (tk_id t) (tk_vault_id t) (tk_secret t)"

definition token_sign_request :: "primitives \<Rightarrow> TokenKeys \<Rightarrow> SignedRequest \<Rightarrow> int \<Rightarrow> ('e, SigParams) drawing" where
  "token_sign_request P t req ts =
     abind (random_bytes P 16) (\<lambda>nonce.
     let actor = SigActor.Token (tk_id t);
         input = request_signing_input (pr_crypto P) actor (tk_vault_id t) ts nonce req
     in aret \<lparr>sp_actor = actor, sp_vault_id = tk_vault_id t, sp_ts = ts, sp_nonce = nonce,
          sp_sig = ed25519_sign P (tk_auth t) input\<rparr>)"

definition token_sign_report :: "primitives \<Rightarrow> TokenKeys \<Rightarrow> int \<Rightarrow> Sig64" where
  "token_sign_report P t ts = Sig64 (ed25519_sign P (tk_auth t) (report_signing_input (tk_id t) ts))"

section \<open>Owner keys\<close>

record OwnerKeys =
  ok_signing :: bytes
  ok_boxing :: bytes
  ok_sign_pub :: Key32
  ok_box_pub :: Key32
  ok_vault_id :: VaultId

definition owner_from_node :: "primitives \<Rightarrow> NodeKey \<Rightarrow> OwnerKeys" where
  "owner_from_node P k =
     (let sign_seed = derive32 P (node_bytes k) (kdf_info LABEL_OWNER_SIGN []);
          box_secret = derive32 P (node_bytes k) (kdf_info LABEL_OWNER_BOX []);
          sign_pub = Key32 (ed25519_public P sign_seed)
      in \<lparr>ok_signing = sign_seed, ok_boxing = box_secret, ok_sign_pub = sign_pub,
          ok_box_pub = Key32 (x25519_public P box_secret),
          ok_vault_id = from_owner_sign_pub (pr_crypto P) sign_pub\<rparr>)"

definition owner_sign :: "primitives \<Rightarrow> OwnerKeys \<Rightarrow> bytes \<Rightarrow> Sig64" where
  "owner_sign P o' message = Sig64 (ed25519_sign P (ok_signing o') message)"

definition owner_sign_request :: "primitives \<Rightarrow> OwnerKeys \<Rightarrow> SignedRequest \<Rightarrow> int \<Rightarrow> ('e, SigParams) drawing" where
  "owner_sign_request P o' req ts =
     abind (random_bytes P 16) (\<lambda>nonce.
     let input = request_signing_input (pr_crypto P) SigActor.Owner (ok_vault_id o') ts nonce req
     in aret \<lparr>sp_actor = SigActor.Owner, sp_vault_id = ok_vault_id o', sp_ts = ts, sp_nonce = nonce,
          sp_sig = s64 (owner_sign P o' input)\<rparr>)"

text \<open>The assertion that the descriptor names this vault: \<open>None\<close> is the panic.\<close>

definition sign_descriptor :: "primitives \<Rightarrow> OwnerKeys \<Rightarrow> Descriptor \<Rightarrow> SignedDescriptor option" where
  "sign_descriptor P o' d =
     (if d_vault_id d = ok_vault_id o'
      then Some (signed_descriptor d (owner_sign P o' (descriptor_signing_input d))) else None)"

definition sign_bundle :: "primitives \<Rightarrow> OwnerKeys \<Rightarrow> TokenId \<Rightarrow> byte \<Rightarrow> u32 \<Rightarrow> bytes \<Rightarrow> Sig64" where
  "sign_bundle P o' t scope generation ct =
     owner_sign P o' (bundle_signing_input (pr_crypto P) (ok_vault_id o') t scope generation ct)"

section \<open>What the keys promise\<close>

lemma length_derive32: "widths_ok P \<Longrightarrow> length (derive32 P k i) = 32"
  by (simp add: widths_ok_def derive32_def)

lemma node_child_width: "widths_ok P \<Longrightarrow> length (node_bytes (node_child P k g)) = 32"
  by (simp add: node_child_def length_derive32)

lemma name_key_index_wf: "widths_ok P \<Longrightarrow> wf_name_hmac (name_key_index P k kind name)"
  by (simp add: name_key_index_def Let_def wf_name_hmac_def widths_ok_def)

lemma char_of_unat_of_char: "char_of (unat (of_char a :: byte)) = (a :: char)"
  by (simp add: unat_of_char)

lemma bytes_chars_str_bytes [simp]: "bytes_chars (str_bytes s) = s"
  by (induction s) (simp_all add: bytes_chars_def str_bytes_def char_of_unat_of_char)

lemma str_bytes_bytes_chars [simp]: "str_bytes (bytes_chars bs) = bs"
  using str_bytes_chars [of bs] by (simp add: bytes_chars_def toy_chars_def)

lemma from_utf8_Some: "from_utf8 bs = Some s \<longleftrightarrow> bs = str_bytes s \<and> utf8_valid s"
  by (auto simp: from_utf8_def split: if_splits)

text \<open>A name opens to what was encrypted, in its own context and under its own index.\<close>

lemma encrypt_open_name:
  assumes "aead_ok P" and "widths_ok P" and "utf8_valid name"
    and "encrypt_name P k x name i = (Inr ct, j)"
  shows "name_key_open P k x (name_key_index P k (nc_kind x) name) ct = Inr name"
proof -
  obtain nonce body where nonce: "nonce = os_random P i NONCE_LEN" and ct: "ct = nonce @ body"
    and enc: "aead_encrypt P (name_cipher_key P k) nonce (name_aad x) (str_bytes name) = Some body"
    using assms(4) by (auto simp: encrypt_name_def abind_Inr random_bytes_def)
  have len: "length nonce = NONCE_LEN" using assms(2) by (simp add: nonce widths_ok_def)
  have "aead_decrypt P (name_cipher_key P k) nonce (name_aad x) body = Some (str_bytes name)"
    using assms(1) enc by (auto simp: aead_ok_def)
  then have "decrypt_name P k x ct = Inr name"
    using len assms(3) by (simp add: decrypt_name_def ct from_utf8_def)
  then show ?thesis by (simp add: name_key_open_def)
qed

lemma name_key_open_index: "name_key_open P k x index ct = Inr name \<Longrightarrow> name_key_index P k (nc_kind x) name = index"
  by (auto simp: name_key_open_def rbind_eq_Inr split: if_splits)

lemma name_key_open_utf8: "name_key_open P k x index ct = Inr name \<Longrightarrow> utf8_valid name"
  by (auto simp: name_key_open_def decrypt_name_def rbind_eq_Inr from_utf8_Some split: if_splits)

lemma writer_sign_verifies:
  "signing_ok P \<Longrightarrow> record_verify (pr_crypto P) r (writer_public P w) (writer_sign P w r) = Inr ()"
  by (simp add: record_verify_def verify_ed25519_def writer_public_def writer_sign_def signing_ok_def)

text \<open>Owner keys are derived, so they are consistent with one another.\<close>

definition wf_owner :: "primitives \<Rightarrow> OwnerKeys \<Rightarrow> bool" where
  "wf_owner P o' \<longleftrightarrow> ok_sign_pub o' = Key32 (ed25519_public P (ok_signing o'))
     \<and> ok_box_pub o' = Key32 (x25519_public P (ok_boxing o'))
     \<and> ok_vault_id o' = from_owner_sign_pub (pr_crypto P) (ok_sign_pub o')"

definition wf_token :: "primitives \<Rightarrow> TokenKeys \<Rightarrow> bool" where
  "wf_token P t \<longleftrightarrow> tk_auth_pub t = Key32 (ed25519_public P (tk_auth t))
     \<and> tk_box_pub t = Key32 (x25519_public P (tk_boxing t))"

lemma owner_from_node_wf [wf_intros]: "wf_owner P (owner_from_node P k)"
  by (simp add: wf_owner_def owner_from_node_def Let_def)

lemma token_from_parts_wf [wf_intros]: "wf_token P (token_from_parts P i v s)"
  by (simp add: wf_token_def token_from_parts_def Let_def)

lemma owner_sign_verifies:
  assumes "signing_ok P" and "wf_owner P o'"
  shows "verify_ed25519 (pr_crypto P) (ok_sign_pub o') m (owner_sign P o' m) what = Inr ()"
  using assms by (simp add: verify_ed25519_def owner_sign_def wf_owner_def signing_ok_def)

lemma sign_descriptor_verifies:
  assumes "signing_ok P" and "wf_owner P o'" and "wf_descriptor d" and "sign_descriptor P o' d = Some sd"
  shows "verify_for (pr_crypto P) sd (ok_vault_id o') (ok_sign_pub o') = Inr d"
proof -
  have v: "d_vault_id d = ok_vault_id o'" and sd: "sd = signed_descriptor d (owner_sign P o' (descriptor_signing_input d))"
    using assms(4) by (auto simp: sign_descriptor_def split: if_splits)
  have "from_owner_sign_pub (pr_crypto P) (ok_sign_pub o') = ok_vault_id o'"
    using assms(2) by (simp add: wf_owner_def)
  moreover have "descriptor_decode (b64 (sd_descriptor sd)) = Inr d"
    using assms(3) descriptor_decode_encode by (simp add: sd signed_descriptor_def)
  ultimately show ?thesis
    using owner_sign_verifies [OF assms(1,2)] v
    by (simp add: verify_for_def signed_descriptor_verify_def sd signed_descriptor_def verify_ed25519_def)
qed

lemma sign_bundle_verifies:
  assumes "signing_ok P" and "wf_owner P o'"
  shows "bundle_verify (pr_crypto P) \<lparr>sealed = B64 ct, sb_sig = sign_bundle P o' t scope g ct\<rparr>
      (ok_sign_pub o') (ok_vault_id o') t scope g = Inr ()"
  using owner_sign_verifies [OF assms] by (simp add: bundle_verify_def sign_bundle_def)

lemma request_signature_verifies:
  assumes "signing_ok P" and "wf_owner P o'" and "owner_sign_request P o' req ts i = (Inr p, j)"
  shows "ed25519_verify (pr_crypto P) (k32 (ok_sign_pub o')) (params_signing_input (pr_crypto P) p req) (sp_sig p)"
  using assms by (auto simp: owner_sign_request_def abind_Inr random_bytes_def Let_def params_signing_input_def
      owner_sign_def wf_owner_def signing_ok_def)

lemma token_signature_verifies:
  assumes "signing_ok P" and "wf_token P t" and "token_sign_request P t req ts i = (Inr p, j)"
  shows "ed25519_verify (pr_crypto P) (k32 (tk_auth_pub t)) (params_signing_input (pr_crypto P) p req) (sp_sig p)"
  using assms by (auto simp: token_sign_request_def abind_Inr random_bytes_def Let_def params_signing_input_def
      wf_token_def signing_ok_def)

text \<open>A token string gives back the same keys: parsing what \<open>token_string\<close> writes derives the same
  signing and sealing keys for the same token and vault.\<close>

theorem token_keys_roundtrip:
  assumes "wf_token_id i" and "wf_vault_id v" and "length s = 32"
  shows "token_keys_parse P (token_string P (token_from_parts P i v s)) = Inr (token_from_parts P i v s)"
  using token_roundtrip [OF assms, of "pr_crypto P"]
  by (simp add: token_keys_parse_def token_string_def token_from_parts_def Let_def)

theorem token_keys_roundtrip_witness:
  "token_keys_parse toy (token_string toy (token_from_parts toy (TokenId (replicate 16 2)) (VaultId (replicate 16 1)) (replicate 32 3)))
    = Inr (token_from_parts toy (TokenId (replicate 16 2)) (VaultId (replicate 16 1)) (replicate 32 3))"
  by (rule token_keys_roundtrip) (simp_all add: wf_id_defs)

end
