(* ===== verification/Bundles.thy ===== *)
theory Bundles
  imports Keys
begin

text \<open>
  Sealed bundles (\<open>keys/bundle.rs\<close>): what each scope receives, the exact byte layout, sealing and
  opening; the owner's own bundle, sealed child keys and the sealed children record
  (\<open>keys/owner.rs\<close>), and a token's bundle (\<open>keys/token.rs\<close>).
\<close>

section \<open>Kinds\<close>

definition BUNDLE_VERSION :: byte where "BUNDLE_VERSION = 1"
definition KIND_NAMES :: byte where "KIND_NAMES = 1"
definition KIND_APPEND :: byte where "KIND_APPEND = 2"
definition KIND_CONFIG :: byte where "KIND_CONFIG = 3"
definition KIND_CONFIG_WRITE :: byte where "KIND_CONFIG_WRITE = 4"
definition KIND_READ :: byte where "KIND_READ = 5"
definition KIND_FULL :: byte where "KIND_FULL = 6"
definition KIND_CHILD :: byte where "KIND_CHILD = 7"
definition BUNDLE_HEADER_LEN :: nat where "BUNDLE_HEADER_LEN = 1 + 1 + 16 + 16 + 4"

lemmas bundle_kind_defs = KIND_NAMES_def KIND_APPEND_def KIND_CONFIG_def KIND_CONFIG_WRITE_def
  KIND_READ_def KIND_FULL_def KIND_CHILD_def

definition kind_name :: "byte \<Rightarrow> string" where
  "kind_name k =
     (if k = KIND_NAMES then ''names'' else if k = KIND_APPEND then ''append''
      else if k = KIND_CONFIG then ''config'' else if k = KIND_CONFIG_WRITE then ''config-write''
      else if k = KIND_READ then ''read'' else if k = KIND_FULL then ''full''
      else if k = KIND_CHILD then ''child'' else ''unknown'')"

fun scope_kind :: "Scope \<Rightarrow> byte option" where
  "scope_kind Scope.Meta = Some KIND_NAMES"
| "scope_kind Scope.Append = Some KIND_APPEND"
| "scope_kind Scope.Config = Some KIND_CONFIG"
| "scope_kind Scope.ConfigWrite = Some KIND_CONFIG_WRITE"
| "scope_kind Scope.Read = Some KIND_READ"
| "scope_kind Scope.Admin = Some KIND_FULL"

section \<open>Secrets and bundles\<close>

datatype VaultSecret = VaultSecret (vault_secret_bytes: bytes)
datatype ConfigSecret = ConfigSecret (config_secret_bytes: bytes)

definition vault_secret_public :: "primitives \<Rightarrow> VaultSecret \<Rightarrow> Key32" where
  "vault_secret_public P s = Key32 (x25519_public P (vault_secret_bytes s))"

definition config_secret_public :: "primitives \<Rightarrow> ConfigSecret \<Rightarrow> Key32" where
  "config_secret_public P s = Key32 (x25519_public P (config_secret_bytes s))"

definition random_vault_secret :: "primitives \<Rightarrow> ('e, VaultSecret) drawing" where
  "random_vault_secret P = abind (random_bytes P 32) (\<lambda>bs. aret (VaultSecret bs))"

definition random_config_secret :: "primitives \<Rightarrow> ('e, ConfigSecret) drawing" where
  "random_config_secret P = abind (random_bytes P 32) (\<lambda>bs. aret (ConfigSecret bs))"

record NamesBundle =
  nb_generation :: u32
  nb_name_key :: NameKey

record AppendBundle =
  ab_generation :: u32
  ab_name_key :: NameKey
  ab_secret_writer :: WriterKey
  ab_config_writer :: WriterKey

record ConfigBundle =
  cb_generation :: u32
  cb_name_key :: NameKey
  cb_config_secret :: ConfigSecret

record ConfigWriteBundle =
  cw_generation :: u32
  cw_name_key :: NameKey
  cw_config_secret :: ConfigSecret
  cw_config_writer :: WriterKey

record ReadBundle =
  re_generation :: u32
  re_name_key :: NameKey
  re_vault_secret :: VaultSecret
  re_config_secret :: ConfigSecret

record FullBundle =
  fb_generation :: u32
  fb_name_key :: NameKey
  fb_vault_secret :: VaultSecret
  fb_config_secret :: ConfigSecret
  fb_secret_writer :: WriterKey
  fb_config_writer :: WriterKey

datatype Bundle =
    Names NamesBundle
  | Append AppendBundle
  | Config ConfigBundle
  | ConfigWrite ConfigWriteBundle
  | Read ReadBundle
  | Full FullBundle

definition full_generate :: "primitives \<Rightarrow> u32 \<Rightarrow> ('e, FullBundle) drawing" where
  "full_generate P g =
     abind (name_key_generate P) (\<lambda>nk. abind (random_vault_secret P) (\<lambda>vs.
     abind (random_config_secret P) (\<lambda>cs. abind (writer_generate P) (\<lambda>sw. abind (writer_generate P) (\<lambda>cw.
     aret \<lparr>fb_generation = g, fb_name_key = nk, fb_vault_secret = vs, fb_config_secret = cs,
       fb_secret_writer = sw, fb_config_writer = cw\<rparr>)))))"

definition full_descriptor :: "primitives \<Rightarrow> FullBundle \<Rightarrow> VaultId \<Rightarrow> Hash32 \<Rightarrow> int \<Rightarrow> Descriptor" where
  "full_descriptor P f v prev created_at =
     \<lparr>d_vault_id = v, d_generation = fb_generation f, vault_pub = vault_secret_public P (fb_vault_secret f),
      config_pub = config_secret_public P (fb_config_secret f),
      secret_writer_pub = writer_public P (fb_secret_writer f),
      config_writer_pub = writer_public P (fb_config_writer f), prev_hash = prev, d_created_at = created_at\<rparr>"

definition full_matches :: "primitives \<Rightarrow> FullBundle \<Rightarrow> Descriptor \<Rightarrow> bool" where
  "full_matches P f d \<longleftrightarrow> fb_generation f = d_generation d
     \<and> vault_secret_public P (fb_vault_secret f) = vault_pub d
     \<and> config_secret_public P (fb_config_secret f) = config_pub d
     \<and> writer_public P (fb_secret_writer f) = secret_writer_pub d
     \<and> writer_public P (fb_config_writer f) = config_writer_pub d"

fun for_scope :: "FullBundle \<Rightarrow> Scope \<Rightarrow> KeyError + Bundle" where
  "for_scope f Scope.Meta = Inr (Bundle.Names \<lparr>nb_generation = fb_generation f, nb_name_key = fb_name_key f\<rparr>)"
| "for_scope f Scope.Append = Inr (Bundle.Append \<lparr>ab_generation = fb_generation f, ab_name_key = fb_name_key f,
     ab_secret_writer = fb_secret_writer f, ab_config_writer = fb_config_writer f\<rparr>)"
| "for_scope f Scope.Config = Inr (Bundle.Config \<lparr>cb_generation = fb_generation f, cb_name_key = fb_name_key f,
     cb_config_secret = fb_config_secret f\<rparr>)"
| "for_scope f Scope.ConfigWrite = Inr (Bundle.ConfigWrite \<lparr>cw_generation = fb_generation f,
     cw_name_key = fb_name_key f, cw_config_secret = fb_config_secret f, cw_config_writer = fb_config_writer f\<rparr>)"
| "for_scope f Scope.Read = Inr (Bundle.Read \<lparr>re_generation = fb_generation f, re_name_key = fb_name_key f,
     re_vault_secret = fb_vault_secret f, re_config_secret = fb_config_secret f\<rparr>)"
| "for_scope f Scope.Admin = Inr (Bundle.Full f)"

fun bundle_generation :: "Bundle \<Rightarrow> u32" where
  "bundle_generation (Bundle.Names b) = nb_generation b"
| "bundle_generation (Bundle.Append b) = ab_generation b"
| "bundle_generation (Bundle.Config b) = cb_generation b"
| "bundle_generation (Bundle.ConfigWrite b) = cw_generation b"
| "bundle_generation (Bundle.Read b) = re_generation b"
| "bundle_generation (Bundle.Full b) = fb_generation b"

fun bundle_name_key :: "Bundle \<Rightarrow> NameKey" where
  "bundle_name_key (Bundle.Names b) = nb_name_key b"
| "bundle_name_key (Bundle.Append b) = ab_name_key b"
| "bundle_name_key (Bundle.Config b) = cb_name_key b"
| "bundle_name_key (Bundle.ConfigWrite b) = cw_name_key b"
| "bundle_name_key (Bundle.Read b) = re_name_key b"
| "bundle_name_key (Bundle.Full b) = fb_name_key b"

fun bundle_vault_secret :: "Bundle \<Rightarrow> VaultSecret option" where
  "bundle_vault_secret (Bundle.Read b) = Some (re_vault_secret b)"
| "bundle_vault_secret (Bundle.Full b) = Some (fb_vault_secret b)"
| "bundle_vault_secret _ = None"

fun bundle_config_secret :: "Bundle \<Rightarrow> ConfigSecret option" where
  "bundle_config_secret (Bundle.Config b) = Some (cb_config_secret b)"
| "bundle_config_secret (Bundle.ConfigWrite b) = Some (cw_config_secret b)"
| "bundle_config_secret (Bundle.Read b) = Some (re_config_secret b)"
| "bundle_config_secret (Bundle.Full b) = Some (fb_config_secret b)"
| "bundle_config_secret _ = None"

fun bundle_secret_writer :: "Bundle \<Rightarrow> WriterKey option" where
  "bundle_secret_writer (Bundle.Append b) = Some (ab_secret_writer b)"
| "bundle_secret_writer (Bundle.Full b) = Some (fb_secret_writer b)"
| "bundle_secret_writer _ = None"

fun bundle_config_writer :: "Bundle \<Rightarrow> WriterKey option" where
  "bundle_config_writer (Bundle.Append b) = Some (ab_config_writer b)"
| "bundle_config_writer (Bundle.ConfigWrite b) = Some (cw_config_writer b)"
| "bundle_config_writer (Bundle.Full b) = Some (fb_config_writer b)"
| "bundle_config_writer _ = None"

text \<open>\<open>Option::is_none_or\<close>.\<close>

definition is_none_or :: "('a \<Rightarrow> bool) \<Rightarrow> 'a option \<Rightarrow> bool" where
  "is_none_or f x = (case x of None \<Rightarrow> True | Some a \<Rightarrow> f a)"

definition bundle_matches :: "primitives \<Rightarrow> Bundle \<Rightarrow> Descriptor \<Rightarrow> bool" where
  "bundle_matches P b d \<longleftrightarrow> bundle_generation b = d_generation d
     \<and> is_none_or (\<lambda>k. vault_secret_public P k = vault_pub d) (bundle_vault_secret b)
     \<and> is_none_or (\<lambda>k. config_secret_public P k = config_pub d) (bundle_config_secret b)
     \<and> is_none_or (\<lambda>k. writer_public P k = secret_writer_pub d) (bundle_secret_writer b)
     \<and> is_none_or (\<lambda>k. writer_public P k = config_writer_pub d) (bundle_config_writer b)"

fun bundle_kind :: "Bundle \<Rightarrow> byte" where
  "bundle_kind (Bundle.Names b) = KIND_NAMES"
| "bundle_kind (Bundle.Append b) = KIND_APPEND"
| "bundle_kind (Bundle.Config b) = KIND_CONFIG"
| "bundle_kind (Bundle.ConfigWrite b) = KIND_CONFIG_WRITE"
| "bundle_kind (Bundle.Read b) = KIND_READ"
| "bundle_kind (Bundle.Full b) = KIND_FULL"

definition into_full :: "Bundle \<Rightarrow> KeyError + FullBundle" where
  "into_full b = (case b of Bundle.Full f \<Rightarrow> Inr f | _ \<Rightarrow> Inl (Kind ''full'' (kind_name (bundle_kind b))))"

definition into_names_only :: "Bundle \<Rightarrow> KeyError + NamesBundle" where
  "into_names_only b = (case b of Bundle.Names n \<Rightarrow> Inr n | _ \<Rightarrow> Inl (Kind ''names'' (kind_name (bundle_kind b))))"

section \<open>Sealing\<close>

text \<open>The sealed box draws its ephemeral key.\<close>

definition seal_bytes :: "primitives \<Rightarrow> Key32 \<Rightarrow> bytes \<Rightarrow> (KeyError, bytes) drawing" where
  "seal_bytes P to plain =
     abind (random_bytes P 32) (\<lambda>r. alift (ok_or (box_seal P (k32 to) r plain) (Encrypt ''a sealed box'')))"

definition plaintext :: "byte \<Rightarrow> VaultId \<Rightarrow> TokenId \<Rightarrow> u32 \<Rightarrow> bytes list \<Rightarrow> bytes" where
  "plaintext kind v t g keys = [BUNDLE_VERSION, kind] @ vid v @ tid t @ u32_be g @ concat keys"

fun bundle_keys :: "Bundle \<Rightarrow> bytes list" where
  "bundle_keys (Bundle.Names b) = [name_key_bytes (nb_name_key b)]"
| "bundle_keys (Bundle.Append b) = [name_key_bytes (ab_name_key b), writer_bytes (ab_secret_writer b), writer_bytes (ab_config_writer b)]"
| "bundle_keys (Bundle.Config b) = [name_key_bytes (cb_name_key b), config_secret_bytes (cb_config_secret b)]"
| "bundle_keys (Bundle.ConfigWrite b) = [name_key_bytes (cw_name_key b), config_secret_bytes (cw_config_secret b), writer_bytes (cw_config_writer b)]"
| "bundle_keys (Bundle.Read b) = [name_key_bytes (re_name_key b), vault_secret_bytes (re_vault_secret b), config_secret_bytes (re_config_secret b)]"
| "bundle_keys (Bundle.Full b) = [name_key_bytes (fb_name_key b), vault_secret_bytes (fb_vault_secret b),
     config_secret_bytes (fb_config_secret b), writer_bytes (fb_secret_writer b), writer_bytes (fb_config_writer b)]"

definition bundle_encode :: "Bundle \<Rightarrow> VaultId \<Rightarrow> TokenId \<Rightarrow> bytes" where
  "bundle_encode b v t = plaintext (bundle_kind b) v t (bundle_generation b) (bundle_keys b)"

definition seal_for_scope ::
    "primitives \<Rightarrow> OwnerKeys \<Rightarrow> Key32 \<Rightarrow> TokenId \<Rightarrow> Scope \<Rightarrow> FullBundle \<Rightarrow> (KeyError, SignedBundle) drawing" where
  "seal_for_scope P o' holder_box_pub t scope full =
     abind (alift (for_scope full scope)) (\<lambda>bundle.
     abind (seal_bytes P holder_box_pub (bundle_encode bundle (ok_vault_id o') t)) (\<lambda>ct.
     aret \<lparr>sealed = B64 ct, sb_sig = sign_bundle P o' t (scope_code scope) (fb_generation full) ct\<rparr>))"

definition seal_owner_bundle :: "primitives \<Rightarrow> OwnerKeys \<Rightarrow> FullBundle \<Rightarrow> (KeyError, SignedBundle) drawing" where
  "seal_owner_bundle P o' full =
     abind (seal_bytes P (ok_box_pub o') (bundle_encode (Bundle.Full full) (ok_vault_id o') OWNER_TOKEN_ID)) (\<lambda>ct.
     aret \<lparr>sealed = B64 ct, sb_sig = sign_bundle P o' OWNER_TOKEN_ID OWNER_SCOPE_CODE (fb_generation full) ct\<rparr>)"

definition seal_child_key :: "primitives \<Rightarrow> Key32 \<Rightarrow> VaultId \<Rightarrow> NodeKey \<Rightarrow> (KeyError, bytes) drawing" where
  "seal_child_key P parent_box_pub parent_vault key =
     seal_bytes P parent_box_pub (plaintext KIND_CHILD parent_vault OWNER_TOKEN_ID 0 [node_bytes key])"

section \<open>Opening\<close>

record bundle_binding_to =
  bt_vault_id :: VaultId
  bt_token_id :: TokenId
  bt_generation :: u32

definition unseal :: "primitives \<Rightarrow> bytes \<Rightarrow> bytes \<Rightarrow> KeyError + bytes" where
  "unseal P sk ct = rbind (ok_or (box_unseal P sk ct) Unseal) (\<lambda>plain.
     case plain of
       [] \<Rightarrow> Inl Truncated
     | v # _ \<Rightarrow>
         if v \<noteq> BUNDLE_VERSION then Inl (KeyError.UnknownVersion v)
         else if length plain < BUNDLE_HEADER_LEN then Inl Truncated
         else Inr plain)"

definition slice :: "nat \<Rightarrow> nat \<Rightarrow> bytes \<Rightarrow> bytes" where
  "slice i j p = take (j - i) (drop i p)"

definition check_binding :: "bytes \<Rightarrow> bundle_binding_to \<Rightarrow> KeyError + unit" where
  "check_binding p b =
     (if slice 2 18 p \<noteq> vid (bt_vault_id b) then Inl (Binding ''vault id'')
      else if slice 18 34 p \<noteq> tid (bt_token_id b) then Inl (Binding ''token id'')
      else if slice 34 38 p \<noteq> u32_be (bt_generation b) then Inl (Binding ''generation'')
      else Inr ())"

definition bundle_key :: "bytes \<Rightarrow> nat \<Rightarrow> bytes" where
  "bundle_key p i = slice (BUNDLE_HEADER_LEN + 32 * i) (BUNDLE_HEADER_LEN + 32 * (i + 1)) p"

definition bundle_open :: "primitives \<Rightarrow> bytes \<Rightarrow> bytes \<Rightarrow> bundle_binding_to \<Rightarrow> KeyError + Bundle" where
  "bundle_open P sk ct binding =
     rbind (unseal P sk ct) (\<lambda>p.
     if p ! 1 = KIND_CHILD then Inl (Kind ''a token or owner bundle'' ''child'')
     else
       rbind (check_binding p binding) (\<lambda>_.
       let g = bt_generation binding; nk = NameKey (bundle_key p 0); body = length p - BUNDLE_HEADER_LEN; kind = p ! 1 in
       if kind = KIND_NAMES \<and> body = 32 then Inr (Bundle.Names \<lparr>nb_generation = g, nb_name_key = nk\<rparr>)
       else if kind = KIND_APPEND \<and> body = 96 then
         Inr (Bundle.Append \<lparr>ab_generation = g, ab_name_key = nk,
           ab_secret_writer = WriterKey (bundle_key p 1), ab_config_writer = WriterKey (bundle_key p 2)\<rparr>)
       else if kind = KIND_CONFIG \<and> body = 64 then
         Inr (Bundle.Config \<lparr>cb_generation = g, cb_name_key = nk, cb_config_secret = ConfigSecret (bundle_key p 1)\<rparr>)
       else if kind = KIND_CONFIG_WRITE \<and> body = 96 then
         Inr (Bundle.ConfigWrite \<lparr>cw_generation = g, cw_name_key = nk,
           cw_config_secret = ConfigSecret (bundle_key p 1), cw_config_writer = WriterKey (bundle_key p 2)\<rparr>)
       else if kind = KIND_READ \<and> body = 96 then
         Inr (Bundle.Read \<lparr>re_generation = g, re_name_key = nk,
           re_vault_secret = VaultSecret (bundle_key p 1), re_config_secret = ConfigSecret (bundle_key p 2)\<rparr>)
       else if kind = KIND_FULL \<and> body = 160 then
         Inr (Bundle.Full \<lparr>fb_generation = g, fb_name_key = nk, fb_vault_secret = VaultSecret (bundle_key p 1),
           fb_config_secret = ConfigSecret (bundle_key p 2), fb_secret_writer = WriterKey (bundle_key p 3),
           fb_config_writer = WriterKey (bundle_key p 4)\<rparr>)
       else if KIND_NAMES \<le> kind \<and> kind \<le> KIND_FULL then Inl (BadLength (kind_name kind) body)
       else Inl (UnknownKind kind)))"

definition expect_scope :: "Bundle \<Rightarrow> Scope \<Rightarrow> KeyError + unit" where
  "expect_scope b scope =
     rbind (ok_or (scope_kind scope) (UnsupportedScope (scope_as_str scope))) (\<lambda>expected.
     if bundle_kind b \<noteq> expected then Inl (Kind (kind_name expected) (kind_name (bundle_kind b))) else Inr ())"

definition open_child_key :: "primitives \<Rightarrow> bytes \<Rightarrow> bytes \<Rightarrow> VaultId \<Rightarrow> KeyError + NodeKey" where
  "open_child_key P sk ct parent_vault =
     rbind (unseal P sk ct) (\<lambda>p.
     if p ! 1 \<noteq> KIND_CHILD then Inl (Kind ''child'' (kind_name (p ! 1)))
     else
       rbind (check_binding p \<lparr>bt_vault_id = parent_vault, bt_token_id = OWNER_TOKEN_ID, bt_generation = 0\<rparr>) (\<lambda>_.
       if length p \<noteq> BUNDLE_HEADER_LEN + 32 then Inl (BadLength ''child'' (length p - BUNDLE_HEADER_LEN))
       else Inr (NodeKey (drop BUNDLE_HEADER_LEN p))))"

text \<open>The holders: the owner (\<open>keys/owner.rs\<close>) and a token (\<open>keys/token.rs\<close>).\<close>

definition open_own_bundle :: "primitives \<Rightarrow> OwnerKeys \<Rightarrow> SignedBundle \<Rightarrow> u32 \<Rightarrow> KeyError + FullBundle" where
  "open_own_bundle P o' sb g =
     rbind (map_err Integrity (bundle_verify (pr_crypto P) sb (ok_sign_pub o') (ok_vault_id o') OWNER_TOKEN_ID OWNER_SCOPE_CODE g)) (\<lambda>_.
     rbind (bundle_open P (ok_boxing o') (b64 (sealed sb))
       \<lparr>bt_vault_id = ok_vault_id o', bt_token_id = OWNER_TOKEN_ID, bt_generation = g\<rparr>) into_full)"

definition owner_open_child_key :: "primitives \<Rightarrow> OwnerKeys \<Rightarrow> bytes \<Rightarrow> KeyError + NodeKey" where
  "owner_open_child_key P o' ct = open_child_key P (ok_boxing o') ct (ok_vault_id o')"

definition seal_children :: "primitives \<Rightarrow> OwnerKeys \<Rightarrow> nat \<Rightarrow> ChildrenRecord \<Rightarrow> (KeyError, ChildrenBlob) drawing" where
  "seal_children P o' version r =
     abind (alift (map_err Children (children_to_bytes (pr_json P) r))) (\<lambda>plain.
     abind (seal_bytes P (ok_box_pub o') plain) (\<lambda>ct.
     aret \<lparr>cb_version = version, cb_ct = B64 ct,
       cb_sig = owner_sign P o' (children_signing_input (pr_crypto P) (ok_vault_id o') version ct)\<rparr>))"

definition open_children :: "primitives \<Rightarrow> OwnerKeys \<Rightarrow> ChildrenBlob \<Rightarrow> KeyError + ChildrenRecord" where
  "open_children P o' blob =
     rbind (map_err Integrity (children_blob_verify (pr_crypto P) blob (ok_vault_id o') (ok_sign_pub o'))) (\<lambda>_.
     rbind (ok_or (box_unseal P (ok_boxing o') (b64 (cb_ct blob))) Unseal) (\<lambda>plain.
     map_err Children (children_parse (pr_json P) plain)))"

definition token_open_bundle ::
    "primitives \<Rightarrow> TokenKeys \<Rightarrow> SignedBundle \<Rightarrow> Key32 \<Rightarrow> Scope \<Rightarrow> u32 \<Rightarrow> KeyError + Bundle" where
  "token_open_bundle P t sb owner_sign_pub scope g =
     (if from_owner_sign_pub (pr_crypto P) owner_sign_pub \<noteq> tk_vault_id t
      then Inl (Integrity (IntegrityError.KeyMismatch ''owner signing key''))
      else
        rbind (map_err Integrity (bundle_verify (pr_crypto P) sb owner_sign_pub (tk_vault_id t) (tk_id t) (scope_code scope) g)) (\<lambda>_.
        rbind (bundle_open P (tk_boxing t) (b64 (sealed sb))
          \<lparr>bt_vault_id = tk_vault_id t, bt_token_id = tk_id t, bt_generation = g\<rparr>) (\<lambda>bundle.
        rbind (expect_scope bundle scope) (\<lambda>_. Inr bundle))))"

section \<open>The layout\<close>

lemma slice_at: "i = length a \<Longrightarrow> j = i + length b \<Longrightarrow> slice i j (a @ b @ c) = b"
  by (simp add: slice_def)

definition keys32 :: "bytes list \<Rightarrow> bool" where
  "keys32 ks \<longleftrightarrow> (\<forall>k \<in> set ks. length k = 32)"

lemma length_concat32: "keys32 ks \<Longrightarrow> length (concat ks) = 32 * length ks"
  by (induction ks) (simp_all add: keys32_def)

lemma concat_slice32:
  assumes "keys32 ks" and "i < length ks"
  shows "take 32 (drop (32 * i) (concat ks)) = ks ! i"
proof -
  have split: "concat ks = concat (take i ks) @ ks ! i @ concat (drop (Suc i) ks)"
    using assms(2) by (metis append_Cons append_Nil concat.simps(2) concat_append id_take_nth_drop)
  have "keys32 (take i ks)" using assms(1) by (auto simp: keys32_def dest: in_set_takeD)
  then have "length (concat (take i ks)) = 32 * i" using assms(2) by (simp add: length_concat32)
  moreover have "length (ks ! i) = 32" using assms by (simp add: keys32_def)
  ultimately show ?thesis by (subst split) simp
qed

lemma length_header:
  "wf_vault_id v \<Longrightarrow> wf_token_id t \<Longrightarrow> length ([x, k] @ vid v @ tid t @ u32_be g) = BUNDLE_HEADER_LEN"
  by (simp add: wf_id_defs BUNDLE_HEADER_LEN_def)

lemma plaintext_length:
  "wf_vault_id v \<Longrightarrow> wf_token_id t \<Longrightarrow> keys32 ks
    \<Longrightarrow> length (plaintext k v t g ks) = BUNDLE_HEADER_LEN + 32 * length ks"
  by (simp add: plaintext_def length_concat32 wf_id_defs BUNDLE_HEADER_LEN_def)

lemma plaintext_body:
  assumes "wf_vault_id v" and "wf_token_id t"
  shows "drop BUNDLE_HEADER_LEN (plaintext k v t g ks) = concat ks"
proof -
  let ?h = "[BUNDLE_VERSION, k] @ vid v @ tid t @ u32_be g"
  have "plaintext k v t g ks = ?h @ concat ks" by (simp add: plaintext_def)
  moreover have "length ?h = BUNDLE_HEADER_LEN" using length_header assms by blast
  ultimately show ?thesis by (metis append_eq_conv_conj)
qed

lemma plaintext_key:
  assumes "wf_vault_id v" and "wf_token_id t" and "keys32 ks" and "i < length ks"
  shows "bundle_key (plaintext k v t g ks) i = ks ! i"
proof -
  have "drop (BUNDLE_HEADER_LEN + 32 * i) (plaintext k v t g ks) = drop (32 * i) (concat ks)"
    by (metis plaintext_body [OF assms(1,2)] drop_drop add.commute)
  then show ?thesis using concat_slice32 [OF assms(3,4)] by (simp add: bundle_key_def slice_def)
qed

lemma plaintext_binding:
  assumes "wf_vault_id v" and "wf_token_id t"
  shows "check_binding (plaintext k v t g ks) \<lparr>bt_vault_id = v, bt_token_id = t, bt_generation = g\<rparr> = Inr ()"
proof -
  let ?p = "plaintext k v t g ks"
  have "slice 2 18 ?p = vid v"
    using assms slice_at [of 2 "[BUNDLE_VERSION, k]" 18 "vid v"] by (simp add: plaintext_def wf_id_defs)
  moreover have "slice 18 34 ?p = tid t"
    using assms slice_at [of 18 "[BUNDLE_VERSION, k] @ vid v" 34 "tid t"] by (simp add: plaintext_def wf_id_defs)
  moreover have "slice 34 38 ?p = u32_be g"
    using assms slice_at [of 34 "[BUNDLE_VERSION, k] @ vid v @ tid t" 38 "u32_be g"]
    by (simp add: plaintext_def wf_id_defs)
  ultimately show ?thesis by (simp add: check_binding_def)
qed

lemma plaintext_kind [simp]: "plaintext k v t g ks ! Suc 0 = k"
  by (simp add: plaintext_def)

section \<open>Round trips\<close>

lemma seal_bytes_unseal:
  assumes "box_ok P" and "seal_bytes P (Key32 (x25519_public P sk)) m i = (Inr ct, j)"
  shows "box_unseal P sk ct = Some m"
  using assms by (auto simp: seal_bytes_def abind_Inr random_bytes_def box_ok_def)

lemma unseal_plaintext:
  assumes "box_unseal P sk ct = Some (plaintext k v t g ks)" and "wf_vault_id v" and "wf_token_id t"
  shows "unseal P sk ct = Inr (plaintext k v t g ks)"
proof -
  have "BUNDLE_HEADER_LEN \<le> length (plaintext k v t g ks)"
    using assms(2,3) by (simp add: plaintext_def wf_id_defs BUNDLE_HEADER_LEN_def)
  then show ?thesis using assms(1) by (simp add: unseal_def plaintext_def)
qed

definition wf_bundle :: "Bundle \<Rightarrow> bool" where
  "wf_bundle b \<longleftrightarrow> keys32 (bundle_keys b)"

lemma opens_encoded:
  assumes "box_unseal P sk ct = Some (bundle_encode b v t)"
    and "wf_vault_id v" and "wf_token_id t" and "wf_bundle b"
  shows "bundle_open P sk ct \<lparr>bt_vault_id = v, bt_token_id = t, bt_generation = bundle_generation b\<rparr> = Inr b"
proof -
  note layout = unseal_plaintext [OF _ assms(2,3)] plaintext_binding [OF assms(2,3)]
    plaintext_length [OF assms(2,3) assms(4) [unfolded wf_bundle_def]]
    plaintext_key [OF assms(2,3) assms(4) [unfolded wf_bundle_def]]
  have "unseal P sk ct = Inr (bundle_encode b v t)"
    using assms(1) unfolding bundle_encode_def by (rule layout(1))
  then show ?thesis
    using layout(3,4) by (cases b) (simp_all add: bundle_open_def bundle_encode_def layout(2) bundle_kind_defs Let_def)
qed

text \<open>Every scope's bundle carries the generation, and exactly the keys \<open>proto/api.rs\<close> says it holds.\<close>

lemma for_scope_held:
  assumes "for_scope f scope = Inr b"
  shows "bundle_generation b = fb_generation f" and "bundle_name_key b = fb_name_key f"
    and "bundle_vault_secret b = (if bundle_holds_vault_key scope then Some (fb_vault_secret f) else None)"
    and "bundle_config_secret b = (if bundle_holds_config_key scope then Some (fb_config_secret f) else None)"
    and "bundle_secret_writer b = (if bundle_holds_secret_writer scope then Some (fb_secret_writer f) else None)"
    and "bundle_config_writer b = (if bundle_holds_config_writer scope then Some (fb_config_writer f) else None)"
    and "scope_kind scope = Some (bundle_kind b)"
  using assms by (cases scope; auto simp: scope_defs)+

lemma for_scope_total: "\<exists>b. for_scope f scope = Inr b"
  by (cases scope) auto

definition wf_full :: "FullBundle \<Rightarrow> bool" where
  "wf_full f \<longleftrightarrow> keys32 (bundle_keys (Bundle.Full f))"

lemma for_scope_wf: "wf_full f \<Longrightarrow> for_scope f scope = Inr b \<Longrightarrow> wf_bundle b"
  by (cases scope) (auto simp: wf_full_def wf_bundle_def keys32_def)

lemma full_generate_wf: "widths_ok P \<Longrightarrow> full_generate P g i = (Inr f, j) \<Longrightarrow> wf_full f \<and> fb_generation f = g"
  by (auto simp: full_generate_def name_key_generate_def random_vault_secret_def random_config_secret_def
      writer_generate_def abind_Inr random_bytes_def wf_full_def keys32_def widths_ok_def)

lemma for_scope_matches:
  "for_scope f scope = Inr b \<Longrightarrow> bundle_matches P b (full_descriptor P f v prev at)"
  by (cases scope) (auto simp: bundle_matches_def full_descriptor_def is_none_or_def)

lemma full_matches_descriptor: "full_matches P f (full_descriptor P f v prev at)"
  by (simp add: full_matches_def full_descriptor_def)

section \<open>Minting and opening\<close>

lemma wf_owner_vault_id: "widths_ok P \<Longrightarrow> wf_owner P o' \<Longrightarrow> wf_vault_id (ok_vault_id o')"
  by (simp add: wf_owner_def from_owner_sign_pub_def wf_id_defs widths_ok_def)

lemma wf_owner_token_id [simp]: "wf_token_id OWNER_TOKEN_ID"
  by (simp add: OWNER_TOKEN_ID_def wf_id_defs)

lemma seal_for_scope_opens:
  assumes "box_ok P" and "signing_ok P" and "widths_ok P" and "wf_owner P o'" and "wf_token P t"
    and "tk_vault_id t = ok_vault_id o'" and "wf_token_id (tk_id t)" and "wf_full f"
    and "seal_for_scope P o' (tk_box_pub t) (tk_id t) scope f i = (Inr sb, j)"
  shows "\<exists>b. for_scope f scope = Inr b \<and> token_open_bundle P t sb (ok_sign_pub o') scope (fb_generation f) = Inr b"
proof -
  obtain b ct n where b: "for_scope f scope = Inr b"
    and ct: "seal_bytes P (tk_box_pub t) (bundle_encode b (ok_vault_id o') (tk_id t)) n = (Inr ct, j)"
    and sb: "sb = \<lparr>sealed = B64 ct, sb_sig = sign_bundle P o' (tk_id t) (scope_code scope) (fb_generation f) ct\<rparr>"
    using assms(9) by (auto simp: seal_for_scope_def abind_Inr)
  have "box_unseal P (tk_boxing t) ct = Some (bundle_encode b (ok_vault_id o') (tk_id t))"
    using ct assms(1,5) by (intro seal_bytes_unseal) (simp_all add: wf_token_def)
  then have opened: "bundle_open P (tk_boxing t) ct
      \<lparr>bt_vault_id = ok_vault_id o', bt_token_id = tk_id t, bt_generation = fb_generation f\<rparr> = Inr b"
    using opens_encoded [OF _ wf_owner_vault_id [OF assms(3,4)] assms(7) for_scope_wf [OF assms(8) b]]
    by (simp add: for_scope_held [OF b])
  have "from_owner_sign_pub (pr_crypto P) (ok_sign_pub o') = ok_vault_id o'" using assms(4) by (simp add: wf_owner_def)
  then have "token_open_bundle P t sb (ok_sign_pub o') scope (fb_generation f) = Inr b"
    using opened sign_bundle_verifies [OF assms(2,4)]
    by (simp add: token_open_bundle_def sb assms(6) expect_scope_def for_scope_held [OF b])
  then show ?thesis using b by blast
qed

text \<open>
  C20. What the owner mints for a token of any scope, that token opens: the holder gets exactly the
  bundle of its scope, every key it holds is the one the generation's descriptor names, and it holds
  the vault key, the config key and the two writer keys just when its scope is meant to.
\<close>

theorem minted_bundle_opens:
  assumes "box_ok P" and "signing_ok P" and "widths_ok P" and "wf_owner P o'" and "wf_token P t"
    and "tk_vault_id t = ok_vault_id o'" and "wf_token_id (tk_id t)" and "wf_full f"
    and "seal_for_scope P o' (tk_box_pub t) (tk_id t) scope f i = (Inr sb, j)"
  shows "\<exists>b. token_open_bundle P t sb (ok_sign_pub o') scope (fb_generation f) = Inr b
    \<and> for_scope f scope = Inr b \<and> bundle_matches P b (full_descriptor P f (ok_vault_id o') prev at)
    \<and> bundle_vault_secret b = (if bundle_holds_vault_key scope then Some (fb_vault_secret f) else None)
    \<and> bundle_config_secret b = (if bundle_holds_config_key scope then Some (fb_config_secret f) else None)
    \<and> bundle_secret_writer b = (if bundle_holds_secret_writer scope then Some (fb_secret_writer f) else None)
    \<and> bundle_config_writer b = (if bundle_holds_config_writer scope then Some (fb_config_writer f) else None)"
proof -
  obtain b where b: "for_scope f scope = Inr b"
    and opened: "token_open_bundle P t sb (ok_sign_pub o') scope (fb_generation f) = Inr b"
    using seal_for_scope_opens [OF assms] by blast
  show ?thesis using b opened for_scope_held [OF b] for_scope_matches by blast
qed

section \<open>A concrete instance\<close>

definition ex_node :: NodeKey where "ex_node = NodeKey (replicate 32 1)"
definition ex_owner :: OwnerKeys where "ex_owner = owner_from_node toy ex_node"
definition ex_holder :: TokenKeys where
  "ex_holder = token_from_parts toy (TokenId (replicate 16 2)) (ok_vault_id ex_owner) (replicate 32 3)"
definition ex_full :: FullBundle where
  "ex_full = \<lparr>fb_generation = 1, fb_name_key = NameKey (replicate 32 4), fb_vault_secret = VaultSecret (replicate 32 5),
     fb_config_secret = ConfigSecret (replicate 32 6), fb_secret_writer = WriterKey (replicate 32 7),
     fb_config_writer = WriterKey (replicate 32 8)\<rparr>"

lemma ex_keys_wf: "wf_owner toy ex_owner" "wf_token toy ex_holder" "tk_vault_id ex_holder = ok_vault_id ex_owner"
    "wf_token_id (tk_id ex_holder)" "wf_full ex_full"
  by (simp_all add: ex_owner_def ex_holder_def ex_full_def owner_from_node_wf wf_token_def
      token_from_parts_def Let_def wf_id_defs wf_full_def keys32_def)

lemma toy_seal_bytes: "\<exists>ct. seal_bytes toy k m i = (Inr ct, Suc i)"
  by (auto simp: seal_bytes_def abind_def random_bytes_def toy_def)

lemma toy_seal_for_scope: "\<exists>sb. seal_for_scope toy o' k t scope f i = (Inr sb, Suc i)"
proof -
  obtain b where b: "for_scope f scope = Inr b" using for_scope_total by blast
  obtain ct where "seal_bytes toy k (bundle_encode b (ok_vault_id o') t) i = (Inr ct, Suc i)"
    using toy_seal_bytes by blast
  then show ?thesis by (simp add: seal_for_scope_def abind_def b)
qed

lemmas ex_mint = seal_for_scope_opens [OF toy_ok(3,2,6) ex_keys_wf]

theorem minted_bundle_opens_witness:
  "\<exists>sb b. seal_for_scope toy ex_owner (tk_box_pub ex_holder) (tk_id ex_holder) Scope.ConfigWrite ex_full 0 = (Inr sb, 1)
    \<and> token_open_bundle toy ex_holder sb (ok_sign_pub ex_owner) Scope.ConfigWrite 1 = Inr b
    \<and> bundle_vault_secret b = None \<and> bundle_config_writer b = Some (WriterKey (replicate 32 8))"
proof -
  obtain sb where sb: "seal_for_scope toy ex_owner (tk_box_pub ex_holder) (tk_id ex_holder) Scope.ConfigWrite ex_full 0 = (Inr sb, 1)"
    using toy_seal_for_scope unfolding One_nat_def by blast
  show ?thesis
    using sb minted_bundle_opens [OF toy_ok(3,2,6) ex_keys_wf sb]
    by (auto simp: scope_defs ex_full_def)
qed

lemma bundle_open_binds:
  assumes "bundle_open P sk ct binding = Inr b"
  shows "bundle_generation b = bt_generation binding"
  using assms by (auto simp: bundle_open_def rbind_eq_Inr Let_def split: if_splits)

lemma expect_scope_ok: "expect_scope b scope = Inr u \<longleftrightarrow> scope_kind scope = Some (bundle_kind b)"
  by (auto simp: expect_scope_def rbind_eq_Inr split: if_splits)

lemma kind_held:
  assumes "scope_kind scope = Some (bundle_kind b)"
  shows "bundle_vault_secret b \<noteq> None \<longleftrightarrow> bundle_holds_vault_key scope"
    and "bundle_config_secret b \<noteq> None \<longleftrightarrow> bundle_holds_config_key scope"
    and "bundle_secret_writer b \<noteq> None \<longleftrightarrow> bundle_holds_secret_writer scope"
    and "bundle_config_writer b \<noteq> None \<longleftrightarrow> bundle_holds_config_writer scope"
  using assms by (cases scope; cases b; simp add: bundle_kind_defs scope_defs)+

text \<open>
  C21. Whatever bytes a server hands a token as its bundle, what the token opens was signed by the
  owner whose key hashes to the token's vault, for this token, this scope and this generation; its
  plaintext repeats the generation, and it is of the scope's kind, so it holds the keys of that scope
  and no other.
\<close>

theorem opened_bundle_authentic:
  assumes "token_open_bundle P t sb pub scope g = Inr b"
  shows "from_owner_sign_pub (pr_crypto P) pub = tk_vault_id t
    \<and> ed25519_verify (pr_crypto P) (k32 pub)
        (bundle_signing_input (pr_crypto P) (tk_vault_id t) (tk_id t) (scope_code scope) g (b64 (sealed sb))) (s64 (sb_sig sb))
    \<and> bundle_generation b = g \<and> scope_kind scope = Some (bundle_kind b)
    \<and> (bundle_vault_secret b \<noteq> None \<longleftrightarrow> bundle_holds_vault_key scope)
    \<and> (bundle_config_secret b \<noteq> None \<longleftrightarrow> bundle_holds_config_key scope)
    \<and> (bundle_secret_writer b \<noteq> None \<longleftrightarrow> bundle_holds_secret_writer scope)
    \<and> (bundle_config_writer b \<noteq> None \<longleftrightarrow> bundle_holds_config_writer scope)"
proof -
  have kind: "scope_kind scope = Some (bundle_kind b)"
    and opened: "bundle_open P (tk_boxing t) (b64 (sealed sb))
      \<lparr>bt_vault_id = tk_vault_id t, bt_token_id = tk_id t, bt_generation = g\<rparr> = Inr b"
    and sig: "from_owner_sign_pub (pr_crypto P) pub = tk_vault_id t"
      "bundle_verify (pr_crypto P) sb pub (tk_vault_id t) (tk_id t) (scope_code scope) g = Inr ()"
    using assms by (auto simp: token_open_bundle_def rbind_eq_Inr expect_scope_ok split: if_splits)
  show ?thesis using sig kind kind_held [OF kind] bundle_open_binds [OF opened] by (simp add: bundle_verify_def)
qed

theorem opened_bundle_authentic_witness:
  "\<exists>sb b. token_open_bundle toy ex_holder sb (ok_sign_pub ex_owner) Scope.Read 1 = Inr b
    \<and> bundle_generation b = 1 \<and> bundle_secret_writer b = None"
proof -
  obtain sb where sb: "seal_for_scope toy ex_owner (tk_box_pub ex_holder) (tk_id ex_holder) Scope.Read ex_full 0 = (Inr sb, Suc 0)"
    using toy_seal_for_scope by blast
  obtain b where b: "token_open_bundle toy ex_holder sb (ok_sign_pub ex_owner) Scope.Read 1 = Inr b"
    using ex_mint [OF sb] by (auto simp: ex_full_def)
  show ?thesis using b opened_bundle_authentic [OF b] by (auto simp: scope_defs)
qed

text \<open>The owner's own bundle, a re-rooted child's key and the children record come back as they went in.\<close>

lemma own_bundle_roundtrip:
  assumes "box_ok P" and "signing_ok P" and "widths_ok P" and "wf_owner P o'" and "wf_full f"
    and "seal_owner_bundle P o' f i = (Inr sb, j)"
  shows "open_own_bundle P o' sb (fb_generation f) = Inr f"
proof -
  obtain ct where ct: "seal_bytes P (ok_box_pub o') (bundle_encode (Bundle.Full f) (ok_vault_id o') OWNER_TOKEN_ID) i = (Inr ct, j)"
    and sb: "sb = \<lparr>sealed = B64 ct, sb_sig = sign_bundle P o' OWNER_TOKEN_ID OWNER_SCOPE_CODE (fb_generation f) ct\<rparr>"
    using assms(6) by (auto simp: seal_owner_bundle_def abind_Inr)
  have "box_unseal P (ok_boxing o') ct = Some (bundle_encode (Bundle.Full f) (ok_vault_id o') OWNER_TOKEN_ID)"
    using ct assms(1,4) by (intro seal_bytes_unseal) (simp_all add: wf_owner_def)
  then have "bundle_open P (ok_boxing o') ct
      \<lparr>bt_vault_id = ok_vault_id o', bt_token_id = OWNER_TOKEN_ID, bt_generation = fb_generation f\<rparr> = Inr (Bundle.Full f)"
    using opens_encoded [OF _ wf_owner_vault_id [OF assms(3,4)] wf_owner_token_id, of P "ok_boxing o'" ct "Bundle.Full f"] assms(5)
    by (simp add: wf_full_def wf_bundle_def)
  then show ?thesis
    using sign_bundle_verifies [OF assms(2,4)] by (simp add: open_own_bundle_def sb into_full_def)
qed

lemma child_key_roundtrip:
  assumes "box_ok P" and "widths_ok P" and "wf_owner P o'" and "length (node_bytes k) = 32"
    and "seal_child_key P (ok_box_pub o') (ok_vault_id o') k i = (Inr ct, j)"
  shows "owner_open_child_key P o' ct = Inr k"
proof -
  let ?p = "plaintext KIND_CHILD (ok_vault_id o') OWNER_TOKEN_ID 0 [node_bytes k]"
  note v = wf_owner_vault_id [OF assms(2,3)] wf_owner_token_id
  have "box_unseal P (ok_boxing o') ct = Some ?p"
    using assms(1,3,5) by (intro seal_bytes_unseal) (simp_all add: wf_owner_def seal_child_key_def)
  then have "unseal P (ok_boxing o') ct = Inr ?p" by (rule unseal_plaintext [OF _ v])
  moreover have "keys32 [node_bytes k]" using assms(4) by (simp add: keys32_def)
  ultimately show ?thesis
    using plaintext_length [OF v, of "[node_bytes k]"] plaintext_body [OF v, of KIND_CHILD 0 "[node_bytes k]"]
    by (simp add: owner_open_child_key_def open_child_key_def plaintext_binding [OF v])
qed

lemma children_sealed_roundtrip:
  assumes "box_ok P" and "signing_ok P" and "children_json_ok (pr_json P)" and "wf_owner P o'" and "children_wf r"
    and "seal_children P o' version r i = (Inr blob, j)"
  shows "open_children P o' blob = Inr r" and "cb_version blob = version"
proof -
  obtain plain ct where plain: "children_to_bytes (pr_json P) r = Inr plain"
    and ct: "seal_bytes P (ok_box_pub o') plain i = (Inr ct, j)"
    and blob: "blob = \<lparr>cb_version = version, cb_ct = B64 ct,
       cb_sig = owner_sign P o' (children_signing_input (pr_crypto P) (ok_vault_id o') version ct)\<rparr>"
    using assms(6) by (auto simp: seal_children_def abind_Inr)
  have "box_unseal P (ok_boxing o') ct = Some plain"
    using ct assms(1,4) by (intro seal_bytes_unseal) (simp_all add: wf_owner_def)
  moreover have "children_parse (pr_json P) plain = Inr r" by (rule children_roundtrip [OF assms(3,5) plain])
  moreover have "children_blob_verify (pr_crypto P) blob (ok_vault_id o') (ok_sign_pub o') = Inr ()"
    using owner_sign_verifies [OF assms(2,4)] by (simp add: children_blob_verify_def blob)
  ultimately show "open_children P o' blob = Inr r" by (simp add: open_children_def blob)
  show "cb_version blob = version" by (simp add: blob)
qed

text \<open>An opened children record is the owner's, under its signed version, and well formed.\<close>

lemma open_children_signed:
  assumes "open_children P o' blob = Inr r"
  shows "ed25519_verify (pr_crypto P) (k32 (ok_sign_pub o'))
      (children_signing_input (pr_crypto P) (ok_vault_id o') (cb_version blob) (b64 (cb_ct blob))) (s64 (cb_sig blob))"
    and "children_wf r"
  using assms by (auto simp: open_children_def rbind_eq_Inr children_blob_verify_def intro: children_parse_ok)

end
