(* ===== verification/Envelope.thy ===== *)
theory Envelope
  imports Bundles
begin

text \<open>
  Secret values and config documents (\<open>seal/envelope.rs\<close>) and the age keys they are sealed to
  (\<open>seal/keys.rs\<close>): the envelope a value is wrapped in, its strict decoder, the bindings a reader
  checks, and sealing and opening under a generation's keys. The errors are those of \<open>seal/mod.rs\<close>.
\<close>

section \<open>Errors and formats\<close>

definition ENVELOPE_VERSION :: byte where "ENVELOPE_VERSION = 1"
definition ENVELOPE_HEADER_LEN :: nat where "ENVELOPE_HEADER_LEN = 1 + 1 + 16 + 4 + 8 + 8 + 2"
definition MAX_NAME_LEN :: nat where "MAX_NAME_LEN = 256"

datatype EnvelopeFault =
    UnknownVersion byte
  | UnknownKind byte
  | UnknownFormat byte
  | Truncated
  | NameTooLong nat
  | NameNotUtf8

text \<open>\<open>Panicked\<close> is not an error of the code: it marks where an assertion of \<open>keys/owner.rs\<close> would stop the caller.\<close>

datatype SealError =
    NotAge
  | Decrypt
  | Envelope EnvelopeFault
  | NameMismatch
  | Binding string
  | NameTooLong
  | BadPublicKey
  | Encrypt string
  | Key KeyError
  | Integrity IntegrityError
  | StaleGeneration u32 u32
  | TokensNotVisible
  | UnknownToken TokenId
  | KindMismatch string string
  | UnsupportedByClient string
  | Panicked string

datatype ConfigFormat = Toml | Json | Yaml | Text

definition ConfigFormat_ALL :: "ConfigFormat list" where
  "ConfigFormat_ALL = [Toml, ConfigFormat.Json, Yaml, Text]"

fun format_code :: "ConfigFormat \<Rightarrow> byte" where
  "format_code Toml = 1"
| "format_code ConfigFormat.Json = 2"
| "format_code Yaml = 3"
| "format_code Text = 4"

definition format_from_code :: "byte \<Rightarrow> ConfigFormat option" where
  "format_from_code code = find (\<lambda>f. format_code f = code) ConfigFormat_ALL"

fun format_as_str :: "ConfigFormat \<Rightarrow> string" where
  "format_as_str Toml = ''toml''"
| "format_as_str ConfigFormat.Json = ''json''"
| "format_as_str Yaml = ''yaml''"
| "format_as_str Text = ''text''"

definition format_parse :: "string \<Rightarrow> ConfigFormat option" where
  "format_parse s = find (\<lambda>f. format_as_str f = s) ConfigFormat_ALL"

interpretation formats: coded format_code format_from_code
proof unfold_locales
  show "format_from_code (format_code x) = Some x" for x
    by (cases x) (simp_all add: format_from_code_def ConfigFormat_ALL_def)
  show "format_from_code b = Some x \<Longrightarrow> format_code x = b" for b x
    by (auto simp: format_from_code_def find_Some_iff)
qed

interpretation format_names: vocabulary ConfigFormat_ALL format_as_str format_parse
proof unfold_locales
  show "x \<in> set ConfigFormat_ALL" for x by (cases x) (simp_all add: ConfigFormat_ALL_def)
  show "distinct (map format_as_str ConfigFormat_ALL)" by (simp add: ConfigFormat_ALL_def)
qed (simp add: format_parse_def)

section \<open>The envelope\<close>

record EnvelopeContext =
  ec_vault_id :: VaultId
  ec_generation :: u32
  ec_version :: nat
  ec_written_at :: int

record Opened =
  op_name :: string
  op_value :: bytes
  op_written_at :: int

record OpenedConfig =
  oc_name :: string
  oc_format :: ConfigFormat
  oc_body :: bytes
  oc_written_at :: int

record Decoded =
  de_kind :: RecordKind
  de_format :: "ConfigFormat option"
  de_ctx :: EnvelopeContext
  de_name :: string
  de_body :: bytes

definition envelope_tail :: "EnvelopeContext \<Rightarrow> string \<Rightarrow> bytes \<Rightarrow> bytes" where
  "envelope_tail x name body = vid (ec_vault_id x) @ u32_be (ec_generation x) @ u64_be (ec_version x)
     @ i64_be (ec_written_at x) @ be_bytes 2 (length name) @ str_bytes name @ body"

definition encode_envelope ::
    "RecordKind \<Rightarrow> ConfigFormat option \<Rightarrow> EnvelopeContext \<Rightarrow> string \<Rightarrow> bytes \<Rightarrow> SealError + bytes" where
  "encode_envelope kind format x name body =
     (if MAX_NAME_LEN < length name then Inl SealError.NameTooLong
      else Inr ([ENVELOPE_VERSION, kind_code kind] @ (case format of None \<Rightarrow> [] | Some f \<Rightarrow> [format_code f])
        @ envelope_tail x name body))"

definition envelope_field :: "nat \<Rightarrow> bytes \<Rightarrow> nat \<Rightarrow> SealError + bytes" where
  "envelope_field n bs at =
     (if at + n \<le> length bs then Inr (take n (drop at bs)) else Inl (Envelope EnvelopeFault.Truncated))"

definition decode_fields :: "RecordKind \<Rightarrow> ConfigFormat option \<Rightarrow> bytes \<Rightarrow> SealError + Decoded" where
  "decode_fields kind format rest =
     (let fixed = ENVELOPE_HEADER_LEN - 2 in
      if length rest < fixed then Inl (Envelope EnvelopeFault.Truncated)
      else
        rbind (envelope_field 16 rest 0) (\<lambda>v. rbind (envelope_field 4 rest 16) (\<lambda>g.
        rbind (envelope_field 8 rest 20) (\<lambda>version. rbind (envelope_field 8 rest 28) (\<lambda>at.
        rbind (envelope_field 2 rest 36) (\<lambda>nl.
        let name_len = of_be nl in
        if MAX_NAME_LEN < name_len then Inl (Envelope (EnvelopeFault.NameTooLong name_len))
        else if length rest < fixed + name_len then Inl (Envelope EnvelopeFault.Truncated)
        else
          rbind (ok_or (from_utf8 (take name_len (drop fixed rest))) (Envelope NameNotUtf8)) (\<lambda>name.
          Inr \<lparr>de_kind = kind, de_format = format,
            de_ctx = \<lparr>ec_vault_id = VaultId v, ec_generation = of_nat (of_be g), ec_version = of_be version,
              ec_written_at = i64_of_be at\<rparr>,
            de_name = name, de_body = drop (fixed + name_len) rest\<rparr>)))))))"

definition decode_envelope :: "bytes \<Rightarrow> SealError + Decoded" where
  "decode_envelope bs =
     (case bs of
        [] \<Rightarrow> Inl (Envelope EnvelopeFault.Truncated)
      | version # r1 \<Rightarrow>
          if version \<noteq> ENVELOPE_VERSION then Inl (Envelope (EnvelopeFault.UnknownVersion version))
          else case r1 of
            [] \<Rightarrow> Inl (Envelope EnvelopeFault.Truncated)
          | kc # r2 \<Rightarrow>
              rbind (ok_or (kind_from_code kc) (Envelope (EnvelopeFault.UnknownKind kc))) (\<lambda>kind.
              case kind of
                RecordKind.Secret \<Rightarrow> decode_fields kind None r2
              | RecordKind.Config \<Rightarrow>
                  (case r2 of
                     [] \<Rightarrow> Inl (Envelope EnvelopeFault.Truncated)
                   | code # r3 \<Rightarrow>
                       rbind (ok_or (format_from_code code) (Envelope (UnknownFormat code))) (\<lambda>f.
                       decode_fields kind (Some f) r3))))"

definition check_envelope :: "Decoded \<Rightarrow> RecordKind \<Rightarrow> EnvelopeContext \<Rightarrow> string \<Rightarrow> SealError + unit" where
  "check_envelope d kind x name =
     (if de_kind d \<noteq> kind then Inl (KindMismatch (kind_as_str kind) (kind_as_str (de_kind d)))
      else if ec_vault_id (de_ctx d) \<noteq> ec_vault_id x then Inl (SealError.Binding ''vault id'')
      else if ec_generation (de_ctx d) \<noteq> ec_generation x then Inl (SealError.Binding ''generation'')
      else if ec_version (de_ctx d) \<noteq> ec_version x then Inl (SealError.Binding ''version'')
      else if ec_written_at (de_ctx d) \<noteq> ec_written_at x then Inl (SealError.Binding ''write time'')
      else if de_name d \<noteq> name then Inl SealError.NameMismatch
      else Inr ())"

section \<open>Age keys\<close>

definition identity_of :: "primitives \<Rightarrow> bytes \<Rightarrow> SealError + bytes" where
  "identity_of P secret =
     rbind (ok_or (bech32_encode_upper P ''age-secret-key-'' secret) Decrypt) (\<lambda>encoded.
     ok_or (age_identity P encoded) Decrypt)"

definition vault_identity :: "primitives \<Rightarrow> VaultSecret \<Rightarrow> SealError + bytes" where
  "vault_identity P s = identity_of P (vault_secret_bytes s)"

definition config_identity :: "primitives \<Rightarrow> ConfigSecret \<Rightarrow> SealError + bytes" where
  "config_identity P s = identity_of P (config_secret_bytes s)"

definition recipient :: "primitives \<Rightarrow> Key32 \<Rightarrow> SealError + bytes" where
  "recipient P public =
     rbind (ok_or (bech32_encode P ''age'' (k32 public)) BadPublicKey) (\<lambda>encoded.
     ok_or (age_recipient P encoded) BadPublicKey)"

definition public_of :: "primitives \<Rightarrow> bytes \<Rightarrow> SealError + Key32" where
  "public_of P secret =
     rbind (identity_of P secret) (\<lambda>i.
     rbind (ok_or (bech32_decode P (age_to_public P i)) BadPublicKey) (\<lambda>(_, bs).
     if length bs = 32 then Inr (Key32 bs) else Inl BadPublicKey))"

definition vault_public_key :: "primitives \<Rightarrow> VaultSecret \<Rightarrow> SealError + Key32" where
  "vault_public_key P s = public_of P (vault_secret_bytes s)"

definition config_public_key :: "primitives \<Rightarrow> ConfigSecret \<Rightarrow> SealError + Key32" where
  "config_public_key P s = public_of P (config_secret_bytes s)"

definition new_vault_keypair :: "primitives \<Rightarrow> (SealError, VaultSecret \<times> Key32) drawing" where
  "new_vault_keypair P =
     abind (random_vault_secret P) (\<lambda>s. abind (alift (vault_public_key P s)) (\<lambda>k. aret (s, k)))"

definition new_config_keypair :: "primitives \<Rightarrow> (SealError, ConfigSecret \<times> Key32) drawing" where
  "new_config_keypair P =
     abind (random_config_secret P) (\<lambda>s. abind (alift (config_public_key P s)) (\<lambda>k. aret (s, k)))"

section \<open>Sealing and opening\<close>

definition decrypt_value :: "primitives \<Rightarrow> bytes \<Rightarrow> bytes \<Rightarrow> SealError + Decoded" where
  "decrypt_value P i ct =
     (if take (length AGE_HEADER) ct \<noteq> AGE_HEADER then Inl NotAge
      else rbind (ok_or (age_decrypt P i ct) Decrypt) decode_envelope)"

text \<open>\<open>age::encrypt\<close> draws a fresh file key.\<close>

definition age_seal :: "primitives \<Rightarrow> Key32 \<Rightarrow> bytes \<Rightarrow> (SealError, bytes) drawing" where
  "age_seal P pub m =
     abind (alift (recipient P pub)) (\<lambda>to. abind (random_bytes P 32) (\<lambda>r.
     alift (map_err SealError.Encrypt (age_encrypt P to r m))))"

definition seal_value ::
    "primitives \<Rightarrow> Key32 \<Rightarrow> EnvelopeContext \<Rightarrow> string \<Rightarrow> bytes \<Rightarrow> (SealError, bytes) drawing" where
  "seal_value P pub x name v =
     abind (alift (encode_envelope RecordKind.Secret None x name v)) (age_seal P pub)"

definition open_value ::
    "primitives \<Rightarrow> VaultSecret \<Rightarrow> EnvelopeContext \<Rightarrow> string \<Rightarrow> bytes \<Rightarrow> SealError + Opened" where
  "open_value P s x name ct =
     rbind (vault_identity P s) (\<lambda>i. rbind (decrypt_value P i ct) (\<lambda>d.
     rbind (check_envelope d RecordKind.Secret x name) (\<lambda>_.
     Inr \<lparr>op_name = de_name d, op_value = de_body d, op_written_at = ec_written_at (de_ctx d)\<rparr>)))"

definition seal_config ::
    "primitives \<Rightarrow> Key32 \<Rightarrow> EnvelopeContext \<Rightarrow> string \<Rightarrow> ConfigFormat \<Rightarrow> bytes \<Rightarrow> (SealError, bytes) drawing" where
  "seal_config P pub x name format body =
     abind (alift (encode_envelope RecordKind.Config (Some format) x name body)) (age_seal P pub)"

definition open_config ::
    "primitives \<Rightarrow> ConfigSecret \<Rightarrow> EnvelopeContext \<Rightarrow> string \<Rightarrow> bytes \<Rightarrow> SealError + OpenedConfig" where
  "open_config P s x name ct =
     rbind (config_identity P s) (\<lambda>i. rbind (decrypt_value P i ct) (\<lambda>d.
     rbind (check_envelope d RecordKind.Config x name) (\<lambda>_.
     rbind (ok_or (de_format d) (Envelope (EnvelopeFault.UnknownKind (kind_code RecordKind.Config)))) (\<lambda>f.
     Inr \<lparr>oc_name = de_name d, oc_format = f, oc_body = de_body d, oc_written_at = ec_written_at (de_ctx d)\<rparr>))))"

section \<open>The codec\<close>

definition wf_envelope :: "EnvelopeContext \<Rightarrow> string \<Rightarrow> bool" where
  "wf_envelope x name \<longleftrightarrow> wf_vault_id (ec_vault_id x) \<and> ec_version x < 2 ^ 64 \<and> i64_range (ec_written_at x)
     \<and> length name \<le> MAX_NAME_LEN \<and> utf8_valid name"

lemma envelope_field_at:
  "at = length a \<Longrightarrow> n = length b \<Longrightarrow> envelope_field n (a @ b @ c) at = Inr b"
  by (simp add: envelope_field_def)

lemma field_chain:
  assumes "length v = 16" and "length g = 4" and "length n = 8" and "length at = 8" and "length nl = 2"
    and "rest = v @ g @ n @ at @ nl @ z"
  shows "envelope_field 16 rest 0 = Inr v" and "envelope_field 4 rest 16 = Inr g"
    and "envelope_field 8 rest 20 = Inr n" and "envelope_field 8 rest 28 = Inr at"
    and "envelope_field 2 rest 36 = Inr nl" and "drop 38 rest = z" and "length rest = 38 + length z"
proof -
  have at: "0 = length []" "16 = length v" "20 = length (v @ g)" "28 = length (v @ g @ n)"
    "36 = length (v @ g @ n @ at)" by (simp_all add: assms(1-5))
  note rest = assms(6) append_assoc append_Nil
  show "envelope_field 16 rest 0 = Inr v"
    using envelope_field_at [OF at(1) assms(1) [symmetric], of "g @ n @ at @ nl @ z"] by (simp only: rest)
  show "envelope_field 4 rest 16 = Inr g"
    using envelope_field_at [OF at(2) assms(2) [symmetric], of "n @ at @ nl @ z"] by (simp only: rest)
  show "envelope_field 8 rest 20 = Inr n"
    using envelope_field_at [OF at(3) assms(3) [symmetric], of "at @ nl @ z"] by (simp only: rest)
  show "envelope_field 8 rest 28 = Inr at"
    using envelope_field_at [OF at(4) assms(4) [symmetric], of "nl @ z"] by (simp only: rest)
  show "envelope_field 2 rest 36 = Inr nl"
    using envelope_field_at [OF at(5) assms(5) [symmetric], of z] by (simp only: rest)
  have "rest = (v @ g @ n @ at @ nl) @ z" and "length (v @ g @ n @ at @ nl) = 38" using assms by simp_all
  then show "drop 38 rest = z" and "length rest = 38 + length z" by (metis append_eq_conv_conj, simp add: assms)
qed

lemma length_str_bytes [simp]: "length (str_bytes s) = length s"
  by (simp add: str_bytes_def)

lemma decode_fields_tail:
  assumes "wf_envelope x name"
  shows "decode_fields kind format (envelope_tail x name body)
    = Inr \<lparr>de_kind = kind, de_format = format, de_ctx = x, de_name = name, de_body = body\<rparr>"
proof -
  have n: "length name \<le> 256" and v: "length (vid (ec_vault_id x)) = 16"
    using assms by (simp_all add: wf_envelope_def MAX_NAME_LEN_def wf_id_defs)
  note fields = field_chain [OF v length_u32_be length_u64_be length_i64_be length_be_bytes envelope_tail_def]
  have nl: "of_be (be_bytes 2 (length name)) = length name" using n by (simp add: of_be_be_bytes_small)
  have ver: "of_be (u64_be (ec_version x)) = ec_version x"
    using assms by (simp add: u64_be_def of_be_be_bytes_small wf_envelope_def)
  have "drop (38 + length name) (envelope_tail x name body) = drop (length name) (str_bytes name @ body)"
    using fields(6) [of name body] by (metis drop_drop add.commute)
  then show ?thesis
    using assms n nl ver fields [of name body]
    by (simp add: decode_fields_def ENVELOPE_HEADER_LEN_def Let_def MAX_NAME_LEN_def from_utf8_def wf_envelope_def
        i64_of_be_i64_be of_be_u32_be)
qed

lemma decode_encode_envelope:
  assumes "wf_envelope x name" and "format = None \<longleftrightarrow> kind = RecordKind.Secret"
    and "encode_envelope kind format x name body = Inr bs"
  shows "decode_envelope bs = Inr \<lparr>de_kind = kind, de_format = format, de_ctx = x, de_name = name, de_body = body\<rparr>"
  using assms(2,3) decode_fields_tail [OF assms(1)]
  by (cases kind; cases format)
    (auto simp: encode_envelope_def decode_envelope_def kind_from_code_def formats.from_code_code split: if_splits)

lemma take_chain6:
  "rest = take 16 rest @ take 4 (drop 16 rest) @ take 8 (drop 20 rest) @ take 8 (drop 28 rest)
     @ take 2 (drop 36 rest) @ take k (drop 38 rest) @ drop (38 + k) (rest :: 'a list)"
proof -
  have step: "drop i rest = take n (drop i rest) @ drop (i + n) rest" for i n
    by (metis append_take_drop_id drop_drop add.commute)
  show ?thesis
    using step [of 0 16] step [of 16 4] step [of 20 8] step [of 28 8] step [of 36 2] step [of 38 k] by simp
qed

lemma decode_fields_canonical:
  assumes "decode_fields kind format rest = Inr d"
  shows "rest = envelope_tail (de_ctx d) (de_name d) (de_body d)" and "wf_envelope (de_ctx d) (de_name d)"
    and "de_kind d = kind" and "de_format d = format"
proof -
  obtain v g n at nl name where fields: "envelope_field 16 rest 0 = Inr v" "envelope_field 4 rest 16 = Inr g"
    "envelope_field 8 rest 20 = Inr n" "envelope_field 8 rest 28 = Inr at" "envelope_field 2 rest 36 = Inr nl"
    and len: "38 + of_be nl \<le> length rest" "of_be nl \<le> 256"
    and name: "from_utf8 (take (of_be nl) (drop 38 rest)) = Some name"
    and d: "d = \<lparr>de_kind = kind, de_format = format,
            de_ctx = \<lparr>ec_vault_id = VaultId v, ec_generation = of_nat (of_be g), ec_version = of_be n,
              ec_written_at = i64_of_be at\<rparr>,
            de_name = name, de_body = drop (38 + of_be nl) rest\<rparr>"
    using assms by (auto simp: decode_fields_def Let_def rbind_eq_Inr ENVELOPE_HEADER_LEN_def MAX_NAME_LEN_def
        not_less split: if_splits)
  have parts: "v = take 16 rest" "g = take 4 (drop 16 rest)" "n = take 8 (drop 20 rest)" "at = take 8 (drop 28 rest)"
    "nl = take 2 (drop 36 rest)" using fields by (auto simp: envelope_field_def split: if_splits)
  have lens: "length v = 16" "length g = 4" "length n = 8" "length at = 8" "length nl = 2"
    using parts len(1) by simp_all
  have str: "str_bytes name = take (of_be nl) (drop 38 rest)" and utf: "utf8_valid name"
    using name by (auto simp: from_utf8_Some)
  have nlen: "length name = of_be nl" using len(1) arg_cong [OF str, of length] by simp
  have g: "u32_be (of_nat (of_be g)) = g"
    by (rule u32_be_of_be [OF lens(2)])
  have n: "u64_be (of_be n) = n" and nl: "be_bytes 2 (of_be nl) = nl"
    using be_bytes_of_be [of n] be_bytes_of_be [of nl] lens by (simp_all add: u64_be_def)
  have "rest = v @ g @ n @ at @ nl @ take (of_be nl) (drop 38 rest) @ drop (38 + of_be nl) rest"
    unfolding parts by (rule take_chain6)
  then show "rest = envelope_tail (de_ctx d) (de_name d) (de_body d)"
    using g n nl lens i64_be_of_be [of at] str nlen by (simp add: d envelope_tail_def)
  show "wf_envelope (de_ctx d) (de_name d)"
    using lens of_be_less [of n] utf nlen len(2)
    by (simp add: d wf_envelope_def wf_id_defs i64_of_be_range MAX_NAME_LEN_def)
  show "de_kind d = kind" "de_format d = format" by (simp_all add: d)
qed

lemma encode_decode_envelope:
  assumes "decode_envelope bs = Inr d"
  shows "encode_envelope (de_kind d) (de_format d) (de_ctx d) (de_name d) (de_body d) = Inr bs"
    and "wf_envelope (de_ctx d) (de_name d)" and "de_format d = None \<longleftrightarrow> de_kind d = RecordKind.Secret"
proof -
  obtain v r1 where v: "bs = v # r1" using assms by (cases bs) (simp_all add: decode_envelope_def)
  obtain kc r2 where bs: "bs = ENVELOPE_VERSION # kc # r2"
    using assms by (cases r1) (auto simp: v decode_envelope_def split: if_splits)
  obtain kind where kind: "kind_from_code kc = Some kind"
    using assms by (cases "kind_from_code kc") (simp_all add: bs decode_envelope_def)
  have kc: "kc = kind_code kind" using kind by (simp add: kinds.from_code_Some_iff)
  obtain format rest where fields: "decode_fields kind format rest = Inr d"
    and r2: "r2 = (case format of None \<Rightarrow> [] | Some f \<Rightarrow> [format_code f]) @ rest"
    and fmt: "format = None \<longleftrightarrow> kind = RecordKind.Secret"
    using assms kind
    by (cases kind) (force simp: bs decode_envelope_def rbind_eq_Inr formats.from_code_Some_iff split: list.splits)+
  note c = decode_fields_canonical [OF fields]
  show "wf_envelope (de_ctx d) (de_name d)" by (rule c(2))
  then show "encode_envelope (de_kind d) (de_format d) (de_ctx d) (de_name d) (de_body d) = Inr bs"
    using c(1,3,4) by (simp add: encode_envelope_def bs kc r2 wf_envelope_def)
  show "de_format d = None \<longleftrightarrow> de_kind d = RecordKind.Secret" using c(3,4) fmt by simp
qed

text \<open>
  The envelope has exactly one encoding: a well-formed value encodes and decodes to itself, and
  every plaintext the decoder accepts is the encoding of what it read, with a name of at most 256
  bytes of UTF-8 and a format just when it is a config.
\<close>

theorem envelope_codec:
  "(wf_envelope x name \<and> (format = None \<longleftrightarrow> kind = RecordKind.Secret) \<longrightarrow>
      (\<exists>bs. encode_envelope kind format x name body = Inr bs
         \<and> decode_envelope bs = Inr \<lparr>de_kind = kind, de_format = format, de_ctx = x, de_name = name, de_body = body\<rparr>))
   \<and> (decode_envelope cs = Inr d \<longrightarrow>
      encode_envelope (de_kind d) (de_format d) (de_ctx d) (de_name d) (de_body d) = Inr cs
      \<and> wf_envelope (de_ctx d) (de_name d) \<and> (de_format d = None \<longleftrightarrow> de_kind d = RecordKind.Secret))"
proof (intro conjI impI)
  assume a: "wf_envelope x name \<and> (format = None \<longleftrightarrow> kind = RecordKind.Secret)"
  then have "length name \<le> MAX_NAME_LEN" by (simp add: wf_envelope_def)
  then obtain bs where bs: "encode_envelope kind format x name body = Inr bs" by (simp add: encode_envelope_def)
  then show "\<exists>bs. encode_envelope kind format x name body = Inr bs
      \<and> decode_envelope bs = Inr \<lparr>de_kind = kind, de_format = format, de_ctx = x, de_name = name, de_body = body\<rparr>"
    using decode_encode_envelope [OF _ _ bs] a by blast
qed (rule encode_decode_envelope; assumption)+

definition ex_envelope :: EnvelopeContext where
  "ex_envelope = \<lparr>ec_vault_id = VaultId (replicate 16 1), ec_generation = 2, ec_version = 3, ec_written_at = 42\<rparr>"

lemma utf8_app: "utf8_valid ''app''"
  by code_simp

lemma ex_envelope_wf: "wf_envelope ex_envelope ''app''"
  using utf8_app by (simp add: ex_envelope_def wf_envelope_def wf_id_defs MAX_NAME_LEN_def i64_range_def i64_min_def
      i64_max_def del: utf8_valid.simps)

theorem envelope_codec_witness:
  "\<exists>bs. encode_envelope RecordKind.Config (Some Yaml) ex_envelope ''app'' [1, 2, 3] = Inr bs
     \<and> decode_envelope bs = Inr \<lparr>de_kind = RecordKind.Config, de_format = Some Yaml, de_ctx = ex_envelope,
          de_name = ''app'', de_body = [1, 2, 3]\<rparr>"
  using envelope_codec [of ex_envelope "''app''" "Some Yaml" RecordKind.Config "[1, 2, 3]"] ex_envelope_wf by simp

section \<open>Sealed values open, and only as what they are\<close>

lemma age_seal_opens:
  assumes "age_ok P" and "age_keys_ok P" and "length k = 32"
    and "age_seal P (Key32 (x25519_public P k)) m i = (Inr ct, j)"
  shows "\<exists>id. identity_of P k = Inr id \<and> age_decrypt P id ct = Some m \<and> take (length AGE_HEADER) ct = AGE_HEADER"
proof -
  obtain s id where s: "bech32_encode_upper P ''age-secret-key-'' k = Some s" "age_identity P s = Some id"
    using assms(2,3) by (auto simp: age_keys_ok_def)
  obtain t p r where "bech32_encode P ''age'' (x25519_public P k) = Some t" "age_recipient P t = Some p"
    "age_encrypt P p r m = Inr ct"
    using assms(4) by (auto simp: age_seal_def abind_Inr recipient_def rbind_eq_Inr random_bytes_def)
  then have "age_decrypt P id ct = Some m \<and> take (length AGE_HEADER) ct = AGE_HEADER"
    using s assms(1) unfolding age_ok_def by blast
  then show ?thesis using s by (simp add: identity_of_def)
qed

lemma check_envelope_ok:
  "check_envelope d kind x name = Inr u \<longleftrightarrow> de_kind d = kind \<and> de_ctx d = x \<and> de_name d = name"
  by (cases d) (auto simp: check_envelope_def)

lemma sealed_envelope_opens:
  assumes "age_ok P" and "age_keys_ok P" and "length k = 32" and "wf_envelope x name"
    and "format = None \<longleftrightarrow> kind = RecordKind.Secret"
    and "abind (alift (encode_envelope kind format x name body)) (age_seal P (Key32 (x25519_public P k))) i = (Inr ct, j)"
  shows "\<exists>id. identity_of P k = Inr id \<and> decrypt_value P id ct
    = Inr \<lparr>de_kind = kind, de_format = format, de_ctx = x, de_name = name, de_body = body\<rparr>"
proof -
  obtain bs where bs: "encode_envelope kind format x name body = Inr bs"
    and ct: "age_seal P (Key32 (x25519_public P k)) bs i = (Inr ct, j)"
    using assms(6) by (auto simp: abind_Inr)
  show ?thesis
    using age_seal_opens [OF assms(1-3) ct] decode_encode_envelope [OF assms(4,5) bs]
    by (auto simp: decrypt_value_def)
qed

lemma seal_value_opens:
  assumes "age_ok P" and "age_keys_ok P" and "length (vault_secret_bytes s) = 32" and "wf_envelope x name"
    and "seal_value P (vault_secret_public P s) x name v i = (Inr ct, j)"
  shows "open_value P s x name ct = Inr \<lparr>op_name = name, op_value = v, op_written_at = ec_written_at x\<rparr>"
  using sealed_envelope_opens [OF assms(1-4), of None RecordKind.Secret v i ct j] assms(5)
  by (auto simp: seal_value_def vault_secret_public_def open_value_def vault_identity_def check_envelope_def)

lemma seal_config_opens:
  assumes "age_ok P" and "age_keys_ok P" and "length (config_secret_bytes s) = 32" and "wf_envelope x name"
    and "seal_config P (config_secret_public P s) x name f v i = (Inr ct, j)"
  shows "open_config P s x name ct = Inr \<lparr>oc_name = name, oc_format = f, oc_body = v, oc_written_at = ec_written_at x\<rparr>"
  using sealed_envelope_opens [OF assms(1-4), of "Some f" RecordKind.Config v i ct j] assms(5)
  by (auto simp: seal_config_def config_secret_public_def open_config_def config_identity_def check_envelope_def)

text \<open>What opens was sealed, byte for byte, as the envelope of just this record.\<close>

lemma decrypt_value_envelope:
  assumes "decrypt_value P i ct = Inr d" and "check_envelope d kind x name = Inr u"
  shows "\<exists>plain. age_decrypt P i ct = Some plain \<and> encode_envelope kind (de_format d) x name (de_body d) = Inr plain
    \<and> wf_envelope x name"
proof -
  obtain plain where plain: "age_decrypt P i ct = Some plain" and d: "decode_envelope plain = Inr d"
    using assms(1) by (auto simp: decrypt_value_def rbind_eq_Inr split: if_splits)
  show ?thesis
    using plain encode_decode_envelope [OF d] assms(2) [unfolded check_envelope_ok] by auto
qed

lemma opened_value_bound:
  assumes "open_value P s x name ct = Inr op"
  shows "\<exists>i plain. vault_identity P s = Inr i \<and> age_decrypt P i ct = Some plain
    \<and> encode_envelope RecordKind.Secret None x name (op_value op) = Inr plain \<and> op_name op = name \<and> wf_envelope x name"
proof -
  obtain i d where i: "vault_identity P s = Inr i" and d: "decrypt_value P i ct = Inr d"
    and ch: "check_envelope d RecordKind.Secret x name = Inr ()" and op: "op_value op = de_body d" "op_name op = de_name d"
    using assms by (auto simp: open_value_def rbind_eq_Inr)
  have "de_format d = None"
    using d ch encode_decode_envelope(3) by (fastforce simp: decrypt_value_def rbind_eq_Inr check_envelope_ok split: if_splits)
  then show ?thesis using decrypt_value_envelope [OF d ch] i op ch by (auto simp: check_envelope_ok)
qed

lemma opened_config_bound:
  assumes "open_config P s x name ct = Inr oc"
  shows "\<exists>i plain. config_identity P s = Inr i \<and> age_decrypt P i ct = Some plain
    \<and> encode_envelope RecordKind.Config (Some (oc_format oc)) x name (oc_body oc) = Inr plain \<and> oc_name oc = name
    \<and> wf_envelope x name"
proof -
  obtain i d f where i: "config_identity P s = Inr i" and d: "decrypt_value P i ct = Inr d"
    and ch: "check_envelope d RecordKind.Config x name = Inr ()" and f: "de_format d = Some f"
    and oc: "oc_body oc = de_body d" "oc_name oc = de_name d" "oc_format oc = f"
    using assms by (auto simp: open_config_def rbind_eq_Inr)
  show ?thesis using decrypt_value_envelope [OF d ch] i oc ch f by (auto simp: check_envelope_ok)
qed

end
