(* ===== verification/Seal_Records.thy ===== *)
theory Seal_Records
  imports Envelope
begin

text \<open>
  Signed records on the client (\<open>seal/record.rs\<close>): sealing and signing a secret, a config or a
  tombstone; verifying a record, a list item or a history entry against a descriptor without
  decrypting; and verifying and opening a record.
\<close>

section \<open>Writing\<close>

record WrittenRecord =
  wr_kind :: RecordKind
  wr_name_hmac :: NameHmac
  wr_name_ct :: bytes
  wr_value_ct :: "bytes option"
  wr_generation :: u32
  wr_version :: nat
  wr_written_at :: int
  wr_sig :: Sig64

definition put_request :: "WrittenRecord \<Rightarrow> PutSecretRequest option" where
  "put_request r = (case wr_value_ct r of
     None \<Rightarrow> None
   | Some ct \<Rightarrow> Some \<lparr>ps_name_ct = B64 (wr_name_ct r), ps_value_ct = B64 ct, ps_generation = wr_generation r,
       ps_version = wr_version r, ps_written_at = wr_written_at r, ps_sig = wr_sig r\<rparr>)"

definition delete_request :: "WrittenRecord \<Rightarrow> DeleteRecordRequest option" where
  "delete_request r = (case wr_value_ct r of
     Some _ \<Rightarrow> None
   | None \<Rightarrow> Some \<lparr>dr_name_ct = B64 (wr_name_ct r), dr_generation = wr_generation r,
       dr_version = wr_version r, dr_written_at = wr_written_at r, dr_sig = wr_sig r\<rparr>)"

record Writer =
  w_descriptor :: Descriptor
  w_name_key :: NameKey
  w_writer :: WriterKey

fun record_writer_pub :: "Descriptor \<Rightarrow> RecordKind \<Rightarrow> SealError + Key32" where
  "record_writer_pub d RecordKind.Secret = Inr (secret_writer_pub d)"
| "record_writer_pub d RecordKind.Config = Inr (config_writer_pub d)"

definition writer_check :: "primitives \<Rightarrow> Writer \<Rightarrow> RecordKind \<Rightarrow> SealError + unit" where
  "writer_check P w kind =
     rbind (record_writer_pub (w_descriptor w) kind) (\<lambda>k.
     if writer_public P (w_writer w) \<noteq> k
     then Inl (SealError.Integrity (IntegrityError.KeyMismatch ''writer key'')) else Inr ())"

definition writer_name_ctx :: "Writer \<Rightarrow> RecordKind \<Rightarrow> NameContext" where
  "writer_name_ctx w kind = \<lparr>nc_vault_id = d_vault_id (w_descriptor w),
     nc_generation = d_generation (w_descriptor w), nc_kind = kind\<rparr>"

definition writer_envelope_ctx :: "Writer \<Rightarrow> nat \<Rightarrow> int \<Rightarrow> EnvelopeContext" where
  "writer_envelope_ctx w version at = \<lparr>ec_vault_id = d_vault_id (w_descriptor w),
     ec_generation = d_generation (w_descriptor w), ec_version = version, ec_written_at = at\<rparr>"

definition writer_finish ::
    "primitives \<Rightarrow> Writer \<Rightarrow> RecordKind \<Rightarrow> string \<Rightarrow> bytes option \<Rightarrow> nat \<Rightarrow> int \<Rightarrow> (SealError, WrittenRecord) drawing" where
  "writer_finish P w kind name value_ct version at =
     (let n = name_key_index P (w_name_key w) kind name; d = w_descriptor w in
      abind (amap_err Key (encrypt_name P (w_name_key w) (writer_name_ctx w kind) name)) (\<lambda>name_ct.
      let x = record_context (pr_crypto P) (d_vault_id d) (d_generation d) kind n version at name_ct value_ct
      in aret \<lparr>wr_kind = kind, wr_name_hmac = n, wr_name_ct = name_ct, wr_value_ct = value_ct,
           wr_generation = d_generation d, wr_version = version, wr_written_at = at,
           wr_sig = writer_sign P (w_writer w) x\<rparr>))"

definition write_secret ::
    "primitives \<Rightarrow> Writer \<Rightarrow> string \<Rightarrow> bytes \<Rightarrow> nat \<Rightarrow> int \<Rightarrow> (SealError, WrittenRecord) drawing" where
  "write_secret P w name v version at =
     abind (alift (writer_check P w RecordKind.Secret)) (\<lambda>_.
     abind (seal_value P (vault_pub (w_descriptor w)) (writer_envelope_ctx w version at) name v) (\<lambda>ct.
     writer_finish P w RecordKind.Secret name (Some ct) version at))"

definition write_config ::
    "primitives \<Rightarrow> Writer \<Rightarrow> string \<Rightarrow> ConfigFormat \<Rightarrow> bytes \<Rightarrow> nat \<Rightarrow> int \<Rightarrow> (SealError, WrittenRecord) drawing" where
  "write_config P w name format body version at =
     abind (alift (writer_check P w RecordKind.Config)) (\<lambda>_.
     abind (seal_config P (config_pub (w_descriptor w)) (writer_envelope_ctx w version at) name format body) (\<lambda>ct.
     writer_finish P w RecordKind.Config name (Some ct) version at))"

definition write_tombstone ::
    "primitives \<Rightarrow> Writer \<Rightarrow> RecordKind \<Rightarrow> string \<Rightarrow> nat \<Rightarrow> int \<Rightarrow> (SealError, WrittenRecord) drawing" where
  "write_tombstone P w kind name version at =
     abind (alift (writer_check P w kind)) (\<lambda>_. writer_finish P w kind name None version at)"

section \<open>Verifying\<close>

definition seal_check_generation :: "Descriptor \<Rightarrow> u32 \<Rightarrow> SealError + unit" where
  "seal_check_generation d g =
     (if g \<noteq> d_generation d then Inl (SealError.StaleGeneration (d_generation d) g) else Inr ())"

definition verify_record :: "primitives \<Rightarrow> Descriptor \<Rightarrow> RecordContext \<Rightarrow> Sig64 \<Rightarrow> SealError + unit" where
  "verify_record P d x sig = rbind (record_writer_pub d (rc_kind x)) (\<lambda>k.
     map_err SealError.Integrity (record_verify (pr_crypto P) x k sig))"

definition verify_version :: "primitives \<Rightarrow> Descriptor \<Rightarrow> RecordKind \<Rightarrow> SecretVersion \<Rightarrow> SealError + unit" where
  "verify_version P d kind v =
     rbind (seal_check_generation d (sv_generation v)) (\<lambda>_.
     if sv_tombstone v \<noteq> (sv_value_ct v = None)
     then Inl (SealError.Integrity (IntegrityError.BindingMismatch ''tombstone flag''))
     else verify_record P d
       (record_context (pr_crypto P) (d_vault_id d) (sv_generation v) kind (sv_name_hmac v) (sv_version v)
          (sv_written_at v) (b64 (sv_name_ct v)) (map_option b64 (sv_value_ct v))) (sv_sig v))"

definition verify_listed :: "primitives \<Rightarrow> Descriptor \<Rightarrow> RecordKind \<Rightarrow> SecretListItem \<Rightarrow> SealError + unit" where
  "verify_listed P d kind i =
     rbind (seal_check_generation d (si_generation i)) (\<lambda>_.
     verify_record P d
       \<lparr>rc_vault_id = d_vault_id d, rc_generation = si_generation i, rc_kind = kind, name_index = si_name_hmac i,
        rc_version = si_version i, rc_written_at = si_written_at i, rc_tombstone = si_tombstone i,
        value_ct_hash = si_value_ct_hash i, name_ct_hash = hash_sha256 (pr_crypto P) (b64 (si_name_ct i))\<rparr> (si_sig i))"

definition verify_meta ::
    "primitives \<Rightarrow> Descriptor \<Rightarrow> RecordKind \<Rightarrow> NameHmac \<Rightarrow> VersionMeta \<Rightarrow> SealError + unit" where
  "verify_meta P d kind n m =
     rbind (seal_check_generation d (vm_generation m)) (\<lambda>_.
     verify_record P d
       \<lparr>rc_vault_id = d_vault_id d, rc_generation = vm_generation m, rc_kind = kind, name_index = n,
        rc_version = vm_version m, rc_written_at = vm_written_at m, rc_tombstone = vm_tombstone m,
        value_ct_hash = vm_value_ct_hash m, name_ct_hash = vm_name_ct_hash m\<rparr> (vm_sig m))"

section \<open>Opening\<close>

definition open_name ::
    "primitives \<Rightarrow> Descriptor \<Rightarrow> NameKey \<Rightarrow> RecordKind \<Rightarrow> NameHmac \<Rightarrow> bytes \<Rightarrow> SealError + string" where
  "open_name P d k kind n ct = map_err Key (name_key_open P k
     \<lparr>nc_vault_id = d_vault_id d, nc_generation = d_generation d, nc_kind = kind\<rparr> n ct)"

record OpenedRecord =
  or_name :: string
  or_version :: nat
  or_written_at :: int
  or_format :: "ConfigFormat option"
  or_value :: "bytes option"

definition version_envelope_ctx :: "Descriptor \<Rightarrow> SecretVersion \<Rightarrow> EnvelopeContext" where
  "version_envelope_ctx d v = \<lparr>ec_vault_id = d_vault_id d, ec_generation = sv_generation v,
     ec_version = sv_version v, ec_written_at = sv_written_at v\<rparr>"

definition open_secret ::
    "primitives \<Rightarrow> Descriptor \<Rightarrow> NameKey \<Rightarrow> VaultSecret \<Rightarrow> SecretVersion \<Rightarrow> SealError + OpenedRecord" where
  "open_secret P d k s v =
     rbind (verify_version P d RecordKind.Secret v) (\<lambda>_.
     rbind (open_name P d k RecordKind.Secret (sv_name_hmac v) (b64 (sv_name_ct v))) (\<lambda>name.
     rbind (case sv_value_ct v of
              None \<Rightarrow> Inr None
            | Some ct \<Rightarrow> rbind (open_value P s (version_envelope_ctx d v) name (b64 ct)) (\<lambda>op. Inr (Some (op_value op)))) (\<lambda>val.
     Inr \<lparr>or_name = name, or_version = sv_version v, or_written_at = sv_written_at v, or_format = None, or_value = val\<rparr>)))"

definition open_config_record ::
    "primitives \<Rightarrow> Descriptor \<Rightarrow> NameKey \<Rightarrow> ConfigSecret \<Rightarrow> SecretVersion \<Rightarrow> SealError + OpenedRecord" where
  "open_config_record P d k s v =
     rbind (verify_version P d RecordKind.Config v) (\<lambda>_.
     rbind (open_name P d k RecordKind.Config (sv_name_hmac v) (b64 (sv_name_ct v))) (\<lambda>name.
     rbind (case sv_value_ct v of
              None \<Rightarrow> Inr (None, None)
            | Some ct \<Rightarrow> rbind (open_config P s (version_envelope_ctx d v) name (b64 ct))
                (\<lambda>oc. Inr (Some (oc_format oc), Some (oc_body oc)))) (\<lambda>(format, val).
     Inr \<lparr>or_name = name, or_version = sv_version v, or_written_at = sv_written_at v, or_format = format, or_value = val\<rparr>)))"

section \<open>What a reader accepts\<close>

text \<open>The context a descriptor's writer signs for a served version.\<close>

definition version_context :: "primitives \<Rightarrow> Descriptor \<Rightarrow> RecordKind \<Rightarrow> SecretVersion \<Rightarrow> RecordContext" where
  "version_context P d kind v = record_context (pr_crypto P) (d_vault_id d) (d_generation d) kind (sv_name_hmac v)
     (sv_version v) (sv_written_at v) (b64 (sv_name_ct v)) (map_option b64 (sv_value_ct v))"

definition writer_pub_of :: "Descriptor \<Rightarrow> RecordKind \<Rightarrow> Key32" where
  "writer_pub_of d kind = (case kind of RecordKind.Secret \<Rightarrow> secret_writer_pub d | RecordKind.Config \<Rightarrow> config_writer_pub d)"

lemma record_writer_pub_eq: "record_writer_pub d kind = Inr (writer_pub_of d kind)"
  by (cases kind) (simp_all add: writer_pub_of_def)

lemma verify_record_ok:
  "verify_record P d x sig = Inr u \<longleftrightarrow>
     ed25519_verify (pr_crypto P) (k32 (writer_pub_of d (rc_kind x))) (record_signing_input x) (s64 sig)"
  by (simp add: verify_record_def record_writer_pub_eq record_verify_def)

lemma verify_version_ok:
  "verify_version P d kind v = Inr u \<longleftrightarrow> sv_generation v = d_generation d \<and> sv_tombstone v = (sv_value_ct v = None)
     \<and> ed25519_verify (pr_crypto P) (k32 (writer_pub_of d kind)) (record_signing_input (version_context P d kind v)) (s64 (sv_sig v))"
proof -
  have "rc_kind (record_context c v' g kind n ver at nct vct) = kind" for c v' g n ver at nct vct
    by (simp add: record_context_def)
  then show ?thesis
    by (auto simp: verify_version_def rbind_eq_Inr seal_check_generation_def verify_record_ok version_context_def)
qed

lemma verify_listed_ok:
  "verify_listed P d kind i = Inr u \<longleftrightarrow> si_generation i = d_generation d
     \<and> ed25519_verify (pr_crypto P) (k32 (writer_pub_of d kind))
         (record_signing_input \<lparr>rc_vault_id = d_vault_id d, rc_generation = si_generation i, rc_kind = kind,
            name_index = si_name_hmac i, rc_version = si_version i, rc_written_at = si_written_at i,
            rc_tombstone = si_tombstone i, value_ct_hash = si_value_ct_hash i,
            name_ct_hash = hash_sha256 (pr_crypto P) (b64 (si_name_ct i))\<rparr>) (s64 (si_sig i))"
  by (auto simp: verify_listed_def rbind_eq_Inr seal_check_generation_def verify_record_ok)

lemma open_secret_ok:
  assumes "open_secret P d k s v = Inr r"
  shows "verify_version P d RecordKind.Secret v = Inr ()"
    and "name_key_index P k RecordKind.Secret (or_name r) = sv_name_hmac v"
    and "or_version r = sv_version v" and "or_written_at r = sv_written_at v" and "or_format r = None"
    and "or_value r = None \<longleftrightarrow> sv_value_ct v = None"
    and "sv_value_ct v = Some ct \<Longrightarrow> or_value r = Some val \<Longrightarrow>
      \<exists>i plain. vault_identity P s = Inr i \<and> age_decrypt P i (b64 ct) = Some plain
        \<and> encode_envelope RecordKind.Secret None (version_envelope_ctx d v) (or_name r) val = Inr plain"
proof -
  obtain name val' where ver: "verify_version P d RecordKind.Secret v = Inr ()"
    and name: "name_key_open P k \<lparr>nc_vault_id = d_vault_id d, nc_generation = d_generation d, nc_kind = RecordKind.Secret\<rparr>
      (sv_name_hmac v) (b64 (sv_name_ct v)) = Inr name"
    and val': "(case sv_value_ct v of
              None \<Rightarrow> Inr None
            | Some ct \<Rightarrow> rbind (open_value P s (version_envelope_ctx d v) name (b64 ct)) (\<lambda>op. Inr (Some (op_value op)))) = Inr val'"
    and r: "r = \<lparr>or_name = name, or_version = sv_version v, or_written_at = sv_written_at v, or_format = None, or_value = val'\<rparr>"
    using assms by (auto simp: open_secret_def rbind_eq_Inr open_name_def)
  show "verify_version P d RecordKind.Secret v = Inr ()" by (rule ver)
  show "name_key_index P k RecordKind.Secret (or_name r) = sv_name_hmac v"
    using name_key_open_index [OF name] by (simp add: r)
  show "or_version r = sv_version v" "or_written_at r = sv_written_at v" "or_format r = None" by (simp_all add: r)
  show "or_value r = None \<longleftrightarrow> sv_value_ct v = None"
    using val' by (auto simp: r rbind_eq_Inr split: option.splits)
  show "\<exists>i plain. vault_identity P s = Inr i \<and> age_decrypt P i (b64 ct) = Some plain
        \<and> encode_envelope RecordKind.Secret None (version_envelope_ctx d v) (or_name r) val = Inr plain"
    if "sv_value_ct v = Some ct" "or_value r = Some val"
    using val' that opened_value_bound by (fastforce simp: r rbind_eq_Inr)
qed

lemma open_config_ok:
  assumes "open_config_record P d k s v = Inr r"
  shows "verify_version P d RecordKind.Config v = Inr ()"
    and "name_key_index P k RecordKind.Config (or_name r) = sv_name_hmac v"
    and "or_version r = sv_version v" and "or_written_at r = sv_written_at v"
    and "or_value r = None \<longleftrightarrow> sv_value_ct v = None" and "or_format r = None \<longleftrightarrow> sv_value_ct v = None"
    and "sv_value_ct v = Some ct \<Longrightarrow> or_value r = Some val \<Longrightarrow>
      \<exists>i plain. config_identity P s = Inr i \<and> age_decrypt P i (b64 ct) = Some plain
        \<and> encode_envelope RecordKind.Config (or_format r) (version_envelope_ctx d v) (or_name r) val = Inr plain"
proof -
  obtain name fm val' where ver: "verify_version P d RecordKind.Config v = Inr ()"
    and name: "name_key_open P k \<lparr>nc_vault_id = d_vault_id d, nc_generation = d_generation d, nc_kind = RecordKind.Config\<rparr>
      (sv_name_hmac v) (b64 (sv_name_ct v)) = Inr name"
    and val': "(case sv_value_ct v of
              None \<Rightarrow> Inr (None, None)
            | Some ct \<Rightarrow> rbind (open_config P s (version_envelope_ctx d v) name (b64 ct))
                (\<lambda>oc. Inr (Some (oc_format oc), Some (oc_body oc)))) = Inr (fm, val')"
    and r: "r = \<lparr>or_name = name, or_version = sv_version v, or_written_at = sv_written_at v, or_format = fm, or_value = val'\<rparr>"
    using assms by (auto simp: open_config_record_def rbind_eq_Inr open_name_def)
  show "verify_version P d RecordKind.Config v = Inr ()" by (rule ver)
  show "name_key_index P k RecordKind.Config (or_name r) = sv_name_hmac v"
    using name_key_open_index [OF name] by (simp add: r)
  show "or_version r = sv_version v" "or_written_at r = sv_written_at v" by (simp_all add: r)
  show "or_value r = None \<longleftrightarrow> sv_value_ct v = None" "or_format r = None \<longleftrightarrow> sv_value_ct v = None"
    using val' by (auto simp: r rbind_eq_Inr split: option.splits)
  show "\<exists>i plain. config_identity P s = Inr i \<and> age_decrypt P i (b64 ct) = Some plain
        \<and> encode_envelope RecordKind.Config (or_format r) (version_envelope_ctx d v) (or_name r) val = Inr plain"
    if "sv_value_ct v = Some ct" "or_value r = Some val"
    using val' that opened_config_bound by (fastforce simp: r rbind_eq_Inr)
qed

section \<open>What is written opens\<close>

text \<open>A written record as the server serves it back.\<close>

definition served :: "WrittenRecord \<Rightarrow> Actor Tolerant \<Rightarrow> SecretVersion" where
  "served r who = \<lparr>sv_name_hmac = wr_name_hmac r, sv_version = wr_version r, sv_name_ct = B64 (wr_name_ct r),
     sv_value_ct = map_option B64 (wr_value_ct r), sv_generation = wr_generation r, sv_written_at = wr_written_at r,
     sv_written_by = who, sv_tombstone = (wr_value_ct r = None), sv_sig = wr_sig r\<rparr>"

text \<open>A full bundle's writer for a kind: its keys are those of the descriptor it builds.\<close>

definition full_writer :: "FullBundle \<Rightarrow> Descriptor \<Rightarrow> RecordKind \<Rightarrow> Writer" where
  "full_writer f d kind = \<lparr>w_descriptor = d, w_name_key = fb_name_key f,
     w_writer = (case kind of RecordKind.Secret \<Rightarrow> fb_secret_writer f | RecordKind.Config \<Rightarrow> fb_config_writer f)\<rparr>"

lemma finish_verifies:
  assumes "signing_ok P" and "writer_check P w kind = Inr ()"
    and "writer_finish P w kind name value_ct version at i = (Inr r, j)"
  shows "verify_version P (w_descriptor w) kind (served r who) = Inr ()"
proof -
  let ?d = "w_descriptor w"
  have pub: "writer_public P (w_writer w) = writer_pub_of ?d kind"
    using assms(2) by (auto simp: writer_check_def record_writer_pub_eq rbind_eq_Inr split: if_splits)
  obtain name_ct where r: "r = \<lparr>wr_kind = kind, wr_name_hmac = name_key_index P (w_name_key w) kind name,
      wr_name_ct = name_ct, wr_value_ct = value_ct, wr_generation = d_generation ?d, wr_version = version,
      wr_written_at = at, wr_sig = writer_sign P (w_writer w) (record_context (pr_crypto P) (d_vault_id ?d)
        (d_generation ?d) kind (name_key_index P (w_name_key w) kind name) version at name_ct value_ct)\<rparr>"
    using assms(3) by (auto simp: writer_finish_def Let_def abind_Inr)
  have vct: "map_option b64 (map_option B64 value_ct) = value_ct" by (cases value_ct) simp_all
  show ?thesis
    using writer_sign_verifies [OF assms(1), of "version_context P ?d kind (served r who)" "w_writer w"]
    by (simp add: verify_version_ok served_def r pub [symmetric] version_context_def vct record_verify_def)
qed

lemma finish_name:
  assumes "aead_ok P" and "widths_ok P" and "utf8_valid name"
    and "writer_finish P w kind name value_ct version at i = (Inr r, j)"
  shows "open_name P (w_descriptor w) (w_name_key w) kind (wr_name_hmac r) (wr_name_ct r) = Inr name"
    and "wr_value_ct r = value_ct" and "wr_version r = version" and "wr_written_at r = at"
    and "wr_generation r = d_generation (w_descriptor w)" and "wr_name_hmac r = name_key_index P (w_name_key w) kind name"
proof -
  obtain name_ct where ct: "encrypt_name P (w_name_key w) (writer_name_ctx w kind) name i = (Inr name_ct, j)"
    and r: "wr_name_ct r = name_ct" "wr_name_hmac r = name_key_index P (w_name_key w) kind name"
      "wr_value_ct r = value_ct" "wr_version r = version" "wr_written_at r = at"
      "wr_generation r = d_generation (w_descriptor w)"
    using assms(4) by (auto simp: writer_finish_def Let_def abind_Inr)
  show "open_name P (w_descriptor w) (w_name_key w) kind (wr_name_hmac r) (wr_name_ct r) = Inr name"
    using encrypt_open_name [OF assms(1-3) ct] by (simp add: r open_name_def writer_name_ctx_def)
qed (use assms(4) in \<open>auto simp: writer_finish_def Let_def abind_Inr\<close>)

lemma seal_value_name: "seal_value P pub x name v i = (Inr ct, j) \<Longrightarrow> length name \<le> MAX_NAME_LEN"
  by (auto simp: seal_value_def abind_Inr encode_envelope_def split: if_splits)

lemma seal_config_name: "seal_config P pub x name f v i = (Inr ct, j) \<Longrightarrow> length name \<le> MAX_NAME_LEN"
  by (auto simp: seal_config_def abind_Inr encode_envelope_def split: if_splits)

text \<open>The facts about the primitives that reading back a written record rests on.\<close>

definition sealing_ok :: "primitives \<Rightarrow> bool" where
  "sealing_ok P \<longleftrightarrow> aead_ok P \<and> signing_ok P \<and> age_ok P \<and> age_keys_ok P \<and> widths_ok P"

lemma toy_sealing_ok: "sealing_ok toy"
  by (simp add: sealing_ok_def toy_ok)

definition wf_stamp :: "Descriptor \<Rightarrow> string \<Rightarrow> nat \<Rightarrow> int \<Rightarrow> bool" where
  "wf_stamp d name version at \<longleftrightarrow> wf_vault_id (d_vault_id d) \<and> utf8_valid name \<and> version < 2 ^ 64 \<and> i64_range at"

lemma wf_stamp_envelope:
  "wf_stamp d name version at \<Longrightarrow> length name \<le> MAX_NAME_LEN
    \<Longrightarrow> wf_envelope \<lparr>ec_vault_id = d_vault_id d, ec_generation = g, ec_version = version, ec_written_at = at\<rparr> name"
  by (simp add: wf_stamp_def wf_envelope_def)

lemma written_secret_opens:
  assumes "sealing_ok P" and "wf_stamp (w_descriptor w) name version at"
    and "length (vault_secret_bytes s) = 32" and "vault_pub (w_descriptor w) = vault_secret_public P s"
    and "write_secret P w name v version at i = (Inr r, j)"
  shows "open_secret P (w_descriptor w) (w_name_key w) s (served r who)
    = Inr \<lparr>or_name = name, or_version = version, or_written_at = at, or_format = None, or_value = Some v\<rparr>"
proof -
  let ?d = "w_descriptor w"
  note ok = assms(1) [unfolded sealing_ok_def]
  obtain ct i1 where chk: "writer_check P w RecordKind.Secret = Inr ()"
    and ct: "seal_value P (vault_pub ?d) (writer_envelope_ctx w version at) name v i = (Inr ct, i1)"
    and fin: "writer_finish P w RecordKind.Secret name (Some ct) version at i1 = (Inr r, j)"
    using assms(5) by (auto simp: write_secret_def abind_Inr)
  have utf: "utf8_valid name" using assms(2) by (simp add: wf_stamp_def)
  note fn = finish_name [OF _ _ utf fin] and ver = finish_verifies [OF _ chk fin, of who]
  have "wf_envelope (writer_envelope_ctx w version at) name"
    using wf_stamp_envelope [OF assms(2) seal_value_name [OF ct]] by (simp add: writer_envelope_ctx_def)
  then have "open_value P s (writer_envelope_ctx w version at) name ct
      = Inr \<lparr>op_name = name, op_value = v, op_written_at = at\<rparr>"
    using seal_value_opens [OF _ _ assms(3)] ct ok by (simp add: assms(4) writer_envelope_ctx_def)
  moreover have "version_envelope_ctx ?d (served r who) = writer_envelope_ctx w version at"
    using fn ok by (simp add: version_envelope_ctx_def writer_envelope_ctx_def served_def)
  ultimately show ?thesis
    using ver fn ok by (simp add: open_secret_def served_def)
qed

lemma written_config_opens:
  assumes "sealing_ok P" and "wf_stamp (w_descriptor w) name version at"
    and "length (config_secret_bytes s) = 32" and "config_pub (w_descriptor w) = config_secret_public P s"
    and "write_config P w name f v version at i = (Inr r, j)"
  shows "open_config_record P (w_descriptor w) (w_name_key w) s (served r who)
    = Inr \<lparr>or_name = name, or_version = version, or_written_at = at, or_format = Some f, or_value = Some v\<rparr>"
proof -
  let ?d = "w_descriptor w"
  note ok = assms(1) [unfolded sealing_ok_def]
  obtain ct i1 where chk: "writer_check P w RecordKind.Config = Inr ()"
    and ct: "seal_config P (config_pub ?d) (writer_envelope_ctx w version at) name f v i = (Inr ct, i1)"
    and fin: "writer_finish P w RecordKind.Config name (Some ct) version at i1 = (Inr r, j)"
    using assms(5) by (auto simp: write_config_def abind_Inr)
  have utf: "utf8_valid name" using assms(2) by (simp add: wf_stamp_def)
  note fn = finish_name [OF _ _ utf fin] and ver = finish_verifies [OF _ chk fin, of who]
  have "wf_envelope (writer_envelope_ctx w version at) name"
    using wf_stamp_envelope [OF assms(2) seal_config_name [OF ct]] by (simp add: writer_envelope_ctx_def)
  then have "open_config P s (writer_envelope_ctx w version at) name ct
      = Inr \<lparr>oc_name = name, oc_format = f, oc_body = v, oc_written_at = at\<rparr>"
    using seal_config_opens [OF _ _ assms(3)] ct ok by (simp add: assms(4) writer_envelope_ctx_def)
  moreover have "version_envelope_ctx ?d (served r who) = writer_envelope_ctx w version at"
    using fn ok by (simp add: version_envelope_ctx_def writer_envelope_ctx_def served_def)
  ultimately show ?thesis
    using ver fn ok by (simp add: open_config_record_def served_def)
qed

lemma written_tombstone_opens:
  assumes "sealing_ok P" and "utf8_valid name" and "write_tombstone P w kind name version at i = (Inr r, j)"
  shows "kind = RecordKind.Secret \<Longrightarrow> open_secret P (w_descriptor w) (w_name_key w) s (served r who)
      = Inr \<lparr>or_name = name, or_version = version, or_written_at = at, or_format = None, or_value = None\<rparr>"
    and "kind = RecordKind.Config \<Longrightarrow> open_config_record P (w_descriptor w) (w_name_key w) cs (served r who)
      = Inr \<lparr>or_name = name, or_version = version, or_written_at = at, or_format = None, or_value = None\<rparr>"
proof -
  note ok = assms(1) [unfolded sealing_ok_def]
  have chk: "writer_check P w kind = Inr ()" and fin: "writer_finish P w kind name None version at i = (Inr r, j)"
    using assms(3) by (auto simp: write_tombstone_def abind_Inr)
  note fn = finish_name [OF _ _ assms(2) fin] and ver = finish_verifies [OF _ chk fin, of who]
  show "kind = RecordKind.Secret \<Longrightarrow> open_secret P (w_descriptor w) (w_name_key w) s (served r who)
      = Inr \<lparr>or_name = name, or_version = version, or_written_at = at, or_format = None, or_value = None\<rparr>"
    using ver fn ok by (simp add: open_secret_def served_def)
  show "kind = RecordKind.Config \<Longrightarrow> open_config_record P (w_descriptor w) (w_name_key w) cs (served r who)
      = Inr \<lparr>or_name = name, or_version = version, or_written_at = at, or_format = None, or_value = None\<rparr>"
    using ver fn ok by (simp add: open_config_record_def served_def)
qed

lemma full_writer_check: "full_matches P f d \<Longrightarrow> writer_check P (full_writer f d kind) kind = Inr ()"
  by (cases kind) (auto simp: writer_check_def full_writer_def full_matches_def)

lemma full_writer_fields [simp]: "w_descriptor (full_writer f d kind) = d" "w_name_key (full_writer f d kind) = fb_name_key f"
  by (simp_all add: full_writer_def)

text \<open>
  C19. Whatever a holder of a generation's keys writes (a secret, a config or a tombstone), every
  reader of that generation gets back: the served record passes its signature check and opens to the
  same name, version, write time, format and value.
\<close>

theorem written_record_opens:
  assumes "sealing_ok P" and "wf_full f" and "full_matches P f d" and "wf_stamp d name version at"
  shows "(write_secret P (full_writer f d RecordKind.Secret) name v version at i = (Inr r, j) \<longrightarrow>
      open_secret P d (fb_name_key f) (fb_vault_secret f) (served r who)
        = Inr \<lparr>or_name = name, or_version = version, or_written_at = at, or_format = None, or_value = Some v\<rparr>)
    \<and> (write_config P (full_writer f d RecordKind.Config) name fm v version at i = (Inr r, j) \<longrightarrow>
      open_config_record P d (fb_name_key f) (fb_config_secret f) (served r who)
        = Inr \<lparr>or_name = name, or_version = version, or_written_at = at, or_format = Some fm, or_value = Some v\<rparr>)
    \<and> (write_tombstone P (full_writer f d RecordKind.Secret) RecordKind.Secret name version at i = (Inr r, j) \<longrightarrow>
      open_secret P d (fb_name_key f) (fb_vault_secret f) (served r who)
        = Inr \<lparr>or_name = name, or_version = version, or_written_at = at, or_format = None, or_value = None\<rparr>)"
proof -
  have len: "length (vault_secret_bytes (fb_vault_secret f)) = 32" "length (config_secret_bytes (fb_config_secret f)) = 32"
    using assms(2) by (simp_all add: wf_full_def keys32_def)
  have pub: "vault_pub d = vault_secret_public P (fb_vault_secret f)" "config_pub d = config_secret_public P (fb_config_secret f)"
    using assms(3) by (simp_all add: full_matches_def)
  have utf: "utf8_valid name" using assms(4) by (simp add: wf_stamp_def)
  show ?thesis
    using written_secret_opens [OF assms(1) _ len(1), of "full_writer f d RecordKind.Secret"]
      written_config_opens [OF assms(1) _ len(2), of "full_writer f d RecordKind.Config"]
      written_tombstone_opens(1) [OF assms(1) utf, of "full_writer f d RecordKind.Secret"] assms(4) pub
    by simp
qed

lemma full_descriptor_wf:
  assumes "widths_ok P" and "wf_vault_id v" and "i64_range now" and "wf_hash32 h"
  shows "wf_descriptor (full_descriptor P f v h now)"
  using assms by (simp add: wf_descriptor_def full_descriptor_def wf_id_defs widths_ok_def vault_secret_public_def
      config_secret_public_def writer_public_def)

text \<open>A run of the model: a secret sealed under the concrete generation.\<close>

definition ex_descriptor :: Descriptor where
  "ex_descriptor = full_descriptor toy ex_full (ok_vault_id ex_owner) (Hash32 (replicate 32 0)) 7"

lemma ex_descriptor_matches: "full_matches toy ex_full ex_descriptor"
  by (simp add: ex_descriptor_def full_matches_descriptor)

lemma ex_descriptor_wf: "wf_descriptor ex_descriptor"
  unfolding ex_descriptor_def
  by (rule full_descriptor_wf [OF toy_ok(6) wf_owner_vault_id [OF toy_ok(6) ex_keys_wf(1)]])
    (simp_all add: i64_range_def i64_min_def i64_max_def wf_id_defs)

lemma ex_stamp: "wf_stamp ex_descriptor ''app'' 1 42"
  using utf8_app wf_owner_vault_id [OF toy_ok(6) ex_keys_wf(1)]
  by (simp add: wf_stamp_def ex_descriptor_def full_descriptor_def i64_range_def i64_min_def i64_max_def del: utf8_valid.simps)

lemma toy_finish: "\<exists>r j. writer_finish toy w kind name ct version at i = (Inr r, j)"
  by (simp add: writer_finish_def Let_def abind_def amap_err_def encrypt_name_def random_bytes_def toy_def)

lemma toy_age_seal: "\<exists>ct j. age_seal toy k m i = (Inr ct, j)"
  by (simp add: age_seal_def abind_def random_bytes_def recipient_def toy_def)

lemma toy_write_secret:
  assumes "writer_check toy w RecordKind.Secret = Inr ()" and "length name \<le> MAX_NAME_LEN"
  shows "\<exists>r j. write_secret toy w name v version at i = (Inr r, j)"
proof -
  obtain bs where bs: "encode_envelope RecordKind.Secret None (writer_envelope_ctx w version at) name v = Inr bs"
    using assms(2) by (simp add: encode_envelope_def)
  obtain ct j where ct: "age_seal toy (vault_pub (w_descriptor w)) bs i = (Inr ct, j)" using toy_age_seal by blast
  obtain r j' where "writer_finish toy w RecordKind.Secret name (Some ct) version at j = (Inr r, j')"
    using toy_finish by blast
  then show ?thesis using assms(1) bs ct by (simp add: write_secret_def seal_value_def abind_def)
qed

theorem written_record_opens_witness:
  "\<exists>r j. write_secret toy (full_writer ex_full ex_descriptor RecordKind.Secret) ''app'' [1, 2] 1 42 0 = (Inr r, j)
    \<and> open_secret toy ex_descriptor (fb_name_key ex_full) (fb_vault_secret ex_full) (served r (Known Actor.Owner))
      = Inr \<lparr>or_name = ''app'', or_version = 1, or_written_at = 42, or_format = None, or_value = Some [1, 2]\<rparr>"
proof -
  obtain r j where r: "write_secret toy (full_writer ex_full ex_descriptor RecordKind.Secret) ''app'' [1, 2] 1 42 0 = (Inr r, j)"
    using toy_write_secret [OF full_writer_check [OF ex_descriptor_matches]] by (fastforce simp: MAX_NAME_LEN_def)
  show ?thesis
    using r written_record_opens [OF toy_sealing_ok ex_keys_wf(5) ex_descriptor_matches ex_stamp] by blast
qed

text \<open>
  C12. Whatever record a server returns, what the client opens is authentic and in its place: the
  generation's writer for that kind signed this vault, generation, kind, name index, version, write
  time and both ciphertexts; the name opens to the index; and the decrypted bytes are the envelope of
  exactly this record and value, so a ciphertext moved from another record, version, kind or vault
  never opens.
\<close>

theorem opened_record_authentic:
  "(open_secret P d k s v = Inr r \<longrightarrow>
      sv_generation v = d_generation d
      \<and> ed25519_verify (pr_crypto P) (k32 (secret_writer_pub d))
          (record_signing_input (version_context P d RecordKind.Secret v)) (s64 (sv_sig v))
      \<and> name_key_index P k RecordKind.Secret (or_name r) = sv_name_hmac v
      \<and> or_version r = sv_version v \<and> or_written_at r = sv_written_at v
      \<and> (or_value r = None \<longleftrightarrow> sv_value_ct v = None)
      \<and> (\<forall>ct val. sv_value_ct v = Some ct \<longrightarrow> or_value r = Some val \<longrightarrow>
           (\<exists>i plain. vault_identity P s = Inr i \<and> age_decrypt P i (b64 ct) = Some plain
              \<and> encode_envelope RecordKind.Secret None (version_envelope_ctx d v) (or_name r) val = Inr plain)))
   \<and> (open_config_record P d k cs v = Inr r \<longrightarrow>
      sv_generation v = d_generation d
      \<and> ed25519_verify (pr_crypto P) (k32 (config_writer_pub d))
          (record_signing_input (version_context P d RecordKind.Config v)) (s64 (sv_sig v))
      \<and> name_key_index P k RecordKind.Config (or_name r) = sv_name_hmac v
      \<and> or_version r = sv_version v \<and> or_written_at r = sv_written_at v
      \<and> (or_value r = None \<longleftrightarrow> sv_value_ct v = None)
      \<and> (\<forall>ct val. sv_value_ct v = Some ct \<longrightarrow> or_value r = Some val \<longrightarrow>
           (\<exists>i plain. config_identity P cs = Inr i \<and> age_decrypt P i (b64 ct) = Some plain
              \<and> encode_envelope RecordKind.Config (or_format r) (version_envelope_ctx d v) (or_name r) val = Inr plain)))"
proof (intro conjI impI)
  assume o': "open_secret P d k s v = Inr r"
  note ok = open_secret_ok [OF o']
  show "sv_generation v = d_generation d" using ok(1) by (simp add: verify_version_ok)
  show "ed25519_verify (pr_crypto P) (k32 (secret_writer_pub d))
      (record_signing_input (version_context P d RecordKind.Secret v)) (s64 (sv_sig v))"
    using ok(1) by (simp add: verify_version_ok writer_pub_of_def)
qed (use open_secret_ok open_config_ok in \<open>auto simp: verify_version_ok writer_pub_of_def\<close>)

theorem opened_record_authentic_witness:
  "\<exists>v r. open_secret toy ex_descriptor (fb_name_key ex_full) (fb_vault_secret ex_full) v = Inr r
     \<and> or_value r = Some [1, 2] \<and> name_key_index toy (fb_name_key ex_full) RecordKind.Secret (or_name r) = sv_name_hmac v"
proof -
  let ?w = "full_writer ex_full ex_descriptor RecordKind.Secret"
  obtain r j where r: "write_secret toy ?w ''app'' [1, 2] 1 42 0 = (Inr r, j)"
    using toy_write_secret [OF full_writer_check [OF ex_descriptor_matches]] by (fastforce simp: MAX_NAME_LEN_def)
  have "length (vault_secret_bytes (fb_vault_secret ex_full)) = 32" by (simp add: ex_full_def)
  then have o': "open_secret toy ex_descriptor (fb_name_key ex_full) (fb_vault_secret ex_full) (served r (Known Actor.Owner))
      = Inr \<lparr>or_name = ''app'', or_version = 1, or_written_at = 42, or_format = None, or_value = Some [1, 2]\<rparr>"
    using written_secret_opens [OF toy_sealing_ok _ _ _ r] ex_stamp ex_descriptor_matches
    by (simp add: full_matches_def)
  show ?thesis using o' opened_record_authentic [of toy ex_descriptor "fb_name_key ex_full" "fb_vault_secret ex_full"
      "served r (Known Actor.Owner)"] by (intro exI conjI) (rule o', simp, blast)
qed

end
