(* ===== verification/Seal_Rotation.thy ===== *)
theory Seal_Rotation
  imports Seal_Records
begin

text \<open>
  The rotation batch (\<open>seal/rotation.rs\<close>): a fresh generation, every retained version verified,
  opened and written again under it, and a bundle for the owner and every surviving token.
\<close>

section \<open>Building a rotation\<close>

record Rotation =
  ro_request :: RotationRequest
  ro_new_bundle :: FullBundle
  ro_new_descriptor :: Descriptor

text \<open>
  \<open>{:?}\<close> of a string. Rust also escapes the non-ASCII characters it considers unprintable; they are
  left as they are here.
\<close>

definition char_debug :: "char \<Rightarrow> string" where
  "char_debug a =
     (if a = CHR 0x22 then [CHR 0x5C, CHR 0x22] else if a = CHR 0x5C then [CHR 0x5C, CHR 0x5C]
      else if a = CHR 0x0A then [CHR 0x5C, CHR ''n''] else if a = CHR 0x0D then [CHR 0x5C, CHR ''r'']
      else if a = CHR 0x09 then [CHR 0x5C, CHR ''t''] else if a = CHR 0x00 then [CHR 0x5C, CHR ''0'']
      else if of_char a < (32 :: nat) \<or> of_char a = (127 :: nat)
      then [CHR 0x5C, CHR ''u'', CHR 0x7B] @ (if 16 \<le> (of_char a :: nat) then [hex_digit (of_char a div 16)] else [])
        @ [hex_digit (of_char a mod 16), CHR 0x7D]
      else [a])"

definition str_debug :: "string \<Rightarrow> string" where
  "str_debug s = [CHR 0x22] @ concat (map char_debug s) @ [CHR 0x22]"

definition unsupported_scope :: "primitives \<Rightarrow> TokenSummary \<Rightarrow> SealError" where
  "unsupported_scope P t = UnsupportedByClient (''token '' @ token_id_to_hex (pr_crypto P) (ts_token_id t)
     @ '' has scope '' @ str_debug (case tolerant_unknown (ts_scope t) of None \<Rightarrow> ''?'' | Some s \<Rightarrow> s)
     @ '', which this client does not know, so it cannot reseal its bundle'')"

definition unknown_scope :: "primitives \<Rightarrow> TokenSummary \<Rightarrow> SealError" where
  "unknown_scope P t = UnsupportedByClient (''token '' @ token_id_to_hex (pr_crypto P) (ts_token_id t) @ '' has an unknown scope'')"

definition rotated_version :: "SecretVersion \<Rightarrow> WrittenRecord \<Rightarrow> RotatedVersion" where
  "rotated_version v r = \<lparr>old_name_hmac = sv_name_hmac v, rv_version = sv_version v, rv_name_hmac = wr_name_hmac r,
     rv_name_ct = B64 (wr_name_ct r), rv_value_ct = map_option B64 (wr_value_ct r),
     rv_written_at = sv_written_at v, rv_sig = wr_sig r\<rparr>"

definition rotate_secret ::
    "primitives \<Rightarrow> Descriptor \<Rightarrow> FullBundle \<Rightarrow> Writer \<Rightarrow> SecretVersion \<Rightarrow> (SealError, RotatedVersion) drawing" where
  "rotate_secret P d cur w v =
     abind (alift (open_secret P d (fb_name_key cur) (fb_vault_secret cur) v)) (\<lambda>op.
     abind (case or_value op of
              Some val \<Rightarrow> write_secret P w (or_name op) val (sv_version v) (sv_written_at v)
            | None \<Rightarrow> write_tombstone P w RecordKind.Secret (or_name op) (sv_version v) (sv_written_at v)) (\<lambda>r.
     aret (rotated_version v r)))"

definition rotate_config ::
    "primitives \<Rightarrow> Descriptor \<Rightarrow> FullBundle \<Rightarrow> Writer \<Rightarrow> SecretVersion \<Rightarrow> (SealError, RotatedVersion) drawing" where
  "rotate_config P d cur w v =
     abind (alift (open_config_record P d (fb_name_key cur) (fb_config_secret cur) v)) (\<lambda>op.
     abind (case (or_value op, or_format op) of
              (Some body, Some format) \<Rightarrow> write_config P w (or_name op) format body (sv_version v) (sv_written_at v)
            | _ \<Rightarrow> write_tombstone P w RecordKind.Config (or_name op) (sv_version v) (sv_written_at v)) (\<lambda>r.
     aret (rotated_version v r)))"

definition reseal :: "primitives \<Rightarrow> OwnerKeys \<Rightarrow> FullBundle \<Rightarrow> TokenSummary \<Rightarrow> (SealError, ResealedBundle) drawing" where
  "reseal P o' nxt t =
     abind (alift (ok_or (tolerant_known (ts_scope t)) (unknown_scope P t))) (\<lambda>scope.
     abind (amap_err Key (seal_for_scope P o' (ts_box_pub t) (ts_token_id t) scope nxt)) (\<lambda>b.
     aret \<lparr>rb_token_id = ts_token_id t, rb_bundle = b\<rparr>))"

definition survivors :: "TokenId list \<Rightarrow> TokenSummary list \<Rightarrow> TokenSummary list" where
  "survivors revoked tokens = filter (\<lambda>t. ts_token_id t \<notin> set revoked) tokens"

definition rotation_refusal :: "primitives \<Rightarrow> TokenSummary list \<Rightarrow> TokenId list \<Rightarrow> SealError option" where
  "rotation_refusal P tokens revoked =
     (case find (\<lambda>t. tolerant_known (ts_scope t) = None) (survivors revoked tokens) of
        Some t \<Rightarrow> Some (unsupported_scope P t)
      | None \<Rightarrow> (case find (\<lambda>i. \<not> list_ex (\<lambda>t. ts_token_id t = i) tokens) revoked of
          Some i \<Rightarrow> Some (SealError.UnknownToken i)
        | None \<Rightarrow> None))"

definition build_rotation ::
    "primitives \<Rightarrow> OwnerKeys \<Rightarrow> VaultStatus \<Rightarrow> Descriptor \<Rightarrow> FullBundle \<Rightarrow> SecretVersion list \<Rightarrow> SecretVersion list
      \<Rightarrow> TokenId list \<Rightarrow> int \<Rightarrow> (SealError, Rotation) drawing" where
  "build_rotation P o' status d cur secrets configs revoked now =
     (if fb_generation cur \<noteq> vs_generation status \<or> d_generation d \<noteq> vs_generation status
      then afail (SealError.StaleGeneration (fb_generation cur) (vs_generation status))
      else
        abind (alift (ok_or (vs_tokens status) TokensNotVisible)) (\<lambda>tokens.
        case rotation_refusal P tokens revoked of
          Some e \<Rightarrow> afail e
        | None \<Rightarrow>
            abind (full_generate P (vs_generation status + 1)) (\<lambda>nxt.
            let nd = full_descriptor P nxt (ok_vault_id o') (descriptor_hash (pr_crypto P) d) now in
            abind (acollect (rotate_secret P d cur \<lparr>w_descriptor = nd, w_name_key = fb_name_key nxt,
                     w_writer = fb_secret_writer nxt\<rparr>) secrets) (\<lambda>rs.
            abind (acollect (rotate_config P d cur \<lparr>w_descriptor = nd, w_name_key = fb_name_key nxt,
                     w_writer = fb_config_writer nxt\<rparr>) configs) (\<lambda>rc.
            abind (acollect (reseal P o' nxt) (survivors revoked tokens)) (\<lambda>rt.
            abind (alift (ok_or (sign_descriptor P o' nd) (Panicked ''sign_descriptor''))) (\<lambda>sd.
            abind (amap_err Key (seal_owner_bundle P o' nxt)) (\<lambda>ob.
            aret \<lparr>ro_request = \<lparr>from_generation = vs_generation status, from_revision = vs_revision status,
                rr_descriptor = sd, rr_owner_bundle = ob, rr_secrets = rs, rr_configs = rc, rr_tokens = rt,
                revoke = revoked\<rparr>, ro_new_bundle = nxt, ro_new_descriptor = nd\<rparr>))))))))"

section \<open>The batch\<close>

lemma acollect_all2:
  assumes "acollect f xs i = (Inr ys, j)" and "\<And>x y a b. f x a = (Inr y, b) \<Longrightarrow> Q x y"
  shows "list_all2 Q xs ys"
  using assms(1)
proof (induction xs arbitrary: i ys)
  case Nil then show ?case by simp
next
  case (Cons x xs)
  then obtain y a ys' where "f x i = (Inr y, a)" "acollect f xs a = (Inr ys', j)" "ys = y # ys'"
    by (auto simp: abind_Inr)
  then show ?case using Cons.IH assms(2) by auto
qed

text \<open>A rotated version as the new generation serves it.\<close>

definition served_rotated :: "u32 \<Rightarrow> RotatedVersion \<Rightarrow> Actor Tolerant \<Rightarrow> SecretVersion" where
  "served_rotated g rv who = \<lparr>sv_name_hmac = rv_name_hmac rv, sv_version = rv_version rv, sv_name_ct = rv_name_ct rv,
     sv_value_ct = rv_value_ct rv, sv_generation = g, sv_written_at = rv_written_at rv, sv_written_by = who,
     sv_tombstone = (rv_value_ct rv = None), sv_sig = rv_sig rv\<rparr>"

lemma served_rotated_eq:
  "wr_version r = sv_version v \<Longrightarrow> wr_written_at r = sv_written_at v
    \<Longrightarrow> served_rotated (wr_generation r) (rotated_version v r) who = served r who"
  by (simp add: served_rotated_def rotated_version_def served_def)

text \<open>How a rotated version stands to the version it replaces, and to the generation it belongs to.\<close>

definition carries_secret :: "primitives \<Rightarrow> Descriptor \<Rightarrow> FullBundle \<Rightarrow> Descriptor \<Rightarrow> FullBundle \<Rightarrow> SecretVersion \<Rightarrow> RotatedVersion \<Rightarrow> bool" where
  "carries_secret P d cur nd nxt v rv \<longleftrightarrow> old_name_hmac rv = sv_name_hmac v \<and> rv_version rv = sv_version v
     \<and> (\<exists>r. open_secret P d (fb_name_key cur) (fb_vault_secret cur) v = Inr r
        \<and> (\<forall>who. open_secret P nd (fb_name_key nxt) (fb_vault_secret nxt) (served_rotated (d_generation nd) rv who) = Inr r))"

definition carries_config :: "primitives \<Rightarrow> Descriptor \<Rightarrow> FullBundle \<Rightarrow> Descriptor \<Rightarrow> FullBundle \<Rightarrow> SecretVersion \<Rightarrow> RotatedVersion \<Rightarrow> bool" where
  "carries_config P d cur nd nxt v rv \<longleftrightarrow> old_name_hmac rv = sv_name_hmac v \<and> rv_version rv = sv_version v
     \<and> (\<exists>r. open_config_record P d (fb_name_key cur) (fb_config_secret cur) v = Inr r
        \<and> (\<forall>who. open_config_record P nd (fb_name_key nxt) (fb_config_secret nxt) (served_rotated (d_generation nd) rv who) = Inr r))"

lemma open_secret_wf:
  assumes "open_secret P d k s v = Inr r"
  shows "utf8_valid (or_name r)" and "or_value r \<noteq> None \<Longrightarrow> sv_version v < 2 ^ 64 \<and> i64_range (sv_written_at v)"
proof -
  obtain name val where name: "name_key_open P k \<lparr>nc_vault_id = d_vault_id d, nc_generation = d_generation d,
        nc_kind = RecordKind.Secret\<rparr> (sv_name_hmac v) (b64 (sv_name_ct v)) = Inr name"
    and val: "(case sv_value_ct v of
              None \<Rightarrow> Inr None
            | Some ct \<Rightarrow> rbind (open_value P s (version_envelope_ctx d v) name (b64 ct)) (\<lambda>op. Inr (Some (op_value op)))) = Inr val"
    and r: "or_name r = name" "or_value r = val"
    using assms by (auto simp: open_secret_def rbind_eq_Inr open_name_def)
  show "utf8_valid (or_name r)" using name_key_open_utf8 [OF name] r by simp
  show "sv_version v < 2 ^ 64 \<and> i64_range (sv_written_at v)" if some: "or_value r \<noteq> None"
  proof -
    obtain ct op where "open_value P s (version_envelope_ctx d v) name (b64 ct) = Inr op"
      using val some r by (auto simp: rbind_eq_Inr split: option.splits)
    then show ?thesis using opened_value_bound by (fastforce simp: wf_envelope_def version_envelope_ctx_def)
  qed
qed

lemma open_config_wf:
  assumes "open_config_record P d k s v = Inr r"
  shows "utf8_valid (or_name r)" and "or_value r \<noteq> None \<Longrightarrow> sv_version v < 2 ^ 64 \<and> i64_range (sv_written_at v)"
proof -
  obtain name fm val where name: "name_key_open P k \<lparr>nc_vault_id = d_vault_id d, nc_generation = d_generation d,
        nc_kind = RecordKind.Config\<rparr> (sv_name_hmac v) (b64 (sv_name_ct v)) = Inr name"
    and val: "(case sv_value_ct v of
              None \<Rightarrow> Inr (None, None)
            | Some ct \<Rightarrow> rbind (open_config P s (version_envelope_ctx d v) name (b64 ct))
                (\<lambda>oc. Inr (Some (oc_format oc), Some (oc_body oc)))) = Inr (fm, val)"
    and r: "or_name r = name" "or_value r = val"
    using assms by (auto simp: open_config_record_def rbind_eq_Inr open_name_def)
  show "utf8_valid (or_name r)" using name_key_open_utf8 [OF name] r by simp
  show "sv_version v < 2 ^ 64 \<and> i64_range (sv_written_at v)" if some: "or_value r \<noteq> None"
  proof -
    obtain ct oc where "open_config P s (version_envelope_ctx d v) name (b64 ct) = Inr oc"
      using val some r by (auto simp: rbind_eq_Inr split: option.splits)
    then show ?thesis using opened_config_bound by (fastforce simp: wf_envelope_def version_envelope_ctx_def)
  qed
qed

lemma written_fields:
  "writer_finish P w kind name vct version at i = (Inr r, j) \<Longrightarrow>
    wr_version r = version \<and> wr_written_at r = at \<and> wr_generation r = d_generation (w_descriptor w) \<and> wr_value_ct r = vct"
  "write_secret P w name val version at i = (Inr r, j) \<Longrightarrow>
    wr_version r = version \<and> wr_written_at r = at \<and> wr_generation r = d_generation (w_descriptor w)"
  "write_config P w name fm val version at i = (Inr r, j) \<Longrightarrow>
    wr_version r = version \<and> wr_written_at r = at \<and> wr_generation r = d_generation (w_descriptor w)"
  "write_tombstone P w kind name version at i = (Inr r, j) \<Longrightarrow>
    wr_version r = version \<and> wr_written_at r = at \<and> wr_generation r = d_generation (w_descriptor w)"
  by (auto simp: writer_finish_def write_secret_def write_config_def write_tombstone_def Let_def abind_Inr)

lemma rotate_secret_carries:
  assumes ok: "sealing_ok P" and nxt: "wf_full nxt" "full_matches P nxt nd" "wf_vault_id (d_vault_id nd)"
    and run: "rotate_secret P d cur (full_writer nxt nd RecordKind.Secret) v i = (Inr rv, j)"
  shows "carries_secret P d cur nd nxt v rv"
proof -
  let ?w = "full_writer nxt nd RecordKind.Secret"
  obtain op r i1 where op: "open_secret P d (fb_name_key cur) (fb_vault_secret cur) v = Inr op"
    and wr: "(case or_value op of
        Some val \<Rightarrow> write_secret P ?w (or_name op) val (sv_version v) (sv_written_at v)
      | None \<Rightarrow> write_tombstone P ?w RecordKind.Secret (or_name op) (sv_version v) (sv_written_at v)) i = (Inr r, i1)"
    and rv: "rv = rotated_version v r"
    using run by (auto simp: rotate_secret_def abind_Inr)
  have same: "op = \<lparr>or_name = or_name op, or_version = sv_version v, or_written_at = sv_written_at v,
      or_format = None, or_value = or_value op\<rparr>" using open_secret_ok(3-5) [OF op] by (cases op) simp
  have len: "length (vault_secret_bytes (fb_vault_secret nxt)) = 32" using nxt(1) by (simp add: wf_full_def keys32_def)
  have f: "wr_version r = sv_version v \<and> wr_written_at r = sv_written_at v \<and> wr_generation r = d_generation nd"
    using wr written_fields(2,4) [of P ?w] by (cases "or_value op") fastforce+
  have "open_secret P nd (fb_name_key nxt) (fb_vault_secret nxt) (served r who) = Inr op" for who
  proof (cases "or_value op")
    case None
    then show ?thesis
      using written_tombstone_opens(1) [OF ok open_secret_wf(1) [OF op], of ?w] wr same by simp
  next
    case (Some val)
    have "wf_stamp nd (or_name op) (sv_version v) (sv_written_at v)"
      using open_secret_wf [OF op] Some nxt(3) by (simp add: wf_stamp_def)
    then show ?thesis
      using written_secret_opens [OF ok _ len, of ?w] wr Some same nxt(2) by (simp add: full_matches_def)
  qed
  then show ?thesis
    using op served_rotated_eq [of r v] f by (auto simp: carries_secret_def rv rotated_version_def)
qed

lemma rotate_config_carries:
  assumes ok: "sealing_ok P" and nxt: "wf_full nxt" "full_matches P nxt nd" "wf_vault_id (d_vault_id nd)"
    and run: "rotate_config P d cur (full_writer nxt nd RecordKind.Config) v i = (Inr rv, j)"
  shows "carries_config P d cur nd nxt v rv"
proof -
  let ?w = "full_writer nxt nd RecordKind.Config"
  obtain op r i1 where op: "open_config_record P d (fb_name_key cur) (fb_config_secret cur) v = Inr op"
    and wr: "(case (or_value op, or_format op) of
        (Some body, Some format) \<Rightarrow> write_config P ?w (or_name op) format body (sv_version v) (sv_written_at v)
      | _ \<Rightarrow> write_tombstone P ?w RecordKind.Config (or_name op) (sv_version v) (sv_written_at v)) i = (Inr r, i1)"
    and rv: "rv = rotated_version v r"
    using run by (auto simp: rotate_config_def abind_Inr)
  have same: "op = \<lparr>or_name = or_name op, or_version = sv_version v, or_written_at = sv_written_at v,
      or_format = or_format op, or_value = or_value op\<rparr>" using open_config_ok(3,4) [OF op] by (cases op) simp
  have len: "length (config_secret_bytes (fb_config_secret nxt)) = 32" using nxt(1) by (simp add: wf_full_def keys32_def)
  have f: "wr_version r = sv_version v \<and> wr_written_at r = sv_written_at v \<and> wr_generation r = d_generation nd"
    using wr written_fields(3,4) [of P ?w] by (cases "or_value op"; cases "or_format op") fastforce+
  have "open_config_record P nd (fb_name_key nxt) (fb_config_secret nxt) (served r who) = Inr op" for who
  proof (cases "or_value op")
    case None
    then have "or_format op = None" using open_config_ok(5,6) [OF op] by simp
    then show ?thesis
      using written_tombstone_opens(2) [OF ok open_config_wf(1) [OF op], of ?w] wr same None by simp
  next
    case (Some val)
    then obtain fm where fm: "or_format op = Some fm" using open_config_ok(5,6) [OF op] by auto
    have "wf_stamp nd (or_name op) (sv_version v) (sv_written_at v)"
      using open_config_wf [OF op] Some nxt(3) by (simp add: wf_stamp_def)
    then show ?thesis
      using written_config_opens [OF ok _ len, of ?w] wr Some fm same nxt(2) by (simp add: full_matches_def)
  qed
  then show ?thesis
    using op served_rotated_eq [of r v] f by (auto simp: carries_config_def rv rotated_version_def)
qed

text \<open>What a surviving token gets: the bundle of its own scope, which it can open.\<close>

definition resealed_for :: "primitives \<Rightarrow> OwnerKeys \<Rightarrow> FullBundle \<Rightarrow> TokenSummary \<Rightarrow> ResealedBundle \<Rightarrow> bool" where
  "resealed_for P o' nxt t rb \<longleftrightarrow> rb_token_id rb = ts_token_id t
     \<and> (\<exists>scope b. ts_scope t = Known scope \<and> for_scope nxt scope = Inr b
        \<and> bundle_verify (pr_crypto P) (rb_bundle rb) (ok_sign_pub o') (ok_vault_id o') (ts_token_id t) (scope_code scope) (fb_generation nxt) = Inr ()
        \<and> (\<forall>tk. wf_token P tk \<and> tk_id tk = ts_token_id t \<and> tk_vault_id tk = ok_vault_id o' \<and> tk_box_pub tk = ts_box_pub t
             \<and> wf_token_id (tk_id tk)
           \<longrightarrow> token_open_bundle P tk (rb_bundle rb) (ok_sign_pub o') scope (fb_generation nxt) = Inr b))"

lemma tolerant_known_Some: "tolerant_known t = Some a \<longleftrightarrow> t = Known a"
  by (cases t) (simp_all add: tolerant_known_def)

lemma seal_for_scope_signed:
  assumes "signing_ok P" and "wf_owner P o'" and "seal_for_scope P o' k t scope f i = (Inr sb, j)"
  shows "bundle_verify (pr_crypto P) sb (ok_sign_pub o') (ok_vault_id o') t (scope_code scope) (fb_generation f) = Inr ()"
  using assms(3) sign_bundle_verifies [OF assms(1,2)] by (auto simp: seal_for_scope_def abind_Inr)

lemma reseal_opens:
  assumes "sealing_ok P" and "box_ok P" and "wf_owner P o'" and "wf_full nxt" and "reseal P o' nxt t i = (Inr rb, j)"
  shows "resealed_for P o' nxt t rb"
proof -
  note ok = assms(1) [unfolded sealing_ok_def]
  obtain scope sb where scope: "ts_scope t = Known scope"
    and sb: "seal_for_scope P o' (ts_box_pub t) (ts_token_id t) scope nxt i = (Inr sb, j)"
    and rb: "rb = \<lparr>rb_token_id = ts_token_id t, rb_bundle = sb\<rparr>"
    using assms(5) by (auto simp: reseal_def abind_Inr tolerant_known_Some)
  obtain b where b: "for_scope nxt scope = Inr b" using for_scope_total by blast
  have "token_open_bundle P tk sb (ok_sign_pub o') scope (fb_generation nxt) = Inr b"
    if "wf_token P tk \<and> tk_id tk = ts_token_id t \<and> tk_vault_id tk = ok_vault_id o' \<and> tk_box_pub tk = ts_box_pub t
      \<and> wf_token_id (tk_id tk)" for tk
    using seal_for_scope_opens [OF assms(2) _ _ assms(3) _ _ _ assms(4), of tk scope i sb j] ok that sb b by auto
  then show ?thesis
    using scope b seal_for_scope_signed [OF _ assms(3) sb] ok by (auto simp: resealed_for_def rb)
qed

lemma build_rotation_run:
  assumes "build_rotation P o' status d cur secrets configs revoked now i = (Inr rot, j)"
  obtains tokens i1 i2 i3 i4 i5 where
    "fb_generation cur = vs_generation status" "d_generation d = vs_generation status"
    "vs_tokens status = Some tokens" "rotation_refusal P tokens revoked = None"
    "full_generate P (vs_generation status + 1) i = ((Inr (ro_new_bundle rot) :: SealError + FullBundle), i1)"
    "ro_new_descriptor rot = full_descriptor P (ro_new_bundle rot) (ok_vault_id o') (descriptor_hash (pr_crypto P) d) now"
    "acollect (rotate_secret P d cur (full_writer (ro_new_bundle rot) (ro_new_descriptor rot) RecordKind.Secret)) secrets i1
      = (Inr (rr_secrets (ro_request rot)), i2)"
    "acollect (rotate_config P d cur (full_writer (ro_new_bundle rot) (ro_new_descriptor rot) RecordKind.Config)) configs i2
      = (Inr (rr_configs (ro_request rot)), i3)"
    "acollect (reseal P o' (ro_new_bundle rot)) (survivors revoked tokens) i3 = (Inr (rr_tokens (ro_request rot)), i4)"
    "sign_descriptor P o' (ro_new_descriptor rot) = Some (rr_descriptor (ro_request rot))"
    "seal_owner_bundle P o' (ro_new_bundle rot) i4 = (Inr (rr_owner_bundle (ro_request rot)), i5)"
    "from_generation (ro_request rot) = vs_generation status" "from_revision (ro_request rot) = vs_revision status"
    "revoke (ro_request rot) = revoked"
  using assms
  by (auto simp: build_rotation_def abind_Inr Let_def full_writer_def split: if_splits option.splits)

lemma build_rotation_carries:
  assumes "sealing_ok P" and "box_ok P" and "wf_owner P o'"
    and "build_rotation P o' status d cur secrets configs revoked now i = (Inr rot, j)"
  shows "list_all2 (carries_secret P d cur (ro_new_descriptor rot) (ro_new_bundle rot)) secrets (rr_secrets (ro_request rot))"
    and "list_all2 (carries_config P d cur (ro_new_descriptor rot) (ro_new_bundle rot)) configs (rr_configs (ro_request rot))"
    and "\<exists>tokens. vs_tokens status = Some tokens
        \<and> list_all2 (resealed_for P o' (ro_new_bundle rot)) (survivors revoked tokens) (rr_tokens (ro_request rot))"
    and "open_own_bundle P o' (rr_owner_bundle (ro_request rot)) (vs_generation status + 1) = Inr (ro_new_bundle rot)"
    and "full_matches P (ro_new_bundle rot) (ro_new_descriptor rot)"
proof -
  note ok = assms(1) [unfolded sealing_ok_def]
  let ?n = "ro_new_bundle rot" and ?nd = "ro_new_descriptor rot"
  obtain tokens i1 i2 i3 i4 i5 where tokens: "vs_tokens status = Some tokens"
    and gen: "full_generate P (vs_generation status + 1) i = ((Inr ?n :: SealError + FullBundle), i1)"
    and nd: "?nd = full_descriptor P ?n (ok_vault_id o') (descriptor_hash (pr_crypto P) d) now"
    and rs: "acollect (rotate_secret P d cur (full_writer ?n ?nd RecordKind.Secret)) secrets i1 = (Inr (rr_secrets (ro_request rot)), i2)"
    and rc: "acollect (rotate_config P d cur (full_writer ?n ?nd RecordKind.Config)) configs i2 = (Inr (rr_configs (ro_request rot)), i3)"
    and rt: "acollect (reseal P o' ?n) (survivors revoked tokens) i3 = (Inr (rr_tokens (ro_request rot)), i4)"
    and ob: "seal_owner_bundle P o' ?n i4 = (Inr (rr_owner_bundle (ro_request rot)), i5)"
    by (rule build_rotation_run [OF assms(4)]) blast
  have wf: "wf_full ?n" "fb_generation ?n = vs_generation status + 1" using full_generate_wf [OF _ gen] ok by auto
  have m: "full_matches P ?n ?nd" by (simp add: nd full_matches_descriptor)
  have v: "wf_vault_id (d_vault_id ?nd)"
    using wf_owner_vault_id [OF _ assms(3)] ok by (simp add: nd full_descriptor_def)
  have own: "open_own_bundle P o' (rr_owner_bundle (ro_request rot)) (vs_generation status + 1) = Inr ?n"
    using own_bundle_roundtrip [OF assms(2) _ _ assms(3) wf(1) ob] ok wf(2) by simp
  show "list_all2 (carries_secret P d cur ?nd ?n) secrets (rr_secrets (ro_request rot))"
    by (rule acollect_all2 [OF rs rotate_secret_carries [OF assms(1) wf(1) m v]])
  show "list_all2 (carries_config P d cur ?nd ?n) configs (rr_configs (ro_request rot))"
    by (rule acollect_all2 [OF rc rotate_config_carries [OF assms(1) wf(1) m v]])
  show "\<exists>tokens. vs_tokens status = Some tokens
      \<and> list_all2 (resealed_for P o' ?n) (survivors revoked tokens) (rr_tokens (ro_request rot))"
    using acollect_all2 [OF rt, of "resealed_for P o' ?n"] reseal_opens [OF assms(1,2,3) wf(1)] tokens by blast
  show "open_own_bundle P o' (rr_owner_bundle (ro_request rot)) (vs_generation status + 1) = Inr ?n" by (rule own)
  show "full_matches P ?n ?nd" by (rule m)
qed

text \<open>
  C10. A rotation loses nothing and hands out nothing else: every retained secret and config, taken in
  order, is replaced by a version that opens under the new generation's keys to exactly what the old
  one opened to (name, version, write time, format, value, tombstones included); the owner opens the
  new bundle, and every token that is not revoked gets, and can open, the bundle of its own scope.
\<close>

theorem rotation_preserves:
  assumes "sealing_ok P" and "box_ok P" and "wf_owner P o'"
    and "build_rotation P o' status d cur secrets configs revoked now i = (Inr rot, j)"
  shows "list_all2 (carries_secret P d cur (ro_new_descriptor rot) (ro_new_bundle rot)) secrets (rr_secrets (ro_request rot))
    \<and> list_all2 (carries_config P d cur (ro_new_descriptor rot) (ro_new_bundle rot)) configs (rr_configs (ro_request rot))
    \<and> (\<exists>tokens. vs_tokens status = Some tokens
        \<and> list_all2 (resealed_for P o' (ro_new_bundle rot)) (survivors revoked tokens) (rr_tokens (ro_request rot)))
    \<and> open_own_bundle P o' (rr_owner_bundle (ro_request rot)) (vs_generation status + 1) = Inr (ro_new_bundle rot)
    \<and> full_matches P (ro_new_bundle rot) (ro_new_descriptor rot)"
  using build_rotation_carries [OF assms] by blast

section \<open>A run of the model\<close>

definition ex_status :: VaultStatus where
  "ex_status = \<lparr>vs_vault_id = ok_vault_id ex_owner, vs_generation = 1, vs_revision = 9,
     vs_owner_sign_pub = ok_sign_pub ex_owner, vs_owner_box_pub = ok_box_pub ex_owner,
     vs_descriptor = signed_descriptor ex_descriptor (owner_sign toy ex_owner (descriptor_signing_input ex_descriptor)),
     vs_config_count = 0, vs_created_at = 0, vs_last_active_at = 0, vs_expires_at = None, vs_bytes_used = 0,
     vs_limits = default_limits,
     vs_tokens = Some [\<lparr>ts_token_id = tk_id ex_holder, ts_scope = Known Scope.Read, ts_created_at = 0, ts_expires_at = 0,
       ts_box_pub = tk_box_pub ex_holder, ts_allow_list = None\<rparr>],
     vs_owner_bundle = None\<rparr>"

lemma toy_full_generate: "\<exists>f j. full_generate toy g i = (Inr f, j)"
  by (simp add: full_generate_def name_key_generate_def random_vault_secret_def random_config_secret_def
      writer_generate_def abind_def random_bytes_def)

lemma toy_seal_owner_bundle: "\<exists>sb j. seal_owner_bundle toy o' f i = (Inr sb, j)"
proof -
  obtain ct where "seal_bytes toy (ok_box_pub o') (bundle_encode (Bundle.Full f) (ok_vault_id o') OWNER_TOKEN_ID) i = (Inr ct, Suc i)"
    using toy_seal_bytes by blast
  then show ?thesis by (simp add: seal_owner_bundle_def abind_def)
qed

lemma ex_sealed_record:
  obtains v where "open_secret toy ex_descriptor (fb_name_key ex_full) (fb_vault_secret ex_full) v
      = Inr \<lparr>or_name = ''app'', or_version = 1, or_written_at = 42, or_format = None, or_value = Some [1, 2]\<rparr>"
    and "sv_version v = 1" and "sv_written_at v = 42"
proof -
  let ?w = "full_writer ex_full ex_descriptor RecordKind.Secret"
  obtain r j where r: "write_secret toy ?w ''app'' [1, 2] 1 42 0 = (Inr r, j)"
    using toy_write_secret [OF full_writer_check [OF ex_descriptor_matches]] by (fastforce simp: MAX_NAME_LEN_def)
  have "length (vault_secret_bytes (fb_vault_secret ex_full)) = 32" by (simp add: ex_full_def)
  then have "open_secret toy ex_descriptor (fb_name_key ex_full) (fb_vault_secret ex_full) (served r (Known Actor.Owner))
      = Inr \<lparr>or_name = ''app'', or_version = 1, or_written_at = 42, or_format = None, or_value = Some [1, 2]\<rparr>"
    using written_secret_opens [OF toy_sealing_ok _ _ _ r] ex_stamp ex_descriptor_matches
    by (simp add: full_matches_def)
  then show thesis using that [of "served r (Known Actor.Owner)"] written_fields(2) [OF r] by (simp add: served_def)
qed

lemma ex_rotation:
  assumes "open_secret toy ex_descriptor (fb_name_key ex_full) (fb_vault_secret ex_full) v
      = Inr \<lparr>or_name = ''app'', or_version = 1, or_written_at = 42, or_format = None, or_value = Some [1, 2]\<rparr>"
  shows "\<exists>rot j. build_rotation toy ex_owner ex_status ex_descriptor ex_full [v] [] [] 100 0 = (Inr rot, j)"
proof -
  obtain f i1 where f: "full_generate toy (vs_generation ex_status + 1) 0 = ((Inr f :: SealError + FullBundle), i1)"
    using toy_full_generate by blast
  define nd where "nd = full_descriptor toy f (ok_vault_id ex_owner) (descriptor_hash (pr_crypto toy) ex_descriptor) 100"
  let ?w = "full_writer f nd RecordKind.Secret"
  have chk: "writer_check toy ?w RecordKind.Secret = Inr ()"
    by (rule full_writer_check) (simp add: nd_def full_matches_descriptor)
  obtain r i2 where r: "write_secret toy ?w ''app'' [1, 2] (sv_version v) (sv_written_at v) i1 = (Inr r, i2)"
    using toy_write_secret [OF chk] by (fastforce simp: MAX_NAME_LEN_def)
  obtain sb where sb: "seal_for_scope toy ex_owner (tk_box_pub ex_holder) (tk_id ex_holder) Scope.Read f i2 = (Inr sb, Suc i2)"
    using toy_seal_for_scope by blast
  obtain ob i4 where ob: "seal_owner_bundle toy ex_owner f (Suc i2) = (Inr ob, i4)" using toy_seal_owner_bundle by blast
  have w: "\<lparr>w_descriptor = nd, w_name_key = fb_name_key f, w_writer = fb_secret_writer f\<rparr> = ?w"
    by (simp add: full_writer_def)
  have rs: "acollect (rotate_secret toy ex_descriptor ex_full ?w) [v] i1 = (Inr [rotated_version v r], i2)"
    using r by (simp add: rotate_secret_def abind_def assms)
  have sd: "\<exists>sd. sign_descriptor toy ex_owner nd = Some sd"
    by (simp add: sign_descriptor_def nd_def full_descriptor_def)
  have "vs_tokens ex_status = Some [\<lparr>ts_token_id = tk_id ex_holder, ts_scope = Known Scope.Read, ts_created_at = 0,
      ts_expires_at = 0, ts_box_pub = tk_box_pub ex_holder, ts_allow_list = None\<rparr>]" by (simp add: ex_status_def)
  moreover have "fb_generation ex_full = vs_generation ex_status" "d_generation ex_descriptor = vs_generation ex_status"
    by (simp_all add: ex_full_def ex_status_def ex_descriptor_def full_descriptor_def)
  ultimately show ?thesis
    using f rs sb ob sd
    by (auto simp: build_rotation_def abind_def rotation_refusal_def survivors_def tolerant_known_def Let_def reseal_def
        amap_err_def nd_def [symmetric] w)
qed

theorem rotation_preserves_witness:
  "\<exists>v rot j. build_rotation toy ex_owner ex_status ex_descriptor ex_full [v] [] [] 100 0 = (Inr rot, j)
    \<and> list_all2 (carries_secret toy ex_descriptor ex_full (ro_new_descriptor rot) (ro_new_bundle rot)) [v] (rr_secrets (ro_request rot))
    \<and> open_own_bundle toy ex_owner (rr_owner_bundle (ro_request rot)) 2 = Inr (ro_new_bundle rot)"
proof -
  obtain v where v: "open_secret toy ex_descriptor (fb_name_key ex_full) (fb_vault_secret ex_full) v
      = Inr \<lparr>or_name = ''app'', or_version = 1, or_written_at = 42, or_format = None, or_value = Some [1, 2]\<rparr>"
    by (rule ex_sealed_record)
  obtain rot j where rot: "build_rotation toy ex_owner ex_status ex_descriptor ex_full [v] [] [] 100 0 = (Inr rot, j)"
    using ex_rotation [OF v] by blast
  show ?thesis
    using rot rotation_preserves [OF toy_sealing_ok toy_ok(3) ex_keys_wf(1) rot] by (auto simp: ex_status_def)
qed

end
