(* ===== verification/Rotation_Accepted.thy ===== *)
theory Rotation_Accepted
  imports Seal_Rotation Core_Signed_Calls
begin

text \<open>
  The two ends of a rotation: the batch a client builds (\<open>seal/rotation.rs\<close>) passes every check the
  server makes of one (\<open>server_core/critical.rs\<close>).
\<close>

lemma opened_secret_header:
  assumes "open_secret P d k s v = Inr r" and "sv_value_ct v = Some ct"
  shows "starts_with (b64 ct) AGE_HEADER"
  using assms by (auto simp: open_secret_def open_value_def decrypt_value_def rbind_eq_Inr starts_with_def split: if_splits)

lemma opened_config_header:
  assumes "open_config_record P d k s v = Inr r" and "sv_value_ct v = Some ct"
  shows "starts_with (b64 ct) AGE_HEADER"
  using assms by (auto simp: open_config_record_def open_config_def decrypt_value_def rbind_eq_Inr starts_with_def split: if_splits)

text \<open>A version that opens under a generation is signed as the server will check it.\<close>

lemma version_context_rotated:
  "version_context P nd kind (served_rotated (d_generation nd) rv who)
    = rotated_context (pr_crypto P) (d_vault_id nd) (d_generation nd) kind rv"
  by (simp add: version_context_def served_rotated_def rotated_context_def)

lemma carried_signed:
  assumes "verify_version P nd kind (served_rotated (d_generation nd) rv who) = Inr ()"
  shows "record_verify (pr_crypto P) (rotated_context (pr_crypto P) (d_vault_id nd) (d_generation nd) kind rv)
      (writer_pub_of nd kind) (rv_sig rv) = Inr ()"
  using assms version_context_rotated [of P nd kind rv who]
  by (simp add: verify_version_ok record_verify_def) (simp add: served_rotated_def)

lemma carries_secret_ok:
  assumes "carries_secret P d cur nd nxt v rv"
  shows "record_verify (pr_crypto P) (rotated_context (pr_crypto P) (d_vault_id nd) (d_generation nd) RecordKind.Secret rv)
      (secret_writer_pub nd) (rv_sig rv) = Inr ()"
    and "rv_value_ct rv = Some ct \<Longrightarrow> starts_with (b64 ct) AGE_HEADER"
proof -
  obtain r where r: "open_secret P nd (fb_name_key nxt) (fb_vault_secret nxt) (served_rotated (d_generation nd) rv (Known Actor.Owner)) = Inr r"
    using assms by (auto simp: carries_secret_def)
  show "record_verify (pr_crypto P) (rotated_context (pr_crypto P) (d_vault_id nd) (d_generation nd) RecordKind.Secret rv)
      (secret_writer_pub nd) (rv_sig rv) = Inr ()"
    using carried_signed [OF open_secret_ok(1) [OF r]] by (simp add: writer_pub_of_def)
  show "rv_value_ct rv = Some ct \<Longrightarrow> starts_with (b64 ct) AGE_HEADER"
    by (rule opened_secret_header [OF r]) (simp add: served_rotated_def)
qed

lemma carries_config_ok:
  assumes "carries_config P d cur nd nxt v rv"
  shows "record_verify (pr_crypto P) (rotated_context (pr_crypto P) (d_vault_id nd) (d_generation nd) RecordKind.Config rv)
      (config_writer_pub nd) (rv_sig rv) = Inr ()"
    and "rv_value_ct rv = Some ct \<Longrightarrow> starts_with (b64 ct) AGE_HEADER"
proof -
  obtain r where r: "open_config_record P nd (fb_name_key nxt) (fb_config_secret nxt) (served_rotated (d_generation nd) rv (Known Actor.Owner)) = Inr r"
    using assms by (auto simp: carries_config_def)
  show "record_verify (pr_crypto P) (rotated_context (pr_crypto P) (d_vault_id nd) (d_generation nd) RecordKind.Config rv)
      (config_writer_pub nd) (rv_sig rv) = Inr ()"
    using carried_signed [OF open_config_ok(1) [OF r]] by (simp add: writer_pub_of_def)
  show "rv_value_ct rv = Some ct \<Longrightarrow> starts_with (b64 ct) AGE_HEADER"
    by (rule opened_config_header [OF r]) (simp add: served_rotated_def)
qed

lemma list_all2_right: "list_all2 Q xs ys \<Longrightarrow> y \<in> set ys \<Longrightarrow> \<exists>x \<in> set xs. Q x y"
  by (induction rule: list_all2_induct) auto

lemma survivors_subset: "t \<in> set (survivors revoked ts) \<Longrightarrow> t \<in> set ts"
  by (simp add: survivors_def)

lemma new_descriptor_follows:
  assumes "nd = full_descriptor P f (d_vault_id d) (descriptor_hash c d) now" and "fb_generation f = d_generation d + 1"
    and "unat (d_generation d) + 1 < 2 ^ 32"
  shows "follows c nd d"
  using assms by (simp add: follows_def check_follows_def full_descriptor_def checked_add_u32_def)

lemma carried_all_age:
  assumes "list_all2 (carries_secret P d cur nd n) ss (rr_secrets rq)" and "list_all2 (carries_config P d cur nd n) cs (rr_configs rq)"
  shows "all_age rq"
proof -
  have "starts_with (b64 w) AGE_HEADER"
    if "s \<in> set (rr_secrets rq) \<or> s \<in> set (rr_configs rq)" and w: "rv_value_ct s = Some w" for s w
    using that(1)
  proof
    assume "s \<in> set (rr_secrets rq)"
    then show ?thesis using list_all2_right [OF assms(1)] carries_secret_ok(2) w by blast
  next
    assume "s \<in> set (rr_configs rq)"
    then show ?thesis using list_all2_right [OF assms(2)] carries_config_ok(2) w by blast
  qed
  then show ?thesis by (simp add: all_age_def split: option.splits)
qed

lemma resealed_all_verify:
  assumes "list_all2 (resealed_for P o' n) (survivors revoked ts) bs" and "fb_generation n = g"
    and "vr_vault_id v = ok_vault_id o'" and "owner_sign_pub v = ok_sign_pub o'"
    and "\<forall>t \<in> set ts. scopes (ts_token_id t) = tolerant_known (ts_scope t)"
  shows "verify_reseals (pr_crypto P) v g scopes bs = Inr ()"
  unfolding verify_reseals_all
proof
  fix t assume "t \<in> set bs"
  then obtain x where "x \<in> set (survivors revoked ts)" and x: "resealed_for P o' n x t"
    using list_all2_right [OF assms(1)] by blast
  then have "scopes (ts_token_id x) = tolerant_known (ts_scope x)" using assms(5) survivors_subset by blast
  then show "\<exists>scope. scopes (rb_token_id t) = Some scope
     \<and> bundle_verify (pr_crypto P) (rb_bundle t) (owner_sign_pub v) (vr_vault_id v) (rb_token_id t) (scope_code scope) g = Inr ()"
    using x assms(2-4) by (auto simp: resealed_for_def tolerant_known_def)
qed

text \<open>
  C11. What a client builds, the server takes: a batch built from the vault's own status and descriptor
  holds only age ciphertexts, its descriptor is owner-signed and follows the current one, every version
  carries a signature of the new generation's writers, and the owner's bundle and every resealed bundle
  carry the owner's signature for the scope the server has for that token.
\<close>

theorem built_rotation_accepted:
  assumes ok: "sealing_ok P" "box_ok P" "wf_owner P o'" "i64_range now"
    and built: "build_rotation P o' status d cur ss cs revoked now i = (Inr rot, j)"
    and vault: "vr_vault_id (ca_vault ca) = ok_vault_id o'" "owner_sign_pub (ca_vault ca) = ok_sign_pub o'"
    and desc: "caller_descriptor ca = Inr d" "d_vault_id d = ok_vault_id o'" "unat (d_generation d) + 1 < 2 ^ 32"
    and scopes: "\<forall>ts. vs_tokens status = Some ts \<longrightarrow> (\<forall>t \<in> set ts. scopes (ts_token_id t) = tolerant_known (ts_scope t))"
  shows "all_age (ro_request rot)
    \<and> check_new_generation (pr_crypto P) ca (ro_request rot) = Inr (ro_new_descriptor rot)
    \<and> verify_reseals (pr_crypto P) (ca_vault ca) (d_generation (ro_new_descriptor rot)) scopes (rr_tokens (ro_request rot)) = Inr ()
    \<and> from_generation (ro_request rot) = vs_generation status \<and> from_revision (ro_request rot) = vs_revision status"
proof -
  let ?c = "pr_crypto P" and ?rq = "ro_request rot" and ?nd = "ro_new_descriptor rot" and ?n = "ro_new_bundle rot"
  note prims = ok(1) [unfolded sealing_ok_def] and carried = build_rotation_carries [OF ok(1-3) built]
  obtain i1 where g: "d_generation d = vs_generation status"
    and gen: "full_generate P (vs_generation status + 1) i = ((Inr ?n :: SealError + FullBundle), i1)"
    and nd: "?nd = full_descriptor P ?n (ok_vault_id o') (descriptor_hash ?c d) now"
    and sd: "sign_descriptor P o' ?nd = Some (rr_descriptor ?rq)"
    and base: "from_generation ?rq = vs_generation status" "from_revision ?rq = vs_revision status"
    by (rule build_rotation_run [OF built]) blast
  have gn: "fb_generation ?n = d_generation d + 1" "d_generation ?nd = d_generation d + 1"
    using full_generate_wf [OF _ gen] prims g by (simp_all add: nd full_descriptor_def)
  have v: "d_vault_id ?nd = ok_vault_id o'" by (simp add: nd full_descriptor_def)
  have ss: "verify_versions ?c (ok_vault_id o') (d_generation ?nd) RecordKind.Secret (secret_writer_pub ?nd) (rr_secrets ?rq) = Inr ()"
    unfolding verify_versions_all using list_all2_right [OF carried(1)] carries_secret_ok(1) v by metis
  have cs: "verify_versions ?c (ok_vault_id o') (d_generation ?nd) RecordKind.Config (config_writer_pub ?nd) (rr_configs ?rq) = Inr ()"
    unfolding verify_versions_all using list_all2_right [OF carried(2)] carries_config_ok(1) v by metis
  have "wf_descriptor ?nd"
    using prims wf_owner_vault_id [OF _ ok(3)] ok(4) unfolding nd
    by (intro full_descriptor_wf) (simp_all add: descriptor_hash_def hash_sha256_def wf_id_defs widths_ok_def)
  then have new: "verify_for ?c (rr_descriptor ?rq) (ok_vault_id o') (ok_sign_pub o') = Inr ?nd"
    using sign_descriptor_verifies [OF _ ok(3) _ sd] prims by blast
  have "follows ?c ?nd d" by (rule new_descriptor_follows [OF _ gn(1) desc(3)]) (simp add: nd desc(2))
  moreover have "bundle_verify ?c (rr_owner_bundle ?rq) (ok_sign_pub o') (ok_vault_id o') OWNER_TOKEN_ID OWNER_SCOPE_CODE (d_generation ?nd) = Inr ()"
    using carried(4) g gn(2) by (auto simp: open_own_bundle_def rbind_eq_Inr)
  ultimately have "check_new_generation ?c ca ?rq = Inr ?nd"
    using new ss cs by (simp add: check_new_generation_def Let_def vault desc(1))
  moreover have "all_age ?rq" using carried(1,2) by (rule carried_all_age)
  moreover have "verify_reseals ?c (ca_vault ca) (d_generation ?nd) scopes (rr_tokens ?rq) = Inr ()"
    using carried(3) scopes gn vault by (auto intro: resealed_all_verify)
  ultimately show ?thesis using base by blast
qed

text \<open>The concrete vault, as the server holds it.\<close>

definition ex_caller :: Caller where
  "ex_caller = \<lparr>ca_vault = \<lparr>pk = 1, vr_vault_id = ok_vault_id ex_owner, owner_sign_pub = ok_sign_pub ex_owner,
       owner_box_pub = ok_box_pub ex_owner, owner_bundle = \<lparr>sealed = B64 [], sb_sig = Sig64 []\<rparr>, generation = 1,
       revision = 9, created_at = 0, last_active_at = 0, bytes_used = 0, vr_descriptor = vs_descriptor ex_status\<rparr>,
     ca_principal = Principal.Owner, ca_expires_at = None\<rparr>"

theorem built_rotation_accepted_witness:
  "\<exists>v rot j. build_rotation toy ex_owner ex_status ex_descriptor ex_full [v] [] [] 100 0 = (Inr rot, j)
    \<and> check_new_generation (pr_crypto toy) ex_caller (ro_request rot) = Inr (ro_new_descriptor rot)"
proof -
  obtain v where v: "open_secret toy ex_descriptor (fb_name_key ex_full) (fb_vault_secret ex_full) v
      = Inr \<lparr>or_name = ''app'', or_version = 1, or_written_at = 42, or_format = None, or_value = Some [1, 2]\<rparr>"
    by (rule ex_sealed_record)
  obtain rot j where rot: "build_rotation toy ex_owner ex_status ex_descriptor ex_full [v] [] [] 100 0 = (Inr rot, j)"
    using ex_rotation [OF v] by blast
  have now: "i64_range 100" by (simp add: i64_range_def i64_min_def i64_max_def)
  have cd: "caller_descriptor ex_caller = Inr ex_descriptor"
    using descriptor_decode_encode [OF ex_descriptor_wf]
    by (simp add: caller_descriptor_def ex_caller_def ex_status_def decode_unverified_def signed_descriptor_def)
  have d: "d_vault_id ex_descriptor = ok_vault_id ex_owner" "unat (d_generation ex_descriptor) + 1 < 2 ^ 32"
    by (simp_all add: ex_descriptor_def full_descriptor_def ex_full_def)
  have va: "vr_vault_id (ca_vault ex_caller) = ok_vault_id ex_owner" "owner_sign_pub (ca_vault ex_caller) = ok_sign_pub ex_owner"
    by (simp_all add: ex_caller_def)
  have sc: "\<forall>ts. vs_tokens ex_status = Some ts \<longrightarrow>
      (\<forall>t \<in> set ts. [tk_id ex_holder \<mapsto> Scope.Read] (ts_token_id t) = tolerant_known (ts_scope t))"
    by (simp add: ex_status_def tolerant_known_def)
  show ?thesis
    using rot built_rotation_accepted [OF toy_sealing_ok toy_ok(3) ex_keys_wf(1) now rot va cd d sc] by blast
qed

end
