(* ===== verification/Client_Api.thy ===== *)
theory Client_Api
  imports Seal_Rotation Pow
begin

text \<open>
  The typed operations over any transport (\<open>client/api.rs\<close>, \<open>client/transport.rs\<close>): building and signing
  each request, sending it, and reading the answer. What is outside the client is a parameter: the
  transport with whatever is behind it (any function of the request and a state of its own, so also a
  hostile server), the clock, and \<open>serde_json\<close>. Human-readable messages are not modelled.
\<close>

section \<open>Requests and responses\<close>

datatype Method = Get | Put | Post | Delete

fun method_as_str :: "Method \<Rightarrow> string" where
  "method_as_str Method.Get = ''GET''"
| "method_as_str Method.Put = ''PUT''"
| "method_as_str Method.Post = ''POST''"
| "method_as_str Method.Delete = ''DELETE''"

record Request =
  cr_method :: Method
  cr_path_and_query :: string
  cr_if_match :: "string option"
  cr_if_none_match :: "string option"
  cr_authorization :: "string option"
  cr_body :: "bytes option"

record Response =
  rs_status :: nat
  rs_etag :: "string option"
  rs_expires_at :: "string option"
  rs_body :: bytes

text \<open>A transport error keeps the server it was for.\<close>

datatype TransportError = TransportError (te_server: string)

section \<open>What is outside\<close>

text \<open>An audit page as the client reads it: rows, head, and where the rows became unreadable.\<close>

record AuditPageRead =
  ap_rows :: "AuditRow list"
  ap_head :: "ChainHead option"
  ap_stop :: "RowStop option"

text \<open>An error body, read loosely.\<close>

record LooseError =
  le_error :: "ErrorCode Tolerant option"
  le_message :: "string option"

record client_codec =
  dec_error :: "bytes \<Rightarrow> LooseError option"
  dec_capabilities :: "bytes \<Rightarrow> Capabilities option"
  dec_status :: "bytes \<Rightarrow> VaultStatus option"
  dec_token_self :: "bytes \<Rightarrow> TokenSelf option"
  dec_challenge :: "bytes \<Rightarrow> ChallengeResponse option"
  dec_created :: "bytes \<Rightarrow> (VaultId \<times> u32 \<times> int option) option"
  dec_descriptors :: "bytes \<Rightarrow> SignedDescriptor list option"
  dec_rotated :: "bytes \<Rightarrow> u32 option"
  dec_children :: "bytes \<Rightarrow> ChildrenBlob option"
  dec_list :: "bytes \<Rightarrow> (SecretListItem list \<times> NameHmac option) option"
  dec_versions :: "bytes \<Rightarrow> VersionMeta list option"
  dec_record :: "bytes \<Rightarrow> SecretVersion option"
  dec_put :: "bytes \<Rightarrow> nat option"
  dec_audit :: "bytes \<Rightarrow> AuditPageRead option"
  dec_registered :: "bytes \<Rightarrow> (TokenId \<times> int) option"
  dec_revoked :: "bytes \<Rightarrow> TokenId list option"
  enc_challenge :: "unit \<Rightarrow> bytes option"
  enc_create :: "CreateVaultRequest \<Rightarrow> bytes option"
  enc_rotation :: "RotationRequest \<Rightarrow> bytes option"
  enc_children :: "ChildrenBlob \<Rightarrow> bytes option"
  enc_put :: "PutSecretRequest \<Rightarrow> bytes option"
  enc_delete :: "DeleteRecordRequest \<Rightarrow> bytes option"
  enc_register :: "RegisterTokenRequest \<Rightarrow> bytes option"
  enc_report :: "ReportTokenRequest \<Rightarrow> bytes option"

record 'x outside =
  ou_prims :: primitives
  ou_codec :: client_codec
  ou_send :: "Request \<Rightarrow> 'x \<Rightarrow> (TransportError + Response) \<times> 'x"
  ou_now :: "'x \<Rightarrow> int \<times> 'x"

text \<open>Progress and warnings; their messages are not modelled.\<close>

datatype Progress =
    ProofOfWork string byte
  | Deleted string
  | Relinked string string
  | RekeyPlanned string nat nat string
  | RekeyStep string string

datatype Warning =
    KeepAliveFailed string
  | Unreachable string bool
  | ChildTooDeep string
  | SealedKeyUnopenable string
  | RelinkFailed string string
  | Detached string string
  | ForwardOnlyRevocation string string string string

datatype Notice =
    Progress Progress
  | Expiry string int
  | Warning Warning

text \<open>
  The state behind an \<open>Api\<close>: the outside, the random draws made, the capabilities once fetched and the
  notices sent to the observer. A clone shares all of it.
\<close>

record 'x api_state =
  as_out :: 'x
  as_draws :: nat
  as_caps :: "Capabilities option option"
  as_notices :: "Notice list"

type_synonym ('x, 'e, 'a) api = "('x api_state, 'e, 'a) action"

definition draw :: "('e, 'a) drawing \<Rightarrow> ('x, 'e, 'a) api" where
  "draw m s = (case m (as_draws s) of (r, n) \<Rightarrow> (r, s\<lparr>as_draws := n\<rparr>))"

definition client_now :: "'x outside \<Rightarrow> ('x, 'e, int) api" where
  "client_now E s = (case ou_now E (as_out s) of (t, x) \<Rightarrow> (Inr t, s\<lparr>as_out := x\<rparr>))"

definition notify :: "Notice \<Rightarrow> ('x, 'e, unit) api" where
  "notify n s = (Inr (), s\<lparr>as_notices := as_notices s @ [n]\<rparr>)"

section \<open>Errors\<close>

datatype ApiError =
    Transport TransportError
  | Refused nat "ErrorCode Tolerant option"
  | UnsupportedProtocol "string list"
  | Malformed
  | Encode

definition api_error_code :: "ApiError \<Rightarrow> ErrorCode option" where
  "api_error_code e = (case e of Refused _ (Some c) \<Rightarrow> tolerant_known c | _ \<Rightarrow> None)"

definition api_error_code_str :: "ApiError \<Rightarrow> string option" where
  "api_error_code_str e = (case e of
     Refused _ (Some (Known c)) \<Rightarrow> Some (error_as_str c)
   | Refused _ (Some (Tolerant.Unknown s)) \<Rightarrow> Some s
   | _ \<Rightarrow> None)"

definition api_error_status :: "ApiError \<Rightarrow> nat option" where
  "api_error_status e = (case e of Refused status _ \<Rightarrow> Some status | _ \<Rightarrow> None)"

definition stable_code :: "ApiError \<Rightarrow> string" where
  "stable_code e = (case e of
     Refused status _ \<Rightarrow> (case api_error_code_str e of Some s \<Rightarrow> s | None \<Rightarrow> ''http_'' @ show_nat status)
   | UnsupportedProtocol _ \<Rightarrow> ''unsupported_protocol''
   | Transport _ \<Rightarrow> ''unreachable''
   | ApiError.Malformed \<Rightarrow> ''error''
   | Encode \<Rightarrow> ''error'')"

definition refusal :: "client_codec \<Rightarrow> nat \<Rightarrow> bytes \<Rightarrow> ApiError" where
  "refusal J status body = (case dec_error J body of
     None \<Rightarrow> Refused status None
   | Some b \<Rightarrow> Refused status (le_error b))"

section \<open>Preconditions\<close>

datatype Pre = Create | Revive nat | Update nat

definition pre_after :: "VersionMeta option \<Rightarrow> Pre" where
  "pre_after latest = (case latest of
     None \<Rightarrow> Create
   | Some m \<Rightarrow> if vm_tombstone m then Revive (vm_version m) else Update (vm_version m))"

text \<open>\<open>u64\<close> addition, which wraps in a release build.\<close>

fun pre_next_version :: "Pre \<Rightarrow> nat" where
  "pre_next_version Create = 1"
| "pre_next_version (Revive v) = (v + 1) mod 2 ^ 64"
| "pre_next_version (Update v) = (v + 1) mod 2 ^ 64"

fun pre_header :: "Pre \<Rightarrow> string \<times> string" where
  "pre_header Create = (''if-none-match'', ''*'')"
| "pre_header (Revive v) = (''if-none-match'', ''*'')"
| "pre_header (Update v) = (''if-match'', show_nat v)"

section \<open>One request\<close>

datatype Auth = NoAuth | OwnerAuth OwnerKeys | TokenAuth TokenKeys

record Reply =
  rp_status :: nat
  rp_expires_at :: "int option"
  rp_etag :: "string option"
  rp_body :: bytes

record 'a Answer =
  an_value :: 'a
  an_expires_at :: "int option"

definition signed_request :: "Method \<Rightarrow> string \<Rightarrow> bytes option \<Rightarrow> Pre option \<Rightarrow> SignedRequest" where
  "signed_request method pq body pre =
     (let header = map_option pre_header pre;
          im = (case header of Some (h, v) \<Rightarrow> if h = ''if-match'' then Some v else None | None \<Rightarrow> None);
          inm = (case header of Some (h, v) \<Rightarrow> if h = ''if-match'' then None else Some v | None \<Rightarrow> None)
      in \<lparr>sr_method = method_as_str method, sr_path_and_query = pq, sr_body = (case body of None \<Rightarrow> [] | Some b \<Rightarrow> b),
          sr_if_match = im, sr_if_none_match = inm\<rparr>)"

definition authorize :: "'x outside \<Rightarrow> Auth \<Rightarrow> SignedRequest \<Rightarrow> ('x, ApiError, string option) api" where
  "authorize E auth rq = (let P = ou_prims E in case auth of
     NoAuth \<Rightarrow> aret None
   | OwnerAuth o' \<Rightarrow> abind (client_now E) (\<lambda>ts. abind (draw (owner_sign_request P o' rq ts)) (\<lambda>p.
       aret (Some (to_header_value (pr_crypto P) p))))
   | TokenAuth t \<Rightarrow> abind (client_now E) (\<lambda>ts. abind (draw (token_sign_request P t rq ts)) (\<lambda>p.
       aret (Some (to_header_value (pr_crypto P) p)))))"

definition transmit :: "'x outside \<Rightarrow> Request \<Rightarrow> ('x, ApiError, Response) api" where
  "transmit E rq s = (case ou_send E rq (as_out s) of (r, x) \<Rightarrow> (map_err Transport r, s\<lparr>as_out := x\<rparr>))"

definition read_reply :: "'x outside \<Rightarrow> Response \<Rightarrow> ApiError + Reply" where
  "read_reply E r =
     (if 200 \<le> rs_status r \<and> rs_status r < 300
      then Inr \<lparr>rp_status = rs_status r,
        rp_expires_at = (case rs_expires_at r of None \<Rightarrow> None | Some v \<Rightarrow> parse_i64 (trim v)),
        rp_etag = rs_etag r, rp_body = rs_body r\<rparr>
      else Inl (refusal (ou_codec E) (rs_status r) (rs_body r)))"

definition api_call ::
    "'x outside \<Rightarrow> Method \<Rightarrow> string \<Rightarrow> bytes option \<Rightarrow> Auth \<Rightarrow> Pre option \<Rightarrow> ('x, ApiError, Reply) api" where
  "api_call E method pq body auth pre =
     (let rq = signed_request method pq body pre in
      abind (authorize E auth rq) (\<lambda>a.
      abind (transmit E \<lparr>cr_method = method, cr_path_and_query = pq, cr_if_match = sr_if_match rq,
        cr_if_none_match = sr_if_none_match rq, cr_authorization = a, cr_body = body\<rparr>) (\<lambda>r.
      alift (read_reply E r))))"

definition reply_json :: "(bytes \<Rightarrow> 'a option) \<Rightarrow> Reply \<Rightarrow> ApiError + 'a Answer" where
  "reply_json dec r = rbind (ok_or (dec (rp_body r)) ApiError.Malformed) (\<lambda>v.
     Inr \<lparr>an_value = v, an_expires_at = rp_expires_at r\<rparr>)"

definition reply_empty :: "Reply \<Rightarrow> unit Answer" where
  "reply_empty r = \<lparr>an_value = (), an_expires_at = rp_expires_at r\<rparr>"

definition api_get :: "'x outside \<Rightarrow> (bytes \<Rightarrow> 'a option) \<Rightarrow> string \<Rightarrow> Auth \<Rightarrow> ('x, ApiError, 'a Answer) api" where
  "api_get E dec pq auth = abind (api_call E Method.Get pq None auth None) (\<lambda>r. alift (reply_json dec r))"

text \<open>A request with an encoded body, and a decoded answer.\<close>

definition api_send :: "'x outside \<Rightarrow> bytes option \<Rightarrow> (bytes \<Rightarrow> 'a option) \<Rightarrow> Method \<Rightarrow> string \<Rightarrow> Auth \<Rightarrow> Pre option
    \<Rightarrow> ('x, ApiError, 'a Answer) api" where
  "api_send E body dec method pq auth pre =
     abind (alift (ok_or body Encode)) (\<lambda>b.
     abind (api_call E method pq (Some b) auth pre) (\<lambda>r. alift (reply_json dec r)))"

section \<open>The operations\<close>

definition AUDIT_PAGE :: nat where "AUDIT_PAGE = 1000"
definition LIST_PAGE :: nat where "LIST_PAGE = 500"
definition PROTOCOL :: string where "PROTOCOL = ''1''"

fun records_path :: "RecordKind \<Rightarrow> string" where
  "records_path RecordKind.Secret = ''/v1/secrets''"
| "records_path RecordKind.Config = ''/v1/configs''"

definition speaks :: "Capabilities \<Rightarrow> string \<Rightarrow> bool" where
  "speaks c protocol \<longleftrightarrow> list_ex (\<lambda>p. p = protocol) (cp_protocols c)"

definition api_capabilities :: "'x outside \<Rightarrow> ('x, ApiError, Capabilities option) api" where
  "api_capabilities E s =
     (case as_caps s of
        Some known \<Rightarrow> (Inr known, s)
      | None \<Rightarrow>
          (case api_get E (dec_capabilities (ou_codec E)) ''/v1/capabilities'' NoAuth s of
             (Inr a, s') \<Rightarrow> (Inr (Some (an_value a)), s'\<lparr>as_caps := Some (Some (an_value a))\<rparr>)
           | (Inl e, s') \<Rightarrow>
               if api_error_status e = Some 404 then (Inr None, s'\<lparr>as_caps := Some None\<rparr>) else (Inl e, s')))"

definition require_protocol :: "'x outside \<Rightarrow> ('x, ApiError, unit) api" where
  "require_protocol E =
     abind (api_capabilities E) (\<lambda>caps. case caps of
       Some c \<Rightarrow> if \<not> speaks c PROTOCOL then afail (UnsupportedProtocol (cp_protocols c)) else aret ()
     | None \<Rightarrow> aret ())"

definition api_status :: "'x outside \<Rightarrow> Auth \<Rightarrow> ('x, ApiError, VaultStatus Answer) api" where
  "api_status E auth = api_get E (dec_status (ou_codec E)) ''/v1/vault'' auth"

definition api_token_self :: "'x outside \<Rightarrow> TokenKeys \<Rightarrow> ('x, ApiError, TokenSelf Answer) api" where
  "api_token_self E t = api_get E (dec_token_self (ou_codec E)) ''/v1/tokens/self'' (TokenAuth t)"

definition api_challenge :: "'x outside \<Rightarrow> ('x, ApiError, ChallengeResponse Answer) api" where
  "api_challenge E = api_send E (enc_challenge (ou_codec E) ()) (dec_challenge (ou_codec E)) Method.Post ''/v1/challenges'' NoAuth None"

definition api_create_vault ::
    "'x outside \<Rightarrow> OwnerKeys \<Rightarrow> CreateVaultRequest \<Rightarrow> ('x, ApiError, (VaultId \<times> u32 \<times> int option) Answer) api" where
  "api_create_vault E o' rq = api_send E (enc_create (ou_codec E) rq) (dec_created (ou_codec E)) Method.Post ''/v1/vaults'' (OwnerAuth o') None"

definition api_delete_vault :: "'x outside \<Rightarrow> OwnerKeys \<Rightarrow> ('x, ApiError, unit Answer) api" where
  "api_delete_vault E o' =
     abind (api_call E Method.Delete ''/v1/vault'' None (OwnerAuth o') None) (\<lambda>r. aret (reply_empty r))"

definition api_descriptors :: "'x outside \<Rightarrow> Auth \<Rightarrow> u32 \<Rightarrow> ('x, ApiError, SignedDescriptor list Answer) api" where
  "api_descriptors E auth after =
     api_get E (dec_descriptors (ou_codec E)) (''/v1/vault/descriptors?after='' @ show_nat (unat after)) auth"

definition api_rotate :: "'x outside \<Rightarrow> OwnerKeys \<Rightarrow> RotationRequest \<Rightarrow> ('x, ApiError, u32 Answer) api" where
  "api_rotate E o' rq = api_send E (enc_rotation (ou_codec E) rq) (dec_rotated (ou_codec E)) Method.Post ''/v1/vault/rotations'' (OwnerAuth o') None"

definition api_children_get :: "'x outside \<Rightarrow> OwnerKeys \<Rightarrow> ('x, ApiError, ChildrenBlob Answer) api" where
  "api_children_get E o' = api_get E (dec_children (ou_codec E)) ''/v1/vault/children'' (OwnerAuth o')"

definition api_children_put :: "'x outside \<Rightarrow> OwnerKeys \<Rightarrow> ChildrenBlob \<Rightarrow> Pre \<Rightarrow> ('x, ApiError, unit Answer) api" where
  "api_children_put E o' blob pre =
     abind (alift (ok_or (enc_children (ou_codec E) blob) Encode)) (\<lambda>b.
     abind (api_call E Method.Put ''/v1/vault/children'' (Some b) (OwnerAuth o') (Some pre)) (\<lambda>r. aret (reply_empty r)))"

definition name_hex :: "'x outside \<Rightarrow> NameHmac \<Rightarrow> string" where
  "name_hex E n = hex_encode (pr_crypto (ou_prims E)) (nhm n)"

definition record_path :: "'x outside \<Rightarrow> RecordKind \<Rightarrow> NameHmac \<Rightarrow> string" where
  "record_path E kind n = records_path kind @ ''/'' @ name_hex E n"

definition api_list ::
    "'x outside \<Rightarrow> Auth \<Rightarrow> RecordKind \<Rightarrow> NameHmac option \<Rightarrow> ('x, ApiError, (SecretListItem list \<times> NameHmac option) Answer) api" where
  "api_list E auth kind after =
     api_get E (dec_list (ou_codec E)) (records_path kind @ ''?limit='' @ show_nat LIST_PAGE
       @ (case after of None \<Rightarrow> [] | Some a \<Rightarrow> ''&after='' @ name_hex E a)) auth"

definition api_versions :: "'x outside \<Rightarrow> Auth \<Rightarrow> RecordKind \<Rightarrow> NameHmac \<Rightarrow> ('x, ApiError, VersionMeta list Answer) api" where
  "api_versions E auth kind n = api_get E (dec_versions (ou_codec E)) (record_path E kind n @ ''/versions'') auth"

definition api_record ::
    "'x outside \<Rightarrow> Auth \<Rightarrow> RecordKind \<Rightarrow> NameHmac \<Rightarrow> nat option \<Rightarrow> ('x, ApiError, SecretVersion Answer) api" where
  "api_record E auth kind n version =
     api_get E (dec_record (ou_codec E)) (record_path E kind n
       @ (case version of None \<Rightarrow> [] | Some v \<Rightarrow> ''/versions/'' @ show_nat v)) auth"

definition api_put ::
    "'x outside \<Rightarrow> Auth \<Rightarrow> RecordKind \<Rightarrow> NameHmac \<Rightarrow> PutSecretRequest \<Rightarrow> Pre \<Rightarrow> ('x, ApiError, nat Answer) api" where
  "api_put E auth kind n rq pre =
     api_send E (enc_put (ou_codec E) rq) (dec_put (ou_codec E)) Method.Put (record_path E kind n) auth (Some pre)"

definition api_delete ::
    "'x outside \<Rightarrow> Auth \<Rightarrow> RecordKind \<Rightarrow> NameHmac \<Rightarrow> DeleteRecordRequest \<Rightarrow> Pre \<Rightarrow> ('x, ApiError, nat Answer) api" where
  "api_delete E auth kind n rq pre =
     api_send E (enc_delete (ou_codec E) rq) (dec_put (ou_codec E)) Method.Delete (record_path E kind n) auth (Some pre)"

definition api_audit :: "'x outside \<Rightarrow> Auth \<Rightarrow> nat \<Rightarrow> ('x, ApiError, AuditPageRead Answer) api" where
  "api_audit E auth after = api_get E (dec_audit (ou_codec E))
     (''/v1/audit?after='' @ show_nat after @ ''&limit='' @ show_nat AUDIT_PAGE) auth"

definition api_register_token ::
    "'x outside \<Rightarrow> OwnerKeys \<Rightarrow> RegisterTokenRequest \<Rightarrow> ('x, ApiError, (TokenId \<times> int) Answer) api" where
  "api_register_token E o' rq =
     api_send E (enc_register (ou_codec E) rq) (dec_registered (ou_codec E)) Method.Post ''/v1/tokens'' (OwnerAuth o') None"

definition api_revoke :: "'x outside \<Rightarrow> Auth \<Rightarrow> TokenId \<Rightarrow> ('x, ApiError, TokenId list Answer) api" where
  "api_revoke E auth t =
     abind (api_call E Method.Delete (''/v1/tokens/'' @ token_id_to_hex (pr_crypto (ou_prims E)) t) None auth None) (\<lambda>r.
     alift (reply_json (dec_revoked (ou_codec E)) r))"

definition api_report_token :: "'x outside \<Rightarrow> ReportTokenRequest \<Rightarrow> ('x, ApiError, TokenId list Answer) api" where
  "api_report_token E rq =
     api_send E (enc_report (ou_codec E) rq) (dec_revoked (ou_codec E)) Method.Post ''/v1/tokens/report'' NoAuth None"

section \<open>What goes out is what was signed\<close>

text \<open>Who a request claims to be from, and the key that verifies it.\<close>

fun signer_of :: "Auth \<Rightarrow> (SigActor \<times> VaultId \<times> Key32) option" where
  "signer_of NoAuth = None"
| "signer_of (OwnerAuth o') = Some (SigActor.Owner, ok_vault_id o', ok_sign_pub o')"
| "signer_of (TokenAuth t) = Some (SigActor.Token (tk_id t), tk_vault_id t, tk_auth_pub t)"

fun wf_auth :: "primitives \<Rightarrow> Auth \<Rightarrow> bool" where
  "wf_auth P NoAuth = True"
| "wf_auth P (OwnerAuth o') = wf_owner P o'"
| "wf_auth P (TokenAuth t) = (wf_token P t \<and> wf_token_id (tk_id t) \<and> wf_vault_id (tk_vault_id t))"

text \<open>The request as the server rebuilds it before it checks the signature.\<close>

definition received :: "Request \<Rightarrow> SignedRequest" where
  "received r = \<lparr>sr_method = method_as_str (cr_method r), sr_path_and_query = cr_path_and_query r,
     sr_body = (case cr_body r of None \<Rightarrow> [] | Some b \<Rightarrow> b), sr_if_match = cr_if_match r,
     sr_if_none_match = cr_if_none_match r\<rparr>"

definition clock_ok :: "'x outside \<Rightarrow> bool" where
  "clock_ok E \<longleftrightarrow> (\<forall>x. i64_range (fst (ou_now E x)))"

definition authentic_request :: "crypto \<Rightarrow> Auth \<Rightarrow> Request \<Rightarrow> bool" where
  "authentic_request c auth r = (case signer_of auth of
     None \<Rightarrow> cr_authorization r = None
   | Some (actor, v, pub) \<Rightarrow> (\<exists>h p. cr_authorization r = Some h \<and> sig_parse c h = Inr p \<and> sp_actor p = actor
       \<and> sp_vault_id p = v \<and> ed25519_verify c (k32 pub) (params_signing_input c p (received r)) (sp_sig p)))"

lemma draw_Inr: "draw m s = (Inr a, s') \<longleftrightarrow> (\<exists>n. m (as_draws s) = (Inr a, n) \<and> s' = s\<lparr>as_draws := n\<rparr>)"
  by (auto simp: draw_def split: prod.splits)

lemma client_now_Inr: "client_now E s = (r, s') \<Longrightarrow> \<exists>t. r = Inr t \<and> t = fst (ou_now E (as_out s))"
  by (auto simp: client_now_def split: prod.splits)

lemma owner_header:
  assumes "signing_ok P" and "widths_ok P" and "text_codecs (pr_crypto P)" and "wf_owner P o'" and "i64_range ts"
    and "owner_sign_request P o' rq ts i = (Inr p, j)"
  shows "sig_parse (pr_crypto P) (to_header_value (pr_crypto P) p) = Inr p" and "sp_actor p = SigActor.Owner"
    and "sp_vault_id p = ok_vault_id o'"
    and "ed25519_verify (pr_crypto P) (k32 (ok_sign_pub o')) (params_signing_input (pr_crypto P) p rq) (sp_sig p)"
proof -
  have p: "sp_actor p = SigActor.Owner" "sp_vault_id p = ok_vault_id o'" "sp_ts p = ts" "length (sp_nonce p) = 16"
    "length (sp_sig p) = 64"
    using assms(2,6) by (auto simp: owner_sign_request_def abind_Inr random_bytes_def Let_def owner_sign_def widths_ok_def)
  show "sp_actor p = SigActor.Owner" "sp_vault_id p = ok_vault_id o'" by (rule p)+
  have "wf_sig_params p"
    using p assms(5) wf_owner_vault_id [OF assms(2,4)] by (simp add: wf_sig_params_def)
  then show "sig_parse (pr_crypto P) (to_header_value (pr_crypto P) p) = Inr p" by (rule sig_parse_header [OF assms(3)])
  show "ed25519_verify (pr_crypto P) (k32 (ok_sign_pub o')) (params_signing_input (pr_crypto P) p rq) (sp_sig p)"
    by (rule request_signature_verifies [OF assms(1,4,6)])
qed

lemma token_header:
  assumes "signing_ok P" and "widths_ok P" and "text_codecs (pr_crypto P)" and "wf_auth P (TokenAuth t)" and "i64_range ts"
    and "token_sign_request P t rq ts i = (Inr p, j)"
  shows "sig_parse (pr_crypto P) (to_header_value (pr_crypto P) p) = Inr p" and "sp_actor p = SigActor.Token (tk_id t)"
    and "sp_vault_id p = tk_vault_id t"
    and "ed25519_verify (pr_crypto P) (k32 (tk_auth_pub t)) (params_signing_input (pr_crypto P) p rq) (sp_sig p)"
proof -
  have p: "sp_actor p = SigActor.Token (tk_id t)" "sp_vault_id p = tk_vault_id t" "sp_ts p = ts" "length (sp_nonce p) = 16"
    "length (sp_sig p) = 64"
    using assms(2,6) by (auto simp: token_sign_request_def abind_Inr random_bytes_def Let_def widths_ok_def)
  show "sp_actor p = SigActor.Token (tk_id t)" "sp_vault_id p = tk_vault_id t" by (rule p)+
  have "wf_sig_params p" using p assms(4,5) by (simp add: wf_sig_params_def)
  then show "sig_parse (pr_crypto P) (to_header_value (pr_crypto P) p) = Inr p" by (rule sig_parse_header [OF assms(3)])
  show "ed25519_verify (pr_crypto P) (k32 (tk_auth_pub t)) (params_signing_input (pr_crypto P) p rq) (sp_sig p)"
    using token_signature_verifies [OF assms(1) _ assms(6)] assms(4) by simp
qed

lemma authorize_authentic:
  assumes prims: "signing_ok (ou_prims E)" "widths_ok (ou_prims E)" "text_codecs (pr_crypto (ou_prims E))" "clock_ok E"
    and "wf_auth (ou_prims E) auth" and "authorize E auth (received r) s = (Inr a, s1)" and "cr_authorization r = a"
  shows "authentic_request (pr_crypto (ou_prims E)) auth r"
proof (cases auth)
  case NoAuth
  then show ?thesis using assms(6,7) by (simp add: authorize_def authentic_request_def)
next
  case (OwnerAuth o')
  obtain ts p i j where ts: "i64_range ts" and p: "owner_sign_request (ou_prims E) o' (received r) ts i = ((Inr p :: ApiError + SigParams), j)"
    and a: "a = Some (to_header_value (pr_crypto (ou_prims E)) p)"
    using assms(6) prims(4) OwnerAuth
    by (auto simp: authorize_def Let_def abind_Inr draw_Inr clock_ok_def dest!: client_now_Inr) blast
  show ?thesis
    using owner_header [OF prims(1-3) _ ts p] assms(5,7) a by (simp add: authentic_request_def OwnerAuth)
next
  case (TokenAuth t)
  obtain ts p i j where ts: "i64_range ts" and p: "token_sign_request (ou_prims E) t (received r) ts i = ((Inr p :: ApiError + SigParams), j)"
    and a: "a = Some (to_header_value (pr_crypto (ou_prims E)) p)"
    using assms(6) prims(4) TokenAuth
    by (auto simp: authorize_def Let_def abind_Inr draw_Inr clock_ok_def dest!: client_now_Inr) blast
  show ?thesis
    using token_header [OF prims(1-3) _ ts p] assms(5,7) a by (simp add: authentic_request_def TokenAuth)
qed

lemma authorize_total: "\<exists>a s1. authorize E auth rq s = (Inr a, s1)"
proof (cases auth)
  case (OwnerAuth o')
  then show ?thesis
    by (simp add: authorize_def Let_def abind_def client_now_def draw_def owner_sign_request_def random_bytes_def split: prod.splits)
next
  case (TokenAuth t)
  then show ?thesis
    by (simp add: authorize_def Let_def abind_def client_now_def draw_def token_sign_request_def random_bytes_def split: prod.splits)
qed (simp add: authorize_def)

text \<open>
  C22. Every call sends exactly one request, with the method, path, body and precondition it was asked
  for, and it is authenticated as sent: its authorization header parses to the holder's identity and a
  signature that verifies over the request as the server reads it (a call with no holder carries no
  header). The answer, whatever the server made of it, is the result of the call.
\<close>

theorem call_signed_as_sent:
  assumes "signing_ok (ou_prims E)" and "widths_ok (ou_prims E)" and "text_codecs (pr_crypto (ou_prims E))" and "clock_ok E"
    and "wf_auth (ou_prims E) auth"
  shows "\<exists>r s1. cr_method r = method \<and> cr_path_and_query r = pq \<and> cr_body r = body
    \<and> (cr_if_match r = (case pre of Some (Update v) \<Rightarrow> Some (show_nat v) | _ \<Rightarrow> None))
    \<and> (cr_if_none_match r = (case pre of Some Create \<Rightarrow> Some ''*'' | Some (Revive v) \<Rightarrow> Some ''*'' | _ \<Rightarrow> None))
    \<and> authentic_request (pr_crypto (ou_prims E)) auth r
    \<and> api_call E method pq body auth pre s = abind (transmit E r) (\<lambda>resp. alift (read_reply E resp)) s1"
proof -
  let ?rq = "signed_request method pq body pre"
  obtain a s1 where a: "authorize E auth ?rq s = (Inr a, s1)" using authorize_total by blast
  define r where "r = \<lparr>cr_method = method, cr_path_and_query = pq, cr_if_match = sr_if_match ?rq,
    cr_if_none_match = sr_if_none_match ?rq, cr_authorization = a, cr_body = body\<rparr>"
  have rq: "received r = ?rq" by (simp add: received_def r_def signed_request_def Let_def)
  have pre: "sr_if_match ?rq = (case pre of Some (Update v) \<Rightarrow> Some (show_nat v) | _ \<Rightarrow> None)"
    "sr_if_none_match ?rq = (case pre of Some Create \<Rightarrow> Some ''*'' | Some (Revive v) \<Rightarrow> Some ''*'' | _ \<Rightarrow> None)"
    by (auto simp: signed_request_def Let_def split: option.splits Pre.splits)
  have "authentic_request (pr_crypto (ou_prims E)) auth r"
    using authorize_authentic [OF assms, of r s a s1] a rq by (simp add: r_def)
  moreover have "api_call E method pq body auth pre s = abind (transmit E r) (\<lambda>resp. alift (read_reply E resp)) s1"
    using a by (simp add: api_call_def Let_def abind_def r_def)
  ultimately show ?thesis using pre by (intro exI [of _ r] exI [of _ s1]) (simp add: r_def)
qed

text \<open>A server that answers every request with status 204, and knows no JSON.\<close>

definition null_codec :: client_codec where
  "null_codec = \<lparr>dec_error = Map.empty, dec_capabilities = Map.empty, dec_status = Map.empty, dec_token_self = Map.empty,
     dec_challenge = Map.empty, dec_created = Map.empty, dec_descriptors = Map.empty, dec_rotated = Map.empty,
     dec_children = Map.empty, dec_list = Map.empty, dec_versions = Map.empty, dec_record = Map.empty, dec_put = Map.empty,
     dec_audit = Map.empty, dec_registered = Map.empty, dec_revoked = Map.empty, enc_challenge = Map.empty,
     enc_create = Map.empty, enc_rotation = Map.empty, enc_children = Map.empty, enc_put = Map.empty,
     enc_delete = Map.empty, enc_register = Map.empty, enc_report = Map.empty\<rparr>"

definition ex_outside :: "unit outside" where
  "ex_outside = \<lparr>ou_prims = toy, ou_codec = null_codec,
     ou_send = (\<lambda>r x. (Inr \<lparr>rs_status = 204, rs_etag = None, rs_expires_at = None, rs_body = []\<rparr>, x)),
     ou_now = (\<lambda>x. (1000, x))\<rparr>"

definition ex_api :: "unit api_state" where
  "ex_api = \<lparr>as_out = (), as_draws = 0, as_caps = None, as_notices = []\<rparr>"

lemma ex_outside_ok: "signing_ok (ou_prims ex_outside)" "widths_ok (ou_prims ex_outside)"
    "text_codecs (pr_crypto (ou_prims ex_outside))" "clock_ok ex_outside" "wf_auth (ou_prims ex_outside) (OwnerAuth ex_owner)"
  using toy_ok ex_keys_wf(1) null_text_codecs
  by (simp_all add: ex_outside_def clock_ok_def i64_range_def i64_min_def i64_max_def) (simp add: toy_def)

theorem call_signed_as_sent_witness:
  "\<exists>r s1. cr_if_none_match r = Some ''*'' \<and> authentic_request (pr_crypto (ou_prims ex_outside)) (OwnerAuth ex_owner) r
    \<and> api_call ex_outside Method.Put ''/v1/vault/children'' (Some [1]) (OwnerAuth ex_owner) (Some Create) ex_api
      = abind (transmit ex_outside r) (\<lambda>resp. alift (read_reply ex_outside resp)) s1"
  using call_signed_as_sent [OF ex_outside_ok, of Method.Put "''/v1/vault/children''" "Some [1]" "Some Create" ex_api]
  by auto

end
