(* ===== verification/Client_Error.thy ===== *)
theory Client_Error
  imports Client_Api
begin

text \<open>
  The client's one error type (\<open>error.rs\<close>): its stable codes, the kind of each, and how failures of
  the layers below become errors. Messages are not modelled, so \<open>context\<close> is the identity.
\<close>

section \<open>Codes and kinds\<close>

definition CODE_INVALID_TOKEN :: string where "CODE_INVALID_TOKEN = ''invalid_token''"
definition CODE_INVALID_TOKEN_FILE :: string where "CODE_INVALID_TOKEN_FILE = ''invalid_token_file''"
definition CODE_INVALID_SERVER :: string where "CODE_INVALID_SERVER = ''invalid_server''"
definition CODE_INVALID_PROXY :: string where "CODE_INVALID_PROXY = ''invalid_proxy''"
definition CODE_MISSING_SERVER :: string where "CODE_MISSING_SERVER = ''missing_server''"
definition CODE_INVALID_ENVIRONMENT :: string where "CODE_INVALID_ENVIRONMENT = ''invalid_environment''"
definition CODE_INVALID_NAME :: string where "CODE_INVALID_NAME = ''invalid_name''"
definition CODE_INVALID_CONFIG :: string where "CODE_INVALID_CONFIG = ''invalid_config''"
definition CODE_INVALID_AUDIT_HEAD :: string where "CODE_INVALID_AUDIT_HEAD = ''invalid_audit_head''"
definition CODE_CREDENTIAL_LITERAL :: string where "CODE_CREDENTIAL_LITERAL = ''credential_literal''"
definition CODE_UNSUPPORTED_FORMAT :: string where "CODE_UNSUPPORTED_FORMAT = ''unsupported_format''"
definition CODE_NOT_TEXT :: string where "CODE_NOT_TEXT = ''not_text''"
definition CODE_NOT_FOUND :: string where "CODE_NOT_FOUND = ''not_found''"
definition CODE_FORBIDDEN :: string where "CODE_FORBIDDEN = ''forbidden''"
definition CODE_CONFLICT :: string where "CODE_CONFLICT = ''conflict''"
definition CODE_STALE_GENERATION :: string where "CODE_STALE_GENERATION = ''stale_generation''"
definition CODE_UNREACHABLE :: string where "CODE_UNREACHABLE = ''unreachable''"
definition CODE_ERROR :: string where "CODE_ERROR = ''error''"
definition CODE_BAD_SIGNATURE :: string where "CODE_BAD_SIGNATURE = ''bad_signature''"
definition CODE_KEY_MISMATCH :: string where "CODE_KEY_MISMATCH = ''key_mismatch''"
definition CODE_BINDING_MISMATCH :: string where "CODE_BINDING_MISMATCH = ''binding_mismatch''"
definition CODE_VERSION_ROLLBACK :: string where "CODE_VERSION_ROLLBACK = ''version_rollback''"
definition CODE_GENERATION_ROLLBACK :: string where "CODE_GENERATION_ROLLBACK = ''generation_rollback''"
definition CODE_AUDIT_MISMATCH :: string where "CODE_AUDIT_MISMATCH = ''audit_mismatch''"
definition CODE_STORE :: string where "CODE_STORE = ''store''"
definition CODE_UNKNOWN_PATH :: string where "CODE_UNKNOWN_PATH = ''unknown_path''"
definition CODE_INVALID_PATH :: string where "CODE_INVALID_PATH = ''invalid_path''"
definition CODE_INVALID_KIT :: string where "CODE_INVALID_KIT = ''invalid_kit''"
definition CODE_UNKNOWN_PROJECT :: string where "CODE_UNKNOWN_PROJECT = ''unknown_project''"
definition CODE_PROJECT_EXISTS :: string where "CODE_PROJECT_EXISTS = ''project_exists''"
definition CODE_ENV_EXISTS :: string where "CODE_ENV_EXISTS = ''env_exists''"
definition CODE_IS_PROJECT :: string where "CODE_IS_PROJECT = ''is_project''"
definition CODE_HAS_CHILDREN :: string where "CODE_HAS_CHILDREN = ''has_children''"
definition CODE_VAULT_EXISTS :: string where "CODE_VAULT_EXISTS = ''vault_exists''"
definition CODE_NO_KEY :: string where "CODE_NO_KEY = ''no_key''"
definition CODE_SERVER_MISMATCH :: string where "CODE_SERVER_MISMATCH = ''server_mismatch''"
definition CODE_REKEY_IN_PROGRESS :: string where "CODE_REKEY_IN_PROGRESS = ''rekey_in_progress''"
definition CODE_NO_REKEY :: string where "CODE_NO_REKEY = ''no_rekey''"
definition CODE_REKEY_FORWARD_ONLY :: string where "CODE_REKEY_FORWARD_ONLY = ''rekey_forward_only''"
definition CODE_DATA_DIR_IN_USE :: string where "CODE_DATA_DIR_IN_USE = ''data_dir_in_use''"
definition CODE_INVALID_DATA_DIR :: string where "CODE_INVALID_DATA_DIR = ''invalid_data_dir''"
definition CODE_UNSUPPORTED_PROTOCOL :: string where "CODE_UNSUPPORTED_PROTOCOL = ''unsupported_protocol''"
definition CODE_UNSUPPORTED_BY_CLIENT :: string where "CODE_UNSUPPORTED_BY_CLIENT = ''unsupported_by_client''"

lemmas client_code_defs = CODE_INVALID_TOKEN_def CODE_INVALID_TOKEN_FILE_def CODE_INVALID_SERVER_def CODE_INVALID_PROXY_def
  CODE_MISSING_SERVER_def CODE_INVALID_ENVIRONMENT_def CODE_INVALID_NAME_def CODE_INVALID_CONFIG_def
  CODE_INVALID_AUDIT_HEAD_def CODE_CREDENTIAL_LITERAL_def CODE_UNSUPPORTED_FORMAT_def
  CODE_NOT_TEXT_def CODE_NOT_FOUND_def CODE_FORBIDDEN_def CODE_CONFLICT_def CODE_STALE_GENERATION_def
  CODE_UNREACHABLE_def CODE_ERROR_def CODE_BAD_SIGNATURE_def CODE_KEY_MISMATCH_def
  CODE_BINDING_MISMATCH_def CODE_VERSION_ROLLBACK_def CODE_GENERATION_ROLLBACK_def
  CODE_AUDIT_MISMATCH_def CODE_STORE_def CODE_UNKNOWN_PATH_def CODE_INVALID_PATH_def
  CODE_INVALID_KIT_def CODE_UNKNOWN_PROJECT_def CODE_PROJECT_EXISTS_def CODE_ENV_EXISTS_def
  CODE_IS_PROJECT_def CODE_HAS_CHILDREN_def CODE_VAULT_EXISTS_def CODE_NO_KEY_def
  CODE_SERVER_MISMATCH_def CODE_REKEY_IN_PROGRESS_def CODE_NO_REKEY_def CODE_REKEY_FORWARD_ONLY_def
  CODE_DATA_DIR_IN_USE_def CODE_INVALID_DATA_DIR_def CODE_UNSUPPORTED_PROTOCOL_def
  CODE_UNSUPPORTED_BY_CLIENT_def

datatype ErrorKind = Auth | Forbidden | NotFound | Conflict | Transport | Invalid | Integrity | Other

fun kind_str :: "ErrorKind \<Rightarrow> string" where
  "kind_str ErrorKind.Auth = ''auth''"
| "kind_str ErrorKind.Forbidden = ''forbidden''"
| "kind_str ErrorKind.NotFound = ''not_found''"
| "kind_str ErrorKind.Conflict = ''conflict''"
| "kind_str ErrorKind.Transport = ''transport''"
| "kind_str ErrorKind.Invalid = ''invalid''"
| "kind_str ErrorKind.Integrity = ''integrity''"
| "kind_str ErrorKind.Other = ''error''"

definition kind_of_protocol :: "ErrorCode \<Rightarrow> ErrorKind option" where
  "kind_of_protocol code =
     (if code \<in> {ErrorCode.Unauthorized, ErrorCode.TokenExpired} then Some ErrorKind.Auth
      else if code = ErrorCode.Forbidden then Some ErrorKind.Forbidden
      else if code = ErrorCode.NotFound then Some ErrorKind.NotFound
      else if code \<in> {ErrorCode.PreconditionFailed, ErrorCode.Conflict, ErrorCode.StaleGeneration, ErrorCode.VersionMismatch}
      then Some ErrorKind.Conflict
      else if code \<in> {ErrorCode.BadSignature, ErrorCode.KeyMismatch, ErrorCode.VersionRollback, ErrorCode.GenerationRollback}
      then Some ErrorKind.Integrity
      else None)"

definition INVALID_CODES :: "string list" where
  "INVALID_CODES =
     [CODE_INVALID_TOKEN_FILE, CODE_INVALID_SERVER, CODE_INVALID_PROXY, CODE_MISSING_SERVER,
      CODE_INVALID_ENVIRONMENT, CODE_INVALID_NAME, CODE_INVALID_CONFIG, CODE_INVALID_AUDIT_HEAD,
      CODE_CREDENTIAL_LITERAL, CODE_UNSUPPORTED_FORMAT, CODE_NOT_TEXT, CODE_UNKNOWN_PATH,
      CODE_INVALID_PATH, CODE_INVALID_KIT, CODE_UNKNOWN_PROJECT, CODE_PROJECT_EXISTS, CODE_ENV_EXISTS,
      CODE_IS_PROJECT, CODE_HAS_CHILDREN, CODE_VAULT_EXISTS, CODE_NO_KEY, CODE_SERVER_MISMATCH,
      CODE_REKEY_IN_PROGRESS, CODE_NO_REKEY, CODE_REKEY_FORWARD_ONLY, CODE_DATA_DIR_IN_USE,
      CODE_INVALID_DATA_DIR, CODE_UNSUPPORTED_PROTOCOL, CODE_UNSUPPORTED_BY_CLIENT]"

definition kind_of :: "string \<Rightarrow> ErrorKind" where
  "kind_of code = (case Option.bind (error_parse code) kind_of_protocol of
     Some kind \<Rightarrow> kind
   | None \<Rightarrow>
       if code = CODE_INVALID_TOKEN then ErrorKind.Auth
       else if code = CODE_UNREACHABLE then ErrorKind.Transport
       else if code \<in> set INVALID_CODES then ErrorKind.Invalid
       else if code = CODE_BINDING_MISMATCH \<or> code = CODE_AUDIT_MISMATCH then ErrorKind.Integrity
       else ErrorKind.Other)"

definition kind_of_status :: "nat \<Rightarrow> ErrorKind" where
  "kind_of_status status =
     (if status = 401 then ErrorKind.Auth else if status = 403 then ErrorKind.Forbidden
      else if status = 404 then ErrorKind.NotFound else if status = 409 \<or> status = 412 then ErrorKind.Conflict
      else ErrorKind.Other)"

section \<open>The error type\<close>

datatype Expected = Absent | Version nat

fun expected_from :: "Pre \<Rightarrow> Expected" where
  "expected_from Create = Absent"
| "expected_from (Revive v) = Absent"
| "expected_from (Update v) = Expected.Version v"

datatype IntegrityFailure =
    BadSignature string
  | KeyMismatch string
  | BindingMismatch string
  | VersionRollback nat nat
  | GenerationRollback u32 u32
  | AuditMismatch

definition failure_code :: "IntegrityFailure \<Rightarrow> string" where
  "failure_code f = (case f of
     IntegrityFailure.BadSignature _ \<Rightarrow> CODE_BAD_SIGNATURE
   | IntegrityFailure.KeyMismatch _ \<Rightarrow> CODE_KEY_MISMATCH
   | IntegrityFailure.BindingMismatch _ \<Rightarrow> CODE_BINDING_MISMATCH
   | IntegrityFailure.VersionRollback _ _ \<Rightarrow> CODE_VERSION_ROLLBACK
   | IntegrityFailure.GenerationRollback _ _ \<Rightarrow> CODE_GENERATION_ROLLBACK
   | AuditMismatch \<Rightarrow> CODE_AUDIT_MISMATCH)"

fun failure_from :: "IntegrityError \<Rightarrow> IntegrityFailure" where
  "failure_from (IntegrityError.BadSignature w) = IntegrityFailure.BadSignature w"
| "failure_from (IntegrityError.KeyMismatch w) = IntegrityFailure.KeyMismatch w"
| "failure_from (IntegrityError.BindingMismatch w) = IntegrityFailure.BindingMismatch w"
| "failure_from (IntegrityError.Malformed w) = IntegrityFailure.BindingMismatch w"
| "failure_from (IntegrityError.VersionRollback k g) = IntegrityFailure.VersionRollback k g"
| "failure_from (IntegrityError.GenerationRollback k g) = IntegrityFailure.GenerationRollback k g"

datatype Error =
    Invalid string
  | Auth string
  | Forbidden
  | NotFound
  | VaultNotFound string
  | UnknownPath string "string option" bool
  | Conflict string Expected "nat option"
  | StaleGeneration string
  | Integrity IntegrityFailure
  | Server string nat
  | Transport string
  | Store
  | Other

definition err_code :: "Error \<Rightarrow> string" where
  "err_code e = (case e of
     Error.Invalid code \<Rightarrow> code
   | Error.Auth code \<Rightarrow> code
   | Server code _ \<Rightarrow> code
   | Error.Forbidden \<Rightarrow> CODE_FORBIDDEN
   | Error.NotFound \<Rightarrow> CODE_NOT_FOUND
   | VaultNotFound _ \<Rightarrow> CODE_NOT_FOUND
   | UnknownPath _ _ _ \<Rightarrow> CODE_UNKNOWN_PATH
   | Error.Conflict _ _ _ \<Rightarrow> CODE_CONFLICT
   | Error.StaleGeneration _ \<Rightarrow> CODE_STALE_GENERATION
   | Error.Integrity f \<Rightarrow> failure_code f
   | Error.Transport _ \<Rightarrow> CODE_UNREACHABLE
   | Error.Store \<Rightarrow> CODE_STORE
   | Error.Other \<Rightarrow> CODE_ERROR)"

definition err_kind :: "Error \<Rightarrow> ErrorKind" where
  "err_kind e = (case e of
     Server code status \<Rightarrow> if error_parse code = None then kind_of_status status else kind_of code
   | _ \<Rightarrow> kind_of (err_code e))"

definition unsupported :: Error where
  "unsupported = Error.Invalid CODE_UNSUPPORTED_BY_CLIENT"

definition err_integrity :: "IntegrityError \<Rightarrow> Error" where
  "err_integrity e = Error.Integrity (failure_from e)"

definition err_conflict :: "string \<Rightarrow> Pre \<Rightarrow> nat option \<Rightarrow> Error" where
  "err_conflict name pre now_at = Error.Conflict name (expected_from pre) now_at"

datatype Class = Integrity IntegrityFailure | Stale | Unsupported | Other

definition key_class :: "KeyError \<Rightarrow> Class" where
  "key_class e = (case e of
     KeyError.Integrity i \<Rightarrow> Class.Integrity (failure_from i)
   | KeyError.Binding w \<Rightarrow> Class.Integrity (IntegrityFailure.BindingMismatch w)
   | KeyError.NameMismatch \<Rightarrow> Class.Integrity (IntegrityFailure.BindingMismatch ''record name'')
   | KeyError.Kind _ _ \<Rightarrow> Class.Integrity (IntegrityFailure.BindingMismatch ''bundle kind'')
   | KeyError.UnsupportedScope _ \<Rightarrow> Class.Unsupported
   | _ \<Rightarrow> Class.Other)"

definition seal_class :: "SealError \<Rightarrow> Class" where
  "seal_class e = (case e of
     SealError.Integrity i \<Rightarrow> Class.Integrity (failure_from i)
   | SealError.Key k \<Rightarrow> key_class k
   | SealError.Binding w \<Rightarrow> Class.Integrity (IntegrityFailure.BindingMismatch w)
   | SealError.NameMismatch \<Rightarrow> Class.Integrity (IntegrityFailure.BindingMismatch ''record name'')
   | SealError.KindMismatch _ _ \<Rightarrow> Class.Integrity (IntegrityFailure.BindingMismatch ''record kind'')
   | SealError.StaleGeneration _ _ \<Rightarrow> Class.Stale
   | SealError.UnsupportedByClient _ \<Rightarrow> Class.Unsupported
   | _ \<Rightarrow> Class.Other)"

text \<open>The code labels a stale-generation error with the whole context of the message; the model with its first part, the vault's label.\<close>

definition err_seal :: "SealError \<Rightarrow> string \<Rightarrow> Error" where
  "err_seal e context_label = (case seal_class e of
     Class.Integrity failure \<Rightarrow> Error.Integrity failure
   | Class.Stale \<Rightarrow> Error.StaleGeneration context_label
   | Class.Unsupported \<Rightarrow> unsupported
   | Class.Other \<Rightarrow> Error.Other)"

definition err_key :: "KeyError \<Rightarrow> Error" where
  "err_key e = (case key_class e of
     Class.Integrity failure \<Rightarrow> Error.Integrity failure
   | Class.Unsupported \<Rightarrow> unsupported
   | _ \<Rightarrow> Error.Other)"

definition err_audit_chain :: "ChainError \<Rightarrow> Error" where
  "err_audit_chain e = (case e of
     UnknownRowValue _ _ _ \<Rightarrow> unsupported
   | HeadMismatch \<Rightarrow> Error.Integrity (IntegrityFailure.BindingMismatch ''audit head'')
   | _ \<Rightarrow> Error.Integrity AuditMismatch)"

definition err_api :: "ApiError \<Rightarrow> Error" where
  "err_api e = (case e of
     ApiError.Transport t \<Rightarrow> Error.Transport (te_server t)
   | UnsupportedProtocol _ \<Rightarrow> Error.Invalid CODE_UNSUPPORTED_PROTOCOL
   | Refused status _ \<Rightarrow>
       (let code = stable_code e in
        case kind_of code of
          ErrorKind.Auth \<Rightarrow> Error.Auth code
        | ErrorKind.Forbidden \<Rightarrow> Error.Forbidden
        | ErrorKind.NotFound \<Rightarrow> Error.NotFound
        | _ \<Rightarrow> Server code status)
   | _ \<Rightarrow> Error.Other)"

section \<open>Classification\<close>

lemma kind_of_error_code: "kind_of (error_as_str c) = (case kind_of_protocol c of Some k \<Rightarrow> k | None \<Rightarrow> ErrorKind.Other)"
proof -
  have "error_parse (error_as_str c) = Some c" by (rule errors.parse_as_str)
  moreover have "kind_of_protocol c = None \<Longrightarrow> kind_of (error_as_str c) = ErrorKind.Other"
    using calculation by (cases c) (simp_all add: kind_of_def kind_of_protocol_def error_as_str_def client_code_defs INVALID_CODES_def)
  ultimately show ?thesis by (cases "kind_of_protocol c") (simp_all add: kind_of_def)
qed

lemma failure_kind: "kind_of (failure_code f) = ErrorKind.Integrity"
proof -
  have p: "error_parse (error_as_str c) = Some c" for c by (rule errors.parse_as_str)
  have bm: "error_parse ''binding_mismatch'' = None" "error_parse ''audit_mismatch'' = None"
    by (simp_all add: error_parse_def ErrorCode_ALL_def error_as_str_def)
  show ?thesis
    using p [of ErrorCode.BadSignature] p [of ErrorCode.KeyMismatch] p [of ErrorCode.VersionRollback]
      p [of ErrorCode.GenerationRollback] bm
    by (cases f) (simp_all add: failure_code_def client_code_defs kind_of_def error_as_str_def kind_of_protocol_def INVALID_CODES_def)
qed

lemma kind_of_protocol_Forbidden: "kind_of_protocol c = Some ErrorKind.Forbidden \<longleftrightarrow> c = ErrorCode.Forbidden"
    "kind_of_protocol c = Some ErrorKind.NotFound \<longleftrightarrow> c = ErrorCode.NotFound"
  by (cases c; simp add: kind_of_protocol_def)+

lemma protocol_code_strings: "CODE_FORBIDDEN = error_as_str ErrorCode.Forbidden" "CODE_NOT_FOUND = error_as_str ErrorCode.NotFound"
  by (simp_all add: CODE_FORBIDDEN_def CODE_NOT_FOUND_def error_as_str_def)

lemma kind_of_forbidden: "kind_of s = ErrorKind.Forbidden \<longleftrightarrow> s = CODE_FORBIDDEN"
    "kind_of s = ErrorKind.NotFound \<longleftrightarrow> s = CODE_NOT_FOUND"
proof -
  have "(kind_of s = ErrorKind.Forbidden \<longleftrightarrow> s = CODE_FORBIDDEN) \<and> (kind_of s = ErrorKind.NotFound \<longleftrightarrow> s = CODE_NOT_FOUND)"
  proof (cases "error_parse s")
    case None
    then have "s \<noteq> CODE_FORBIDDEN" "s \<noteq> CODE_NOT_FOUND"
      using errors.parse_as_str by (auto simp: protocol_code_strings)
    then show ?thesis using None by (simp add: kind_of_def)
  next
    case (Some c)
    then have s: "s = error_as_str c" by (simp add: errors.parse_Some_iff)
    show ?thesis
      using kind_of_protocol_Forbidden [of c] kind_of_error_code [of c]
      by (cases "kind_of_protocol c") (auto simp: s protocol_code_strings errors.as_str_inject)
  qed
  then show "kind_of s = ErrorKind.Forbidden \<longleftrightarrow> s = CODE_FORBIDDEN" "kind_of s = ErrorKind.NotFound \<longleftrightarrow> s = CODE_NOT_FOUND"
    by blast+
qed

text \<open>
  Errors keep what they are: the stable code of a failed request is the code of the error the
  caller gets, whatever the server answered; a refusal with a code this client knows has that code's
  kind; a code it does not know is classified by the HTTP status (or as the client's own code of that
  name); and everything that fails verification is of kind integrity.
\<close>

theorem error_codes_kept:
  "err_code (err_api e) = stable_code e
   \<and> err_kind (err_integrity i) = ErrorKind.Integrity
   \<and> err_kind (err_api (Refused status (Some (Known c))))
       = (case kind_of_protocol c of Some k \<Rightarrow> k | None \<Rightarrow> ErrorKind.Other)
   \<and> err_kind (err_api (Refused status None)) = kind_of_status status"
proof (intro conjI)
  show "err_code (err_api e) = stable_code e"
    by (cases e) (auto simp: err_api_def Let_def err_code_def stable_code_def CODE_UNREACHABLE_def
        CODE_UNSUPPORTED_PROTOCOL_def CODE_ERROR_def kind_of_forbidden split: ErrorKind.splits)
  show "err_kind (err_integrity i) = ErrorKind.Integrity"
    by (simp add: err_kind_def err_integrity_def err_code_def failure_kind)
  have code: "stable_code (Refused status (Some (Known c))) = error_as_str c"
    by (simp add: stable_code_def api_error_code_str_def)
  show "err_kind (err_api (Refused status (Some (Known c))))
       = (case kind_of_protocol c of Some k \<Rightarrow> k | None \<Rightarrow> ErrorKind.Other)"
    using errors.parse_as_str [of c] kind_of_error_code [of c] kind_of_forbidden [of "error_as_str c"]
    by (auto simp: err_api_def code Let_def err_kind_def err_code_def split: ErrorKind.splits option.splits)
  have http: "stable_code (Refused status None) = ''http_'' @ show_nat status"
    by (simp add: stable_code_def api_error_code_str_def)
  have none: "error_parse (''http_'' @ show_nat status) = None"
    by (auto simp: error_parse_def find_None_iff ErrorCode_ALL_def error_as_str_def)
  have "kind_of (''http_'' @ show_nat status) = ErrorKind.Other"
    using none by (simp add: kind_of_def client_code_defs INVALID_CODES_def)
  then show "err_kind (err_api (Refused status None)) = kind_of_status status"
    using none by (simp add: err_api_def http Let_def err_kind_def)
qed

end
