(* ===== verification/Vault_Handle.thy ===== *)
theory Vault_Handle
  imports Client_Error
begin

text \<open>
  One vault, opened by its owner key or a token (\<open>vault.rs\<close>): the verified view of a generation, the pins
  that detect rollback, opening, and refreshing. The server is whatever the transport makes of it.
\<close>

section \<open>State\<close>

definition EXPIRY_WARNING_SECS :: int where "EXPIRY_WARNING_SECS = 14 * 86400"

record DescriptorPin =
  dp_generation :: u32
  dp_hash :: Hash32

record Pins =
  pi_descriptor :: "DescriptorPin option"
  pi_secrets :: "NameHmac \<rightharpoonup> nat"
  pi_configs :: "NameHmac \<rightharpoonup> nat"

fun pin_versions :: "Pins \<Rightarrow> RecordKind \<Rightarrow> (NameHmac \<rightharpoonup> nat)" where
  "pin_versions p RecordKind.Secret = pi_secrets p"
| "pin_versions p RecordKind.Config = pi_configs p"

fun pin_version :: "RecordKind \<Rightarrow> NameHmac \<Rightarrow> nat \<Rightarrow> Pins \<Rightarrow> Pins" where
  "pin_version RecordKind.Secret n v p = p\<lparr>pi_secrets := (pi_secrets p)(n \<mapsto> v)\<rparr>"
| "pin_version RecordKind.Config n v p = p\<lparr>pi_configs := (pi_configs p)(n \<mapsto> v)\<rparr>"

datatype Holder = OwnerHolder OwnerKeys | TokenHolder TokenKeys

record View =
  vw_descriptor :: Descriptor
  vw_bundle :: Bundle
  vw_scope :: "Scope option"
  vw_allow_list :: "NameHmac list option"
  vw_token_expires_at :: "int option"
  vw_status :: "VaultStatus option"

record Handle =
  hn_holder :: Holder
  hn_label :: string
  hn_vault_id :: VaultId
  hn_owner_sign_pub :: Key32
  hn_view :: View
  hn_warned :: bool
  hn_last_expires_at :: int
  hn_pins :: Pins

record 'x session =
  se_api :: "'x api_state"
  se_handle :: Handle

type_synonym ('x, 'a) hop = "('x session, Error, 'a) action"

definition hask :: "(Handle \<Rightarrow> 'a) \<Rightarrow> ('x, 'a) hop" where
  "hask f s = (Inr (f (se_handle s)), s)"

definition hmod :: "(Handle \<Rightarrow> Handle) \<Rightarrow> ('x, unit) hop" where
  "hmod f s = (Inr (), s\<lparr>se_handle := f (se_handle s)\<rparr>)"

text \<open>An API operation, its failure as a value (to branch on) or mapped to an error.\<close>

definition happly :: "('x, 'e, 'a) api \<Rightarrow> ('x, 'e + 'a) hop" where
  "happly m s = (case m (se_api s) of (r, a) \<Rightarrow> (Inr r, s\<lparr>se_api := a\<rparr>))"

definition hcall :: "('e \<Rightarrow> Error) \<Rightarrow> ('x, 'e, 'a) api \<Rightarrow> ('x, 'a) hop" where
  "hcall f m = abind (happly m) (\<lambda>r. alift (map_err f r))"

definition pin_of :: "crypto \<Rightarrow> Descriptor \<Rightarrow> DescriptorPin" where
  "pin_of c d = \<lparr>dp_generation = d_generation d, dp_hash = descriptor_hash c d\<rparr>"

section \<open>Views\<close>

definition owner_error :: "ApiError \<Rightarrow> string \<Rightarrow> Error" where
  "owner_error e label =
     (if api_error_code e = Some ErrorCode.Unauthorized then VaultNotFound label else err_api e)"

definition token_refused :: "ApiError \<Rightarrow> Error" where
  "token_refused e =
     (if api_error_code e \<in> {Some ErrorCode.Unauthorized, Some ErrorCode.TokenExpired}
      then Error.Auth (stable_code e) else err_api e)"

definition owner_view :: "primitives \<Rightarrow> OwnerKeys \<Rightarrow> VaultStatus \<Rightarrow> Error + View" where
  "owner_view P o' status =
     (let fail = (\<lambda>e. Inl (err_integrity e)) in
      if vs_vault_id status \<noteq> ok_vault_id o' then fail (IntegrityError.KeyMismatch ''vault id'')
      else if vs_owner_sign_pub status \<noteq> ok_sign_pub o' then fail (IntegrityError.KeyMismatch ''owner signing key'')
      else if vs_owner_box_pub status \<noteq> ok_box_pub o' then fail (IntegrityError.KeyMismatch ''owner box key'')
      else
        rbind (map_err err_integrity (verify_for (pr_crypto P) (vs_descriptor status) (ok_vault_id o') (ok_sign_pub o'))) (\<lambda>d.
        if d_generation d \<noteq> vs_generation status then fail (IntegrityError.BindingMismatch ''generation'')
        else
          rbind (ok_or (vs_owner_bundle status) Error.Other) (\<lambda>sb.
          rbind (map_err err_key (open_own_bundle P o' sb (d_generation d))) (\<lambda>full.
          if \<not> full_matches P full d then fail (IntegrityError.KeyMismatch ''owner bundle'')
          else Inr \<lparr>vw_descriptor = d, vw_bundle = Bundle.Full full, vw_scope = None, vw_allow_list = None,
            vw_token_expires_at = None, vw_status = Some status\<rparr>))))"

definition token_view :: "primitives \<Rightarrow> TokenKeys \<Rightarrow> TokenSelf \<Rightarrow> Error + (View \<times> Key32)" where
  "token_view P t me =
     (if me_vault_id me \<noteq> tk_vault_id t then Inl (err_integrity (IntegrityError.KeyMismatch ''vault id''))
      else if me_token_id me \<noteq> tk_id t then Inl (err_integrity (IntegrityError.KeyMismatch ''token id''))
      else
        rbind (ok_or (tolerant_known (me_scope me)) unsupported) (\<lambda>scope.
        rbind (map_err err_integrity (verify_for (pr_crypto P) (me_descriptor me) (tk_vault_id t) (me_owner_sign_pub me))) (\<lambda>d.
        rbind (map_err err_key (token_open_bundle P t (me_bundle me) (me_owner_sign_pub me) scope (d_generation d))) (\<lambda>b.
        if \<not> bundle_matches P b d then Inl (err_integrity (IntegrityError.KeyMismatch ''token bundle''))
        else Inr (\<lparr>vw_descriptor = d, vw_bundle = b, vw_scope = Some scope, vw_allow_list = me_allow_list me,
          vw_token_expires_at = Some (me_expires_at me), vw_status = None\<rparr>, me_owner_sign_pub me)))))"

section \<open>Opening\<close>

definition handle_new :: "primitives \<Rightarrow> Holder \<Rightarrow> string \<Rightarrow> View \<Rightarrow> Key32 \<Rightarrow> Handle" where
  "handle_new P holder label view sign_pub =
     \<lparr>hn_holder = holder, hn_label = label, hn_vault_id = d_vault_id (vw_descriptor view),
      hn_owner_sign_pub = sign_pub, hn_view = view, hn_warned = False, hn_last_expires_at = i64_min,
      hn_pins = \<lparr>pi_descriptor = Some (pin_of (pr_crypto P) (vw_descriptor view)), pi_secrets = Map.empty,
        pi_configs = Map.empty\<rparr>\<rparr>"

definition note_expiry :: "'x outside \<Rightarrow> int option \<Rightarrow> ('x, unit) hop" where
  "note_expiry E e = (case e of
     None \<Rightarrow> aret ()
   | Some at \<Rightarrow>
       abind (hmod (\<lambda>h. h\<lparr>hn_last_expires_at := at\<rparr>)) (\<lambda>_.
       abind (hcall id (client_now E)) (\<lambda>now.
       abind (hask hn_warned) (\<lambda>warned.
       abind (hask hn_label) (\<lambda>label.
       if i64_sub at now < EXPIRY_WARNING_SECS
       then abind (hmod (\<lambda>h. h\<lparr>hn_warned := True\<rparr>)) (\<lambda>_.
         if \<not> warned then hcall id (notify (Expiry label at)) else aret ())
       else aret ())))))"

definition htake :: "'x outside \<Rightarrow> 'a Answer \<Rightarrow> ('x, 'a) hop" where
  "htake E a = abind (note_expiry E (an_expires_at a)) (\<lambda>_. aret (an_value a))"

text \<open>Run the rest of an opening on the new handle.\<close>

definition with_handle :: "Handle \<Rightarrow> ('x, unit) hop \<Rightarrow> ('x api_state, Error, Handle) action" where
  "with_handle h m a = (case m \<lparr>se_api = a, se_handle = h\<rparr> of
     (Inl e, s) \<Rightarrow> (Inl e, se_api s)
   | (Inr _, s) \<Rightarrow> (Inr (se_handle s), se_api s))"

definition open_owner :: "'x outside \<Rightarrow> NodeKey \<Rightarrow> string \<Rightarrow> ('x api_state, Error, Handle) action" where
  "open_owner E key label =
     (let P = ou_prims E; o' = owner_from_node P key in
      abind (amap_err err_api (require_protocol E)) (\<lambda>_.
      abind (amap_err (\<lambda>e. owner_error e label) (api_status E (OwnerAuth o'))) (\<lambda>answer.
      abind (alift (owner_view P o' (an_value answer))) (\<lambda>view.
      with_handle (handle_new P (OwnerHolder o') label view (ok_sign_pub o')) (note_expiry E (an_expires_at answer))))))"

definition open_token :: "'x outside \<Rightarrow> TokenKeys \<Rightarrow> string \<Rightarrow> ('x api_state, Error, Handle) action" where
  "open_token E t label =
     (let P = ou_prims E in
      abind (amap_err err_api (require_protocol E)) (\<lambda>_.
      abind (amap_err token_refused (api_token_self E t)) (\<lambda>answer.
      abind (alift (token_view P t (an_value answer))) (\<lambda>(view, sign_pub).
      with_handle (handle_new P (TokenHolder t) label view sign_pub) (note_expiry E (an_expires_at answer))))))"

definition holder_auth :: "Holder \<Rightarrow> Auth" where
  "holder_auth h = (case h of OwnerHolder o' \<Rightarrow> OwnerAuth o' | TokenHolder t \<Rightarrow> TokenAuth t)"

definition h_owner :: "('x, OwnerKeys) hop" where
  "h_owner s = (case hn_holder (se_handle s) of OwnerHolder o' \<Rightarrow> (Inr o', s) | TokenHolder _ \<Rightarrow> (Inl Error.Forbidden, s))"

definition last_expires_at :: "Handle \<Rightarrow> int option" where
  "last_expires_at h = (if hn_last_expires_at h \<noteq> i64_min then Some (hn_last_expires_at h) else None)"

definition may_read :: "View \<Rightarrow> NameHmac \<Rightarrow> bool" where
  "may_read v n = is_none_or (\<lambda>l. n \<in> set l) (vw_allow_list v)"

definition view_full :: "View \<Rightarrow> Error + FullBundle" where
  "view_full v = (case vw_bundle v of Bundle.Full f \<Rightarrow> Inr f | _ \<Rightarrow> Inl Error.Forbidden)"

definition view_vault_secret :: "View \<Rightarrow> Error + VaultSecret" where
  "view_vault_secret v = ok_or (bundle_vault_secret (vw_bundle v)) Error.Forbidden"

definition view_config_secret :: "View \<Rightarrow> Error + ConfigSecret" where
  "view_config_secret v = ok_or (bundle_config_secret (vw_bundle v)) Error.Forbidden"

definition view_writer :: "View \<Rightarrow> RecordKind \<Rightarrow> Error + WriterKey" where
  "view_writer v kind = ok_or (case kind of
     RecordKind.Secret \<Rightarrow> bundle_secret_writer (vw_bundle v)
   | RecordKind.Config \<Rightarrow> bundle_config_writer (vw_bundle v)) Error.Forbidden"

section \<open>Pins and refresh\<close>

definition handle_descriptors_after :: "'x outside \<Rightarrow> u32 \<Rightarrow> ('x, Descriptor list) hop" where
  "handle_descriptors_after E after =
     abind (hask id) (\<lambda>h.
     abind (hcall err_api (api_descriptors E (holder_auth (hn_holder h)) after)) (\<lambda>answer.
     abind (htake E answer) (\<lambda>ds.
     alift (collect_results (\<lambda>sd. map_err err_integrity
       (verify_for (pr_crypto (ou_prims E)) sd (hn_vault_id h) (hn_owner_sign_pub h))) ds))))"

text \<open>The walk from the pin towards \<open>d\<close>; \<open>u32\<close> addition wraps in a release build.\<close>

fun pin_walk :: "crypto \<Rightarrow> Descriptor \<Rightarrow> DescriptorPin \<Rightarrow> Descriptor list \<Rightarrow> Error + DescriptorPin" where
  "pin_walk c d p [] = Inr p"
| "pin_walk c d p (n # ns) =
     (if d_generation n > d_generation d then Inr p
      else if d_generation n \<noteq> dp_generation p + 1 \<or> prev_hash n \<noteq> dp_hash p
      then Inl (err_integrity (IntegrityError.BindingMismatch ''descriptor chain''))
      else pin_walk c d (pin_of c n) ns)"

definition check_descriptor_pin :: "'x outside \<Rightarrow> DescriptorPin \<Rightarrow> Descriptor \<Rightarrow> ('x, unit) hop" where
  "check_descriptor_pin E pin d =
     (let c = pr_crypto (ou_prims E);
          rollback = err_integrity (IntegrityError.GenerationRollback (dp_generation pin) (d_generation d)) in
      if d_generation d < dp_generation pin then afail rollback
      else if d_generation d = dp_generation pin
      then (if descriptor_hash c d = dp_hash pin then aret () else afail rollback)
      else
        abind (handle_descriptors_after E (dp_generation pin)) (\<lambda>ds.
        abind (alift (pin_walk c d pin ds)) (\<lambda>reached.
        if reached \<noteq> pin_of c d
        then afail (err_integrity (IntegrityError.BindingMismatch ''descriptor chain'')) else aret ())))"

definition set_pins :: "'x outside \<Rightarrow> Pins \<Rightarrow> ('x, unit) hop" where
  "set_pins E pins =
     abind (hask hn_view) (\<lambda>v.
     abind (case pi_descriptor pins of None \<Rightarrow> aret () | Some pin \<Rightarrow> check_descriptor_pin E pin (vw_descriptor v)) (\<lambda>_.
     hmod (\<lambda>h. h\<lparr>hn_pins := pins\<lparr>pi_descriptor := pi_descriptor (hn_pins h)\<rparr>\<rparr>)))"

definition check_version :: "RecordKind \<Rightarrow> NameHmac \<Rightarrow> nat \<Rightarrow> ('x, unit) hop" where
  "check_version kind n got =
     abind (hask (\<lambda>h. pin_versions (hn_pins h) kind n)) (\<lambda>known.
     case known of
       Some k \<Rightarrow> if got < k then afail (err_integrity (IntegrityError.VersionRollback k got))
         else hmod (\<lambda>h. h\<lparr>hn_pins := pin_version kind n got (hn_pins h)\<rparr>)
     | None \<Rightarrow> hmod (\<lambda>h. h\<lparr>hn_pins := pin_version kind n got (hn_pins h)\<rparr>))"

definition fetch_view :: "'x outside \<Rightarrow> ('x, View \<times> int option) hop" where
  "fetch_view E =
     abind (hask id) (\<lambda>h.
     case hn_holder h of
       OwnerHolder o' \<Rightarrow>
         abind (hcall (\<lambda>e. owner_error e (hn_label h)) (api_status E (OwnerAuth o'))) (\<lambda>answer.
         abind (alift (owner_view (ou_prims E) o' (an_value answer))) (\<lambda>view.
         aret (view, an_expires_at answer)))
     | TokenHolder t \<Rightarrow>
         abind (hcall token_refused (api_token_self E t)) (\<lambda>answer.
         abind (alift (token_view (ou_prims E) t (an_value answer))) (\<lambda>(view, sign_pub).
         if sign_pub \<noteq> hn_owner_sign_pub h
         then afail (err_integrity (IntegrityError.KeyMismatch ''owner signing key''))
         else aret (view, an_expires_at answer))))"

definition refresh :: "'x outside \<Rightarrow> ('x, unit) hop" where
  "refresh E =
     abind (fetch_view E) (\<lambda>(view, expires_at).
     abind (hask (\<lambda>h. pi_descriptor (hn_pins h))) (\<lambda>pinned.
     abind (case pinned of None \<Rightarrow> aret () | Some pin \<Rightarrow> check_descriptor_pin E pin (vw_descriptor view)) (\<lambda>_.
     abind (hmod (\<lambda>h. h\<lparr>hn_view := view,
       hn_pins := (hn_pins h)\<lparr>pi_descriptor := Some (pin_of (pr_crypto (ou_prims E)) (vw_descriptor view))\<rparr>\<rparr>)) (\<lambda>_.
     note_expiry E expires_at))))"

end
