(* ===== verification/Vault_Records.thy ===== *)
theory Vault_Records
  imports Vault_Handle
begin

text \<open>
  Reading and writing records through a handle (\<open>vault.rs\<close>): listing, history, fetching, opening,
  writing, deleting, and what a miss or a conflict turns into. A listing follows the server's cursors
  for as long as it sends them, so it is a partial function: \<open>None\<close> is a listing that never ends.
\<close>

section \<open>Runs that may not end\<close>

type_synonym ('s, 'e, 'a) loop = "'s \<Rightarrow> (('e + 'a) \<times> 's) option"

definition ended :: "('s, 'e, 'a) action \<Rightarrow> ('s, 'e, 'a) loop" where
  "ended m s = Some (m s)"

definition lbind :: "('s, 'e, 'a) loop \<Rightarrow> ('a \<Rightarrow> ('s, 'e, 'b) loop) \<Rightarrow> ('s, 'e, 'b) loop" where
  "lbind m f s = (case m s of
     None \<Rightarrow> None
   | Some (Inl e, s') \<Rightarrow> Some (Inl e, s')
   | Some (Inr a, s') \<Rightarrow> f a s')"

text \<open>A \<open>for\<close> loop over a list.\<close>

fun lcollect :: "('a \<Rightarrow> ('s, 'e, 'b) loop) \<Rightarrow> 'a list \<Rightarrow> ('s, 'e, 'b list) loop" where
  "lcollect f [] = ended (aret [])"
| "lcollect f (x # xs) = lbind (f x) (\<lambda>y. lbind (lcollect f xs) (\<lambda>ys. ended (aret (y # ys))))"

lemma lbind_Some: "lbind m f s = Some (Inr b, s') \<longleftrightarrow> (\<exists>a s1. m s = Some (Inr a, s1) \<and> f a s1 = Some (Inr b, s'))"
  by (auto simp: lbind_def split: option.splits sum.splits)

lemma ended_run [simp]: "ended m s = Some (m s)"
  by (simp add: ended_def)

section \<open>Listing\<close>

record Item =
  it_name :: string
  it_hmac :: NameHmac
  it_version :: nat
  it_updated_at :: int
  it_size :: u32
  it_tombstone :: bool

definition handle_list_item :: "'x outside \<Rightarrow> View \<Rightarrow> RecordKind \<Rightarrow> SecretListItem \<Rightarrow> ('x, Item) hop" where
  "handle_list_item E v kind it =
     (let P = ou_prims E in
      abind (hask hn_label) (\<lambda>label.
      abind (alift (map_err (\<lambda>e. err_seal e label) (verify_listed P (vw_descriptor v) kind it))) (\<lambda>_.
      abind (alift (map_err (\<lambda>e. err_seal e label) (open_name P (vw_descriptor v) (bundle_name_key (vw_bundle v)) kind
        (si_name_hmac it) (b64 (si_name_ct it))))) (\<lambda>name.
      abind (check_version kind (si_name_hmac it) (si_version it)) (\<lambda>_.
      aret \<lparr>it_name = name, it_hmac = si_name_hmac it, it_version = si_version it, it_updated_at = si_written_at it,
        it_size = si_size it, it_tombstone = si_tombstone it\<rparr>)))))"

definition list_page :: "'x outside \<Rightarrow> View \<Rightarrow> RecordKind \<Rightarrow> NameHmac option \<Rightarrow> ('x, Item list \<times> NameHmac option) hop" where
  "list_page E v kind after =
     abind (hask (\<lambda>h. holder_auth (hn_holder h))) (\<lambda>auth.
     abind (hcall err_api (api_list E auth kind after)) (\<lambda>answer.
     abind (htake E answer) (\<lambda>(items, cursor).
     abind (acollect (handle_list_item E v kind) items) (\<lambda>out.
     aret (out, cursor)))))"

partial_function (option) list_pages ::
    "'x outside \<Rightarrow> View \<Rightarrow> RecordKind \<Rightarrow> Item list \<Rightarrow> NameHmac option \<Rightarrow> 'x session \<Rightarrow> ((Error + Item list) \<times> 'x session) option" where
  [code]: "list_pages E v kind acc after s =
     (case list_page E v kind after s of
        (Inl e, s') \<Rightarrow> Some (Inl e, s')
      | (Inr (out, None), s') \<Rightarrow> Some (Inr (acc @ out), s')
      | (Inr (out, Some c), s') \<Rightarrow> list_pages E v kind (acc @ out) (Some c) s')"

definition list_kind :: "'x outside \<Rightarrow> View \<Rightarrow> RecordKind \<Rightarrow> ('x session, Error, Item list) loop" where
  "list_kind E v kind = lbind (list_pages E v kind [] None) (\<lambda>out. ended (aret (sort_key it_name out)))"

section \<open>History and fetching\<close>

definition refresh_status :: "'x outside \<Rightarrow> ('x, VaultStatus) hop" where
  "refresh_status E =
     abind (hask id) (\<lambda>h.
     abind (hcall err_api (api_status E (holder_auth (hn_holder h)))) (\<lambda>answer.
     abind (htake E answer) (\<lambda>status.
     if vs_owner_sign_pub status \<noteq> hn_owner_sign_pub h \<or> vs_vault_id status \<noteq> hn_vault_id h
     then afail (err_integrity (IntegrityError.KeyMismatch ''owner signing key''))
     else
       abind (alift (map_err err_integrity (verify_for (pr_crypto (ou_prims E)) (vs_descriptor status)
         (hn_vault_id h) (hn_owner_sign_pub h)))) (\<lambda>_.
       aret status))))"

text \<open>Whether a miss is a vault that moved on: \<open>Some\<close> is what actually happened.\<close>

definition moved_on :: "'x outside \<Rightarrow> View \<Rightarrow> ('x, Error option) hop" where
  "moved_on E v s = (case refresh_status E s of
     (Inl _, s') \<Rightarrow> (Inr None, s')
   | (Inr status, s') \<Rightarrow>
       (if vs_generation status = d_generation (vw_descriptor v) then (Inr None, s')
        else (Inr (Some (Error.StaleGeneration (hn_label (se_handle s')))), s')))"

definition versions_kind :: "'x outside \<Rightarrow> View \<Rightarrow> RecordKind \<Rightarrow> string \<Rightarrow> ('x, VersionMeta list) hop" where
  "versions_kind E v kind name =
     (let P = ou_prims E; index = name_key_index P (bundle_name_key (vw_bundle v)) kind name in
      abind (hask id) (\<lambda>h.
      abind (happly (api_versions E (holder_auth (hn_holder h)) kind index)) (\<lambda>r.
      case r of
        Inl e \<Rightarrow>
          if api_error_code e = Some ErrorCode.NotFound
          then abind (moved_on E v) (\<lambda>moved. case moved of Some m \<Rightarrow> afail m | None \<Rightarrow> aret [])
          else afail (err_api e)
      | Inr a \<Rightarrow>
          abind (htake E a) (\<lambda>versions.
          abind (alift (collect_results (\<lambda>m. map_err (\<lambda>e. err_seal e (hn_label h))
            (verify_meta P (vw_descriptor v) kind index m)) versions)) (\<lambda>_.
          aret versions)))))"

definition fetch :: "'x outside \<Rightarrow> View \<Rightarrow> RecordKind \<Rightarrow> string \<Rightarrow> nat option \<Rightarrow> ('x, SecretVersion) hop" where
  "fetch E v kind name version =
     (let P = ou_prims E; index = name_key_index P (bundle_name_key (vw_bundle v)) kind name in
      abind (hask id) (\<lambda>h.
      abind (happly (api_record E (holder_auth (hn_holder h)) kind index version)) (\<lambda>r.
      case r of
        Inl e \<Rightarrow>
          if api_error_code e = Some ErrorCode.NotFound
          then abind (moved_on E v) (\<lambda>moved. case moved of Some m \<Rightarrow> afail m | None \<Rightarrow> afail Error.NotFound)
          else if api_error_code e = Some ErrorCode.Forbidden then afail Error.Forbidden
          else afail (err_api e)
      | Inr a \<Rightarrow>
          abind (htake E a) (\<lambda>rec.
          if sv_name_hmac rec \<noteq> index then afail (err_integrity (IntegrityError.BindingMismatch ''record index''))
          else case version of
            Some want \<Rightarrow>
              if sv_version rec \<noteq> want then afail (err_integrity (IntegrityError.BindingMismatch ''record version''))
              else aret rec
          | None \<Rightarrow>
              abind (alift (map_err (\<lambda>e. err_seal e (hn_label h)) (verify_version P (vw_descriptor v) kind rec))) (\<lambda>_.
              abind (check_version kind index (sv_version rec)) (\<lambda>_.
              aret rec))))))"

definition open_record :: "'x outside \<Rightarrow> View \<Rightarrow> RecordKind \<Rightarrow> SecretVersion \<Rightarrow> string \<Rightarrow> Error + OpenedRecord" where
  "open_record E v kind rec label =
     (let P = ou_prims E; nk = bundle_name_key (vw_bundle v) in
      case kind of
        RecordKind.Secret \<Rightarrow> rbind (view_vault_secret v) (\<lambda>k.
          map_err (\<lambda>e. err_seal e label) (open_secret P (vw_descriptor v) nk k rec))
      | RecordKind.Config \<Rightarrow> rbind (view_config_secret v) (\<lambda>k.
          map_err (\<lambda>e. err_seal e label) (open_config_record P (vw_descriptor v) nk k rec)))"

section \<open>Writing\<close>

definition h_conflict :: "'x outside \<Rightarrow> View \<Rightarrow> RecordKind \<Rightarrow> string \<Rightarrow> Pre \<Rightarrow> ('x, 'a) hop" where
  "h_conflict E v kind name pre =
     abind (versions_kind E v kind name) (\<lambda>versions.
     afail (err_conflict name pre (if versions = [] then None else Some (vm_version (last versions)))))"

definition write_answer ::
    "'x outside \<Rightarrow> View \<Rightarrow> string \<Rightarrow> WrittenRecord \<Rightarrow> Pre \<Rightarrow> ApiError + nat Answer \<Rightarrow> ('x, nat) hop" where
  "write_answer E v name rec pre r = (case r of
     Inr a \<Rightarrow>
       abind (htake E a) (\<lambda>version.
       if version \<noteq> wr_version rec
       then afail (err_integrity (IntegrityError.BindingMismatch ''written version''))
       else abind (check_version (wr_kind rec) (wr_name_hmac rec) (wr_version rec)) (\<lambda>_. aret (wr_version rec)))
   | Inl e \<Rightarrow>
       if api_error_code e \<in> {Some ErrorCode.PreconditionFailed, Some ErrorCode.VersionMismatch}
       then h_conflict E v (wr_kind rec) name pre
       else if api_error_code e = Some ErrorCode.Forbidden then afail Error.Forbidden
       else if api_error_code e = Some ErrorCode.StaleGeneration
       then abind (hask hn_label) (\<lambda>label. afail (Error.StaleGeneration label))
       else afail (err_api e))"

definition send_write :: "'x outside \<Rightarrow> View \<Rightarrow> string \<Rightarrow> WrittenRecord \<Rightarrow> Pre \<Rightarrow> ('x, nat) hop" where
  "send_write E v name rec pre =
     abind (hask (\<lambda>h. holder_auth (hn_holder h))) (\<lambda>auth.
     case put_request rec of
       Some put \<Rightarrow> abind (happly (api_put E auth (wr_kind rec) (wr_name_hmac rec) put pre)) (write_answer E v name rec pre)
     | None \<Rightarrow> (case delete_request rec of
         Some del \<Rightarrow> abind (happly (api_delete E auth (wr_kind rec) (wr_name_hmac rec) del pre)) (write_answer E v name rec pre)
       | None \<Rightarrow> afail Error.Other))"

definition view_writer_for :: "View \<Rightarrow> WriterKey \<Rightarrow> Writer" where
  "view_writer_for v w = \<lparr>w_descriptor = vw_descriptor v, w_name_key = bundle_name_key (vw_bundle v), w_writer = w\<rparr>"

definition write_value ::
    "'x outside \<Rightarrow> View \<Rightarrow> RecordKind \<Rightarrow> string \<Rightarrow> ConfigFormat option \<Rightarrow> bytes \<Rightarrow> Pre \<Rightarrow> int \<Rightarrow> ('x, nat) hop" where
  "write_value E v kind name format body pre at =
     (let P = ou_prims E; version = pre_next_version pre in
      abind (hask hn_label) (\<lambda>label.
      abind (alift (view_writer v kind)) (\<lambda>wk.
      abind (hcall (\<lambda>e. err_seal e label) (draw (case kind of
          RecordKind.Secret \<Rightarrow> write_secret P (view_writer_for v wk) name body version at
        | RecordKind.Config \<Rightarrow> write_config P (view_writer_for v wk) name
            (case format of Some f \<Rightarrow> f | None \<Rightarrow> Text) body version at))) (\<lambda>rec.
      send_write E v name rec pre))))"

definition vault_tombstone :: "'x outside \<Rightarrow> View \<Rightarrow> RecordKind \<Rightarrow> string \<Rightarrow> Pre \<Rightarrow> int \<Rightarrow> ('x, nat) hop" where
  "vault_tombstone E v kind name pre at =
     abind (hask hn_label) (\<lambda>label.
     abind (alift (view_writer v kind)) (\<lambda>wk.
     abind (hcall (\<lambda>e. err_seal e label) (draw (write_tombstone (ou_prims E) (view_writer_for v wk) kind name
       (pre_next_version pre) at))) (\<lambda>rec.
     send_write E v name rec pre)))"

section \<open>The operations on secrets and configs\<close>

definition vault_list :: "'x outside \<Rightarrow> RecordKind \<Rightarrow> ('x session, Error, Item list) loop" where
  "vault_list E kind s = list_kind E (hn_view (se_handle s)) kind s"

definition vault_versions :: "'x outside \<Rightarrow> RecordKind \<Rightarrow> string \<Rightarrow> ('x, VersionMeta list) hop" where
  "vault_versions E kind name = abind (hask hn_view) (\<lambda>v. versions_kind E v kind name)"

definition vault_current :: "'x outside \<Rightarrow> RecordKind \<Rightarrow> string \<Rightarrow> ('x, Pre) hop" where
  "vault_current E kind name = abind (vault_versions E kind name) (\<lambda>vs.
     aret (pre_after (if vs = [] then None else Some (last vs))))"

definition vault_get :: "'x outside \<Rightarrow> string \<Rightarrow> nat option \<Rightarrow> ('x, nat \<times> Opened) hop" where
  "vault_get E name version =
     abind (hask id) (\<lambda>h.
     let v = hn_view h in
     abind (alift (view_vault_secret v)) (\<lambda>_.
     abind (fetch E v RecordKind.Secret name version) (\<lambda>rec.
     abind (alift (open_record E v RecordKind.Secret rec (hn_label h))) (\<lambda>r.
     case or_value r of
       None \<Rightarrow> afail Error.NotFound
     | Some val \<Rightarrow> aret (sv_version rec, \<lparr>op_name = or_name r, op_value = val, op_written_at = or_written_at r\<rparr>)))))"

definition vault_get_config :: "'x outside \<Rightarrow> string \<Rightarrow> nat option \<Rightarrow> ('x, nat \<times> OpenedConfig) hop" where
  "vault_get_config E name version =
     abind (hask id) (\<lambda>h.
     let v = hn_view h in
     abind (alift (view_config_secret v)) (\<lambda>_.
     abind (fetch E v RecordKind.Config name version) (\<lambda>rec.
     abind (alift (open_record E v RecordKind.Config rec (hn_label h))) (\<lambda>r.
     case (or_value r, or_format r) of
       (Some body, Some f) \<Rightarrow> aret (sv_version rec,
         \<lparr>oc_name = or_name r, oc_format = f, oc_body = body, oc_written_at = or_written_at r\<rparr>)
     | _ \<Rightarrow> afail Error.NotFound))))"

definition vault_put :: "'x outside \<Rightarrow> string \<Rightarrow> bytes \<Rightarrow> Pre \<Rightarrow> ('x, nat) hop" where
  "vault_put E name val pre =
     abind (hask hn_view) (\<lambda>v. abind (hcall id (client_now E)) (\<lambda>now.
     write_value E v RecordKind.Secret name None val pre now))"

definition vault_put_config :: "'x outside \<Rightarrow> string \<Rightarrow> ConfigFormat \<Rightarrow> bytes \<Rightarrow> Pre \<Rightarrow> ('x, nat) hop" where
  "vault_put_config E name format body pre =
     abind (hask hn_view) (\<lambda>v. abind (hcall id (client_now E)) (\<lambda>now.
     write_value E v RecordKind.Config name (Some format) body pre now))"

definition vault_delete :: "'x outside \<Rightarrow> RecordKind \<Rightarrow> string \<Rightarrow> nat \<Rightarrow> ('x, nat) hop" where
  "vault_delete E kind name version =
     abind (hask hn_view) (\<lambda>v. abind (hcall id (client_now E)) (\<lambda>now.
     vault_tombstone E v kind name (Update version) now))"

end
