(* ===== verification/Vault_Owner.thy ===== *)
theory Vault_Owner
  imports Vault_Records
begin

text \<open>
  What an owner does with a vault (\<open>vault.rs\<close>), and the audit chain (\<open>vault.rs\<close>, \<open>audit.rs\<close>): creating it,
  its children record, rotating, minting and revoking tokens, deleting it, and verifying its audit log.
\<close>

section \<open>The children record\<close>

definition vault_children :: "'x outside \<Rightarrow> ('x, ChildrenRecord \<times> Pre) hop" where
  "vault_children E =
     abind h_owner (\<lambda>o'.
     abind (happly (api_children_get E o')) (\<lambda>r. case r of
       Inr a \<Rightarrow>
         abind (htake E a) (\<lambda>blob.
         abind (alift (map_err err_key (open_children (ou_prims E) o' blob))) (\<lambda>rec.
         aret (rec, Update (cb_version blob))))
     | Inl e \<Rightarrow>
         if api_error_code e = Some ErrorCode.NotFound then aret (children_new, Create) else afail (err_api e)))"

definition handle_put_children :: "'x outside \<Rightarrow> ChildrenRecord \<Rightarrow> Pre \<Rightarrow> ('x, nat) hop" where
  "handle_put_children E rec pre =
     (let version = pre_next_version pre in
      abind h_owner (\<lambda>o'.
      abind (hcall err_key (draw (seal_children (ou_prims E) o' version rec))) (\<lambda>blob.
      abind (happly (api_children_put E o' blob pre)) (\<lambda>r. case r of
        Inr a \<Rightarrow> abind (htake E a) (\<lambda>_. aret version)
      | Inl e \<Rightarrow>
          if api_error_code e \<in> {Some ErrorCode.PreconditionFailed, Some ErrorCode.VersionMismatch}
          then abind (hask hn_label) (\<lambda>label. afail (err_conflict (label @ [CHR 0x27] @ ''s children record'') pre None))
          else afail (err_api e)))))"

definition is_conflict :: "Error \<Rightarrow> bool" where
  "is_conflict e = (case e of Error.Conflict _ _ _ \<Rightarrow> True | _ \<Rightarrow> False)"

text \<open>Read, change and write, again while another client wins, at most \<open>n\<close> times.\<close>

fun update_children_n :: "nat \<Rightarrow> 'x outside \<Rightarrow> (ChildrenRecord \<Rightarrow> ('x, ChildrenRecord) hop) \<Rightarrow> ('x, unit) hop" where
  "update_children_n 0 E change = afail Error.Other"
| "update_children_n (Suc n) E change =
     abind (vault_children E) (\<lambda>(rec, pre).
     abind (change rec) (\<lambda>rec'.
     (\<lambda>s. case handle_put_children E rec' pre s of
        (Inr _, s') \<Rightarrow> (Inr (), s')
      | (Inl e, s') \<Rightarrow> if is_conflict e then update_children_n n E change s' else (Inl e, s'))))"

definition update_children :: "'x outside \<Rightarrow> (ChildrenRecord \<Rightarrow> ('x, ChildrenRecord) hop) \<Rightarrow> ('x, unit) hop" where
  "update_children E change = update_children_n 5 E change"

definition seal_child :: "'x outside \<Rightarrow> Segment \<Rightarrow> NodeKey \<Rightarrow> ('x, unit) hop" where
  "seal_child E g key =
     abind h_owner (\<lambda>o'.
     abind (hask hn_vault_id) (\<lambda>v.
     abind (hcall err_key (draw (seal_child_key (ou_prims E) (ok_box_pub o') v key))) (\<lambda>ct.
     update_children E (\<lambda>r.
       case child_set_mode r g (Sealed (B64 ct)) of
         Inr r' \<Rightarrow> aret r'
       | Inl _ \<Rightarrow>
           abind (hcall id (client_now E)) (\<lambda>now.
           alift (map_err (\<lambda>_. Error.Other)
             (child_insert r \<lparr>en_seg = g, en_created_at = now, en_mode = Sealed (B64 ct)\<rparr>)))))))"

section \<open>Creating and deleting\<close>

definition wants_proof :: "Capabilities option \<Rightarrow> bool" where
  "wants_proof caps = is_none_or (\<lambda>c. cp_proof_of_work c \<noteq> None) caps"

definition solve_challenge :: "'x outside \<Rightarrow> string \<Rightarrow> ('x api_state, Error, string option \<times> nat option) action" where
  "solve_challenge E label =
     abind (amap_err err_api (api_challenge E)) (\<lambda>answer.
     let c = an_value answer in
     abind (if ch_difficulty c > 16 then notify (Progress (ProofOfWork label (ch_difficulty c))) else aret ()) (\<lambda>_.
     abind (alift (map_err (\<lambda>_. Error.Other) (pow_solve (pr_crypto (ou_prims E)) (ch_challenge c) (ch_difficulty c)))) (\<lambda>nonce.
     aret (Some (ch_challenge c), Some nonce))))"

definition create_with_keys :: "'x outside \<Rightarrow> NodeKey \<Rightarrow> string \<Rightarrow> FullBundle \<Rightarrow> ('x api_state, Error, bool) action" where
  "create_with_keys E key label full =
     (let P = ou_prims E; o' = owner_from_node P key in
      if fb_generation full \<noteq> 1 then afail Error.Other
      else
        abind (amap_err err_api (api_capabilities E)) (\<lambda>caps.
        abind (amap_err err_api (require_protocol E)) (\<lambda>_.
        abind (if wants_proof caps then solve_challenge E label else aret (None, None)) (\<lambda>(challenge, nonce).
        abind (client_now E) (\<lambda>now.
        let d = full_descriptor P full (ok_vault_id o') (Hash32 (replicate 32 0)) now in
        abind (amap_err err_key (draw (seal_owner_bundle P o' full))) (\<lambda>ob.
        abind (alift (ok_or (sign_descriptor P o' d) Error.Other)) (\<lambda>sd.
        (\<lambda>s. case api_create_vault E o' \<lparr>cv_challenge = challenge, cv_nonce = nonce, cv_vault_id = ok_vault_id o',
               cv_owner_sign_pub = ok_sign_pub o', cv_owner_box_pub = ok_box_pub o', cv_descriptor = sd,
               cv_owner_bundle = ob\<rparr> s of
           (Inl e, s') \<Rightarrow> if api_error_code e = Some ErrorCode.Conflict then (Inr False, s') else (Inl (err_api e), s')
         | (Inr _, s') \<Rightarrow>
             abind (open_owner E key label) (\<lambda>h a.
               case handle_put_children E children_new Create \<lparr>se_api = a, se_handle = h\<rparr> of
                 (Inr _, t) \<Rightarrow> (Inr True, se_api t)
               | (Inl e, t) \<Rightarrow> (if is_conflict e then Inr True else Inl e, se_api t)) s'))))))))"

definition vault_create :: "'x outside \<Rightarrow> NodeKey \<Rightarrow> string \<Rightarrow> ('x api_state, Error, bool) action" where
  "vault_create E key label = abind (draw (full_generate (ou_prims E) 1)) (create_with_keys E key label)"

definition report_token :: "'x outside \<Rightarrow> TokenKeys \<Rightarrow> ('x api_state, Error, TokenId list) action" where
  "report_token E t =
     abind (client_now E) (\<lambda>ts.
     abind (amap_err err_api (api_report_token E \<lparr>rp_token_id = tk_id t, rp_ts = ts, rp_sig = token_sign_report (ou_prims E) t ts\<rparr>)) (\<lambda>a.
     aret (an_value a)))"

definition vault_delete_vault :: "'x outside \<Rightarrow> ('x, unit) hop" where
  "vault_delete_vault E =
     abind h_owner (\<lambda>o'. abind (hcall err_api (api_delete_vault E o')) (\<lambda>a. htake E a))"

section \<open>Tokens\<close>

definition vault_mint :: "'x outside \<Rightarrow> Scope \<Rightarrow> nat \<Rightarrow> NameHmac list option \<Rightarrow> ('x, TokenKeys \<times> (TokenId \<times> int)) hop" where
  "vault_mint E scope ttl allow_list =
     (let P = ou_prims E in
      abind h_owner (\<lambda>o'.
      abind (hask id) (\<lambda>h.
      abind (alift (view_full (hn_view h))) (\<lambda>full.
      abind (hcall id (draw (token_generate P (hn_vault_id h)))) (\<lambda>t.
      abind (hcall err_key (draw (seal_for_scope P o' (tk_box_pub t) (tk_id t) scope full))) (\<lambda>b.
      abind (hcall err_api (api_register_token E o' \<lparr>rt_token_id = tk_id t, rt_auth_pub = tk_auth_pub t,
        rt_box_pub = tk_box_pub t, rt_scope = scope, ttl_secs = ttl, rt_allow_list = allow_list,
        rt_generation = fb_generation full, rt_bundle = b\<rparr>)) (\<lambda>answer.
      abind (htake E answer) (\<lambda>r.
      aret (t, r)))))))))"

definition vault_revoke :: "'x outside \<Rightarrow> TokenId \<Rightarrow> ('x, TokenId list) hop" where
  "vault_revoke E t =
     abind (hask (\<lambda>h. holder_auth (hn_holder h))) (\<lambda>auth.
     abind (hcall err_api (api_revoke E auth t)) (\<lambda>a. htake E a))"

section \<open>Rotation\<close>

definition all_versions :: "'x outside \<Rightarrow> View \<Rightarrow> RecordKind \<Rightarrow> ('x session, Error, SecretVersion list) loop" where
  "all_versions E v kind =
     lbind (list_kind E v kind) (\<lambda>items.
     lbind (lcollect (\<lambda>it.
       ended (abind (versions_kind E v kind (it_name it)) (\<lambda>metas.
         acollect (\<lambda>m. fetch E v kind (it_name it) (Some (vm_version m))) metas))) items) (\<lambda>vs.
     ended (aret (concat vs))))"

definition rotate_once :: "'x outside \<Rightarrow> OwnerKeys \<Rightarrow> View \<Rightarrow> FullBundle \<Rightarrow> TokenId list \<Rightarrow> VaultStatus
    \<Rightarrow> SecretVersion list \<Rightarrow> SecretVersion list \<Rightarrow> ('x, ApiError + u32 Answer) hop" where
  "rotate_once E o' v full revoked status secrets configs =
     abind (hask hn_label) (\<lambda>label.
     abind (hcall id (client_now E)) (\<lambda>now.
     abind (hcall (\<lambda>e. err_seal e label) (draw (build_rotation (ou_prims E) o' status (vw_descriptor v) full secrets configs revoked now))) (\<lambda>rot.
     happly (api_rotate E o' (ro_request rot)))))"

fun rotate_n :: "nat \<Rightarrow> 'x outside \<Rightarrow> OwnerKeys \<Rightarrow> View \<Rightarrow> FullBundle \<Rightarrow> TokenId list \<Rightarrow> ('x session, Error, u32) loop" where
  "rotate_n 0 E o' v full revoked = ended (afail Error.Other)"
| "rotate_n (Suc n) E o' v full revoked =
     lbind (ended (refresh_status E)) (\<lambda>status.
     if vs_generation status \<noteq> d_generation (vw_descriptor v)
     then ended (abind (hask hn_label) (\<lambda>label. afail (Error.StaleGeneration label)))
     else (\<lambda>s.
       case lbind (all_versions E v RecordKind.Secret) (\<lambda>ss.
              lbind (all_versions E v RecordKind.Config) (\<lambda>cs. ended (aret (ss, cs)))) s of
         None \<Rightarrow> None
       | Some (Inl e, s') \<Rightarrow> if e = Error.NotFound then rotate_n n E o' v full revoked s' else Some (Inl e, s')
       | Some (Inr (ss, cs), s') \<Rightarrow>
           (case rotate_once E o' v full revoked status ss cs s' of
              (Inl e, s'') \<Rightarrow> Some (Inl e, s'')
            | (Inr (Inr a), s'') \<Rightarrow> Some (htake E a s'')
            | (Inr (Inl e), s'') \<Rightarrow>
                if api_error_code e = Some ErrorCode.Conflict then rotate_n n E o' v full revoked s''
                else Some (Inl (err_api e), s''))))"

definition vault_rotate :: "'x outside \<Rightarrow> TokenId list \<Rightarrow> ('x session, Error, u32) loop" where
  "vault_rotate E revoked =
     lbind (ended h_owner) (\<lambda>o'.
     lbind (ended (hask hn_view)) (\<lambda>v.
     lbind (ended (alift (view_full v))) (\<lambda>full.
     rotate_n 3 E o' v full revoked)))"

section \<open>The audit chain\<close>

definition handle_audit_page :: "'x outside \<Rightarrow> nat \<Rightarrow> ('x, AuditPageRead) hop" where
  "handle_audit_page E after =
     abind (hask (\<lambda>h. holder_auth (hn_holder h))) (\<lambda>auth.
     abind (happly (api_audit E auth after)) (\<lambda>r. case r of
       Inr a \<Rightarrow> htake E a
     | Inl e \<Rightarrow> if api_error_code e = Some ErrorCode.Forbidden then afail Error.Forbidden else afail (err_api e)))"

text \<open>Pages while they are full, readable and short of \<open>until\<close>; the server decides whether that ends.\<close>

partial_function (option) audit_pages ::
    "'x outside \<Rightarrow> nat option \<Rightarrow> AuditRow list \<Rightarrow> nat \<Rightarrow> 'x session
      \<Rightarrow> ((Error + (AuditRow list \<times> ChainHead option \<times> RowStop option)) \<times> 'x session) option" where
  [code]: "audit_pages E until rows after s =
     (case handle_audit_page E after s of
        (Inl e, s') \<Rightarrow> Some (Inl e, s')
      | (Inr page, s') \<Rightarrow>
          (let after' = (if ap_rows page = [] then after else unat (row_seq (last (ap_rows page))));
               rows' = rows @ ap_rows page in
           if ap_stop page \<noteq> None then Some (Inr (rows', ap_head page, ap_stop page), s')
           else if length (ap_rows page) < AUDIT_PAGE \<or> (case until of None \<Rightarrow> False | Some u \<Rightarrow> u \<le> after')
           then Some (Inr (rows', ap_head page, None), s')
           else audit_pages E until rows' after' s'))"

definition head_before :: "AuditRow list \<Rightarrow> ChainHead option" where
  "head_before rows = (case rows of
     [] \<Rightarrow> None
   | r # _ \<Rightarrow> if row_seq r > 1 then Some \<lparr>ch_seq = row_seq r - 1, ch_hash = row_prev r\<rparr> else None)"

record RawAudit =
  ra_rows :: "AuditRow list"
  ra_new_rows :: nat
  ra_head :: "ChainHead option"
  ra_names :: "NameHmac \<rightharpoonup> string"
  ra_unverifiable :: "RowStop option"

text \<open>Names this credential can list; a listing that fails gives none.\<close>

definition names_of :: "'x outside \<Rightarrow> RecordKind \<Rightarrow> ('x session, Error, (NameHmac \<times> string) list) loop" where
  "names_of E kind s = (case vault_list E kind s of
     None \<Rightarrow> None
   | Some (Inl _, s') \<Rightarrow> Some (Inr [], s')
   | Some (Inr items, s') \<Rightarrow> Some (Inr (map (\<lambda>it. (it_hmac it, it_name it)) items), s'))"

definition earlier_rows :: "'x outside \<Rightarrow> ChainHead option \<Rightarrow> nat \<Rightarrow> ('x session, Error, AuditRow list) loop" where
  "earlier_rows E known earlier = (case known of
     Some k \<Rightarrow>
       if 0 < earlier \<and> 0 < ch_seq k
       then
         lbind (audit_pages E (Some (unat (ch_seq k))) [] (unat (ch_seq k) - earlier)) (\<lambda>(served, _, _).
         let before = filter (\<lambda>r. row_seq r \<le> ch_seq k) served in
         if before = [] then ended (aret [])
         else
           lbind (ended (alift (map_err err_audit_chain (verify_chain (pr_crypto (ou_prims E)) (head_before before) before)))) (\<lambda>reached.
           if reached \<noteq> Some k then ended (afail (err_integrity (IntegrityError.BindingMismatch ''audit rows'')))
           else ended (aret before)))
       else ended (aret [])
   | None \<Rightarrow> ended (aret []))"

definition verify_audit :: "'x outside \<Rightarrow> ChainHead option \<Rightarrow> nat \<Rightarrow> ('x session, Error, RawAudit) loop" where
  "verify_audit E known earlier =
     lbind (audit_pages E None [] (case known of None \<Rightarrow> 0 | Some h \<Rightarrow> unat (ch_seq h))) (\<lambda>(rows, server_head, stop).
     lbind (ended (alift (map_err err_audit_chain (verify_rows (pr_crypto (ou_prims E)) known rows server_head stop)))) (\<lambda>verified.
     lbind (earlier_rows E known earlier) (\<lambda>shown.
     lbind (names_of E RecordKind.Secret) (\<lambda>secret_names.
     lbind (names_of E RecordKind.Config) (\<lambda>config_names.
     ended (aret \<lparr>ra_rows = shown @ rows, ra_new_rows = length rows, ra_head = vf_head verified,
       ra_names = map_of (rev (secret_names @ config_names)), ra_unverifiable = unverifiable verified\<rparr>))))))"

record AuditEntry =
  ae_seq :: u64
  ae_ts :: int
  ae_actor :: Actor
  ae_action :: string
  ae_name :: "string option"
  ae_refused :: bool

record Unverifiable =
  uv_from_seq :: "u64 option"
  uv_format :: u64

record AuditReport =
  rp_head :: "ChainHead option"
  rp_new_rows :: nat
  rp_entries :: "AuditEntry list"
  rp_unverifiable :: "Unverifiable option"

definition short_index :: "'x outside \<Rightarrow> NameHmac \<Rightarrow> string" where
  "short_index E n = take 8 (name_hex E n)"

definition audit_report :: "'x outside \<Rightarrow> RawAudit \<Rightarrow> AuditReport" where
  "audit_report E raw =
     \<lparr>rp_head = ra_head raw, rp_new_rows = ra_new_rows raw,
      rp_entries = map (\<lambda>r. \<lparr>ae_seq = row_seq r, ae_ts = row_ts r, ae_actor = row_actor r,
        ae_action = action_as_str (row_action r),
        ae_name = map_option (\<lambda>n. case ra_names raw n of Some s \<Rightarrow> s | None \<Rightarrow> ''#'' @ short_index E n) (row_name_hmac r),
        ae_refused = (row_result r = AuditResult.Refused)\<rparr>) (ra_rows raw),
      rp_unverifiable = (case ra_unverifiable raw of
        Some (NewerFormat q v) \<Rightarrow> Some \<lparr>uv_from_seq = q, uv_format = v\<rparr> | _ \<Rightarrow> None)\<rparr>"

text \<open>Verify from the recorded head, and record the new one only on success.\<close>

definition verify_recorded ::
    "'x outside \<Rightarrow> (string \<rightharpoonup> ChainHead) \<Rightarrow> nat \<Rightarrow> 'x session
      \<Rightarrow> (((Error + AuditReport) \<times> (string \<rightharpoonup> ChainHead)) \<times> 'x session) option" where
  "verify_recorded E heads earlier s =
     (let key = vault_id_to_hex (pr_crypto (ou_prims E)) (hn_vault_id (se_handle s)) in
      case verify_audit E (heads key) earlier s of
        None \<Rightarrow> None
      | Some (Inl e, s') \<Rightarrow> Some ((Inl e, heads), s')
      | Some (Inr raw, s') \<Rightarrow>
          (let rep = audit_report E raw in
           Some ((Inr rep, case rp_head rep of Some h \<Rightarrow> heads(key \<mapsto> h) | None \<Rightarrow> heads), s')))"

end
