(* ===== verification/Vault_Copy.thy ===== *)
theory Vault_Copy
  imports Vault_Owner
begin

text \<open>
  The copy of a vault's records into another (\<open>copy_from\<close> of \<open>vault.rs\<close>), an action on two handles. It lists the
  old vault, which may never end, so it is a loop.
\<close>

section \<open>Copying a vault\<close>

text \<open>Two handles of one API.\<close>

type_synonym 'x vaults = "'x api_state \<times> Handle \<times> Handle"

definition on_new :: "('x, 'a) hop \<Rightarrow> ('x vaults, Error, 'a) action" where
  "on_new m st = (case st of (a, n, old) \<Rightarrow> (case m \<lparr>se_api = a, se_handle = n\<rparr> of (r, s) \<Rightarrow> (r, se_api s, se_handle s, old)))"

definition on_old :: "('x, 'a) hop \<Rightarrow> ('x vaults, Error, 'a) action" where
  "on_old m st = (case st of (a, n, old) \<Rightarrow> (case m \<lparr>se_api = a, se_handle = old\<rparr> of (r, s) \<Rightarrow> (r, se_api s, n, se_handle s)))"

definition on_old_loop :: "('x session, Error, 'a) loop \<Rightarrow> ('x vaults, Error, 'a) loop" where
  "on_old_loop m st = (case st of (a, n, old) \<Rightarrow> (case m \<lparr>se_api = a, se_handle = old\<rparr> of
     None \<Rightarrow> None | Some (r, s) \<Rightarrow> Some (r, se_api s, n, se_handle s)))"

text \<open>A leading tombstone has nothing to delete.\<close>

definition copy_source :: "VersionMeta list \<Rightarrow> nat list" where
  "copy_source metas = map vm_version (dropWhile vm_tombstone metas)"

fun copy_versions ::
    "'x outside \<Rightarrow> View \<Rightarrow> View \<Rightarrow> RecordKind \<Rightarrow> string \<Rightarrow> Pre \<Rightarrow> nat list \<Rightarrow> ('x vaults, Error, nat) action" where
  "copy_versions E v ov kind name pre [] = aret 0"
| "copy_versions E v ov kind name pre (n # ns) =
     abind (on_old (fetch E ov kind name (Some n))) (\<lambda>raw.
     abind (on_old (abind (hask hn_label) (\<lambda>label. alift (open_record E ov kind raw label)))) (\<lambda>rec.
     abind (on_new (case or_value rec of
         Some body \<Rightarrow> write_value E v kind name (or_format rec) body pre (or_written_at rec)
       | None \<Rightarrow> vault_tombstone E v kind name pre (or_written_at rec))) (\<lambda>written.
     abind (copy_versions E v ov kind name (if or_value rec \<noteq> None then Update written else Revive written) ns) (\<lambda>k.
     aret (Suc k)))))"

definition copy_item :: "'x outside \<Rightarrow> View \<Rightarrow> View \<Rightarrow> RecordKind \<Rightarrow> string \<Rightarrow> ('x vaults, Error, nat) action" where
  "copy_item E v ov kind name =
     abind (on_old (versions_kind E ov kind name)) (\<lambda>metas.
     abind (on_new (versions_kind E v kind name)) (\<lambda>target.
     copy_versions E v ov kind name (pre_after (if target = [] then None else Some (last target)))
       (drop (length target) (copy_source metas))))"

definition copy_kind :: "'x outside \<Rightarrow> View \<Rightarrow> View \<Rightarrow> RecordKind \<Rightarrow> ('x vaults, Error, nat) loop" where
  "copy_kind E v ov kind =
     lbind (on_old_loop (list_kind E ov kind)) (\<lambda>items.
     ended (abind (acollect (\<lambda>i. copy_item E v ov kind (it_name i)) items) (\<lambda>ks. aret (sum_list ks))))"

definition copy_from :: "'x outside \<Rightarrow> ('x vaults, Error, nat) loop" where
  "copy_from E =
     lbind (ended (on_new (hask hn_view))) (\<lambda>v.
     lbind (ended (on_old (hask hn_view))) (\<lambda>ov.
     lbind (ended (alift (view_full v))) (\<lambda>_.
     lbind (ended (alift (view_full ov))) (\<lambda>_.
     lbind (copy_kind E v ov RecordKind.Secret) (\<lambda>n.
     lbind (copy_kind E v ov RecordKind.Config) (\<lambda>m. ended (aret (n + m))))))))"

end
