(* ===== verification/Vault_Safety.thy ===== *)
theory Vault_Safety
  imports Vault_Copy
begin

text \<open>
  What a handle guarantees whatever the server does. The locales state what a relation between a
  handle before and after must satisfy for every operation to keep it; they are interpreted for the
  operations that leave a handle's view and pins alone, and for the invariant of a handle together with
  the order its pins only ever move in.
\<close>

named_theorems keeping \<open>operations that keep a relation between handles\<close>

definition keeps :: "(Handle \<Rightarrow> Handle \<Rightarrow> bool) \<Rightarrow> ('x, 'a) hop \<Rightarrow> bool" where
  "keeps R m \<longleftrightarrow> (\<forall>s. R (se_handle s) (se_handle (snd (m s))))"

definition lkeeps :: "(Handle \<Rightarrow> Handle \<Rightarrow> bool) \<Rightarrow> ('x session, Error, 'a) loop \<Rightarrow> bool" where
  "lkeeps R m \<longleftrightarrow> (\<forall>s r s'. m s = Some (r, s') \<longrightarrow> R (se_handle s) (se_handle s'))"

lemma keepsD: "keeps R m \<Longrightarrow> m s = (r, s') \<Longrightarrow> R (se_handle s) (se_handle s')"
  by (metis keeps_def snd_conv)

lemma lkeepsD: "lkeeps R m \<Longrightarrow> m s = Some (r, s') \<Longrightarrow> R (se_handle s) (se_handle s')"
  by (simp add: lkeeps_def)

section \<open>Relations every quiet operation keeps\<close>

locale handle_relation =
  fixes R :: "Handle \<Rightarrow> Handle \<Rightarrow> bool"
  assumes refl: "R h h"
    and trans: "R h h' \<Longrightarrow> R h' h'' \<Longrightarrow> R h h''"
    and expiry: "R h (h\<lparr>hn_last_expires_at := t\<rparr>)"
    and warned: "R h (h\<lparr>hn_warned := True\<rparr>)"
begin

lemma aret_keeps [keeping]: "keeps R (aret a)" by (simp add: keeps_def refl)
lemma afail_keeps [keeping]: "keeps R (afail e)" by (simp add: keeps_def refl)
lemma alift_keeps [keeping]: "keeps R (alift r)" by (simp add: keeps_def refl)
lemma hask_keeps [keeping]: "keeps R (hask f)" by (simp add: keeps_def hask_def refl)
lemma h_owner_keeps [keeping]: "keeps R h_owner" by (simp add: keeps_def h_owner_def refl split: Holder.splits)
lemma happly_keeps [keeping]: "keeps R (happly m)" by (simp add: keeps_def happly_def refl split: prod.splits)

lemma abind_keeps [keeping]: "keeps R m \<Longrightarrow> (\<And>a. keeps R (f a)) \<Longrightarrow> keeps R (abind m f)"
proof -
  assume m: "keeps R m" and f: "\<And>a. keeps R (f a)"
  have "R (se_handle s) (se_handle (snd (abind m f s)))" for s
  proof -
    obtain r s1 where s1: "m s = (r, s1)" by (cases "m s")
    then have R1: "R (se_handle s) (se_handle s1)" by (rule keepsD [OF m])
    show ?thesis
    proof (cases r)
      case (Inl e)
      then show ?thesis using s1 R1 by (simp add: abind_def)
    next
      case (Inr a)
      then have "R (se_handle s1) (se_handle (snd (f a s1)))" using f by (simp add: keeps_def)
      then show ?thesis using s1 R1 Inr trans by (simp add: abind_def)
    qed
  qed
  then show ?thesis by (simp add: keeps_def)
qed

lemma sum_keeps [keeping]: "(\<And>e. keeps R (f e)) \<Longrightarrow> (\<And>a. keeps R (g a)) \<Longrightarrow> keeps R (case r of Inl e \<Rightarrow> f e | Inr a \<Rightarrow> g a)"
  by (cases r) simp_all

lemma option_keeps [keeping]: "keeps R f \<Longrightarrow> (\<And>a. keeps R (g a)) \<Longrightarrow> keeps R (case r of None \<Rightarrow> f | Some a \<Rightarrow> g a)"
  by (cases r) simp_all

lemma prod_keeps [keeping]: "(\<And>a b. keeps R (f a b)) \<Longrightarrow> keeps R (case p of (a, b) \<Rightarrow> f a b)"
  by (cases p) simp

lemma if_keeps [keeping]: "keeps R f \<Longrightarrow> keeps R g \<Longrightarrow> keeps R (if b then f else g)"
  by simp

lemma hcall_keeps [keeping]: "keeps R (hcall f m)"
  unfolding hcall_def by (intro keeping)

lemma note_expiry_keeps [keeping]: "keeps R (note_expiry E t)"
proof -
  have 1: "keeps R (hmod (\<lambda>h. h\<lparr>hn_last_expires_at := t\<rparr>))" for t by (simp add: keeps_def hmod_def expiry)
  have 2: "keeps R (hmod (\<lambda>h. h\<lparr>hn_warned := True\<rparr>))" by (simp add: keeps_def hmod_def warned)
  show ?thesis unfolding note_expiry_def by (intro keeping 1 2)
qed

lemma htake_keeps [keeping]: "keeps R (htake E a)"
  unfolding htake_def by (intro keeping)

lemma acollect_keeps [keeping]: "(\<And>x. keeps R (f x)) \<Longrightarrow> keeps R (acollect f xs)"
  by (induction xs) (auto intro!: keeping)

lemma descriptors_after_keeps [keeping]: "keeps R (handle_descriptors_after E after)"
  unfolding handle_descriptors_after_def by (intro keeping)

lemma check_descriptor_pin_keeps [keeping]: "keeps R (check_descriptor_pin E pin d)"
  unfolding check_descriptor_pin_def Let_def by (intro keeping)

lemma fetch_view_keeps [keeping]: "keeps R (fetch_view E)"
proof -
  have "keeps R (case x of OwnerHolder o' \<Rightarrow> f o' | TokenHolder t \<Rightarrow> g t)"
    if "\<And>o'. keeps R (f o')" "\<And>t. keeps R (g t)" for x and f :: "OwnerKeys \<Rightarrow> ('x, 'a) hop" and g
    using that by (cases x) simp_all
  then show ?thesis unfolding fetch_view_def by (auto intro!: keeping split: Holder.splits)
qed

lemma refresh_status_keeps [keeping]: "keeps R (refresh_status E)"
  unfolding refresh_status_def by (intro keeping)

lemma moved_on_keeps [keeping]: "keeps R (moved_on E v)"
proof -
  have "R (se_handle s) (se_handle (snd (moved_on E v s)))" for s
    using keepsD [OF refresh_status_keeps, of E s]
    by (cases "refresh_status E s") (auto simp: moved_on_def split: sum.splits)
  then show ?thesis by (simp add: keeps_def)
qed

lemma versions_kind_keeps [keeping]: "keeps R (versions_kind E v kind name)"
  unfolding versions_kind_def Let_def by (intro keeping)

lemma h_conflict_keeps [keeping]: "keeps R (h_conflict E v kind name pre :: ('x, 'a) hop)"
  unfolding h_conflict_def by (intro keeping)

lemma vault_children_keeps [keeping]: "keeps R (vault_children E)"
  unfolding vault_children_def by (intro keeping)

lemma put_children_keeps [keeping]: "keeps R (handle_put_children E rec pre)"
  unfolding handle_put_children_def Let_def by (intro keeping)

lemma update_children_keeps [keeping]:
  assumes "\<And>r. keeps R (change r)"
  shows "keeps R (update_children E change)"
proof -
  have "keeps R (update_children_n n E change)" for n
  proof (induction n)
    case 0
    show ?case unfolding update_children_n.simps by (rule afail_keeps)
  next
    case (Suc n)
    have "keeps R (\<lambda>s. case handle_put_children E rec' pre s of
        (Inr _, s') \<Rightarrow> (Inr (), s')
      | (Inl e, s') \<Rightarrow> if is_conflict e then update_children_n n E change s' else (Inl e, s'))" for rec' pre
      unfolding keeps_def
    proof
      fix s
      obtain r s1 where s1: "handle_put_children E rec' pre s = (r, s1)" by (cases "handle_put_children E rec' pre s")
      have "R (se_handle s) (se_handle s1)" by (rule keepsD [OF put_children_keeps s1])
      moreover have "R (se_handle s1) (se_handle (snd (update_children_n n E change s1)))"
        using Suc by (simp add: keeps_def)
      ultimately show "R (se_handle s) (se_handle (snd (case handle_put_children E rec' pre s of
        (Inr _, s') \<Rightarrow> (Inr (), s')
      | (Inl e, s') \<Rightarrow> if is_conflict e then update_children_n n E change s' else (Inl e, s'))))"
        using trans by (auto simp: s1 split: sum.splits)
    qed
    then show ?case using assms by (auto intro!: keeping)
  qed
  then show ?thesis by (simp add: update_children_def)
qed

lemma seal_child_keeps [keeping]: "keeps R (seal_child E g key)"
  unfolding seal_child_def by (intro keeping)

lemma delete_vault_keeps [keeping]: "keeps R (vault_delete_vault E)"
  unfolding vault_delete_vault_def by (intro keeping)

lemma mint_keeps [keeping]: "keeps R (vault_mint E scope ttl allow_list)"
  unfolding vault_mint_def Let_def by (intro keeping)

lemma revoke_keeps [keeping]: "keeps R (vault_revoke E t)"
  unfolding vault_revoke_def by (intro keeping)

lemma audit_page_keeps [keeping]: "keeps R (handle_audit_page E after)"
  unfolding handle_audit_page_def by (intro keeping)

end

section \<open>Two handles\<close>

text \<open>The same for an action on two handles, seen from one of them.\<close>

definition side_of :: "bool \<Rightarrow> 'x vaults \<Rightarrow> Handle" where
  "side_of new st = (if new then fst (snd st) else snd (snd st))"

definition vkeeps :: "bool \<Rightarrow> (Handle \<Rightarrow> Handle \<Rightarrow> bool) \<Rightarrow> ('x vaults, Error, 'a) action \<Rightarrow> bool" where
  "vkeeps new R m \<longleftrightarrow> (\<forall>st r st'. m st = (r, st') \<longrightarrow> R (side_of new st) (side_of new st'))"

definition lvkeeps :: "bool \<Rightarrow> (Handle \<Rightarrow> Handle \<Rightarrow> bool) \<Rightarrow> ('x vaults, Error, 'a) loop \<Rightarrow> bool" where
  "lvkeeps new R m \<longleftrightarrow> (\<forall>st r st'. m st = Some (r, st') \<longrightarrow> R (side_of new st) (side_of new st'))"

lemma lvkeepsD: "lvkeeps new R m \<Longrightarrow> m st = Some (r, st') \<Longrightarrow> R (side_of new st) (side_of new st')"
  unfolding lvkeeps_def by blast

section \<open>Relations every operation keeps\<close>

text \<open>
  \<open>OK\<close> is what an operation may assume of the handle it starts from, \<open>V\<close> of a view it works with, and
  \<open>W\<close> what is known of a version by the time it is pinned.
\<close>

locale pinning_relation = handle_relation R
  for R :: "Handle \<Rightarrow> Handle \<Rightarrow> bool" +
  fixes E :: "'x outside"
    and OK :: "Handle \<Rightarrow> bool"
    and V :: "View \<Rightarrow> bool"
    and W :: "RecordKind \<Rightarrow> NameHmac \<Rightarrow> nat \<Rightarrow> bool"
  assumes idle: "\<not> OK h \<Longrightarrow> R h h'"
    and view: "OK h \<Longrightarrow> V (hn_view h)"
    and pin: "W kind n q \<Longrightarrow> (\<And>k. pin_versions (hn_pins h) kind n = Some k \<Longrightarrow> k \<le> q)
      \<Longrightarrow> R h (h\<lparr>hn_pins := pin_version kind n q (hn_pins h)\<rparr>)"
    and listed: "V v \<Longrightarrow> verify_listed (ou_prims E) (vw_descriptor v) kind it = Inr () \<Longrightarrow> W kind (si_name_hmac it) (si_version it)"
    and version: "V v \<Longrightarrow> verify_version (ou_prims E) (vw_descriptor v) kind rec = Inr () \<Longrightarrow> W kind (sv_name_hmac rec) (sv_version rec)"
    and written: "V v \<Longrightarrow> writer_check (ou_prims E) (view_writer_for v wk) kind = Inr ()
      \<Longrightarrow> writer_finish (ou_prims E) (view_writer_for v wk) kind name ct ver at i = (Inr wr, j)
      \<Longrightarrow> W kind (wr_name_hmac wr) (wr_version wr)"
begin

lemma alift_bind_keeps: "(\<And>a. r = Inr a \<Longrightarrow> keeps R (f a)) \<Longrightarrow> keeps R (abind (alift r) f)"
  by (cases r) (auto simp: keeps_def abind_def refl)

lemma hask_bind_keeps: "(\<And>h. OK h \<Longrightarrow> keeps R (f (g h))) \<Longrightarrow> keeps R (abind (hask g) f)"
  using idle by (fastforce simp: keeps_def abind_def hask_def)

lemma drawn_bind_keeps:
  assumes "\<And>a i j. m i = (Inr a, j) \<Longrightarrow> keeps R (f a)"
  shows "keeps R (abind (hcall g (draw m)) f)"
  unfolding keeps_def
proof
  fix s
  show "R (se_handle s) (se_handle (snd (abind (hcall g (draw m)) f s)))"
  proof (cases "m (as_draws (se_api s))")
    case (Pair r j)
    show ?thesis
    proof (cases r)
      case (Inl e)
      then show ?thesis using Pair by (simp add: abind_def hcall_def happly_def draw_def refl)
    next
      case (Inr a)
      then have "keeps R (f a)" using assms Pair by blast
      then have "R (se_handle t) (se_handle (snd (f a t)))" for t by (simp add: keeps_def)
      from this [of "s\<lparr>se_api := (se_api s)\<lparr>as_draws := j\<rparr>\<rparr>"] show ?thesis
        using Pair Inr by (simp add: abind_def hcall_def happly_def draw_def)
    qed
  qed
qed

lemma check_version_keeps: "W kind n v \<Longrightarrow> keeps R (check_version kind n v)"
  unfolding keeps_def
proof
  fix s assume W: "W kind n v"
  show "R (se_handle s) (se_handle (snd (check_version kind n v s)))"
    using pin [OF W, of "se_handle s"] refl
    by (cases "pin_versions (hn_pins (se_handle s)) kind n") (simp_all add: check_version_def abind_def hask_def hmod_def)
qed

lemma list_item_keeps [keeping]: "V v \<Longrightarrow> keeps R (handle_list_item E v kind it)"
  unfolding handle_list_item_def Let_def
  by (rule abind_keeps [OF hask_keeps], rule alift_bind_keeps) (auto intro!: keeping check_version_keeps listed)

lemma list_page_keeps [keeping]: "V v \<Longrightarrow> keeps R (list_page E v kind after)"
  unfolding list_page_def by (intro keeping)

lemma fetched_keeps:
  assumes "V v"
  shows "keeps R (if sv_name_hmac rec \<noteq> index then afail (err_integrity (IntegrityError.BindingMismatch ''record index''))
    else case version of
      Some want \<Rightarrow>
        if sv_version rec \<noteq> want then afail (err_integrity (IntegrityError.BindingMismatch ''record version'')) else aret rec
    | None \<Rightarrow>
        abind (alift (map_err g (verify_version (ou_prims E) (vw_descriptor v) kind rec))) (\<lambda>_.
        abind (check_version kind index (sv_version rec)) (\<lambda>_. aret rec)))"
proof -
  have "keeps R (abind (alift (map_err g (verify_version (ou_prims E) (vw_descriptor v) kind rec))) (\<lambda>_.
      abind (check_version kind (sv_name_hmac rec) (sv_version rec)) (\<lambda>_. aret rec)))"
    by (rule alift_bind_keeps) (auto intro!: keeping check_version_keeps version [OF assms])
  then show ?thesis
    by (cases "sv_name_hmac rec = index"; cases version) (auto simp del: aret_run afail_run intro: aret_keeps afail_keeps)
qed

lemma fetch_keeps [keeping]: "V v \<Longrightarrow> keeps R (fetch E v kind name version)"
  unfolding fetch_def Let_def
  by (rule abind_keeps [OF hask_keeps], rule abind_keeps [OF happly_keeps], rule sum_keeps, intro keeping)
    (rule abind_keeps [OF htake_keeps], rule fetched_keeps)

lemma write_answer_keeps:
  "W (wr_kind rec) (wr_name_hmac rec) (wr_version rec) \<Longrightarrow> keeps R (write_answer E v name rec pre r)"
  unfolding write_answer_def by (intro keeping check_version_keeps)

lemma send_write_keeps:
  "W (wr_kind rec) (wr_name_hmac rec) (wr_version rec) \<Longrightarrow> keeps R (send_write E v name rec pre)"
  unfolding send_write_def by (intro keeping write_answer_keeps)

lemma finish_kind: "writer_finish P w kind name ct ver at i = (Inr wr, j) \<Longrightarrow> wr_kind wr = kind"
  by (auto simp: writer_finish_def Let_def abind_Inr)

lemma written_secret: "V v \<Longrightarrow> write_secret (ou_prims E) (view_writer_for v wk) name body ver at i = (Inr wr, j)
    \<Longrightarrow> W (wr_kind wr) (wr_name_hmac wr) (wr_version wr)"
  by (auto simp: write_secret_def abind_Inr finish_kind dest!: written)

lemma written_config: "V v \<Longrightarrow> write_config (ou_prims E) (view_writer_for v wk) name f body ver at i = (Inr wr, j)
    \<Longrightarrow> W (wr_kind wr) (wr_name_hmac wr) (wr_version wr)"
  by (auto simp: write_config_def abind_Inr finish_kind dest!: written)

lemma written_tombstone: "V v \<Longrightarrow> write_tombstone (ou_prims E) (view_writer_for v wk) kind name ver at i = (Inr wr, j)
    \<Longrightarrow> W (wr_kind wr) (wr_name_hmac wr) (wr_version wr)"
  by (auto simp: write_tombstone_def abind_Inr finish_kind dest!: written)

lemma write_value_keeps [keeping]: "V v \<Longrightarrow> keeps R (write_value E v kind name format body pre at)"
  unfolding write_value_def Let_def
proof (rule abind_keeps [OF hask_keeps], rule abind_keeps [OF alift_keeps], rule drawn_bind_keeps)
  fix label wk wr i j
  assume "V v" and "(case kind of
      RecordKind.Secret \<Rightarrow> write_secret (ou_prims E) (view_writer_for v wk) name body (pre_next_version pre) at
    | RecordKind.Config \<Rightarrow> write_config (ou_prims E) (view_writer_for v wk) name (case format of Some f \<Rightarrow> f | None \<Rightarrow> Text)
        body (pre_next_version pre) at) i = (Inr wr, j)"
  then show "keeps R (send_write E v name wr pre)"
    using written_secret written_config by (intro send_write_keeps) (cases kind; auto)
qed

lemma vault_tombstone_keeps [keeping]: "V v \<Longrightarrow> keeps R (vault_tombstone E v kind name pre at)"
  unfolding vault_tombstone_def
  by (rule abind_keeps [OF hask_keeps], rule abind_keeps [OF alift_keeps], rule drawn_bind_keeps)
    (auto intro: send_write_keeps written_tombstone)

lemma vault_get_keeps: "keeps R (vault_get E name ver)"
  unfolding vault_get_def Let_def by (rule hask_bind_keeps) (intro keeping, simp add: view)

lemma vault_get_config_keeps: "keeps R (vault_get_config E name ver)"
  unfolding vault_get_config_def Let_def by (rule hask_bind_keeps) (intro keeping, simp add: view)

lemma vault_put_keeps: "keeps R (vault_put E name val pre)"
  unfolding vault_put_def by (rule hask_bind_keeps) (intro keeping, simp add: view)

lemma vault_put_config_keeps: "keeps R (vault_put_config E name format body pre)"
  unfolding vault_put_config_def by (rule hask_bind_keeps) (intro keeping, simp add: view)

lemma vault_delete_keeps: "keeps R (vault_delete E kind name ver)"
  unfolding vault_delete_def by (rule hask_bind_keeps) (intro keeping, simp add: view)

text \<open>The operations that follow the server's pages.\<close>

lemma ended_keeps: "keeps R m \<Longrightarrow> lkeeps R (ended m)"
  by (auto simp: lkeeps_def dest: keepsD)

lemma lbind_keeps: "lkeeps R m \<Longrightarrow> (\<And>a. lkeeps R (f a)) \<Longrightarrow> lkeeps R (lbind m f)"
  by (fastforce simp: lkeeps_def lbind_def split: option.splits prod.splits sum.splits intro: trans)

lemma lcollect_keeps: "(\<And>x. lkeeps R (f x)) \<Longrightarrow> lkeeps R (lcollect f xs)"
  by (induction xs) (auto simp del: aret_run intro!: ended_keeps lbind_keeps aret_keeps)

lemma list_pages_keeps:
  assumes "V v" and "list_pages E v kind acc after s = Some (r, s')"
  shows "R (se_handle s) (se_handle s')"
proof -
  have "E = E \<longrightarrow> v = v \<longrightarrow> R (se_handle s) (se_handle (snd (r, s')))"
  proof (rule list_pages.raw_induct [where P = "\<lambda>E0 v0 kind0 acc0 after0 s0 y.
      E0 = E \<longrightarrow> v0 = v \<longrightarrow> R (se_handle s0) (se_handle (snd y))", OF _ assms(2)])
    fix pages E0 v0 kind0 acc0 after0 s0 y
    assume 1: "\<And>E0 v0 kind0 acc0 after0 s0 y. pages E0 v0 kind0 acc0 after0 s0 = Some y \<Longrightarrow>
        E0 = E \<longrightarrow> v0 = v \<longrightarrow> R (se_handle s0) (se_handle (snd y))"
      "(case list_page E0 v0 kind0 after0 s0 of
        (Inl e, s') \<Rightarrow> Some (Inl e, s')
      | (Inr (out, None), s') \<Rightarrow> Some (Inr (acc0 @ out), s')
      | (Inr (out, Some c), s') \<Rightarrow> pages E0 v0 kind0 (acc0 @ out) (Some c) s') = Some y"
    show "E0 = E \<longrightarrow> v0 = v \<longrightarrow> R (se_handle s0) (se_handle (snd y))"
    proof (intro impI)
      assume [simp]: "E0 = E" "v0 = v"
      obtain q s1 where q: "list_page E v kind0 after0 s0 = (q, s1)" by (cases "list_page E v kind0 after0 s0")
      have R1: "R (se_handle s0) (se_handle s1)" by (rule keepsD [OF list_page_keeps [OF assms(1)] q])
      show "R (se_handle s0) (se_handle (snd y))"
      proof (cases "\<exists>out c. q = Inr (out, Some c)")
        case True
        then obtain out c where "pages E v kind0 (acc0 @ out) (Some c) s1 = Some y" using 1(2) q by auto
        then have "R (se_handle s1) (se_handle (snd y))" using 1(1) by blast
        then show ?thesis by (rule trans [OF R1])
      next
        case False
        then have "snd y = s1" using 1(2) q by (auto split: sum.splits option.splits)
        then show ?thesis using R1 by simp
      qed
    qed
  qed
  then show ?thesis by simp
qed

lemma list_kind_keeps: "V v \<Longrightarrow> lkeeps R (list_kind E v kind)"
proof -
  assume "V v"
  then have "lkeeps R (list_pages E v kind [] None)" by (simp add: lkeeps_def list_pages_keeps)
  then show ?thesis unfolding list_kind_def by (intro lbind_keeps ended_keeps aret_keeps)
qed

lemma vault_list_keeps: "lkeeps R (vault_list E kind)"
  using list_kind_keeps view idle by (fastforce simp: lkeeps_def vault_list_def)

lemma all_versions_keeps: "V v \<Longrightarrow> lkeeps R (all_versions E v kind)"
  unfolding all_versions_def by (intro lbind_keeps lcollect_keeps ended_keeps list_kind_keeps keeping)

lemma rotate_once_keeps: "keeps R (rotate_once E o' v full revoked status ss cs)"
  unfolding rotate_once_def by (intro keeping)

lemma rotate_n_keeps: "V v \<Longrightarrow> lkeeps R (rotate_n n E o' v full revoked)"
proof (induction n)
  case 0
  show ?case unfolding rotate_n.simps by (intro ended_keeps afail_keeps)
next
  case (Suc n)
  let ?g = "lbind (all_versions E v RecordKind.Secret) (\<lambda>ss.
    lbind (all_versions E v RecordKind.Config) (\<lambda>cs. ended (aret (ss, cs))))"
  have g: "lkeeps R ?g" using Suc.prems by (intro lbind_keeps all_versions_keeps ended_keeps aret_keeps)
  have loop: "R (se_handle a) (se_handle b) \<Longrightarrow> rotate_n n E o' v full revoked b = Some (r, c) \<Longrightarrow> R (se_handle a) (se_handle c)" for a b c r
    using Suc lkeepsD trans by blast
  have "lkeeps R (\<lambda>s. case ?g s of
         None \<Rightarrow> None
       | Some (Inl e, s') \<Rightarrow> if e = Error.NotFound then rotate_n n E o' v full revoked s' else Some (Inl e, s')
       | Some (Inr (ss, cs), s') \<Rightarrow>
           (case rotate_once E o' v full revoked status ss cs s' of
              (Inl e, s'') \<Rightarrow> Some (Inl e, s'')
            | (Inr (Inr a), s'') \<Rightarrow> Some (htake E a s'')
            | (Inr (Inl e), s'') \<Rightarrow>
                if api_error_code e = Some ErrorCode.Conflict then rotate_n n E o' v full revoked s''
                else Some (Inl (err_api e), s'')))" for status
    unfolding lkeeps_def
  proof (intro allI impI)
    fix s r s'
    assume run: "(case ?g s of
         None \<Rightarrow> None
       | Some (Inl e, s') \<Rightarrow> if e = Error.NotFound then rotate_n n E o' v full revoked s' else Some (Inl e, s')
       | Some (Inr (ss, cs), s') \<Rightarrow>
           (case rotate_once E o' v full revoked status ss cs s' of
              (Inl e, s'') \<Rightarrow> Some (Inl e, s'')
            | (Inr (Inr a), s'') \<Rightarrow> Some (htake E a s'')
            | (Inr (Inl e), s'') \<Rightarrow>
                if api_error_code e = Some ErrorCode.Conflict then rotate_n n E o' v full revoked s''
                else Some (Inl (err_api e), s''))) = Some (r, s')"
    then obtain q s1 where q: "?g s = Some (q, s1)" by (cases "?g s") auto
    have R1: "R (se_handle s) (se_handle s1)" by (rule lkeepsD [OF g q])
    show "R (se_handle s) (se_handle s')"
    proof (cases q)
      case (Inl e)
      then show ?thesis using run q R1 loop by (auto split: if_splits)
    next
      case (Inr p)
      obtain ss cs where p: "p = (ss, cs)" by (cases p)
      obtain w s2 where w: "rotate_once E o' v full revoked status ss cs s1 = (w, s2)"
        by (cases "rotate_once E o' v full revoked status ss cs s1")
      have R2: "R (se_handle s) (se_handle s2)" using keepsD [OF rotate_once_keeps w] R1 trans by blast
      have take: "htake E a s2 = (x, t) \<Longrightarrow> R (se_handle s) (se_handle t)" for a x t
        by (rule trans [OF R2 keepsD [OF htake_keeps]])
      show ?thesis
        using run q Inr p w R2 loop take by (auto split: sum.splits if_splits)
    qed
  qed
  then show ?case
    unfolding rotate_n.simps by (auto intro!: lbind_keeps ended_keeps refresh_status_keeps abind_keeps hask_keeps afail_keeps)
qed

lemma vault_rotate_keeps: "lkeeps R (vault_rotate E revoked)"
proof -
  have "lkeeps R (lbind (ended (hask hn_view)) (\<lambda>v. lbind (ended (alift (view_full v))) (\<lambda>full. rotate_n 3 E o' v full revoked)))" for o'
  proof -
    have "R (se_handle s) (se_handle s')"
      if run: "lbind (ended (hask hn_view)) (\<lambda>v. lbind (ended (alift (view_full v))) (\<lambda>full. rotate_n 3 E o' v full revoked)) s = Some (r, s')"
      for s r s'
    proof (cases "OK (se_handle s)")
      case True
      then have "lkeeps R (lbind (ended (alift (view_full (hn_view (se_handle s))))) (\<lambda>full. rotate_n 3 E o' (hn_view (se_handle s)) full revoked))"
        by (intro lbind_keeps ended_keeps alift_keeps rotate_n_keeps view)
      then show ?thesis using run by (auto simp: lbind_def [of "ended (hask hn_view)"] hask_def dest: lkeepsD)
    qed (rule idle)
    then show ?thesis by (simp add: lkeeps_def)
  qed
  then show ?thesis unfolding vault_rotate_def by (rule lbind_keeps [OF ended_keeps [OF h_owner_keeps]])
qed

lemma audit_pages_keeps:
  assumes "audit_pages E0 until rows after s = Some (r, s')"
  shows "R (se_handle s) (se_handle s')"
proof -
  have "R (se_handle s) (se_handle (snd (r, s')))"
  proof (rule audit_pages.raw_induct [where P = "\<lambda>E0 until0 rows0 after0 s0 y. R (se_handle s0) (se_handle (snd y))", OF _ assms])
    fix pages E0 until0 rows0 after0 s0 y
    assume 1: "\<And>E0 until0 rows0 after0 s0 y. pages E0 until0 rows0 after0 s0 = Some y \<Longrightarrow> R (se_handle s0) (se_handle (snd y))"
      "(case handle_audit_page E0 after0 s0 of
        (Inl e, s') \<Rightarrow> Some (Inl e, s')
      | (Inr page, s') \<Rightarrow>
          (let after' = (if ap_rows page = [] then after0 else unat (row_seq (last (ap_rows page))));
               rows' = rows0 @ ap_rows page in
           if ap_stop page \<noteq> None then Some (Inr (rows', ap_head page, ap_stop page), s')
           else if length (ap_rows page) < AUDIT_PAGE \<or> (case until0 of None \<Rightarrow> False | Some u \<Rightarrow> u \<le> after')
           then Some (Inr (rows', ap_head page, None), s')
           else pages E0 until0 rows' after' s')) = Some y"
    obtain q s1 where q: "handle_audit_page E0 after0 s0 = (q, s1)" by (cases "handle_audit_page E0 after0 s0")
    have R1: "R (se_handle s0) (se_handle s1)" by (rule keepsD [OF audit_page_keeps q])
    have "snd y = s1 \<or> (\<exists>rows' after'. pages E0 until0 rows' after' s1 = Some y)"
      using 1(2) q by (auto simp: Let_def split: sum.splits if_splits)
    then show "R (se_handle s0) (se_handle (snd y))" using R1 1(1) trans [OF R1] by blast
  qed
  then show ?thesis by simp
qed

lemma audit_loop_keeps: "lkeeps R (audit_pages E0 until rows after)"
  unfolding lkeeps_def by (intro allI impI) (rule audit_pages_keeps)

lemma earlier_rows_keeps: "lkeeps R (earlier_rows E0 known earlier)"
  unfolding earlier_rows_def Let_def
  by (auto split: option.splits simp del: aret_run afail_run alift_run
    intro!: lbind_keeps ended_keeps aret_keeps afail_keeps alift_keeps audit_loop_keeps)

lemma names_of_keeps: "lkeeps R (names_of E kind)"
  using vault_list_keeps by (fastforce simp: lkeeps_def names_of_def split: option.splits sum.splits prod.splits)

lemma verify_audit_keeps: "lkeeps R (verify_audit E known earlier)"
  unfolding verify_audit_def
  by (rule lbind_keeps [OF audit_loop_keeps])
    (auto simp del: aret_run alift_run intro!: lbind_keeps ended_keeps aret_keeps alift_keeps earlier_rows_keeps names_of_keeps)

text \<open>A copy, seen from either handle.\<close>

lemma aret_vkeeps: "vkeeps new R (aret a)" by (simp add: vkeeps_def refl)
lemma alift_vkeeps: "vkeeps new R (alift r)" by (simp add: vkeeps_def refl)

lemma abind_vkeeps: "vkeeps new R m \<Longrightarrow> (\<And>a. vkeeps new R (f a)) \<Longrightarrow> vkeeps new R (abind m f)"
  by (fastforce simp: vkeeps_def abind_def split: prod.splits sum.splits intro: trans)

lemma acollect_vkeeps: "(\<And>x. vkeeps new R (f x)) \<Longrightarrow> vkeeps new R (acollect f xs)"
  by (induction xs) (auto simp del: aret_run intro!: abind_vkeeps aret_vkeeps)

lemma ended_lvkeeps: "vkeeps new R m \<Longrightarrow> lvkeeps new R (ended m)"
  by (simp add: vkeeps_def lvkeeps_def)

lemma lbind_lvkeeps: "lvkeeps new R m \<Longrightarrow> (\<And>a. lvkeeps new R (f a)) \<Longrightarrow> lvkeeps new R (lbind m f)"
  by (fastforce simp: lvkeeps_def lbind_def split: option.splits prod.splits sum.splits intro: trans)

lemma on_new_vkeeps: "(new \<Longrightarrow> keeps R m) \<Longrightarrow> vkeeps new R (on_new m)"
  by (fastforce simp: vkeeps_def on_new_def side_of_def refl split: prod.splits dest: keepsD)

lemma on_old_vkeeps: "(\<not> new \<Longrightarrow> keeps R m) \<Longrightarrow> vkeeps new R (on_old m)"
  by (fastforce simp: vkeeps_def on_old_def side_of_def refl split: prod.splits dest: keepsD)

lemma on_old_loop_vkeeps: "(\<not> new \<Longrightarrow> lkeeps R m) \<Longrightarrow> lvkeeps new R (on_old_loop m)"
  by (fastforce simp: lvkeeps_def on_old_loop_def side_of_def refl split: prod.splits option.splits dest: lkeepsD)

lemmas vkeeping = aret_vkeeps alift_vkeeps abind_vkeeps acollect_vkeeps ended_lvkeeps lbind_lvkeeps on_new_vkeeps on_old_vkeeps
  on_old_loop_vkeeps

lemma copy_versions_vkeeps:
  assumes "V (if new then v else ov)"
  shows "vkeeps new R (copy_versions E v ov kind name pre ns)"
proof (induction ns arbitrary: pre)
  case Nil
  then show ?case by (simp add: aret_vkeeps del: aret_run)
next
  case (Cons n ns)
  show ?case
    unfolding copy_versions.simps
    by (intro vkeeping Cons.IH keeping) (use assms in simp_all)
qed

lemma copy_kind_vkeeps:
  assumes "V (if new then v else ov)"
  shows "lvkeeps new R (copy_kind E v ov kind)"
  unfolding copy_kind_def copy_item_def
  by (intro vkeeping copy_versions_vkeeps [OF assms] list_kind_keeps keeping) (use assms in simp_all)

lemma copy_from_keeps:
  assumes "copy_from E st = Some (r, st')"
  shows "R (side_of new st) (side_of new st')"
proof (cases "OK (side_of new st)")
  case True
  let ?v = "hn_view (side_of True st)" and ?ov = "hn_view (side_of False st)"
  let ?copy = "lbind (ended (alift (view_full ?v))) (\<lambda>_. lbind (ended (alift (view_full ?ov))) (\<lambda>_.
     lbind (copy_kind E ?v ?ov RecordKind.Secret) (\<lambda>n.
     lbind (copy_kind E ?v ?ov RecordKind.Config) (\<lambda>m. ended (aret (n + m))))))"
  have "on_new (hask hn_view) st = (Inr ?v, st)" "on_old (hask hn_view) st = (Inr ?ov, st)"
    by (simp_all add: on_new_def on_old_def hask_def side_of_def split: prod.splits)
  then have run: "?copy st = Some (r, st')"
    using assms by (simp add: copy_from_def lbind_def [of "ended (on_new (hask hn_view))"] lbind_def [of "ended (on_old (hask hn_view))"])
  have "V (if new then ?v else ?ov)" using view [OF True] by (cases new) simp_all
  then have "lvkeeps new R ?copy" by (intro vkeeping copy_kind_vkeeps)
  from lvkeepsD [OF this run] show ?thesis .
qed (rule idle)

end

end
