(* ===== verification/Vault_Guarded.thy ===== *)
theory Vault_Guarded
  imports Vault_Safety
begin

text \<open>
  The safety of a handle against any server: its invariant, how its pins may move, that opening
  establishes the invariant, and that every operation keeps it and moves the pins only forward, along
  what the owner and the writers signed.
\<close>

section \<open>What is signed\<close>

definition descriptor_signed :: "crypto \<Rightarrow> VaultId \<Rightarrow> Key32 \<Rightarrow> Descriptor \<Rightarrow> bool" where
  "descriptor_signed c vault pub d \<longleftrightarrow> from_owner_sign_pub c pub = vault \<and> d_vault_id d = vault
     \<and> (\<exists>sig. ed25519_verify c (k32 pub) (descriptor_signing_input d) sig)"

definition signed_version :: "crypto \<Rightarrow> VaultId \<Rightarrow> Key32 \<Rightarrow> RecordKind \<Rightarrow> NameHmac \<Rightarrow> nat \<Rightarrow> bool" where
  "signed_version c vault pub kind n q \<longleftrightarrow> (\<exists>d x sig. descriptor_signed c vault pub d
     \<and> rc_vault_id x = vault \<and> rc_generation x = d_generation d \<and> rc_kind x = kind \<and> name_index x = n \<and> rc_version x = q
     \<and> ed25519_verify c (k32 (writer_pub_of d kind)) (record_signing_input x) sig)"

text \<open>One generation to the next, as the owner signed it.\<close>

definition succeeds :: "crypto \<Rightarrow> VaultId \<Rightarrow> Key32 \<Rightarrow> DescriptorPin \<Rightarrow> DescriptorPin \<Rightarrow> bool" where
  "succeeds c vault pub p p' \<longleftrightarrow> (\<exists>d. descriptor_signed c vault pub d \<and> d_generation d = dp_generation p + 1
     \<and> prev_hash d = dp_hash p \<and> p' = pin_of c d)"

definition linked :: "crypto \<Rightarrow> VaultId \<Rightarrow> Key32 \<Rightarrow> DescriptorPin \<Rightarrow> DescriptorPin \<Rightarrow> bool" where
  "linked c vault pub p p' \<longleftrightarrow> dp_generation p \<le> dp_generation p' \<and> (succeeds c vault pub)\<^sup>*\<^sup>* p p'"

lemma linked_refl: "linked c vault pub p p"
  by (simp add: linked_def)

lemma linked_trans: "linked c vault pub p q \<Longrightarrow> linked c vault pub q r \<Longrightarrow> linked c vault pub p r"
  unfolding linked_def by (meson order_trans rtranclp_trans)

lemma verify_for_signed: "verify_for c sd vault pub = Inr d \<Longrightarrow> descriptor_signed c vault pub d"
  by (auto simp: verify_for_def signed_descriptor_verify_def descriptor_signed_def rbind_eq_Inr verify_ed25519_def split: if_splits)

lemma version_signed:
  assumes "descriptor_signed (pr_crypto P) vault pub d" and "verify_version P d kind v = Inr ()"
  shows "signed_version (pr_crypto P) vault pub kind (sv_name_hmac v) (sv_version v)"
  unfolding signed_version_def using assms
  by (intro exI [of _ d] exI [of _ "version_context P d kind v"] exI [of _ "s64 (sv_sig v)"])
    (auto simp: verify_version_ok descriptor_signed_def version_context_def record_context_def)

lemma listed_signed:
  assumes "descriptor_signed (pr_crypto P) vault pub d" and "verify_listed P d kind it = Inr ()"
  shows "signed_version (pr_crypto P) vault pub kind (si_name_hmac it) (si_version it)"
proof -
  let ?x = "\<lparr>rc_vault_id = d_vault_id d, rc_generation = si_generation it, rc_kind = kind, name_index = si_name_hmac it,
    rc_version = si_version it, rc_written_at = si_written_at it, rc_tombstone = si_tombstone it,
    value_ct_hash = si_value_ct_hash it, name_ct_hash = hash_sha256 (pr_crypto P) (b64 (si_name_ct it))\<rparr>"
  show ?thesis
    unfolding signed_version_def using assms
    by (intro exI [of _ d] exI [of _ ?x] exI [of _ "s64 (si_sig it)"]) (auto simp: verify_listed_ok descriptor_signed_def)
qed

lemma written_signed:
  assumes "signing_ok P" and "descriptor_signed (pr_crypto P) vault pub (w_descriptor w)"
    and "writer_check P w kind = Inr ()" and "writer_finish P w kind name ct ver at i = (Inr r, j)"
  shows "signed_version (pr_crypto P) vault pub kind (wr_name_hmac r) (wr_version r)"
  using version_signed [OF assms(2) finish_verifies [OF assms(1,3,4), of "Known Actor.Owner"]] by (simp add: served_def)

lemma view_written_signed:
  assumes "descriptor_signed (pr_crypto P) vault pub (vw_descriptor v)" and "signing_ok P"
    and "writer_check P (view_writer_for v wk) kind = Inr ()"
    and "writer_finish P (view_writer_for v wk) kind name ct ver at i = (Inr r, j)"
  shows "signed_version (pr_crypto P) vault pub kind (wr_name_hmac r) (wr_version r)"
  using written_signed [OF assms(2) _ assms(3,4)] assms(1) by (simp add: view_writer_for_def)

section \<open>The invariant of a handle\<close>

definition holder_ok :: "Handle \<Rightarrow> bool" where
  "holder_ok h \<longleftrightarrow> (case hn_holder h of
     OwnerHolder o' \<Rightarrow> ok_vault_id o' = hn_vault_id h \<and> ok_sign_pub o' = hn_owner_sign_pub h
   | TokenHolder t \<Rightarrow> tk_vault_id t = hn_vault_id h)"

definition view_ok :: "primitives \<Rightarrow> VaultId \<Rightarrow> Key32 \<Rightarrow> View \<Rightarrow> bool" where
  "view_ok P vault pub v \<longleftrightarrow> descriptor_signed (pr_crypto P) vault pub (vw_descriptor v) \<and> bundle_matches P (vw_bundle v) (vw_descriptor v)"

definition handle_inv :: "primitives \<Rightarrow> Handle \<Rightarrow> bool" where
  "handle_inv P h \<longleftrightarrow> holder_ok h \<and> view_ok P (hn_vault_id h) (hn_owner_sign_pub h) (hn_view h)
     \<and> pi_descriptor (hn_pins h) = Some (pin_of (pr_crypto P) (vw_descriptor (hn_view h)))"

text \<open>The same holder of the same vault, with pins that only moved forward.\<close>

definition same_identity :: "Handle \<Rightarrow> Handle \<Rightarrow> bool" where
  "same_identity h h' \<longleftrightarrow> hn_holder h' = hn_holder h \<and> hn_label h' = hn_label h
     \<and> hn_vault_id h' = hn_vault_id h \<and> hn_owner_sign_pub h' = hn_owner_sign_pub h"

definition pins_advance :: "crypto \<Rightarrow> Handle \<Rightarrow> Handle \<Rightarrow> bool" where
  "pins_advance c h h' \<longleftrightarrow>
     (\<forall>p. pi_descriptor (hn_pins h) = Some p \<longrightarrow>
        (\<exists>p'. pi_descriptor (hn_pins h') = Some p' \<and> linked c (hn_vault_id h) (hn_owner_sign_pub h) p p'))
     \<and> (\<forall>kind n q. pin_versions (hn_pins h) kind n = Some q \<longrightarrow>
        (\<exists>q'. pin_versions (hn_pins h') kind n = Some q' \<and> q \<le> q'))"

lemma pins_advance_refl: "hn_pins h' = hn_pins h \<Longrightarrow> pins_advance c h h'"
  by (simp add: pins_advance_def linked_refl)

lemma pins_advance_trans:
  assumes "same_identity h h'" and "pins_advance c h h'" and "pins_advance c h' h''"
  shows "pins_advance c h h''"
proof -
  have "hn_vault_id h' = hn_vault_id h" "hn_owner_sign_pub h' = hn_owner_sign_pub h"
    using assms(1) by (simp_all add: same_identity_def)
  note id = this
  show ?thesis
    unfolding pins_advance_def
  proof (intro conjI allI impI)
    fix p assume "pi_descriptor (hn_pins h) = Some p"
    then obtain p' where p': "pi_descriptor (hn_pins h') = Some p'" "linked c (hn_vault_id h) (hn_owner_sign_pub h) p p'"
      using assms(2) unfolding pins_advance_def by blast
    then show "\<exists>p'. pi_descriptor (hn_pins h'') = Some p' \<and> linked c (hn_vault_id h) (hn_owner_sign_pub h) p p'"
      using assms(3) linked_trans unfolding pins_advance_def id by blast
  next
    fix kind n q assume "pin_versions (hn_pins h) kind n = Some q"
    then obtain q' where "pin_versions (hn_pins h') kind n = Some q'" "q \<le> q'"
      using assms(2) unfolding pins_advance_def by blast
    then show "\<exists>q'. pin_versions (hn_pins h'') kind n = Some q' \<and> q \<le> q'"
      using assms(3) order_trans unfolding pins_advance_def by blast
  qed
qed

text \<open>A version pinned since was signed by a writer of an owner-signed generation.\<close>

definition new_pins_signed :: "crypto \<Rightarrow> Handle \<Rightarrow> Handle \<Rightarrow> bool" where
  "new_pins_signed c h h' \<longleftrightarrow> (\<forall>kind n q. pin_versions (hn_pins h') kind n = Some q \<longrightarrow>
     pin_versions (hn_pins h) kind n = Some q \<or> signed_version c (hn_vault_id h) (hn_owner_sign_pub h) kind n q)"

definition safely :: "primitives \<Rightarrow> VaultId \<Rightarrow> Key32 \<Rightarrow> Handle \<Rightarrow> Handle \<Rightarrow> bool" where
  "safely P vault pub h h' \<longleftrightarrow> (signing_ok P \<longrightarrow> handle_inv P h \<longrightarrow> hn_vault_id h = vault \<longrightarrow> hn_owner_sign_pub h = pub \<longrightarrow>
     handle_inv P h' \<and> same_identity h h' \<and> pins_advance (pr_crypto P) h h' \<and> new_pins_signed (pr_crypto P) h h')"

lemma pin_versions_pin_version [simp]:
  "pin_versions (pin_version kind n q p) kind' n' = (if kind' = kind \<and> n' = n then Some q else pin_versions p kind' n')"
  by (cases kind; cases kind') simp_all

lemma pi_descriptor_pin_version [simp]: "pi_descriptor (pin_version kind n q p) = pi_descriptor p"
  by (cases kind) simp_all

lemma holder_ok_update [simp]: "holder_ok (h\<lparr>hn_pins := p\<rparr>) = holder_ok h" "holder_ok (h\<lparr>hn_view := v\<rparr>) = holder_ok h"
  by (simp_all add: holder_ok_def split: Holder.splits)

section \<open>The interfaces, for the handle\<close>

definition untouched :: "Handle \<Rightarrow> Handle \<Rightarrow> bool" where
  "untouched h h' \<longleftrightarrow> same_identity h h' \<and> hn_view h' = hn_view h \<and> hn_pins h' = hn_pins h"

interpretation quiet: handle_relation untouched
  by unfold_locales (auto simp: untouched_def same_identity_def)

lemma untouched_inv:
  assumes "untouched h h'"
  shows "handle_inv P h' = handle_inv P h"
proof -
  have eqs: "hn_holder h' = hn_holder h" "hn_vault_id h' = hn_vault_id h" "hn_owner_sign_pub h' = hn_owner_sign_pub h"
    "hn_view h' = hn_view h" "hn_pins h' = hn_pins h"
    using assms by (simp_all add: untouched_def same_identity_def)
  show ?thesis unfolding handle_inv_def holder_ok_def eqs by (rule refl)
qed

lemma safely_untouched:
  assumes "untouched h h'"
  shows "safely P vault pub h h'"
  using assms pins_advance_refl [of h' h] untouched_inv [OF assms] by (simp add: safely_def untouched_def new_pins_signed_def)

lemma safely_trans: "safely P vault pub h h' \<Longrightarrow> safely P vault pub h' h'' \<Longrightarrow> safely P vault pub h h''"
  unfolding safely_def
proof (intro impI)
  let ?c = "pr_crypto P"
  assume 1: "signing_ok P \<longrightarrow> handle_inv P h \<longrightarrow> hn_vault_id h = vault \<longrightarrow> hn_owner_sign_pub h = pub \<longrightarrow>
      handle_inv P h' \<and> same_identity h h' \<and> pins_advance ?c h h' \<and> new_pins_signed ?c h h'"
    and 2: "signing_ok P \<longrightarrow> handle_inv P h' \<longrightarrow> hn_vault_id h' = vault \<longrightarrow> hn_owner_sign_pub h' = pub \<longrightarrow>
      handle_inv P h'' \<and> same_identity h' h'' \<and> pins_advance ?c h' h'' \<and> new_pins_signed ?c h' h''"
    and ok: "signing_ok P" "handle_inv P h" "hn_vault_id h = vault" "hn_owner_sign_pub h = pub"
  have h': "handle_inv P h'" "same_identity h h'" "pins_advance ?c h h'" "new_pins_signed ?c h h'" using 1 ok by blast+
  have id: "hn_vault_id h' = vault" "hn_owner_sign_pub h' = pub" using h'(2) ok by (simp_all add: same_identity_def)
  then have h'': "handle_inv P h''" "same_identity h' h''" "pins_advance ?c h' h''" "new_pins_signed ?c h' h''"
    using 2 ok(1) h'(1) by blast+
  have "same_identity h h''" using h'(2) h''(2) by (simp add: same_identity_def)
  moreover have "new_pins_signed ?c h h''" using h'(4) h''(4) unfolding new_pins_signed_def id ok(3,4) by blast
  ultimately show "handle_inv P h'' \<and> same_identity h h'' \<and> pins_advance ?c h h'' \<and> new_pins_signed ?c h h''"
    using h''(1) pins_advance_trans [OF h'(2,3) h''(3)] by blast
qed

lemma safely_pin:
  assumes "signing_ok P \<longrightarrow> signed_version (pr_crypto P) vault pub kind n q"
    and "\<And>k. pin_versions (hn_pins h) kind n = Some k \<Longrightarrow> k \<le> q"
  shows "safely P vault pub h (h\<lparr>hn_pins := pin_version kind n q (hn_pins h)\<rparr>)"
  using assms by (auto simp: safely_def handle_inv_def same_identity_def pins_advance_def linked_refl new_pins_signed_def)

interpretation guard: pinning_relation "safely (ou_prims E) vault pub" E
    "\<lambda>h. signing_ok (ou_prims E) \<and> handle_inv (ou_prims E) h \<and> hn_vault_id h = vault \<and> hn_owner_sign_pub h = pub"
    "\<lambda>v. descriptor_signed (pr_crypto (ou_prims E)) vault pub (vw_descriptor v)"
    "\<lambda>kind n q. signing_ok (ou_prims E) \<longrightarrow> signed_version (pr_crypto (ou_prims E)) vault pub kind n q"
  for E :: "'x outside" and vault pub
proof unfold_locales
  show "safely (ou_prims E) vault pub h h" for h by (rule safely_untouched) (simp add: quiet.refl)
  show "safely (ou_prims E) vault pub h (h\<lparr>hn_last_expires_at := t\<rparr>)" for h t by (rule safely_untouched [OF quiet.expiry])
  show "safely (ou_prims E) vault pub h (h\<lparr>hn_warned := True\<rparr>)" for h by (rule safely_untouched [OF quiet.warned])
next
  fix h h' h'' assume "safely (ou_prims E) vault pub h h'" "safely (ou_prims E) vault pub h' h''"
  then show "safely (ou_prims E) vault pub h h''" by (rule safely_trans)
next
  fix kind n q and h :: Handle
  assume "signing_ok (ou_prims E) \<longrightarrow> signed_version (pr_crypto (ou_prims E)) vault pub kind n q"
    and "\<And>k. pin_versions (hn_pins h) kind n = Some k \<Longrightarrow> k \<le> q"
  then show "safely (ou_prims E) vault pub h (h\<lparr>hn_pins := pin_version kind n q (hn_pins h)\<rparr>)" by (rule safely_pin)
next
  fix h h' :: Handle
  assume "\<not> (signing_ok (ou_prims E) \<and> handle_inv (ou_prims E) h \<and> hn_vault_id h = vault \<and> hn_owner_sign_pub h = pub)"
  then show "safely (ou_prims E) vault pub h h'" by (auto simp: safely_def)
qed (auto intro: version_signed listed_signed view_written_signed simp: handle_inv_def view_ok_def)

section \<open>Refreshing\<close>

lemma pin_walk_links:
  assumes "pin_walk c d p ds = Inr q" and "\<forall>n \<in> set ds. descriptor_signed c vault pub n"
  shows "(succeeds c vault pub)\<^sup>*\<^sup>* p q"
  using assms
proof (induction ds arbitrary: p)
  case (Cons n ns)
  show ?case
  proof (cases "d_generation n > d_generation d")
    case True
    then show ?thesis using Cons.prems(1) by simp
  next
    case False
    then have n: "d_generation n = dp_generation p + 1" "prev_hash n = dp_hash p" "pin_walk c d (pin_of c n) ns = Inr q"
      using Cons.prems(1) by (auto split: if_splits)
    then have "succeeds c vault pub p (pin_of c n)" using Cons.prems(2) by (auto simp: succeeds_def)
    moreover have "(succeeds c vault pub)\<^sup>*\<^sup>* (pin_of c n) q" using Cons n(3) by simp
    ultimately show ?thesis by (rule converse_rtranclp_into_rtranclp)
  qed
qed simp

lemma collect_results_all: "collect_results f xs = Inr ys \<Longrightarrow> \<forall>y \<in> set ys. \<exists>x \<in> set xs. f x = Inr y"
  by (induction xs arbitrary: ys) (fastforce simp: rbind_eq_Inr)+

lemma descriptors_after_signed:
  assumes "handle_descriptors_after E after s = (Inr ds, s')"
  shows "\<forall>d \<in> set ds. descriptor_signed (pr_crypto (ou_prims E)) (hn_vault_id (se_handle s)) (hn_owner_sign_pub (se_handle s)) d"
proof -
  obtain sds where "collect_results (\<lambda>sd. map_err err_integrity (verify_for (pr_crypto (ou_prims E)) sd
      (hn_vault_id (se_handle s)) (hn_owner_sign_pub (se_handle s)))) sds = Inr ds"
    using assms by (auto simp: handle_descriptors_after_def abind_Inr hask_def)
  then show ?thesis using collect_results_all verify_for_signed by fastforce
qed

lemma check_pin_links:
  assumes "check_descriptor_pin E p d s = (Inr u, s')"
  shows "linked (pr_crypto (ou_prims E)) (hn_vault_id (se_handle s)) (hn_owner_sign_pub (se_handle s)) p
    (pin_of (pr_crypto (ou_prims E)) d)"
proof (cases "d_generation d = dp_generation p")
  case True
  then have "pin_of (pr_crypto (ou_prims E)) d = p"
    using assms by (auto simp: check_descriptor_pin_def Let_def pin_of_def split: if_splits)
  then show ?thesis by (simp add: linked_refl)
next
  case False
  then have gen: "dp_generation p < d_generation d"
    using assms by (auto simp: check_descriptor_pin_def Let_def split: if_splits)
  then obtain ds s1 where "handle_descriptors_after E (dp_generation p) s = (Inr ds, s1)"
    and "pin_walk (pr_crypto (ou_prims E)) d p ds = Inr (pin_of (pr_crypto (ou_prims E)) d)"
    using assms by (auto simp: check_descriptor_pin_def Let_def abind_Inr split: if_splits)
  then have "(succeeds (pr_crypto (ou_prims E)) (hn_vault_id (se_handle s)) (hn_owner_sign_pub (se_handle s)))\<^sup>*\<^sup>* p
      (pin_of (pr_crypto (ou_prims E)) d)"
    using pin_walk_links descriptors_after_signed by blast
  then show ?thesis using gen by (simp add: linked_def pin_of_def)
qed

lemma full_matches_bundle: "full_matches P f d \<Longrightarrow> bundle_matches P (Bundle.Full f) d"
  by (simp add: full_matches_def bundle_matches_def is_none_or_def)

lemma owner_view_ok: "owner_view P o' status = Inr v \<Longrightarrow> view_ok P (ok_vault_id o') (ok_sign_pub o') v"
  by (auto simp: owner_view_def Let_def rbind_eq_Inr view_ok_def full_matches_bundle split: if_splits dest: verify_for_signed)

lemma token_view_ok: "token_view P t me = Inr (v, pub) \<Longrightarrow> view_ok P (tk_vault_id t) pub v"
  by (auto simp: token_view_def rbind_eq_Inr view_ok_def split: if_splits dest: verify_for_signed)

lemma fetch_view_ok:
  assumes "fetch_view E s = (Inr (v, t), s')" and "holder_ok (se_handle s)"
  shows "view_ok (ou_prims E) (hn_vault_id (se_handle s)) (hn_owner_sign_pub (se_handle s)) v"
proof (cases "hn_holder (se_handle s)")
  case (OwnerHolder o')
  then obtain status where "owner_view (ou_prims E) o' status = Inr v"
    using assms(1) by (auto simp: fetch_view_def abind_Inr hask_def)
  then show ?thesis using owner_view_ok assms(2) OwnerHolder by (force simp: holder_ok_def)
next
  case (TokenHolder k)
  then obtain me where "token_view (ou_prims E) k me = Inr (v, hn_owner_sign_pub (se_handle s))"
    using assms(1) by (auto simp: fetch_view_def abind_Inr hask_def split: if_splits)
  then show ?thesis using token_view_ok assms(2) TokenHolder by (force simp: holder_ok_def)
qed

text \<open>What a refresh leaves behind: all as it was, or a verified view and its pin.\<close>

lemma refresh_run:
  assumes run: "refresh E s = (r, s')"
  shows "untouched (se_handle s) (se_handle s')
    \<or> (\<exists>v t s1 s2. fetch_view E s = (Inr (v, t), s1) \<and> untouched (se_handle s) (se_handle s1)
        \<and> (\<forall>p. pi_descriptor (hn_pins (se_handle s)) = Some p \<longrightarrow> check_descriptor_pin E p (vw_descriptor v) s1 = (Inr (), s2))
        \<and> untouched ((se_handle s)\<lparr>hn_view := v, hn_pins := (hn_pins (se_handle s))
             \<lparr>pi_descriptor := Some (pin_of (pr_crypto (ou_prims E)) (vw_descriptor v))\<rparr>\<rparr>) (se_handle s'))"
proof -
  obtain q s1 where q: "fetch_view E s = (q, s1)" by (cases "fetch_view E s")
  have u1: "untouched (se_handle s) (se_handle s1)" by (rule keepsD [OF quiet.fetch_view_keeps q])
  show ?thesis
  proof (cases q)
    case (Inl e)
    then show ?thesis using run q u1 by (simp add: refresh_def abind_def)
  next
    case (Inr vt)
    obtain v t where v: "q = Inr (v, t)" using Inr by (cases vt) simp
    let ?pinned = "pi_descriptor (hn_pins (se_handle s1))"
    let ?check = "case ?pinned of None \<Rightarrow> aret () | Some pin \<Rightarrow> check_descriptor_pin E pin (vw_descriptor v)"
    obtain w s2 where w: "?check s1 = (w, s2)" by (cases "?check s1")
    have k: "keeps untouched ?check" by (intro quiet.option_keeps quiet.aret_keeps quiet.check_descriptor_pin_keeps)
    have u2: "untouched (se_handle s) (se_handle s2)" by (rule quiet.trans [OF u1 keepsD [OF k]]) (rule w)
    show ?thesis
    proof (cases w)
      case (Inl e)
      then show ?thesis using run q v w u2 by (simp add: refresh_def abind_def hask_def)
    next
      case (Inr u)
      let ?h = "(se_handle s2)\<lparr>hn_view := v, hn_pins := (hn_pins (se_handle s2))
        \<lparr>pi_descriptor := Some (pin_of (pr_crypto (ou_prims E)) (vw_descriptor v))\<rparr>\<rparr>"
      have "note_expiry E t (s2\<lparr>se_handle := ?h\<rparr>) = (r, s')"
        using run q v w Inr by (simp add: refresh_def abind_def hask_def hmod_def)
      then have "untouched (se_handle (s2\<lparr>se_handle := ?h\<rparr>)) (se_handle s')" by (rule keepsD [OF quiet.note_expiry_keeps])
      moreover have "untouched ((se_handle s)\<lparr>hn_view := v, hn_pins := (hn_pins (se_handle s))
             \<lparr>pi_descriptor := Some (pin_of (pr_crypto (ou_prims E)) (vw_descriptor v))\<rparr>\<rparr>) ?h"
        using u2 by (simp add: untouched_def same_identity_def)
      moreover have "pi_descriptor (hn_pins (se_handle s)) = ?pinned" using u1 by (simp add: untouched_def)
      ultimately show ?thesis using q v w Inr u1 quiet.trans by fastforce
    qed
  qed
qed

lemma refresh_safely: "keeps (safely (ou_prims E) vault pub) (refresh E)"
  unfolding keeps_def
proof
  fix s
  obtain r s' where run: "refresh E s = (r, s')" by (cases "refresh E s")
  let ?h = "se_handle s" and ?c = "pr_crypto (ou_prims E)"
  show "safely (ou_prims E) vault pub ?h (se_handle (snd (refresh E s)))"
    using refresh_run [OF run]
  proof (elim disjE exE conjE)
    assume "untouched ?h (se_handle s')"
    then show ?thesis using run by (simp add: safely_untouched)
  next
    fix v t s1 s2
    let ?h' = "?h\<lparr>hn_view := v, hn_pins := (hn_pins ?h)\<lparr>pi_descriptor := Some (pin_of ?c (vw_descriptor v))\<rparr>\<rparr>"
    assume v: "fetch_view E s = (Inr (v, t), s1)" and u1: "untouched ?h (se_handle s1)"
      and chk: "\<forall>p. pi_descriptor (hn_pins ?h) = Some p \<longrightarrow> check_descriptor_pin E p (vw_descriptor v) s1 = (Inr (), s2)"
      and u: "untouched ?h' (se_handle s')"
    have pins: "pin_versions (hn_pins ?h') kind = pin_versions (hn_pins ?h) kind" for kind by (cases kind) simp_all
    have "safely (ou_prims E) vault pub ?h ?h'"
      unfolding safely_def
    proof (intro impI)
      assume inv: "handle_inv (ou_prims E) ?h"
      have "linked ?c (hn_vault_id ?h) (hn_owner_sign_pub ?h) (pin_of ?c (vw_descriptor (hn_view ?h))) (pin_of ?c (vw_descriptor v))"
        using chk check_pin_links inv u1 by (fastforce simp: handle_inv_def untouched_def same_identity_def)
      then have "pins_advance ?c ?h ?h'" using inv pins by (auto simp: pins_advance_def handle_inv_def)
      moreover have "view_ok (ou_prims E) (hn_vault_id ?h) (hn_owner_sign_pub ?h) v"
        using fetch_view_ok [OF v] inv by (simp add: handle_inv_def)
      then have "handle_inv (ou_prims E) ?h'" using inv pins by (simp add: handle_inv_def)
      ultimately show "handle_inv (ou_prims E) ?h' \<and> same_identity ?h ?h' \<and> pins_advance ?c ?h ?h' \<and> new_pins_signed ?c ?h ?h'"
        using pins by (simp add: same_identity_def new_pins_signed_def)
    qed
    then show ?thesis using run safely_trans [OF _ safely_untouched [OF u]] by simp
  qed
qed

section \<open>Opening\<close>

lemma handle_new_inv:
  assumes "view_ok P vault pub v"
    and "case holder of OwnerHolder o' \<Rightarrow> ok_vault_id o' = vault \<and> ok_sign_pub o' = pub | TokenHolder t \<Rightarrow> tk_vault_id t = vault"
  shows "handle_inv P (handle_new P holder label v pub)"
proof -
  have "pin_versions \<lparr>pi_descriptor = x, pi_secrets = Map.empty, pi_configs = Map.empty\<rparr> kind n = None" for x kind n
    by (cases kind) simp_all
  then show ?thesis
    using assms by (auto simp: handle_inv_def handle_new_def holder_ok_def view_ok_def descriptor_signed_def split: Holder.splits)
qed

lemma with_handle_untouched:
  assumes "with_handle h (note_expiry E t) a = (Inr h', a')"
  shows "untouched h h'"
proof -
  obtain r s where s: "note_expiry E t \<lparr>se_api = a, se_handle = h\<rparr> = (r, s)"
    by (cases "note_expiry E t \<lparr>se_api = a, se_handle = h\<rparr>")
  have "untouched (se_handle \<lparr>se_api = a, se_handle = h\<rparr>) (se_handle s)" by (rule keepsD [OF quiet.note_expiry_keeps s])
  then show ?thesis using assms s by (auto simp: with_handle_def split: sum.splits)
qed

lemma open_owner_inv:
  assumes "open_owner E key label a = (Inr h, a')"
  shows "handle_inv (ou_prims E) h" and "hn_holder h = OwnerHolder (owner_from_node (ou_prims E) key)"
proof -
  let ?o = "owner_from_node (ou_prims E) key"
  obtain status t v a1 where v: "owner_view (ou_prims E) ?o status = Inr v"
    and w: "with_handle (handle_new (ou_prims E) (OwnerHolder ?o) label v (ok_sign_pub ?o)) (note_expiry E t) a1 = (Inr h, a')"
    using assms by (auto simp: open_owner_def Let_def abind_Inr)
  note u = with_handle_untouched [OF w]
  show "handle_inv (ou_prims E) h" using handle_new_inv [OF owner_view_ok [OF v], of "OwnerHolder ?o"] by (simp add: untouched_inv [OF u])
  show "hn_holder h = OwnerHolder ?o" using u by (simp add: untouched_def same_identity_def handle_new_def)
qed

lemma open_token_inv:
  assumes "open_token E t label a = (Inr h, a')"
  shows "handle_inv (ou_prims E) h" and "hn_holder h = TokenHolder t"
proof -
  obtain me e v pub a1 where v: "token_view (ou_prims E) t me = Inr (v, pub)"
    and w: "with_handle (handle_new (ou_prims E) (TokenHolder t) label v pub) (note_expiry E e) a1 = (Inr h, a')"
    using assms by (auto simp: open_token_def Let_def abind_Inr)
  note u = with_handle_untouched [OF w]
  show "handle_inv (ou_prims E) h" using handle_new_inv [OF token_view_ok [OF v], of "TokenHolder t"] by (simp add: untouched_inv [OF u])
  show "hn_holder h = TokenHolder t" using u by (simp add: untouched_def same_identity_def handle_new_def)
qed

lemma handle_new_unpinned: "pin_versions (hn_pins (handle_new P holder label v pub)) kind n = None"
  by (cases kind) (simp_all add: handle_new_def)

lemma opened_unpinned:
  assumes "open_owner E key label a = (Inr h, a') \<or> open_token E t label a = (Inr h, a')"
  shows "pin_versions (hn_pins h) kind n = None"
proof -
  obtain holder v pub e a1 where "with_handle (handle_new (ou_prims E) holder label v pub) (note_expiry E e) a1 = (Inr h, a')"
    using assms by (auto simp: open_owner_def open_token_def Let_def abind_Inr)
  from with_handle_untouched [OF this] show ?thesis by (simp add: untouched_def handle_new_unpinned)
qed

section \<open>Runs of a handle\<close>

text \<open>
  One use of a handle, in any order, against whatever the transport reaches. The API state is shared
  with other handles, so it may change between two uses (\<open>Elsewhere\<close>).
\<close>

inductive handle_step :: "'x outside \<Rightarrow> 'x session \<Rightarrow> 'x session \<Rightarrow> bool" for E where
  Elsewhere: "handle_step E s (s\<lparr>se_api := a\<rparr>)"
| Refresh: "refresh E s = (r, s') \<Longrightarrow> handle_step E s s'"
| Status: "refresh_status E s = (rs, s') \<Longrightarrow> handle_step E s s'"
| List: "vault_list E kind s = Some (rl, s') \<Longrightarrow> handle_step E s s'"
| Versions: "vault_versions E kind name s = (rv, s') \<Longrightarrow> handle_step E s s'"
| Get: "vault_get E name ver s = (rg, s') \<Longrightarrow> handle_step E s s'"
| GetConfig: "vault_get_config E name ver s = (rc, s') \<Longrightarrow> handle_step E s s'"
| Put: "vault_put E name val pre s = (rp, s') \<Longrightarrow> handle_step E s s'"
| PutConfig: "vault_put_config E name format body pre s = (rp, s') \<Longrightarrow> handle_step E s s'"
| Delete: "vault_delete E kind name old s = (rp, s') \<Longrightarrow> handle_step E s s'"
| Children: "vault_children E s = (rk, s') \<Longrightarrow> handle_step E s s'"
| PutChildren: "handle_put_children E rec pre s = (rp, s') \<Longrightarrow> handle_step E s s'"
| SealChild: "seal_child E g key s = (ru, s') \<Longrightarrow> handle_step E s s'"
| DeleteVault: "vault_delete_vault E s = (ru, s') \<Longrightarrow> handle_step E s s'"
| Mint: "vault_mint E scope ttl allow_list s = (rm, s') \<Longrightarrow> handle_step E s s'"
| Revoke: "vault_revoke E t s = (rt, s') \<Longrightarrow> handle_step E s s'"
| Rotate: "vault_rotate E revoked s = Some (ro, s') \<Longrightarrow> handle_step E s s'"
| Audit: "verify_audit E known earlier s = Some (ra, s') \<Longrightarrow> handle_step E s s'"
| UpdateChildren: "update_children E change s = (ru, s') \<Longrightarrow> (\<And>rec. keeps untouched (change rec)) \<Longrightarrow> handle_step E s s'"
| CopyInto: "copy_from E (se_api s, se_handle s, old) = Some (rn, a, h, old') \<Longrightarrow> handle_step E s \<lparr>se_api = a, se_handle = h\<rparr>"
| CopyOut: "copy_from E (se_api s, new, se_handle s) = Some (rn, a, new', h) \<Longrightarrow> handle_step E s \<lparr>se_api = a, se_handle = h\<rparr>"

lemma vault_versions_keeps: "keeps untouched (vault_versions E kind name)"
  unfolding vault_versions_def by (intro quiet.abind_keeps quiet.hask_keeps quiet.versions_kind_keeps)

lemmas untouching = quiet.refresh_status_keeps vault_versions_keeps quiet.vault_children_keeps quiet.put_children_keeps
  quiet.seal_child_keeps quiet.delete_vault_keeps quiet.mint_keeps quiet.revoke_keeps

lemmas pinning = refresh_safely guard.vault_get_keeps guard.vault_get_config_keeps guard.vault_put_keeps
  guard.vault_put_config_keeps guard.vault_delete_keeps

lemmas looping = guard.vault_list_keeps guard.vault_rotate_keeps guard.verify_audit_keeps

lemma copy_safely:
  "copy_from E (a, n, old) = Some (r, a', n', old') \<Longrightarrow> safely (ou_prims E) vault pub n n'"
  "copy_from E (a, n, old) = Some (r, a', n', old') \<Longrightarrow> safely (ou_prims E) vault pub old old'"
  using guard.copy_from_keeps [where new = True and vault = vault and pub = pub, of E "(a, n, old)" r "(a', n', old')"]
    guard.copy_from_keeps [where new = False and vault = vault and pub = pub, of E "(a, n, old)" r "(a', n', old')"]
  by (simp_all add: side_of_def)

lemma step_safely: "handle_step E s s' \<Longrightarrow> safely (ou_prims E) vault pub (se_handle s) (se_handle s')"
proof (induction rule: handle_step.induct)
  case (Elsewhere s a)
  show ?case by (rule safely_untouched) (simp add: quiet.refl)
next
  case (UpdateChildren change s ru s')
  show ?case by (rule safely_untouched, rule keepsD [OF quiet.update_children_keeps UpdateChildren(1)]) (rule UpdateChildren(2))
next
  case (CopyInto s old rn a h old')
  then show ?case by (simp add: copy_safely(1))
next
  case (CopyOut s new rn a new' h)
  then show ?case by (simp add: copy_safely(2))
qed (erule untouching [THEN keepsD, THEN safely_untouched] pinning [THEN keepsD] looping [THEN lkeepsD])+

lemma run_safely: "(handle_step E)\<^sup>*\<^sup>* s s' \<Longrightarrow> safely (ou_prims E) vault pub (se_handle s) (se_handle s')"
proof (induction rule: rtranclp_induct)
  case base
  show ?case by (rule safely_untouched) (rule quiet.refl)
next
  case (step s1 s2)
  show ?case by (rule safely_trans [OF step.IH step_safely [OF step.hyps(2)]])
qed

section \<open>Handing pins over\<close>

text \<open>
  \<open>set_pins\<close> replaces what the handle has seen of versions by what the caller remembers, which nobody
  signed; the descriptor is checked against the caller's pin and its own pin stays.
\<close>

inductive handle_use :: "'x outside \<Rightarrow> 'x session \<Rightarrow> 'x session \<Rightarrow> bool" for E where
  Step: "handle_step E s s' \<Longrightarrow> handle_use E s s'"
| SetPins: "set_pins E pins s = (r, s') \<Longrightarrow> handle_use E s s'"

lemma set_pins_run:
  assumes "set_pins E pins s = (r, s')"
  shows "untouched (se_handle s) (se_handle s') \<or> (\<exists>h. untouched (se_handle s) h
    \<and> se_handle s' = h\<lparr>hn_pins := pins\<lparr>pi_descriptor := pi_descriptor (hn_pins h)\<rparr>\<rparr>)"
proof -
  let ?check = "case pi_descriptor pins of None \<Rightarrow> aret () | Some pin \<Rightarrow> check_descriptor_pin E pin (vw_descriptor (hn_view (se_handle s)))"
  obtain w s2 where w: "?check s = (w, s2)" by (cases "?check s")
  have "keeps untouched ?check" by (intro quiet.option_keeps quiet.aret_keeps quiet.check_descriptor_pin_keeps)
  then have u: "untouched (se_handle s) (se_handle s2)" by (rule keepsD) (rule w)
  then show ?thesis using assms w by (cases w) (auto simp: set_pins_def abind_def hask_def hmod_def)
qed

text \<open>What any use keeps: the holder, an owner-signed view, and a descriptor pin that only advances.\<close>

definition bound :: "primitives \<Rightarrow> Handle \<Rightarrow> Handle \<Rightarrow> bool" where
  "bound P h h' \<longleftrightarrow> handle_inv P h' \<and> same_identity h h'
     \<and> (\<exists>p p'. pi_descriptor (hn_pins h) = Some p \<and> pi_descriptor (hn_pins h') = Some p'
          \<and> linked (pr_crypto P) (hn_vault_id h) (hn_owner_sign_pub h) p p')"

lemma use_bound:
  assumes "handle_use E s s'" and "signing_ok (ou_prims E)" and "handle_inv (ou_prims E) (se_handle s)"
  shows "bound (ou_prims E) (se_handle s) (se_handle s')"
  using assms(1)
proof cases
  case Step
  then show ?thesis
    using step_safely [OF Step, of "hn_vault_id (se_handle s)" "hn_owner_sign_pub (se_handle s)"] assms(2,3)
    by (auto simp: safely_def bound_def handle_inv_def pins_advance_def)
next
  case (SetPins pins r)
  have eq: "handle_inv P (h\<lparr>hn_pins := p\<lparr>pi_descriptor := pi_descriptor (hn_pins h)\<rparr>\<rparr>) = handle_inv P h" for P h p
    by (simp add: handle_inv_def)
  from set_pins_run [OF SetPins] show ?thesis
  proof (elim disjE exE conjE)
    assume "untouched (se_handle s) (se_handle s')"
    then show ?thesis
      using assms(3) untouched_inv linked_refl by (fastforce simp: bound_def untouched_def handle_inv_def)
  next
    fix h assume u: "untouched (se_handle s) h" and h: "se_handle s' = h\<lparr>hn_pins := pins\<lparr>pi_descriptor := pi_descriptor (hn_pins h)\<rparr>\<rparr>"
    have "handle_inv (ou_prims E) (se_handle s')" unfolding h eq using assms(3) untouched_inv [OF u] by simp
    then show ?thesis
      using u h assms(3) linked_refl by (auto simp: bound_def untouched_def same_identity_def handle_inv_def)
  qed
qed

lemma bound_trans: "bound P h h' \<Longrightarrow> bound P h' h'' \<Longrightarrow> bound P h h''"
  using linked_trans by (fastforce simp: bound_def same_identity_def)

lemma uses_bound:
  assumes "(handle_use E)\<^sup>*\<^sup>* s s'" and "signing_ok (ou_prims E)" and "handle_inv (ou_prims E) (se_handle s)"
  shows "bound (ou_prims E) (se_handle s) (se_handle s')"
  using assms(1)
proof (induction rule: rtranclp_induct)
  case base
  show ?case using assms(3) linked_refl by (auto simp: bound_def same_identity_def handle_inv_def)
next
  case (step s1 s2)
  have "handle_inv (ou_prims E) (se_handle s1)" using step.IH by (simp add: bound_def)
  from bound_trans [OF step.IH use_bound [OF step.hyps(2) assms(2) this]] show ?case .
qed

end
