(* ===== verification/Vault_Props.thy ===== *)
theory Vault_Props
  imports Vault_Guarded
begin

text \<open>
  What a handle promises its user, whatever the server answers, with a run of the model against a
  concrete server.
\<close>

section \<open>A run of the model\<close>

definition ex_owner_bundle :: SignedBundle where
  "ex_owner_bundle = (case fst (seal_owner_bundle toy ex_owner ex_full 0) of
     Inr sb \<Rightarrow> sb | Inl _ \<Rightarrow> \<lparr>sealed = B64 [], sb_sig = Sig64 []\<rparr>)"

text \<open>A server that serves the vault of the example, one record and one audit page, and lists nothing.\<close>

definition ex_server :: "SecretVersion \<Rightarrow> unit outside" where
  "ex_server v = \<lparr>ou_prims = toy,
     ou_codec = null_codec\<lparr>dec_status := (\<lambda>_. Some (ex_status\<lparr>vs_owner_bundle := Some ex_owner_bundle\<rparr>)),
       dec_record := (\<lambda>_. Some v),
       dec_audit := (\<lambda>_. Some \<lparr>ap_rows = [ex_row2], ap_head = Some \<lparr>ch_seq = 2, ch_hash = GENESIS\<rparr>, ap_stop = None\<rparr>)\<rparr>,
     ou_send = (\<lambda>r x. (Inr \<lparr>rs_status = 200, rs_etag = None, rs_expires_at = None, rs_body = []\<rparr>, x)),
     ou_now = (\<lambda>x. (1000, x))\<rparr>"

definition ex_client :: "unit api_state" where
  "ex_client = \<lparr>as_out = (), as_draws = 0, as_caps = Some None, as_notices = []\<rparr>"

definition ex_view :: View where
  "ex_view = \<lparr>vw_descriptor = ex_descriptor, vw_bundle = Bundle.Full ex_full, vw_scope = None, vw_allow_list = None,
     vw_token_expires_at = None, vw_status = Some (ex_status\<lparr>vs_owner_bundle := Some ex_owner_bundle\<rparr>)\<rparr>"

definition ex_handle :: Handle where
  "ex_handle = handle_new toy (OwnerHolder ex_owner) ''app'' ex_view (ok_sign_pub ex_owner)"

definition ex_session :: "nat \<Rightarrow> unit session" where
  "ex_session n = \<lparr>se_api = ex_client\<lparr>as_draws := n\<rparr>, se_handle = ex_handle\<rparr>"

lemma ex_server_fields [simp]: "ou_prims (ex_server v) = toy" "dec_record (ou_codec (ex_server v)) = (\<lambda>_. Some v)"
    "dec_status (ou_codec (ex_server v)) = (\<lambda>_. Some (ex_status\<lparr>vs_owner_bundle := Some ex_owner_bundle\<rparr>))"
    "dec_list (ou_codec (ex_server v)) = Map.empty"
    "dec_audit (ou_codec (ex_server v)) =
      (\<lambda>_. Some \<lparr>ap_rows = [ex_row2], ap_head = Some \<lparr>ch_seq = 2, ch_hash = GENESIS\<rparr>, ap_stop = None\<rparr>)"
  by (simp_all add: ex_server_def null_codec_def)

lemma ex_call:
  "api_call (ex_server v) method pq body (OwnerAuth ex_owner) pre s
    = (Inr \<lparr>rp_status = 200, rp_expires_at = None, rp_etag = None, rp_body = []\<rparr>, s\<lparr>as_draws := Suc (as_draws s)\<rparr>)"
  by (simp add: api_call_def Let_def abind_def authorize_def client_now_def draw_def owner_sign_request_def random_bytes_def
      transmit_def read_reply_def ex_server_def)

lemma ex_get:
  "api_get (ex_server v) dec pq (OwnerAuth ex_owner) s
    = (case dec [] of None \<Rightarrow> Inl ApiError.Malformed | Some a \<Rightarrow> Inr \<lparr>an_value = a, an_expires_at = None\<rparr>,
       s\<lparr>as_draws := Suc (as_draws s)\<rparr>)"
  by (simp add: api_get_def abind_def ex_call reply_json_def split: option.splits)

lemma ex_owner_view: "owner_view toy ex_owner (ex_status\<lparr>vs_owner_bundle := Some ex_owner_bundle\<rparr>) = Inr ex_view"
proof -
  obtain sb j where sb: "seal_owner_bundle toy ex_owner ex_full 0 = (Inr sb, j)" using toy_seal_owner_bundle by blast
  have b: "ex_owner_bundle = sb" by (simp add: ex_owner_bundle_def sb)
  have d: "d_generation ex_descriptor = 1" "fb_generation ex_full = 1" "d_vault_id ex_descriptor = ok_vault_id ex_owner"
    by (simp_all add: ex_descriptor_def full_descriptor_def ex_full_def)
  have "open_own_bundle toy ex_owner sb 1 = Inr ex_full"
    using own_bundle_roundtrip [OF toy_ok(3,2,6) ex_keys_wf(1,5) sb] d by simp
  moreover have "verify_for (pr_crypto toy) (vs_descriptor ex_status) (ok_vault_id ex_owner) (ok_sign_pub ex_owner) = Inr ex_descriptor"
    using sign_descriptor_verifies [OF toy_ok(2) ex_keys_wf(1) ex_descriptor_wf] d
    by (simp add: sign_descriptor_def ex_status_def)
  ultimately show ?thesis
    using ex_descriptor_matches d by (simp add: owner_view_def ex_status_def b ex_view_def)
qed

lemma ex_open_owner: "open_owner (ex_server v) ex_node ''app'' ex_client = (Inr ex_handle, ex_client\<lparr>as_draws := 1\<rparr>)"
  by (simp add: open_owner_def Let_def abind_def amap_err_def require_protocol_def api_capabilities_def ex_client_def
      api_status_def ex_get ex_owner_def [symmetric] ex_owner_view with_handle_def note_expiry_def ex_handle_def)

section \<open>Whatever the server does\<close>

text \<open>
  C2. A handle is never deceived: opened with the owner key or a token, and used in any way, any number
  of times, against a server that may answer anything, it only ever works with an owner-signed
  descriptor of its own vault and keys that match it, and its descriptor pin moves only forward, along
  descriptors the owner signed and linked by hash. It starts with no pinned versions; from then on, or
  from the last time the caller replaced them by remembered ones, no version pin goes down or away, and
  every version pinned since was signed by a writer of an owner-signed generation.
\<close>

theorem handle_never_deceived:
  assumes "signing_ok (ou_prims E)"
    and "open_owner E key label a = (Inr h, a') \<or> open_token E t label a = (Inr h, a')"
    and "(handle_use E)\<^sup>*\<^sup>* \<lparr>se_api = a', se_handle = h\<rparr> s1" and "(handle_step E)\<^sup>*\<^sup>* s1 s'"
  shows "bound (ou_prims E) h (se_handle s') \<and> (\<forall>kind n. pin_versions (hn_pins h) kind n = None)
    \<and> pins_advance (pr_crypto (ou_prims E)) (se_handle s1) (se_handle s')
    \<and> new_pins_signed (pr_crypto (ou_prims E)) (se_handle s1) (se_handle s')"
proof -
  have inv: "handle_inv (ou_prims E) h" using assms(2) open_owner_inv(1) open_token_inv(1) by blast
  have "(handle_use E)\<^sup>*\<^sup>* s1 s'" using assms(4) by (rule rtranclp_mono [THEN predicate2D, rotated]) (auto intro: handle_use.Step)
  then have "(handle_use E)\<^sup>*\<^sup>* \<lparr>se_api = a', se_handle = h\<rparr> s'" using assms(3) by (rule rtranclp_trans [rotated])
  from uses_bound [OF this assms(1)] have "bound (ou_prims E) h (se_handle s')" using inv by simp
  moreover have "handle_inv (ou_prims E) (se_handle s1)" using uses_bound [OF assms(3,1)] inv by (simp add: bound_def)
  then have "pins_advance (pr_crypto (ou_prims E)) (se_handle s1) (se_handle s')"
    "new_pins_signed (pr_crypto (ou_prims E)) (se_handle s1) (se_handle s')"
    using run_safely [OF assms(4), of "hn_vault_id (se_handle s1)" "hn_owner_sign_pub (se_handle s1)"] assms(1) by (simp_all add: safely_def)
  ultimately show ?thesis using opened_unpinned [OF assms(2)] by blast
qed

text \<open>
  C18. A refresh refuses a rollback: when the server's descriptor is of an older generation than the
  pinned one, or a different one of the same generation, it fails as an integrity error that names
  both generations, and the handle's view and pins stay as they were.
\<close>

theorem refresh_refuses_rollback:
  assumes "fetch_view E s = (Inr (v, t), s1)" and "pi_descriptor (hn_pins (se_handle s)) = Some p"
    and "d_generation (vw_descriptor v) < dp_generation p
      \<or> d_generation (vw_descriptor v) = dp_generation p \<and> descriptor_hash (pr_crypto (ou_prims E)) (vw_descriptor v) \<noteq> dp_hash p"
  shows "refresh E s = (Inl (err_integrity (IntegrityError.GenerationRollback (dp_generation p) (d_generation (vw_descriptor v)))), s1)
    \<and> untouched (se_handle s) (se_handle s1)"
proof -
  have u: "untouched (se_handle s) (se_handle s1)" by (rule keepsD [OF quiet.fetch_view_keeps assms(1)])
  then have "pi_descriptor (hn_pins (se_handle s1)) = Some p" using assms(2) by (simp add: untouched_def)
  then show ?thesis
    using assms(1,3) u by (auto simp: refresh_def abind_def hask_def check_descriptor_pin_def Let_def)
qed

lemma fetched:
  assumes "fetch E v kind name ver s = (Inr rec, s')"
  shows "sv_name_hmac rec = name_key_index (ou_prims E) (bundle_name_key (vw_bundle v)) kind name"
    and "ver = Some w \<Longrightarrow> sv_version rec = w"
    and "ver = None \<Longrightarrow> pin_versions (hn_pins (se_handle s')) kind (sv_name_hmac rec) = Some (sv_version rec)
      \<and> (\<forall>k. pin_versions (hn_pins (se_handle s)) kind (sv_name_hmac rec) = Some k \<longrightarrow> k \<le> sv_version rec)"
proof -
  let ?n = "name_key_index (ou_prims E) (bundle_name_key (vw_bundle v)) kind name"
  let ?tail = "\<lambda>rec. case ver of
      Some want \<Rightarrow> if sv_version rec \<noteq> want then afail (err_integrity (IntegrityError.BindingMismatch ''record version'')) else aret rec
    | None \<Rightarrow> abind (alift (map_err (\<lambda>e. err_seal e (hn_label (se_handle s)))
        (verify_version (ou_prims E) (vw_descriptor v) kind rec))) (\<lambda>_. abind (check_version kind ?n (sv_version rec)) (\<lambda>_. aret rec))"
  let ?call = "happly (api_record E (holder_auth (hn_holder (se_handle s))) kind ?n ver)"
  obtain x s1 where call: "?call s = (Inr x, s1)"
    by (cases "api_record E (holder_auth (hn_holder (se_handle s))) kind ?n ver (se_api s)") (simp add: happly_def)
  have run: "(case x of
        Inl e \<Rightarrow>
          if api_error_code e = Some ErrorCode.NotFound
          then abind (moved_on E v) (\<lambda>moved. case moved of Some m \<Rightarrow> afail m | None \<Rightarrow> afail Error.NotFound)
          else if api_error_code e = Some ErrorCode.Forbidden then afail Error.Forbidden
          else afail (err_api e)
      | Inr a \<Rightarrow> abind (htake E a) (\<lambda>rec. if sv_name_hmac rec \<noteq> ?n
          then afail (err_integrity (IntegrityError.BindingMismatch ''record index'')) else ?tail rec)) s1 = (Inr rec, s')"
    using assms call by (simp add: fetch_def Let_def abind_def [of "hask id"] abind_def [of ?call] hask_def)
  then obtain a where a: "x = Inr a" by (cases x) (auto simp: abind_Inr split: if_splits option.splits)
  obtain rec' s2 where take: "htake E a s1 = (Inr rec', s2)" and n: "sv_name_hmac rec' = ?n" and tail: "?tail rec' s2 = (Inr rec, s')"
    using run a by (auto simp: abind_Inr split: if_splits)
  have rec: "rec' = rec" using tail by (auto simp: abind_Inr split: option.splits if_splits)
  have u: "untouched (se_handle s) (se_handle s2)"
    by (rule quiet.trans [OF keepsD [OF quiet.happly_keeps call] keepsD [OF quiet.htake_keeps take]])
  show "sv_name_hmac rec = ?n" using n rec by simp
  show "ver = Some w \<Longrightarrow> sv_version rec = w" using tail rec by (auto split: if_splits)
  show "pin_versions (hn_pins (se_handle s')) kind (sv_name_hmac rec) = Some (sv_version rec)
      \<and> (\<forall>k. pin_versions (hn_pins (se_handle s)) kind (sv_name_hmac rec) = Some k \<longrightarrow> k \<le> sv_version rec)" if "ver = None"
    using tail that rec n u
    by (auto simp: abind_Inr check_version_def hask_def hmod_def untouched_def split: option.splits if_splits)
qed

text \<open>
  C6. What reading a secret returns is what was written: the record bears the index of the name asked
  for, a writer of the handle's owner-signed generation signed it at exactly the returned version, and the
  value is the one sealed for that record and version. A read of one version returns that version (which
  may be older than one seen before); a read of the latest never returns a version older than one this
  handle has seen, and pins what it returns.
\<close>

theorem get_authentic:
  assumes "handle_inv (ou_prims E) (se_handle s)" and "vault_get E name ver s = (Inr (q, opened), s')"
  shows "\<exists>k rec ct. let d = vw_descriptor (hn_view (se_handle s)); nk = bundle_name_key (vw_bundle (hn_view (se_handle s)));
      c = pr_crypto (ou_prims E) in
    descriptor_signed c (hn_vault_id (se_handle s)) (hn_owner_sign_pub (se_handle s)) d
    \<and> sv_version rec = q \<and> sv_name_hmac rec = name_key_index (ou_prims E) nk RecordKind.Secret name
    \<and> name_key_index (ou_prims E) nk RecordKind.Secret (op_name opened) = sv_name_hmac rec
    \<and> ed25519_verify c (k32 (secret_writer_pub d)) (record_signing_input (version_context (ou_prims E) d RecordKind.Secret rec)) (s64 (sv_sig rec))
    \<and> bundle_vault_secret (vw_bundle (hn_view (se_handle s))) = Some k \<and> vault_secret_public (ou_prims E) k = vault_pub d
    \<and> sv_value_ct rec = Some ct
    \<and> (\<exists>i plain. vault_identity (ou_prims E) k = Inr i \<and> age_decrypt (ou_prims E) i (b64 ct) = Some plain
        \<and> encode_envelope RecordKind.Secret None (version_envelope_ctx d rec) (op_name opened) (op_value opened) = Inr plain)
    \<and> (\<forall>w. ver = Some w \<longrightarrow> q = w)
    \<and> (ver = None \<longrightarrow> pin_versions (hn_pins (se_handle s')) RecordKind.Secret (sv_name_hmac rec) = Some q
        \<and> (\<forall>k. pin_versions (hn_pins (se_handle s)) RecordKind.Secret (sv_name_hmac rec) = Some k \<longrightarrow> k \<le> q))"
proof -
  let ?v = "hn_view (se_handle s)" and ?P = "ou_prims E"
  obtain rec r val where f: "fetch E ?v RecordKind.Secret name ver s = (Inr rec, s')"
    and o': "open_record E ?v RecordKind.Secret rec (hn_label (se_handle s)) = Inr r" and val: "or_value r = Some val"
    and q: "q = sv_version rec" and opened: "opened = \<lparr>op_name = or_name r, op_value = val, op_written_at = or_written_at r\<rparr>"
    using assms(2) by (auto simp: vault_get_def Let_def abind_Inr hask_def split: option.splits)
  obtain k where k: "bundle_vault_secret (vw_bundle ?v) = Some k"
    and sec: "open_secret ?P (vw_descriptor ?v) (bundle_name_key (vw_bundle ?v)) k rec = Inr r"
    using o' by (auto simp: open_record_def Let_def rbind_eq_Inr view_vault_secret_def)
  note ok = open_secret_ok [OF sec]
  obtain ct where ct: "sv_value_ct rec = Some ct" using ok(6) val by fastforce
  have "vault_secret_public ?P k = vault_pub (vw_descriptor ?v)"
    using assms(1) k by (auto simp: handle_inv_def view_ok_def bundle_matches_def is_none_or_def)
  moreover have "descriptor_signed (pr_crypto ?P) (hn_vault_id (se_handle s)) (hn_owner_sign_pub (se_handle s)) (vw_descriptor ?v)"
    using assms(1) by (simp add: handle_inv_def view_ok_def)
  moreover have "ed25519_verify (pr_crypto ?P) (k32 (secret_writer_pub (vw_descriptor ?v)))
      (record_signing_input (version_context ?P (vw_descriptor ?v) RecordKind.Secret rec)) (s64 (sv_sig rec))"
    using ok(1) by (simp add: verify_version_ok writer_pub_of_def)
  ultimately show ?thesis
    using fetched [OF f] ok(2) ok(7) [OF ct val] k ct
    by (intro exI [of _ k] exI [of _ rec] exI [of _ ct]) (simp add: Let_def q opened)
qed

text \<open>
  C17. The recorded audit head only moves forward: it stays as it was when verification fails, and when
  it succeeds from a recorded head, the rows verify as a hash chain from exactly that head, the new
  head is as many rows after it as were read, and only this vault's entry changes.
\<close>

theorem recorded_head_advances:
  assumes "verify_recorded E heads earlier s = Some ((r, heads'), s')"
  shows "(\<forall>e. r = Inl e \<longrightarrow> heads' = heads)
    \<and> (\<forall>rep k. r = Inr rep \<longrightarrow> heads (vault_id_to_hex (pr_crypto (ou_prims E)) (hn_vault_id (se_handle s))) = Some k \<longrightarrow>
        (\<exists>rows h. verify_chain (pr_crypto (ou_prims E)) (Some k) rows = Inr (Some h)
          \<and> unat (ch_seq h) = unat (ch_seq k) + length rows
          \<and> rp_head rep = Some h \<and> rp_new_rows rep = length rows
          \<and> heads' = heads(vault_id_to_hex (pr_crypto (ou_prims E)) (hn_vault_id (se_handle s)) \<mapsto> h)))"
proof -
  let ?key = "vault_id_to_hex (pr_crypto (ou_prims E)) (hn_vault_id (se_handle s))" and ?c = "pr_crypto (ou_prims E)"
  have "\<exists>rows h. verify_chain ?c (Some k) rows = Inr (Some h) \<and> unat (ch_seq h) = unat (ch_seq k) + length rows
      \<and> rp_head rep = Some h \<and> rp_new_rows rep = length rows \<and> heads' = heads(?key \<mapsto> h)"
    if r: "r = Inr rep" and k: "heads ?key = Some k" for rep k
  proof -
    obtain raw where raw: "verify_audit E (Some k) earlier s = Some (Inr raw, s')" and rep: "rep = audit_report E raw"
      and heads': "heads' = (case rp_head rep of Some h \<Rightarrow> heads(?key \<mapsto> h) | None \<Rightarrow> heads)"
      using assms r k by (auto simp: verify_recorded_def Let_def split: option.splits sum.splits)
    obtain rows sh stop v where v: "verify_rows ?c (Some k) rows sh stop = Inr v"
      and fields: "ra_head raw = vf_head v" "ra_new_rows raw = length rows"
      using raw by (auto simp: verify_audit_def lbind_Some)
    obtain h where "verify_chain ?c (Some k) rows = Inr (Some h)" "vf_head v = Some h"
      "unat (ch_seq h) = unat (ch_seq k) + length rows" using verify_rows_head [OF v] by blast
    then show ?thesis using fields heads' by (auto simp: rep audit_report_def)
  qed
  moreover have "heads' = heads" if "r = Inl e" for e
    using assms that by (auto simp: verify_recorded_def Let_def split: option.splits sum.splits)
  ultimately show ?thesis by blast
qed

section \<open>Witnesses\<close>

lemma ex_handle_inv: "handle_inv toy ex_handle"
  using open_owner_inv(1) [OF ex_open_owner [of undefined]] by simp

lemma ex_served_record:
  obtains v where "open_secret toy ex_descriptor (fb_name_key ex_full) (fb_vault_secret ex_full) v
      = Inr \<lparr>or_name = ''app'', or_version = 1, or_written_at = 42, or_format = None, or_value = Some [1, 2]\<rparr>"
    and "sv_version v = 1" and "sv_name_hmac v = name_key_index toy (fb_name_key ex_full) RecordKind.Secret ''app''"
    and "verify_version toy ex_descriptor RecordKind.Secret v = Inr ()"
proof -
  obtain v where v: "open_secret toy ex_descriptor (fb_name_key ex_full) (fb_vault_secret ex_full) v
      = Inr \<lparr>or_name = ''app'', or_version = 1, or_written_at = 42, or_format = None, or_value = Some [1, 2]\<rparr>" "sv_version v = 1"
    by (rule ex_sealed_record)
  show thesis using that [OF v] open_secret_ok(1,2) [OF v(1)] by simp
qed

lemma ex_vault_get:
  assumes "open_secret toy ex_descriptor (fb_name_key ex_full) (fb_vault_secret ex_full) v
      = Inr \<lparr>or_name = ''app'', or_version = 1, or_written_at = 42, or_format = None, or_value = Some [1, 2]\<rparr>"
    and "sv_version v = 1" and "sv_name_hmac v = name_key_index toy (fb_name_key ex_full) RecordKind.Secret ''app''"
    and "verify_version toy ex_descriptor RecordKind.Secret v = Inr ()"
  shows "\<exists>s'. vault_get (ex_server v) ''app'' None (ex_session 1)
    = (Inr (1, \<lparr>op_name = ''app'', op_value = [1, 2], op_written_at = 42\<rparr>), s')"
proof -
  have h: "hn_view ex_handle = ex_view" "hn_holder ex_handle = OwnerHolder ex_owner" "pi_secrets (hn_pins ex_handle) = Map.empty"
    by (simp_all add: ex_handle_def handle_new_def)
  have v: "vw_descriptor ex_view = ex_descriptor" "vw_bundle ex_view = Bundle.Full ex_full" by (simp_all add: ex_view_def)
  show ?thesis
    using assms
    by (simp add: vault_get_def abind_def hask_def Let_def ex_session_def h v view_vault_secret_def fetch_def holder_auth_def
        happly_def api_record_def ex_get htake_def note_expiry_def check_version_def hmod_def open_record_def)
qed

theorem handle_never_deceived_witness:
  "\<exists>v s'. (handle_step (ex_server v))\<^sup>*\<^sup>* (ex_session 1) s' \<and> bound toy ex_handle (se_handle s')
    \<and> pins_advance (pr_crypto toy) ex_handle (se_handle s') \<and> new_pins_signed (pr_crypto toy) ex_handle (se_handle s')"
proof -
  obtain v where v: "open_secret toy ex_descriptor (fb_name_key ex_full) (fb_vault_secret ex_full) v
      = Inr \<lparr>or_name = ''app'', or_version = 1, or_written_at = 42, or_format = None, or_value = Some [1, 2]\<rparr>"
    "sv_version v = 1" "sv_name_hmac v = name_key_index toy (fb_name_key ex_full) RecordKind.Secret ''app''"
    "verify_version toy ex_descriptor RecordKind.Secret v = Inr ()"
    by (rule ex_served_record)
  obtain s' where "handle_step (ex_server v) (ex_session 1) s'" using ex_vault_get [OF v] handle_step.Get by blast
  then have run: "(handle_step (ex_server v))\<^sup>*\<^sup>* (ex_session 1) s'" by blast
  have "signing_ok (ou_prims (ex_server v))" using toy_ok(2) by simp
  from handle_never_deceived [OF this disjI1 [OF ex_open_owner] rtranclp.rtrancl_refl] run show ?thesis
    unfolding ex_session_def [symmetric] by (auto simp: ex_session_def)
qed

text \<open>A session that has already seen generation 5.\<close>

definition ex_ahead :: "unit session" where
  "ex_ahead = (ex_session 1)\<lparr>se_handle := ex_handle\<lparr>hn_pins :=
     (hn_pins ex_handle)\<lparr>pi_descriptor := Some \<lparr>dp_generation = 5, dp_hash = Hash32 []\<rparr>\<rparr>\<rparr>\<rparr>"

lemma ex_fetch_view: "\<exists>s1. fetch_view (ex_server v) ex_ahead = (Inr (ex_view, None), s1)"
proof -
  have "hn_holder (se_handle ex_ahead) = OwnerHolder ex_owner" by (simp add: ex_ahead_def ex_handle_def handle_new_def)
  then show ?thesis
    by (simp add: fetch_view_def abind_def hask_def hcall_def happly_def api_status_def ex_get ex_owner_view)
qed

theorem refresh_refuses_rollback_witness:
  "\<exists>s1. refresh (ex_server undefined) ex_ahead = (Inl (err_integrity (IntegrityError.GenerationRollback 5 1)), s1)
    \<and> untouched (se_handle ex_ahead) (se_handle s1)"
proof -
  obtain s1 where s1: "fetch_view (ex_server undefined) ex_ahead = (Inr (ex_view, None), s1)" using ex_fetch_view by blast
  have "pi_descriptor (hn_pins (se_handle ex_ahead)) = Some \<lparr>dp_generation = 5, dp_hash = Hash32 []\<rparr>" by (simp add: ex_ahead_def)
  moreover have "d_generation (vw_descriptor ex_view) = 1"
    by (simp add: ex_view_def ex_descriptor_def full_descriptor_def ex_full_def)
  ultimately show ?thesis using refresh_refuses_rollback [OF s1] by auto
qed

theorem get_authentic_witness:
  "\<exists>v s' k rec ct i plain. vault_get (ex_server v) ''app'' None (ex_session 1)
      = (Inr (1, \<lparr>op_name = ''app'', op_value = [1, 2], op_written_at = 42\<rparr>), s')
    \<and> sv_version rec = 1 \<and> sv_value_ct rec = Some ct \<and> vault_identity toy k = Inr i \<and> age_decrypt toy i (b64 ct) = Some plain
    \<and> encode_envelope RecordKind.Secret None (version_envelope_ctx ex_descriptor rec) ''app'' [1, 2] = Inr plain"
proof -
  obtain v where v: "open_secret toy ex_descriptor (fb_name_key ex_full) (fb_vault_secret ex_full) v
      = Inr \<lparr>or_name = ''app'', or_version = 1, or_written_at = 42, or_format = None, or_value = Some [1, 2]\<rparr>"
    "sv_version v = 1" "sv_name_hmac v = name_key_index toy (fb_name_key ex_full) RecordKind.Secret ''app''"
    "verify_version toy ex_descriptor RecordKind.Secret v = Inr ()"
    by (rule ex_served_record)
  obtain s' where s': "vault_get (ex_server v) ''app'' None (ex_session 1)
      = (Inr (1, \<lparr>op_name = ''app'', op_value = [1, 2], op_written_at = 42\<rparr>), s')" using ex_vault_get [OF v] by blast
  have inv: "handle_inv (ou_prims (ex_server v)) (se_handle (ex_session 1))" using ex_handle_inv by (simp add: ex_session_def)
  have d: "vw_descriptor (hn_view (se_handle (ex_session 1))) = ex_descriptor"
    by (simp add: ex_session_def ex_handle_def handle_new_def ex_view_def)
  show ?thesis
    using get_authentic [OF inv s'] unfolding Let_def d ex_server_fields Opened.simps
    by (elim exE conjE) (intro exI conjI, rule s', assumption+)
qed

lemma ex_audit_pages:
  "\<exists>s1. audit_pages (ex_server v) until [] after (ex_session n)
     = Some (Inr ([ex_row2], Some \<lparr>ch_seq = 2, ch_hash = GENESIS\<rparr>, None), s1) \<and> s1 = ex_session (Suc n)"
proof -
  have h: "hn_holder ex_handle = OwnerHolder ex_owner" by (simp add: ex_handle_def handle_new_def)
  have "handle_audit_page (ex_server v) after (ex_session n) = (Inr \<lparr>ap_rows = [ex_row2],
      ap_head = Some \<lparr>ch_seq = 2, ch_hash = GENESIS\<rparr>, ap_stop = None\<rparr>, ex_session (Suc n))"
    by (simp add: handle_audit_page_def abind_def hask_def happly_def api_audit_def ex_get htake_def note_expiry_def holder_auth_def
        ex_session_def h)
  then show ?thesis by (simp add: audit_pages.simps AUDIT_PAGE_def)
qed

lemma ex_no_names: "names_of (ex_server v) kind (ex_session n) = Some (Inr [], ex_session (Suc n))"
proof -
  have h: "hn_holder ex_handle = OwnerHolder ex_owner" by (simp add: ex_handle_def handle_new_def)
  have "list_page (ex_server v) w kind None (ex_session n) = (Inl (err_api ApiError.Malformed), ex_session (Suc n))" for w
    by (simp add: list_page_def abind_def hask_def hcall_def happly_def api_list_def ex_get holder_auth_def ex_session_def h)
  then show ?thesis
    by (simp add: names_of_def vault_list_def list_kind_def lbind_def list_pages.simps)
qed

theorem recorded_head_advances_witness:
  "\<exists>rep heads' s' h. verify_recorded (ex_server undefined) (\<lambda>_. Some \<lparr>ch_seq = 1, ch_hash = GENESIS\<rparr>) 0 (ex_session 1)
      = Some ((Inr rep, heads'), s') \<and> rp_head rep = Some h \<and> unat (ch_seq h) = 2"
proof -
  let ?k = "\<lparr>ch_seq = 1, ch_hash = GENESIS\<rparr>" and ?E = "ex_server undefined"
  have c: "pr_crypto toy = null_crypto" by (simp add: toy_def)
  obtain s1 where "audit_pages ?E None [] 1 (ex_session 1)
      = Some (Inr ([ex_row2], Some \<lparr>ch_seq = 2, ch_hash = GENESIS\<rparr>, None), s1)" "s1 = ex_session 2"
    using ex_audit_pages [of undefined None 1 1] by (auto simp: numeral_2_eq_2)
  then have "\<exists>raw s'. verify_audit ?E (Some ?k) 0 (ex_session 1) = Some (Inr raw, s') \<and> ra_new_rows raw = 1"
    by (simp add: verify_audit_def lbind_def c example_verify_rows earlier_rows_def ex_no_names)
  then obtain raw s' where "verify_audit ?E (Some ?k) 0 (ex_session 1) = Some (Inr raw, s')" "ra_new_rows raw = 1" by blast
  then obtain rep heads' where run: "verify_recorded ?E (\<lambda>_. Some ?k) 0 (ex_session 1) = Some ((Inr rep, heads'), s')"
    and "rp_new_rows rep = 1" by (simp add: verify_recorded_def Let_def audit_report_def)
  then show ?thesis using recorded_head_advances [OF run] by fastforce
qed

end
