(* ===== verification/Config_Check.thy ===== *)
theory Config_Check
  imports Client_Error
begin

text \<open>
  What the client checks before a config leaves the process (\<open>check.rs\<close>): that it parses in its
  declared format, and that it holds no credential. The TOML and JSON parsers are parameters; line
  numbers are part of messages, which are not modelled.
\<close>

section \<open>Bodies as text\<close>

definition REPLACEMENT :: string where
  "REPLACEMENT = [char_of (239 :: nat), char_of (191 :: nat), char_of (189 :: nat)]"

text \<open>\<open>String::from_utf8_lossy\<close>: every maximal invalid part becomes U+FFFD.\<close>

fun utf8_lossy :: "string \<Rightarrow> string" where
  "utf8_lossy [] = []"
| "utf8_lossy (a # s) =
     (if in_range 0 127 a then a # utf8_lossy s
      else if in_range 194 223 a then
        (case s of
           b # r \<Rightarrow> if utf8_second a b then a # b # utf8_lossy r else REPLACEMENT @ utf8_lossy s
         | [] \<Rightarrow> REPLACEMENT)
      else if in_range 224 239 a then
        (case s of
           b # r \<Rightarrow>
             if utf8_second a b
             then (case r of
                 c # r' \<Rightarrow> if in_range 128 191 c then a # b # c # utf8_lossy r' else REPLACEMENT @ utf8_lossy r
               | [] \<Rightarrow> REPLACEMENT)
             else REPLACEMENT @ utf8_lossy s
         | [] \<Rightarrow> REPLACEMENT)
      else if in_range 240 244 a then
        (case s of
           b # r \<Rightarrow>
             if utf8_second a b
             then (case r of
                 c # r' \<Rightarrow>
                   if in_range 128 191 c
                   then (case r' of
                       d # r'' \<Rightarrow> if in_range 128 191 d then a # b # c # d # utf8_lossy r'' else REPLACEMENT @ utf8_lossy r'
                     | [] \<Rightarrow> REPLACEMENT)
                   else REPLACEMENT @ utf8_lossy r
               | [] \<Rightarrow> REPLACEMENT)
             else REPLACEMENT @ utf8_lossy s
         | [] \<Rightarrow> REPLACEMENT)
      else REPLACEMENT @ utf8_lossy s)"

record config_parsers =
  parses_toml :: "string \<Rightarrow> bool"
  parses_json :: "string \<Rightarrow> bool"

definition validate_config :: "config_parsers \<Rightarrow> ConfigFormat \<Rightarrow> bytes \<Rightarrow> Error + unit" where
  "validate_config F format body =
     rbind (ok_or (from_utf8 body) (Error.Invalid CODE_INVALID_CONFIG)) (\<lambda>text.
     case format of
       Toml \<Rightarrow> if parses_toml F text then Inr () else Inl (Error.Invalid CODE_INVALID_CONFIG)
     | Json \<Rightarrow> if parses_json F text then Inr () else Inl (Error.Invalid CODE_INVALID_CONFIG)
     | _ \<Rightarrow> Inr ())"

section \<open>Credential literals\<close>

definition is_ascii_alnum :: "char \<Rightarrow> bool" where
  "is_ascii_alnum a \<longleftrightarrow> in_range 48 57 a \<or> in_range 65 90 a \<or> in_range 97 122 a"

definition is_ascii_hexdigit :: "char \<Rightarrow> bool" where
  "is_ascii_hexdigit a \<longleftrightarrow> in_range 48 57 a \<or> in_range 65 70 a \<or> in_range 97 102 a"

text \<open>\<open>str::find\<close>: where the first occurrence starts.\<close>

fun find_str :: "string \<Rightarrow> string \<Rightarrow> nat option" where
  "find_str p [] = (if p = [] then Some 0 else None)"
| "find_str p (a # s) = (if take (length p) (a # s) = p then Some 0 else map_option Suc (find_str p s))"

lemma find_str_Some: "find_str p s = Some i \<Longrightarrow> i \<le> length s \<and> take (length p) (drop i s) = p"
  by (induction s arbitrary: i) (auto split: if_splits)

lemma find_str_shorter:
  assumes "find_str p rest = Some i" and "p \<noteq> []"
  shows "length rest - (length p + i) < length rest" "length rest - (i + length p) < length rest"
proof -
  have "take (length p) (drop i rest) = p" using find_str_Some [OF assms(1)] by simp
  then have "drop i rest \<noteq> []" using assms(2) by auto
  then have "0 < length rest" "0 < length p" using assms(2) by (auto simp: not_le)
  then show "length rest - (length p + i) < length rest" "length rest - (i + length p) < length rest" by linarith+
qed

text \<open>The search for a prefix, again after each occurrence that is no credential.\<close>

function literal_after :: "(string \<Rightarrow> bool) \<Rightarrow> string \<Rightarrow> string \<Rightarrow> bool" where
  "literal_after valid p rest = (case find_str p rest of
     None \<Rightarrow> False
   | Some i \<Rightarrow>
       (let t = drop i rest; n = length (takeWhile is_ascii_alnum (drop (length p) t)) in
        if valid (take (length p + n) t) then True
        else if p = [] then False else literal_after valid p (drop (length p) t)))"
  by pat_completeness auto
termination
  by (relation "measure (\<lambda>(valid, p, rest). length rest)") (auto simp: find_str_shorter)

declare literal_after.simps [simp del]

definition hex_key_at :: "string \<Rightarrow> nat \<Rightarrow> bool" where
  "hex_key_at s i \<longleftrightarrow> s ! i = CHR ''0'' \<and> s ! (i + 1) \<in> {CHR ''x'', CHR ''X''}
     \<and> \<not> (i > 0 \<and> is_ascii_alnum (s ! (i - 1)))
     \<and> (let digits = length (takeWhile is_ascii_hexdigit (drop (i + 2) s)) in
        digits = 64 \<and> (case drop (i + 2 + digits) s of [] \<Rightarrow> True | a # _ \<Rightarrow> \<not> is_ascii_alnum a))"

definition is_token :: "primitives \<Rightarrow> string \<Rightarrow> bool" where
  "is_token P s = is_ok (token_keys_parse P s)"

definition is_node_key :: "primitives \<Rightarrow> string \<Rightarrow> bool" where
  "is_node_key P s = is_ok (decode_node_key (pr_crypto P) s)"

definition literal_in :: "primitives \<Rightarrow> string \<Rightarrow> string option" where
  "literal_in P line =
     (if find_str ''-----BEGIN'' line \<noteq> None \<and> find_str ''PRIVATE KEY-----'' line \<noteq> None then Some ''PEM private key''
      else if literal_after (is_token P) ''gvt1_'' line then Some ''galata-vault token''
      else if literal_after (is_node_key P) ''gvk1_'' line then Some ''galata-vault node key''
      else if list_ex (hex_key_at line) [0..<length line - 1] then Some ''hex private key''
      else None)"

definition scan_literals :: "primitives \<Rightarrow> bytes \<Rightarrow> Error + unit" where
  "scan_literals P body =
     (if list_ex (\<lambda>line. literal_in P line \<noteq> None) (split_on (CHR 0x0A) (utf8_lossy (bytes_chars body)))
      then Inl (Error.Invalid CODE_CREDENTIAL_LITERAL) else Inr ())"

section \<open>What the scan finds\<close>

lemma ascii_not_continuing:
  "in_range 0 127 c \<Longrightarrow> \<not> in_range 128 191 c" "in_range 0 127 c \<Longrightarrow> \<not> utf8_second a c"
  by (auto simp: in_range_def utf8_second_def Let_def)

lemma lossy_split:
  assumes "in_range 0 127 c"
  shows "utf8_lossy (a @ c # b) = utf8_lossy a @ c # utf8_lossy b"
proof (induction a rule: utf8_lossy.induct)
  case 1
  show ?case using assms by simp
next
  case (2 x s)
  note n = ascii_not_continuing [OF assms]
  show ?case
  proof (cases s)
    case Nil
    then show ?thesis by (simp add: n assms)
  next
    case (Cons y r)
    show ?thesis
    proof (cases "utf8_second x y")
      case False
      then show ?thesis using "2.IH" Cons by simp
    next
      case y: True
      show ?thesis
      proof (cases r)
        case Nil
        then show ?thesis using "2.IH" Cons y by (simp add: n assms)
      next
        case z: (Cons z r')
        show ?thesis
        proof (cases "in_range 128 191 z")
          case False
          then show ?thesis using "2.IH" Cons y z by simp
        next
          case zc: True
          show ?thesis
          proof (cases r')
            case Nil
            then show ?thesis using "2.IH" Cons y z zc by (simp add: n assms)
          next
            case (Cons w r'')
            then show ?thesis using "2.IH" \<open>s = y # r\<close> y z zc by (cases "in_range 128 191 w") simp_all
          qed
        qed
      qed
    qed
  qed
qed

lemma lossy_ascii_start: "list_all (in_range 0 127) w \<Longrightarrow> utf8_lossy (w @ b) = w @ utf8_lossy b"
  by (induction w) simp_all

lemma lossy_ascii:
  assumes "list_all (in_range 0 127) w" and "w \<noteq> []"
  shows "utf8_lossy (a @ w @ b) = utf8_lossy a @ w @ utf8_lossy b"
  using assms by (cases w) (simp_all add: lossy_split lossy_ascii_start)

lemma find_str_first: "\<exists>i \<le> length a. find_str p (a @ p @ b) = Some i"
proof (induction a)
  case Nil
  show ?case by (cases p; cases b) simp_all
next
  case (Cons x a)
  then show ?case by auto
qed

definition unbordered :: "string \<Rightarrow> bool" where
  "unbordered p \<longleftrightarrow> p \<noteq> [] \<and> list_all (\<lambda>k. drop k p \<noteq> take (length p - k) p) [1..<length p]"

lemma no_overlap:
  assumes "unbordered p" and "take (length p) (drop i (a @ p @ b)) = p" and "i < length a"
  shows "i + length p \<le> length a"
proof (rule ccontr)
  let ?k = "length a - i"
  assume "\<not> i + length p \<le> length a"
  then have k: "0 < ?k" "?k < length p" using assms(3) by auto
  have "drop i (a @ p @ b) = drop i a @ p @ b" using assms(3) by simp
  then have "take (length p) (drop i a @ p @ b) = p" using assms(2) by simp
  then have "drop ?k p = drop ?k (take (length p) (drop i a @ p @ b))" by simp
  also have "\<dots> = take (length p - ?k) p" using k by (simp add: drop_take)
  finally have "drop ?k p = take (length p - ?k) p" .
  moreover have "?k \<in> set [1..<length p]" using k by auto
  ultimately show False using assms(1) unfolding unbordered_def list_all_iff by blast
qed

lemma literal_after_found:
  assumes "unbordered p" and "list_all is_ascii_alnum body" and "b = [] \<or> \<not> is_ascii_alnum (hd b)" and "valid (p @ body)"
  shows "literal_after valid p (a @ (p @ body) @ b)"
proof (induction "length a" arbitrary: a rule: less_induct)
  case less
  let ?s = "a @ (p @ body) @ b"
  obtain i where i: "i \<le> length a" "find_str p ?s = Some i" using find_str_first [of a p "body @ b"] by auto
  show ?case
  proof (cases "i = length a")
    case True
    have "takeWhile is_ascii_alnum (body @ b) = body"
      using assms(2,3) by (cases b) (simp_all add: takeWhile_append list_all_iff)
    then show ?thesis using i True assms(4) by (simp add: literal_after.simps [of valid p "a @ p @ body @ b"] Let_def)
  next
    case False
    then have lt: "i < length a" using i(1) by simp
    have "take (length p) (drop i ?s) = p" using find_str_Some [OF i(2)] by simp
    then have le: "i + length p \<le> length a" using no_overlap [OF assms(1) _ lt, of "body @ b"] by simp
    have "drop (length p) (drop i ?s) = drop (i + length p) a @ (p @ body) @ b" using le by (simp add: add.commute)
    moreover have "literal_after valid p (drop (i + length p) a @ (p @ body) @ b)"
    proof -
      have "0 < length p" using assms(1) by (simp add: unbordered_def)
      then have "length (drop (i + length p) a) < length a" unfolding length_drop using lt by linarith
      then show ?thesis by (rule less)
    qed
    moreover have "p \<noteq> []" using assms(1) by (simp add: unbordered_def)
    ultimately show ?thesis using i(2) by (subst literal_after.simps) (simp add: Let_def)
  qed
qed

text \<open>A line that holds a credential makes the scan refuse the body.\<close>

lemma split_on_line:
  assumes "d \<notin> set w" and "w \<noteq> []"
  shows "\<exists>a' b'. a' @ w @ b' \<in> set (split_on d (a @ w @ b)) \<and> (b' = [] \<or> b \<noteq> [] \<and> hd b' = hd b)"
proof -
  have b: "\<exists>b' ls. split_on d (w @ b) = (w @ b') # ls \<and> (b' = [] \<or> b \<noteq> [] \<and> hd b' = hd b)"
    using assms(1)
  proof (induction w)
    case Nil
    show ?case by (cases b) (auto split: list.splits)
  next
    case (Cons x w)
    then show ?case by (auto split: list.splits)
  qed
  show ?thesis
  proof (induction a)
    case Nil
    then show ?case using b by (metis append_Nil list.set_intros(1))
  next
    case (Cons x a)
    then obtain a' b' where l: "a' @ w @ b' \<in> set (split_on d (a @ w @ b))" "b' = [] \<or> b \<noteq> [] \<and> hd b' = hd b" by blast
    obtain l ls where sp: "split_on d (a @ w @ b) = l # ls" by (cases "split_on d (a @ w @ b)") auto
    show ?case
    proof (cases "x = d \<or> a' @ w @ b' \<in> set ls")
      case True
      then show ?thesis using l sp by auto
    next
      case False
      then have "a' @ w @ b' = l" using l(1) sp by auto
      then have "(x # a') @ w @ b' \<in> set (split_on d ((x # a) @ w @ b))" using False sp by simp
      then show ?thesis using l(2) by blast
    qed
  qed
qed

lemma scan_refuses:
  assumes "list_all (in_range 0 127) w" and "w \<noteq> []" and "CHR 0x0A \<notin> set w"
    and "\<And>a b. b = [] \<or> \<not> is_ascii_alnum (hd b) \<Longrightarrow> literal_in P (a @ w @ b) \<noteq> None"
    and "bytes_chars body = a @ w @ b" and "b = [] \<or> \<not> is_ascii_alnum (hd b)"
  shows "scan_literals P body = Inl (Error.Invalid CODE_CREDENTIAL_LITERAL)"
proof -
  let ?a = "utf8_lossy a" and ?b = "utf8_lossy b"
  have alnum: "?b = [] \<or> \<not> is_ascii_alnum (hd ?b)"
  proof (cases b)
    case (Cons x s)
    have "is_ascii_alnum (hd (utf8_lossy (x # s))) \<Longrightarrow> in_range 0 127 x"
      by (auto simp: is_ascii_alnum_def in_range_def REPLACEMENT_def split: if_splits list.splits)
    then show ?thesis using assms(6) Cons by (cases "in_range 0 127 x") auto
  qed simp
  have "utf8_lossy (bytes_chars body) = ?a @ w @ ?b" using lossy_ascii assms(1,2,5) by simp
  then obtain a' b' where line: "a' @ w @ b' \<in> set (split_on (CHR 0x0A) (utf8_lossy (bytes_chars body)))"
    and b': "b' = [] \<or> ?b \<noteq> [] \<and> hd b' = hd ?b" using split_on_line [OF assms(3,2)] by metis
  have "literal_in P (a' @ w @ b') \<noteq> None" using assms(4) b' alnum by metis
  then show ?thesis using line by (auto simp: scan_literals_def list_ex_iff)
qed

section \<open>Tokens and keys\<close>

lemma digit_alnum: "digit a \<noteq> None \<Longrightarrow> is_ascii_alnum a"
  by (auto simp: digit_def is_ascii_alnum_def in_range_def Let_def split: if_splits)

lemma encoded_alnum: "list_all is_ascii_alnum (encode_fixed bs @ checksum c p (encode_fixed bs))"
  by (auto simp: list_all_iff intro: digit_alnum dest: encoded_char(1) checksum_char(1))

lemma alnum_ascii: "is_ascii_alnum a \<Longrightarrow> in_range 0 127 a"
  by (auto simp: is_ascii_alnum_def in_range_def)

lemma alnum_no_newline: "is_ascii_alnum a \<Longrightarrow> a \<noteq> CHR 0x0A"
  by (auto simp: is_ascii_alnum_def in_range_def)

lemma prefixes: "unbordered ''gvt1_''" "unbordered ''gvk1_''"
  by code_simp+

lemma checked_refused:
  assumes "p = ''gvt1_'' \<and> valid = is_token P \<or> p = ''gvk1_'' \<and> valid = is_node_key P"
    and "valid (encode_checked c p bs)"
    and "bytes_chars body = a @ encode_checked c p bs @ b" and "b = [] \<or> \<not> is_ascii_alnum (hd b)"
  shows "scan_literals P body = Inl (Error.Invalid CODE_CREDENTIAL_LITERAL)"
proof -
  let ?w = "encode_fixed bs @ checksum c p (encode_fixed bs)"
  have cred: "encode_checked c p bs = p @ ?w" by (simp add: encode_checked_def Let_def)
  have p: "unbordered p" "list_all (in_range 0 127) p" "CHR 0x0A \<notin> set p" "p \<noteq> []"
    using assms(1) prefixes by (auto simp: in_range_def)
  note w = encoded_alnum [of bs c p]
  have "literal_in P (a' @ (p @ ?w) @ b') \<noteq> None" if "b' = [] \<or> \<not> is_ascii_alnum (hd b')" for a' b'
  proof -
    have "literal_after valid p (a' @ (p @ ?w) @ b')"
      using p(1) w that assms(2) unfolding cred by (rule literal_after_found)
    then show ?thesis using assms(1) by (auto simp: literal_in_def)
  qed
  moreover have "list_all (in_range 0 127) (p @ ?w)" "CHR 0x0A \<notin> set (p @ ?w)"
    using w p(2,3) alnum_ascii alnum_no_newline by (auto simp: list_all_iff)
  moreover have "p @ ?w \<noteq> []" using p(4) by simp
  ultimately show ?thesis using assms(3,4) unfolding cred by (rule_tac scan_refuses) 
qed

lemma token_valid:
  assumes "wf_token_id i" and "wf_vault_id v" and "length s = 32"
  shows "is_token P (encode_checked (pr_crypto P) ''gvt1_'' (tid i @ vid v @ s))"
  using token_roundtrip [OF assms, of "pr_crypto P"]
  by (simp add: is_token_def token_keys_parse_def token_encode_def TOKEN_PREFIX_def is_ok_iff)

lemma node_key_valid:
  assumes "length bs = 32"
  shows "is_node_key P (encode_checked (pr_crypto P) ''gvk1_'' bs)"
  using assms decode_encode_checked [of bs "pr_crypto P" "''gvk1_''"] trim_encode_checked [of "''gvk1_''" "pr_crypto P" bs]
  by (simp add: is_node_key_def decode_node_key_def KEY_PREFIX_def KEY_LEN_def is_ok_iff ascii_printing_def)

text \<open>
  A credential in a config is always found: a body that holds a token or a node key anywhere, on any
  line, whatever bytes surround it (an alphanumeric character right after it makes it another
  string), is refused.
\<close>

theorem credential_refused:
  assumes "cred = token_string P (token_from_parts P i v s) \<and> wf_token_id i \<and> wf_vault_id v \<and> length s = 32
      \<or> cred = node_encode P k \<and> length (node_bytes k) = 32"
    and "bytes_chars body = a @ cred @ b" and "b = [] \<or> \<not> is_ascii_alnum (hd b)"
  shows "scan_literals P body = Inl (Error.Invalid CODE_CREDENTIAL_LITERAL)"
  using assms(1)
proof
  assume t: "cred = token_string P (token_from_parts P i v s) \<and> wf_token_id i \<and> wf_vault_id v \<and> length s = 32"
  then have "cred = encode_checked (pr_crypto P) ''gvt1_'' (tid i @ vid v @ s)"
    by (simp add: token_string_def token_encode_def token_from_parts_def Let_def TOKEN_PREFIX_def)
  then show ?thesis using checked_refused token_valid t assms(2,3) by metis
next
  assume n: "cred = node_encode P k \<and> length (node_bytes k) = 32"
  then have "cred = encode_checked (pr_crypto P) ''gvk1_'' (node_bytes k)"
    by (simp add: node_encode_def encode_node_key_def KEY_PREFIX_def)
  then show ?thesis using checked_refused node_key_valid n assms(2,3) by metis
qed

end
