(* ===== verification/Token_Client.thy ===== *)
theory Token_Client
  imports Vault_Owner Config_Check Paths
begin

text \<open>
  The token client (\<open>token.rs\<close>, \<open>value.rs\<close>) and an environment opened by its owner (\<open>owner/env.rs\<close>): the
  public operations on one vault. Each runs on the session of a handle; reserved names, unsafe configs
  and missing authority are refused before the first request.
\<close>

section \<open>Values\<close>

record SecretValue =
  se_name :: string
  se_version :: nat
  se_value :: bytes

record ConfigDocument =
  cd_name :: string
  cd_version :: nat
  cd_format :: ConfigFormat
  cd_body :: bytes

datatype Expect = Version nat | Absent

record NewConfig =
  nc_format :: ConfigFormat
  nc_body :: bytes
  nc_allow_literals :: bool
  nc_expect :: "Expect option"

record Entry =
  ey_name :: string
  ey_version :: nat
  ey_updated_at :: int
  ey_size :: u32
  ey_deleted :: bool

record Expiries =
  xp_token :: "int option"
  xp_vault :: "int option"

definition new_config :: "ConfigFormat \<Rightarrow> bytes \<Rightarrow> NewConfig" where
  "new_config format body = \<lparr>nc_format = format, nc_body = body, nc_allow_literals = False, nc_expect = None\<rparr>"

definition set_get :: "SecretValue list \<Rightarrow> string \<Rightarrow> SecretValue option" where
  "set_get values name = find (\<lambda>v. se_name v = name) values"

definition config_text :: "ConfigDocument \<Rightarrow> Error + string" where
  "config_text d = ok_or (from_utf8 (cd_body d)) (Error.Invalid CODE_NOT_TEXT)"

text \<open>The two deserializers are parameters.\<close>

definition config_deserialize :: "(string \<Rightarrow> 'a option) \<Rightarrow> (bytes \<Rightarrow> 'a option) \<Rightarrow> ConfigDocument \<Rightarrow> Error + 'a" where
  "config_deserialize toml json d = (case cd_format d of
     Toml \<Rightarrow> rbind (config_text d) (\<lambda>text. ok_or (toml text) (Error.Invalid CODE_INVALID_CONFIG))
   | Json \<Rightarrow> ok_or (json (cd_body d)) (Error.Invalid CODE_INVALID_CONFIG)
   | _ \<Rightarrow> Inl (Error.Invalid CODE_UNSUPPORTED_FORMAT))"

section \<open>Opening\<close>

definition refuse_reserved :: "string \<Rightarrow> Error + unit" where
  "refuse_reserved name =
     (if is_reserved_name name \<or> name = [] then Inl (Error.Invalid CODE_INVALID_NAME) else Inr ())"

definition parse_token :: "primitives \<Rightarrow> string \<Rightarrow> Error + TokenKeys" where
  "parse_token P token = map_err (\<lambda>_. Error.Auth CODE_INVALID_TOKEN) (token_keys_parse P token)"

fun word_of :: "string \<Rightarrow> string \<times> string" where
  "word_of [] = ([], [])"
| "word_of (a # s) = (if length (trim_start (a # s)) < length (a # s) then ([], a # s)
     else (case word_of s of (w, r) \<Rightarrow> (a # w, r)))"

lemma word_of_rest: "length (snd (word_of s)) \<le> length s"
  by (induction s) (auto split: prod.splits)

text \<open>\<open>split_whitespace\<close>.\<close>

function split_whitespace :: "string \<Rightarrow> string list" where
  "split_whitespace s = (let t = trim_start s in
     if t = [] then []
     else if fst (word_of t) = [] then []
     else fst (word_of t) # split_whitespace (snd (word_of t)))"
  by pat_completeness auto

lemma trim_start_length: "length (trim_start s) \<le> length s"
  by (induction s rule: trim_start.induct) (auto intro: le_trans)

lemma word_of_parts: "fst (word_of s) @ snd (word_of s) = s"
  by (induction s) (auto split: prod.splits)

termination split_whitespace
proof (relation "measure length")
  fix s and t :: string
  assume t: "t = trim_start s" and ne: "fst (word_of t) \<noteq> []"
  have "length (fst (word_of t)) + length (snd (word_of t)) = length t"
    by (metis length_append word_of_parts)
  then show "(snd (word_of t), s) \<in> measure length"
    using ne trim_start_length [of s] t by (cases "fst (word_of t)") auto
qed simp

declare split_whitespace.simps [simp del]

text \<open>A token file on Unix: its permission bits (the metadata may be unreadable), then its text.\<close>

definition read_token_file :: "nat option \<Rightarrow> string option \<Rightarrow> Error + string" where
  "read_token_file mode content =
     rbind (ok_or mode (Error.Invalid CODE_INVALID_TOKEN_FILE)) (\<lambda>m.
     if m mod 512 \<noteq> 384 \<and> m mod 512 \<noteq> 256 then Inl (Error.Invalid CODE_INVALID_TOKEN_FILE)
     else rbind (ok_or content (Error.Invalid CODE_INVALID_TOKEN_FILE)) (\<lambda>text.
       case split_whitespace text of
         [token] \<Rightarrow> Inr token
       | _ \<Rightarrow> Inl (Error.Invalid CODE_INVALID_TOKEN_FILE)))"

definition token_open :: "'x outside \<Rightarrow> TokenKeys \<Rightarrow> ('x api_state, Error, Handle) action" where
  "token_open E keys = open_token E keys ''the token's vault''"

definition with_token :: "'x outside \<Rightarrow> string \<Rightarrow> ('x api_state, Error, Handle) action" where
  "with_token E token = abind (alift (parse_token (ou_prims E) token)) (token_open E)"

text \<open>
  The environment's choice: the variables are read by \<open>set\<close>, which treats an empty one as unset.
  \<open>Inl\<close> is a token string, \<open>Inr\<close> the path of a token file, each with the server.
\<close>

definition env_var :: "string option \<Rightarrow> string option" where
  "env_var v = (case v of Some [] \<Rightarrow> None | _ \<Rightarrow> v)"

definition env_credential ::
    "string option \<Rightarrow> string option \<Rightarrow> string option \<Rightarrow> Error + ((string + string) \<times> string)" where
  "env_credential gv_token gv_token_file gv_server =
     (let token = env_var gv_token; file = env_var gv_token_file in
      if token \<noteq> None \<and> file \<noteq> None then Inl (Error.Invalid CODE_INVALID_ENVIRONMENT)
      else rbind (ok_or (env_var gv_server) (Error.Invalid CODE_MISSING_SERVER)) (\<lambda>server.
        case (token, file) of
          (Some t, None) \<Rightarrow> Inr (Inl t, server)
        | (None, Some f) \<Rightarrow> Inr (Inr f, server)
        | _ \<Rightarrow> Inl (Error.Auth CODE_INVALID_TOKEN)))"

definition vault_scope :: "Handle \<Rightarrow> Scope" where
  "vault_scope h = (case vw_scope (hn_view h) of Some s \<Rightarrow> s | None \<Rightarrow> Scope.Admin)"

definition vault_expiry :: "Handle \<Rightarrow> Expiries" where
  "vault_expiry h = \<lparr>xp_token = vw_token_expires_at (hn_view h), xp_vault = last_expires_at h\<rparr>"

section \<open>Reading\<close>

definition entries :: "Item list \<Rightarrow> bool \<Rightarrow> Entry list" where
  "entries items with_deleted =
     map (\<lambda>i. \<lparr>ey_name = it_name i, ey_version = it_version i, ey_updated_at = it_updated_at i, ey_size = it_size i,
         ey_deleted = it_tombstone i\<rparr>)
       (filter (\<lambda>i. (with_deleted \<or> \<not> it_tombstone i) \<and> \<not> is_reserved_name (it_name i)) items)"

definition get_value :: "'x outside \<Rightarrow> string \<Rightarrow> nat option \<Rightarrow> ('x, SecretValue) hop" where
  "get_value E name version = abind (vault_get E name version) (\<lambda>(n, opened).
     aret \<lparr>se_name = name, se_version = n, se_value = op_value opened\<rparr>)"

definition client_read :: "'x outside \<Rightarrow> string \<Rightarrow> nat option \<Rightarrow> ('x, SecretValue) hop" where
  "client_read E name version = abind (hask hn_view) (\<lambda>v.
     if \<not> may_read v (name_hmac (ou_prims E) (bundle_name_key (vw_bundle v)) name) then afail Error.Forbidden
     else get_value E name version)"

definition client_secrets :: "'x outside \<Rightarrow> string list \<Rightarrow> ('x, SecretValue list) hop" where
  "client_secrets E names = acollect (\<lambda>name. client_read E name None) names"

definition readable_item :: "View \<Rightarrow> string list \<Rightarrow> Item \<Rightarrow> bool" where
  "readable_item v only i \<longleftrightarrow>
     \<not> (it_tombstone i \<or> is_reserved_name (it_name i) \<or> only \<noteq> [] \<and> it_name i \<notin> set only \<or> \<not> may_read v (it_hmac i))"

definition client_readable :: "'x outside \<Rightarrow> string list option \<Rightarrow> ('x session, Error, SecretValue list) loop" where
  "client_readable E only =
     lbind (ended (hask hn_view)) (\<lambda>v.
     lbind (ended (alift (view_vault_secret v))) (\<lambda>_.
     lbind (vault_list E RecordKind.Secret) (\<lambda>all.
     let names = (case only of Some l \<Rightarrow> l | None \<Rightarrow> []) in
     ended (
       if list_ex (\<lambda>want. \<not> list_ex (\<lambda>i. it_name i = want \<and> \<not> it_tombstone i) all) names then afail Error.NotFound
       else acollect (\<lambda>i. get_value E (it_name i) (Some (it_version i))) (filter (readable_item v names) all)))))"

definition client_list :: "'x outside \<Rightarrow> RecordKind \<Rightarrow> bool \<Rightarrow> ('x session, Error, Entry list) loop" where
  "client_list E kind with_deleted = lbind (vault_list E kind) (\<lambda>items. ended (aret (entries items with_deleted)))"

definition client_config :: "'x outside \<Rightarrow> string \<Rightarrow> nat option \<Rightarrow> ('x, ConfigDocument) hop" where
  "client_config E name version = abind (vault_get_config E name version) (\<lambda>(n, opened).
     aret \<lparr>cd_name = name, cd_version = n, cd_format = oc_format opened, cd_body = oc_body opened\<rparr>)"

section \<open>Writing\<close>

definition set_secret :: "'x outside \<Rightarrow> string \<Rightarrow> bytes \<Rightarrow> ('x, nat) hop" where
  "set_secret E name val =
     abind (alift (refuse_reserved name)) (\<lambda>_.
     abind (vault_current E RecordKind.Secret name) (\<lambda>pre.
     vault_put E name val pre))"

text \<open>\<open>If-None-Match: *\<close> on a live record: a revival the server refuses.\<close>

definition absent_pre :: "Pre \<Rightarrow> Pre" where
  "absent_pre pre = (case pre of Update v \<Rightarrow> Revive v | other \<Rightarrow> other)"

definition set_secret_expecting :: "'x outside \<Rightarrow> string \<Rightarrow> bytes \<Rightarrow> Expect \<Rightarrow> ('x, nat) hop" where
  "set_secret_expecting E name val expect =
     abind (alift (refuse_reserved name)) (\<lambda>_.
     abind (case expect of
         Version v \<Rightarrow> aret (Update v)
       | Absent \<Rightarrow> abind (vault_current E RecordKind.Secret name) (\<lambda>pre. aret (absent_pre pre))) (\<lambda>pre.
     vault_put E name val pre))"

definition client_delete :: "'x outside \<Rightarrow> RecordKind \<Rightarrow> string \<Rightarrow> nat option \<Rightarrow> ('x, nat) hop" where
  "client_delete E kind name expected =
     abind (alift (refuse_reserved name)) (\<lambda>_.
     abind (case expected of
         Some v \<Rightarrow> aret v
       | None \<Rightarrow> abind (vault_current E kind name) (\<lambda>pre. case pre of
           Create \<Rightarrow> afail Error.NotFound
         | Revive v \<Rightarrow> afail Error.NotFound
         | Update v \<Rightarrow> aret v)) (\<lambda>version.
     vault_delete E kind name version))"

definition set_config :: "'x outside \<Rightarrow> config_parsers \<Rightarrow> string \<Rightarrow> NewConfig \<Rightarrow> ('x, nat) hop" where
  "set_config E F name config =
     abind (alift (refuse_reserved name)) (\<lambda>_.
     abind (alift (validate_config F (nc_format config) (nc_body config))) (\<lambda>_.
     abind (alift (if \<not> nc_allow_literals config then scan_literals (ou_prims E) (nc_body config) else Inr ())) (\<lambda>_.
     abind (case nc_expect config of
         Some (Version v) \<Rightarrow> aret (Update v)
       | Some Absent \<Rightarrow> abind (vault_current E RecordKind.Config name) (\<lambda>pre. aret (absent_pre pre))
       | None \<Rightarrow> vault_current E RecordKind.Config name) (\<lambda>pre.
     vault_put_config E name (nc_format config) (nc_body config) pre))))"

section \<open>Tokens\<close>

record TokenInfo =
  ti_id :: TokenId
  ti_scope :: "Scope Tolerant"
  ti_created_at :: int
  ti_expires_at :: int
  ti_only :: "string list option"

record Revocation =
  rv_scope :: "Scope Tolerant"
  rv_rotated_to :: "u32 option"

definition forward_only :: "Revocation \<Rightarrow> bool" where
  "forward_only r \<longleftrightarrow> rv_rotated_to r = None \<and> \<not> tolerant_eq (rv_scope r) Scope.Meta"

fun join_words :: "string \<Rightarrow> string list \<Rightarrow> string" where
  "join_words sep [] = []"
| "join_words sep [w] = w"
| "join_words sep (w # ws) = w @ sep @ join_words sep ws"

definition held_keys :: "Scope \<Rightarrow> string" where
  "held_keys s = join_words '', ''
     ((if bundle_holds_vault_key s then [''the secret key''] else [])
      @ (if bundle_holds_config_key s then [''the config key''] else [])
      @ (if bundle_holds_secret_writer s then [''the secret writer key''] else [])
      @ (if bundle_holds_config_writer s then [''the config writer key''] else []))"

definition revocation_held_keys :: "Revocation \<Rightarrow> string" where
  "revocation_held_keys r = (case tolerant_known (rv_scope r) of
     Some s \<Rightarrow> held_keys s
   | None \<Rightarrow> ''keys this client cannot name (its scope is newer than this client)'')"

definition scope_text :: "Scope Tolerant \<Rightarrow> string" where
  "scope_text t = (case t of Known s \<Rightarrow> scope_as_str s | Tolerant.Unknown s \<Rightarrow> s)"

text \<open>A token list with the names of its allow-lists; \<open>?\<close> for a name the listing does not have.\<close>

definition token_infos :: "Item list \<Rightarrow> TokenSummary list \<Rightarrow> TokenInfo list" where
  "token_infos items ts =
     (let names = map_of (rev (map (\<lambda>i. (it_hmac i, it_name i)) items)) in
      map (\<lambda>t. \<lparr>ti_id = ts_token_id t, ti_scope = ts_scope t, ti_created_at = ts_created_at t,
          ti_expires_at = ts_expires_at t,
          ti_only = map_option (map (\<lambda>n. case names n of Some s \<Rightarrow> s | None \<Rightarrow> ''?'')) (ts_allow_list t)\<rparr>) ts)"

definition client_tokens :: "'x outside \<Rightarrow> Scope \<Rightarrow> ('x session, Error, TokenInfo list) loop" where
  "client_tokens E scope =
     (if scope \<noteq> Scope.Admin then ended (afail Error.Forbidden)
      else
        lbind (ended (refresh_status E)) (\<lambda>status.
        lbind (ended (alift (ok_or (vs_tokens status) Error.Other))) (\<lambda>ts.
        lbind (vault_list E RecordKind.Secret) (\<lambda>items.
        ended (aret (token_infos items ts))))))"

definition scope_of_token :: "TokenSummary list option \<Rightarrow> TokenId \<Rightarrow> Error + Scope Tolerant" where
  "scope_of_token ts t = (case ts of
     None \<Rightarrow> Inl Error.NotFound
   | Some l \<Rightarrow> (case find (\<lambda>x. ts_token_id x = t) l of None \<Rightarrow> Inl Error.NotFound | Some x \<Rightarrow> Inr (ts_scope x)))"

definition warn_forward_only :: "'x outside \<Rightarrow> string \<Rightarrow> TokenId \<Rightarrow> Revocation \<Rightarrow> ('x, unit) hop" where
  "warn_forward_only E path t r =
     (if forward_only r
      then hcall id (notify (Notice.Warning (ForwardOnlyRevocation path (token_id_to_hex (pr_crypto (ou_prims E)) t)
        (scope_text (rv_scope r)) (revocation_held_keys r))))
      else aret ())"

definition client_revoke :: "'x outside \<Rightarrow> Scope \<Rightarrow> TokenId \<Rightarrow> ('x, Revocation) hop" where
  "client_revoke E scope t =
     (if scope \<noteq> Scope.Admin then afail Error.Forbidden
      else
        abind (refresh_status E) (\<lambda>status.
        abind (alift (scope_of_token (vs_tokens status) t)) (\<lambda>sc.
        abind (vault_revoke E t) (\<lambda>_.
        abind (hask hn_label) (\<lambda>label.
        let r = \<lparr>rv_scope = sc, rv_rotated_to = None\<rparr> in
        abind (warn_forward_only E label t r) (\<lambda>_. aret r))))))"

definition verify_vault_audit :: "'x outside \<Rightarrow> ChainHead option \<Rightarrow> ('x session, Error, AuditReport) loop" where
  "verify_vault_audit E known = lbind (verify_audit E known 0) (\<lambda>raw. ended (aret (audit_report E raw)))"

record LeakReport =
  lr_token_id :: TokenId
  lr_revoked :: bool

definition report_leaked_token :: "'x outside \<Rightarrow> string \<Rightarrow> ('x api_state, Error, LeakReport) action" where
  "report_leaked_token E token =
     abind (alift (parse_token (ou_prims E) token)) (\<lambda>keys.
     abind (report_token E keys) (\<lambda>revoked.
     aret \<lparr>lr_token_id = tk_id keys, lr_revoked = tk_id keys \<in> set revoked\<rparr>))"

section \<open>An environment opened by its owner\<close>

record Environment =
  ev_handle :: Handle
  ev_path :: EnvPath
  ev_status :: VaultStatus

definition environment_new :: "Handle \<Rightarrow> EnvPath \<Rightarrow> Error + Environment" where
  "environment_new h path = rbind (ok_or (vw_status (hn_view h)) Error.Other) (\<lambda>status.
     Inr \<lparr>ev_handle = h, ev_path = path, ev_status = status\<rparr>)"

record MintedToken =
  mt_id :: TokenId
  mt_scope :: Scope
  mt_expires_at :: int
  mt_token :: string

definition visible_tokens :: "VaultStatus \<Rightarrow> Error + TokenSummary list" where
  "visible_tokens status = ok_or (vs_tokens status) Error.Other"

definition env_tokens :: "'x outside \<Rightarrow> VaultStatus \<Rightarrow> ('x session, Error, TokenInfo list) loop" where
  "env_tokens E status =
     lbind (ended (alift (visible_tokens status))) (\<lambda>ts.
     lbind (vault_list E RecordKind.Secret) (\<lambda>items.
     ended (aret (token_infos items ts))))"

definition env_mint :: "'x outside \<Rightarrow> VaultStatus \<Rightarrow> Scope \<Rightarrow> nat \<Rightarrow> string list \<Rightarrow> ('x, MintedToken) hop" where
  "env_mint E status scope ttl only =
     abind (alift (visible_tokens status)) (\<lambda>ts.
     if list_ex (\<lambda>t. tolerant_known (ts_scope t) = None) ts then afail unsupported
     else
       abind (hask (\<lambda>h. map (name_hmac (ou_prims E) (bundle_name_key (vw_bundle (hn_view h)))) only)) (\<lambda>hmacs.
       abind (vault_mint E scope ttl (if only \<noteq> [] then Some hmacs else None)) (\<lambda>(token, i, expires_at).
       aret \<lparr>mt_id = i, mt_scope = scope, mt_expires_at = expires_at, mt_token = token_string (ou_prims E) token\<rparr>)))"

definition env_revoke :: "'x outside \<Rightarrow> EnvPath \<Rightarrow> VaultStatus \<Rightarrow> TokenId \<Rightarrow> bool \<Rightarrow> ('x session, Error, Revocation) loop" where
  "env_revoke E path status t rotated =
     lbind (ended (alift (scope_of_token (vs_tokens status) t))) (\<lambda>sc.
     if rotated
     then lbind (vault_rotate E [t]) (\<lambda>generation. ended (aret \<lparr>rv_scope = sc, rv_rotated_to = Some generation\<rparr>))
     else ended (
       abind (vault_revoke E t) (\<lambda>_.
       let r = \<lparr>rv_scope = sc, rv_rotated_to = None\<rparr> in
       abind (warn_forward_only E (path_to_string path) t r) (\<lambda>_. aret r))))"

end
