(* ===== verification/Token_Props.thy ===== *)
theory Token_Props
  imports Token_Client Vault_Props
begin

text \<open>What the token client refuses before it sends anything.\<close>

lemma alift_Inl [simp]: "abind (alift (Inl e)) f s = (Inl e, s)"
  by (simp add: abind_def alift_def)

lemma refusal_kinds [simp]:
  "err_kind (Error.Invalid CODE_INVALID_NAME) = ErrorKind.Invalid"
  "err_kind (Error.Invalid CODE_INVALID_CONFIG) = ErrorKind.Invalid"
  "err_kind (Error.Invalid CODE_CREDENTIAL_LITERAL) = ErrorKind.Invalid"
  by code_simp+

text \<open>
  C9. A credential never leaves the client in a config: writing a config whose body holds a token or a
  node key anywhere, on any line and between any bytes (an alphanumeric character right after it makes
  it another string), fails with an error of kind invalid unless literals were allowed, and nothing
  has been sent: the session, with all the outside it holds, is unchanged.
\<close>

theorem credential_never_sent:
  assumes "cred = token_string (ou_prims E) (token_from_parts (ou_prims E) i v k) \<and> wf_token_id i \<and> wf_vault_id v \<and> length k = 32
      \<or> cred = node_encode (ou_prims E) key \<and> length (node_bytes key) = 32"
    and "bytes_chars (nc_body config) = a @ cred @ b" and "b = [] \<or> \<not> is_ascii_alnum (hd b)"
    and "\<not> nc_allow_literals config"
  shows "\<exists>e. set_config E F name config s = (Inl e, s) \<and> err_kind e = ErrorKind.Invalid"
proof -
  have lit: "scan_literals (ou_prims E) (nc_body config) = Inl (Error.Invalid CODE_CREDENTIAL_LITERAL)"
    by (rule credential_refused [OF assms(1-3)])
  consider (name) "refuse_reserved name = Inl (Error.Invalid CODE_INVALID_NAME)" | (ok) "refuse_reserved name = Inr ()"
    by (cases "is_reserved_name name \<or> name = []") (auto simp: refuse_reserved_def)
  then show ?thesis
  proof cases
    case name
    then show ?thesis by (simp add: set_config_def)
  next
    case ok
    have "validate_config F (nc_format config) (nc_body config) \<in> {Inl (Error.Invalid CODE_INVALID_CONFIG), Inr ()}"
      by (cases "from_utf8 (nc_body config)"; cases "nc_format config") (simp_all add: validate_config_def)
    then consider (bad) "validate_config F (nc_format config) (nc_body config) = Inl (Error.Invalid CODE_INVALID_CONFIG)"
      | (good) "validate_config F (nc_format config) (nc_body config) = Inr ()" by blast
    then show ?thesis
      by cases (simp_all add: set_config_def ok lit assms(4) abind_def alift_def)
  qed
qed

theorem credential_never_sent_witness:
  "\<exists>e. set_config (ex_server undefined) \<lparr>parses_toml = (\<lambda>_. True), parses_json = (\<lambda>_. True)\<rparr> ''app''
      (new_config Text (str_bytes (''key = '' @ node_encode toy (NodeKey (replicate 32 7)) @ ''; x''))) (ex_session 1)
      = (Inl e, ex_session 1) \<and> err_kind e = ErrorKind.Invalid"
  by (rule credential_never_sent [where cred = "node_encode toy (NodeKey (replicate 32 7))" and key = "NodeKey (replicate 32 7)"
        and a = "''key = ''" and b = "''; x''"])
    (simp_all add: is_ascii_alnum_def in_range_def new_config_def)

text \<open>
  C31. What cannot be allowed is refused before any request: a write or a deletion under a reserved or an
  empty name, a listing or a revocation of tokens with a scope other than \<open>admin\<close>, a mint while the
  vault has a token of a scope this client does not know or while the token list was withheld, and a
  read of a secret outside a token's allow-list all fail at once, the session and the outside unchanged.
\<close>

theorem refused_before_request:
  shows "(is_reserved_name name \<or> name = [] \<longrightarrow>
      set_secret E name val s = (Inl (Error.Invalid CODE_INVALID_NAME), s)
    \<and> set_secret_expecting E name val x s = (Inl (Error.Invalid CODE_INVALID_NAME), s)
    \<and> client_delete E kind name n s = (Inl (Error.Invalid CODE_INVALID_NAME), s)
    \<and> set_config E F name config s = (Inl (Error.Invalid CODE_INVALID_NAME), s))
    \<and> (scope \<noteq> Scope.Admin \<longrightarrow>
      client_tokens E scope s = Some (Inl Error.Forbidden, s) \<and> client_revoke E scope t s = (Inl Error.Forbidden, s))
    \<and> (is_none_or (list_ex (\<lambda>x. tolerant_known (ts_scope x) = None)) (vs_tokens status) \<longrightarrow>
      (\<exists>e. env_mint E status minted ttl only s = (Inl e, s)))
    \<and> (\<not> is_none_or (list_ex (\<lambda>n. n = name_hmac (ou_prims E) (bundle_name_key (vw_bundle (hn_view (se_handle s)))) name))
          (vw_allow_list (hn_view (se_handle s))) \<longrightarrow>
      client_read E name version s = (Inl Error.Forbidden, s))"
proof (intro conjI impI)
  assume "is_reserved_name name \<or> name = []"
  then show "set_secret E name val s = (Inl (Error.Invalid CODE_INVALID_NAME), s)"
    "set_secret_expecting E name val x s = (Inl (Error.Invalid CODE_INVALID_NAME), s)"
    "client_delete E kind name n s = (Inl (Error.Invalid CODE_INVALID_NAME), s)"
    "set_config E F name config s = (Inl (Error.Invalid CODE_INVALID_NAME), s)"
    by (simp_all add: set_secret_def set_secret_expecting_def client_delete_def set_config_def refuse_reserved_def)
next
  assume "scope \<noteq> Scope.Admin"
  then show "client_tokens E scope s = Some (Inl Error.Forbidden, s)" "client_revoke E scope t s = (Inl Error.Forbidden, s)"
    by (simp_all add: client_tokens_def client_revoke_def)
next
  assume "is_none_or (list_ex (\<lambda>x. tolerant_known (ts_scope x) = None)) (vs_tokens status)"
  then show "\<exists>e. env_mint E status minted ttl only s = (Inl e, s)"
    by (cases "vs_tokens status") (simp_all add: env_mint_def visible_tokens_def is_none_or_def abind_def alift_def)
next
  assume "\<not> is_none_or (list_ex (\<lambda>n. n = name_hmac (ou_prims E) (bundle_name_key (vw_bundle (hn_view (se_handle s)))) name))
      (vw_allow_list (hn_view (se_handle s)))"
  then have "\<not> may_read (hn_view (se_handle s)) (name_hmac (ou_prims E) (bundle_name_key (vw_bundle (hn_view (se_handle s)))) name)"
    by (auto simp: may_read_def is_none_or_def list_ex_iff split: option.splits)
  then show "client_read E name version s = (Inl Error.Forbidden, s)"
    by (simp add: client_read_def abind_def hask_def)
qed

theorem refused_before_request_witness:
  "set_secret (ex_server undefined) ''gv:x'' [1] (ex_session 1) = (Inl (Error.Invalid CODE_INVALID_NAME), ex_session 1)
    \<and> client_revoke (ex_server undefined) Scope.Read (TokenId []) (ex_session 1) = (Inl Error.Forbidden, ex_session 1)"
proof -
  have "is_reserved_name ''gv:x''" by (simp add: is_reserved_name_def RESERVED_PREFIX_def)
  then show ?thesis using refused_before_request [of "''gv:x''" "ex_server undefined" "[1]" "ex_session 1" _ _ _ _ _ Scope.Read "TokenId []"] by simp
qed

end
