(* ===== verification/Suggest.thy ===== *)
theory Suggest
  imports Paths
begin

text \<open>
  "Did you mean": the edit distance and the closest candidate (\<open>owner/mod.rs\<close>), with the distance shown
  to be the least number of single-character edits.
\<close>

section \<open>The distance, row by row\<close>

text \<open>\<open>str::chars\<close>: the characters of a string, as their UTF-8 bytes.\<close>

definition continues :: "char \<Rightarrow> bool" where
  "continues a \<longleftrightarrow> 128 \<le> (of_char a :: nat) \<and> of_char a < (192 :: nat)"

function utf8_chars :: "string \<Rightarrow> string list" where
  "utf8_chars [] = []"
| "utf8_chars (a # s) = (a # takeWhile continues s) # utf8_chars (dropWhile continues s)"
  by pat_completeness auto
termination
  by (relation "measure length") (auto simp: le_imp_less_Suc length_dropWhile_le)

text \<open>One row of the table from the one above it: \<open>diag\<close> and \<open>left\<close> are \<open>prev\<close> and \<open>row[j]\<close>.\<close>

fun lev_cells :: "'a \<Rightarrow> 'a list \<Rightarrow> nat \<Rightarrow> nat \<Rightarrow> nat list \<Rightarrow> nat list" where
  "lev_cells ca (cb # b) diag left (cur # row) =
     (let v = min (min (diag + (if ca \<noteq> cb then 1 else 0)) (left + 1)) (cur + 1) in v # lev_cells ca b cur v row)"
| "lev_cells ca b diag left row = []"

definition lev_row :: "'a \<Rightarrow> 'a list \<Rightarrow> nat \<Rightarrow> nat list \<Rightarrow> nat list" where
  "lev_row ca b i row = (i + 1) # lev_cells ca b (hd row) (i + 1) (tl row)"

fun lev_rows :: "'a list \<Rightarrow> 'a list \<Rightarrow> nat \<Rightarrow> nat list \<Rightarrow> nat list" where
  "lev_rows [] b i row = row"
| "lev_rows (ca # a) b i row = lev_rows a b (i + 1) (lev_row ca b i row)"

definition levenshtein :: "'a list \<Rightarrow> 'a list \<Rightarrow> nat" where
  "levenshtein a b = lev_rows a b 0 [0..<length b + 1] ! length b"

text \<open>\<open>min\<close> of pairs, the distance first; \<open>None\<close> of an empty iterator.\<close>

definition closest :: "string \<Rightarrow> string list \<Rightarrow> string option" where
  "closest target candidates =
     (let limit = max (length target div 3) 2;
          near = filter (\<lambda>(d, _). d \<le> limit) (map (\<lambda>c. (levenshtein (utf8_chars target) (utf8_chars c), c)) candidates)
      in case near of [] \<Rightarrow> None
         | p # ps \<Rightarrow> Some (snd (fold (\<lambda>(d, c) (d', c'). if d < d' \<or> d = d' \<and> c < c' then (d, c) else (d', c')) ps p)))"

section \<open>Edits\<close>

inductive one_edit :: "'a list \<Rightarrow> 'a list \<Rightarrow> bool" where
  Insert: "one_edit xs (y # xs)"
| Remove: "one_edit (x # xs) xs"
| Replace: "one_edit (x # xs) (y # xs)"
| Later: "one_edit xs ys \<Longrightarrow> one_edit (x # xs) (x # ys)"

inductive align :: "'a list \<Rightarrow> 'a list \<Rightarrow> nat \<Rightarrow> bool" where
  Done: "align [] [] 0"
| Keep: "align xs ys n \<Longrightarrow> align (x # xs) (x # ys) n"
| Change: "align xs ys n \<Longrightarrow> align (x # xs) (y # ys) (Suc n)"
| Drop: "align xs ys n \<Longrightarrow> align (x # xs) ys (Suc n)"
| Add: "align xs ys n \<Longrightarrow> align xs (y # ys) (Suc n)"

inductive_cases align_Cons_right: "align xs (y # ys) n"
inductive_cases align_Nil_right: "align xs [] n"
inductive_cases align_Cons_left: "align (x # xs) ys n"

lemma align_refl: "align xs xs 0"
  by (induction xs) (auto intro: align.intros)

lemma align_Add_inv:
  "align xs (y # ys) n \<Longrightarrow> \<exists>m. align xs ys m \<and> m \<le> Suc n"
proof (induction xs "y # ys" n rule: align.induct)
  case (Keep xs n)
  then show ?case by (blast intro: align.Drop)
next
  case (Change xs n x)
  then show ?case by (meson align.Drop le_SucI order_refl)
next
  case (Drop xs n x)
  then show ?case by (meson align.Drop Suc_le_mono)
next
  case (Add xs n)
  then show ?case by (meson le_SucI order_refl)
qed

lemma align_edit:
  "align xs ys n \<Longrightarrow> one_edit ys zs \<Longrightarrow> \<exists>m. align xs zs m \<and> m \<le> Suc n"
proof (induction arbitrary: zs rule: align.induct)
  case Done
  then obtain y where "zs = [y]" by cases auto
  then show ?case using align.Add [OF align.Done, of y] by (intro exI [of _ "Suc 0"]) simp
next
  case (Keep xs ys n x)
  from Keep.prems show ?case
  proof cases
    case (Insert y)
    then show ?thesis using Keep.hyps by (meson align.Add align.Keep order_refl)
  next
    case Remove
    then show ?thesis using Keep.hyps by (metis align.Drop order_refl)
  next
    case (Replace y)
    then show ?thesis using Keep.hyps by (meson align.Change order_refl)
  next
    case (Later ys')
    then show ?thesis using Keep.IH by (meson align.Keep)
  qed
next
  case (Change xs ys n x y)
  from Change.prems show ?case
  proof cases
    case (Insert y)
    then show ?thesis using Change.hyps by (meson align.Add align.Change order_refl)
  next
    case Remove
    then show ?thesis using Change.hyps by (metis align.Drop le_SucI order_refl)
  next
    case (Replace y)
    then show ?thesis using Change.hyps by (meson align.Change le_SucI order_refl)
  next
    case (Later ys')
    then show ?thesis using Change.IH by (meson align.Change Suc_le_mono)
  qed
next
  case (Drop xs ys n x)
  then show ?case by (meson align.Drop Suc_le_mono)
next
  case (Add xs ys n y)
  from Add.prems show ?case
  proof cases
    case (Insert y')
    then show ?thesis using Add.hyps by (meson align.Add order_refl)
  next
    case Remove
    then show ?thesis using Add.hyps by (meson le_SucI order_refl)
  next
    case (Replace y')
    then show ?thesis using Add.hyps by (meson align.Add le_SucI order_refl)
  next
    case (Later ys')
    then show ?thesis using Add.IH by (meson align.Add Suc_le_mono)
  qed
qed

lemma edits_align: "(one_edit ^^ n) xs ys \<Longrightarrow> \<exists>m. align xs ys m \<and> m \<le> n"
proof (induction n arbitrary: ys)
  case 0
  then show ?case using align_refl by auto
next
  case (Suc n)
  then obtain zs where zs: "(one_edit ^^ n) xs zs" "one_edit zs ys" by auto
  then obtain m where m: "align xs zs m" "m \<le> n" using Suc.IH by blast
  then obtain k where "align xs ys k" "k \<le> Suc m" using align_edit zs(2) by blast
  then show ?case using m(2) by (meson Suc_le_mono order_trans)
qed

lemma later_edits: "(one_edit ^^ n) xs ys \<Longrightarrow> (one_edit ^^ n) (x # xs) (x # ys)"
  by (induction n arbitrary: ys) (auto intro: one_edit.Later)

lemma align_edits: "align xs ys n \<Longrightarrow> (one_edit ^^ n) xs ys"
proof (induction rule: align.induct)
  case (Change xs ys n x y)
  then show ?case using later_edits [of n xs ys x] by (auto intro: one_edit.Replace)
next
  case (Drop xs ys n x)
  then show ?case using relpowp_Suc_I2 [of one_edit "x # xs" xs n ys] one_edit.Remove [of x xs] by blast
next
  case (Add xs ys n y)
  then show ?case by (auto intro: one_edit.Insert)
qed (auto intro: later_edits)

section \<open>The reference recursion, and the rows\<close>

fun edit_distance :: "'a list \<Rightarrow> 'a list \<Rightarrow> nat" where
  "edit_distance [] ys = length ys"
| "edit_distance xs [] = length xs"
| "edit_distance (x # xs) (y # ys) =
     min (min (edit_distance xs ys + (if x \<noteq> y then 1 else 0)) (edit_distance (x # xs) ys + 1)) (edit_distance xs (y # ys) + 1)"

lemma align_Nil: "align [] ys (length ys)" "align xs [] (length xs)"
proof -
  show "align [] ys (length ys)" by (induction ys) (auto intro: align.intros)
  show "align xs [] (length xs)" by (induction xs) (auto intro: align.intros)
qed

lemma edit_distance_align: "align xs ys (edit_distance xs ys)"
proof (induction xs ys rule: edit_distance.induct)
  case (3 x xs y ys)
  then show ?case by (auto simp: min_def intro: align.intros)
qed (use align_Nil(1) align_Nil(2) [of "_ # _"] in simp_all)

lemma edit_distance_Nil [simp]: "edit_distance xs [] = length xs"
  by (cases xs) simp_all

lemma edit_distance_Drop: "edit_distance (x # xs) ys \<le> Suc (edit_distance xs ys)"
  by (cases ys) simp_all

lemma edit_distance_Add: "edit_distance xs (y # ys) \<le> Suc (edit_distance xs ys)"
  by (cases xs) simp_all

lemma edit_distance_least: "align xs ys n \<Longrightarrow> edit_distance xs ys \<le> n"
proof (induction rule: align.induct)
  case (Keep xs ys n x)
  then show ?case by simp
next
  case (Change xs ys n x y)
  then show ?case by (auto simp: min_def)
next
  case (Drop xs ys n x)
  then show ?case using edit_distance_Drop [of x xs ys] by simp
next
  case (Add xs ys n y)
  then show ?case using edit_distance_Add [of xs y ys] by simp
qed simp

text \<open>A row holds the distances of every prefix of \<open>b\<close> to the prefix of \<open>a\<close> read so far.\<close>

definition dist_row :: "'a list \<Rightarrow> 'a list \<Rightarrow> nat list" where
  "dist_row p b = map (\<lambda>j. edit_distance (rev p) (rev (take j b))) [0..<length b + 1]"

lemma lev_cells_dist:
  "lev_cells ca b (edit_distance p q) (edit_distance (ca # p) q)
      (map (\<lambda>j. edit_distance p (rev (take (Suc j) b) @ q)) [0..<length b])
    = map (\<lambda>j. edit_distance (ca # p) (rev (take (Suc j) b) @ q)) [0..<length b]"
proof (induction b arbitrary: q)
  case (Cons cb b)
  have row: "map f [0..<length (cb # b)] = f 0 # map (\<lambda>j. f (Suc j)) [0..<length b]" for f :: "nat \<Rightarrow> nat"
    unfolding list.size by (simp only: add_0_right add_Suc_right map_upt_Suc)
  show ?case using Cons.IH [of "cb # q"] unfolding row by (simp add: Let_def)
qed simp

lemma lev_row_dist: "lev_row ca b (length p) (dist_row p b) = dist_row (p @ [ca]) b"
proof -
  have row: "map f [0..<Suc (length b)] = f 0 # map (\<lambda>j. f (Suc j)) [0..<length b]" for f :: "nat \<Rightarrow> nat"
    by (rule map_upt_Suc)
  have "lev_cells ca b (edit_distance (rev p) []) (edit_distance (ca # rev p) [])
        (map (\<lambda>j. edit_distance (rev p) (rev (take (Suc j) b) @ [])) [0..<length b])
      = map (\<lambda>j. edit_distance (ca # rev p) (rev (take (Suc j) b) @ [])) [0..<length b]"
    by (rule lev_cells_dist)
  then show ?thesis by (simp add: lev_row_def dist_row_def row del: upt_Suc)
qed

lemma lev_rows_dist: "lev_rows a b (length p) (dist_row p b) = dist_row (p @ a) b"
proof (induction a arbitrary: p)
  case (Cons ca a)
  then show ?case using Cons.IH [of "p @ [ca]"] by (simp add: lev_row_dist)
qed simp

lemma levenshtein_rev: "levenshtein a b = edit_distance (rev a) (rev b)"
proof -
  have "dist_row [] b = [0..<length b + 1]"
    unfolding dist_row_def by (rule map_idI) (auto simp: min_def)
  then have "lev_rows a b 0 [0..<length b + 1] = dist_row a b" using lev_rows_dist [of a b "[]"] by simp
  then show ?thesis by (simp add: levenshtein_def dist_row_def nth_append del: upt_Suc)
qed

lemma one_edit_snoc: "one_edit xs ys \<Longrightarrow> one_edit (xs @ [x]) (ys @ [x])"
  by (induction rule: one_edit.induct) (auto intro: one_edit.intros)

lemma one_edit_last: "one_edit xs (xs @ [y])" "one_edit (xs @ [y]) xs" "one_edit (xs @ [x]) (xs @ [y])"
proof -
  show "one_edit xs (xs @ [y])" by (induction xs) (auto intro: one_edit.intros)
  show "one_edit (xs @ [y]) xs" by (induction xs) (auto intro: one_edit.intros)
  show "one_edit (xs @ [x]) (xs @ [y])" by (induction xs) (auto intro: one_edit.intros)
qed

lemma one_edit_rev: "one_edit xs ys \<Longrightarrow> one_edit (rev xs) (rev ys)"
  by (induction rule: one_edit.induct) (auto intro: one_edit_last one_edit_snoc)

lemma edits_rev: "(one_edit ^^ n) xs ys \<Longrightarrow> (one_edit ^^ n) (rev xs) (rev ys)"
  by (induction n arbitrary: ys) (auto intro: one_edit_rev)

text \<open>
  C32. The row-by-row distance is the edit distance: it is the least number of single-character
  insertions, removals and replacements that turn one string into the other.
\<close>

theorem levenshtein_least:
  "(one_edit ^^ levenshtein a b) a b \<and> (\<forall>n. (one_edit ^^ n) a b \<longrightarrow> levenshtein a b \<le> n)"
proof (intro conjI allI impI)
  have "(one_edit ^^ levenshtein a b) (rev a) (rev b)"
    unfolding levenshtein_rev by (rule align_edits [OF edit_distance_align])
  then show "(one_edit ^^ levenshtein a b) a b" using edits_rev by fastforce
  fix n assume "(one_edit ^^ n) a b"
  then obtain m where "align (rev a) (rev b) m" "m \<le> n" using edits_align [OF edits_rev] by blast
  then show "levenshtein a b \<le> n" using edit_distance_least by (fastforce simp: levenshtein_rev)
qed

theorem levenshtein_least_witness: "levenshtein ''prdo'' ''prod'' \<le> 2"
proof -
  have step: "one_edit (a @ x # c) (a @ y # c)" for a c and x y :: char
    by (induction a) (auto intro: one_edit.intros)
  have "(one_edit ^^ 2) ''prdo'' ''prod''"
    using step [of "''pr''" "CHR ''d''" "''o''" "CHR ''o''"] step [of "''pro''" "CHR ''o''" "[]" "CHR ''d''"]
    by (auto simp: numeral_2_eq_2)
  then show ?thesis using levenshtein_least [of "''prdo''" "''prod''"] by fastforce
qed

end
