(* ===== verification/Local_State.thy ===== *)
theory Local_State
  imports Token_Client Suggest
begin

text \<open>
  What an owner remembers between runs (\<open>state.rs\<close>), the names of stored keys (\<open>store.rs\<close>), which server
  URLs a client accepts (\<open>proto/url.rs\<close>) and kits (\<open>owner/kit.rs\<close>). A \<open>BTreeMap\<close> that is iterated is an
  association list sorted by key; TOML is a parameter.
\<close>

section \<open>Ordered maps\<close>

fun bt_insert :: "'k::linorder \<Rightarrow> 'v \<Rightarrow> ('k \<times> 'v) list \<Rightarrow> ('k \<times> 'v) list" where
  "bt_insert k v [] = [(k, v)]"
| "bt_insert k v ((l, w) # m) =
     (if k < l then (k, v) # (l, w) # m else if k = l then (k, v) # m else (l, w) # bt_insert k v m)"

definition bt_remove :: "'k \<Rightarrow> ('k \<times> 'v) list \<Rightarrow> ('k \<times> 'v) list" where
  "bt_remove k m = filter (\<lambda>(l, _). l \<noteq> k) m"

definition bt_extend :: "('k::linorder \<times> 'v) list \<Rightarrow> ('k \<times> 'v) list \<Rightarrow> ('k \<times> 'v) list" where
  "bt_extend new m = fold (\<lambda>(k, v). bt_insert k v) new m"

abbreviation bt_sorted :: "('k::linorder \<times> 'v) list \<Rightarrow> bool" where
  "bt_sorted m \<equiv> sorted_wrt (<) (map fst m)"

lemma bt_insert_keys: "fst ` set (bt_insert k v m) = insert k (fst ` set m)"
  by (induction k v m rule: bt_insert.induct) (simp_all add: insert_commute)

lemma bt_insert_sorted [intro, simp]: "bt_sorted m \<Longrightarrow> bt_sorted (bt_insert k v m)"
proof (induction m)
  case (Cons x m)
  then have "bt_sorted (bt_insert k v m)" by simp
  then show ?case using Cons.prems by (cases x) (auto simp: bt_insert_keys)
qed simp

lemma bt_insert_map_of: "bt_sorted m \<Longrightarrow> map_of (bt_insert k v m) = (map_of m)(k \<mapsto> v)"
  by (induction m) (auto simp: fun_eq_iff map_of_eq_None_iff)

lemma bt_remove_map_of: "map_of (bt_remove k m) = (map_of m)(k := None)"
  by (induction m) (auto simp: bt_remove_def fun_eq_iff)

lemma bt_filter_sorted: "bt_sorted m \<Longrightarrow> bt_sorted (filter P m)"
  by (induction m) auto

lemma bt_remove_sorted [intro, simp]: "bt_sorted m \<Longrightarrow> bt_sorted (bt_remove k m)"
  by (simp add: bt_remove_def bt_filter_sorted)

lemma bt_extend_sorted [intro, simp]: "bt_sorted m \<Longrightarrow> bt_sorted (bt_extend new m)"
  unfolding bt_extend_def by (induction new arbitrary: m) auto

lemma bt_extend_map_of: "bt_sorted m \<Longrightarrow> map_of (bt_extend new m) = map_of m ++ map_of (rev new)"
  unfolding bt_extend_def
  by (induction new arbitrary: m) (auto simp: bt_insert_map_of fun_eq_iff map_add_def split: option.splits)

lemma bt_filter_map_of: "bt_sorted m \<Longrightarrow> map_of (filter (\<lambda>(k, v). P k) m) k = (if P k then map_of m k else None)"
  by (induction m) (auto simp: map_of_eq_None_iff image_iff)

section \<open>The state\<close>

record TreeNode =
  tn_vault_id :: VaultId
  tn_sealed :: bool

definition tree_node :: "VaultId \<Rightarrow> bool \<Rightarrow> TreeNode" where
  "tree_node v sl = \<lparr>tn_vault_id = v, tn_sealed = sl\<rparr>"

datatype RekeyStep = Planned | Created | Migrated | Linked | Retired

definition step_str :: "RekeyStep \<Rightarrow> string" where
  "step_str s = (case s of
     Planned \<Rightarrow> ''planned'' | Created \<Rightarrow> ''created'' | Migrated \<Rightarrow> ''migrated'' | Linked \<Rightarrow> ''linked''
   | Retired \<Rightarrow> ''retired'')"

definition step_rank :: "RekeyStep \<Rightarrow> nat" where
  "step_rank s = (case s of Planned \<Rightarrow> 0 | Created \<Rightarrow> 1 | Migrated \<Rightarrow> 2 | Linked \<Rightarrow> 3 | Retired \<Rightarrow> 4)"

instantiation RekeyStep :: linorder
begin

definition less_eq_RekeyStep :: "RekeyStep \<Rightarrow> RekeyStep \<Rightarrow> bool" where
  "less_eq_RekeyStep a b \<longleftrightarrow> step_rank a \<le> step_rank b"

definition less_RekeyStep :: "RekeyStep \<Rightarrow> RekeyStep \<Rightarrow> bool" where
  "less_RekeyStep a b \<longleftrightarrow> step_rank a < step_rank b"

instance
  by standard (auto simp: less_eq_RekeyStep_def less_RekeyStep_def step_rank_def split: RekeyStep.splits)

end

record RekeyPlan =
  rk_path :: string
  rk_kit :: string
  rk_nodes :: "string list"
  rk_old_ids :: "VaultId list"
  rk_new_ids :: "VaultId list"
  rk_remint :: "string list"
  rk_step :: RekeyStep
  rk_linked :: bool

record ProjectState =
  ps_server :: string
  ps_held :: "string list"
  ps_tree :: "(string \<times> TreeNode) list"

record LocalState =
  ls_projects :: "(string \<times> ProjectState) list"
  ls_touched :: "string \<rightharpoonup> int"
  ls_audit :: "string \<rightharpoonup> ChainHead"
  ls_no_expiry :: "string set"
  ls_pins :: "string \<rightharpoonup> Pins"
  ls_rekey :: "RekeyPlan option"

definition project_new :: "string \<Rightarrow> ProjectState" where
  "project_new server = \<lparr>ps_server = server, ps_held = [], ps_tree = []\<rparr>"

definition knows :: "ProjectState \<Rightarrow> EnvPath \<Rightarrow> bool" where
  "knows p path \<longleftrightarrow> map_of (ps_tree p) (path_to_string path) \<noteq> None"

definition parsed_paths :: "string list \<Rightarrow> EnvPath list" where
  "parsed_paths ss = concat (map (\<lambda>s. case path_parse s of Inr p \<Rightarrow> [p] | Inl _ \<Rightarrow> []) ss)"

text \<open>\<open>Iterator::max_by_key\<close>: the last of the greatest.\<close>

fun last_max :: "('a \<Rightarrow> nat) \<Rightarrow> 'a list \<Rightarrow> 'a option" where
  "last_max f [] = None"
| "last_max f (x # xs) = (case last_max f xs of None \<Rightarrow> Some x | Some y \<Rightarrow> if f x \<le> f y then Some y else Some x)"

definition held_root_for :: "ProjectState \<Rightarrow> EnvPath \<Rightarrow> EnvPath option" where
  "held_root_for p path = last_max path_depth (filter (path_starts_with path) (parsed_paths (ps_held p)))"

definition descendants :: "ProjectState \<Rightarrow> EnvPath \<Rightarrow> EnvPath list" where
  "descendants p path = sort_key (\<lambda>q. - int (path_depth q))
     (filter (\<lambda>k. k \<noteq> path \<and> path_starts_with k path) (parsed_paths (map fst (ps_tree p))))"

definition children_of :: "ProjectState \<Rightarrow> EnvPath \<Rightarrow> EnvPath list" where
  "children_of p path = filter (\<lambda>q. path_depth q = path_depth path + 1) (descendants p path)"

definition unknown_project :: Error where
  "unknown_project = Error.Invalid CODE_UNKNOWN_PROJECT"

definition state_project :: "LocalState \<Rightarrow> EnvPath \<Rightarrow> Error + ProjectState" where
  "state_project s path = ok_or (map_of (ls_projects s) (seg_str (project_name path))) unknown_project"

definition set_project :: "EnvPath \<Rightarrow> ProjectState \<Rightarrow> LocalState \<Rightarrow> LocalState" where
  "set_project path p s = s\<lparr>ls_projects := bt_insert (seg_str (project_name path)) p (ls_projects s)\<rparr>"

definition known_paths :: "LocalState \<Rightarrow> string list" where
  "known_paths s = concat (map (\<lambda>(_, p). map fst (ps_tree p)) (ls_projects s))"

definition server_for_vault :: "LocalState \<Rightarrow> VaultId \<Rightarrow> string option" where
  "server_for_vault s v = map_option (\<lambda>(_, p). ps_server p)
     (find (\<lambda>(_, p). list_ex (\<lambda>(_, n). tn_vault_id n = v) (ps_tree p)) (ls_projects s))"

section \<open>The files\<close>

definition FORMAT_VERSION :: u32 where "FORMAT_VERSION = 1"

definition empty_state :: LocalState where
  "empty_state = \<lparr>ls_projects = [], ls_touched = Map.empty, ls_audit = Map.empty, ls_no_expiry = {}, ls_pins = Map.empty,
     ls_rekey = None\<rparr>"

text \<open>
  A file that is read: absent, unreadable, or its text. \<open>config.toml\<close> parses to a version and the
  projects, \<open>state.toml\<close> to the rest.
\<close>

datatype file_text = Absent | Unreadable | Text string

definition load_toml :: "(string \<Rightarrow> 'a option) \<Rightarrow> 'a \<Rightarrow> file_text \<Rightarrow> Error + 'a" where
  "load_toml parse absent f = (case f of
     Text t \<Rightarrow> ok_or (parse t) Error.Store
   | file_text.Absent \<Rightarrow> Inr absent
   | Unreadable \<Rightarrow> Inl Error.Store)"

definition file_load ::
    "(string \<Rightarrow> (u32 option \<times> (string \<times> ProjectState) list) option) \<Rightarrow> (string \<Rightarrow> LocalState option)
      \<Rightarrow> file_text \<Rightarrow> file_text \<Rightarrow> Error + LocalState" where
  "file_load parse_config parse_state config_file state_file =
     rbind (load_toml parse_config (None, []) config_file) (\<lambda>(version, projects).
     if version \<noteq> None \<and> version \<noteq> Some FORMAT_VERSION then Inl Error.Store
     else rbind (load_toml parse_state empty_state state_file) (\<lambda>rest.
       Inr (rest\<lparr>ls_projects := projects\<rparr>)))"

section \<open>Stored keys\<close>

datatype KeyName =
    Node EnvPath
  | Token VaultId TokenId
  | RekeyOld EnvPath
  | RekeyNew EnvPath

definition key_entry :: "crypto \<Rightarrow> KeyName \<Rightarrow> string" where
  "key_entry c k = (case k of
     Node p \<Rightarrow> ''node:'' @ path_to_string p
   | Token v t \<Rightarrow> ''token:'' @ vault_id_to_hex c v @ '':'' @ token_id_to_hex c t
   | RekeyOld p \<Rightarrow> ''rekey-old:'' @ path_to_string p
   | RekeyNew p \<Rightarrow> ''rekey-new:'' @ path_to_string p)"

end
