(* ===== verification/Kits.thy ===== *)
theory Kits
  imports Local_State
begin

text \<open>
  Which server URLs a client accepts (\<open>proto/url.rs\<close>), and kits (\<open>owner/kit.rs\<close>): a node key, its path and
  its pinned server as a commented TOML document. TOML is a parameter.
\<close>

section \<open>Server URLs\<close>

text \<open>A white-space or control character, or one of the four that end or extend a host.\<close>

fun bad_url_char :: "string \<Rightarrow> bool" where
  "bad_url_char [] = False"
| "bad_url_char (a # s) =
     (length (trim_start (a # s)) < length (a # s)
      \<or> (of_char a :: nat) < 32 \<or> (of_char a :: nat) = 127
      \<or> (of_char a :: nat) = 194 \<and> (case s of b # _ \<Rightarrow> in_range 128 159 b | [] \<Rightarrow> False)
      \<or> a \<in> {CHR ''@'', CHR ''?'', CHR ''#'', CHR 0x22}
      \<or> bad_url_char s)"

definition trim_end_slashes :: "string \<Rightarrow> string" where
  "trim_end_slashes s = rev (dropWhile (\<lambda>a. a = CHR ''/'') (rev s))"

definition url_host :: "string \<Rightarrow> string" where
  "url_host rest = (case strip_prefix ''['' rest of
     Some bracketed \<Rightarrow> takeWhile (\<lambda>a. a \<noteq> CHR '']'') bracketed
   | None \<Rightarrow> takeWhile (\<lambda>a. a \<noteq> CHR ''/'' \<and> a \<noteq> CHR '':'') rest)"

definition loopback_hosts :: "string list" where
  "loopback_hosts = [''127.0.0.1'', ''localhost'', ''::1'']"

definition validate_server_url :: "string \<Rightarrow> unit + string" where
  "validate_server_url given =
     (let url = trim_end_slashes given in
      rbind (case strip_prefix ''https://'' url of
          Some rest \<Rightarrow> Inr rest
        | None \<Rightarrow> (case strip_prefix ''http://'' url of
            Some rest \<Rightarrow> if url_host rest \<notin> set loopback_hosts then Inl () else Inr rest
          | None \<Rightarrow> Inl ())) (\<lambda>rest.
      if rest = [] \<or> bad_url_char rest then Inl () else Inr url))"

section \<open>Kits\<close>

definition KIT_VERSION :: u32 where "KIT_VERSION = 1"

datatype KitKind = Recovery | Delegation

record Kit =
  kt_v :: u32
  kt_kind :: KitKind
  kt_path :: EnvPath
  kt_server :: string
  kt_key :: string

datatype KitFault =
    Syntax
  | Version u32
  | Server
  | Key FormatError
  | NotAProject string

definition fault_error :: "KitFault \<Rightarrow> Error" where
  "fault_error f = (case f of Server \<Rightarrow> Error.Invalid CODE_INVALID_SERVER | _ \<Rightarrow> Error.Invalid CODE_INVALID_KIT)"

text \<open>TOML gives the five fields, the path as a string, which deserializes by parsing.\<close>

record kit_toml =
  kit_fields :: "string \<Rightarrow> (u32 \<times> KitKind \<times> string \<times> string \<times> string) option"
  kit_text :: "u32 \<times> KitKind \<times> string \<times> string \<times> string \<Rightarrow> string option"

definition kit_read :: "kit_toml \<Rightarrow> string \<Rightarrow> Kit option" where
  "kit_read T text = (case kit_fields T text of
     None \<Rightarrow> None
   | Some (v, kind, path, server, key) \<Rightarrow> (case path_parse path of
       Inl _ \<Rightarrow> None
     | Inr p \<Rightarrow> Some \<lparr>kt_v = v, kt_kind = kind, kt_path = p, kt_server = server, kt_key = key\<rparr>))"

definition kit_new :: "primitives \<Rightarrow> KitKind \<Rightarrow> EnvPath \<Rightarrow> string \<Rightarrow> NodeKey \<Rightarrow> Kit" where
  "kit_new P kind path server key =
     \<lparr>kt_v = KIT_VERSION, kt_kind = kind, kt_path = path, kt_server = server, kt_key = node_encode P key\<rparr>"

definition kit_key :: "primitives \<Rightarrow> Kit \<Rightarrow> Error + NodeKey" where
  "kit_key P k = map_err (\<lambda>_. Error.Invalid CODE_INVALID_KIT) (node_parse P (kt_key k))"

definition kit_check :: "kit_toml \<Rightarrow> primitives \<Rightarrow> string \<Rightarrow> KitFault + Kit" where
  "kit_check T P text =
     rbind (ok_or (kit_read T text) Syntax) (\<lambda>kit.
     if kt_v kit \<noteq> KIT_VERSION then Inl (KitFault.Version (kt_v kit))
     else
       rbind (map_err (\<lambda>_. Server) (validate_server_url (kt_server kit))) (\<lambda>_.
       rbind (map_err Key (node_parse P (kt_key kit))) (\<lambda>_.
       if kt_kind kit = Recovery \<and> \<not> is_project (kt_path kit) then Inl (NotAProject (path_to_string (kt_path kit)))
       else Inr kit)))"

definition kit_parse :: "kit_toml \<Rightarrow> primitives \<Rightarrow> string \<Rightarrow> Error + Kit" where
  "kit_parse T P text = map_err fault_error (kit_check T P text)"

definition kind_word :: "KitKind \<Rightarrow> string" where
  "kind_word kind = (case kind of Recovery \<Rightarrow> ''recovery'' | Delegation \<Rightarrow> ''delegation'')"

definition comment :: "string \<Rightarrow> string" where
  "comment line = ''# '' @ line @ [CHR 0x0A]"

definition kit_comments :: "Kit \<Rightarrow> string \<Rightarrow> string" where
  "kit_comments k header =
     (let what = (case kt_kind k of
          Recovery \<Rightarrow> ''the project '' @ [CHR 0x22] @ path_to_string (kt_path k) @ [CHR 0x22] @ '' and every environment in it''
        | Delegation \<Rightarrow> path_to_string (kt_path k) @ '' and everything beneath it'')
      in comment (header @ '' '' @ kind_word (kt_kind k) @ '' kit (v1)'') @ [CHR ''#'', CHR 0x0A]
        @ comment (''Whoever holds this file owns '' @ what @ ''.'')
        @ comment ''There is no account and no reset: lose every copy of this key and''
        @ comment ''the secrets are gone. Keep it offline or in a password manager,''
        @ comment ''and never commit it.'')"

definition render_with_header :: "kit_toml \<Rightarrow> Kit \<Rightarrow> string \<Rightarrow> Error + string" where
  "render_with_header T k header =
     rbind (ok_or (kit_text T (kt_v k, kt_kind k, path_to_string (kt_path k), kt_server k, kt_key k)) Error.Other) (\<lambda>body.
       Inr (kit_comments k header @ body))"

definition kit_render :: "kit_toml \<Rightarrow> Kit \<Rightarrow> Error + string" where
  "kit_render T k = render_with_header T k ''galata-vault''"

definition kit_file_name :: "EnvPath \<Rightarrow> KitKind \<Rightarrow> string" where
  "kit_file_name path kind =
     map (\<lambda>a. if a = CHR ''/'' then CHR ''-'' else a) (path_to_string path) @ ''-'' @ kind_word kind @ ''.gvkit''"

section \<open>Lemmas\<close>

text \<open>TOML: what is written reads back, and comment lines before it change nothing.\<close>

fun comment_lines :: "string list \<Rightarrow> string" where
  "comment_lines [] = []"
| "comment_lines (l # ls) = CHR ''#'' # l @ CHR 0x0A # comment_lines ls"

definition kit_toml_ok :: "kit_toml \<Rightarrow> bool" where
  "kit_toml_ok T \<longleftrightarrow> (\<forall>x body ls. kit_text T x = Some body \<longrightarrow> list_all (\<lambda>l. CHR 0x0A \<notin> set l) ls
     \<longrightarrow> kit_fields T (comment_lines ls @ body) = Some x)"

lemma kit_comments_lines:
  "kit_comments k header = comment_lines [
     '' '' @ header @ '' '' @ kind_word (kt_kind k) @ '' kit (v1)'', [],
     '' Whoever holds this file owns '' @ (case kt_kind k of
          Recovery \<Rightarrow> ''the project '' @ [CHR 0x22] @ path_to_string (kt_path k) @ [CHR 0x22] @ '' and every environment in it''
        | Delegation \<Rightarrow> path_to_string (kt_path k) @ '' and everything beneath it'') @ ''.'',
     '' There is no account and no reset: lose every copy of this key and'',
     '' the secrets are gone. Keep it offline or in a password manager,'',
     '' and never commit it.'']"
  by (simp add: kit_comments_def comment_def Let_def)

lemma segment_no_newline: "wf_segment g \<Longrightarrow> CHR 0x0A \<notin> set (seg_str g)"
  by (auto simp: wf_segment_def list_all_iff is_ascii_lowercase_def is_ascii_digit_def)

lemma join_no_newline: "(\<And>w. w \<in> set ws \<Longrightarrow> a \<notin> set w) \<Longrightarrow> a \<noteq> d \<Longrightarrow> a \<notin> set (join_with d ws)"
  by (induction ws rule: induct_list012) auto

lemma path_no_newline: "wf_path p \<Longrightarrow> CHR 0x0A \<notin> set (path_to_string p)"
  unfolding path_to_string_def
  by (rule join_no_newline) (auto simp: wf_path_def list_all_iff segment_no_newline)

lemma node_encode_parses: "length (node_bytes k) = 32 \<Longrightarrow> node_parse P (node_encode P k) = Inr k"
  using decode_encode_checked [of "node_bytes k" "pr_crypto P" "''gvk1_''"]
    trim_encode_checked [of "''gvk1_''" "pr_crypto P" "node_bytes k"]
  by (simp add: node_parse_def node_encode_def encode_node_key_def decode_node_key_def KEY_PREFIX_def KEY_LEN_def
      ascii_printing_def)


text \<open>A loopback host up to its end, a port or a path, or in a bracket.\<close>

definition loopback_rest :: "string \<Rightarrow> bool" where
  "loopback_rest rest \<longleftrightarrow>
     list_ex (\<lambda>h. case strip_prefix h rest of Some t \<Rightarrow> t = [] \<or> hd t \<in> {CHR ''/'', CHR '':''} | None \<Rightarrow> False)
       [''127.0.0.1'', ''localhost'']
   \<or> list_ex (\<lambda>h. case strip_prefix (''['' @ h) rest of Some t \<Rightarrow> t = [] \<or> hd t = CHR '']'' | None \<Rightarrow> False) loopback_hosts"

lemma takeWhile_split: "takeWhile P s = h \<Longrightarrow> \<exists>t. s = h @ t \<and> (t = [] \<or> \<not> P (hd t))"
  using hd_dropWhile [of P s] by (metis takeWhile_dropWhile_id)

lemma host_loopback:
  assumes "url_host rest \<in> set loopback_hosts"
  shows "loopback_rest rest"
proof (cases "strip_prefix ''['' rest")
  case (Some more)
  then have r: "rest = ''['' @ more" by (simp add: strip_prefix_Some)
  obtain t where "more = takeWhile (\<lambda>a. a \<noteq> CHR '']'') more @ t" "t = [] \<or> hd t = CHR '']''"
    using takeWhile_split [of "\<lambda>a. a \<noteq> CHR '']''" more] by auto
  moreover have "takeWhile (\<lambda>a. a \<noteq> CHR '']'') more \<in> set loopback_hosts" using assms Some by (simp add: url_host_def)
  ultimately obtain h where h: "h \<in> set loopback_hosts" "rest = (''['' @ h) @ t" "t = [] \<or> hd t = CHR '']''" using r by auto
  have "case strip_prefix (''['' @ h) rest of Some t \<Rightarrow> t = [] \<or> hd t = CHR '']'' | None \<Rightarrow> False"
    unfolding h(2) strip_prefix_append option.case by (rule h(3))
  then show ?thesis using h(1) unfolding loopback_rest_def list_ex_iff by blast
next
  case None
  let ?p = "\<lambda>a. a \<noteq> CHR ''/'' \<and> a \<noteq> CHR '':''"
  define k where "k = takeWhile ?p rest"
  have h: "k \<in> set loopback_hosts" using assms None by (simp add: url_host_def k_def)
  have "CHR '':'' \<notin> set k" by (auto simp: k_def dest: set_takeWhileD)
  then have k: "k \<in> set [''127.0.0.1'', ''localhost'']" using h by (auto simp: loopback_hosts_def)
  obtain t where t: "rest = k @ t" "t = [] \<or> \<not> ?p (hd t)" using takeWhile_split [OF k_def [symmetric]] by blast
  have "case strip_prefix k rest of Some t \<Rightarrow> t = [] \<or> hd t \<in> {CHR ''/'', CHR '':''} | None \<Rightarrow> False"
    unfolding t(1) strip_prefix_append option.case using t(2) by blast
  then show ?thesis using k unfolding loopback_rest_def list_ex_iff by blast
qed

lemma bad_url_chars: "\<not> bad_url_char rest \<Longrightarrow> set rest \<inter> {CHR ''@'', CHR ''?'', CHR ''#'', CHR 0x22} = {}"
  by (induction rest) auto

text \<open>
  C33. An accepted server URL is the given one without trailing slashes. It is \<open>https\<close>; or it is \<open>http\<close> and what
  follows the scheme is \<open>localhost\<close> or \<open>127.0.0.1\<close> up to its end, a port or a path, or opens a bracket on one of
  the loopback names (what follows the closing bracket is not looked at, so this form need not
  name a loopback host). It holds no user, query, fragment or quote.
\<close>

theorem accepted_server_url:
  assumes "validate_server_url given = Inr url"
  shows "(\<exists>n. given = url @ replicate n CHR ''/'')
    \<and> (\<exists>rest. rest \<noteq> [] \<and> set rest \<inter> {CHR ''@'', CHR ''?'', CHR ''#'', CHR 0x22} = {}
        \<and> (url = ''https://'' @ rest \<or> url = ''http://'' @ rest \<and> loopback_rest rest))"
proof
  have u: "url = trim_end_slashes given" using assms by (auto simp: validate_server_url_def Let_def rbind_eq_Inr split: if_splits)
  let ?t = "takeWhile (\<lambda>a. a = CHR ''/'') (rev given)"
  have "?t = replicate (length ?t) CHR ''/''" by (rule replicate_eqI) (auto dest: set_takeWhileD)
  then have "rev ?t = replicate (length ?t) CHR ''/''" by (metis rev_replicate)
  moreover have "given = url @ rev ?t"
    unfolding u trim_end_slashes_def by (metis rev_append rev_rev_ident takeWhile_dropWhile_id)
  ultimately show "\<exists>n. given = url @ replicate n CHR ''/''" by metis
  obtain rest where rest: "rest \<noteq> []" "\<not> bad_url_char rest"
    and src: "strip_prefix ''https://'' url = Some rest \<or> strip_prefix ''http://'' url = Some rest \<and> url_host rest \<in> set loopback_hosts"
    using assms unfolding u
    by (auto simp: validate_server_url_def Let_def rbind_eq_Inr split: option.splits if_splits)
  have "url = ''https://'' @ rest \<or> url = ''http://'' @ rest \<and> loopback_rest rest"
    using src host_loopback [of rest] unfolding strip_prefix_Some by blast
  then show "\<exists>rest. rest \<noteq> [] \<and> set rest \<inter> {CHR ''@'', CHR ''?'', CHR ''#'', CHR 0x22} = {}
      \<and> (url = ''https://'' @ rest \<or> url = ''http://'' @ rest \<and> loopback_rest rest)"
    using rest(1) bad_url_chars [OF rest(2)] by blast
qed

theorem accepted_server_url_witness:
  "\<exists>rest. ''http://localhost:80'' = ''http://'' @ rest \<and> loopback_rest rest"
proof -
  have "validate_server_url ''http://localhost:80/'' = Inr ''http://localhost:80''" by code_simp
  then show ?thesis using accepted_server_url [of "''http://localhost:80/''"] by auto
qed

text \<open>A document language that knows one kit.\<close>

definition ex_kit :: Kit where
  "ex_kit = kit_new toy Recovery (EnvPath [Segment ''acme'']) ''https://v'' (NodeKey (replicate 32 7))"

definition ex_fields :: "u32 \<times> KitKind \<times> string \<times> string \<times> string" where
  "ex_fields = (kt_v ex_kit, kt_kind ex_kit, path_to_string (kt_path ex_kit), kt_server ex_kit, kt_key ex_kit)"

definition ex_toml :: kit_toml where
  "ex_toml = \<lparr>kit_fields = (\<lambda>s. if last (split_on (CHR 0x0A) s) = ''k'' then Some ex_fields else None),
     kit_text = (\<lambda>x. if x = ex_fields then Some ''k'' else None)\<rparr>"

lemma split_comment_lines:
  "list_all (\<lambda>l. CHR 0x0A \<notin> set l) ls
    \<Longrightarrow> split_on (CHR 0x0A) (comment_lines ls @ b) = map (\<lambda>l. CHR ''#'' # l) ls @ split_on (CHR 0x0A) b"
proof (induction ls)
  case (Cons l ls)
  then show ?case using split_on_append [of "CHR 0x0A" "CHR ''#'' # l" "comment_lines ls @ b"] by simp
qed simp

lemma ex_toml_ok: "kit_toml_ok ex_toml"
  by (auto simp: kit_toml_ok_def ex_toml_def split_comment_lines split: if_splits)


end
