(* ===== verification/Owner.thy ===== *)
theory Owner
  imports Kits "HOL-Library.Multiset"
begin

text \<open>
  The owner of a tree of environments (\<open>owner/mod.rs\<close>): its state, the chain of keys down to a node,
  opening an environment, keeping ancestors alive, and rediscovering a subtree. The caller supplies the
  key store, the state store and the connection to each server; all of them are outside.
\<close>

section \<open>State\<close>

text \<open>
  \<open>ca_base\<close> is the outside of every API but for the transport, which connecting to a server gives. A key
  store or a state store may fail.
\<close>

record 'x caller =
  ca_base :: "'x outside"
  ca_connect :: "string \<Rightarrow> 'x \<Rightarrow> (Error + (Request \<Rightarrow> 'x \<Rightarrow> (TransportError + Response) \<times> 'x)) \<times> 'x"
  ca_get :: "KeyName \<Rightarrow> 'x \<Rightarrow> (unit + string option) \<times> 'x"
  ca_set :: "KeyName \<Rightarrow> string \<Rightarrow> 'x \<Rightarrow> (unit + unit) \<times> 'x"
  ca_delete :: "KeyName \<Rightarrow> 'x \<Rightarrow> (unit + unit) \<times> 'x"
  ca_load :: "'x \<Rightarrow> (unit + LocalState) \<times> 'x"
  ca_save :: "LocalState \<Rightarrow> 'x \<Rightarrow> (unit + unit) \<times> 'x"

text \<open>The cached APIs: per server its transport and the capabilities once fetched.\<close>

record 'x owner =
  ow_out :: 'x
  ow_draws :: nat
  ow_notices :: "Notice list"
  ow_apis :: "string \<rightharpoonup> (Request \<Rightarrow> 'x \<Rightarrow> (TransportError + Response) \<times> 'x) \<times> Capabilities option option"
  ow_state :: LocalState

type_synonym ('x, 'a) owning = "('x owner, Error, 'a) action"

definition ca_prims :: "'x caller \<Rightarrow> primitives" where
  "ca_prims W = ou_prims (ca_base W)"

definition oask :: "(LocalState \<Rightarrow> 'a) \<Rightarrow> ('x, 'a) owning" where
  "oask f s = (Inr (f (ow_state s)), s)"

definition omod :: "(LocalState \<Rightarrow> LocalState) \<Rightarrow> ('x, unit) owning" where
  "omod f s = (Inr (), s\<lparr>ow_state := f (ow_state s)\<rparr>)"

definition onotify :: "Notice \<Rightarrow> ('x, unit) owning" where
  "onotify n s = (Inr (), s\<lparr>ow_notices := ow_notices s @ [n]\<rparr>)"

definition onow :: "'x caller \<Rightarrow> ('x, int) owning" where
  "onow W s = (case ou_now (ca_base W) (ow_out s) of (t, x) \<Rightarrow> (Inr t, s\<lparr>ow_out := x\<rparr>))"

definition odraw :: "(Error, 'a) drawing \<Rightarrow> ('x, 'a) owning" where
  "odraw m s = (case m (ow_draws s) of (r, n) \<Rightarrow> (r, s\<lparr>ow_draws := n\<rparr>))"

text \<open>A call of a store, its failure a \<open>Store\<close> error.\<close>

definition ostore :: "('x \<Rightarrow> (unit + 'a) \<times> 'x) \<Rightarrow> ('x, 'a) owning" where
  "ostore f s = (case f (ow_out s) of (r, x) \<Rightarrow> (map_err (\<lambda>_. Error.Store) r, s\<lparr>ow_out := x\<rparr>))"

text \<open>A failure as a value.\<close>

definition attempt :: "('s, 'e, 'a) action \<Rightarrow> ('s, 'f, 'e + 'a) action" where
  "attempt m s = (case m s of (r, s') \<Rightarrow> (Inr r, s'))"

definition own_save :: "'x caller \<Rightarrow> ('x, unit) owning" where
  "own_save W = abind (oask id) (\<lambda>st. ostore (ca_save W st))"

definition own_open :: "'x caller \<Rightarrow> 'x \<Rightarrow> nat \<Rightarrow> (Error + 'x owner) \<times> 'x" where
  "own_open W x draws = (case ca_load W x of
     (Inl _, x') \<Rightarrow> (Inl Error.Store, x')
   | (Inr st, x') \<Rightarrow> (Inr \<lparr>ow_out = x', ow_draws = draws, ow_notices = [], ow_apis = Map.empty, ow_state = st\<rparr>, x'))"

definition own_reload :: "'x caller \<Rightarrow> ('x, unit) owning" where
  "own_reload W = abind (ostore (ca_load W)) (\<lambda>st. omod (\<lambda>_. st))"

text \<open>The API for a server, built once; it is named by the server from here on.\<close>

definition own_api :: "'x caller \<Rightarrow> string \<Rightarrow> ('x, unit) owning" where
  "own_api W server s =
     (if ow_apis s server \<noteq> None then (Inr (), s)
      else (case ca_connect W server (ow_out s) of
          (Inl e, x) \<Rightarrow> (Inl e, s\<lparr>ow_out := x\<rparr>)
        | (Inr send, x) \<Rightarrow> (Inr (), s\<lparr>ow_out := x, ow_apis := (ow_apis s)(server \<mapsto> (send, None))\<rparr>)))"

definition api_for :: "'x caller \<Rightarrow> EnvPath \<Rightarrow> ('x, string) owning" where
  "api_for W path =
     abind (oask (\<lambda>st. state_project st path)) (\<lambda>r.
     abind (alift r) (\<lambda>p.
     abind (own_api W (ps_server p)) (\<lambda>_. aret (ps_server p))))"

text \<open>
  An operation of the API of a server, and one of a handle on it. An \<open>Api\<close> exists only once it is cached,
  so the missing entry never happens.
\<close>

definition with_api :: "'x caller \<Rightarrow> string \<Rightarrow> ('x outside \<Rightarrow> ('x api_state, Error, 'a) action) \<Rightarrow> ('x, 'a) owning" where
  "with_api W server m s = (case ow_apis s server of
     None \<Rightarrow> (Inl Error.Other, s)
   | Some (send, caps) \<Rightarrow>
       (case m ((ca_base W)\<lparr>ou_send := send\<rparr>)
           \<lparr>as_out = ow_out s, as_draws = ow_draws s, as_caps = caps, as_notices = ow_notices s\<rparr> of
          (r, a) \<Rightarrow> (r, s\<lparr>ow_out := as_out a, ow_draws := as_draws a, ow_notices := as_notices a,
            ow_apis := (ow_apis s)(server \<mapsto> (send, as_caps a))\<rparr>)))"

definition on_handle :: "Handle \<Rightarrow> ('x, 'a) hop \<Rightarrow> ('x api_state, Error, 'a \<times> Handle) action" where
  "on_handle h m a = (case m \<lparr>se_api = a, se_handle = h\<rparr> of
     (Inl e, s) \<Rightarrow> (Inl e, se_api s)
   | (Inr r, s) \<Rightarrow> (Inr (r, se_handle s), se_api s))"

definition with_vault :: "'x caller \<Rightarrow> string \<Rightarrow> Handle \<Rightarrow> ('x outside \<Rightarrow> ('x, 'a) hop) \<Rightarrow> ('x, 'a \<times> Handle) owning" where
  "with_vault W server h m = with_api W server (\<lambda>E. on_handle h (m E))"

definition open_node :: "'x caller \<Rightarrow> string \<Rightarrow> NodeKey \<Rightarrow> EnvPath \<Rightarrow> ('x, Handle) owning" where
  "open_node W server key path = with_api W server (\<lambda>E. open_owner E key (path_to_string path))"

definition node_vault_id :: "'x caller \<Rightarrow> NodeKey \<Rightarrow> VaultId" where
  "node_vault_id W key = ok_vault_id (owner_from_node (ca_prims W) key)"

definition vid_hex :: "'x caller \<Rightarrow> VaultId \<Rightarrow> string" where
  "vid_hex W v = vault_id_to_hex (pr_crypto (ca_prims W)) v"

definition own_touch :: "'x caller \<Rightarrow> VaultId \<Rightarrow> ('x, unit) owning" where
  "own_touch W v = abind (onow W) (\<lambda>t. omod (\<lambda>st. st\<lparr>ls_touched := (ls_touched st)(vid_hex W v \<mapsto> t)\<rparr>))"

section \<open>Keys\<close>

definition stored_key :: "'x caller \<Rightarrow> KeyName \<Rightarrow> ('x, NodeKey) owning" where
  "stored_key W name =
     abind (ostore (ca_get W name)) (\<lambda>stored.
     abind (alift (ok_or stored (Error.Invalid CODE_NO_KEY))) (\<lambda>text.
     alift (map_err (\<lambda>_. Error.Other) (node_parse (ca_prims W) text))))"

definition held_key :: "'x caller \<Rightarrow> EnvPath \<Rightarrow> ('x, NodeKey) owning" where
  "held_key W path = stored_key W (Node path)"

definition store_key :: "'x caller \<Rightarrow> EnvPath \<Rightarrow> NodeKey \<Rightarrow> ('x, unit) owning" where
  "store_key W path key = ostore (ca_set W (Node path) (node_encode (ca_prims W) key))"

section \<open>The tree\<close>

definition closest_known :: "LocalState \<Rightarrow> EnvPath \<Rightarrow> EnvPath option" where
  "closest_known st path = Option.bind (closest (path_to_string path) (known_paths st))
     (\<lambda>s. case path_parse s of Inr p \<Rightarrow> Some p | Inl _ \<Rightarrow> None)"

definition require_known :: "LocalState \<Rightarrow> EnvPath \<Rightarrow> Error + unit" where
  "require_known st path =
     (let known = (map_of (ls_projects st) (seg_str (project_name path)) \<noteq> None) in
      if known \<and> (case state_project st path of Inr p \<Rightarrow> knows p path | Inl _ \<Rightarrow> False) then Inr ()
      else Inl (Error.UnknownPath (path_to_string path) (map_option path_to_string (closest_known st path)) known))"

definition demand :: "(LocalState \<Rightarrow> Error + 'a) \<Rightarrow> ('x, 'a) owning" where
  "demand f = abind (oask f) alift"

text \<open>A child's key: derived, or sealed in its parent's children record.\<close>

definition entry_key :: "primitives \<Rightarrow> OwnerKeys \<Rightarrow> NodeKey \<Rightarrow> ChildEntry \<Rightarrow> KeyError + NodeKey" where
  "entry_key P o' key e = (case en_mode e of
     Derived \<Rightarrow> Inr (node_child P key (en_seg e))
   | Sealed ct \<Rightarrow> owner_open_child_key P o' (b64 ct))"

definition sealed_child_key :: "'x caller \<Rightarrow> string \<Rightarrow> EnvPath \<Rightarrow> NodeKey \<Rightarrow> Segment \<Rightarrow> ('x, NodeKey) owning" where
  "sealed_child_key W server here key seg =
     abind (open_node W server key here) (\<lambda>parent.
     abind (with_vault W server parent (\<lambda>E. abind (vault_children E) (\<lambda>(rec, _).
       abind (alift (ok_or (child_get rec seg) Error.Other)) (\<lambda>e.
       abind h_owner (\<lambda>o'. alift (map_err err_key (entry_key (ou_prims E) o' key e))))))) (\<lambda>(k, _).
     aret k))"

definition is_sealed :: "ProjectState \<Rightarrow> EnvPath \<Rightarrow> bool" where
  "is_sealed p path = (case map_of (ps_tree p) (path_to_string path) of Some n \<Rightarrow> tn_sealed n | None \<Rightarrow> False)"

fun chain_down :: "'x caller \<Rightarrow> string \<Rightarrow> ProjectState \<Rightarrow> EnvPath \<Rightarrow> NodeKey \<Rightarrow> Segment list \<Rightarrow> ('x, (EnvPath \<times> NodeKey) list) owning" where
  "chain_down W server p here key [] = aret []"
| "chain_down W server p here key (seg # segs) =
     abind (alift (map_err (\<lambda>_. Error.Invalid CODE_INVALID_PATH) (path_child here seg))) (\<lambda>child.
     abind (if is_sealed p child then sealed_child_key W server here key seg
            else aret (node_child (ca_prims W) key seg)) (\<lambda>k.
     abind (chain_down W server p child k segs) (\<lambda>rest.
     aret ((child, k) # rest))))"

definition chain :: "'x caller \<Rightarrow> string \<Rightarrow> EnvPath \<Rightarrow> ('x, (EnvPath \<times> NodeKey) list) owning" where
  "chain W server path =
     abind (demand (\<lambda>st. state_project st path)) (\<lambda>p.
     abind (alift (ok_or (held_root_for p path) (Error.Invalid CODE_NO_KEY))) (\<lambda>root.
     abind (held_key W root) (\<lambda>key.
     abind (chain_down W server p root key (drop (path_depth root) (segments path))) (\<lambda>rest.
     aret ((root, key) # rest)))))"

text \<open>The last key of a chain; a chain is never empty.\<close>

definition chain_end :: "(EnvPath \<times> NodeKey) list \<Rightarrow> Error + NodeKey" where
  "chain_end c = (if c = [] then Inl Error.Other else Inr (snd (last c)))"

definition chain_key :: "'x caller \<Rightarrow> string \<Rightarrow> EnvPath \<Rightarrow> ('x, NodeKey) owning" where
  "chain_key W server path = abind (chain W server path) (\<lambda>c. alift (chain_end c))"

section \<open>Keeping ancestors alive\<close>

definition announces_expiry :: "Handle \<Rightarrow> bool" where
  "announces_expiry h = (case vw_status (hn_view h) of Some st \<Rightarrow> vs_expires_at st \<noteq> None | None \<Rightarrow> False)"

definition server_expires :: "'x caller \<Rightarrow> string \<Rightarrow> Handle \<Rightarrow> ('x, bool) owning" where
  "server_expires W server h =
     abind (attempt (with_api W server (\<lambda>E. amap_err err_api (api_capabilities E)))) (\<lambda>r.
     aret ((case r of Inr (Some caps) \<Rightarrow> cp_idle_expiry_days caps \<noteq> None | _ \<Rightarrow> False) \<or> announces_expiry h))"

definition KEEP_ALIVE :: int where "KEEP_ALIVE = 86400"

fun keep_alive_from :: "'x caller \<Rightarrow> string \<Rightarrow> int \<Rightarrow> (EnvPath \<times> NodeKey) list \<Rightarrow> ('x, unit) owning" where
  "keep_alive_from W server t [] = aret ()"
| "keep_alive_from W server t ((path, key) # rest) =
     (let v = vid_hex W (node_vault_id W key) in
      abind (oask (\<lambda>st. v \<in> ls_no_expiry st
        \<or> (case ls_touched st v of Some l \<Rightarrow> i64_sub t l < KEEP_ALIVE | None \<Rightarrow> False))) (\<lambda>skip.
      abind (if skip then aret () else
        abind (attempt (open_node W server key path)) (\<lambda>r. case r of
          Inr vault \<Rightarrow>
            abind (server_expires W server vault) (\<lambda>expires.
            abind (if \<not> expires then omod (\<lambda>st. st\<lparr>ls_no_expiry := insert v (ls_no_expiry st)\<rparr>) else aret ()) (\<lambda>_.
            omod (\<lambda>st. st\<lparr>ls_touched := (ls_touched st)(v \<mapsto> t)\<rparr>)))
        | Inl e \<Rightarrow> onotify (Notice.Warning (KeepAliveFailed (path_to_string path))))) (\<lambda>_.
      keep_alive_from W server t rest)))"

definition keep_alive :: "'x caller \<Rightarrow> string \<Rightarrow> (EnvPath \<times> NodeKey) list \<Rightarrow> ('x, unit) owning" where
  "keep_alive W server ancestors = abind (onow W) (\<lambda>t. keep_alive_from W server t ancestors)"

section \<open>Environments\<close>

definition environment :: "'x caller \<Rightarrow> EnvPath \<Rightarrow> ('x, Environment) owning" where
  "environment W path =
     abind (demand (\<lambda>st. require_known st path)) (\<lambda>_.
     abind (api_for W path) (\<lambda>server.
     abind (chain W server path) (\<lambda>c.
     abind (alift (chain_end c)) (\<lambda>key.
     abind (open_node W server key path) (\<lambda>vault0.
     let v = vid_hex W (hn_vault_id vault0); above = butlast c;
         ancestors = map (\<lambda>(_, k). vid_hex W (node_vault_id W k)) above in
     abind (oask (\<lambda>st. ls_pins st v)) (\<lambda>pins.
     abind (case pins of
         None \<Rightarrow> aret ((), vault0)
       | Some pi \<Rightarrow> with_vault W server vault0 (\<lambda>E. set_pins E pi)) (\<lambda>(_, vault).
     abind (own_touch W (hn_vault_id vault0)) (\<lambda>_.
     abind (server_expires W server vault) (\<lambda>expires.
     abind (if expires
         then abind (omod (\<lambda>st. st\<lparr>ls_no_expiry := ls_no_expiry st - ({v} \<union> set ancestors)\<rparr>))
           (\<lambda>_. keep_alive W server above)
         else omod (\<lambda>st. st\<lparr>ls_no_expiry := ls_no_expiry st \<union> {v} \<union> set ancestors\<rparr>)) (\<lambda>_.
     alift (environment_new vault path)))))))))))"

definition remember :: "'x caller \<Rightarrow> Environment \<Rightarrow> ('x, unit) owning" where
  "remember W env = omod (\<lambda>st. st\<lparr>ls_pins := (ls_pins st)(vid_hex W (hn_vault_id (ev_handle env)) \<mapsto> hn_pins (ev_handle env))\<rparr>)"

definition own_close :: "'x caller \<Rightarrow> Environment \<Rightarrow> ('x, unit) owning" where
  "own_close W env = abind (remember W env) (\<lambda>_. own_save W)"

section \<open>Discovery\<close>

text \<open>A child whose entry predates a rekey, with a key held for it.\<close>

definition relink :: "'x caller \<Rightarrow> string \<Rightarrow> EnvPath \<Rightarrow> NodeKey \<Rightarrow> NodeKey option \<Rightarrow> ('x, (Handle \<times> NodeKey) option) owning" where
  "relink W server path stale parent_key = (case (parent_key, path_parent path) of
     (Some pk, Some parent) \<Rightarrow>
       abind (attempt (held_key W path)) (\<lambda>r. case r of
         Inl _ \<Rightarrow> aret None
       | Inr held \<Rightarrow>
           if node_vault_id W held = node_vault_id W stale then aret None
           else
             abind (attempt (open_node W server held path)) (\<lambda>r. case r of
               Inl _ \<Rightarrow> aret None
             | Inr vault \<Rightarrow>
                 abind (attempt (abind (open_node W server pk parent) (\<lambda>pv.
                   with_vault W server pv (\<lambda>E. seal_child E (path_last path) held)))) (\<lambda>relinked.
                 abind (onotify (case relinked of
                     Inr _ \<Rightarrow> Notice.Progress (Relinked (path_to_string path) (path_to_string parent))
                   | Inl _ \<Rightarrow> Notice.Warning (RelinkFailed (path_to_string path) (path_to_string parent)))) (\<lambda>_.
                 aret (Some (vault, held))))))
   | _ \<Rightarrow> aret None)"

type_synonym node_visit = "EnvPath \<times> NodeKey \<times> bool \<times> NodeKey option"

text \<open>The entries of one children record, as the nodes to visit.\<close>

definition visit_entry :: "'x caller \<Rightarrow> EnvPath \<Rightarrow> OwnerKeys \<Rightarrow> NodeKey \<Rightarrow> ChildEntry \<Rightarrow> ('x, node_visit list) owning" where
  "visit_entry W path o' key e = (case path_child path (en_seg e) of
     Inl _ \<Rightarrow> abind (onotify (Notice.Warning (ChildTooDeep (path_to_string path)))) (\<lambda>_. aret [])
   | Inr child \<Rightarrow> (case entry_key (ca_prims W) o' key e of
       Inr k \<Rightarrow> aret [(child, k, en_mode e \<noteq> Derived, Some key)]
     | Inl _ \<Rightarrow> abind (onotify (Notice.Warning (SealedKeyUnopenable (path_to_string child)))) (\<lambda>_. aret [])))"

definition open_or_relink :: "'x caller \<Rightarrow> string \<Rightarrow> node_visit \<Rightarrow> ('x, Error + (Handle \<times> NodeKey \<times> bool)) owning" where
  "open_or_relink W server item = (case item of (path, key, sl, parent_key) \<Rightarrow>
     abind (attempt (open_node W server key path)) (\<lambda>r. case r of
       Inr v \<Rightarrow> aret (Inr (v, key, sl))
     | Inl e \<Rightarrow>
         abind (relink W server path key parent_key) (\<lambda>r. case r of
           Some (v, held) \<Rightarrow> aret (Inr (v, held, True))
         | None \<Rightarrow> aret (Inl e))))"

definition is_missing :: "Error \<Rightarrow> bool" where
  "is_missing e = (case e of VaultNotFound _ \<Rightarrow> True | _ \<Rightarrow> False)"

text \<open>One visit: the node for the tree, and the nodes below it, or \<open>None\<close> for one that does not open.\<close>

definition discover_node :: "'x caller \<Rightarrow> string \<Rightarrow> EnvPath \<Rightarrow> node_visit \<Rightarrow> ('x, TreeNode \<times> node_visit list option) owning" where
  "discover_node W server root item = (case item of (path, key, sl, parent_key) \<Rightarrow>
     abind (open_or_relink W server item) (\<lambda>opened. case opened of
       Inl e \<Rightarrow>
         if path = root then afail e
         else
           abind (onotify (Notice.Warning (Unreachable (path_to_string path) (is_missing e)))) (\<lambda>_.
           aret (tree_node (node_vault_id W key) sl, None))
     | Inr (vault, k, sl') \<Rightarrow>
         abind (own_touch W (hn_vault_id vault)) (\<lambda>_.
         abind (with_vault W server vault (\<lambda>E. abind (vault_children E) (\<lambda>(rec, _). abind h_owner (\<lambda>o'. aret (rec, o'))))) (\<lambda>((rec, o'), _).
         abind (acollect (visit_entry W path o' k) (kr_children rec)) (\<lambda>found.
         aret (tree_node (hn_vault_id vault) sl', Some (concat found)))))))"

lemma visit_entry_child: "visit_entry W path o' key e s = (Inr vs, s') \<Longrightarrow> x \<in> set vs \<Longrightarrow> path_child path (en_seg e) = Inr (fst x)"
  by (auto simp: visit_entry_def abind_Inr split: sum.splits)

lemma acollect_Inr: "acollect f xs s = (Inr ys, s') \<Longrightarrow> y \<in> set ys \<Longrightarrow> \<exists>x \<in> set xs. \<exists>s1 s2. f x s1 = (Inr y, s2)"
  by (induction xs arbitrary: ys s) (fastforce simp: abind_Inr)+

lemma discover_node_next:
  assumes "discover_node W server root item s = (Inr (n, Some nexts), s')" and "x \<in> set nexts"
  shows "\<exists>g. path_child (fst item) g = Inr (fst x)"
proof -
  obtain path key sl pk where item: "item = (path, key, sl, pk)" by (cases item) auto
  obtain opened s0 where o: "open_or_relink W server item s = (Inr opened, s0)"
    and rest: "(case opened of
         Inl e \<Rightarrow> if path = root then afail e
           else abind (onotify (Notice.Warning (Unreachable (path_to_string path) (is_missing e)))) (\<lambda>_.
             aret (tree_node (node_vault_id W key) sl, None))
       | Inr (vault, k, sl') \<Rightarrow>
         abind (own_touch W (hn_vault_id vault)) (\<lambda>_.
         abind (with_vault W server vault (\<lambda>E. abind (vault_children E) (\<lambda>(rec, _). abind h_owner (\<lambda>o'. aret (rec, o'))))) (\<lambda>((rec, o'), _).
         abind (acollect (visit_entry W path o' k) (kr_children rec)) (\<lambda>found.
         aret (tree_node (hn_vault_id vault) sl', Some (concat found)))))) s0 = (Inr (n, Some nexts), s')"
    using assms(1) unfolding item discover_node_def by (auto simp: abind_Inr simp del: aret_run)
  obtain vault k sl' where "opened = Inr (vault, k, sl')"
    using rest by (cases opened) (auto simp: abind_Inr split: if_splits)
  then obtain o' es found s1 s2 where run: "acollect (visit_entry W path o' k) es s1 = (Inr found, s2)"
    and nexts: "nexts = concat found"
    using rest by (auto simp: abind_Inr)
  then obtain vs where vs: "vs \<in> set found" "x \<in> set vs" using assms(2) by auto
  from acollect_Inr [OF run vs(1)] obtain e s3 s4 where "visit_entry W path o' k e s3 = (Inr vs, s4)" by blast
  from visit_entry_child [OF this vs(2)] show ?thesis unfolding item by auto
qed

text \<open>
  The stack of nodes to visit. It ends because a path has at most four segments: every child is deeper
  than its parent.
\<close>

function discover_loop :: "'x caller \<Rightarrow> string \<Rightarrow> EnvPath \<Rightarrow> node_visit list \<Rightarrow> (string \<times> TreeNode) list \<Rightarrow> EnvPath list \<Rightarrow> 'x owner
    \<Rightarrow> (Error + ((string \<times> TreeNode) list \<times> EnvPath list)) \<times> 'x owner" where
  "discover_loop W server root [] found unreachable s = (Inr (found, unreachable), s)"
| "discover_loop W server root (item # stack) found unreachable s =
     (case discover_node W server root item s of
        (Inl e, s') \<Rightarrow> (Inl e, s')
      | (Inr (n, None), s') \<Rightarrow>
          discover_loop W server root stack (bt_insert (path_to_string (fst item)) n found) (unreachable @ [fst item]) s'
      | (Inr (n, Some nexts), s') \<Rightarrow>
          discover_loop W server root (rev nexts @ stack) (bt_insert (path_to_string (fst item)) n found) unreachable s')"
  by pat_completeness auto

definition visit_measure :: "node_visit list \<Rightarrow> nat multiset" where
  "visit_measure stack = mset (map (\<lambda>x. Suc MAX_DEPTH - path_depth (fst x)) stack)"

lemma visit_measure_pop: "(visit_measure stack, visit_measure (item # stack)) \<in> mult less_than"
  using one_step_implies_mult [of "{#Suc MAX_DEPTH - path_depth (fst item)#}" "{#}" less_than "visit_measure stack"]
  by (simp add: visit_measure_def)

lemma visit_measure_push:
  assumes "\<And>x. x \<in> set nexts \<Longrightarrow> \<exists>g. path_child (fst item) g = Inr (fst x)"
  shows "(visit_measure (rev nexts @ stack), visit_measure (item # stack)) \<in> mult less_than"
proof -
  have "\<forall>k \<in># visit_measure nexts. \<exists>j \<in># {#Suc MAX_DEPTH - path_depth (fst item)#}. (k, j) \<in> less_than"
  proof
    fix k assume "k \<in># visit_measure nexts"
    then obtain x where x: "x \<in> set nexts" "k = Suc MAX_DEPTH - path_depth (fst x)" by (auto simp: visit_measure_def)
    then obtain g where "path_child (fst item) g = Inr (fst x)" using assms by blast
    then have "path_depth (fst x) = Suc (path_depth (fst item))" "path_depth (fst item) < MAX_DEPTH"
      by (auto simp: path_child_Inr path_depth_def)
    then show "\<exists>j \<in># {#Suc MAX_DEPTH - path_depth (fst item)#}. (k, j) \<in> less_than" using x(2) by auto
  qed
  then have "(visit_measure stack + visit_measure nexts, visit_measure stack + {#Suc MAX_DEPTH - path_depth (fst item)#}) \<in> mult less_than"
    by (intro one_step_implies_mult) auto
  then show ?thesis by (simp add: visit_measure_def add.commute)
qed

termination discover_loop
  apply (relation "inv_image (mult less_than) (\<lambda>(W, server, root, stack, found, unreachable, s). visit_measure stack)")
  subgoal by (simp add: wf_mult)
  subgoal by (simp add: visit_measure_pop)
  subgoal for W server root item stack found unreachable s r s' p n nexts' nexts
    using visit_measure_push [of nexts item stack] discover_node_next [of W server root item s n nexts s'] by auto
  done

end
