(* ===== verification/Owner_Ops.thy ===== *)
theory Owner_Ops
  imports Owner
begin

text \<open>
  What an owner does (\<open>owner/mod.rs\<close>): rediscovery, starting a project, adding, removing and repairing
  environments, and kits. Each operation is the sequence of its requests, store calls and changes of the
  local state, and stops at the first error.
\<close>

section \<open>Rediscovery\<close>

definition change_project :: "EnvPath \<Rightarrow> (ProjectState \<Rightarrow> ProjectState) \<Rightarrow> ('x, unit) owning" where
  "change_project path f =
     abind (demand (\<lambda>st. state_project st path)) (\<lambda>p. omod (set_project path (f p)))"

text \<open>Which known paths a rediscovery of \<open>root\<close> keeps: others, and those below a node that did not open.\<close>

definition keeps_path :: "EnvPath \<Rightarrow> EnvPath list \<Rightarrow> string \<Rightarrow> bool" where
  "keeps_path root unreachable k = (case path_parse k of
     Inl _ \<Rightarrow> False
   | Inr p \<Rightarrow> \<not> path_starts_with p root \<or> list_ex (\<lambda>u. p \<noteq> u \<and> path_starts_with p u) unreachable)"

definition rediscovered :: "EnvPath \<Rightarrow> EnvPath list \<Rightarrow> (string \<times> TreeNode) list \<Rightarrow> ProjectState \<Rightarrow> ProjectState" where
  "rediscovered root unreachable found p =
     p\<lparr>ps_tree := bt_extend found (filter (\<lambda>(k, _). keeps_path root unreachable k) (ps_tree p))\<rparr>"

definition discover_from :: "'x caller \<Rightarrow> string \<Rightarrow> EnvPath \<Rightarrow> NodeKey \<Rightarrow> ('x, EnvPath list) owning" where
  "discover_from W server root key =
     abind (demand (\<lambda>st. state_project st root)) (\<lambda>p.
     abind (\<lambda>s. discover_loop W server root [(root, key, is_sealed p root, None)] [] [] s) (\<lambda>(found, unreachable).
     abind (change_project root (rediscovered root unreachable found)) (\<lambda>_.
     aret unreachable)))"

fun refresh_roots :: "'x caller \<Rightarrow> string \<Rightarrow> EnvPath list \<Rightarrow> ('x, unit) owning" where
  "refresh_roots W server [] = aret ()"
| "refresh_roots W server (root # roots) =
     abind (held_key W root) (\<lambda>key.
     abind (discover_from W server root key) (\<lambda>_.
     refresh_roots W server roots))"

definition own_refresh :: "'x caller \<Rightarrow> EnvPath \<Rightarrow> ('x, unit) owning" where
  "own_refresh W project =
     abind (demand (\<lambda>st. state_project st project)) (\<lambda>p.
     let held = parsed_paths (ps_held p) in
     if held = [] then afail (Error.Invalid CODE_NO_KEY)
     else abind (api_for W project) (\<lambda>server. refresh_roots W server held))"

record Discovery =
  di_root :: EnvPath
  di_found :: "EnvPath list"
  di_unreachable :: "EnvPath list"

definition found_below :: "LocalState \<Rightarrow> EnvPath \<Rightarrow> Error + EnvPath list" where
  "found_below st root =
     rbind (state_project st root) (\<lambda>p. Inr (filter (\<lambda>q. path_starts_with q root) (parsed_paths (map fst (ps_tree p)))))"

definition own_discover :: "'x caller \<Rightarrow> EnvPath \<Rightarrow> ('x, Discovery) owning" where
  "own_discover W root =
     abind (demand (\<lambda>st. require_known st root)) (\<lambda>_.
     abind (api_for W root) (\<lambda>server.
     abind (chain_key W server root) (\<lambda>key.
     abind (discover_from W server root key) (\<lambda>unreachable.
     abind (demand (\<lambda>st. found_below st root)) (\<lambda>found.
     abind (own_save W) (\<lambda>_.
     aret \<lparr>di_root = root, di_found = found, di_unreachable = unreachable\<rparr>))))))"

section \<open>Starting a project\<close>

record PendingInit =
  in_path :: EnvPath
  in_server :: string
  in_key :: NodeKey
  in_kit :: Kit

record ProjectInfo =
  pn_path :: EnvPath
  pn_server :: string
  pn_vault_id :: VaultId

definition begin_init :: "'x caller \<Rightarrow> string \<Rightarrow> string \<Rightarrow> ('x, PendingInit) owning" where
  "begin_init W project given =
     abind (alift (map_err (\<lambda>_. Error.Invalid CODE_INVALID_PATH) (segment_new project))) (\<lambda>seg.
     abind (alift (map_err (\<lambda>_. Error.Invalid CODE_INVALID_SERVER) (validate_server_url given))) (\<lambda>server.
     abind (oask (\<lambda>st. map_of (ls_projects st) project \<noteq> None)) (\<lambda>known.
     if known then afail (Error.Invalid CODE_PROJECT_EXISTS)
     else
       abind (odraw (node_generate (ca_prims W))) (\<lambda>key.
       aret \<lparr>in_path = path_project seg, in_server = server, in_key = key,
         in_kit = kit_new (ca_prims W) Recovery (path_project seg) server key\<rparr>))))"

text \<open>The project a confirmed initialisation records.\<close>

definition initial_project :: "EnvPath \<Rightarrow> string \<Rightarrow> VaultId \<Rightarrow> ProjectState" where
  "initial_project path server v =
     \<lparr>ps_server = server, ps_held = [path_to_string path], ps_tree = [(path_to_string path, tree_node v False)]\<rparr>"

text \<open>An error comes with whether the vault was created before it.\<close>

definition confirm_kit_stored :: "'x caller \<Rightarrow> PendingInit \<Rightarrow> ('x owner, Error \<times> bool, ProjectInfo) action" where
  "confirm_kit_stored W pending =
     (let path = in_path pending; server = in_server pending; key = in_key pending; v = node_vault_id W key in
      abind (amap_err (\<lambda>e. (e, False))
        (abind (own_api W server) (\<lambda>_.
         abind (with_api W server (\<lambda>E. vault_create E key (path_to_string path))) (\<lambda>created.
         if \<not> created then afail (Error.Invalid CODE_VAULT_EXISTS) else aret ())))) (\<lambda>_.
      amap_err (\<lambda>e. (e, True))
        (abind (store_key W path key) (\<lambda>_.
         abind (omod (\<lambda>st. st\<lparr>ls_projects := bt_insert (path_to_string path) (initial_project path server v) (ls_projects st)\<rparr>)) (\<lambda>_.
         abind (own_touch W v) (\<lambda>_.
         abind (own_save W) (\<lambda>_.
         aret \<lparr>pn_path = path, pn_server = server, pn_vault_id = v\<rparr>)))))))"

section \<open>Environments\<close>

definition insert_if_absent :: "'x outside \<Rightarrow> Segment \<Rightarrow> ChildrenRecord \<Rightarrow> ('x, ChildrenRecord) hop" where
  "insert_if_absent E seg r =
     (if child_get r seg = None
      then abind (hcall id (client_now E)) (\<lambda>now.
        alift (map_err (\<lambda>_. Error.Other) (child_insert r \<lparr>en_seg = seg, en_created_at = now, en_mode = Derived\<rparr>)))
      else aret r)"

definition env_add :: "'x caller \<Rightarrow> EnvPath \<Rightarrow> ('x, unit) owning" where
  "env_add W path = (case path_parent path of
     None \<Rightarrow> afail (Error.Invalid CODE_IS_PROJECT)
   | Some parent \<Rightarrow>
       abind (demand (\<lambda>st. require_known st parent)) (\<lambda>_.
       abind (demand (\<lambda>st. state_project st path)) (\<lambda>p.
       if knows p path then afail (Error.Invalid CODE_ENV_EXISTS)
       else
         abind (api_for W path) (\<lambda>server.
         abind (chain W server parent) (\<lambda>c.
         abind (alift (chain_end c)) (\<lambda>parent_key.
         abind (keep_alive W server (butlast c)) (\<lambda>_.
         abind (open_node W server parent_key parent) (\<lambda>h0.
         let seg = path_last path; key = node_child (ca_prims W) parent_key seg; v = node_vault_id W key in
         abind (with_vault W server h0 (\<lambda>E. abind (vault_children E) (\<lambda>(r, _).
           if child_get r seg \<noteq> None then afail (Error.Invalid CODE_ENV_EXISTS) else aret ()))) (\<lambda>(_, h1).
         abind (with_api W server (\<lambda>E. vault_create E key (path_to_string path))) (\<lambda>_.
         abind (with_vault W server h1 (\<lambda>E. update_children E (insert_if_absent E seg))) (\<lambda>_.
         abind (change_project path (\<lambda>p. p\<lparr>ps_tree := bt_insert (path_to_string path) (tree_node v False) (ps_tree p)\<rparr>)) (\<lambda>_.
         abind (own_touch W v) (\<lambda>_.
         own_save W)))))))))))))"

record Removal =
  rm_deleted :: "EnvPath list"
  rm_parent_not_updated :: "EnvPath option"

text \<open>One environment of a removal: its vault, its place in the tree, and its key if one is held.\<close>

definition forget_vault :: "'x caller \<Rightarrow> VaultId \<Rightarrow> LocalState \<Rightarrow> LocalState" where
  "forget_vault W v st = st\<lparr>ls_pins := (ls_pins st)(vid_hex W v := None), ls_audit := (ls_audit st)(vid_hex W v := None)\<rparr>"

definition remove_vault :: "'x caller \<Rightarrow> string \<Rightarrow> EnvPath \<Rightarrow> ('x, unit) owning" where
  "remove_vault W server node =
     abind (chain_key W server node) (\<lambda>key.
     abind (attempt (open_node W server key node)) (\<lambda>r. case r of
       Inr h \<Rightarrow>
         abind (with_vault W server h vault_delete_vault) (\<lambda>_. omod (forget_vault W (hn_vault_id h)))
     | Inl e \<Rightarrow> onotify (Notice.Warning (Unreachable (path_to_string node) (is_missing e)))))"

definition forget_node :: "'x caller \<Rightarrow> EnvPath \<Rightarrow> ('x, unit) owning" where
  "forget_node W node =
     (let k = path_to_string node in
      abind (demand (\<lambda>st. state_project st node)) (\<lambda>p.
      abind (change_project node (\<lambda>p. p\<lparr>ps_tree := bt_remove k (ps_tree p), ps_held := remove1 k (ps_held p)\<rparr>)) (\<lambda>_.
      if k \<in> set (ps_held p) then ostore (ca_delete W (Node node)) else aret ())))"

definition remove_node :: "'x caller \<Rightarrow> string \<Rightarrow> EnvPath \<Rightarrow> ('x, EnvPath) owning" where
  "remove_node W server node =
     abind (remove_vault W server node) (\<lambda>_.
     abind (forget_node W node) (\<lambda>_.
     abind (onotify (Notice.Progress (Deleted (path_to_string node)))) (\<lambda>_.
     aret node)))"

definition remove_child :: "Segment \<Rightarrow> ChildrenRecord \<Rightarrow> ChildrenRecord" where
  "remove_child seg r = (case child_remove r seg of Inl _ \<Rightarrow> r | Inr (_, r') \<Rightarrow> r')"

definition env_remove :: "'x caller \<Rightarrow> EnvPath \<Rightarrow> bool \<Rightarrow> ('x, Removal) owning" where
  "env_remove W path recursive =
     abind (demand (\<lambda>st. require_known st path)) (\<lambda>_.
     abind (api_for W path) (\<lambda>server.
     abind (chain W server path) (\<lambda>c.
     abind (alift (chain_end c)) (\<lambda>key.
     abind (discover_from W server path key) (\<lambda>_.
     abind (demand (\<lambda>st. state_project st path)) (\<lambda>p.
     let below = descendants p path in
     if below \<noteq> [] \<and> \<not> recursive then afail (Error.Invalid CODE_HAS_CHILDREN)
     else
       abind (acollect (remove_node W server) (below @ [path])) (\<lambda>deleted.
       abind (case path_parent path of
           Some parent \<Rightarrow>
             if length c \<ge> 2
             then
               abind (open_node W server (snd (c ! (length c - 2))) parent) (\<lambda>h.
               abind (with_vault W server h (\<lambda>E. update_children E (\<lambda>r. aret (remove_child (path_last path) r)))) (\<lambda>_.
               aret None))
             else aret (Some parent)
         | None \<Rightarrow>
             abind (omod (\<lambda>st. st\<lparr>ls_projects := bt_remove (seg_str (project_name path)) (ls_projects st)\<rparr>)) (\<lambda>_.
             aret None)) (\<lambda>left.
       abind (own_save W) (\<lambda>_.
       aret \<lparr>rm_deleted = deleted, rm_parent_not_updated = left\<rparr>)))))))))"

record Repair =
  rp_created :: bool
  rp_children :: nat
  rp_lost :: "EnvPath list"

text \<open>A known child of a repaired node: its entry, lost, or (not in the tree after all) nothing.\<close>

definition repair_entry :: "'x caller \<Rightarrow> ProjectState \<Rightarrow> Key32 \<Rightarrow> VaultId \<Rightarrow> EnvPath \<Rightarrow> ('x, (EnvPath + ChildEntry) option) owning" where
  "repair_entry W p box_pub v child = (case map_of (ps_tree p) (path_to_string child) of
     None \<Rightarrow> aret None
   | Some node \<Rightarrow>
       abind (if tn_sealed node
         then
           abind (ostore (ca_get W (Node child))) (\<lambda>stored. case stored of
             None \<Rightarrow> aret None
           | Some text \<Rightarrow>
               abind (alift (map_err (\<lambda>_. Error.Other) (node_parse (ca_prims W) text))) (\<lambda>k.
               abind (odraw (amap_err err_key (seal_child_key (ca_prims W) box_pub v k))) (\<lambda>ct.
               aret (Some (Sealed (B64 ct))))))
         else aret (Some Derived)) (\<lambda>mode. case mode of
       None \<Rightarrow> aret (Some (Inl child))
     | Some m \<Rightarrow> abind (onow W) (\<lambda>t. aret (Some (Inr \<lparr>en_seg = path_last child, en_created_at = t, en_mode = m\<rparr>)))))"

fun insert_missing :: "ChildEntry list \<Rightarrow> ChildrenRecord \<Rightarrow> Error + ChildrenRecord" where
  "insert_missing [] r = Inr r"
| "insert_missing (e # es) r =
     (if child_get r (en_seg e) = None
      then rbind (map_err (\<lambda>_. Error.Other) (child_insert r e)) (insert_missing es)
      else insert_missing es r)"

definition env_repair :: "'x caller \<Rightarrow> EnvPath \<Rightarrow> ('x, Repair) owning" where
  "env_repair W path =
     abind (demand (\<lambda>st. require_known st path)) (\<lambda>_.
     abind (api_for W path) (\<lambda>server.
     abind (chain_key W server path) (\<lambda>key.
     abind (with_api W server (\<lambda>E. vault_create E key (path_to_string path))) (\<lambda>created.
     abind (open_node W server key path) (\<lambda>h0.
     abind (if created then omod (forget_vault W (hn_vault_id h0)) else aret ()) (\<lambda>_.
     abind (with_vault W server h0 (\<lambda>E. h_owner)) (\<lambda>(o', h).
     abind (demand (\<lambda>st. state_project st path)) (\<lambda>p.
     abind (acollect (repair_entry W p (ok_box_pub o') (hn_vault_id h)) (children_of p path)) (\<lambda>rs.
     let entries = concat (map (\<lambda>r. case r of Some (Inr e) \<Rightarrow> [e] | _ \<Rightarrow> []) rs);
         lost = concat (map (\<lambda>r. case r of Some (Inl q) \<Rightarrow> [q] | _ \<Rightarrow> []) rs) in
     abind (with_vault W server h (\<lambda>E. update_children E (\<lambda>r. alift (insert_missing entries r)))) (\<lambda>_.
     abind (own_touch W (hn_vault_id h)) (\<lambda>_.
     abind (own_save W) (\<lambda>_.
     aret \<lparr>rp_created = created, rp_children = length entries, rp_lost = lost\<rparr>))))))))))))"

section \<open>Kits\<close>

definition export_kit :: "'x caller \<Rightarrow> EnvPath \<Rightarrow> ('x, Kit) owning" where
  "export_kit W path =
     abind (demand (\<lambda>st. require_known st path)) (\<lambda>_.
     abind (api_for W path) (\<lambda>server.
     abind (chain_key W server path) (\<lambda>key.
     abind (demand (\<lambda>st. state_project st path)) (\<lambda>p.
     abind (own_save W) (\<lambda>_.
     aret (kit_new (ca_prims W) Delegation path (ps_server p) key))))))"

text \<open>Whether the kit's project is new here; a pinned project must be the same one.\<close>

definition kit_project :: "Kit \<Rightarrow> VaultId \<Rightarrow> LocalState \<Rightarrow> Error + bool" where
  "kit_project kit v st = (case map_of (ls_projects st) (seg_str (project_name (kt_path kit))) of
     None \<Rightarrow> Inr True
   | Some p \<Rightarrow>
       if ps_server p \<noteq> kt_server kit then Inl (Error.Invalid CODE_SERVER_MISMATCH)
       else if (case map_of (ps_tree p) (path_to_string (kt_path kit)) of Some n \<Rightarrow> tn_vault_id n \<noteq> v | None \<Rightarrow> False)
       then Inl (Error.Invalid CODE_SERVER_MISMATCH)
       else Inr False)"

definition own_import :: "'x caller \<Rightarrow> Kit \<Rightarrow> ('x, Discovery) owning" where
  "own_import W kit =
     (let path = kt_path kit; name = seg_str (project_name path) in
      abind (alift (kit_key (ca_prims W) kit)) (\<lambda>key.
      abind (own_api W (kt_server kit)) (\<lambda>_.
      abind (demand (kit_project kit (node_vault_id W key))) (\<lambda>fresh.
      abind (if fresh then omod (set_project path (project_new (kt_server kit))) else aret ()) (\<lambda>_.
      abind (attempt (discover_from W (kt_server kit) path key)) (\<lambda>r. case r of
        Inl e \<Rightarrow>
          abind (if fresh then omod (\<lambda>st. st\<lparr>ls_projects := bt_remove name (ls_projects st)\<rparr>) else aret ()) (\<lambda>_. afail e)
      | Inr unreachable \<Rightarrow>
          abind (store_key W path key) (\<lambda>_.
          abind (change_project path (\<lambda>p. if path_to_string path \<in> set (ps_held p) then p
            else p\<lparr>ps_held := ps_held p @ [path_to_string path]\<rparr>)) (\<lambda>_.
          abind (demand (\<lambda>st. found_below st path)) (\<lambda>found.
          abind (own_save W) (\<lambda>_.
          aret \<lparr>di_root = path, di_found = found, di_unreachable = unreachable\<rparr>))))))))))"

definition own_recover :: "'x caller \<Rightarrow> Kit \<Rightarrow> ('x, Discovery) owning" where
  "own_recover W kit = (if kt_kind kit \<noteq> Recovery then afail (Error.Invalid CODE_INVALID_KIT) else own_import W kit)"

section \<open>Audit\<close>

text \<open>The audit of an opened environment, from the recorded head; the handle goes on.\<close>

definition own_audit :: "'x caller \<Rightarrow> string \<Rightarrow> Handle \<Rightarrow> nat \<Rightarrow> 'x owner \<Rightarrow> ((Error + AuditReport) \<times> Handle \<times> 'x owner) option" where
  "own_audit W server h earlier s = (case ow_apis s server of
     None \<Rightarrow> Some (Inl Error.Other, h, s)
   | Some (send, caps) \<Rightarrow>
       (case verify_recorded ((ca_base W)\<lparr>ou_send := send\<rparr>) (ls_audit (ow_state s)) earlier
           \<lparr>se_api = \<lparr>as_out = ow_out s, as_draws = ow_draws s, as_caps = caps, as_notices = ow_notices s\<rparr>, se_handle = h\<rparr> of
          None \<Rightarrow> None
        | Some ((r, heads), s') \<Rightarrow>
            (let a = se_api s' in
             Some (r, se_handle s', s\<lparr>ow_out := as_out a, ow_draws := as_draws a, ow_notices := as_notices a,
               ow_apis := (ow_apis s)(server \<mapsto> (send, as_caps a)), ow_state := (ow_state s)\<lparr>ls_audit := heads\<rparr>\<rparr>))))"

end
