(* ===== verification/Owner_Rekey.thy ===== *)
theory Owner_Rekey
  imports Owner_Ops Vault_Copy
begin

text \<open>
  Re-rooting a node (\<open>owner/rekey.rs\<close>): its relative paths, and the walk that plans it. A rekey is planned,
  recorded, and run in steps; each step is recorded before the next begins.
\<close>

section \<open>Relative paths\<close>

definition node_path :: "EnvPath \<Rightarrow> string \<Rightarrow> Error + EnvPath" where
  "node_path root rel =
     (if rel = [] then Inr root
      else map_err (\<lambda>_. Error.Invalid CODE_INVALID_PATH) (path_parse (path_to_string root @ ''/'' @ rel)))"

definition rsplit_slash :: "string \<Rightarrow> (string \<times> string) option" where
  "rsplit_slash s =
     (if CHR ''/'' \<in> set s
      then Some (rev (tl (dropWhile (\<lambda>a. a \<noteq> CHR ''/'') (rev s))), rev (takeWhile (\<lambda>a. a \<noteq> CHR ''/'') (rev s)))
      else None)"

definition parent_of :: "string \<Rightarrow> string" where
  "parent_of rel = (case rsplit_slash rel of None \<Rightarrow> [] | Some (p, _) \<Rightarrow> p)"

definition segment_of :: "string \<Rightarrow> Error + Segment" where
  "segment_of s = map_err (\<lambda>_. Error.Invalid CODE_INVALID_PATH) (segment_new s)"

definition last_segment :: "string \<Rightarrow> Error + Segment" where
  "last_segment rel = segment_of (case rsplit_slash rel of None \<Rightarrow> rel | Some (_, l) \<Rightarrow> l)"

definition derive :: "primitives \<Rightarrow> NodeKey \<Rightarrow> string \<Rightarrow> Error + NodeKey" where
  "derive P root rel =
     rbind (collect_results segment_of (filter (\<lambda>s. s \<noteq> []) (split_on (CHR ''/'') rel))) (\<lambda>gs. Inr (node_descend P root gs))"

definition direct_children :: "string list \<Rightarrow> nat \<Rightarrow> Error + Segment list" where
  "direct_children nodes i = collect_results last_segment (filter (\<lambda>r. r \<noteq> [] \<and> parent_of r = nodes ! i) nodes)"

text \<open>A vault that may be gone: the server answers \<open>unauthorized\<close> for one it does not have.\<close>

definition open_if_exists :: "'x caller \<Rightarrow> string \<Rightarrow> NodeKey \<Rightarrow> string \<Rightarrow> ('x, Handle option) owning" where
  "open_if_exists W server key label = with_api W server (\<lambda>E a.
     case api_status E (OwnerAuth (owner_from_node (ou_prims E) key)) a of
       (r, a') \<Rightarrow>
         if (case r of Inl e \<Rightarrow> api_error_code e = Some ErrorCode.Unauthorized | Inr _ \<Rightarrow> False) then (Inr None, a')
         else abind (open_owner E key label) (\<lambda>h. aret (Some h)) a')"

section \<open>Planning\<close>

record PendingRekey =
  pr_path :: EnvPath
  pr_old :: NodeKey
  pr_new :: NodeKey
  pr_kit :: Kit
  pr_nodes :: "string list"
  pr_old_ids :: "VaultId list"
  pr_new_ids :: "VaultId list"
  pr_remint :: "string list"

definition child_rel :: "string \<Rightarrow> Segment \<Rightarrow> string" where
  "child_rel rel g = (if rel = [] then seg_str g else rel @ ''/'' @ seg_str g)"

definition remint_line :: "'x caller \<Rightarrow> EnvPath \<Rightarrow> TokenSummary \<Rightarrow> string" where
  "remint_line W here t = path_to_string here @ ''  '' @ scope_text (ts_scope t) @ ''  ''
     @ token_id_to_hex (pr_crypto (ca_prims W)) (ts_token_id t)"

text \<open>One node of the old subtree: its vault, its tokens and its children.\<close>

definition rekey_node ::
    "'x caller \<Rightarrow> string \<Rightarrow> EnvPath \<Rightarrow> string \<times> NodeKey \<Rightarrow> ('x, VaultId \<times> string list \<times> (string \<times> NodeKey) list) owning" where
  "rekey_node W server path item = (case item of (rel, key) \<Rightarrow>
     abind (alift (node_path path rel)) (\<lambda>here.
     abind (open_node W server key here) (\<lambda>h.
     let tokens = (case vw_status (hn_view h) of Some st \<Rightarrow> (case vs_tokens st of Some ts \<Rightarrow> ts | None \<Rightarrow> []) | None \<Rightarrow> []) in
     abind (with_vault W server h vault_children) (\<lambda>((rec, _), _).
     abind (alift (collect_results (\<lambda>e. rbind (map_err err_key
         (entry_key (ca_prims W) (owner_from_node (ca_prims W) key) key e)) (\<lambda>k. Inr (child_rel rel (en_seg e), k)))
       (kr_children rec))) (\<lambda>children.
     aret (hn_vault_id h, map (remint_line W here) tokens, children))))))"

lemma vault_children_wf:
  assumes "vault_children E s = (Inr (rec, pre), s')"
  shows "children_wf rec"
proof -
  obtain o' r s1 s2 where "happly (api_children_get E o') s1 = (Inr r, s2)"
    and tail: "(case r of
       Inr a \<Rightarrow> abind (htake E a) (\<lambda>blob.
         abind (alift (map_err err_key (open_children (ou_prims E) o' blob))) (\<lambda>rec. aret (rec, Update (cb_version blob))))
     | Inl e \<Rightarrow> if api_error_code e = Some ErrorCode.NotFound then aret (children_new, Create) else afail (err_api e)) s2
      = (Inr (rec, pre), s')"
    using assms unfolding vault_children_def abind_Inr by blast
  show ?thesis
  proof (cases r)
    case (Inl e)
    then show ?thesis using tail by (auto simp: children_new_ok split: if_splits)
  next
    case (Inr a)
    then show ?thesis using tail by (auto simp: abind_Inr open_children_def rbind_eq_Inr dest: children_parse_ok)
  qed
qed

text \<open>How deep a relative path is.\<close>

definition rel_depth :: "string \<Rightarrow> nat" where
  "rel_depth rel = (if rel = [] then 0 else length (split_on (CHR ''/'') rel))"

lemma split_on_join_slash: "length (split_on d (a @ d # b)) = length (split_on d a) + length (split_on d b)"
  by (induction a) (auto split: list.splits)

lemma child_rel_deeper: "wf_segment g \<Longrightarrow> rel_depth rel < rel_depth (child_rel rel g)"
  by (auto simp: rel_depth_def child_rel_def split_on_join_slash wf_segment_def Suc_le_eq)

lemma node_path_depth:
  assumes "node_path root rel = Inr p"
  shows "rel_depth rel < MAX_DEPTH"
proof (cases "rel = []")
  case False
  then have "path_parse (path_to_string root @ CHR ''/'' # rel) = Inr p" using assms by (simp add: node_path_def)
  then have p: "wf_path p" "path_to_string p = path_to_string root @ CHR ''/'' # rel" by (simp_all add: path_codec)
  have "length (split_on (CHR ''/'') (path_to_string root)) + length (split_on (CHR ''/'') rel) = length (segments p)"
    using split_path_to_string [OF p(1)] p(2) by (metis length_map split_on_join_slash)
  moreover obtain w ws where "split_on (CHR ''/'') (path_to_string root) = w # ws"
    by (cases "split_on (CHR ''/'') (path_to_string root)") auto
  ultimately show ?thesis using p(1) False by (simp add: rel_depth_def wf_path_def)
qed (simp add: rel_depth_def MAX_DEPTH_def)

lemma collect_results_mem: "collect_results f xs = Inr ys \<Longrightarrow> y \<in> set ys \<Longrightarrow> \<exists>x \<in> set xs. f x = Inr y"
  by (induction xs arbitrary: ys) (auto simp: rbind_eq_Inr)

lemma rekey_node_next:
  assumes "rekey_node W server path item s = (Inr (v, ts, nexts), s')" and "x \<in> set nexts"
  shows "rel_depth (fst item) < rel_depth (fst x)" "rel_depth (fst item) < MAX_DEPTH"
proof -
  obtain rel key where item: "item = (rel, key)" by (cases item) auto
  obtain here h recs pre h' s1 s2 where here: "node_path path rel = Inr here"
    and kids: "with_vault W server h vault_children s1 = (Inr ((recs, pre), h'), s2)"
    and nexts: "collect_results (\<lambda>e. rbind (map_err err_key
         (entry_key (ca_prims W) (owner_from_node (ca_prims W) key) key e)) (\<lambda>k. Inr (child_rel rel (en_seg e), k)))
       (kr_children recs) = Inr nexts"
    using assms(1) unfolding item by (auto simp: rekey_node_def abind_Inr Let_def)
  have "children_wf recs"
    using kids by (auto simp: with_vault_def with_api_def on_handle_def split: option.splits prod.splits sum.splits dest: vault_children_wf)
  moreover obtain e where "e \<in> set (kr_children recs)" "fst x = child_rel rel (en_seg e)"
    using collect_results_mem [OF nexts assms(2)] by (auto simp: rbind_eq_Inr)
  ultimately show "rel_depth (fst item) < rel_depth (fst x)"
    using child_rel_deeper by (auto simp: item children_wf_def list_all_iff)
  show "rel_depth (fst item) < MAX_DEPTH" using node_path_depth [OF here] by (simp add: item)
qed

text \<open>The walk of the old subtree, parents first. It ends because children are deeper than their parents.\<close>

function rekey_walk ::
    "'x caller \<Rightarrow> string \<Rightarrow> EnvPath \<Rightarrow> (string \<times> NodeKey) list \<Rightarrow> string list \<Rightarrow> VaultId list \<Rightarrow> string list \<Rightarrow> 'x owner
      \<Rightarrow> (Error + (string list \<times> VaultId list \<times> string list)) \<times> 'x owner" where
  "rekey_walk W server path [] nodes ids remint s = (Inr (nodes, ids, remint), s)"
| "rekey_walk W server path (item # queue) nodes ids remint s =
     (case rekey_node W server path item s of
        (Inl e, s') \<Rightarrow> (Inl e, s')
      | (Inr (v, ts, nexts), s') \<Rightarrow>
          rekey_walk W server path (queue @ nexts) (nodes @ [fst item]) (ids @ [v]) (remint @ ts) s')"
  by pat_completeness auto

definition walk_measure :: "(string \<times> NodeKey) list \<Rightarrow> nat multiset" where
  "walk_measure queue = mset (map (\<lambda>x. Suc MAX_DEPTH - rel_depth (fst x)) queue)"

lemma walk_measure_step:
  assumes "\<And>x. x \<in> set nexts \<Longrightarrow> rel_depth (fst item) < rel_depth (fst x) \<and> rel_depth (fst item) < MAX_DEPTH"
  shows "(walk_measure (queue @ nexts), walk_measure (item # queue)) \<in> mult less_than"
proof -
  have "\<forall>k \<in># walk_measure nexts. \<exists>j \<in># {#Suc MAX_DEPTH - rel_depth (fst item)#}. (k, j) \<in> less_than"
    using assms by (fastforce simp: walk_measure_def)
  then have "(walk_measure queue + walk_measure nexts, walk_measure queue + {#Suc MAX_DEPTH - rel_depth (fst item)#}) \<in> mult less_than"
    by (intro one_step_implies_mult) auto
  then show ?thesis by (simp add: walk_measure_def)
qed

termination rekey_walk
  apply (relation "inv_image (mult less_than) (\<lambda>(W, server, path, queue, nodes, ids, remint, s). walk_measure queue)")
  subgoal by (simp add: wf_mult)
  subgoal for W server path item queue nodes ids remint s r s' p v q ts nexts
    using walk_measure_step [of nexts item queue] rekey_node_next [of W server path item s v ts nexts s'] by auto
  done

end
