(* ===== verification/Owner_Run.thy ===== *)
theory Owner_Run
  imports Owner_Rekey
begin

text \<open>
  Planning, running, resuming and aborting a rekey (\<open>owner/rekey.rs\<close>), and what is sure about an
  interrupted one.
\<close>

section \<open>Planning\<close>

definition begin_rekey :: "'x caller \<Rightarrow> EnvPath \<Rightarrow> ('x, PendingRekey) owning" where
  "begin_rekey W path =
     abind (oask ls_rekey) (\<lambda>plan.
     if plan \<noteq> None then afail (Error.Invalid CODE_REKEY_IN_PROGRESS)
     else
       abind (demand (\<lambda>st. require_known st path)) (\<lambda>_.
       abind (api_for W path) (\<lambda>server.
       abind (demand (\<lambda>st. state_project st path)) (\<lambda>p.
       abind (chain_key W server path) (\<lambda>old.
       abind (rekey_walk W server path [([], old)] [] [] []) (\<lambda>(nodes, old_ids, remint).
       abind (odraw (node_generate (ca_prims W))) (\<lambda>new.
       abind (alift (collect_results (\<lambda>r. rbind (derive (ca_prims W) new r) (\<lambda>k. Inr (node_vault_id W k))) nodes)) (\<lambda>new_ids.
       aret \<lparr>pr_path = path, pr_old = old, pr_new = new,
         pr_kit = kit_new (ca_prims W) (if is_project path then Recovery else Delegation) path (ps_server p) new,
         pr_nodes = nodes, pr_old_ids = old_ids, pr_new_ids = new_ids, pr_remint = remint\<rparr>))))))))"

definition plan_for :: "LocalState \<Rightarrow> EnvPath option \<Rightarrow> Error + RekeyPlan" where
  "plan_for st path =
     rbind (ok_or (ls_rekey st) (Error.Invalid CODE_NO_REKEY)) (\<lambda>plan.
     if (case path of Some p \<Rightarrow> path_to_string p \<noteq> rk_path plan | None \<Rightarrow> False) then Inl (Error.Invalid CODE_NO_REKEY)
     else Inr plan)"

definition record_plan :: "RekeyPlan option \<Rightarrow> ('x, unit) owning" where
  "record_plan plan = omod (\<lambda>st. st\<lparr>ls_rekey := plan\<rparr>)"

text \<open>A step is recorded, durably, before anything after it.\<close>

definition advance :: "'x caller \<Rightarrow> RekeyPlan \<Rightarrow> RekeyStep \<Rightarrow> ('x, RekeyPlan) owning" where
  "advance W plan step =
     (let plan' = plan\<lparr>rk_step := step\<rparr> in
      abind (record_plan (Some plan')) (\<lambda>_.
      abind (own_save W) (\<lambda>_.
      abind (onotify (Notice.Progress (Progress.RekeyStep (rk_path plan') (step_str step)))) (\<lambda>_.
      aret plan'))))"

section \<open>The old keys\<close>

fun index_of :: "'a \<Rightarrow> 'a list \<Rightarrow> nat option" where
  "index_of x [] = None"
| "index_of x (y # ys) = (if y = x then Some 0 else map_option Suc (index_of x ys))"

definition nth_opt :: "'a list \<Rightarrow> nat \<Rightarrow> 'a option" where
  "nth_opt xs i = (if i < length xs then Some (xs ! i) else None)"

type_synonym seen_records = "nat \<rightharpoonup> ChildrenRecord option"

text \<open>The children record of an old node, read once; \<open>None\<close> when its vault is gone.\<close>

definition old_record :: "'x caller \<Rightarrow> string \<Rightarrow> EnvPath \<Rightarrow> RekeyPlan \<Rightarrow> nat \<Rightarrow> NodeKey \<Rightarrow> seen_records
    \<Rightarrow> ('x, ChildrenRecord option \<times> seen_records) owning" where
  "old_record W server path plan i key seen = (case seen i of
     Some r \<Rightarrow> aret (r, seen)
   | None \<Rightarrow>
       abind (alift (node_path path (rk_nodes plan ! i))) (\<lambda>label.
       abind (open_if_exists W server key (path_to_string label)) (\<lambda>v.
       abind (case v of
           None \<Rightarrow> aret None
         | Some h \<Rightarrow> abind (with_vault W server h vault_children) (\<lambda>((r, _), _). aret (Some r))) (\<lambda>r.
       aret (r, seen(i \<mapsto> r))))))"

definition old_key :: "'x caller \<Rightarrow> string \<Rightarrow> EnvPath \<Rightarrow> RekeyPlan \<Rightarrow> NodeKey \<Rightarrow> nat \<Rightarrow> string \<Rightarrow> NodeKey option list \<Rightarrow> seen_records
    \<Rightarrow> ('x, NodeKey option \<times> seen_records) owning" where
  "old_key W server path plan root i rel keys seen =
     (if rel = [] then aret (Some root, seen)
      else
        abind (alift (ok_or (index_of (parent_of rel) (take i (rk_nodes plan))) Error.Other)) (\<lambda>p.
        case keys ! p of
          None \<Rightarrow> aret (None, seen)
        | Some parent_key \<Rightarrow>
            abind (old_record W server path plan p parent_key seen) (\<lambda>(r, seen'). case r of
              None \<Rightarrow> aret (None, seen')
            | Some rec \<Rightarrow>
                abind (alift (last_segment rel)) (\<lambda>seg.
                abind (alift (ok_or (child_get rec seg) Error.Other)) (\<lambda>e.
                abind (alift (map_err err_key
                  (entry_key (ca_prims W) (owner_from_node (ca_prims W) parent_key) parent_key e))) (\<lambda>k.
                aret (Some k, seen')))))))"

fun old_keys_from :: "'x caller \<Rightarrow> string \<Rightarrow> EnvPath \<Rightarrow> RekeyPlan \<Rightarrow> NodeKey \<Rightarrow> nat \<Rightarrow> string list \<Rightarrow> NodeKey option list \<Rightarrow> seen_records
    \<Rightarrow> ('x, NodeKey option list) owning" where
  "old_keys_from W server path plan root i [] keys seen = aret keys"
| "old_keys_from W server path plan root i (rel # rels) keys seen =
     abind (alift (node_path path rel)) (\<lambda>_.
     abind (old_key W server path plan root i rel keys seen) (\<lambda>(key, seen').
     if (case key of Some k \<Rightarrow> nth_opt (rk_old_ids plan) i \<noteq> Some (node_vault_id W k) | None \<Rightarrow> False) then afail Error.Other
     else old_keys_from W server path plan root (Suc i) rels (keys @ [key]) seen'))"

definition old_keys :: "'x caller \<Rightarrow> string \<Rightarrow> EnvPath \<Rightarrow> RekeyPlan \<Rightarrow> ('x, NodeKey option list) owning" where
  "old_keys W server path plan =
     abind (stored_key W (RekeyOld path)) (\<lambda>root. old_keys_from W server path plan root 0 (rk_nodes plan) [] Map.empty)"

section \<open>The steps\<close>

definition with_api_loop :: "'x caller \<Rightarrow> string \<Rightarrow> ('x outside \<Rightarrow> ('x api_state, Error, 'a) loop) \<Rightarrow> ('x owner, Error, 'a) loop" where
  "with_api_loop W server m s = (case ow_apis s server of
     None \<Rightarrow> Some (Inl Error.Other, s)
   | Some (send, caps) \<Rightarrow>
       (case m ((ca_base W)\<lparr>ou_send := send\<rparr>)
           \<lparr>as_out = ow_out s, as_draws = ow_draws s, as_caps = caps, as_notices = ow_notices s\<rparr> of
          None \<Rightarrow> None
        | Some (r, a) \<Rightarrow> Some (r, s\<lparr>ow_out := as_out a, ow_draws := as_draws a, ow_notices := as_notices a,
            ow_apis := (ow_apis s)(server \<mapsto> (send, as_caps a))\<rparr>)))"

text \<open>\<open>new.copy_from(old)\<close>; the new handle goes on.\<close>

definition copy_vault :: "'x caller \<Rightarrow> string \<Rightarrow> Handle \<Rightarrow> Handle \<Rightarrow> ('x owner, Error, Handle) loop" where
  "copy_vault W server new old = with_api_loop W server (\<lambda>E a. case copy_from E (a, new, old) of
     None \<Rightarrow> None
   | Some (Inl e, a', _, _) \<Rightarrow> Some (Inl e, a')
   | Some (Inr _, a', new', _) \<Rightarrow> Some (Inr new', a'))"

fun insert_all_absent :: "'x outside \<Rightarrow> Segment list \<Rightarrow> ChildrenRecord \<Rightarrow> ('x, ChildrenRecord) hop" where
  "insert_all_absent E [] r = aret r"
| "insert_all_absent E (seg # segs) r = abind (insert_if_absent E seg r) (insert_all_absent E segs)"

definition create_vaults :: "'x caller \<Rightarrow> string \<Rightarrow> (NodeKey \<times> string) list \<Rightarrow> ('x, unit) owning" where
  "create_vaults W server news =
     abind (acollect (\<lambda>(k, label). with_api W server (\<lambda>E. vault_create E k label)) (rev news)) (\<lambda>_. aret ())"

definition migrate_node :: "'x caller \<Rightarrow> string \<Rightarrow> RekeyPlan \<Rightarrow> (NodeKey \<times> string) list \<Rightarrow> NodeKey option list \<Rightarrow> nat
    \<Rightarrow> ('x owner, Error, unit) loop" where
  "migrate_node W server plan news olds i =
     (let (key, label) = news ! i in
      lbind (ended (alift (ok_or (olds ! i) Error.Other))) (\<lambda>old_key.
      lbind (ended (with_api W server (\<lambda>E. open_owner E old_key label))) (\<lambda>old.
      lbind (ended (with_api W server (\<lambda>E. open_owner E key label))) (\<lambda>new.
      lbind (copy_vault W server new old) (\<lambda>new'.
      ended (
        abind (alift (direct_children (rk_nodes plan) i)) (\<lambda>children.
        if children = [] then aret ()
        else abind (with_vault W server new' (\<lambda>E. update_children E (insert_all_absent E children))) (\<lambda>_. aret ())))))))) "

definition migrate :: "'x caller \<Rightarrow> string \<Rightarrow> EnvPath \<Rightarrow> RekeyPlan \<Rightarrow> (NodeKey \<times> string) list \<Rightarrow> ('x owner, Error, unit) loop" where
  "migrate W server path plan news =
     lbind (ended (old_keys W server path plan)) (\<lambda>olds.
     lbind (lcollect (migrate_node W server plan news olds) (rev [0..<length (rk_nodes plan)])) (\<lambda>_.
     ended (aret ())))"

definition link_parent :: "'x caller \<Rightarrow> string \<Rightarrow> EnvPath \<Rightarrow> NodeKey \<Rightarrow> RekeyPlan \<Rightarrow> ('x, RekeyPlan) owning" where
  "link_parent W server path new plan = (case path_parent path of
     None \<Rightarrow> aret plan
   | Some parent \<Rightarrow>
       abind (demand (\<lambda>st. state_project st path)) (\<lambda>p.
       if held_root_for p parent = None
       then abind (onotify (Notice.Warning (Detached (path_to_string path) (path_to_string parent)))) (\<lambda>_. aret plan)
       else
         abind (chain_key W server parent) (\<lambda>parent_key.
         abind (open_node W server parent_key parent) (\<lambda>h.
         abind (with_vault W server h (\<lambda>E. seal_child E (path_last path) new)) (\<lambda>_.
         aret (plan\<lparr>rk_linked := True\<rparr>))))))"

definition retire_node :: "'x caller \<Rightarrow> string \<Rightarrow> NodeKey option \<times> string \<Rightarrow> ('x, unit) owning" where
  "retire_node W server item = (case item of
     (None, _) \<Rightarrow> aret ()
   | (Some key, label) \<Rightarrow>
       abind (open_if_exists W server key label) (\<lambda>v. case v of
         None \<Rightarrow> aret ()
       | Some h \<Rightarrow> abind (with_vault W server h vault_delete_vault) (\<lambda>_. aret ())))"

definition retire :: "'x caller \<Rightarrow> string \<Rightarrow> EnvPath \<Rightarrow> RekeyPlan \<Rightarrow> string list \<Rightarrow> ('x, unit) owning" where
  "retire W server path plan labels =
     abind (old_keys W server path plan) (\<lambda>olds.
     abind (acollect (retire_node W server) (rev (zip olds labels))) (\<lambda>_. aret ()))"

section \<open>Finishing\<close>

record RekeyOutcome =
  ro_path :: EnvPath
  ro_nodes :: nat
  ro_new_vault_id :: "VaultId option"
  ro_kit :: string
  ro_remint :: "string list"

text \<open>The keys held below the node were old ones.\<close>

definition held_below :: "RekeyPlan \<Rightarrow> EnvPath \<Rightarrow> ProjectState \<Rightarrow> string list" where
  "held_below plan path p = filter (\<lambda>h. h \<noteq> rk_path plan
     \<and> (case path_parse h of Inr q \<Rightarrow> path_starts_with q path | Inl _ \<Rightarrow> False)) (ps_held p)"

definition cut_project :: "RekeyPlan \<Rightarrow> EnvPath \<Rightarrow> ProjectState \<Rightarrow> ProjectState" where
  "cut_project plan path p =
     (let held = filter (\<lambda>h. h \<notin> set (held_below plan path p)) (ps_held p) in
      p\<lparr>ps_held := (if rk_path plan \<in> set held then held else held @ [rk_path plan]),
        ps_tree := filter (\<lambda>(k, _). \<not> (case path_parse k of Inr q \<Rightarrow> path_starts_with q path | Inl _ \<Rightarrow> False)) (ps_tree p)\<rparr>)"

fun insert_nodes :: "EnvPath \<Rightarrow> bool \<Rightarrow> nat \<Rightarrow> (string \<times> VaultId) list \<Rightarrow> ('x, unit) owning" where
  "insert_nodes path linked i [] = aret ()"
| "insert_nodes path linked i ((rel, v) # rest) =
     abind (alift (node_path path rel)) (\<lambda>q.
     abind (change_project path (\<lambda>p. p\<lparr>ps_tree := bt_insert (path_to_string q) (tree_node v (i = 0 \<and> linked)) (ps_tree p)\<rparr>)) (\<lambda>_.
     insert_nodes path linked (Suc i) rest))"

definition forget_old :: "'x caller \<Rightarrow> VaultId list \<Rightarrow> LocalState \<Rightarrow> LocalState" where
  "forget_old W ids st =
     (let hs = map (vid_hex W) ids in
      st\<lparr>ls_pins := ls_pins st |` (- set hs), ls_audit := ls_audit st |` (- set hs),
        ls_touched := ls_touched st |` (- set hs), ls_no_expiry := ls_no_expiry st - set hs\<rparr>)"

fun delete_keys :: "'x caller \<Rightarrow> KeyName list \<Rightarrow> ('x, unit) owning" where
  "delete_keys W [] = aret ()"
| "delete_keys W (k # ks) = abind (ostore (ca_delete W k)) (\<lambda>_. delete_keys W ks)"

definition finish_rekey :: "'x caller \<Rightarrow> EnvPath \<Rightarrow> RekeyPlan \<Rightarrow> NodeKey \<Rightarrow> ('x, RekeyOutcome) owning" where
  "finish_rekey W path plan new =
     abind (store_key W path new) (\<lambda>_.
     abind (demand (\<lambda>st. state_project st path)) (\<lambda>p.
     abind (change_project path (cut_project plan path)) (\<lambda>_.
     abind (insert_nodes path (rk_linked plan) 0 (zip (rk_nodes plan) (rk_new_ids plan))) (\<lambda>_.
     abind (omod (forget_old W (rk_old_ids plan))) (\<lambda>_.
     abind (onow W) (\<lambda>t.
     abind (omod (\<lambda>st. st\<lparr>ls_touched := fold (\<lambda>v m. m(vid_hex W v \<mapsto> t)) (rk_new_ids plan) (ls_touched st)\<rparr>)) (\<lambda>_.
     abind (record_plan None) (\<lambda>_.
     abind (own_save W) (\<lambda>_.
     abind (delete_keys W (map Node (parsed_paths (held_below plan path p)) @ [RekeyOld path, RekeyNew path])) (\<lambda>_.
     aret \<lparr>ro_path = path, ro_nodes = length (rk_nodes plan), ro_new_vault_id = nth_opt (rk_new_ids plan) 0,
       ro_kit = rk_kit plan, ro_remint = rk_remint plan\<rparr>))))))))))"

section \<open>Running\<close>

text \<open>What a run needs of the plan: its path, its server, the new keys and the labels; checked first.\<close>

definition new_node :: "'x caller \<Rightarrow> EnvPath \<Rightarrow> NodeKey \<Rightarrow> string \<times> VaultId \<Rightarrow> Error + (NodeKey \<times> string)" where
  "new_node W path new x = (case x of (rel, v) \<Rightarrow>
     rbind (derive (ca_prims W) new rel) (\<lambda>key.
     if node_vault_id W key \<noteq> v then Inl Error.Other
     else rbind (node_path path rel) (\<lambda>q. Inr (key, path_to_string q))))"

definition prepare :: "'x caller \<Rightarrow> RekeyPlan \<Rightarrow> ('x, EnvPath \<times> string \<times> NodeKey \<times> (NodeKey \<times> string) list) owning" where
  "prepare W plan =
     abind (alift (map_err (\<lambda>_. Error.Other) (path_parse (rk_path plan)))) (\<lambda>path.
     abind (api_for W path) (\<lambda>server.
     abind (stored_key W (RekeyNew path)) (\<lambda>new.
     if length (rk_new_ids plan) \<noteq> length (rk_nodes plan) \<or> length (rk_old_ids plan) \<noteq> length (rk_nodes plan) \<or> rk_nodes plan = []
     then afail Error.Other
     else
       abind (alift (collect_results (new_node W path new) (zip (rk_nodes plan) (rk_new_ids plan)))) (\<lambda>news.
       aret (path, server, new, news)))))"

text \<open>A step that is not yet complete: do it, then record it.\<close>

definition stage :: "'x caller \<Rightarrow> RekeyStep \<Rightarrow> (RekeyPlan \<Rightarrow> ('x owner, Error, RekeyPlan) loop) \<Rightarrow> RekeyPlan
    \<Rightarrow> ('x owner, Error, RekeyPlan) loop" where
  "stage W step work plan =
     (if rk_step plan < step then lbind (work plan) (\<lambda>plan'. ended (advance W plan' step)) else ended (aret plan))"

definition run_rekey :: "'x caller \<Rightarrow> RekeyPlan \<Rightarrow> ('x owner, Error, RekeyOutcome) loop" where
  "run_rekey W plan =
     lbind (ended (prepare W plan)) (\<lambda>(path, server, new, news).
     lbind (stage W Created (\<lambda>p. ended (abind (create_vaults W server news) (\<lambda>_. aret p))) plan) (\<lambda>p1.
     lbind (stage W Migrated (\<lambda>p. lbind (migrate W server path p news) (\<lambda>_. ended (aret p))) p1) (\<lambda>p2.
     lbind (stage W Linked (\<lambda>p. ended (link_parent W server path new p)) p2) (\<lambda>p3.
     lbind (stage W Retired (\<lambda>p. ended (abind (retire W server path p (map snd news)) (\<lambda>_. aret p))) p3) (\<lambda>p4.
     ended (finish_rekey W path p4 new))))))"

definition confirm_rekey :: "'x caller \<Rightarrow> PendingRekey \<Rightarrow> string \<Rightarrow> ('x owner, Error, RekeyOutcome) loop" where
  "confirm_rekey W pending location =
     (let path = pr_path pending;
          plan = \<lparr>rk_path = path_to_string path, rk_kit = location, rk_nodes = pr_nodes pending,
            rk_old_ids = pr_old_ids pending, rk_new_ids = pr_new_ids pending, rk_remint = pr_remint pending,
            rk_step = Planned, rk_linked = False\<rparr> in
      lbind (ended (
        abind (ostore (ca_set W (RekeyOld path) (node_encode (ca_prims W) (pr_old pending)))) (\<lambda>_.
        abind (ostore (ca_set W (RekeyNew path) (node_encode (ca_prims W) (pr_new pending)))) (\<lambda>_.
        abind (onotify (Notice.Progress (RekeyPlanned (rk_path plan) (length (rk_nodes plan)) (length (rk_remint plan)) location))) (\<lambda>_.
        abind (record_plan (Some plan)) (\<lambda>_.
        own_save W)))))) (\<lambda>_.
      run_rekey W plan))"

definition rekey_resume :: "'x caller \<Rightarrow> EnvPath option \<Rightarrow> ('x owner, Error, RekeyOutcome) loop" where
  "rekey_resume W path = lbind (ended (demand (\<lambda>st. plan_for st path))) (run_rekey W)"

section \<open>Aborting\<close>

text \<open>The link may have landed without being recorded.\<close>

definition linked_unrecorded :: "'x caller \<Rightarrow> string \<Rightarrow> EnvPath \<Rightarrow> RekeyPlan \<Rightarrow> ('x, bool) owning" where
  "linked_unrecorded W server path plan = (case path_parent path of
     None \<Rightarrow> aret False
   | Some parent \<Rightarrow>
       abind (demand (\<lambda>st. state_project st path)) (\<lambda>p.
       if held_root_for p parent = None then aret False
       else
         abind (chain_key W server parent) (\<lambda>parent_key.
         abind (open_node W server parent_key parent) (\<lambda>h.
         abind (with_vault W server h vault_children) (\<lambda>((rec, _), _).
         aret (case child_get rec (path_last path) of
             None \<Rightarrow> False
           | Some e \<Rightarrow> (case en_mode e of
               Derived \<Rightarrow> False
             | Sealed ct \<Rightarrow> (case owner_open_child_key (ca_prims W) (owner_from_node (ca_prims W) parent_key) (b64 ct) of
                 Inl _ \<Rightarrow> False
               | Inr k \<Rightarrow> nth_opt (rk_new_ids plan) 0 = Some (node_vault_id W k))))))))) "

definition drop_new :: "'x caller \<Rightarrow> string \<Rightarrow> EnvPath \<Rightarrow> NodeKey \<Rightarrow> string \<Rightarrow> ('x, unit) owning" where
  "drop_new W server path new rel =
     abind (alift (derive (ca_prims W) new rel)) (\<lambda>key.
     abind (alift (node_path path rel)) (\<lambda>q.
     abind (open_if_exists W server key (path_to_string q)) (\<lambda>v. case v of
       None \<Rightarrow> aret ()
     | Some h \<Rightarrow> abind (with_vault W server h vault_delete_vault) (\<lambda>_. aret ()))))"

definition abort_rekey :: "'x caller \<Rightarrow> RekeyPlan \<Rightarrow> ('x, EnvPath \<times> string) owning" where
  "abort_rekey W plan =
     abind (alift (map_err (\<lambda>_. Error.Other) (path_parse (rk_path plan)))) (\<lambda>path.
     if rk_linked plan \<or> rk_step plan \<ge> Linked then afail (Error.Invalid CODE_REKEY_FORWARD_ONLY)
     else
       abind (api_for W path) (\<lambda>server.
       abind (stored_key W (RekeyNew path)) (\<lambda>new.
       abind (linked_unrecorded W server path plan) (\<lambda>linked.
       if linked then afail (Error.Invalid CODE_REKEY_FORWARD_ONLY)
       else
         abind (acollect (drop_new W server path new) (rev (rk_nodes plan))) (\<lambda>_.
         abind (record_plan None) (\<lambda>_.
         abind (own_save W) (\<lambda>_.
         abind (delete_keys W [RekeyOld path, RekeyNew path]) (\<lambda>_.
         aret (path, rk_kit plan)))))))))"

definition rekey_abort :: "'x caller \<Rightarrow> EnvPath option \<Rightarrow> ('x, EnvPath \<times> string) owning" where
  "rekey_abort W path = abind (demand (\<lambda>st. plan_for st path)) (abort_rekey W)"

end
