(* ===== verification/Owner_Frame.thy ===== *)
theory Owner_Frame
  imports Owner_Run
begin

text \<open>
  What the operations of an owner do to the local state. \<open>owes R m\<close>: whatever happens outside, the state
  after \<open>m\<close> is related by \<open>R\<close> to the state before, also when \<open>m\<close> fails. Two locales carry this through the
  operations: requests and stores leave the state alone, and bookkeeping changes only what is kept
  per vault.
\<close>

named_theorems owing

definition owes :: "(LocalState \<Rightarrow> LocalState \<Rightarrow> bool) \<Rightarrow> ('x owner, 'e, 'a) action \<Rightarrow> bool" where
  "owes R m \<longleftrightarrow> (\<forall>s. R (ow_state s) (ow_state (snd (m s))))"

definition lowes :: "(LocalState \<Rightarrow> LocalState \<Rightarrow> bool) \<Rightarrow> ('x owner, 'e, 'a) loop \<Rightarrow> bool" where
  "lowes R m \<longleftrightarrow> (\<forall>s r s'. m s = Some (r, s') \<longrightarrow> R (ow_state s) (ow_state s'))"

lemma owesD: "owes R m \<Longrightarrow> m s = (r, s') \<Longrightarrow> R (ow_state s) (ow_state s')"
  by (metis owes_def snd_conv)

lemma lowesD: "lowes R m \<Longrightarrow> m s = Some (r, s') \<Longrightarrow> R (ow_state s) (ow_state s')"
  by (simp add: lowes_def)

section \<open>Any reflexive and transitive relation\<close>

locale state_relation =
  fixes R :: "LocalState \<Rightarrow> LocalState \<Rightarrow> bool"
  assumes refl: "R st st"
    and trans: "R a b \<Longrightarrow> R b c \<Longrightarrow> R a c"
begin

lemma aret_owes [owing]: "owes R (aret a)" by (simp add: owes_def refl)
lemma afail_owes [owing]: "owes R (afail e)" by (simp add: owes_def refl)
lemma alift_owes [owing]: "owes R (alift r)" by (simp add: owes_def refl)
lemma oask_owes [owing]: "owes R (oask f)" by (simp add: owes_def oask_def refl)
lemma onotify_owes [owing]: "owes R (onotify n)" by (simp add: owes_def onotify_def refl)
lemma onow_owes [owing]: "owes R (onow W)" by (simp add: owes_def onow_def refl split: prod.splits)
lemma odraw_owes [owing]: "owes R (odraw m)" by (simp add: owes_def odraw_def refl split: prod.splits)
lemma ostore_owes [owing]: "owes R (ostore f)" by (simp add: owes_def ostore_def refl split: prod.splits)

lemma omod_owes: "(\<And>st. R st (f st)) \<Longrightarrow> owes R (omod f)" by (simp add: owes_def omod_def)

lemma result_bind_owes: "owes R m \<Longrightarrow> (\<And>a s s'. m s = (Inr a, s') \<Longrightarrow> owes R (f a)) \<Longrightarrow> owes R (abind m f)"
proof -
  assume m: "owes R m" and f: "\<And>a s s'. m s = (Inr a, s') \<Longrightarrow> owes R (f a)"
  have "R (ow_state s) (ow_state (snd (abind m f s)))" for s
  proof -
    obtain r s1 where s1: "m s = (r, s1)" by (cases "m s")
    then have R1: "R (ow_state s) (ow_state s1)" by (rule owesD [OF m])
    show ?thesis
    proof (cases r)
      case (Inl e)
      then show ?thesis using s1 R1 by (simp add: abind_def)
    next
      case (Inr a)
      then have "R (ow_state s1) (ow_state (snd (f a s1)))" using f [of s a s1] s1 by (simp add: owes_def)
      then show ?thesis using s1 R1 Inr trans by (simp add: abind_def)
    qed
  qed
  then show ?thesis by (simp add: owes_def)
qed

lemma abind_owes [owing]: "owes R m \<Longrightarrow> (\<And>a. owes R (f a)) \<Longrightarrow> owes R (abind m f)"
  by (rule result_bind_owes)

lemma alift_bind_owes: "(\<And>a. r = Inr a \<Longrightarrow> owes R (f a)) \<Longrightarrow> owes R (abind (alift r) f)"
  by (cases r) (auto simp: owes_def abind_def refl)

lemma attempt_owes [owing]: "owes R m \<Longrightarrow> owes R (attempt m)"
  by (auto simp: owes_def attempt_def split: prod.splits) (metis snd_conv)

lemma amap_err_owes [owing]: "owes R m \<Longrightarrow> owes R (amap_err g m)"
  by (auto simp: owes_def amap_err_def split: prod.splits) (metis snd_conv)

lemma sum_owes [owing]: "(\<And>e. owes R (f e)) \<Longrightarrow> (\<And>a. owes R (g a)) \<Longrightarrow> owes R (case r of Inl e \<Rightarrow> f e | Inr a \<Rightarrow> g a)"
  by (cases r) simp_all

lemma option_owes [owing]: "owes R f \<Longrightarrow> (\<And>a. owes R (g a)) \<Longrightarrow> owes R (case r of None \<Rightarrow> f | Some a \<Rightarrow> g a)"
  by (cases r) simp_all

lemma prod_owes [owing]: "(\<And>a b. owes R (f a b)) \<Longrightarrow> owes R (case p of (a, b) \<Rightarrow> f a b)"
  by (cases p) simp

lemma prod_fun_owes [owing]: "(\<And>a b. owes R (f a b c)) \<Longrightarrow> owes R ((case p of (a, b) \<Rightarrow> f a b) c)"
  by (cases p) simp

lemma if_owes [owing]: "owes R f \<Longrightarrow> owes R g \<Longrightarrow> owes R (if b then f else g)"
  by simp

lemma acollect_owes [owing]: "(\<And>x. owes R (f x)) \<Longrightarrow> owes R (acollect f xs)"
  by (induction xs) (auto simp del: aret_run intro!: owing)

lemma with_api_owes [owing]: "owes R (with_api W server m)"
  by (simp add: owes_def with_api_def refl split: option.splits prod.splits)

lemma with_vault_owes [owing]: "owes R (with_vault W server h m)"
  unfolding with_vault_def by (rule with_api_owes)

lemma open_node_owes [owing]: "owes R (open_node W server key path)"
  unfolding open_node_def by (rule with_api_owes)

lemma open_if_exists_owes [owing]: "owes R (open_if_exists W server key label)"
  unfolding open_if_exists_def by (rule with_api_owes)

lemma demand_owes [owing]: "owes R (demand f)"
  unfolding demand_def by (intro owing)

lemma own_save_owes [owing]: "owes R (own_save W)"
  unfolding own_save_def by (intro owing)

lemma own_api_owes [owing]: "owes R (own_api W server)"
  by (simp add: owes_def own_api_def refl split: sum.splits prod.splits)

lemma api_for_owes [owing]: "owes R (api_for W path)"
  unfolding api_for_def by (intro owing)

lemma stored_key_owes [owing]: "owes R (stored_key W name)"
  unfolding stored_key_def by (intro owing)

lemma held_key_owes [owing]: "owes R (held_key W path)"
  unfolding held_key_def by (intro owing)

lemma store_key_owes [owing]: "owes R (store_key W path key)"
  unfolding store_key_def by (intro owing)

lemma sealed_child_key_owes [owing]: "owes R (sealed_child_key W server here key seg)"
  unfolding sealed_child_key_def by (intro owing)

lemma chain_down_owes [owing]: "owes R (chain_down W server p here key segs)"
  by (induction segs arbitrary: here key) (auto simp del: aret_run intro!: owing)

lemma chain_owes [owing]: "owes R (chain W server path)"
  unfolding chain_def by (intro owing)

lemma chain_key_owes [owing]: "owes R (chain_key W server path)"
  unfolding chain_key_def by (intro owing)

lemma server_expires_owes [owing]: "owes R (server_expires W server h)"
  unfolding server_expires_def by (intro owing)

lemma relink_owes [owing]: "owes R (relink W server path stale parent_key)"
  unfolding relink_def by (intro owing)

lemma visit_entry_owes [owing]: "owes R (visit_entry W path o' key e)"
  unfolding visit_entry_def by (intro owing)

lemma open_or_relink_owes [owing]: "owes R (open_or_relink W server item)"
  unfolding open_or_relink_def by (intro owing)

lemma delete_keys_owes [owing]: "owes R (delete_keys W ks)"
  by (induction ks) (auto simp del: aret_run intro!: owing)

lemma repair_entry_owes [owing]: "owes R (repair_entry W p box v child)"
  unfolding repair_entry_def by (intro owing)

lemma rekey_node_owes [owing]: "owes R (rekey_node W server path item)"
  unfolding rekey_node_def Let_def by (intro owing)

lemma rekey_walk_owes: "R (ow_state s) (ow_state (snd (rekey_walk W server path queue nodes ids remint s)))"
proof (induction W server path queue nodes ids remint s rule: rekey_walk.induct)
  case (2 W server path item queue nodes ids remint s)
  obtain r s1 where s1: "rekey_node W server path item s = (r, s1)" by (cases "rekey_node W server path item s")
  then have R1: "R (ow_state s) (ow_state s1)" by (rule owesD [OF rekey_node_owes])
  show ?case using s1 R1 2 trans by (cases r) auto
qed (simp add: refl)

lemma walk_owes [owing]: "owes R (rekey_walk W server path queue nodes ids remint)"
  by (simp add: owes_def rekey_walk_owes)

lemma begin_rekey_owes [owing]: "owes R (begin_rekey W path)"
  unfolding begin_rekey_def by (intro owing)

lemma old_record_owes [owing]: "owes R (old_record W server path plan i key seen)"
  unfolding old_record_def by (intro owing)

lemma old_key_owes [owing]: "owes R (old_key W server path plan root i rel keys seen)"
  unfolding old_key_def by (intro owing)

lemma old_keys_from_owes [owing]: "owes R (old_keys_from W server path plan root i rels keys seen)"
  by (induction rels arbitrary: i keys seen) (auto simp del: aret_run intro!: owing)

lemma old_keys_owes [owing]: "owes R (old_keys W server path plan)"
  unfolding old_keys_def by (intro owing)

lemma prepare_owes [owing]: "owes R (prepare W plan)"
  unfolding prepare_def by (intro owing)

lemma create_vaults_owes [owing]: "owes R (create_vaults W server news)"
  unfolding create_vaults_def by (intro owing)

lemma link_parent_owes [owing]: "owes R (link_parent W server path new plan)"
  unfolding link_parent_def by (intro owing)

lemma retire_node_owes [owing]: "owes R (retire_node W server item)"
  unfolding retire_node_def by (intro owing)

lemma retire_owes [owing]: "owes R (retire W server path plan labels)"
  unfolding retire_def by (intro owing)

lemma linked_unrecorded_owes [owing]: "owes R (linked_unrecorded W server path plan)"
  unfolding linked_unrecorded_def by (intro owing)

lemma drop_new_owes [owing]: "owes R (drop_new W server path new rel)"
  unfolding drop_new_def by (intro owing)

text \<open>Loops.\<close>

lemma ended_owes [owing]: "owes R m \<Longrightarrow> lowes R (ended m)"
  by (auto simp: lowes_def dest: owesD)

lemma lbind_owes [owing]: "lowes R m \<Longrightarrow> (\<And>a. lowes R (f a)) \<Longrightarrow> lowes R (lbind m f)"
  by (fastforce simp: lowes_def lbind_def split: option.splits prod.splits sum.splits intro: trans)

lemma result_lbind_owes: "lowes R m \<Longrightarrow> (\<And>a s s'. m s = Some (Inr a, s') \<Longrightarrow> lowes R (f a)) \<Longrightarrow> lowes R (lbind m f)"
  by (fastforce simp: lowes_def lbind_def split: option.splits prod.splits sum.splits intro: trans)

lemma lcollect_owes [owing]: "(\<And>x. lowes R (f x)) \<Longrightarrow> lowes R (lcollect f xs)"
  by (induction xs) (auto simp del: aret_run intro!: owing)

lemma lprod_owes [owing]: "(\<And>a b. lowes R (f a b)) \<Longrightarrow> lowes R (case p of (a, b) \<Rightarrow> f a b)"
  by (cases p) simp

lemma copy_vault_owes [owing]: "lowes R (copy_vault W server new old)"
  by (auto simp: lowes_def copy_vault_def with_api_loop_def refl split: option.splits)

lemma migrate_node_owes [owing]: "lowes R (migrate_node W server plan news olds i)"
  unfolding migrate_node_def Let_def by (intro owing)

lemma migrate_owes [owing]: "lowes R (migrate W server path plan news)"
  unfolding migrate_def by (intro owing)

end

section \<open>Bookkeeping\<close>

locale bookkeeping_relation = state_relation R
  for R :: "LocalState \<Rightarrow> LocalState \<Rightarrow> bool" +
  assumes touched: "R st (st\<lparr>ls_touched := t\<rparr>)"
    and expiring: "R st (st\<lparr>ls_no_expiry := n\<rparr>)"
    and pinned: "R st (st\<lparr>ls_pins := q\<rparr>)"
    and audited: "R st (st\<lparr>ls_audit := a\<rparr>)"
begin

lemma own_touch_owes [owing]: "owes R (own_touch W v)"
  unfolding own_touch_def by (intro owing omod_owes touched)

lemma keep_alive_from_owes [owing]: "owes R (keep_alive_from W server t upper)"
  by (induction upper) (auto simp: Let_def simp del: aret_run intro!: owing omod_owes touched expiring)

lemma keep_alive_owes [owing]: "owes R (keep_alive W server upper)"
  unfolding keep_alive_def by (intro owing)

lemma environment_owes [owing]: "owes R (environment W path)"
  unfolding environment_def Let_def by (intro owing omod_owes expiring)

lemma remember_owes [owing]: "owes R (remember W env)"
  unfolding remember_def by (intro omod_owes pinned)

lemma forgets: "R st (forget_vault W v st)"
  unfolding forget_vault_def using trans [OF pinned audited, of st] by simp

lemma discover_node_owes [owing]: "owes R (discover_node W server root item)"
  unfolding discover_node_def by (intro owing)

lemma discover_loop_owes: "R (ow_state s) (ow_state (snd (discover_loop W server root stack found unreachable s)))"
proof (induction W server root stack found unreachable s rule: discover_loop.induct)
  case (2 W server root item stack found unreachable s)
  obtain r s1 where s1: "discover_node W server root item s = (r, s1)" by (cases "discover_node W server root item s")
  then have R1: "R (ow_state s) (ow_state s1)" by (rule owesD [OF discover_node_owes])
  show ?case
  proof (cases r)
    case (Inl e)
    then show ?thesis using s1 R1 by simp
  next
    case (Inr p)
    then obtain n o' where "r = Inr (n, o')" by (cases p) simp
    then show ?thesis using s1 R1 2 trans by (cases o') auto
  qed
qed (simp add: refl)

lemma discovering_owes [owing]: "owes R (\<lambda>s. discover_loop W server root stack found unreachable s)"
  by (simp add: owes_def discover_loop_owes)

lemma remove_vault_owes [owing]: "owes R (remove_vault W server node)"
  unfolding remove_vault_def by (intro owing omod_owes forgets)

end

interpretation still: state_relation "(=)"
  by unfold_locales auto

text \<open>The projects and the rekey stay; only what is kept per vault changes.\<close>

definition same_tree :: "LocalState \<Rightarrow> LocalState \<Rightarrow> bool" where
  "same_tree st st' \<longleftrightarrow> ls_projects st' = ls_projects st \<and> ls_rekey st' = ls_rekey st"

interpretation books: bookkeeping_relation same_tree
  by unfold_locales (auto simp: same_tree_def)

end
