(* ===== verification/Owner_Safe.thy ===== *)
theory Owner_Safe
  imports Owner_Frame
begin

text \<open>
  What is sure of a rekey, however it is interrupted: it can be resumed, and once its parent points at the
  new key it can only go forward.
\<close>

section \<open>Projects\<close>

lemma bt_insert_lookup: "map_of (bt_insert k v m) = (map_of m)(k \<mapsto> v)"
  by (induction k v m rule: bt_insert.induct) (auto simp: fun_eq_iff)

lemma project_of_set [simp]: "state_project (set_project path p st) path = Inr p"
  by (simp add: state_project_def set_project_def bt_insert_lookup)

lemma project_irrelevant [simp]:
  "state_project (st\<lparr>ls_rekey := a\<rparr>) path = state_project st path"
  "state_project (st\<lparr>ls_touched := t\<rparr>) path = state_project st path"
  "state_project (st\<lparr>ls_pins := b\<rparr>) path = state_project st path"
  "state_project (st\<lparr>ls_audit := c\<rparr>) path = state_project st path"
  "state_project (st\<lparr>ls_no_expiry := d\<rparr>) path = state_project st path"
  by (simp_all add: state_project_def)

lemma rekey_of_set [simp]: "ls_rekey (set_project path p st) = ls_rekey st"
  by (simp add: set_project_def)

lemma demand_run: "demand f s = (f (ow_state s), s)"
  by (simp add: demand_def abind_def oask_def)

lemma change_project_run:
  "change_project path f s = (case state_project (ow_state s) path of
     Inl e \<Rightarrow> (Inl e, s)
   | Inr p \<Rightarrow> (Inr (), s\<lparr>ow_state := set_project path (f p) (ow_state s)\<rparr>))"
  by (simp add: change_project_def abind_def demand_run omod_def split: sum.splits)

section \<open>Plans\<close>

text \<open>The same plan, as far or further.\<close>

definition same_plan :: "RekeyPlan \<Rightarrow> RekeyPlan \<Rightarrow> bool" where
  "same_plan p q \<longleftrightarrow> rk_path q = rk_path p \<and> rk_kit q = rk_kit p \<and> rk_nodes q = rk_nodes p \<and> rk_old_ids q = rk_old_ids p
     \<and> rk_new_ids q = rk_new_ids p \<and> rk_remint q = rk_remint p \<and> rk_step p \<le> rk_step q \<and> (rk_linked p \<longrightarrow> rk_linked q)"

lemma same_plan_refl [simp]: "same_plan p p"
  by (simp add: same_plan_def)

lemma same_plan_trans: "same_plan p q \<Longrightarrow> same_plan q r \<Longrightarrow> same_plan p r"
  by (auto simp: same_plan_def)

lemma same_plan_step: "rk_step p \<le> step \<Longrightarrow> same_plan p (p\<lparr>rk_step := step\<rparr>)"
  by (simp add: same_plan_def)

lemma own_save_state: "own_save W s = (r, s') \<Longrightarrow> ow_state s' = ow_state s"
  using owesD [OF still.own_save_owes] by fastforce

lemma advance_plan:
  assumes "advance W plan step s = (r, s')"
  shows "ls_rekey (ow_state s') = Some (plan\<lparr>rk_step := step\<rparr>)" "r = Inr plan' \<Longrightarrow> plan' = plan\<lparr>rk_step := step\<rparr>"
proof -
  let ?s1 = "s\<lparr>ow_state := (ow_state s)\<lparr>ls_rekey := Some (plan\<lparr>rk_step := step\<rparr>)\<rparr>\<rparr>"
  obtain r1 s2 where s2: "own_save W ?s1 = (r1, s2)" by (cases "own_save W ?s1")
  then have st: "ow_state s2 = ow_state ?s1" by (rule own_save_state)
  have run: "advance W plan step s = (case r1 of Inl e \<Rightarrow> (Inl e, s2)
      | Inr _ \<Rightarrow> (Inr (plan\<lparr>rk_step := step\<rparr>), s2\<lparr>ow_notices := ow_notices s2
          @ [Notice.Progress (Progress.RekeyStep (rk_path plan) (step_str step))]\<rparr>))"
    using s2 by (simp add: advance_def Let_def abind_def record_plan_def omod_def onotify_def split: sum.splits)
  show "ls_rekey (ow_state s') = Some (plan\<lparr>rk_step := step\<rparr>)"
    using assms st unfolding run by (cases r1) auto
  show "r = Inr plan' \<Longrightarrow> plan' = plan\<lparr>rk_step := step\<rparr>" using assms unfolding run by (cases r1) auto
qed

text \<open>What a step's work may do: leave the local state alone, and give the plan back, perhaps linked.\<close>

definition works :: "(RekeyPlan \<Rightarrow> ('x owner, Error, RekeyPlan) loop) \<Rightarrow> bool" where
  "works work \<longleftrightarrow> (\<forall>p. lowes (=) (work p)) \<and> (\<forall>p s q s'. work p s = Some (Inr q, s') \<longrightarrow> same_plan p q \<and> rk_step q = rk_step p)"

lemma stage_plan:
  assumes "works work" and "stage W step work plan s = Some (r, s')" and "ls_rekey (ow_state s) = Some plan"
  shows "\<exists>plan'. ls_rekey (ow_state s') = Some plan' \<and> same_plan plan plan' \<and> (\<forall>q. r = Inr q \<longrightarrow> q = plan' \<and> step \<le> rk_step q)"
proof (cases "rk_step plan < step")
  case False
  then show ?thesis using assms(2,3) by (auto simp: stage_def)
next
  case True
  then have run: "lbind (work plan) (\<lambda>plan'. ended (advance W plan' step)) s = Some (r, s')" using assms(2) by (simp add: stage_def)
  then obtain r1 s1 where w: "work plan s = Some (r1, s1)" by (auto simp: lbind_def split: option.splits)
  have "lowes (=) (work plan)" using assms(1) by (simp add: works_def)
  then have st: "ow_state s1 = ow_state s" using w lowesD [of "(=)" "work plan" s r1 s1] by simp
  show ?thesis
  proof (cases r1)
    case (Inl e)
    then show ?thesis using run w st assms(3) by (auto simp: lbind_def)
  next
    case (Inr q)
    then have q: "same_plan plan q" "rk_step q = rk_step plan" using assms(1) w unfolding works_def by blast+
    have a: "advance W q step s1 = (r, s')" using run w Inr by (simp add: lbind_def)
    have "same_plan plan (q\<lparr>rk_step := step\<rparr>)"
      using q True by (intro same_plan_trans [OF q(1) same_plan_step]) simp
    then show ?thesis using advance_plan [OF a] by auto
  qed
qed

lemma works_ended: "(\<And>p. owes (=) (m p)) \<Longrightarrow> (\<And>p s q s'. m p s = (Inr q, s') \<Longrightarrow> same_plan p q \<and> rk_step q = rk_step p)
    \<Longrightarrow> works (\<lambda>p. ended (m p))"
  by (auto simp: works_def intro: still.ended_owes)

lemma works_then: "(\<And>p. owes (=) (m p)) \<Longrightarrow> works (\<lambda>p. ended (abind (m p) (\<lambda>_. aret p)))"
  by (rule works_ended) (auto simp: abind_Inr simp del: aret_run intro!: still.abind_owes still.aret_owes, auto)

lemma works_migrate: "works (\<lambda>p. lbind (migrate W server path p news) (\<lambda>_. ended (aret p)))"
  unfolding works_def
  by (auto simp: lbind_Some simp del: aret_run intro!: still.lbind_owes still.ended_owes still.aret_owes still.migrate_owes, auto)

lemma link_parent_plan: "link_parent W server path new p s = (Inr q, s') \<Longrightarrow> same_plan p q \<and> rk_step q = rk_step p"
  by (auto simp: link_parent_def abind_Inr same_plan_def split: option.splits if_splits)

lemma works_link: "works (\<lambda>p. ended (link_parent W server path new p))"
  by (rule works_ended) (use still.link_parent_owes link_parent_plan in blast)+

lemmas work_intros = works_then works_migrate works_link still.create_vaults_owes still.retire_owes

section \<open>Finishing\<close>

text \<open>A node of the rekeyed subtree is in the tree with a given vault.\<close>

definition placed :: "EnvPath \<Rightarrow> ProjectState \<Rightarrow> string \<Rightarrow> VaultId \<Rightarrow> bool" where
  "placed path p rel v \<longleftrightarrow> (\<exists>q n. node_path path rel = Inr q \<and> map_of (ps_tree p) (path_to_string q) = Some n \<and> tn_vault_id n = v)"

text \<open>The tree and the held paths after a rekey: the node is held, every node has its new vault, and
  nothing else is known below it.\<close>

definition rekeyed :: "RekeyPlan \<Rightarrow> LocalState \<Rightarrow> bool" where
  "rekeyed plan st \<longleftrightarrow> (\<exists>path p. path_parse (rk_path plan) = Inr path \<and> state_project st path = Inr p
     \<and> rk_path plan \<in> set (ps_held p)
     \<and> (\<forall>(rel, v) \<in> set (zip (rk_nodes plan) (rk_new_ids plan)). placed path p rel v)
     \<and> (\<forall>k \<in> fst ` set (ps_tree p). \<forall>q. path_parse k = Inr q \<longrightarrow> path_starts_with q path \<longrightarrow>
          (\<exists>rel \<in> set (rk_nodes plan). node_path path rel = Inr q)))"

lemma node_path_inject:
  assumes "wf_path root" and "node_path root a = Inr q" and "node_path root b = Inr q"
  shows "a = b"
proof -
  have "path_to_string q = (if c = [] then path_to_string root else path_to_string root @ ''/'' @ c)"
    if "node_path root c = Inr q" for c
    using that by (auto simp: node_path_def path_codec split: if_splits)
  from this [OF assms(2)] this [OF assms(3)] show ?thesis by (auto split: if_splits)
qed

lemma node_path_wf: "wf_path root \<Longrightarrow> node_path root a = Inr q \<Longrightarrow> wf_path q"
  by (auto simp: node_path_def path_codec split: if_splits)

lemma placed_insert:
  assumes "wf_path path" and "node_path path rel = Inr q" and "placed path p rel' v'" and "rel' = rel \<Longrightarrow> v' = tn_vault_id n"
  shows "placed path (p\<lparr>ps_tree := bt_insert (path_to_string q) n (ps_tree p)\<rparr>) rel' v'"
proof -
  obtain q' n' where q': "node_path path rel' = Inr q'" "map_of (ps_tree p) (path_to_string q') = Some n'" "tn_vault_id n' = v'"
    using assms(3) by (auto simp: placed_def)
  show ?thesis
  proof (cases "rel' = rel")
    case True
    then show ?thesis using assms(2,4) by (auto simp: placed_def bt_insert_lookup)
  next
    case False
    then have "q' \<noteq> q" using node_path_inject [OF assms(1)] assms(2) q'(1) by blast
    then have "path_to_string q' \<noteq> path_to_string q"
      using path_to_string_inject node_path_wf [OF assms(1)] assms(2) q'(1) by blast
    then show ?thesis using q' by (auto simp: placed_def bt_insert_lookup)
  qed
qed

lemma insert_nodes_tree:
  assumes "insert_nodes path linked i xs s = (r, s')" and "wf_path path" and "state_project (ow_state s) path = Inr p"
    and "\<forall>(rel, v) \<in> set xs. g rel = v" and "\<forall>rel \<in> D. placed path p rel (g rel)"
  shows "\<exists>p'. ls_rekey (ow_state s') = ls_rekey (ow_state s) \<and> state_project (ow_state s') path = Inr p' \<and> ps_held p' = ps_held p
      \<and> fst ` set (ps_tree p') \<subseteq> fst ` set (ps_tree p) \<union> {path_to_string q | q. \<exists>rel \<in> fst ` set xs. node_path path rel = Inr q}
      \<and> (r = Inr () \<longrightarrow> (\<forall>rel \<in> D \<union> fst ` set xs. placed path p' rel (g rel)))"
  using assms(1,3-)
proof (induction xs arbitrary: i s p D)
  case Nil
  then show ?case by auto
next
  case (Cons x xs)
  obtain rel v where x: "x = (rel, v)" by (cases x)
  show ?case
  proof (cases "node_path path rel")
    case (Inl e)
    then show ?thesis using Cons.prems x by (auto simp: abind_def)
  next
    case (Inr q)
    let ?n = "tree_node v (i = 0 \<and> linked)"
    let ?p = "p\<lparr>ps_tree := bt_insert (path_to_string q) ?n (ps_tree p)\<rparr>"
    let ?s = "s\<lparr>ow_state := set_project path ?p (ow_state s)\<rparr>"
    have run: "insert_nodes path linked (Suc i) xs ?s = (r, s')"
      using Cons.prems(1,2) by (simp add: x Inr abind_def change_project_run)
    have v: "g rel = v" "\<forall>(rel, v) \<in> set xs. g rel = v" using Cons.prems(3) x by auto
    have "placed path ?p rel (g rel)" using v(1) by (auto simp: placed_def Inr bt_insert_lookup tree_node_def)
    moreover have "\<forall>rel' \<in> D. placed path ?p rel' (g rel')"
      using placed_insert [OF assms(2) Inr, of p _ _ ?n] Cons.prems(4) v(1) by (auto simp: tree_node_def)
    ultimately have D: "\<forall>rel' \<in> insert rel D. placed path ?p rel' (g rel')" by blast
    have proj: "state_project (ow_state ?s) path = Inr ?p" by simp
    obtain p' where p': "ls_rekey (ow_state s') = ls_rekey (ow_state ?s)" "state_project (ow_state s') path = Inr p'"
        "ps_held p' = ps_held ?p"
        "fst ` set (ps_tree p') \<subseteq> fst ` set (ps_tree ?p) \<union> {path_to_string q | q. \<exists>rel \<in> fst ` set xs. node_path path rel = Inr q}"
        "r = Inr () \<longrightarrow> (\<forall>rel' \<in> insert rel D \<union> fst ` set xs. placed path p' rel' (g rel'))"
      using Cons.IH [OF run proj v(2) D] by blast
    have "fst ` set (ps_tree ?p) = insert (path_to_string q) (fst ` set (ps_tree p))" by (simp add: bt_insert_keys)
    moreover have "{path_to_string q | q. \<exists>rel \<in> fst ` set (x # xs). node_path path rel = Inr q}
        = insert (path_to_string q) {path_to_string q | q. \<exists>rel \<in> fst ` set xs. node_path path rel = Inr q}"
      by (auto simp: x Inr)
    ultimately have "fst ` set (ps_tree p') \<subseteq> fst ` set (ps_tree p) \<union> {path_to_string q | q. \<exists>rel \<in> fst ` set (x # xs). node_path path rel = Inr q}"
      using p'(4) by auto
    then show ?thesis using p' x by (intro exI [of _ p']) auto
  qed
qed

lemma finish_tail:
  assumes "owes (=) tail"
    and "abind (omod (forget_old W ids)) (\<lambda>_. abind (onow W) (\<lambda>t.
      abind (omod (\<lambda>st. st\<lparr>ls_touched := fold (\<lambda>v m. m(vid_hex W v \<mapsto> t)) vs (ls_touched st)\<rparr>)) (\<lambda>_.
      abind (record_plan None) (\<lambda>_. tail)))) s = (r, s')"
  shows "ls_projects (ow_state s') = ls_projects (ow_state s)" "ls_rekey (ow_state s') = None"
proof -
  obtain t x where "ou_now (ca_base W) (ow_out s) = (t, x)" by (cases "ou_now (ca_base W) (ow_out s)")
  then obtain s1 where s1: "tail s1 = (r, s')" "ls_projects (ow_state s1) = ls_projects (ow_state s)" "ls_rekey (ow_state s1) = None"
    using assms(2) by (auto simp: abind_def omod_def onow_def record_plan_def forget_old_def Let_def)
  then have "ow_state s' = ow_state s1" using owesD [OF assms(1) s1(1)] by simp
  then show "ls_projects (ow_state s') = ls_projects (ow_state s)" "ls_rekey (ow_state s') = None" using s1 by simp_all
qed

lemma cut_project_keys:
  assumes "k \<in> fst ` set (ps_tree (cut_project plan path p))" and "path_parse k = Inr q"
  shows "\<not> path_starts_with q path"
  using assms by (auto simp: cut_project_def Let_def)

lemma finish_rekeyed:
  assumes run: "finish_rekey W path plan new s = (r, s')" and path: "path_parse (rk_path plan) = Inr path"
    and plan: "ls_rekey (ow_state s) = Some plan"
    and ids: "\<forall>(rel, v) \<in> set (zip (rk_nodes plan) (rk_new_ids plan)). g rel = v"
  shows "ls_rekey (ow_state s') = Some plan \<and> isl r \<or> ls_rekey (ow_state s') = None \<and> rekeyed plan (ow_state s')"
proof -
  let ?xs = "zip (rk_nodes plan) (rk_new_ids plan)"
  have wf: "wf_path path" using path by (simp add: path_codec)
  obtain r1 s1 where s1: "store_key W path new s = (r1, s1)" by (cases "store_key W path new s")
  then have st1: "ow_state s1 = ow_state s" using owesD [OF still.store_key_owes] by fastforce
  show ?thesis
  proof (cases "r1 = Inr () \<and> (\<exists>p. state_project (ow_state s1) path = Inr p)")
    case False
    then have "ow_state s' = ow_state s \<and> isl r"
      using run s1 st1 by (cases r1) (auto simp: finish_rekey_def abind_def demand_run split: sum.splits)
    then show ?thesis using plan by simp
  next
    case True
    then obtain p where p: "r1 = Inr ()" "state_project (ow_state s1) path = Inr p" by blast
    let ?p = "cut_project plan path p"
    let ?s2 = "s1\<lparr>ow_state := set_project path ?p (ow_state s1)\<rparr>"
    let ?tail = "abind (own_save W) (\<lambda>_.
      abind (delete_keys W (map Node (parsed_paths (held_below plan path p)) @ [RekeyOld path, RekeyNew path])) (\<lambda>_.
      aret \<lparr>ro_path = path, ro_nodes = length (rk_nodes plan), ro_new_vault_id = nth_opt (rk_new_ids plan) 0,
        ro_kit = rk_kit plan, ro_remint = rk_remint plan\<rparr>))"
    let ?rest = "abind (omod (forget_old W (rk_old_ids plan))) (\<lambda>_. abind (onow W) (\<lambda>t.
      abind (omod (\<lambda>st. st\<lparr>ls_touched := fold (\<lambda>v m. m(vid_hex W v \<mapsto> t)) (rk_new_ids plan) (ls_touched st)\<rparr>)) (\<lambda>_.
      abind (record_plan None) (\<lambda>_. ?tail))))"
    obtain r3 s3 where s3: "insert_nodes path (rk_linked plan) 0 ?xs ?s2 = (r3, s3)"
      by (cases "insert_nodes path (rk_linked plan) 0 ?xs ?s2")
    have fin: "finish_rekey W path plan new s = (case r3 of Inl e \<Rightarrow> (Inl e, s3) | Inr _ \<Rightarrow> ?rest s3)"
      using s1 p s3 by (simp add: finish_rekey_def abind_def demand_run change_project_run)
    have "state_project (ow_state ?s2) path = Inr ?p" by simp
    from insert_nodes_tree [OF s3 wf this ids, of "{}"] obtain p' where
      p': "ls_rekey (ow_state s3) = ls_rekey (ow_state ?s2)" "state_project (ow_state s3) path = Inr p'" "ps_held p' = ps_held ?p"
        "fst ` set (ps_tree p') \<subseteq> fst ` set (ps_tree ?p) \<union> {path_to_string q | q. \<exists>rel \<in> fst ` set ?xs. node_path path rel = Inr q}"
        "r3 = Inr () \<longrightarrow> (\<forall>rel \<in> fst ` set ?xs. placed path p' rel (g rel))"
      by auto
    have plan3: "ls_rekey (ow_state s3) = Some plan" using p'(1) plan st1 by simp
    show ?thesis
    proof (cases r3)
      case (Inl e)
      then show ?thesis using run fin plan3 by auto
    next
      case (Inr u)
      then have "?rest s3 = (r, s')" using run fin by simp
      moreover have "owes (=) ?tail" by (intro still.abind_owes still.own_save_owes still.delete_keys_owes still.aret_owes)
      ultimately have tl: "ls_projects (ow_state s') = ls_projects (ow_state s3)" "ls_rekey (ow_state s') = None"
        using finish_tail by blast+
      have "state_project (ow_state s') path = Inr p'" using p'(2) tl(1) by (simp add: state_project_def)
      moreover have "rk_path plan \<in> set (ps_held p')" by (simp add: p'(3) cut_project_def Let_def)
      moreover have "\<forall>(rel, v) \<in> set ?xs. placed path p' rel v" using p'(5) Inr ids by force
      moreover have "\<forall>k \<in> fst ` set (ps_tree p'). \<forall>q. path_parse k = Inr q \<longrightarrow> path_starts_with q path \<longrightarrow>
          (\<exists>rel \<in> set (rk_nodes plan). node_path path rel = Inr q)"
      proof (intro ballI allI impI)
        fix k q assume k: "k \<in> fst ` set (ps_tree p')" "path_parse k = Inr q" "path_starts_with q path"
        then have "k \<notin> fst ` set (ps_tree ?p)" using cut_project_keys by blast
        then obtain q' rel where q': "k = path_to_string q'" "rel \<in> fst ` set ?xs" "node_path path rel = Inr q'" using p'(4) k(1) by blast
        have "q' = q"
          using k(2) q'(1) path_to_string_inject node_path_wf [OF wf q'(3)] by (auto simp: path_codec)
        moreover have "rel \<in> set (rk_nodes plan)" using q'(2) by (auto dest: set_zip_leftD)
        ultimately show "\<exists>rel \<in> set (rk_nodes plan). node_path path rel = Inr q" using q'(3) by blast
      qed
      ultimately have "rekeyed plan (ow_state s')" unfolding rekeyed_def using path by blast
      then show ?thesis using tl(2) by blast
    qed
  qed
qed

section \<open>Running\<close>

lemma new_node_ids:
  assumes "collect_results (new_node W path new) xs = Inr news"
  shows "\<forall>(rel, v) \<in> set xs. (case derive (ca_prims W) new rel of Inr k \<Rightarrow> node_vault_id W k | Inl _ \<Rightarrow> undefined) = v"
  using assms
  by (induction xs arbitrary: news) (auto simp: rbind_eq_Inr new_node_def split: if_splits)

lemma rekeyed_same: "same_plan p q \<Longrightarrow> rekeyed q st \<Longrightarrow> rekeyed p st"
  by (simp add: rekeyed_def same_plan_def)

lemma stage_then:
  assumes "lbind (stage W step work q) f s1 = Some (r, s')" and "works work" and "ls_rekey (ow_state s1) = Some q"
    and "same_plan plan q"
  shows "(\<exists>q' s2. ls_rekey (ow_state s2) = Some q' \<and> same_plan plan q' \<and> f q' s2 = Some (r, s'))
    \<or> (\<exists>q'. ls_rekey (ow_state s') = Some q' \<and> same_plan plan q' \<and> isl r)"
proof -
  obtain r1 s2 where s2: "stage W step work q s1 = Some (r1, s2)" using assms(1) by (auto simp: lbind_def split: option.splits)
  obtain q' where q': "ls_rekey (ow_state s2) = Some q'" "same_plan q q'" "\<And>x. r1 = Inr x \<Longrightarrow> x = q'"
    using stage_plan [OF assms(2) s2 assms(3)] by blast
  show ?thesis
  proof (cases r1)
    case (Inl e)
    then have "s2 = s'" "r = Inl e" using assms(1) s2 by (simp_all add: lbind_def)
    then show ?thesis using q' same_plan_trans [OF assms(4)] by auto
  next
    case (Inr x)
    then have "f q' s2 = Some (r, s')" using assms(1) s2 q'(3) by (simp add: lbind_def)
    then show ?thesis using q' same_plan_trans [OF assms(4)] by blast
  qed
qed

text \<open>How a run may end.\<close>

definition ends :: "RekeyPlan \<Rightarrow> Error + RekeyOutcome \<Rightarrow> 'x owner \<Rightarrow> bool" where
  "ends plan r s' \<longleftrightarrow> (\<exists>plan'. ls_rekey (ow_state s') = Some plan' \<and> same_plan plan plan' \<and> isl r)
     \<or> ls_rekey (ow_state s') = None \<and> rekeyed plan (ow_state s')"

lemma stage_ends:
  assumes "lbind (stage W step work q) f s = Some (r, s')" and "ls_rekey (ow_state s) = Some q" and "same_plan plan q"
    and "works work"
    and "\<And>q' s2. f q' s2 = Some (r, s') \<Longrightarrow> ls_rekey (ow_state s2) = Some q' \<Longrightarrow> same_plan plan q' \<Longrightarrow> ends plan r s'"
  shows "ends plan r s'"
  using stage_then [OF assms(1,4,2,3)] assms(5) unfolding ends_def by blast

lemma finish_ends:
  assumes "ended (finish_rekey W path q new) s = Some (r, s')" and "ls_rekey (ow_state s) = Some q" and "same_plan plan q"
    and "path_parse (rk_path plan) = Inr path"
    and "collect_results (new_node W path new) (zip (rk_nodes plan) (rk_new_ids plan)) = Inr news"
  shows "ends plan r s'"
proof -
  have fin: "finish_rekey W path q new s = (r, s')" using assms(1) by simp
  have path: "path_parse (rk_path q) = Inr path" using assms(3,4) by (simp add: same_plan_def)
  have "\<forall>(rel, v) \<in> set (zip (rk_nodes q) (rk_new_ids q)).
      (case derive (ca_prims W) new rel of Inr k \<Rightarrow> node_vault_id W k | Inl _ \<Rightarrow> undefined) = v"
    using new_node_ids [OF assms(5)] assms(3) by (simp add: same_plan_def)
  from finish_rekeyed [OF fin path assms(2) this] show ?thesis
    using assms(3) rekeyed_same unfolding ends_def by blast
qed

text \<open>
  C7. An interrupted rekey can be resumed: however a run ends, either the plan is still recorded, with the
  same path, kit, nodes, vaults and tokens, no step undone and no link forgotten, and the run failed; or it is
  complete: no rekey is recorded, the node is held, every node of the subtree has its new vault in the
  known tree, and nothing else is known below the node.
\<close>

theorem rekey_resumable:
  assumes "run_rekey W plan s = Some (r, s')" and "ls_rekey (ow_state s) = Some plan"
  shows "(\<exists>plan'. ls_rekey (ow_state s') = Some plan' \<and> same_plan plan plan' \<and> isl r)
    \<or> ls_rekey (ow_state s') = None \<and> rekeyed plan (ow_state s')"
proof -
  obtain r0 s0 where s0: "prepare W plan s = (r0, s0)" by (cases "prepare W plan s")
  then have "ow_state s0 = ow_state s" using owesD [OF still.prepare_owes] by fastforce
  then have plan: "ls_rekey (ow_state s0) = Some plan" using assms(2) by simp
  show ?thesis unfolding ends_def [symmetric]
  proof (cases r0)
    case (Inl e)
    then show "ends plan r s'" using assms(1) s0 plan by (auto simp: run_rekey_def lbind_def ends_def)
  next
    case (Inr x)
    obtain path server new news where x: "x = (path, server, new, news)" by (cases x)
    have "path_parse (rk_path plan) = Inr path"
      and "collect_results (new_node W path new) (zip (rk_nodes plan) (rk_new_ids plan)) = Inr news"
      using s0 unfolding Inr x by (auto simp: prepare_def abind_Inr split: if_splits)
    note finish = finish_ends [OF _ _ _ this]
    show "ends plan r s'"
    proof (rule stage_ends [OF _ plan same_plan_refl works_then [OF still.create_vaults_owes]])
      show "lbind (stage W Created (\<lambda>p. ended (abind (create_vaults W server news) (\<lambda>_. aret p))) plan) (\<lambda>p1.
         lbind (stage W Migrated (\<lambda>p. lbind (migrate W server path p news) (\<lambda>_. ended (aret p))) p1) (\<lambda>p2.
         lbind (stage W Linked (\<lambda>p. ended (link_parent W server path new p)) p2) (\<lambda>p3.
         lbind (stage W Retired (\<lambda>p. ended (abind (retire W server path p (map snd news)) (\<lambda>_. aret p))) p3) (\<lambda>p4.
         ended (finish_rekey W path p4 new))))) s0 = Some (r, s')"
        using assms(1) s0 by (simp add: run_rekey_def lbind_def Inr x)
    qed (rule stage_ends [OF _ _ _ works_migrate], assumption+, rule stage_ends [OF _ _ _ works_link], assumption+,
      rule stage_ends [OF _ _ _ works_then [OF still.retire_owes]], assumption+, rule finish)
  qed
qed

end
