(* ===== verification/Owner_Inv.thy ===== *)
theory Owner_Inv
  imports Owner_Safe
begin

text \<open>
  The invariant of the local state: projects and trees are ordered maps, and every known or held path
  is a path of its project. Every operation of an owner keeps it, also when it fails.
\<close>

definition project_ok :: "string \<Rightarrow> ProjectState \<Rightarrow> bool" where
  "project_ok name p \<longleftrightarrow> bt_sorted (ps_tree p)
     \<and> (\<forall>k \<in> fst ` set (ps_tree p) \<union> set (ps_held p). \<exists>q. path_parse k = Inr q \<and> seg_str (project_name q) = name)"

definition state_ok :: "LocalState \<Rightarrow> bool" where
  "state_ok st \<longleftrightarrow> bt_sorted (ls_projects st) \<and> (\<forall>(name, p) \<in> set (ls_projects st). project_ok name p)"

definition sound :: "LocalState \<Rightarrow> LocalState \<Rightarrow> bool" where
  "sound a b \<longleftrightarrow> (state_ok a \<longrightarrow> state_ok b)"

lemma bookkeeping_ok [simp]:
  "state_ok (st\<lparr>ls_rekey := a\<rparr>) = state_ok st" "state_ok (st\<lparr>ls_touched := t\<rparr>) = state_ok st"
  "state_ok (st\<lparr>ls_pins := b\<rparr>) = state_ok st" "state_ok (st\<lparr>ls_audit := c\<rparr>) = state_ok st"
  "state_ok (st\<lparr>ls_no_expiry := d\<rparr>) = state_ok st"
  by (simp_all add: state_ok_def)

interpretation kept: bookkeeping_relation sound
  by unfold_locales (simp_all add: sound_def)

abbreviation name_of :: "EnvPath \<Rightarrow> string" where
  "name_of path \<equiv> seg_str (project_name path)"

lemma project_ok_of: "state_ok st \<Longrightarrow> state_project st path = Inr p \<Longrightarrow> project_ok (name_of path) p"
  by (auto simp: state_ok_def state_project_def dest!: map_of_SomeD)

lemma bt_insert_set: "set (bt_insert k v m) \<subseteq> insert (k, v) (set m)"
  by (induction k v m rule: bt_insert.induct) auto

lemma set_project_ok: "state_ok st \<Longrightarrow> project_ok (name_of path) p \<Longrightarrow> state_ok (set_project path p st)"
  using bt_insert_set [of "name_of path" p "ls_projects st"] by (auto simp: state_ok_def set_project_def)

lemma change_project_sound:
  assumes "\<And>p. project_ok (name_of path) p \<Longrightarrow> project_ok (name_of path) (f p)"
  shows "owes sound (change_project path f)"
  using assms
  by (auto simp: owes_def change_project_run sound_def intro!: set_project_ok dest: project_ok_of split: sum.splits)

lemma state_project_remove: "state_ok st \<Longrightarrow> state_ok (st\<lparr>ls_projects := bt_remove name (ls_projects st)\<rparr>)"
  by (auto simp: state_ok_def bt_remove_def bt_filter_sorted)

lemma projects_only: "ls_projects st' = ls_projects st \<Longrightarrow> state_ok st' = state_ok st"
  by (simp add: state_ok_def)

section \<open>Trees\<close>

text \<open>What may stand in a tree of a project.\<close>

definition entry_ok :: "string \<Rightarrow> string \<times> TreeNode \<Rightarrow> bool" where
  "entry_ok name x \<longleftrightarrow> (\<exists>q. path_parse (fst x) = Inr q \<and> name_of q = name)"

lemma path_entry_ok: "wf_path q \<Longrightarrow> name_of q = name \<Longrightarrow> entry_ok name (path_to_string q, n)"
  by (auto simp: entry_ok_def path_codec)

lemma project_ok_tree:
  "project_ok name p \<Longrightarrow> bt_sorted t \<Longrightarrow> \<forall>x \<in> set t. entry_ok name x \<Longrightarrow> project_ok name (p\<lparr>ps_tree := t\<rparr>)"
  by (fastforce simp: project_ok_def entry_ok_def)

lemma project_ok_entries: "project_ok name p \<Longrightarrow> \<forall>x \<in> set (ps_tree p). entry_ok name x"
  by (force simp: project_ok_def entry_ok_def)

lemma insert_entry:
  assumes "project_ok name p" and "entry_ok name (k, n)"
  shows "project_ok name (p\<lparr>ps_tree := bt_insert k n (ps_tree p)\<rparr>)"
proof (rule project_ok_tree [OF assms(1)])
  show "bt_sorted (bt_insert k n (ps_tree p))" using assms(1) by (auto simp: project_ok_def)
  show "\<forall>x \<in> set (bt_insert k n (ps_tree p)). entry_ok name x"
    using bt_insert_set [of k n "ps_tree p"] project_ok_entries [OF assms(1)] assms(2) by blast
qed

lemma bt_extend_set: "set (bt_extend new m) \<subseteq> set new \<union> set m"
  unfolding bt_extend_def
proof (induction new arbitrary: m)
  case (Cons x new)
  obtain k v where x: "x = (k, v)" by (cases x)
  then show ?case using Cons.IH [of "bt_insert k v m"] bt_insert_set [of k v m] by auto
qed simp

lemma rediscovered_ok:
  assumes "project_ok name p" and "\<forall>x \<in> set found. entry_ok name x"
  shows "project_ok name (rediscovered root unreachable found p)"
  unfolding rediscovered_def
proof (rule project_ok_tree [OF assms(1)])
  let ?kept = "filter (\<lambda>(k, _). keeps_path root unreachable k) (ps_tree p)"
  show "bt_sorted (bt_extend found ?kept)" using assms(1) by (auto simp: project_ok_def bt_filter_sorted)
  show "\<forall>x \<in> set (bt_extend found ?kept). entry_ok name x"
    using bt_extend_set [of found ?kept] assms(2) project_ok_entries [OF assms(1)] by auto
qed

lemma project_name_child: "path_child p g = Inr q \<Longrightarrow> segments p \<noteq> [] \<Longrightarrow> project_name q = project_name p"
  by (cases "segments p") (auto simp: path_child_Inr project_name_def)

section \<open>Discovery\<close>

lemma with_vault_result:
  assumes "with_vault W server h m s = (Inr (a, h'), s')"
  shows "\<exists>E t t'. m E t = (Inr a, t')"
  using assms by (auto simp: with_vault_def with_api_def on_handle_def split: option.splits prod.splits sum.splits)

lemma acollect_mem: "acollect f xs s = (Inr ys, s') \<Longrightarrow> y \<in> set ys \<Longrightarrow> \<exists>x s1 s2. x \<in> set xs \<and> f x s1 = (Inr y, s2)"
  using acollect_Inr by fast

lemma discover_node_wf:
  fixes W :: "'x caller"
  assumes "discover_node W server root item s = (Inr (n, Some nexts), s')" and "x \<in> set nexts" and "wf_path (fst item)"
  shows "wf_path (fst x) \<and> name_of (fst x) = name_of (fst item)"
proof -
  obtain path key sl pk where item: "item = (path, key, sl, pk)" by (cases item) auto
  obtain opened s0 where o: "open_or_relink W server item s = (Inr opened, s0)"
    and rest: "(case opened of
         Inl e \<Rightarrow> if path = root then afail e
           else abind (onotify (Notice.Warning (Unreachable (path_to_string path) (is_missing e)))) (\<lambda>_.
             aret (tree_node (node_vault_id W key) sl, None))
       | Inr (vault, k, sl') \<Rightarrow>
         abind (own_touch W (hn_vault_id vault)) (\<lambda>_.
         abind (with_vault W server vault (\<lambda>E. abind (vault_children E) (\<lambda>(rec, _). abind h_owner (\<lambda>o'. aret (rec, o'))))) (\<lambda>((rec, o'), _).
         abind (acollect (visit_entry W path o' k) (kr_children rec)) (\<lambda>found.
         aret (tree_node (hn_vault_id vault) sl', Some (concat found)))))) s0 = (Inr (n, Some nexts), s')"
    using assms(1) unfolding item discover_node_def by (auto simp: abind_Inr simp del: aret_run)
  obtain vault k sl' where "opened = Inr (vault, k, sl')"
    using rest by (cases opened) (auto simp: abind_Inr split: if_splits)
  then obtain recs :: ChildrenRecord and o' h' found s1 s2 s3 where
    v: "with_vault W server vault (\<lambda>E. abind (vault_children E) (\<lambda>(rec, _). abind h_owner (\<lambda>o'. aret (rec, o')))) s1 = (Inr ((recs, o'), h'), s2)"
    and run: "acollect (visit_entry W path o' k) (kr_children recs) s2 = (Inr found, s3)" and nexts: "nexts = concat found"
    using rest by (auto simp: abind_Inr)
  obtain E :: "'x outside" and t t' where "abind (vault_children E) (\<lambda>(rec, _). abind h_owner (\<lambda>o'. aret (rec, o'))) t = (Inr (recs, o'), t')"
    using with_vault_result [OF v] by blast
  then obtain pre t1 where "vault_children E t = (Inr (recs, pre), t1)" by (auto simp: abind_Inr)
  then have wf: "children_wf recs" by (rule vault_children_wf)
  obtain vs where vs: "vs \<in> set found" "x \<in> set vs" using assms(2) nexts by auto
  from acollect_mem [OF run vs(1)] obtain e s4 s5 where e: "e \<in> set (kr_children recs)" "visit_entry W path o' k e s4 = (Inr vs, s5)"
    by blast
  have child: "path_child path (en_seg e) = Inr (fst x)" by (rule visit_entry_child [OF e(2) vs(2)])
  have "wf_segment (en_seg e)" using wf e(1) by (auto simp: children_wf_def list_all_iff)
  then have "wf_path (fst x)" using path_child_wf [OF _ _ child] assms(3) by (simp add: item)
  moreover have "segments path \<noteq> []" using assms(3) by (simp add: item wf_path_def)
  ultimately show ?thesis using project_name_child [OF child] by (simp add: item)
qed

lemma discover_loop_found:
  "\<forall>x \<in> set stack. wf_path (fst x) \<and> name_of (fst x) = name \<Longrightarrow> \<forall>x \<in> set found. entry_ok name x
    \<Longrightarrow> discover_loop W server root stack found unreachable s = (Inr (found', u'), s') \<Longrightarrow> \<forall>x \<in> set found'. entry_ok name x"
proof (induction W server root stack found unreachable s rule: discover_loop.induct)
  case (2 W server root item stack found unreachable s)
  obtain r s1 where s1: "discover_node W server root item s = (r, s1)" by (cases "discover_node W server root item s")
  obtain n o' where r: "r = Inr (n, o')" using "2.prems"(3) s1 by (cases r) auto
  have found: "\<forall>x \<in> set (bt_insert (path_to_string (fst item)) n found). entry_ok name x"
    using bt_insert_set [of "path_to_string (fst item)" n found] "2.prems"(1,2) path_entry_ok by fastforce
  show ?case
  proof (cases o')
    case None
    show ?thesis
      by (rule "2.IH"(1) [OF s1 [symmetric] r refl None _ found]) (use "2.prems" s1 r None in auto)
  next
    case (Some nexts)
    have "\<forall>x \<in> set nexts. wf_path (fst x) \<and> name_of (fst x) = name"
      using discover_node_wf s1 r Some "2.prems"(1) by fastforce
    then show ?thesis
      by (intro "2.IH"(2) [OF s1 [symmetric] r refl Some _ found]) (use "2.prems" s1 r Some in auto)
  qed
qed simp

section \<open>Operations\<close>

lemma discover_from_sound:
  assumes "wf_path root"
  shows "owes sound (discover_from W server root key)"
  unfolding discover_from_def
proof (rule kept.abind_owes, rule kept.demand_owes, rule kept.result_bind_owes, rule kept.discovering_owes)
  fix p x s s' assume "discover_loop W server root [(root, key, is_sealed p root, None)] [] [] s = (Inr x, s')"
  then have "\<forall>y \<in> set (fst x). entry_ok (name_of root) y"
    using discover_loop_found [of "[(root, key, is_sealed p root, None)]" "name_of root" "[]" W server root "[]" s "fst x" "snd x" s']
      assms by simp
  then show "owes sound (case x of (found, unreachable) \<Rightarrow>
      abind (change_project root (rediscovered root unreachable found)) (\<lambda>_. aret unreachable))"
    by (cases x) (auto simp del: aret_run intro!: kept.abind_owes kept.aret_owes change_project_sound rediscovered_ok)
qed

lemma parsed_paths_wf: "q \<in> set (parsed_paths ks) \<Longrightarrow> wf_path q"
  by (auto simp: parsed_paths_def split: sum.splits dest!: path_codec [THEN iffD1, OF sym])

lemma refresh_roots_sound: "\<forall>q \<in> set roots. wf_path q \<Longrightarrow> owes sound (refresh_roots W server roots)"
  by (induction roots) (auto simp del: aret_run intro!: kept.aret_owes kept.abind_owes kept.held_key_owes discover_from_sound)

lemma own_refresh_sound: "owes sound (own_refresh W project)"
  unfolding own_refresh_def Let_def
  by (intro kept.abind_owes kept.demand_owes kept.if_owes kept.afail_owes kept.api_for_owes refresh_roots_sound)
    (use parsed_paths_wf in blast)

lemma own_discover_sound: "wf_path root \<Longrightarrow> owes sound (own_discover W root)"
  unfolding own_discover_def by (intro owing discover_from_sound)

lemma own_change_sound:
  "wf_path path \<Longrightarrow> owes sound (change_project path (\<lambda>p. p\<lparr>ps_tree := bt_insert (path_to_string path) n (ps_tree p)\<rparr>))"
  by (intro change_project_sound insert_entry path_entry_ok) simp_all

lemma env_add_sound: "wf_path path \<Longrightarrow> owes sound (env_add W path)"
  unfolding env_add_def Let_def by (intro owing own_change_sound)

lemma project_ok_mono:
  assumes "project_ok name p" and "bt_sorted t" and "set t \<subseteq> set (ps_tree p)" and "set h \<subseteq> set (ps_held p)"
  shows "project_ok name (p\<lparr>ps_tree := t, ps_held := h\<rparr>)"
proof -
  have "fst ` set t \<union> set h \<subseteq> fst ` set (ps_tree p) \<union> set (ps_held p)"
    using image_mono [OF assms(3), of fst] assms(4) by blast
  then have "\<forall>k \<in> fst ` set t \<union> set h. \<exists>q. path_parse k = Inr q \<and> name_of q = name"
    using assms(1) unfolding project_ok_def by blast
  then show ?thesis using assms(2) by (simp add: project_ok_def)
qed

lemma forget_ok: "project_ok name p \<Longrightarrow> project_ok name (p\<lparr>ps_tree := bt_remove k (ps_tree p), ps_held := remove1 k (ps_held p)\<rparr>)"
  using set_remove1_subset [of k "ps_held p"]
  by (intro project_ok_mono) (auto simp: project_ok_def bt_remove_def bt_filter_sorted)

lemma remove_node_sound: "owes sound (remove_node W server node)"
  unfolding remove_node_def forget_node_def Let_def by (intro owing change_project_sound forget_ok)

lemma descendants_wf: "q \<in> set (descendants p path) \<Longrightarrow> wf_path q"
  by (auto simp: descendants_def intro: parsed_paths_wf)

lemma env_remove_sound: "wf_path path \<Longrightarrow> owes sound (env_remove W path recursive)"
  unfolding env_remove_def Let_def
  by (intro owing discover_from_sound remove_node_sound kept.omod_owes) (auto simp: sound_def intro: state_project_remove)

lemma env_repair_sound: "owes sound (env_repair W path)"
  unfolding env_repair_def Let_def by (intro owing kept.omod_owes kept.forgets)

lemma export_kit_sound: "owes sound (export_kit W path)"
  unfolding export_kit_def by (intro owing)

lemma held_ok: "project_ok (name_of path) p \<Longrightarrow> wf_path path \<Longrightarrow> project_ok (name_of path) (p\<lparr>ps_held := ps_held p @ [path_to_string path]\<rparr>)"
  by (auto simp: project_ok_def path_codec)

lemma project_new_ok [simp]: "project_ok name (project_new server)"
  by (simp add: project_ok_def project_new_def)

lemma set_new_sound: "owes sound (omod (set_project path (project_new server)))"
  by (intro kept.omod_owes) (simp add: sound_def set_project_ok)

lemma drop_project_sound: "owes sound (omod (\<lambda>st. st\<lparr>ls_projects := bt_remove name (ls_projects st)\<rparr>))"
  by (intro kept.omod_owes) (simp add: sound_def state_project_remove)

lemma hold_sound: "wf_path path \<Longrightarrow> owes sound (change_project path (\<lambda>p. if path_to_string path \<in> set (ps_held p) then p
    else p\<lparr>ps_held := ps_held p @ [path_to_string path]\<rparr>))"
  by (rule change_project_sound) (simp add: held_ok)

lemma own_import_sound: "wf_path (kt_path kit) \<Longrightarrow> owes sound (own_import W kit)"
  unfolding own_import_def Let_def by (intro owing discover_from_sound set_new_sound drop_project_sound hold_sound)

lemma own_recover_sound: "wf_path (kt_path kit) \<Longrightarrow> owes sound (own_recover W kit)"
  unfolding own_recover_def by (intro owing own_import_sound)

lemma begin_init_sound: "owes sound (begin_init W project given)"
  unfolding begin_init_def by (intro owing)

lemma initial_ok:
  assumes "wf_path path" and "is_project path"
  shows "path_to_string path = name_of path" "project_ok (name_of path) (initial_project path server v)"
proof -
  show 1: "path_to_string path = name_of path"
    using assms(2) by (cases "segments path") (auto simp: is_project_def path_to_string_def project_name_def)
  show "project_ok (name_of path) (initial_project path server v)"
    using assms(1) by (auto simp: project_ok_def initial_project_def path_codec)
qed

lemma confirm_sound:
  assumes "wf_path (in_path pending)" and "is_project (in_path pending)"
  shows "owes sound (confirm_kit_stored W pending)"
proof -
  have "owes sound (omod (\<lambda>st. st\<lparr>ls_projects := bt_insert (path_to_string (in_path pending))
      (initial_project (in_path pending) server v) (ls_projects st)\<rparr>))" for server v
    using initial_ok [OF assms] set_project_ok
    by (intro kept.omod_owes) (auto simp: sound_def set_project_def)
  then show ?thesis unfolding confirm_kit_stored_def Let_def by (intro owing)
qed

section \<open>Rekeys\<close>

lemma split_on_sep: "split_on d (a @ d # b) = split_on d a @ split_on d b"
  by (induction a) (auto split: list.splits)

lemma node_path_name:
  assumes "wf_path root" and "node_path root rel = Inr q"
  shows "name_of q = name_of root"
proof (cases "rel = []")
  case False
  then have q: "wf_path q" "path_to_string q = path_to_string root @ CHR ''/'' # rel"
    using assms(2) by (simp_all add: node_path_def path_codec)
  have "map seg_str (segments q) = map seg_str (segments root) @ split_on (CHR ''/'') rel"
    using split_path_to_string [OF q(1)] split_path_to_string [OF assms(1)] q(2) by (simp add: split_on_sep)
  then show ?thesis using assms(1) q(1)
    by (cases "segments q"; cases "segments root") (auto simp: project_name_def wf_path_def)
qed (use assms in \<open>simp add: node_path_def\<close>)

lemma insert_nodes_sound: "wf_path path \<Longrightarrow> owes sound (insert_nodes path linked i xs)"
proof (induction xs arbitrary: i)
  case Nil
  show ?case unfolding insert_nodes.simps by (rule kept.aret_owes)
next
  case (Cons x xs)
  obtain rel v where x: "x = (rel, v)" by (cases x)
  have "owes sound (change_project path (\<lambda>p. p\<lparr>ps_tree := bt_insert (path_to_string q) n (ps_tree p)\<rparr>))"
    if "node_path path rel = Inr q" for q n
    using node_path_wf [OF Cons.prems that] node_path_name [OF Cons.prems that]
    by (intro change_project_sound insert_entry path_entry_ok)
  then show ?case
    unfolding x insert_nodes.simps using Cons.IH [OF Cons.prems] by (intro kept.alift_bind_owes kept.abind_owes)
qed

lemma cut_project_ok:
  assumes "wf_path path" and "rk_path plan = path_to_string path" and "project_ok (name_of path) p"
  shows "project_ok (name_of path) (cut_project plan path p)"
  using assms by (auto simp: project_ok_def cut_project_def Let_def bt_filter_sorted path_codec)

lemma forget_old_ok: "state_ok (forget_old W ids st) = state_ok st"
  by (simp add: forget_old_def Let_def state_ok_def)

lemma finish_sound:
  assumes "wf_path path" and "rk_path plan = path_to_string path"
  shows "owes sound (finish_rekey W path plan new)"
  unfolding finish_rekey_def record_plan_def
  using insert_nodes_sound [OF assms(1)] change_project_sound [OF cut_project_ok [OF assms]]
  by (intro owing kept.omod_owes) (simp_all add: sound_def forget_old_ok)

lemma advance_sound: "owes sound (advance W plan step)"
  unfolding advance_def record_plan_def Let_def by (intro owing kept.omod_owes) (simp add: sound_def)

lemma stage_sound: "lowes sound (work plan) \<Longrightarrow> lowes sound (stage W step work plan)"
  unfolding stage_def
  by (auto simp del: aret_run intro!: kept.lbind_owes kept.ended_owes advance_sound kept.aret_owes)

lemma abort_sound: "owes sound (abort_rekey W plan)"
  unfolding abort_rekey_def record_plan_def by (intro owing kept.omod_owes) (simp add: sound_def)

lemma stage_path:
  assumes "works work" and "stage W step work p s = Some (Inr q, s')"
  shows "rk_path q = rk_path p"
proof (cases "rk_step p < step")
  case True
  then obtain p' s1 where w: "work p s = Some (Inr p', s1)" and a: "advance W p' step s1 = (Inr q, s')"
    using assms(2) by (auto simp: stage_def lbind_Some)
  have "rk_path p' = rk_path p" using assms(1) w unfolding works_def same_plan_def by blast
  then show ?thesis using advance_plan(2) [OF a refl] by simp
qed (use assms(2) in \<open>simp add: stage_def\<close>)

lemma stages_sound:
  assumes "works work" and "lowes sound (work p)" and "\<And>q. rk_path q = rk_path p \<Longrightarrow> lowes sound (f q)"
  shows "lowes sound (lbind (stage W step work p) f)"
  by (rule kept.result_lbind_owes [OF stage_sound [of work p, OF assms(2)]]) (use stage_path [OF assms(1)] assms(3) in blast)

lemma run_rekey_sound: "lowes sound (run_rekey W plan)"
  unfolding run_rekey_def
proof (rule kept.result_lbind_owes)
  show "lowes sound (ended (prepare W plan))" by (intro owing)
  fix x s s' assume run: "ended (prepare W plan) s = Some (Inr x, s')"
  obtain path server new news where x: "x = (path, server, new, news)" by (cases x)
  have "path_parse (rk_path plan) = Inr path" using run unfolding x by (auto simp: prepare_def abind_Inr split: if_splits)
  then have path: "wf_path path" "rk_path plan = path_to_string path" by (simp_all add: path_codec)
  show "lowes sound (case x of (path, server, new, news) \<Rightarrow>
     lbind (stage W Created (\<lambda>p. ended (abind (create_vaults W server news) (\<lambda>_. aret p))) plan) (\<lambda>p1.
     lbind (stage W Migrated (\<lambda>p. lbind (migrate W server path p news) (\<lambda>_. ended (aret p))) p1) (\<lambda>p2.
     lbind (stage W Linked (\<lambda>p. ended (link_parent W server path new p)) p2) (\<lambda>p3.
     lbind (stage W Retired (\<lambda>p. ended (abind (retire W server path p (map snd news)) (\<lambda>_. aret p))) p3) (\<lambda>p4.
     ended (finish_rekey W path p4 new))))))"
    unfolding x prod.case
  proof (rule stages_sound [OF works_then [OF still.create_vaults_owes]])
    show "lowes sound (ended (abind (create_vaults W server news) (\<lambda>_. aret plan)))" by (intro owing)
    fix p1 :: RekeyPlan assume p1: "rk_path p1 = rk_path plan"
    show "lowes sound (lbind (stage W Migrated (\<lambda>p. lbind (migrate W server path p news) (\<lambda>_. ended (aret p))) p1) (\<lambda>p2.
     lbind (stage W Linked (\<lambda>p. ended (link_parent W server path new p)) p2) (\<lambda>p3.
     lbind (stage W Retired (\<lambda>p. ended (abind (retire W server path p (map snd news)) (\<lambda>_. aret p))) p3) (\<lambda>p4.
     ended (finish_rekey W path p4 new)))))"
    proof (rule stages_sound [OF works_migrate])
      show "lowes sound (lbind (migrate W server path p1 news) (\<lambda>_. ended (aret p1)))" by (intro owing)
      fix p2 :: RekeyPlan assume p2: "rk_path p2 = rk_path p1"
      show "lowes sound (lbind (stage W Linked (\<lambda>p. ended (link_parent W server path new p)) p2) (\<lambda>p3.
       lbind (stage W Retired (\<lambda>p. ended (abind (retire W server path p (map snd news)) (\<lambda>_. aret p))) p3) (\<lambda>p4.
       ended (finish_rekey W path p4 new))))"
      proof (rule stages_sound [OF works_link])
        show "lowes sound (ended (link_parent W server path new p2))" by (intro owing)
        fix p3 :: RekeyPlan assume p3: "rk_path p3 = rk_path p2"
        show "lowes sound (lbind (stage W Retired (\<lambda>p. ended (abind (retire W server path p (map snd news)) (\<lambda>_. aret p))) p3) (\<lambda>p4.
         ended (finish_rekey W path p4 new)))"
        proof (rule stages_sound [OF works_then [OF still.retire_owes]])
          show "lowes sound (ended (abind (retire W server path p3 (map snd news)) (\<lambda>_. aret p3)))" by (intro owing)
          fix p4 :: RekeyPlan assume "rk_path p4 = rk_path p3"
          then have "rk_path p4 = path_to_string path" using p1 p2 p3 path(2) by simp
          then show "lowes sound (ended (finish_rekey W path p4 new))" by (rule kept.ended_owes [OF finish_sound [OF path(1)]])
        qed
      qed
    qed
  qed
qed

lemma confirm_rekey_sound: "lowes sound (confirm_rekey W pending location)"
  unfolding confirm_rekey_def record_plan_def Let_def
  by (intro owing run_rekey_sound kept.omod_owes) (simp add: sound_def)

lemma rekey_resume_sound: "lowes sound (rekey_resume W path)"
  unfolding rekey_resume_def by (intro owing run_rekey_sound)

lemma rekey_abort_sound: "owes sound (rekey_abort W path)"
  unfolding rekey_abort_def by (intro owing abort_sound)

section \<open>An owner as a transition system\<close>

text \<open>
  One operation, whatever its result. A path is one the type allows, a kit one that was parsed, and a pending
  initialisation one that was begun. (A reload takes what the store holds, which is the store's.)
\<close>

inductive owner_step :: "'x caller \<Rightarrow> 'x owner \<Rightarrow> 'x owner \<Rightarrow> bool" for W :: "'x caller" where
  Environment: "environment W path s = (r1, s') \<Longrightarrow> owner_step W s s'"
| Remember: "remember W env s = (r2, s') \<Longrightarrow> owner_step W s s'"
| Refresh: "own_refresh W path s = (r3, s') \<Longrightarrow> owner_step W s s'"
| Discover: "wf_path path \<Longrightarrow> own_discover W path s = (r4, s') \<Longrightarrow> owner_step W s s'"
| Begin_Init: "begin_init W project given s = (r5, s') \<Longrightarrow> owner_step W s s'"
| Confirm_Init: "wf_path (in_path pending) \<Longrightarrow> is_project (in_path pending) \<Longrightarrow> confirm_kit_stored W pending s = (r6, s')
    \<Longrightarrow> owner_step W s s'"
| Env_Add: "wf_path path \<Longrightarrow> env_add W path s = (r7, s') \<Longrightarrow> owner_step W s s'"
| Env_Remove: "wf_path path \<Longrightarrow> env_remove W path recursive s = (r8, s') \<Longrightarrow> owner_step W s s'"
| Env_Repair: "env_repair W path s = (r9, s') \<Longrightarrow> owner_step W s s'"
| Export: "export_kit W path s = (r10, s') \<Longrightarrow> owner_step W s s'"
| Import: "wf_path (kt_path kit) \<Longrightarrow> own_import W kit s = (r11, s') \<Longrightarrow> owner_step W s s'"
| Recover: "wf_path (kt_path kit) \<Longrightarrow> own_recover W kit s = (r12, s') \<Longrightarrow> owner_step W s s'"
| Begin_Rekey: "begin_rekey W path s = (r13, s') \<Longrightarrow> owner_step W s s'"
| Confirm_Rekey: "confirm_rekey W pr location s = Some (r14, s') \<Longrightarrow> owner_step W s s'"
| Resume: "rekey_resume W given s = Some (r15, s') \<Longrightarrow> owner_step W s s'"
| Abort: "rekey_abort W given s = (r16, s') \<Longrightarrow> owner_step W s s'"
| Audit: "own_audit W server h earlier s = Some (r17, h', s') \<Longrightarrow> owner_step W s s'"

inductive_cases owner_stepE: "owner_step W s s'"

lemmas owner_sound = kept.environment_owes kept.remember_owes own_refresh_sound own_discover_sound begin_init_sound confirm_sound
  env_add_sound env_remove_sound env_repair_sound export_kit_sound own_import_sound own_recover_sound kept.begin_rekey_owes
  rekey_abort_sound

lemma own_audit_sound: "own_audit W server h earlier s = Some (r, h', s') \<Longrightarrow> sound (ow_state s) (ow_state s')"
  by (auto simp: own_audit_def Let_def sound_def split: option.splits prod.splits)

lemma owner_step_sound: "owner_step W s s' \<Longrightarrow> sound (ow_state s) (ow_state s')"
  by (erule owner_stepE)
    (erule owesD [rotated] lowesD [rotated] own_audit_sound,
     (rule owner_sound confirm_rekey_sound rekey_resume_sound; assumption?)?)+

text \<open>
  C8. Whatever an owner does, in any order, with any failures of the servers and the stores, the local
  state stays well-formed: projects and known trees are ordered maps, and every known or held path is
  the text of a path of its own project.
\<close>

theorem owner_state_invariant:
  assumes "(owner_step W)\<^sup>*\<^sup>* s s'" and "state_ok (ow_state s)"
  shows "state_ok (ow_state s')"
  using assms by (induction rule: rtranclp_induct) (auto dest: owner_step_sound simp: sound_def)

end
