(* ===== verification/Owner_Props.thy ===== *)
theory Owner_Props
  imports Owner_Inv Token_Props
begin

text \<open>
  The properties of an owner at a concrete one: a project \<open>acme\<close>, a server that answers nothing, and a key
  store that holds one key.
\<close>

definition ex_key :: NodeKey where "ex_key = NodeKey (replicate 32 1)"

definition ex_silent :: "Request \<Rightarrow> unit \<Rightarrow> (TransportError + Response) \<times> unit" where
  "ex_silent r x = (Inl (TransportError []), x)"

definition ex_desk :: "unit caller" where
  "ex_desk = \<lparr>ca_base = \<lparr>ou_prims = toy, ou_codec = null_codec, ou_send = ex_silent, ou_now = (\<lambda>x. (0, x))\<rparr>,
     ca_connect = (\<lambda>_ x. (Inr ex_silent, x)),
     ca_get = (\<lambda>_ x. (Inr (Some (node_encode toy ex_key)), x)),
     ca_set = (\<lambda>_ _ x. (Inr (), x)), ca_delete = (\<lambda>_ x. (Inr (), x)),
     ca_load = (\<lambda>x. (Inr empty_state, x)), ca_save = (\<lambda>_ x. (Inr (), x))\<rparr>"

definition ex_acme :: EnvPath where
  "ex_acme = path_project (Segment ''acme'')"

definition ex_plan :: RekeyPlan where
  "ex_plan = \<lparr>rk_path = ''acme'', rk_kit = ''acme.gvkit'', rk_nodes = [''''], rk_old_ids = [VaultId (replicate 16 0)],
     rk_new_ids = [node_vault_id ex_desk ex_key], rk_remint = [], rk_step = Retired, rk_linked = False\<rparr>"

definition ex_state :: LocalState where
  "ex_state = empty_state\<lparr>ls_projects := [(''acme'', project_new ''https://h'')], ls_rekey := Some ex_plan\<rparr>"

definition ex_local :: "unit owner" where
  "ex_local = \<lparr>ow_out = (), ow_draws = 0, ow_notices = [], ow_apis = Map.empty, ow_state = ex_state\<rparr>"

lemma ex_acme_parse: "path_parse ''acme'' = Inr ex_acme"
  unfolding ex_acme_def by code_simp

lemma ex_desk_fields [simp]: "ca_prims ex_desk = toy" "ca_connect ex_desk v = (\<lambda>x. (Inr ex_silent, x))"
    "ca_get ex_desk k = (\<lambda>x. (Inr (Some (node_encode toy ex_key)), x))" "ca_set ex_desk k t = (\<lambda>x. (Inr (), x))"
    "ca_delete ex_desk k = (\<lambda>x. (Inr (), x))" "ca_save ex_desk st = (\<lambda>x. (Inr (), x))"
    "ou_now (ca_base ex_desk) = (\<lambda>x. (0, x))"
  by (simp_all add: ex_desk_def ca_prims_def)

lemma ex_project: "state_project ex_state ex_acme = Inr (project_new ''https://h'')"
  by (simp add: ex_state_def state_project_def ex_acme_def path_project_def project_name_def)

lemma ex_parsed: "node_parse toy (node_encode toy ex_key) = Inr ex_key"
  by (rule node_encode_parses) (simp add: ex_key_def)

lemma ex_prepare: "prepare ex_desk ex_plan ex_local
    = (Inr (ex_acme, ''https://h'', ex_key, [(ex_key, path_to_string ex_acme)]),
       ex_local\<lparr>ow_apis := [''https://h'' \<mapsto> (ex_silent, None)]\<rparr>)"
proof -
  have new: "new_node ex_desk ex_acme ex_key ('''', node_vault_id ex_desk ex_key) = Inr (ex_key, path_to_string ex_acme)"
    by (simp add: new_node_def derive_def node_path_def node_descend_def)
  have "ps_server (project_new ''https://h'') = ''https://h''" by (simp add: project_new_def)
  then show ?thesis
    by (simp add: prepare_def ex_plan_def ex_acme_parse api_for_def abind_def oask_def ex_local_def ex_project own_api_def
        stored_key_def ostore_def ok_or_def ex_parsed new)
qed

lemma ex_stage: "stage ex_desk step work ex_plan s = Some (Inr ex_plan, s)"
  by (cases step) (simp_all add: stage_def ex_plan_def less_RekeyStep_def step_rank_def)

lemma ex_finish:
  assumes "ow_state s = ex_state"
  shows "\<exists>o' s'. finish_rekey ex_desk ex_acme ex_plan ex_key s = (Inr o', s')"
proof -
  have nodes: "rk_nodes ex_plan = ['''']" "rk_new_ids ex_plan = [node_vault_id ex_desk ex_key]" by (simp_all add: ex_plan_def)
  have del: "\<exists>s2. delete_keys ex_desk ks s1 = (Inr (), s2)" for ks and s1 :: "unit owner"
    by (induction ks arbitrary: s1) (simp_all add: abind_def ostore_def)
  have path: "node_path ex_acme [] = Inr ex_acme" by (simp add: node_path_def)
  show ?thesis
    by (simp add: finish_rekey_def abind_def store_key_def ostore_def demand_run assms ex_project change_project_run nodes path
        omod_def onow_def record_plan_def own_save_def oask_def split: prod.splits sum.splits)
      (use del in \<open>metis Pair_inject sum.distinct(1)\<close>)
qed

lemma ex_rekey_run: "\<exists>o' s'. run_rekey ex_desk ex_plan ex_local = Some (Inr o', s')"
  using ex_finish [of "ex_local\<lparr>ow_apis := [''https://h'' \<mapsto> (ex_silent, None)]\<rparr>"]
  by (simp add: run_rekey_def lbind_def ex_prepare ex_stage) (simp add: ex_local_def)

theorem rekey_resumable_witness:
  "\<exists>r s'. run_rekey ex_desk ex_plan ex_local = Some (r, s') \<and> ls_rekey (ow_state s') = None \<and> rekeyed ex_plan (ow_state s')"
proof -
  obtain out s' where run: "run_rekey ex_desk ex_plan ex_local = Some (Inr out, s')" using ex_rekey_run by blast
  have "ls_rekey (ow_state ex_local) = Some ex_plan" by (simp add: ex_local_def ex_state_def)
  from rekey_resumable [OF run this] show ?thesis using run by auto
qed

lemma ex_state_ok: "state_ok ex_state"
  by (simp add: state_ok_def ex_state_def empty_state_def project_ok_def project_new_def)

theorem owner_state_invariant_witness:
  "\<exists>out s'. rekey_resume ex_desk None ex_local = Some (Inr out, s') \<and> state_ok (ow_state s')"
proof -
  obtain out s' where run: "run_rekey ex_desk ex_plan ex_local = Some (Inr out, s')" using ex_rekey_run by blast
  have "ls_rekey (ow_state ex_local) = Some ex_plan" by (simp add: ex_local_def ex_state_def)
  then have resume: "rekey_resume ex_desk None ex_local = Some (Inr out, s')"
    using run by (simp add: rekey_resume_def lbind_def demand_run plan_for_def ok_or_def rbind_def)
  then have steps: "(owner_step ex_desk)\<^sup>*\<^sup>* ex_local s'" by (intro r_into_rtranclp) (rule owner_step.Resume)
  have "state_ok (ow_state ex_local)" using ex_state_ok by (simp add: ex_local_def)
  from owner_state_invariant [OF steps this] show ?thesis using resume by blast
qed

end
