(* ===== verification/Spec2Isabelle.thy ===== *)
theory Spec2Isabelle
  imports Codec Vocab Store_Critical Core_Routing Core_Props Pow Rotation_Accepted Vault_Props Token_Props Owner_Props
begin

text \<open>
  \<^bold>\<open>galata-vault: protocol, store, server core and client.\<close>

  galata-vault keeps secrets and configs that the server cannot read. Clients encrypt and sign on
  their side; the server authenticates requests, checks signatures, versions and quotas, keeps an audit
  chain per vault, and makes critical operations durable through a journal. This development
  models the Rust crate \<open>crates/galata-vault/src\<close>: the wire formats (\<open>proto/\<close>), the SQLite store
  (\<open>backend/\<close>), the synchronous server (\<open>server_core/\<close>), and the client: keys (\<open>keys/\<close>), sealing (\<open>seal/\<close>), the
  API over a transport (\<open>client/\<close>), the vault handle (\<open>vault.rs\<close>), the token client (\<open>token.rs\<close>) and the owner of
  a tree of environments (\<open>owner/\<close>), with its local state.

  \<^bold>\<open>Theories and sources.\<close>

  \<^item> \<open>Prelude\<close>: results, big-endian bytes, wrapping \<open>i64\<close>, Rust string functions, decimal numbers.
  \<^item> \<open>Ids\<close> (\<open>proto/ids.rs\<close>, \<open>proto/frame.rs\<close>), \<open>Codec\<close> (\<open>proto/codec.rs\<close>), \<open>Vocab\<close> (scopes, kinds and error
    codes of \<open>proto/api.rs\<close>, \<open>proto/record.rs\<close>), \<open>Signed\<close> (\<open>proto/descriptor.rs\<close>, \<open>record.rs\<close>, \<open>children.rs\<close>,
    \<open>integrity.rs\<close>), \<open>Audit_Chain\<close> (\<open>proto/audit.rs\<close>), \<open>Sig\<close> (\<open>proto/sig.rs\<close>), \<open>Api\<close> (requests and limits of
    \<open>proto/api.rs\<close>).
  \<^item> \<open>Store_Db\<close> and \<open>Store_Ops\<close> (\<open>backend/mod.rs\<close>, \<open>journal.rs\<close>, \<open>schema.rs\<close>, \<open>sqlite.rs\<close>): the tables as one
    record of row lists, and every method of the \<open>Store\<close> trait as the transaction it runs, with
    its guards in the order of the code. \<open>write_tx\<close> commits or rolls back, \<open>write_hooked\<close> is the same
    with the commit hook of a critical operation.
  \<^item> \<open>Store_Inv\<close>, \<open>Store_Records\<close>, \<open>Store_Rotate\<close>, \<open>Store_Steps\<close>: the database invariant, kept by every
    operation; the store as a transition system. \<open>Store_Props\<close>: what puts and audit pages do.
    \<open>Store_Recovery\<close> and \<open>Store_Critical\<close>: critical operations and replay, over the locale
    \<open>journaled_op\<close>. \<open>Store_Frame\<close>: only \<open>spend\<close> touches the single-use ids. \<open>Store_Example\<close>: a concrete run.
  \<^item> \<open>File_Journal\<close> (\<open>server_core/journal.rs\<close>): the journal directory with every system call that can
    fail, and replay at start; the locale \<open>journal_spec\<close> is what the store relies on.
  \<^item> \<open>Core_Base\<close> (\<open>server_core/mod.rs\<close>, \<open>error.rs\<close>, \<open>policy.rs\<close>),
    \<open>Core_Auth\<close> (\<open>auth.rs\<close>), \<open>Core_Records\<close> (\<open>records.rs\<close>), \<open>Core_Vaults\<close> (\<open>vaults.rs\<close>, \<open>tokens.rs\<close>),
    \<open>Core_Critical\<close> (\<open>critical.rs\<close>), \<open>Core_Route\<close> (\<open>route.rs\<close>, \<open>Core::open\<close>, \<open>Core::call\<close>): the handlers, in a
    monad over a \<open>World\<close> (database, journal directory, clock reading) whose effects stay when a
    later step fails.
  \<^item> \<open>Core_Inv\<close>: the locale \<open>handler_contract\<close>, a property that every store call keeps is kept by every
    request; interpreted for the database invariant and for spent ids. \<open>Core_Access\<close>: authentication
    by cases. \<open>Core_Routing\<close>: routing against its declarative reading. \<open>Core_Authentic\<close>,
    \<open>Core_Signed_Rotation\<close>, \<open>Core_Signed_Calls\<close>: everything stored stays signed. \<open>Core_Example\<close>: a
    concrete server. \<open>Core_Props\<close>: the properties of the server as a whole.
  \<^item> \<open>Paths\<close> (\<open>proto/path.rs\<close>), \<open>Children\<close> (\<open>proto/children.rs\<close>), \<open>Pow\<close> (\<open>proto/pow.rs\<close>).
  \<^item> \<open>Primitives\<close>: the ciphers and the random source as parameters, and actions that draw from it. \<open>Keys\<close>,
    \<open>Bundles\<close> (\<open>keys/\<close>), \<open>Envelope\<close>, \<open>Seal_Records\<close>, \<open>Seal_Rotation\<close> (\<open>seal/\<close>): what a client derives, seals, signs and
    opens. \<open>Rotation_Accepted\<close>: a rotation batch a client builds, against the server's own checks.
  \<^item> \<open>Client_Api\<close> (\<open>client/api.rs\<close>, \<open>transport.rs\<close>), \<open>Client_Error\<close> (\<open>error.rs\<close>), \<open>Vault_Handle\<close>, \<open>Vault_Records\<close>,
    \<open>Vault_Owner\<close>, \<open>Vault_Copy\<close> (\<open>vault.rs\<close>, \<open>audit.rs\<close>): every operation of a handle, as an action on the shared API
    state and the handle (\<open>copy_from\<close>: and the handle copied from). The transport is any function with a state of its own, so every theorem is about
    any server. \<open>Vault_Safety\<close>: the locales \<open>handle_relation\<close> and \<open>pinning_relation\<close>, what each operation may do
    to a handle. \<open>Vault_Guarded\<close>: their interpretations, the invariant of a handle and its runs:
    \<open>handle_step\<close> is any operation but \<open>set_pins\<close>, \<open>handle_use\<close> adds the caller replacing the pins. \<open>Vault_Props\<close>: the properties of the handle and a run against a concrete server.
  \<^item> \<open>Config_Check\<close> (\<open>check.rs\<close>), \<open>Token_Client\<close> (\<open>token.rs\<close>, \<open>value.rs\<close>, \<open>owner/env.rs\<close>): the public operations over a handle;
    \<open>Token_Props\<close>: what they never send.
  \<^item> \<open>Suggest\<close> (the edit distance of \<open>owner/mod.rs\<close>), \<open>Local_State\<close> (\<open>state.rs\<close>, \<open>store.rs\<close>), \<open>Kits\<close> (\<open>proto/url.rs\<close>,
    \<open>owner/kit.rs\<close>), \<open>Owner\<close>, \<open>Owner_Ops\<close> (\<open>owner/mod.rs\<close>), \<open>Owner_Rekey\<close>, \<open>Owner_Run\<close> (\<open>owner/rekey.rs\<close>): an
    owner's operations, as actions on a record of its API cache and its local state. The key store,
    the state store and the connection to each server are fields of \<open>caller\<close> and may fail at any call.
    \<open>Owner_Frame\<close>: the locales \<open>state_relation\<close> and \<open>bookkeeping_relation\<close>, what each operation may do to the
    local state. \<open>Owner_Safe\<close>: rekeying. \<open>Owner_Inv\<close>: the invariant of the local state and an owner's runs
    \<open>owner_step\<close>. \<open>Owner_Props\<close>: a concrete owner.

  \<^bold>\<open>What is shown.\<close>

  \<^item> Formats: token strings, request headers and descriptors round trip; a single mistyped character
    is detected; signing inputs are injective and of different kinds disjoint; descriptor chains
    and audit chains commit to their history.
  \<^item> Store: the invariant of all reachable databases (unique ids, rows of existing vaults, heads that
    name the newest version, exact byte counters, one audit chain per vault); puts refine a map update
    guarded by their precondition; refusals change the audit chain only; rotations keep every version
    and reseal every surviving token; served audit pages verify.
  \<^item> Durability: a critical operation commits only with its journal record, replaying the record on
    the state before gives the state after, replay is idempotent, a restored backup catches up with what the journal holds beyond it, and a record whose
    directory flush failed keeps critical operations refused until a restart.
  \<^item> Server: every reachable state keeps the store's invariant; everything stored after any requests is
    signed; a request authenticates once (if its time is not negative); an unauthenticated or unprivileged request changes only
    spent ids or the audit chain; the routing table is unambiguous; which timestamps are accepted.
  \<^item> Client: what is written opens, what opens is authentic and in its place; bundles open for exactly
    their token and scope; a rotation loses nothing and the server accepts it; requests are signed as
    sent; against any server a handle's view stays owner-signed, its descriptor pin only advances, and so do
    its version pins until the caller replaces them; audit heads only advance; the proof-of-work search ends; the children record is a map; a config that holds a
    credential is not sent.
  \<^item> Owner: the local state stays well-formed whatever fails; a rekey that is interrupted anywhere keeps
    its plan and can be resumed, and one that completes leaves exactly the new vaults known; kits read
    back; plain http is accepted to a loopback name only, up to what follows a bracket; the suggestion distance is the edit distance.

  \<^bold>\<open>Parameters and assumptions.\<close> SHA-256, BLAKE3, Ed25519, CRC-32, hexadecimal and base64 are the fields of
  \<open>crypto\<close>; theorems that need more than their types say so (\<open>text_codecs\<close>, \<open>crc_detects_single\<close>).
  JSON is \<open>serde\<close>'s: a \<open>reader\<close> gives the value of a body or where it fails, \<open>journal_codec\<close> writes and
  reads journal records. The admission hooks, the clock and the faults of the journal directory
  are arguments too. \<open>null_crypto\<close> and \<open>ex_core\<close> instantiate all of them for evaluations. The client's
  ciphers are the fields of \<open>primitives\<close>, with what is used of them as \<open>signing_ok\<close>, \<open>box_ok\<close>, \<open>aead_ok\<close>,
  \<open>age_ok\<close>, \<open>age_keys_ok\<close> and \<open>widths_ok\<close> (decryption inverts encryption, a made signature verifies, outputs
  have their widths); \<open>toy\<close> satisfies all of them. Nothing assumes that ciphers are secure: the safety
  theorems say which signature was verified or which ciphertext was decrypted.

  \<^bold>\<open>Integers.\<close> Generations and quotas are words; timestamps are integers that \<open>i64_wrap\<close> wraps where a
  release build does; versions, revisions and sequence numbers are natural numbers that start at
  one and count operations. No definition needs fuel: every loop is structural or has a measure
  (discovery and the walk before a rekey end because a path has at most \<open>MAX_DEPTH\<close> segments),
  but for listings and audit pages, which go on for as long as a server sends cursors and full pages:
  these are partial functions into \<open>option\<close>, and \<open>None\<close> is a server that never stops.

  \<^bold>\<open>Not modelled.\<close> Reads that fail with an I/O error (SQLite, and the listing and reading of the
  journal directory); concurrent requests (the store serialises
  writers, a handler's checks and its write are modelled as one sequence; other uses of a handle's
  shared API state are the step \<open>Elsewhere\<close>); human-readable messages of client errors; writing the two state
  files and the in-memory stores; the HTTP shell and transport, the command line, the terminal UI, the MCP and
  Python bindings, the data-directory lock: I/O and presentation around the modelled code.
\<close>

end
